(* ===== verification/Rufus_Prelude.thy ===== *)
theory Rufus_Prelude
  imports Main "HOL-Library.Word"
begin

text \<open>
  Shared vocabulary of the development: the machine types of the C sources, byte strings,
  slices and \<^verbatim>\<open>memcpy\<close> on buffers, little- and big-endian codecs, bounds-checked memory
  reads, and the division of a message into blocks. Everything is executable.
\<close>

unbundle bit_operations_syntax

section \<open>Machine types\<close>

type_synonym byte = "8 word"
type_synonym u16 = "16 word"
type_synonym u32 = "32 word"
type_synonym u64 = "64 word"
type_synonym bytes = "byte list"

named_theorems frame_simps \<open>what an operation leaves unchanged\<close>

section \<open>Slices and copies\<close>

definition slice :: "nat \<Rightarrow> nat \<Rightarrow> 'a list \<Rightarrow> 'a list" where
  "slice off n xs = take n (drop off xs)"

text \<open>\<^verbatim>\<open>memcpy(dst + off, src, n)\<close> as the new contents of \<^verbatim>\<open>dst\<close>.\<close>

definition memcpy_to :: "nat \<Rightarrow> 'a list \<Rightarrow> 'a list \<Rightarrow> 'a list" where
  "memcpy_to off src dst = take off dst @ src @ drop (off + length src) dst"

text \<open>
  Reading \<open>n\<close> bytes at offset \<open>off\<close> of the memory a pointer gives access to: \<open>None\<close> is a
  read past the end of the object.
\<close>

definition mem_read :: "'a list \<Rightarrow> nat \<Rightarrow> nat \<Rightarrow> 'a list option" where
  "mem_read mem off n = (if off + n \<le> length mem then Some (slice off n mem) else None)"

lemma length_slice [simp]: "length (slice off n xs) = min n (length xs - off)"
  by (simp add: slice_def)

lemma slice_0_take [simp]: "slice 0 n xs = take n xs"
  by (simp add: slice_def)

lemma slice_Zero: "slice off 0 xs = []"
  by (simp add: slice_def)

lemma slice_Cons: "off < length xs \<Longrightarrow> slice off (Suc n) xs = xs ! off # slice (Suc off) n xs"
  by (simp add: slice_def Cons_nth_drop_Suc [symmetric])

lemma slice_nth: "i < n \<Longrightarrow> off + i < length xs \<Longrightarrow> slice off n xs ! i = xs ! (off + i)"
  by (simp add: slice_def)

lemma slice_slice:
  "i + m \<le> n \<Longrightarrow> slice i m (slice off n xs) = slice (off + i) m xs"
  by (simp add: slice_def drop_take min_def add.commute)

lemma slice_append_left: "off + n \<le> length xs \<Longrightarrow> slice off n (xs @ ys) = slice off n xs"
  by (simp add: slice_def)

lemma slice_append_right:
  "length xs \<le> off \<Longrightarrow> slice off n (xs @ ys) = slice (off - length xs) n ys"
  by (simp add: slice_def)

lemma slice_take: "off + n \<le> k \<Longrightarrow> slice off n (take k xs) = slice off n xs"
  by (simp add: slice_def take_drop min_def)

lemma length_memcpy_to [simp]:
  "off + length src \<le> length dst \<Longrightarrow> length (memcpy_to off src dst) = length dst"
  by (simp add: memcpy_to_def)

lemma memcpy_to_Nil [simp]: "memcpy_to off [] dst = dst"
  by (simp add: memcpy_to_def)

lemma memcpy_to_not_Nil [simp]: "src \<noteq> [] \<Longrightarrow> memcpy_to off src dst \<noteq> []"
  by (simp add: memcpy_to_def)

lemma take_memcpy_to:
  "off \<le> length dst \<Longrightarrow> take off (memcpy_to off src dst) = take off dst"
  by (simp add: memcpy_to_def)

lemma take_memcpy_to_end:
  "off \<le> length dst \<Longrightarrow> n = off + length src \<Longrightarrow> take n (memcpy_to off src dst) = take off dst @ src"
  by (simp add: memcpy_to_def)

lemma memcpy_to_nth:
  assumes "off + length src \<le> length dst" and "i < length dst"
  shows "memcpy_to off src dst ! i =
    (if off \<le> i \<and> i < off + length src then src ! (i - off) else dst ! i)"
  using assms by (auto simp: memcpy_to_def nth_append)

lemma slice_memcpy_to_same:
  "off + length src \<le> length dst \<Longrightarrow> n = length src \<Longrightarrow> slice off n (memcpy_to off src dst) = src"
  by (simp add: slice_def memcpy_to_def)

lemma slice_memcpy_to_other:
  assumes "off + length src \<le> length dst" "i + n \<le> length dst"
    and "i + n \<le> off \<or> off + length src \<le> i"
  shows "slice i n (memcpy_to off src dst) = slice i n dst"
proof (rule nth_equalityI)
  show "length (slice i n (memcpy_to off src dst)) = length (slice i n dst)"
    using assms(1) by simp
next
  fix k assume "k < length (slice i n (memcpy_to off src dst))"
  then show "slice i n (memcpy_to off src dst) ! k = slice i n dst ! k"
    using assms by (auto simp: slice_nth memcpy_to_nth)
qed

lemma mem_read_Some [simp]:
  "off + n \<le> length mem \<Longrightarrow> mem_read mem off n = Some (slice off n mem)"
  by (simp add: mem_read_def)

lemma mem_read_eq_None [simp]: "mem_read mem off n = None \<longleftrightarrow> length mem < off + n"
  by (auto simp: mem_read_def)

lemma mem_read_SomeD:
  "mem_read mem off n = Some xs \<Longrightarrow> off + n \<le> length mem \<and> xs = slice off n mem"
  by (auto simp: mem_read_def split: if_splits)

section \<open>Byte codecs\<close>

fun le_word :: "bytes \<Rightarrow> 'a::len word" where
  "le_word [] = 0"
| "le_word (b # bs) = ucast b OR push_bit 8 (le_word bs)"

definition be_word :: "bytes \<Rightarrow> 'a::len word" where
  "be_word bs = le_word (rev bs)"

fun le_bytes :: "nat \<Rightarrow> 'a::len word \<Rightarrow> bytes" where
  "le_bytes 0 w = []"
| "le_bytes (Suc n) w = ucast w # le_bytes n (drop_bit 8 w)"

definition be_bytes :: "nat \<Rightarrow> 'a::len word \<Rightarrow> bytes" where
  "be_bytes n w = rev (le_bytes n w)"

lemma length_le_bytes [simp]: "length (le_bytes n w) = n"
  by (induction n arbitrary: w) auto

lemma length_be_bytes [simp]: "length (be_bytes n w) = n"
  by (simp add: be_bytes_def)

lemma le_bytes_nth: "i < n \<Longrightarrow> le_bytes n w ! i = ucast (drop_bit (8 * i) w)"
proof (induction n arbitrary: w i)
  case 0
  then show ?case by simp
next
  case (Suc n)
  then show ?case
    by (cases i) (simp_all add: add.commute)
qed

lemma le_word_le_bytes:
  fixes w :: "'a::len word"
  shows "le_word (le_bytes n w) = take_bit (8 * n) w"
proof (induction n arbitrary: w)
  case 0
  then show ?case by simp
next
  case (Suc n)
  show ?case
    by (rule bit_eqI) (auto simp: Suc bit_simps le_less_trans)
qed

lemma be_word_be_bytes:
  fixes w :: "'a::len word"
  shows "be_word (be_bytes n w) = take_bit (8 * n) w"
  by (simp add: be_word_def be_bytes_def le_word_le_bytes)

lemma le_word_roundtrip [simp]:
  fixes w :: "'a::len word"
  shows "LENGTH('a) \<le> 8 * n \<Longrightarrow> le_word (le_bytes n w) = w"
  by (simp add: le_word_le_bytes take_bit_word_eq_self)

lemma be_word_roundtrip [simp]:
  fixes w :: "'a::len word"
  shows "LENGTH('a) \<le> 8 * n \<Longrightarrow> be_word (be_bytes n w) = w"
  by (simp add: be_word_be_bytes take_bit_word_eq_self)

text \<open>The number that a little-endian byte string stands for.\<close>

fun le_nat :: "bytes \<Rightarrow> nat" where
  "le_nat [] = 0"
| "le_nat (b # bs) = unat b + 256 * le_nat bs"

lemma le_nat_less: "le_nat bs < 256 ^ length bs"
proof (induction bs)
  case Nil
  then show ?case by simp
next
  case (Cons b bs)
  have "unat b < 256"
    using unsigned_less [of b, where 'a = nat] by simp
  then show ?case
    using Cons by simp
qed

lemma unat_le_word:
  assumes "8 * length bs \<le> LENGTH('a::len)"
  shows "unat (le_word bs :: 'a word) = le_nat bs"
  using assms
proof (induction bs)
  case Nil
  then show ?case by simp
next
  case (Cons b bs)
  have ih: "unat (le_word bs :: 'a word) = le_nat bs"
    using Cons by simp
  have "le_nat (b # bs) < 256 ^ length (b # bs)"
    by (rule le_nat_less)
  also have "\<dots> = 2 ^ (8 * length (b # bs))"
    by (simp add: power_mult power_add)
  also have "\<dots> \<le> 2 ^ LENGTH('a)"
    using Cons.prems by (intro power_increasing) simp_all
  finally have less: "unat b + 256 * le_nat bs < 2 ^ LENGTH('a)"
    by simp
  have hi: "unat (push_bit 8 (le_word bs) :: 'a word) = 256 * le_nat bs"
    using less by (subst unsigned_push_bit_eq) (simp add: ih push_bit_eq_mult take_bit_nat_eq_self mult.commute)
  have b: "unat (ucast b :: 'a word) = unat b"
  proof -
    have "unat b < 2 ^ 8"
      using unsigned_less [of b, where 'a = nat] by simp
    also have "(2::nat) ^ 8 \<le> 2 ^ LENGTH('a)"
      using Cons.prems by (intro power_increasing) simp_all
    finally show ?thesis
      by (simp add: unsigned_ucast_eq take_bit_nat_eq_self)
  qed
  have "(ucast b :: 'a word) AND push_bit 8 (le_word bs) = 0"
    by (rule bit_eqI) (auto simp: bit_simps dest: bit_imp_le_length)
  then have "le_word (b # bs) = (ucast b :: 'a word) + push_bit 8 (le_word bs)"
    by (simp add: disjunctive_add_eq_or)
  then show ?case
    using less by (simp add: unat_word_ariths b hi)
qed

section \<open>Full blocks of a message\<close>

function chunks :: "nat \<Rightarrow> 'a list \<Rightarrow> 'a list list" where
  "chunks n xs = (if n = 0 \<or> length xs < n then [] else take n xs # chunks n (drop n xs))"
  by pat_completeness auto
termination
  by (relation "measure (\<lambda>(n, xs). length xs)") auto

declare chunks.simps [simp del]

lemma chunks_short [simp]: "length xs < n \<Longrightarrow> chunks n xs = []"
  by (simp add: chunks.simps)

lemma chunks_cons:
  "0 < n \<Longrightarrow> n \<le> length xs \<Longrightarrow> chunks n xs = take n xs # chunks n (drop n xs)"
  by (simp add: chunks.simps [of n xs])

lemma chunks_append:
  "0 < n \<Longrightarrow> n dvd length xs \<Longrightarrow> chunks n (xs @ ys) = chunks n xs @ chunks n ys"
proof (induction n xs rule: chunks.induct)
  case (1 n xs)
  show ?case
  proof (cases "length xs < n")
    case True
    with "1.prems" have "xs = []"
      by (auto dest: dvd_imp_le)
    with True show ?thesis by simp
  next
    case False
    with "1.prems" have "n dvd length (drop n xs)"
      by (auto simp: dvd_diff_nat)
    with False 1 have "chunks n (drop n xs @ ys) = chunks n (drop n xs) @ chunks n ys"
      by simp
    with False "1.prems" show ?thesis
      by (simp add: chunks_cons)
  qed
qed

lemma chunks_length: "blk \<in> set (chunks n xs) \<Longrightarrow> length blk = n"
  by (induction n xs rule: chunks.induct) (subst (asm) (2) chunks.simps, auto split: if_splits)

lemma chunks_single [simp]: "0 < n \<Longrightarrow> length xs = n \<Longrightarrow> chunks n xs = [xs]"
  by (simp add: chunks_cons)

end
