(* ===== verification/Hash_Stream.thy ===== *)
theory Hash_Stream
  imports Rufus_Prelude
begin

text \<open>
  The hash context of \<^verbatim>\<open>src/common/rufus.h\<close> and the streaming part of
  \<^verbatim>\<open>src/common/hash.c\<close>: how \<^verbatim>\<open>*_write\<close> cuts the input into blocks around the
  partially filled context buffer and how \<^verbatim>\<open>*_final\<close> pads the last block. The block transforms are
  in the theories of the four algorithms. The sources have one textual copy of the write and
  final routines per algorithm; \<open>md_write\<close> and \<open>md_final\<close> are that text with the block size and
  the transform as arguments, and the algorithms instantiate them. \<^verbatim>\<open>md5_write\<close> and
  \<^verbatim>\<open>md5_final\<close> differ from the others and have their own bodies.

  The build modelled is the portable one: no x86 SHA extensions.
\<close>

section \<open>The context\<close>

definition MAX_BLOCKSIZE :: nat where "MAX_BLOCKSIZE = 128"
definition MD5_BLOCKSIZE :: nat where "MD5_BLOCKSIZE = 64"
definition SHA1_BLOCKSIZE :: nat where "SHA1_BLOCKSIZE = 64"
definition SHA256_BLOCKSIZE :: nat where "SHA256_BLOCKSIZE = 64"
definition SHA512_BLOCKSIZE :: nat where "SHA512_BLOCKSIZE = 128"
definition MD5_HASHSIZE :: nat where "MD5_HASHSIZE = 16"
definition SHA1_HASHSIZE :: nat where "SHA1_HASHSIZE = 20"
definition SHA256_HASHSIZE :: nat where "SHA256_HASHSIZE = 32"
definition SHA512_HASHSIZE :: nat where "SHA512_HASHSIZE = 64"

lemmas hash_sizes = MAX_BLOCKSIZE_def MD5_BLOCKSIZE_def SHA1_BLOCKSIZE_def SHA256_BLOCKSIZE_def
  SHA512_BLOCKSIZE_def MD5_HASHSIZE_def SHA1_HASHSIZE_def SHA256_HASHSIZE_def SHA512_HASHSIZE_def

record hash_context =
  buf :: bytes
  state :: "u64 list"
  bytecount :: u64

type_synonym transform = "hash_context \<Rightarrow> bytes \<Rightarrow> hash_context"

text \<open>\<^verbatim>\<open>memset(ctx, 0, sizeof( *ctx))\<close>\<close>

definition zero_context :: hash_context where
  "zero_context = \<lparr>buf = replicate MAX_BLOCKSIZE 0, state = replicate 8 0, bytecount = 0\<rparr>"

section \<open>Writing\<close>

text \<open>\<^verbatim>\<open>while (len >= BLOCKSIZE) { transform(ctx, buf); buf += BLOCKSIZE; len -= BLOCKSIZE; }\<close>\<close>

function process_blocks ::
  "nat \<Rightarrow> transform \<Rightarrow> hash_context \<Rightarrow> bytes \<Rightarrow> nat \<Rightarrow> (hash_context \<times> bytes \<times> nat) option" where
  "process_blocks bs transform ctx mem len =
     (if bs = 0 \<or> len < bs then Some (ctx, mem, len)
      else case mem_read mem 0 bs of
             None \<Rightarrow> None
           | Some data \<Rightarrow> process_blocks bs transform (transform ctx data) (drop bs mem) (len - bs))"
  by pat_completeness auto
termination
  by (relation "measure (\<lambda>(bs, transform, ctx, mem, len). len)") auto

declare process_blocks.simps [simp del]

text \<open>The block loop and the copy of the remaining bytes into the context buffer.\<close>

definition write_tail ::
  "nat \<Rightarrow> transform \<Rightarrow> hash_context \<Rightarrow> bytes \<Rightarrow> nat \<Rightarrow> hash_context option" where
  "write_tail bs transform ctx mem len =
     (case process_blocks bs transform ctx mem len of
        None \<Rightarrow> None
      | Some (ctx, mem, len) \<Rightarrow>
          (case mem_read mem 0 len of
             None \<Rightarrow> None
           | Some src \<Rightarrow> Some (ctx\<lparr>buf := memcpy_to 0 src (buf ctx)\<rparr>)))"

definition md_write ::
  "nat \<Rightarrow> transform \<Rightarrow> hash_context \<Rightarrow> bytes \<Rightarrow> nat \<Rightarrow> hash_context option" where
  "md_write bs transform ctx mem len =
     (let num = unat (bytecount ctx AND of_nat (bs - 1));
          ctx = ctx\<lparr>bytecount := bytecount ctx + of_nat len\<rparr>
      in if num \<noteq> 0 then
           let p = num; num = bs - num
           in if len < num then
                (case mem_read mem 0 len of
                   None \<Rightarrow> None
                 | Some src \<Rightarrow> Some (ctx\<lparr>buf := memcpy_to p src (buf ctx)\<rparr>))
              else
                (case mem_read mem 0 num of
                   None \<Rightarrow> None
                 | Some src \<Rightarrow>
                     let ctx = ctx\<lparr>buf := memcpy_to p src (buf ctx)\<rparr>;
                         ctx = transform ctx (buf ctx)
                     in write_tail bs transform ctx (drop num mem) (len - num))
         else write_tail bs transform ctx mem len)"

section \<open>Padding\<close>

text \<open>
  The padding loop of the SHA finals. The block size is a power of two, so
  \<^verbatim>\<open>pos &= BLOCKSIZE - 1\<close> is \<open>pos mod bs\<close>. The two conditions on \<open>lim\<close> only make the function
  total: they are false for every block size and length field of the sources.
\<close>

function pad_loop :: "nat \<Rightarrow> nat \<Rightarrow> transform \<Rightarrow> hash_context \<Rightarrow> nat \<Rightarrow> hash_context" where
  "pad_loop bs lim transform ctx pos =
     (if pos = lim \<or> lim = 0 \<or> bs < lim then ctx
      else let pos = pos mod bs;
               ctx = (if pos = 0 then transform ctx (buf ctx) else ctx)
           in pad_loop bs lim transform (ctx\<lparr>buf := (buf ctx)[pos := 0]\<rparr>) (pos + 1))"
  by pat_completeness auto
termination
proof (relation "measure (\<lambda>(bs, lim, transform, ctx, pos).
    if pos \<le> lim then lim - pos else if pos \<le> bs then lim + bs - pos else 3 * bs)", goal_cases)
  case 1
  show ?case by simp
next
  case (2 bs lim transform ctx pos q c)
  have "pos mod bs = (if pos < bs then pos else if pos = bs then 0 else pos mod bs)"
    by simp
  moreover have "Suc (pos mod bs) \<le> bs"
    using 2 by (simp add: Suc_le_eq)
  ultimately show ?case
    using 2 by (auto split: if_splits)
qed

declare pad_loop.simps [simp del]

text \<open>
  \<^verbatim>\<open>sha*_final\<close>: the 0x80 byte, zeros up to the length field, the length field, the last transform,
  and the state words written over the buffer by \<open>out\<close>.
\<close>

definition md_final ::
  "nat \<Rightarrow> (u64 \<Rightarrow> bytes) \<Rightarrow> transform \<Rightarrow> (u64 list \<Rightarrow> bytes) \<Rightarrow> hash_context \<Rightarrow> hash_context" where
  "md_final bs lenfield transform out ctx =
     (let pos = unat (bytecount ctx AND of_nat (bs - 1));
          field = lenfield (bytecount ctx);
          ctx = ctx\<lparr>buf := (buf ctx)[pos := 0x80]\<rparr>;
          ctx = pad_loop bs (bs - length field) transform ctx (pos + 1);
          ctx = ctx\<lparr>buf := memcpy_to (bs - length field) field (buf ctx)\<rparr>;
          ctx = transform ctx (buf ctx)
      in ctx\<lparr>buf := memcpy_to 0 (out (state ctx)) (buf ctx)\<rparr>)"

section \<open>What the context stands for\<close>

text \<open>One block on the chaining state, and a sequence of blocks.\<close>

definition md_compress :: "transform \<Rightarrow> u64 list \<Rightarrow> bytes \<Rightarrow> u64 list" where
  "md_compress transform st blk =
     state (transform \<lparr>buf = [], state = st, bytecount = 0\<rparr> blk)"

definition md_fold :: "transform \<Rightarrow> u64 list \<Rightarrow> bytes list \<Rightarrow> u64 list" where
  "md_fold transform st blks = foldl (md_compress transform) st blks"

lemma md_fold_simps [simp]:
  "md_fold tr st [] = st"
  "md_fold tr st (b # bs) = md_fold tr (md_compress tr st b) bs"
  "md_fold tr st (xs @ ys) = md_fold tr (md_fold tr st xs) ys"
  by (simp_all add: md_fold_def)

text \<open>
  The context has absorbed the message \<open>msg\<close>: its state is that of the full blocks, its buffer
  starts with the incomplete last block and its counter is the length (modulo \<open>2 ^ 64\<close>).
\<close>

definition absorbed :: "nat \<Rightarrow> transform \<Rightarrow> u64 list \<Rightarrow> bytes \<Rightarrow> hash_context \<Rightarrow> bool" where
  "absorbed bs transform init msg ctx \<longleftrightarrow>
     length (buf ctx) = MAX_BLOCKSIZE \<and>
     bytecount ctx = of_nat (length msg) \<and>
     state ctx = md_fold transform init (chunks bs msg) \<and>
     take (length msg mod bs) (buf ctx) = drop (length msg - length msg mod bs) msg"

text \<open>Padding of the standards: one 0x80 byte, the fewest zeros, the length field.\<close>

definition md_pad :: "nat \<Rightarrow> bytes \<Rightarrow> nat \<Rightarrow> bytes" where
  "md_pad bs field n = 0x80 # replicate ((2 * bs - length field - 1 - n mod bs) mod bs) 0 @ field"

section \<open>Streaming lemmas, for any transform\<close>

lemma unat_and_63: "unat (w AND 63 :: u64) = unat w mod 64"
proof -
  have "w AND 63 = take_bit 6 w"
    by (simp add: take_bit_eq_mask mask_eq_exp_minus_1)
  then show ?thesis
    by (simp add: take_bit_eq_mod unat_mod)
qed

lemma unat_and_127: "unat (w AND 127 :: u64) = unat w mod 128"
proof -
  have "w AND 127 = take_bit 7 w"
    by (simp add: take_bit_eq_mask mask_eq_exp_minus_1)
  then show ?thesis
    by (simp add: take_bit_eq_mod unat_mod)
qed

lemma unat_of_nat_mod:
  assumes "m dvd 2 ^ 64"
  shows "unat (of_nat n :: u64) mod m = n mod m"
proof -
  have "unat (of_nat n :: u64) = n mod 2 ^ 64"
    by (simp add: unat_of_nat)
  then show ?thesis
    using assms by (simp add: mod_mod_cancel)
qed

text \<open>A write of more bytes than the caller's memory holds reads past its end.\<close>

lemma process_blocks_overread:
  assumes "length mem < len" "process_blocks bs transform ctx mem len = Some (ctx', mem', len')"
  shows "length mem' < len'"
  using assms
proof (induction bs transform ctx mem len rule: process_blocks.induct)
  case (1 bs transform ctx mem len)
  show ?case
  proof (cases "bs = 0 \<or> len < bs")
    case True
    then show ?thesis
      using "1.prems" by (simp add: process_blocks.simps)
  next
    case False
    then obtain data where "mem_read mem 0 bs = Some data"
      "process_blocks bs transform (transform ctx data) (drop bs mem) (len - bs) = Some (ctx', mem', len')"
      using "1.prems"(2) by (subst (asm) process_blocks.simps) (auto split: option.splits)
    then show ?thesis
      using "1.IH" "1.prems"(1) False by (auto dest!: mem_read_SomeD)
  qed
qed

lemma write_tail_overread: "length mem < len \<Longrightarrow> write_tail bs transform ctx mem len = None"
  using process_blocks_overread [of mem len bs transform ctx]
  by (auto simp: write_tail_def mem_read_def not_le [symmetric] split: option.splits)

lemma md_write_overread:
  assumes "length mem < len"
  shows "md_write bs transform ctx mem len = None"
proof -
  have "write_tail bs transform c (drop n mem) (len - n) = None" if "n \<le> len" "n \<le> length mem" for c n
    using assms that by (intro write_tail_overread) simp
  then show ?thesis
    using assms by (auto simp: md_write_def Let_def write_tail_overread mem_read_def split: option.splits)
qed

text \<open>The interface of a block transform to the streaming code.\<close>

locale block_transform =
  fixes bs :: nat and transform :: transform
  assumes bs_cases: "bs = 64 \<or> bs = 128"
    and transform_buf: "buf (transform c d) = buf c"
    and transform_bytecount: "bytecount (transform c d) = bytecount c"
    and transform_local: "state (transform c d) = md_compress transform (state c) (take bs d)"
begin

lemma bs_pos: "0 < bs" and bs_max: "bs \<le> MAX_BLOCKSIZE" and bs_dvd: "bs dvd 2 ^ 64"
  using bs_cases by (auto simp: MAX_BLOCKSIZE_def)

lemmas transform_simps = transform_buf transform_bytecount transform_local

lemma block_pos: "unat (of_nat n AND of_nat (bs - 1) :: u64) = n mod bs"
proof -
  have "unat (of_nat n AND of_nat (bs - 1) :: u64) = unat (of_nat n :: u64) mod bs"
    using bs_cases by (auto simp: unat_and_63 unat_and_127)
  then show ?thesis
    by (simp only: unat_of_nat_mod [OF bs_dvd])
qed

lemma mod_less_bs [simp]: "n mod bs < bs"
  using bs_pos by simp

lemma process_blocks_eq:
  "len \<le> length mem \<Longrightarrow>
   process_blocks bs transform ctx mem len =
     Some (ctx\<lparr>state := md_fold transform (state ctx) (chunks bs (take len mem))\<rparr>,
           drop (len - len mod bs) mem, len mod bs)"
proof (induction len arbitrary: ctx mem rule: less_induct)
  case (less len)
  show ?case
  proof (cases "len < bs")
    case True
    then show ?thesis
      by (simp add: process_blocks.simps)
  next
    case False
    let ?c = "transform ctx (take bs mem)"
    have IH: "process_blocks bs transform ?c (drop bs mem) (len - bs) =
      Some (?c\<lparr>state := md_fold transform (state ?c) (chunks bs (take (len - bs) (drop bs mem)))\<rparr>,
            drop (len - bs - (len - bs) mod bs) (drop bs mem), (len - bs) mod bs)"
      using False less.prems bs_pos by (intro less.IH) auto
    have m: "(len - bs) mod bs = len mod bs"
      using False by (simp add: le_mod_geq)
    have q: "bs + (len - (bs + len mod bs)) = len - len mod bs"
      using False m mod_less_eq_dividend [of "len - bs" bs] by simp
    have c: "chunks bs (take len mem) = take bs mem # chunks bs (take (len - bs) (drop bs mem))"
      using False less.prems bs_pos by (simp add: chunks_cons min_def drop_take)
    have s: "?c\<lparr>state := x\<rparr> = ctx\<lparr>state := x\<rparr>" for x
      by (cases ctx, cases ?c) (metis (no_types, lifting) hash_context.select_convs
          hash_context.surjective hash_context.update_convs(2) transform_buf transform_bytecount)
    show ?thesis
      using False less.prems bs_pos IH
      by (simp add: process_blocks.simps [of bs transform ctx] m q c s transform_local add.commute)
  qed
qed

lemma write_tail_eq:
  assumes "len \<le> length mem" "length (buf ctx) = MAX_BLOCKSIZE"
  shows "write_tail bs transform ctx mem len =
    Some (ctx\<lparr>state := md_fold transform (state ctx) (chunks bs (take len mem)),
              buf := memcpy_to 0 (drop (len - len mod bs) (take len mem)) (buf ctx)\<rparr>)"
proof -
  have "take (len mod bs) (drop (len - len mod bs) mem) = drop (len - len mod bs) (take len mem)"
    by (simp add: drop_take)
  moreover have "len mod bs + (len - len mod bs) \<le> length mem"
    using assms by simp
  ultimately show ?thesis
    using assms by (simp add: write_tail_def process_blocks_eq)
qed

text \<open>Splitting a message at its last block boundary.\<close>

lemma full_blocks_dvd: "bs dvd length msg - length msg mod bs"
  by simp

lemma chunks_full: "chunks bs (take (length msg - length msg mod bs) msg @ ys) =
   chunks bs msg @ chunks bs ys"
proof -
  let ?f = "take (length msg - length msg mod bs) msg"
  have d: "bs dvd length ?f"
    using full_blocks_dvd [of msg] by (simp add: min.absorb2)
  have "chunks bs (?f @ drop (length msg - length msg mod bs) msg) =
      chunks bs ?f @ chunks bs (drop (length msg - length msg mod bs) msg)"
    using chunks_append [OF bs_pos d] .
  then have "chunks bs msg = chunks bs ?f"
    by simp
  with chunks_append [OF bs_pos d] show ?thesis
    by simp
qed

lemma chunks_split:
  "chunks bs (msg @ data) =
   chunks bs msg @ chunks bs (drop (length msg - length msg mod bs) msg @ data)"
  using chunks_full [of msg "drop (length msg - length msg mod bs) msg @ data"]
  by (simp add: append_assoc [symmetric] del: append_assoc)

lemma drop_last_boundary:
  assumes "r < bs" "bs dvd n" "length xs = n + r"
  shows "drop (length xs - length xs mod bs) xs = drop n xs"
  using assms by (auto elim!: dvdE)

text \<open>
  A message given as full blocks followed by a tail shorter than a block is absorbed when the
  state is that of the blocks and the buffer starts with the tail.
\<close>

lemma absorbedI:
  assumes "length (buf ctx) = MAX_BLOCKSIZE" "bytecount ctx = of_nat (length (pre @ rest))"
    and "bs dvd length pre" "length rest < bs" "state ctx = md_fold transform init (chunks bs pre)"
    and "take (length rest) (buf ctx) = rest"
  shows "absorbed bs transform init (pre @ rest) ctx"
proof -
  have m: "length (pre @ rest) mod bs = length rest"
    using assms(3,4) by (auto elim!: dvdE)
  have c: "chunks bs (pre @ rest) = chunks bs pre"
    using assms(3,4) by (simp add: chunks_append bs_pos)
  show ?thesis
    unfolding absorbed_def m c using assms by simp
qed

lemma absorbedE:
  assumes "absorbed bs transform init msg ctx"
  obtains pre rest where "msg = pre @ rest" "bs dvd length pre" "length rest < bs"
    "length rest = length msg mod bs" "length (buf ctx) = MAX_BLOCKSIZE"
    "bytecount ctx = of_nat (length msg)" "state ctx = md_fold transform init (chunks bs pre)"
    "take (length rest) (buf ctx) = rest"
proof -
  let ?n = "length msg - length msg mod bs"
  have l: "length (drop ?n msg) = length msg mod bs"
    by simp
  have "chunks bs (take ?n msg) = chunks bs msg"
    using chunks_full [of msg "[]"] bs_pos by simp
  with assms l full_blocks_dvd [of msg] show ?thesis
    by (intro that [of "take ?n msg" "drop ?n msg"]) (simp_all add: absorbed_def min.absorb2)
qed

lemma write_tail_absorbs:
  assumes "length (buf c) = MAX_BLOCKSIZE" "len \<le> length mem" "bs dvd length pre"
    and "bytecount c = of_nat (length (pre @ take len mem))"
    and "state c = md_fold transform init (chunks bs pre)"
  shows "\<exists>c'. write_tail bs transform c mem len = Some c' \<and>
    absorbed bs transform init (pre @ take len mem) c'"
proof -
  let ?d = "take len mem" and ?q = "len - len mod bs"
  let ?c = "c\<lparr>state := md_fold transform (state c) (chunks bs ?d),
              buf := memcpy_to 0 (drop ?q ?d) (buf c)\<rparr>"
  have l: "length ?d = len" "length (take ?q ?d) = ?q" "length (drop ?q ?d) = len mod bs"
    using assms(2) by simp_all
  have ch: "chunks bs (pre @ take ?q ?d) = chunks bs pre @ chunks bs ?d"
    using assms(3) chunks_full [of ?d "[]"] l bs_pos by (simp add: chunks_append)
  have "len mod bs \<le> length (buf c)"
    using assms(1) bs_max mod_less_bs [of len] by linarith
  then have lb: "length (buf ?c) = MAX_BLOCKSIZE"
    using assms(1) l by simp
  have "absorbed bs transform init ((pre @ take ?q ?d) @ drop ?q ?d) ?c"
  proof (rule absorbedI)
    show "bs dvd length (pre @ take ?q ?d)"
      using dvd_add [OF assms(3) full_blocks_dvd [of ?d]] by (simp only: length_append l)
    show "length (drop ?q ?d) < bs"
      using l(3) by simp
    show "state ?c = md_fold transform init (chunks bs (pre @ take ?q ?d))"
      using assms(5) ch by simp
    show "bytecount ?c = of_nat (length ((pre @ take ?q ?d) @ drop ?q ?d))"
      unfolding append_assoc append_take_drop_id using assms(4) by simp
    show "take (length (drop ?q ?d)) (buf ?c) = drop ?q ?d"
      by (simp add: memcpy_to_def)
  qed (rule lb)
  then have "absorbed bs transform init (pre @ ?d) ?c"
    unfolding append_assoc append_take_drop_id .
  then show ?thesis
    using assms(1,2) by (simp add: write_tail_eq)
qed

lemma write_short_absorbs:
  assumes "length (buf c) = MAX_BLOCKSIZE" "bs dvd length pre" "length (rest @ data) < bs"
    and "bytecount c = of_nat (length (pre @ rest @ data))"
    and "state c = md_fold transform init (chunks bs pre)" "take (length rest) (buf c) = rest"
  shows "absorbed bs transform init (pre @ rest @ data) (c\<lparr>buf := memcpy_to (length rest) data (buf c)\<rparr>)"
proof (rule absorbedI)
  have "length rest + length data \<le> length (buf c)"
    using assms(1,3) bs_max by simp
  then show "length (buf (c\<lparr>buf := memcpy_to (length rest) data (buf c)\<rparr>)) = MAX_BLOCKSIZE"
    and "take (length (rest @ data)) (buf (c\<lparr>buf := memcpy_to (length rest) data (buf c)\<rparr>)) = rest @ data"
    using assms(1,6) by (simp_all add: take_memcpy_to_end)
qed (use assms in simp_all)

lemma fill_block_absorbs:
  assumes "length (buf c) = MAX_BLOCKSIZE" "bs dvd length pre" "length (rest @ data) = bs"
    and "state c = md_fold transform init (chunks bs pre)" "take (length rest) (buf c) = rest"
    and "c' = c\<lparr>buf := memcpy_to (length rest) data (buf c)\<rparr>"
  shows "length (buf (transform c' (buf c'))) = MAX_BLOCKSIZE"
    and "bytecount (transform c' (buf c')) = bytecount c"
    and "state (transform c' (buf c')) = md_fold transform init (chunks bs (pre @ rest @ data))"
    and "bs dvd length (pre @ rest @ data)"
proof -
  have le: "length rest + length data \<le> length (buf c)"
    using assms(1,3) bs_max by simp
  then show "length (buf (transform c' (buf c'))) = MAX_BLOCKSIZE"
    "bytecount (transform c' (buf c')) = bytecount c"
    using assms(1,6) by (simp_all add: transform_simps)
  have "take bs (buf c') = rest @ data"
    using le assms(3,5,6) by (simp add: take_memcpy_to_end)
  then show "state (transform c' (buf c')) = md_fold transform init (chunks bs (pre @ rest @ data))"
    using assms by (simp add: transform_local chunks_append bs_pos)
  show "bs dvd length (pre @ rest @ data)"
    using assms(2,3) by simp
qed

lemma write_absorbs:
  assumes "absorbed bs transform init msg ctx" and "len \<le> length mem"
  shows "\<exists>ctx'. md_write bs transform ctx mem len = Some ctx' \<and>
    absorbed bs transform init (msg @ take len mem) ctx'"
proof -
  obtain pre rest where m: "msg = pre @ rest" "bs dvd length pre" "length rest < bs"
    "length rest = length msg mod bs" "length (buf ctx) = MAX_BLOCKSIZE"
    "bytecount ctx = of_nat (length msg)" "state ctx = md_fold transform init (chunks bs pre)"
    "take (length rest) (buf ctx) = rest"
    using assms(1) by (rule absorbedE)
  let ?k = "bs - length rest"
  let ?c = "ctx\<lparr>bytecount := bytecount ctx + of_nat len\<rparr>"
  have num: "unat (bytecount ctx AND of_nat (bs - 1)) = length rest"
    using m(4,6) by (simp only: block_pos)
  have cnt: "bytecount ?c = of_nat (length (pre @ rest @ take len mem))"
    using m(1,6) assms(2) by (simp add: min_def)
  consider "rest = []" | "rest \<noteq> []" "len < ?k" | "rest \<noteq> []" "?k \<le> len"
    by linarith
  then show ?thesis
  proof cases
    case 1
    then have "md_write bs transform ctx mem len = write_tail bs transform ?c mem len"
      using num by (simp add: md_write_def)
    with 1 show ?thesis
      using write_tail_absorbs [of ?c len mem pre init] m(1,2,5,7) cnt assms(2) by simp
  next
    case 2
    then have "md_write bs transform ctx mem len =
        Some (?c\<lparr>buf := memcpy_to (length rest) (take len mem) (buf ?c)\<rparr>)"
      using num assms(2) by (simp add: md_write_def Let_def)
    with 2 show ?thesis
      using write_short_absorbs [of ?c pre rest "take len mem" init] m(1,2,5,7,8) cnt assms(2)
      by (simp add: less_diff_conv)
  next
    case 3
    define c' where "c' = ?c\<lparr>buf := memcpy_to (length rest) (take ?k mem) (buf ?c)\<rparr>"
    have w: "md_write bs transform ctx mem len =
        write_tail bs transform (transform c' (buf c')) (drop ?k mem) (len - ?k)"
      using 3 num assms(2) by (simp add: md_write_def Let_def c'_def)
    have d: "take len mem = take ?k mem @ take (len - ?k) (drop ?k mem)"
      using 3 by (simp add: take_add [symmetric])
    have "length (rest @ take ?k mem) = bs"
      using 3 m(3) assms(2) by simp
    note fill = fill_block_absorbs [OF _ m(2) this _ _ c'_def, of init]
    show ?thesis
      unfolding w using write_tail_absorbs [of "transform c' (buf c')" "len - ?k" "drop ?k mem"
          "pre @ rest @ take ?k mem" init] fill m(1,5,7,8) cnt assms(2) d
      by simp
  qed
qed

subsection \<open>The padding\<close>

lemma pad_step_full:
  "0 < lim \<Longrightarrow> lim < bs \<Longrightarrow>
   pad_loop bs lim transform ctx bs =
   pad_loop bs lim transform ((transform ctx (buf ctx))\<lparr>buf := (buf ctx)[0 := 0]\<rparr>) 1"
  by (simp add: pad_loop.simps [of bs lim transform ctx bs] transform_buf)

lemma pad_step:
  "0 < pos \<Longrightarrow> pos < bs \<Longrightarrow> pos \<noteq> lim \<Longrightarrow> 0 < lim \<Longrightarrow> lim < bs \<Longrightarrow>
   pad_loop bs lim transform ctx pos =
   pad_loop bs lim transform (ctx\<lparr>buf := (buf ctx)[pos := 0]\<rparr>) (Suc pos)"
  by (simp add: pad_loop.simps [of bs lim transform ctx pos])

lemma pad_loop_absorbs:
  assumes "0 < lim" "lim < bs"
  shows "length (buf ctx) = MAX_BLOCKSIZE \<Longrightarrow> 0 < pos \<Longrightarrow> pos \<le> bs \<Longrightarrow>
    k = (if pos \<le> lim then lim - pos else lim + bs - pos) \<Longrightarrow> bs dvd length pre \<Longrightarrow>
    state ctx = md_fold transform init (chunks bs pre) \<Longrightarrow>
    ctx' = pad_loop bs lim transform ctx pos \<Longrightarrow>
    length (buf ctx') = MAX_BLOCKSIZE \<and>
      (\<exists>pre'. bs dvd length pre' \<and> state ctx' = md_fold transform init (chunks bs pre') \<and>
         pre' @ take lim (buf ctx') = pre @ take pos (buf ctx) @ replicate k 0)"
proof (induction k arbitrary: ctx pos pre)
  case 0
  then have "pos = lim"
    using assms by (simp split: if_splits)
  with 0 show ?case
    by (auto simp: pad_loop.simps)
next
  case (Suc k)
  have ne: "pos \<noteq> lim"
    using Suc.prems(4) by auto
  show ?case
  proof (cases "pos = bs")
    case True
    define blk where "blk = take bs (buf ctx)"
    let ?c = "(transform ctx (buf ctx))\<lparr>buf := (buf ctx)[0 := 0]\<rparr>"
    have blk: "length blk = bs"
      using Suc.prems(1) bs_max by (simp add: blk_def)
    have one: "take 1 ((buf ctx)[0 := 0]) = [0]"
      using Suc.prems(1) by (cases "buf ctx") (auto simp: MAX_BLOCKSIZE_def)
    have "length (buf ctx') = MAX_BLOCKSIZE \<and>
      (\<exists>pre'. bs dvd length pre' \<and> state ctx' = md_fold transform init (chunks bs pre') \<and>
         pre' @ take lim (buf ctx') = (pre @ blk) @ take 1 (buf ?c) @ replicate k 0)"
      using Suc.prems True blk assms bs_pos
      by (intro Suc.IH) (auto simp: pad_step_full transform_local chunks_append blk_def)
    then show ?thesis
      using True one by (simp add: blk_def)
  next
    case False
    then have lt: "pos < bs"
      using Suc.prems(3) by simp
    let ?c = "ctx\<lparr>buf := (buf ctx)[pos := 0]\<rparr>"
    have nxt: "take (Suc pos) (buf ?c) = take pos (buf ctx) @ [0]"
      using Suc.prems(1) lt bs_max by (simp add: take_Suc_conv_app_nth)
    have "length (buf ctx') = MAX_BLOCKSIZE \<and>
      (\<exists>pre'. bs dvd length pre' \<and> state ctx' = md_fold transform init (chunks bs pre') \<and>
         pre' @ take lim (buf ctx') = pre @ take (Suc pos) (buf ?c) @ replicate k 0)"
      using Suc.prems lt ne assms by (intro Suc.IH) (auto simp: pad_step split: if_splits)
    then show ?thesis
      unfolding nxt by simp
  qed
qed

text \<open>The loop as one or two \<^verbatim>\<open>memset\<close> calls, as \<^verbatim>\<open>md5_final\<close> writes it.\<close>

lemma memcpy_to_Cons:
  "pos < length dst \<Longrightarrow> memcpy_to (Suc pos) xs (dst[pos := x]) = memcpy_to pos (x # xs) dst"
  by (simp add: memcpy_to_def take_Suc_conv_app_nth)

lemma pad_loop_within:
  "0 < pos \<Longrightarrow> pos \<le> lim \<Longrightarrow> lim < bs \<Longrightarrow> length (buf ctx) = MAX_BLOCKSIZE \<Longrightarrow>
   pad_loop bs lim transform ctx pos = ctx\<lparr>buf := memcpy_to pos (replicate (lim - pos) 0) (buf ctx)\<rparr>"
proof (induction "lim - pos" arbitrary: pos ctx)
  case 0
  then show ?case
    by (simp add: pad_loop.simps)
next
  case (Suc k)
  then have r: "replicate (lim - pos) (0::byte) = 0 # replicate (lim - Suc pos) 0"
    by (metis Suc_diff_Suc diff_is_0_eq not_le old.nat.distinct(2) replicate_Suc)
  have "pad_loop bs lim transform ctx pos =
      pad_loop bs lim transform (ctx\<lparr>buf := (buf ctx)[pos := 0]\<rparr>) (Suc pos)"
    using Suc by (intro pad_step) auto
  also have "\<dots> = ctx\<lparr>buf := memcpy_to (Suc pos) (replicate (lim - Suc pos) 0) ((buf ctx)[pos := 0])\<rparr>"
    using Suc by (subst Suc.hyps(1)) auto
  finally show ?case
    using Suc.prems Suc.hyps(2) bs_max by (simp add: r memcpy_to_Cons)
qed

lemma pad_loop_wrap:
  "lim < pos \<Longrightarrow> pos \<le> bs \<Longrightarrow> 0 < lim \<Longrightarrow> length (buf ctx) = MAX_BLOCKSIZE \<Longrightarrow>
   pad_loop bs lim transform ctx pos =
   (let c = ctx\<lparr>buf := memcpy_to pos (replicate (bs - pos) 0) (buf ctx)\<rparr>; c = transform c (buf c)
    in c\<lparr>buf := memcpy_to 0 (replicate lim 0) (buf c)\<rparr>)"
proof (induction "bs - pos" arbitrary: pos ctx)
  case 0
  let ?c = "transform ctx (buf ctx)"
  have "pad_loop bs lim transform ctx bs = pad_loop bs lim transform (?c\<lparr>buf := (buf ctx)[0 := 0]\<rparr>) 1"
    using 0 by (intro pad_step_full) auto
  also have "\<dots> = ?c\<lparr>buf := memcpy_to (Suc 0) (replicate (lim - Suc 0) 0) ((buf ctx)[0 := 0])\<rparr>"
    using 0 by (subst pad_loop_within) auto
  also have "\<dots> = ?c\<lparr>buf := memcpy_to 0 (0 # replicate (lim - Suc 0) 0) (buf ctx)\<rparr>"
    using 0 by (subst memcpy_to_Cons) (auto simp: MAX_BLOCKSIZE_def)
  finally show ?case
    using 0 by (simp add: transform_buf flip: replicate_Suc)
next
  case (Suc k)
  then have r: "replicate (bs - pos) (0::byte) = 0 # replicate (bs - Suc pos) 0"
    by (metis Suc_diff_Suc diff_is_0_eq not_le old.nat.distinct(2) replicate_Suc)
  have "pad_loop bs lim transform ctx pos =
      pad_loop bs lim transform (ctx\<lparr>buf := (buf ctx)[pos := 0]\<rparr>) (Suc pos)"
    using Suc by (intro pad_step) auto
  also have "\<dots> = (let c = ctx\<lparr>buf := memcpy_to (Suc pos) (replicate (bs - Suc pos) 0) ((buf ctx)[pos := 0])\<rparr>;
      c = transform c (buf c) in c\<lparr>buf := memcpy_to 0 (replicate lim 0) (buf c)\<rparr>)"
    using Suc by (subst Suc.hyps(1)) (auto simp: Let_def)
  finally show ?case
    using Suc.prems Suc.hyps(2) bs_max by (simp add: r memcpy_to_Cons)
qed

lemma pad_zeros:
  assumes "r < bs" "0 < lb" "lb < bs"
  shows "(2 * bs - lb - 1 - r) mod bs =
    (if r + 1 \<le> bs - lb then bs - lb - (r + 1) else bs - lb + bs - (r + 1))"
proof (cases "r + 1 \<le> bs - lb")
  case True
  then have "2 * bs - lb - 1 - r = bs + (bs - lb - (r + 1))" "bs - lb - (r + 1) < bs"
    using assms by arith+
  then show ?thesis
    using True by (simp only: mod_add_self1 mod_less if_True)
next
  case False
  then have "2 * bs - lb - 1 - r = bs - lb + bs - (r + 1)" "bs - lb + bs - (r + 1) < bs"
    using assms by arith+
  then show ?thesis
    using False by (simp only: mod_less if_False)
qed

lemma final_absorbs:
  assumes abs: "absorbed bs transform init msg ctx"
    and field: "length (lenfield (bytecount ctx)) = lb" "0 < lb" "lb < bs"
    and out: "\<And>st. length (out st) = hs"
  shows "take hs (buf (md_final bs lenfield transform out ctx)) =
    out (md_fold transform init
           (chunks bs (msg @ md_pad bs (lenfield (bytecount ctx)) (length msg))))"
proof -
  obtain pre rest where m: "msg = pre @ rest" "bs dvd length pre" "length rest < bs"
    "length rest = length msg mod bs" "length (buf ctx) = MAX_BLOCKSIZE"
    "bytecount ctx = of_nat (length msg)" "state ctx = md_fold transform init (chunks bs pre)"
    "take (length rest) (buf ctx) = rest"
    using abs by (rule absorbedE)
  define fld where "fld = lenfield (bytecount ctx)"
  define c1 where "c1 = ctx\<lparr>buf := (buf ctx)[length rest := 0x80]\<rparr>"
  define c2 where "c2 = pad_loop bs (bs - lb) transform c1 (length rest + 1)"
  define c3 where "c3 = c2\<lparr>buf := memcpy_to (bs - lb) fld (buf c2)\<rparr>"
  define k where "k = (if length rest + 1 \<le> bs - lb then bs - lb - (length rest + 1)
                       else bs - lb + bs - (length rest + 1))"
  have k: "k = (2 * bs - lb - 1 - length msg mod bs) mod bs"
    using field m(3) pad_zeros [of "length rest" lb] by (simp add: k_def m(4) [symmetric])
  have nxt: "take (length rest + 1) (buf c1) = rest @ [0x80]"
    using m(3,5,8) bs_max by (simp add: c1_def take_Suc_conv_app_nth)
  have "length (buf c2) = MAX_BLOCKSIZE \<and>
      (\<exists>pre'. bs dvd length pre' \<and> state c2 = md_fold transform init (chunks bs pre') \<and>
         pre' @ take (bs - lb) (buf c2) = pre @ take (length rest + 1) (buf c1) @ replicate k 0)"
    by (rule pad_loop_absorbs [OF _ _ _ _ _ k_def m(2) _ c2_def])
      (use field m(3,5,7) in \<open>simp_all add: c1_def\<close>)
  then obtain pre' where c2: "length (buf c2) = MAX_BLOCKSIZE" "bs dvd length pre'"
    "state c2 = md_fold transform init (chunks bs pre')"
    "pre' @ take (bs - lb) (buf c2) = pre @ (rest @ [0x80]) @ replicate k 0"
    unfolding nxt by blast
  let ?blk = "take (bs - lb) (buf c2) @ fld"
  have b3: "take bs (buf c3) = ?blk" "length (buf c3) = MAX_BLOCKSIZE" "length ?blk = bs"
    using c2(1) field bs_max by (simp_all add: c3_def fld_def take_memcpy_to_end)
  have msg: "msg @ md_pad bs fld (length msg) = pre' @ ?blk"
    using c2(4) field(1) unfolding md_pad_def m(1) fld_def k by simp
  have st: "state (transform c3 (buf c3)) =
      md_fold transform init (chunks bs (msg @ md_pad bs fld (length msg)))"
    unfolding msg using b3 c2 bs_pos by (simp add: transform_local chunks_append c3_def)
  have "md_final bs lenfield transform out ctx =
      (let c = transform c3 (buf c3) in c\<lparr>buf := memcpy_to 0 (out (state c)) (buf c)\<rparr>)"
    using field(1) block_pos m(4,6)
    by (simp add: md_final_def Let_def c1_def c2_def c3_def fld_def)
  then show ?thesis
    using st out by (simp add: Let_def fld_def memcpy_to_def)
qed

end

section \<open>The interface of a hash algorithm\<close>

text \<open>
  What a caller of \<^verbatim>\<open>hash_init\<close>, \<^verbatim>\<open>hash_write\<close> and \<^verbatim>\<open>hash_final\<close> relies on. \<open>represents msg ctx\<close>: the context
  has absorbed \<open>msg\<close>. A write of \<open>len\<close> bytes needs \<open>len\<close> readable bytes at its pointer, and
  \<open>slack\<close> readable bytes when the context holds an incomplete block (\<open>slack\<close> is 0 but for MD5).
\<close>

locale hash_algorithm =
  fixes bs slack hsize :: nat
    and init :: "hash_context \<Rightarrow> hash_context"
    and hwrite :: "hash_context \<Rightarrow> bytes \<Rightarrow> nat \<Rightarrow> hash_context option"
    and final :: "hash_context \<Rightarrow> hash_context"
    and digest :: "bytes \<Rightarrow> bytes"
    and represents :: "bytes \<Rightarrow> hash_context \<Rightarrow> bool"
  assumes init_represents: "represents [] (init ctx)"
    and write_represents: "represents msg ctx \<Longrightarrow> len \<le> length mem \<Longrightarrow>
      bs dvd length msg \<or> slack \<le> length mem \<Longrightarrow>
      \<exists>ctx'. hwrite ctx mem len = Some ctx' \<and> represents (msg @ take len mem) ctx'"
    and final_digest: "represents msg ctx \<Longrightarrow> length msg < 2 ^ 64 \<Longrightarrow>
      take hsize (buf (final ctx)) = digest msg"
begin

text \<open>One write from a fresh context: no slack is needed.\<close>

lemma one_shot:
  assumes "len \<le> length mem" "len < 2 ^ 64"
  shows "\<exists>ctx'. hwrite (init ctx) mem len = Some ctx' \<and> take hsize (buf (final ctx')) = digest (take len mem)"
proof -
  obtain ctx' where "hwrite (init ctx) mem len = Some ctx'" "represents (take len mem) ctx'"
    using write_represents [OF init_represents assms(1)] by auto
  moreover have "length (take len mem) < 2 ^ 64"
    using assms(2) by (simp add: min_less_iff_disj)
  ultimately show ?thesis
    using final_digest by blast
qed

end

text \<open>Folding a reference block function over the chaining state.\<close>

lemma md_fold_invariant:
  assumes "\<And>ctx d. P (state ctx) \<Longrightarrow> P (state (tr ctx d)) \<and> f (state (tr ctx d)) = F (f (state ctx)) d"
    and "P st"
  shows "P (md_fold tr st blks) \<and> f (md_fold tr st blks) = foldl F (f st) blks"
  using assms(2)
proof (induction blks arbitrary: st)
  case Nil
  then show ?case by simp
next
  case (Cons b blks)
  let ?c = "\<lparr>buf = [], state = st, bytecount = 0\<rparr>"
  have "P (md_compress tr st b) \<and> f (md_compress tr st b) = F (f st) b"
    using assms(1) [of ?c b] Cons.prems by (simp add: md_compress_def)
  with Cons.IH show ?case
    by simp
qed

lemma push_bit_3_of_nat: "push_bit 3 (of_nat n :: u64) = of_nat (8 * n)"
  by (simp add: push_bit_eq_mult)

end
