(* ===== verification/Hash_Words.thy ===== *)
theory Hash_Words
  imports Hash_Stream
begin

text \<open>
  Shared by the block transforms of \<^verbatim>\<open>src/common/hash.c\<close>: rotations and boolean functions as the
  macros write them, against their forms in FIPS 180-4; the 16-word circular schedule buffer of SHA-1
  and SHA-256; the addition of the working registers to the chaining state; the rotating register
  names of the unrolled rounds.
\<close>

section \<open>Rotations and boolean functions\<close>

definition ROL32 :: "u32 \<Rightarrow> nat \<Rightarrow> u32" where
  "ROL32 a b = push_bit b a OR drop_bit (32 - b) a"

definition ROR32 :: "u32 \<Rightarrow> nat \<Rightarrow> u32" where
  "ROR32 a b = drop_bit b a OR push_bit (32 - b) a"

definition ROR64 :: "u64 \<Rightarrow> nat \<Rightarrow> u64" where
  "ROR64 a b = drop_bit b a OR push_bit (64 - b) a"

definition Ch :: "'a::len word \<Rightarrow> 'a word \<Rightarrow> 'a word \<Rightarrow> 'a word" where
  "Ch x y z = z XOR (x AND (y XOR z))"

definition Ma :: "'a::len word \<Rightarrow> 'a word \<Rightarrow> 'a word \<Rightarrow> 'a word" where
  "Ma x y z = (x AND y) OR (z AND (x OR y))"

lemma Ch_fips: "Ch x y z = (x AND y) XOR (NOT x AND z)"
  by (rule bit_eqI) (auto simp: Ch_def bit_simps)

lemma Ma_fips: "Ma x y z = (x AND y) XOR (x AND z) XOR (y AND z)"
  by (rule bit_eqI) (auto simp: Ma_def bit_simps)

lemma ROR32_rotr: "0 < b \<Longrightarrow> b < 32 \<Longrightarrow> ROR32 a b = word_rotr b a"
proof (rule bit_word_eqI)
  fix n assume b: "0 < b" "b < 32" and "n < LENGTH(32)"
  then have n: "n < 32" and m: "(n + b) mod 32 = (if n + b < 32 then n + b else n + b - 32)"
    by (simp_all add: mod_if)
  then show "bit (ROR32 a b) n = bit (word_rotr b a) n"
    using b by (auto simp: ROR32_def bit_simps add.commute [of b n] dest: bit_imp_le_length)
qed

lemma ROR64_rotr: "0 < b \<Longrightarrow> b < 64 \<Longrightarrow> ROR64 a b = word_rotr b a"
proof (rule bit_word_eqI)
  fix n assume b: "0 < b" "b < 64" and "n < LENGTH(64)"
  then have n: "n < 64" and m: "(n + b) mod 64 = (if n + b < 64 then n + b else n + b - 64)"
    by (simp_all add: mod_if)
  then show "bit (ROR64 a b) n = bit (word_rotr b a) n"
    using b by (auto simp: ROR64_def bit_simps add.commute [of b n] dest: bit_imp_le_length)
qed

lemma ROL32_rotl: "0 < b \<Longrightarrow> b < 32 \<Longrightarrow> ROL32 a b = word_rotl b a"
proof -
  assume b: "0 < b" "b < 32"
  then have "ROL32 a b = ROR32 a (32 - b)"
    by (simp add: ROL32_def ROR32_def or.commute)
  also have "\<dots> = word_rotr (32 - b) a"
    using b by (intro ROR32_rotr) simp_all
  also have "\<dots> = word_rotl b a"
    using b by (simp add: word_rotl_eq_word_rotr)
  finally show ?thesis .
qed

lemmas rot_simps = ROR32_rotr ROR64_rotr ROL32_rotl word_rot_logs word_rotr_word_rotr_eq

section \<open>Reading the block\<close>

text \<open>\<^verbatim>\<open>read_swap32\<close>, \<^verbatim>\<open>read_swap64\<close> and a native load on a little-endian host.\<close>

definition read_swap32 :: "bytes \<Rightarrow> nat \<Rightarrow> u32" where
  "read_swap32 data off = be_word (slice off 4 data)"

definition read_swap64 :: "bytes \<Rightarrow> nat \<Rightarrow> u64" where
  "read_swap64 data off = be_word (slice off 8 data)"

definition read_le32 :: "bytes \<Rightarrow> nat \<Rightarrow> u32" where
  "read_le32 data off = le_word (slice off 4 data)"

lemma reads_take:
  "off + 4 \<le> k \<Longrightarrow> read_swap32 (take k d) off = read_swap32 d off"
  "off + 8 \<le> k \<Longrightarrow> read_swap64 (take k d) off = read_swap64 d off"
  "off + 4 \<le> k \<Longrightarrow> read_le32 (take k d) off = read_le32 d off"
  by (simp_all add: read_swap32_def read_swap64_def read_le32_def slice_take)

section \<open>The chaining state\<close>

text \<open>
  \<^verbatim>\<open>a = (uint32_t)ctx->state[0]\<close> and so on, and \<^verbatim>\<open>ctx->state[0] += a\<close> and so on: the state words have
  64 bits, also where the algorithm uses 32.
\<close>

definition load_regs :: "nat \<Rightarrow> u64 list \<Rightarrow> 'a::len word list" where
  "load_regs n st = map (\<lambda>j. ucast (st ! j)) [0..<n]"

definition add_regs :: "u64 list \<Rightarrow> 'a::len word list \<Rightarrow> u64 list" where
  "add_regs st r = map (\<lambda>j. if j < length r then st ! j + ucast (r ! j) else st ! j) [0..<length st]"

lemma length_load_regs [simp]: "length (load_regs n st) = n"
  by (simp add: load_regs_def)

lemma length_add_regs [simp]: "length (add_regs st r) = length st"
  by (simp add: add_regs_def)

lemma ucast_add_low:
  fixes x :: u64 and y :: "'a::len word"
  assumes "LENGTH('a) \<le> 64"
  shows "(ucast (x + ucast y) :: 'a word) = ucast x + y"
  using assms
proof transfer
  fix x y :: int
  assume a: "LENGTH('a) \<le> 64"
  have "take_bit LENGTH('a) (take_bit LENGTH(64) (x + take_bit LENGTH('a) y)) =
      take_bit LENGTH('a) (take_bit LENGTH('a) x + take_bit LENGTH('a) (take_bit LENGTH('a) y))"
    using a by (simp only: take_bit_add) simp
  also have "\<dots> = take_bit LENGTH('a) (take_bit LENGTH('a) (take_bit LENGTH(64) x) + take_bit LENGTH('a) y)"
    using a by simp
  also have "\<dots> = take_bit LENGTH('a) (take_bit LENGTH(64) x + y)"
    by (simp only: take_bit_add)
  finally show "take_bit LENGTH('a) (take_bit LENGTH(64) (x + take_bit LENGTH('a) y)) =
      take_bit LENGTH('a) (take_bit LENGTH(64) x + y)" .
qed

lemma load_add_regs:
  fixes r :: "'a::len word list"
  assumes "LENGTH('a) \<le> 64" "length r \<le> length st"
  shows "load_regs (length r) (add_regs st r) = map2 (+) (load_regs (length r) st) r"
  using assms by (auto simp: load_regs_def add_regs_def ucast_add_low intro!: nth_equalityI)

section \<open>Rotating register names\<close>

text \<open>
  The unrolled rounds pass the registers to the step macro in rotated order:
  \<^verbatim>\<open>(a,b,c,d,e)\<close>, then \<^verbatim>\<open>(e,a,b,c,d)\<close>, and so on. Macro argument \<open>p\<close> of round \<open>i\<close> with
  \<open>n\<close> registers is register number \<open>reg n i p\<close>.
\<close>

definition reg :: "nat \<Rightarrow> nat \<Rightarrow> nat \<Rightarrow> nat" where
  "reg n i p = (p + (n - 1) * i) mod n"

text \<open>The registers in the order in which round \<open>i\<close> names them.\<close>

definition reg_view :: "nat \<Rightarrow> nat \<Rightarrow> 'a list \<Rightarrow> 'a list" where
  "reg_view n i r = map (\<lambda>p. r ! reg n i p) [0..<n]"

lemma reg_less: "0 < n \<Longrightarrow> reg n i p < n"
  by (simp add: reg_def)

lemma reg_Suc: "0 < n \<Longrightarrow> 0 < p \<Longrightarrow> reg n (Suc i) p = reg n i (p - 1)"
proof -
  assume "0 < n" "0 < p"
  then have "p + (n - 1) * Suc i = (p - 1 + (n - 1) * i) + n"
    by (cases n; cases p) simp_all
  then show ?thesis
    by (simp only: reg_def mod_add_self2)
qed

lemma reg_Suc_0: "0 < n \<Longrightarrow> reg n (Suc i) 0 = reg n i (n - 1)"
  by (simp add: reg_def add.commute)

lemma reg_inj: "p < n \<Longrightarrow> q < n \<Longrightarrow> reg n i p = reg n i q \<longleftrightarrow> p = q"
proof -
  assume "p < n" "q < n"
  have "reg n i p = reg n i q \<longleftrightarrow> p mod n = q mod n"
    by (simp add: reg_def nat_mod_eq_iff)
  then show ?thesis
    using \<open>p < n\<close> \<open>q < n\<close> by simp
qed

lemma reg_view_mult: "length r = n \<Longrightarrow> n dvd i \<Longrightarrow> reg_view n i r = r"
  by (intro nth_equalityI) (auto simp: reg_view_def reg_def mult.left_commute elim!: dvdE)

section \<open>The circular schedule buffer\<close>

text \<open>
  Before round \<open>i\<close> the 16-word buffer holds the last 16 words of the schedule \<open>W\<close> (the message
  block itself while \<open>i \<le> 16\<close>), word \<open>t\<close> at index \<open>t mod 16\<close>.
\<close>

definition circular :: "(nat \<Rightarrow> 'a) \<Rightarrow> nat \<Rightarrow> 'a list \<Rightarrow> bool" where
  "circular W i x \<longleftrightarrow> length x = 16 \<and> (\<forall>t. i - 16 \<le> t \<and> t < max 16 i \<longrightarrow> x ! (t mod 16) = W t)"

lemma circular_init:
  assumes "\<And>t. t < 16 \<Longrightarrow> W t = f t"
  shows "circular W 0 (map f [0..<16])"
  using assms by (auto simp: circular_def)

lemma circular_nth: "circular W i x \<Longrightarrow> 16 \<le> i \<Longrightarrow> 0 < k \<Longrightarrow> k \<le> 16 \<Longrightarrow> x ! ((i - k) mod 16) = W (i - k)"
  by (simp add: circular_def)

lemma circular_nth_oldest: "circular W i x \<Longrightarrow> 16 \<le> i \<Longrightarrow> x ! (i mod 16) = W (i - 16)"
  using circular_nth [of W i x 16] by (simp add: le_mod_geq)

lemma circular_message: "circular W i x \<Longrightarrow> i < 16 \<Longrightarrow> x ! i = W i"
  using spec [of _ i] by (force simp: circular_def)

lemma circular_keep: "circular W i x \<Longrightarrow> i < 16 \<Longrightarrow> circular W (Suc i) x"
  by (simp add: circular_def)

lemma circular_push:
  assumes "circular W i x" "16 \<le> i"
  shows "circular W (Suc i) (x[i mod 16 := W i])"
proof -
  have "x[i mod 16 := W i] ! (t mod 16) = W t" if t: "Suc i - 16 \<le> t" "t < Suc i" for t
  proof (cases "t = i")
    case True
    then show ?thesis
      using assms by (simp add: circular_def)
  next
    case False
    then have "0 < i - t" "i - t < 16"
      using t assms(2) by auto
    then have "\<not> 16 dvd (i - t)"
      by (auto dest: dvd_imp_le)
    then have "i mod 16 \<noteq> t mod 16"
      using t by (metis mod_eq_dvd_iff_nat less_Suc_eq_le)
    then show ?thesis
      using assms t False by (simp add: circular_def)
  qed
  then show ?thesis
    using assms by (simp add: circular_def)
qed

end
