(* ===== verification/Hash_Md5.thy ===== *)
theory Hash_Md5
  imports Hash_Words
begin

text \<open>
  MD5 of \<^verbatim>\<open>src/common/hash.c\<close>: \<^verbatim>\<open>md5_init\<close>, \<^verbatim>\<open>md5_transform\<close> with its 64 unrolled steps,
  \<^verbatim>\<open>md5_write\<close>, which copies a whole block remainder whatever the length it is given, and \<^verbatim>\<open>md5_final\<close>;
  and the proof that the transform is the block function of RFC 1321.
\<close>

section \<open>The code\<close>

definition md5_init :: "hash_context \<Rightarrow> hash_context" where
  "md5_init ctx = zero_context\<lparr>state := [0x67452301, 0xefcdab89, 0x98badcfe, 0x10325476, 0, 0, 0, 0]\<rparr>"

definition md5_F :: "nat \<Rightarrow> u32 \<Rightarrow> u32 \<Rightarrow> u32 \<Rightarrow> u32" where
  "md5_F i x y z =
     (if i < 16 then z XOR (x AND (y XOR z))
      else if i < 32 then y XOR (z AND (x XOR y))
      else if i < 48 then x XOR y XOR z
      else y XOR (x OR NOT z))"

text \<open>Index of the block word, added constant and rotation of each of the 64 \<^verbatim>\<open>MD5STEP\<close> lines.\<close>

definition md5_table :: "(nat \<times> u32 \<times> nat) list" where
  "md5_table = [(0, 0xd76aa478, 7), (1, 0xe8c7b756, 12), (2, 0x242070db, 17), (3, 0xc1bdceee, 22),
     (4, 0xf57c0faf, 7), (5, 0x4787c62a, 12), (6, 0xa8304613, 17), (7, 0xfd469501, 22),
     (8, 0x698098d8, 7), (9, 0x8b44f7af, 12), (10, 0xffff5bb1, 17), (11, 0x895cd7be, 22),
     (12, 0x6b901122, 7), (13, 0xfd987193, 12), (14, 0xa679438e, 17), (15, 0x49b40821, 22),
     (1, 0xf61e2562, 5), (6, 0xc040b340, 9), (11, 0x265e5a51, 14), (0, 0xe9b6c7aa, 20),
     (5, 0xd62f105d, 5), (10, 0x02441453, 9), (15, 0xd8a1e681, 14), (4, 0xe7d3fbc8, 20),
     (9, 0x21e1cde6, 5), (14, 0xc33707d6, 9), (3, 0xf4d50d87, 14), (8, 0x455a14ed, 20),
     (13, 0xa9e3e905, 5), (2, 0xfcefa3f8, 9), (7, 0x676f02d9, 14), (12, 0x8d2a4c8a, 20),
     (5, 0xfffa3942, 4), (8, 0x8771f681, 11), (11, 0x6d9d6122, 16), (14, 0xfde5380c, 23),
     (1, 0xa4beea44, 4), (4, 0x4bdecfa9, 11), (7, 0xf6bb4b60, 16), (10, 0xbebfbc70, 23),
     (13, 0x289b7ec6, 4), (0, 0xeaa127fa, 11), (3, 0xd4ef3085, 16), (6, 0x04881d05, 23),
     (9, 0xd9d4d039, 4), (12, 0xe6db99e5, 11), (15, 0x1fa27cf8, 16), (2, 0xc4ac5665, 23),
     (0, 0xf4292244, 6), (7, 0x432aff97, 10), (14, 0xab9423a7, 15), (5, 0xfc93a039, 21),
     (12, 0x655b59c3, 6), (3, 0x8f0ccc92, 10), (10, 0xffeff47d, 15), (1, 0x85845dd1, 21),
     (8, 0x6fa87e4f, 6), (15, 0xfe2ce6e0, 10), (6, 0xa3014314, 15), (13, 0x4e0811a1, 21),
     (4, 0xf7537e82, 6), (11, 0xbd3af235, 10), (2, 0x2ad7d2bb, 15), (9, 0xeb86d391, 21)]"

text \<open>\<^verbatim>\<open>MD5STEP(f, w, x, y, z, data, s)\<close> on the registers as step \<open>i\<close> names them.\<close>

definition md5_step :: "u32 list \<Rightarrow> nat \<Rightarrow> u32 list \<Rightarrow> u32 list" where
  "md5_step blk i r =
     (case md5_table ! i of (k, c, s) \<Rightarrow>
       let w = r ! reg 4 i 0; x = r ! reg 4 i 1; y = r ! reg 4 i 2; z = r ! reg 4 i 3;
           w = w + (md5_F i x y z + (blk ! k + c));
           w = push_bit s w OR drop_bit (32 - s) w;
           w = w + x
       in r[reg 4 i 0 := w])"

definition md5_transform :: "hash_context \<Rightarrow> bytes \<Rightarrow> hash_context" where
  "md5_transform ctx data =
     (let x = map (\<lambda>k. read_le32 data (4 * k)) [0..<16];
          r = fold (md5_step x) [0..<64] (load_regs 4 (state ctx))
      in ctx\<lparr>state := add_regs (state ctx) r\<rparr>)"

text \<open>
  \<^verbatim>\<open>md5_write\<close>. Unlike the other writes, the branch for a write that does not complete the block
  copies \<^verbatim>\<open>num\<close> bytes (the rest of the block) and not \<^verbatim>\<open>len\<close>.
\<close>

definition md5_write :: "hash_context \<Rightarrow> bytes \<Rightarrow> nat \<Rightarrow> hash_context option" where
  "md5_write ctx mem len =
     (let num = unat (bytecount ctx AND of_nat (MD5_BLOCKSIZE - 1));
          ctx = ctx\<lparr>bytecount := bytecount ctx + of_nat len\<rparr>
      in if num \<noteq> 0 then
           let p = num; num = MD5_BLOCKSIZE - num
           in if len < num then
                (case mem_read mem 0 num of
                   None \<Rightarrow> None
                 | Some src \<Rightarrow> Some (ctx\<lparr>buf := memcpy_to p src (buf ctx)\<rparr>))
              else
                (case mem_read mem 0 num of
                   None \<Rightarrow> None
                 | Some src \<Rightarrow>
                     let ctx = ctx\<lparr>buf := memcpy_to p src (buf ctx)\<rparr>;
                         ctx = md5_transform ctx (buf ctx)
                     in write_tail MD5_BLOCKSIZE md5_transform ctx (drop num mem) (len - num))
         else write_tail MD5_BLOCKSIZE md5_transform ctx mem len)"

definition md5_out :: "u64 list \<Rightarrow> bytes" where
  "md5_out st = concat (map (\<lambda>a. le_bytes 4 (ucast (st ! a) :: u32)) [0..<4])"

definition md5_final :: "hash_context \<Rightarrow> hash_context" where
  "md5_final ctx =
     (let count = unat (bytecount ctx AND of_nat (MD5_BLOCKSIZE - 1));
          bitcount = push_bit 3 (bytecount ctx);
          ctx = ctx\<lparr>buf := (buf ctx)[count := 0x80]\<rparr>;
          p = count + 1;
          count = (MD5_BLOCKSIZE - 1) - count;
          ctx = (if count < 8 then
                   let ctx = ctx\<lparr>buf := memcpy_to p (replicate count 0) (buf ctx)\<rparr>;
                       ctx = md5_transform ctx (buf ctx)
                   in ctx\<lparr>buf := memcpy_to 0 (replicate (MD5_BLOCKSIZE - 8) 0) (buf ctx)\<rparr>
                 else ctx\<lparr>buf := memcpy_to p (replicate (count - 8) 0) (buf ctx)\<rparr>);
          ctx = ctx\<lparr>buf := memcpy_to (MD5_BLOCKSIZE - 8) (le_bytes 8 bitcount) (buf ctx)\<rparr>;
          ctx = md5_transform ctx (buf ctx)
      in ctx\<lparr>buf := memcpy_to 0 (md5_out (state ctx)) (buf ctx)\<rparr>)"

section \<open>RFC 1321\<close>

definition rfc1321_f :: "nat \<Rightarrow> u32 \<Rightarrow> u32 \<Rightarrow> u32 \<Rightarrow> u32" where
  "rfc1321_f i x y z =
     (if i < 16 then (x AND y) OR (NOT x AND z)
      else if i < 32 then (x AND z) OR (y AND NOT z)
      else if i < 48 then x XOR y XOR z
      else y XOR (x OR NOT z))"

text \<open>The word index and rotation amounts of the four rounds, as formulas and short tables.\<close>

definition rfc1321_k :: "nat \<Rightarrow> nat" where
  "rfc1321_k i = (if i < 16 then i else if i < 32 then (5 * i + 1) mod 16
     else if i < 48 then (3 * i + 5) mod 16 else (7 * i) mod 16)"

definition rfc1321_s :: "nat \<Rightarrow> nat" where
  "rfc1321_s i = [[7, 12, 17, 22], [5, 9, 14, 20], [4, 11, 16, 23], [6, 10, 15, 21]] ! (i div 16) ! (i mod 4)"

definition rfc1321_T :: "nat \<Rightarrow> u32" where
  "rfc1321_T i = fst (snd (md5_table ! i))"

definition rfc1321_step :: "(nat \<Rightarrow> u32) \<Rightarrow> nat \<Rightarrow> u32 list \<Rightarrow> u32 list" where
  "rfc1321_step X i v =
     (case v of [a, b, c, d] \<Rightarrow>
        [d, b + word_rotl (rfc1321_s i) (a + rfc1321_f i b c d + X (rfc1321_k i) + rfc1321_T i), b, c]
      | _ \<Rightarrow> v)"

definition rfc1321_block :: "u32 list \<Rightarrow> bytes \<Rightarrow> u32 list" where
  "rfc1321_block H blk =
     map2 (+) H (fold (rfc1321_step (\<lambda>k. le_word (slice (4 * k) 4 blk))) [0..<64] H)"

definition rfc1321_md5 :: "bytes \<Rightarrow> bytes" where
  "rfc1321_md5 msg =
     concat (map (le_bytes 4) (foldl rfc1321_block [0x67452301, 0xefcdab89, 0x98badcfe, 0x10325476]
       (chunks 64 (msg @ md_pad 64 (le_bytes 8 (of_nat (8 * length msg) :: u64)) (length msg)))))"

section \<open>The transform is the block function of the RFC\<close>

lemma md5_F_rfc: "md5_F i = rfc1321_f i"
proof (intro ext)
  fix x y z :: u32
  have "z XOR (x AND (y XOR z)) = (x AND y) OR (NOT x AND z)"
    by (rule bit_word_eqI) (auto simp: bit_simps)
  moreover have "y XOR (z AND (x XOR y)) = (x AND z) OR (y AND NOT z)"
    by (rule bit_word_eqI) (auto simp: bit_simps)
  ultimately show "md5_F i x y z = rfc1321_f i x y z"
    by (simp add: md5_F_def rfc1321_f_def)
qed

lemma md5_table_rfc: "i < 64 \<Longrightarrow> md5_table ! i = (rfc1321_k i, rfc1321_T i, rfc1321_s i)"
proof -
  have "\<forall>i\<in>set [0..<64]. md5_table ! i = (rfc1321_k i, rfc1321_T i, rfc1321_s i)"
    by code_simp
  then show "i < 64 \<Longrightarrow> md5_table ! i = (rfc1321_k i, rfc1321_T i, rfc1321_s i)"
    by simp
qed

lemma rfc1321_s_bounds: "i < 64 \<Longrightarrow> 0 < rfc1321_s i \<and> rfc1321_s i < 32"
proof -
  have "\<forall>i\<in>set [0..<64]. 0 < rfc1321_s i \<and> rfc1321_s i < 32"
    by code_simp
  then show "i < 64 \<Longrightarrow> 0 < rfc1321_s i \<and> rfc1321_s i < 32"
    by simp
qed

lemma rfc1321_k_bound: "rfc1321_k i < 16"
  by (simp add: rfc1321_k_def)

lemma upt_4: "[0..<4] = [0, 1, 2, 3]"
  by (simp add: upt_rec)

lemma md5_step_sim:
  assumes "length r = 4" "i < 64"
  shows "length (md5_step (map X [0..<16]) i r) = 4"
    and "reg_view 4 (Suc i) (md5_step (map X [0..<16]) i r) = rfc1321_step X i (reg_view 4 i r)"
proof -
  have rot: "push_bit (rfc1321_s i) w OR drop_bit (32 - rfc1321_s i) w = word_rotl (rfc1321_s i) w" for w :: u32
    using rfc1321_s_bounds [OF assms(2)] by (simp add: ROL32_rotl [symmetric] ROL32_def)
  have st: "md5_step (map X [0..<16]) i r = r[reg 4 i 0 := word_rotl (rfc1321_s i)
      (r ! reg 4 i 0 + (rfc1321_f i (r ! reg 4 i 1) (r ! reg 4 i 2) (r ! reg 4 i 3)
        + (X (rfc1321_k i) + rfc1321_T i))) + r ! reg 4 i 1]"
    using assms(2) by (simp add: md5_step_def md5_table_rfc Let_def rot md5_F_rfc rfc1321_k_bound)
  then show "length (md5_step (map X [0..<16]) i r) = 4"
    using assms(1) by simp
  show "reg_view 4 (Suc i) (md5_step (map X [0..<16]) i r) = rfc1321_step X i (reg_view 4 i r)"
    unfolding st reg_view_def upt_4 using assms(1)
    by (simp add: reg_Suc reg_Suc_0 reg_less reg_inj nth_list_update rfc1321_step_def
        add.commute add.left_commute add.assoc)
qed

lemma md5_rounds_sim:
  assumes "length r = 4" "n \<le> 64"
  shows "length (fold (md5_step (map X [0..<16])) [0..<n] r) = 4 \<and>
     reg_view 4 n (fold (md5_step (map X [0..<16])) [0..<n] r) = fold (rfc1321_step X) [0..<n] r"
  using assms(2)
proof (induction n)
  case 0
  then show ?case
    using assms(1) by (simp add: reg_view_mult)
next
  case (Suc n)
  then show ?case
    using md5_step_sim [where i = n and X = X] by simp
qed

lemma md5_transform_frame [frame_simps]:
  "buf (md5_transform ctx d) = buf ctx" "bytecount (md5_transform ctx d) = bytecount ctx"
  "length (state (md5_transform ctx d)) = length (state ctx)"
  by (simp_all add: md5_transform_def Let_def)

lemma md5_transform_take: "md5_transform ctx (take 64 d) = md5_transform ctx d"
proof -
  have "map (\<lambda>k. read_le32 (take 64 d) (4 * k)) [0..<16] = map (\<lambda>k. read_le32 d (4 * k)) [0..<16]"
    by (rule map_cong) (simp_all add: reads_take)
  then show ?thesis
    by (simp only: md5_transform_def)
qed

lemma md5_transform_compress:
  "state (md5_transform ctx d) = md_compress md5_transform (state ctx) (take 64 d)"
  by (simp add: md_compress_def md5_transform_take) (simp add: md5_transform_def Let_def)

lemma md5_transform_rfc_block:
  assumes "length (state ctx) = 8"
  shows "load_regs 4 (state (md5_transform ctx d)) = rfc1321_block (load_regs 4 (state ctx)) d"
proof -
  let ?X = "\<lambda>k. le_word (slice (4 * k) 4 d) :: u32"
  define r' where "r' = fold (md5_step (map ?X [0..<16])) [0..<64] (load_regs 4 (state ctx))"
  have r: "length r' = 4" "reg_view 4 64 r' = fold (rfc1321_step ?X) [0..<64] (load_regs 4 (state ctx))"
    using md5_rounds_sim [of "load_regs 4 (state ctx)" 64 ?X] by (simp_all add: r'_def del: upt_Suc)
  have "reg_view 4 64 r' = r'"
    using r(1) by (intro reg_view_mult) simp_all
  moreover have "state (md5_transform ctx d) = add_regs (state ctx) r'"
    by (simp add: md5_transform_def Let_def r'_def read_le32_def del: upt_Suc)
  ultimately show ?thesis
    using r assms load_add_regs [of r' "state ctx"] by (simp add: rfc1321_block_def)
qed

section \<open>MD5 as a hash algorithm\<close>

definition md5_represents :: "bytes \<Rightarrow> hash_context \<Rightarrow> bool" where
  "md5_represents = absorbed MD5_BLOCKSIZE md5_transform (state (md5_init zero_context))"

interpretation md5_blocks: block_transform MD5_BLOCKSIZE md5_transform
  by unfold_locales
    (simp_all add: MD5_BLOCKSIZE_def frame_simps md5_transform_compress [symmetric])

text \<open>Outside the branch that copies too much, \<^verbatim>\<open>md5_write\<close> is the write of the other algorithms.\<close>

lemma md5_write_eq:
  assumes "unat (bytecount ctx AND of_nat (MD5_BLOCKSIZE - 1)) = n"
    and "n = 0 \<or> MD5_BLOCKSIZE - n \<le> len"
  shows "md5_write ctx mem len = md_write MD5_BLOCKSIZE md5_transform ctx mem len"
  using assms by (auto simp: md5_write_def md_write_def Let_def)

lemma md5_write_short:
  assumes "unat (bytecount ctx AND of_nat (MD5_BLOCKSIZE - 1)) = n"
    and "n \<noteq> 0" "len < MD5_BLOCKSIZE - n"
  shows "md5_write ctx mem len =
    (case mem_read mem 0 (MD5_BLOCKSIZE - n) of
       None \<Rightarrow> None
     | Some src \<Rightarrow> Some (ctx\<lparr>bytecount := bytecount ctx + of_nat len, buf := memcpy_to n src (buf ctx)\<rparr>))"
  using assms by (auto simp: md5_write_def Let_def mem_read_def)

lemma take_memcpy_to_prefix:
  "off \<le> length dst \<Longrightarrow> n \<le> length src \<Longrightarrow> take (off + n) (memcpy_to off src dst) = take off dst @ take n src"
  by (simp add: memcpy_to_def)

lemma md5_write_represents:
  assumes "md5_represents msg ctx" "len \<le> length mem"
    and room: "MD5_BLOCKSIZE dvd length msg \<or> MD5_BLOCKSIZE \<le> length mem"
  shows "\<exists>ctx'. md5_write ctx mem len = Some ctx' \<and> md5_represents (msg @ take len mem) ctx'"
proof -
  let ?n = "length msg mod MD5_BLOCKSIZE"
  have abs: "absorbed MD5_BLOCKSIZE md5_transform (state (md5_init zero_context)) msg ctx"
    using assms(1) by (simp add: md5_represents_def)
  then have n: "unat (bytecount ctx AND of_nat (MD5_BLOCKSIZE - 1)) = ?n"
    by (simp only: absorbed_def md5_blocks.block_pos)
  show ?thesis
  proof (cases "?n = 0 \<or> MD5_BLOCKSIZE - ?n \<le> len")
    case True
    then show ?thesis
      using md5_blocks.write_absorbs [OF abs assms(2)] n
      by (simp add: md5_write_eq md5_represents_def)
  next
    case False
    let ?k = "MD5_BLOCKSIZE - ?n"
    let ?c = "ctx\<lparr>bytecount := bytecount ctx + of_nat len, buf := memcpy_to ?n (take ?k mem) (buf ctx)\<rparr>"
    obtain pre rest where m: "msg = pre @ rest" "MD5_BLOCKSIZE dvd length pre"
      "length rest < MD5_BLOCKSIZE" "length rest = ?n" "length (buf ctx) = MAX_BLOCKSIZE"
      "bytecount ctx = of_nat (length msg)"
      "state ctx = md_fold md5_transform (state (md5_init zero_context)) (chunks MD5_BLOCKSIZE pre)"
      "take (length rest) (buf ctx) = rest"
      using abs by (rule md5_blocks.absorbedE)
    have k: "?k \<le> length mem"
      using False room by (auto simp: dvd_eq_mod_eq_0)
    then have "md5_write ctx mem len = Some ?c"
      using False n by (simp add: md5_write_short)
    moreover have "absorbed MD5_BLOCKSIZE md5_transform (state (md5_init zero_context))
        (pre @ (rest @ take len mem)) ?c"
    proof (rule md5_blocks.absorbedI [OF _ _ m(2)])
      show "length (rest @ take len mem) < MD5_BLOCKSIZE"
        using False m(4) assms(2) by (simp add: not_le less_diff_conv add.commute)
      have "length rest + ?k \<le> MAX_BLOCKSIZE"
        using m(3,4) by (simp add: hash_sizes)
      then show "length (buf ?c) = MAX_BLOCKSIZE"
        using m(4,5) k by simp
      have "take (length rest + len) (buf ?c) = take (length rest) (buf ctx) @ take len (take ?k mem)"
        using m(3-5) False k by (simp add: take_memcpy_to_prefix hash_sizes)
      then show "take (length (rest @ take len mem)) (buf ?c) = rest @ take len mem"
        using m(8) False assms(2) by simp
      show "bytecount ?c = of_nat (length (pre @ rest @ take len mem))"
        using m(1,6) assms(2) by simp
    qed (use m(7) in simp)
    ultimately show ?thesis
      using m(1) by (simp add: md5_represents_def)
  qed
qed

subsection \<open>The final\<close>

definition md5_lenfield :: "u64 \<Rightarrow> bytes" where
  "md5_lenfield cnt = le_bytes 8 (push_bit 3 cnt)"

text \<open>The two \<^verbatim>\<open>memset\<close> cases of \<^verbatim>\<open>md5_final\<close> are the padding loop of the SHA finals.\<close>

lemma md5_final_eq:
  assumes "length (buf ctx) = MAX_BLOCKSIZE"
  shows "md5_final ctx = md_final MD5_BLOCKSIZE md5_lenfield md5_transform md5_out ctx"
proof -
  define n where "n = unat (bytecount ctx AND of_nat (MD5_BLOCKSIZE - 1))"
  have n: "n < 64"
    using mod_less_divisor [of 64 "unat (bytecount ctx)"]
    by (simp add: n_def MD5_BLOCKSIZE_def unat_and_63)
  define c1 where "c1 = ctx\<lparr>buf := (buf ctx)[n := 0x80]\<rparr>"
  have len: "length (buf c1) = MAX_BLOCKSIZE"
    using assms by (simp add: c1_def)
  have pad: "pad_loop 64 56 md5_transform c1 (n + 1) =
     (if 63 - n < 8 then
        let c = c1\<lparr>buf := memcpy_to (n + 1) (replicate (63 - n) 0) (buf c1)\<rparr>;
            c = md5_transform c (buf c)
        in c\<lparr>buf := memcpy_to 0 (replicate 56 0) (buf c)\<rparr>
      else c1\<lparr>buf := memcpy_to (n + 1) (replicate (63 - n - 8) 0) (buf c1)\<rparr>)"
  proof (cases "63 - n < 8")
    case True
    then show ?thesis
      using n len md5_blocks.pad_loop_wrap [of 56 "n + 1" c1] by (simp add: MD5_BLOCKSIZE_def Let_def)
  next
    case False
    then show ?thesis
      using n len md5_blocks.pad_loop_within [of "n + 1" 56 c1] by (simp add: MD5_BLOCKSIZE_def)
  qed
  have n': "unat (bytecount ctx AND 63) = n"
    by (simp add: n_def MD5_BLOCKSIZE_def)
  show ?thesis
    using pad by (cases "63 - n < 8")
      (simp_all add: md5_final_def md_final_def md5_lenfield_def MD5_BLOCKSIZE_def Let_def c1_def n')
qed

lemma md5_fold:
  "length st = 8 \<Longrightarrow>
   load_regs 4 (md_fold md5_transform st blks) = foldl rfc1321_block (load_regs 4 st) blks"
  using md_fold_invariant [of "\<lambda>st. length st = 8" md5_transform "load_regs 4" rfc1321_block st blks]
  by (simp add: md5_transform_rfc_block frame_simps)

lemma md5_out_regs: "md5_out st = concat (map (le_bytes 4) (load_regs 4 st :: u32 list))"
  by (simp add: md5_out_def load_regs_def comp_def)

lemma length_md5_out: "length (md5_out st) = 16"
  by (simp add: md5_out_def length_concat comp_def upt_4)

lemma md5_init_regs:
  "length (state (md5_init ctx)) = 8"
  "load_regs 4 (state (md5_init ctx)) = [0x67452301, 0xefcdab89, 0x98badcfe, 0x10325476 :: u32]"
  by (simp_all add: md5_init_def load_regs_def upt_4)

lemma md5_final_digest:
  assumes "md5_represents msg ctx"
  shows "take MD5_HASHSIZE (buf (md5_final ctx)) = rfc1321_md5 msg"
proof -
  let ?init = "state (md5_init zero_context)"
  have ctx: "bytecount ctx = of_nat (length msg)" "length (buf ctx) = MAX_BLOCKSIZE"
    using assms by (simp_all add: md5_represents_def absorbed_def)
  have "take MD5_HASHSIZE (buf (md5_final ctx)) = md5_out (md_fold md5_transform ?init
      (chunks MD5_BLOCKSIZE (msg @ md_pad MD5_BLOCKSIZE (md5_lenfield (bytecount ctx)) (length msg))))"
    unfolding md5_final_eq [OF ctx(2)] using assms
    by (intro md5_blocks.final_absorbs [where lb = 8])
      (simp_all add: md5_represents_def md5_lenfield_def length_md5_out hash_sizes)
  then show ?thesis
    unfolding rfc1321_md5_def ctx(1) md5_lenfield_def push_bit_3_of_nat
    by (simp add: md5_out_regs md5_fold md5_init_regs MD5_BLOCKSIZE_def)
qed

interpretation md5: hash_algorithm MD5_BLOCKSIZE MD5_BLOCKSIZE MD5_HASHSIZE md5_init md5_write
  md5_final rfc1321_md5 md5_represents
proof unfold_locales
  show "md5_represents [] (md5_init ctx)" for ctx
    by (simp add: md5_represents_def absorbed_def md5_init_def zero_context_def hash_sizes)
qed (rule md5_write_represents md5_final_digest; assumption)+

end
