(* ===== verification/Hash_Sha1.thy ===== *)
theory Hash_Sha1
  imports Hash_Words
begin

text \<open>
  SHA-1 of \<^verbatim>\<open>src/common/hash.c\<close>: \<^verbatim>\<open>sha1_init\<close>, the portable transform \<^verbatim>\<open>sha1_transform_cc\<close> with its 80
  unrolled steps, \<^verbatim>\<open>sha1_write\<close> and \<^verbatim>\<open>sha1_final\<close>, and the proof that the transform is the block
  function of FIPS 180-4 (section 6.1.2), where the schedule is 80 words and the registers shift.
\<close>

section \<open>The code\<close>

definition sha1_init :: "hash_context \<Rightarrow> hash_context" where
  "sha1_init ctx = zero_context\<lparr>state :=
     [0x67452301, 0xefcdab89, 0x98badcfe, 0x10325476, 0xc3d2e1f0, 0, 0, 0]\<rparr>"

definition sha1_F :: "nat \<Rightarrow> u32 \<Rightarrow> u32 \<Rightarrow> u32 \<Rightarrow> u32" where
  "sha1_F i x y z =
     (if i < 20 then z XOR (x AND (y XOR z))
      else if i < 40 then x XOR y XOR z
      else if i < 60 then (x AND y) OR (z AND (x OR y))
      else x XOR y XOR z)"

definition sha1_K :: "nat \<Rightarrow> u32" where
  "sha1_K i = (if i < 20 then 0x5a827999 else if i < 40 then 0x6ed9eba1
     else if i < 60 then 0x8f1bbcdc else 0xca62c1d6)"

text \<open>The macro \<^verbatim>\<open>M(i)\<close>: the next schedule word, stored in the circular buffer.\<close>

definition sha1_M :: "nat \<Rightarrow> u32 list \<Rightarrow> u32 \<times> u32 list" where
  "sha1_M i x =
     (let tm = x ! (i mod 16) XOR x ! ((i - 14) mod 16) XOR x ! ((i - 8) mod 16) XOR x ! ((i - 3) mod 16);
          v = ROL32 tm 1
      in (v, x[i mod 16 := v]))"

text \<open>
  Step \<open>i\<close> of the transform: \<^verbatim>\<open>SHA1STEP\<close> on the registers as the step names them, with the block
  word \<^verbatim>\<open>x[i]\<close> in the first 16 steps and \<^verbatim>\<open>M(i)\<close> after.
\<close>

definition sha1_step :: "nat \<Rightarrow> u32 list \<times> u32 list \<Rightarrow> u32 list \<times> u32 list" where
  "sha1_step i s =
     (case s of (r, x) \<Rightarrow>
       let (m, x) = (if i < 16 then (x ! i, x) else sha1_M i x);
           a = r ! reg 5 i 0; b = r ! reg 5 i 1; c = r ! reg 5 i 2; d = r ! reg 5 i 3; e = r ! reg 5 i 4
       in (r[reg 5 i 4 := e + (ROL32 a 5 + sha1_F i b c d + sha1_K i + m), reg 5 i 1 := ROL32 b 30], x))"

definition sha1_transform :: "hash_context \<Rightarrow> bytes \<Rightarrow> hash_context" where
  "sha1_transform ctx data =
     (let x = map (\<lambda>k. read_swap32 data (4 * k)) [0..<16];
          (r, x) = fold sha1_step [0..<80] (load_regs 5 (state ctx), x)
      in ctx\<lparr>state := add_regs (state ctx) r\<rparr>)"

definition sha1_write :: "hash_context \<Rightarrow> bytes \<Rightarrow> nat \<Rightarrow> hash_context option" where
  "sha1_write = md_write SHA1_BLOCKSIZE sha1_transform"

definition sha1_lenfield :: "u64 \<Rightarrow> bytes" where
  "sha1_lenfield cnt = be_bytes 8 (push_bit 3 cnt)"

definition sha1_out :: "u64 list \<Rightarrow> bytes" where
  "sha1_out st = concat (map (\<lambda>a. be_bytes 4 (ucast (st ! a) :: u32)) [0..<5])"

definition sha1_final :: "hash_context \<Rightarrow> hash_context" where
  "sha1_final = md_final SHA1_BLOCKSIZE sha1_lenfield sha1_transform sha1_out"

section \<open>FIPS 180-4\<close>

fun sha1_W :: "(nat \<Rightarrow> u32) \<Rightarrow> nat \<Rightarrow> u32" where
  "sha1_W M t =
     (if t < 16 then M t
      else word_rotl 1 (sha1_W M (t - 3) XOR sha1_W M (t - 8) XOR sha1_W M (t - 14) XOR sha1_W M (t - 16)))"

declare sha1_W.simps [simp del]

definition fips_f :: "nat \<Rightarrow> u32 \<Rightarrow> u32 \<Rightarrow> u32 \<Rightarrow> u32" where
  "fips_f t x y z =
     (if t < 20 then (x AND y) XOR (NOT x AND z)
      else if t < 40 then x XOR y XOR z
      else if t < 60 then (x AND y) XOR (x AND z) XOR (y AND z)
      else x XOR y XOR z)"

definition fips_sha1_round :: "(nat \<Rightarrow> u32) \<Rightarrow> nat \<Rightarrow> u32 list \<Rightarrow> u32 list" where
  "fips_sha1_round M t v =
     (case v of [a, b, c, d, e] \<Rightarrow>
        [word_rotl 5 a + fips_f t b c d + e + sha1_K t + sha1_W M t, a, word_rotl 30 b, c, d]
      | _ \<Rightarrow> v)"

definition fips_sha1_block :: "u32 list \<Rightarrow> bytes \<Rightarrow> u32 list" where
  "fips_sha1_block H blk =
     map2 (+) H (fold (fips_sha1_round (\<lambda>k. be_word (slice (4 * k) 4 blk))) [0..<80] H)"

definition fips_sha1 :: "bytes \<Rightarrow> bytes" where
  "fips_sha1 msg =
     concat (map (be_bytes 4) (foldl fips_sha1_block
       [0x67452301, 0xefcdab89, 0x98badcfe, 0x10325476, 0xc3d2e1f0]
       (chunks 64 (msg @ md_pad 64 (be_bytes 8 (of_nat (8 * length msg) :: u64)) (length msg)))))"

section \<open>The transform is the block function of the standard\<close>

lemma sha1_F_fips: "sha1_F i = fips_f i"
proof (intro ext)
  fix x y z
  show "sha1_F i x y z = fips_f i x y z"
    using Ch_fips [of x y z] Ma_fips [of x y z] by (simp add: sha1_F_def fips_f_def Ch_def Ma_def)
qed

lemma sha1_W_unfold:
  "16 \<le> t \<Longrightarrow> sha1_W M t =
   word_rotl 1 (sha1_W M (t - 16) XOR sha1_W M (t - 14) XOR sha1_W M (t - 8) XOR sha1_W M (t - 3))"
  by (simp add: sha1_W.simps [of M t] ac_simps)

lemma sha1_M_eq:
  assumes "circular (sha1_W M) i x" "16 \<le> i"
  shows "sha1_M i x = (sha1_W M i, x[i mod 16 := sha1_W M i])"
  using assms circular_nth [OF assms, of 14] circular_nth [OF assms, of 8] circular_nth [OF assms, of 3]
  by (simp add: sha1_M_def Let_def circular_nth_oldest sha1_W_unfold ROL32_rotl)

lemma length_5: "length r = 5 \<longleftrightarrow> (\<exists>a b c d e. r = [a, b, c, d, e])"
  by (auto simp: numeral_eq_Suc length_Suc_conv)

lemma upt_5: "[0..<5] = [0, 1, 2, 3, 4]"
  by (simp add: upt_rec)

lemma sha1_step_sim:
  assumes "circular (sha1_W M) i x" "length r = 5" "sha1_step i (r, x) = (r', x')"
  shows "circular (sha1_W M) (Suc i) x'" and "length r' = 5"
    and "reg_view 5 (Suc i) r' = fips_sha1_round M i (reg_view 5 i r)"
proof -
  define m where "m = sha1_W M i"
  have mx: "(if i < 16 then (x ! i, x) else sha1_M i x) =
      (m, if i < 16 then x else x[i mod 16 := sha1_W M i])"
    using assms(1) by (auto simp: sha1_M_eq circular_message m_def)
  have x': "x' = (if i < 16 then x else x[i mod 16 := sha1_W M i])"
    using assms(3) by (simp add: sha1_step_def Let_def mx del: if_split)
  then show "circular (sha1_W M) (Suc i) x'"
    using assms(1) by (simp add: circular_keep circular_push)
  have r': "r' = r[reg 5 i 4 := r ! reg 5 i 4 + (word_rotl 5 (r ! reg 5 i 0) +
      fips_f i (r ! reg 5 i 1) (r ! reg 5 i 2) (r ! reg 5 i 3) + sha1_K i + m),
      reg 5 i 1 := word_rotl 30 (r ! reg 5 i 1)]"
    using assms(3) by (simp add: sha1_step_def Let_def mx sha1_F_fips ROL32_rotl)
  then show "length r' = 5"
    using assms(2) by simp
  show "reg_view 5 (Suc i) r' = fips_sha1_round M i (reg_view 5 i r)"
    unfolding r' reg_view_def upt_5 using assms(2)
    by (simp add: reg_Suc reg_Suc_0 reg_less reg_inj nth_list_update fips_sha1_round_def m_def
        add.commute add.left_commute)
qed

lemma sha1_rounds_sim:
  assumes "circular (sha1_W M) 0 x" "length r = 5"
  shows "\<exists>r' x'. fold sha1_step [0..<n] (r, x) = (r', x') \<and> circular (sha1_W M) n x' \<and>
     length r' = 5 \<and> reg_view 5 n r' = fold (fips_sha1_round M) [0..<n] r"
proof (induction n)
  case 0
  then show ?case
    using assms by (simp add: reg_view_mult)
next
  case (Suc n)
  then obtain r' x' where IH: "fold sha1_step [0..<n] (r, x) = (r', x')" "circular (sha1_W M) n x'"
    "length r' = 5" "reg_view 5 n r' = fold (fips_sha1_round M) [0..<n] r"
    by blast
  obtain r'' x'' where "sha1_step n (r', x') = (r'', x'')"
    by fastforce
  with sha1_step_sim [OF IH(2,3) this] IH show ?case
    by simp
qed

lemma sha1_transform_frame [frame_simps]:
  "buf (sha1_transform ctx d) = buf ctx" "bytecount (sha1_transform ctx d) = bytecount ctx"
  "length (state (sha1_transform ctx d)) = length (state ctx)"
  by (simp_all add: sha1_transform_def split_def Let_def)

lemma sha1_transform_take: "sha1_transform ctx (take 64 d) = sha1_transform ctx d"
proof -
  have "map (\<lambda>k. read_swap32 (take 64 d) (4 * k)) [0..<16] = map (\<lambda>k. read_swap32 d (4 * k)) [0..<16]"
    by (rule map_cong) (simp_all add: reads_take)
  then show ?thesis
    by (simp only: sha1_transform_def)
qed

lemma sha1_transform_fips_block:
  assumes "length (state ctx) = 8"
  shows "load_regs 5 (state (sha1_transform ctx d)) = fips_sha1_block (load_regs 5 (state ctx)) d"
proof -
  let ?M = "\<lambda>k. be_word (slice (4 * k) 4 d) :: u32"
  let ?x = "map (\<lambda>k. read_swap32 d (4 * k)) [0..<16]"
  have "circular (sha1_W ?M) 0 ?x"
    by (intro circular_init) (simp add: sha1_W.simps read_swap32_def)
  then obtain r' x' where r: "fold sha1_step [0..<80] (load_regs 5 (state ctx), ?x) = (r', x')"
    "length r' = 5" "reg_view 5 80 r' = fold (fips_sha1_round ?M) [0..<80] (load_regs 5 (state ctx))"
    using sha1_rounds_sim [of ?M ?x "load_regs 5 (state ctx)" 80] by auto
  have "reg_view 5 80 r' = r'"
    using r(2) by (intro reg_view_mult) simp_all
  then show ?thesis
    using r assms load_add_regs [of r' "state ctx"]
    by (simp add: sha1_transform_def fips_sha1_block_def del: upt_Suc)
qed

section \<open>SHA-1 as a hash algorithm\<close>

definition sha1_represents :: "bytes \<Rightarrow> hash_context \<Rightarrow> bool" where
  "sha1_represents = absorbed SHA1_BLOCKSIZE sha1_transform (state (sha1_init zero_context))"

lemma sha1_transform_compress:
  "state (sha1_transform ctx d) = md_compress sha1_transform (state ctx) (take 64 d)"
  by (simp add: md_compress_def sha1_transform_take) (simp add: sha1_transform_def split_def Let_def)

interpretation sha1_blocks: block_transform SHA1_BLOCKSIZE sha1_transform
  by unfold_locales
    (simp_all add: SHA1_BLOCKSIZE_def frame_simps sha1_transform_compress [symmetric])

lemma sha1_fold:
  "length st = 8 \<Longrightarrow>
   load_regs 5 (md_fold sha1_transform st blks) = foldl fips_sha1_block (load_regs 5 st) blks"
  using md_fold_invariant [of "\<lambda>st. length st = 8" sha1_transform "load_regs 5" fips_sha1_block st blks]
  by (simp add: sha1_transform_fips_block frame_simps)

lemma sha1_out_regs: "sha1_out st = concat (map (be_bytes 4) (load_regs 5 st :: u32 list))"
  by (simp add: sha1_out_def load_regs_def comp_def)

lemma length_sha1_out: "length (sha1_out st) = 20"
  by (simp add: sha1_out_def length_concat comp_def upt_5)

lemma sha1_init_regs:
  "length (state (sha1_init ctx)) = 8"
  "load_regs 5 (state (sha1_init ctx)) =
     [0x67452301, 0xefcdab89, 0x98badcfe, 0x10325476, 0xc3d2e1f0 :: u32]"
  by (simp_all add: sha1_init_def load_regs_def upt_5)

lemma sha1_final_digest:
  assumes "sha1_represents msg ctx"
  shows "take SHA1_HASHSIZE (buf (sha1_final ctx)) = fips_sha1 msg"
proof -
  let ?init = "state (sha1_init zero_context)"
  have cnt: "bytecount ctx = of_nat (length msg)"
    using assms by (simp add: sha1_represents_def absorbed_def)
  have "take SHA1_HASHSIZE (buf (sha1_final ctx)) = sha1_out (md_fold sha1_transform ?init
      (chunks SHA1_BLOCKSIZE (msg @ md_pad SHA1_BLOCKSIZE (sha1_lenfield (bytecount ctx)) (length msg))))"
    unfolding sha1_final_def using assms
    by (intro sha1_blocks.final_absorbs [where lb = 8])
      (simp_all add: sha1_represents_def sha1_lenfield_def length_sha1_out hash_sizes)
  then show ?thesis
    unfolding fips_sha1_def cnt sha1_lenfield_def push_bit_3_of_nat
    by (simp add: sha1_out_regs sha1_fold sha1_init_regs SHA1_BLOCKSIZE_def)
qed

interpretation sha1: hash_algorithm SHA1_BLOCKSIZE 0 SHA1_HASHSIZE sha1_init sha1_write sha1_final
  fips_sha1 sha1_represents
proof unfold_locales
  show "sha1_represents [] (sha1_init ctx)" for ctx
    by (simp add: sha1_represents_def absorbed_def sha1_init_def zero_context_def hash_sizes)
  show "\<exists>ctx'. sha1_write ctx mem len = Some ctx' \<and> sha1_represents (msg @ take len mem) ctx'"
    if "sha1_represents msg ctx" "len \<le> length mem" for msg ctx len mem
    using that unfolding sha1_represents_def sha1_write_def by (rule sha1_blocks.write_absorbs)
qed (rule sha1_final_digest)

end
