(* ===== verification/Hash_Sha2.thy ===== *)
theory Hash_Sha2
  imports Hash_Words
begin

text \<open>
  SHA-256 and SHA-512 of \<^verbatim>\<open>src/common/hash.c\<close>: the constants, the inits, the transforms
  \<^verbatim>\<open>sha256_transform_cc\<close> (circular 16-word schedule) and \<^verbatim>\<open>sha512_transform\<close> (80-word
  schedule), both with nested rotations and rotating register names; the writes and finals; and the
  proofs that the transforms are the block functions of FIPS 180-4 (sections 6.2.2 and 6.4.2).
\<close>

section \<open>The round macro\<close>

text \<open>
  \<^verbatim>\<open>R(a,...,h,i)\<close>, the same text in both transforms: \<^verbatim>\<open>h += S1(e) + Ch(e,f,g) + K[i] + W;
  d += h; h += S0(a) + Ma(a,b,c)\<close>, on the registers as round \<open>i\<close> names them.
\<close>

definition sha2_R ::
  "('a::len word \<Rightarrow> 'a word) \<Rightarrow> ('a word \<Rightarrow> 'a word) \<Rightarrow> 'a word \<Rightarrow> 'a word \<Rightarrow> nat \<Rightarrow> 'a word list \<Rightarrow> 'a word list" where
  "sha2_R S0 S1 k w i r =
     (let a = r ! reg 8 i 0; b = r ! reg 8 i 1; c = r ! reg 8 i 2; d = r ! reg 8 i 3;
          e = r ! reg 8 i 4; f = r ! reg 8 i 5; g = r ! reg 8 i 6; h = r ! reg 8 i 7;
          h = h + (S1 e + Ch e f g + k + w);
          d = d + h;
          h = h + (S0 a + Ma a b c)
      in r[reg 8 i 3 := d, reg 8 i 7 := h])"

section \<open>SHA-256\<close>

definition K256 :: "u32 list" where
  "K256 = [
     0x428A2F98, 0x71374491, 0xB5C0FBCF, 0xE9B5DBA5, 0x3956C25B, 0x59F111F1, 0x923F82A4, 0xAB1C5ED5,
     0xD807AA98, 0x12835B01, 0x243185BE, 0x550C7DC3, 0x72BE5D74, 0x80DEB1FE, 0x9BDC06A7, 0xC19BF174,
     0xE49B69C1, 0xEFBE4786, 0x0FC19DC6, 0x240CA1CC, 0x2DE92C6F, 0x4A7484AA, 0x5CB0A9DC, 0x76F988DA,
     0x983E5152, 0xA831C66D, 0xB00327C8, 0xBF597FC7, 0xC6E00BF3, 0xD5A79147, 0x06CA6351, 0x14292967,
     0x27B70A85, 0x2E1B2138, 0x4D2C6DFC, 0x53380D13, 0x650A7354, 0x766A0ABB, 0x81C2C92E, 0x92722C85,
     0xA2BFE8A1, 0xA81A664B, 0xC24B8B70, 0xC76C51A3, 0xD192E819, 0xD6990624, 0xF40E3585, 0x106AA070,
     0x19A4C116, 0x1E376C08, 0x2748774C, 0x34B0BCB5, 0x391C0CB3, 0x4ED8AA4A, 0x5B9CCA4F, 0x682E6FF3,
     0x748F82EE, 0x78A5636F, 0x84C87814, 0x8CC70208, 0x90BEFFFA, 0xA4506CEB, 0xBEF9A3F7, 0xC67178F2]"

definition sha256_init :: "hash_context \<Rightarrow> hash_context" where
  "sha256_init ctx = zero_context\<lparr>state :=
     [0x6a09e667, 0xbb67ae85, 0x3c6ef372, 0xa54ff53a, 0x510e527f, 0x9b05688c, 0x1f83d9ab, 0x5be0cd19]\<rparr>"

definition sha256_S0 :: "u32 \<Rightarrow> u32" where
  "sha256_S0 x = ROR32 (ROR32 (ROR32 x 9 XOR x) 11 XOR x) 2"

definition sha256_S1 :: "u32 \<Rightarrow> u32" where
  "sha256_S1 x = ROR32 (ROR32 (ROR32 x 14 XOR x) 5 XOR x) 6"

definition sha256_s0 :: "u32 \<Rightarrow> u32" where
  "sha256_s0 x = ROR32 (ROR32 x 11 XOR x) 7 XOR drop_bit 3 x"

definition sha256_s1 :: "u32 \<Rightarrow> u32" where
  "sha256_s1 x = ROR32 (ROR32 x 2 XOR x) 17 XOR drop_bit 10 x"

text \<open>\<^verbatim>\<open>BLK2(i)\<close> of round \<open>t = i + j\<close>: the new schedule word, added into the circular buffer.\<close>

definition sha256_BLK2 :: "nat \<Rightarrow> u32 list \<Rightarrow> u32 \<times> u32 list" where
  "sha256_BLK2 t x =
     (let v = x ! (t mod 16) + (sha256_s1 (x ! ((t - 2) mod 16)) + x ! ((t - 7) mod 16)
                + sha256_s0 (x ! ((t - 15) mod 16)))
      in (v, x[t mod 16 := v]))"

text \<open>
  Round \<open>t\<close> of the four passes \<^verbatim>\<open>for (j = 0; j < 64; j += 16) { RX_8(0); RX_8(8); }\<close>: the block word in
  the first pass (\<open>j = 0\<close>), \<^verbatim>\<open>BLK2\<close> in the others.
\<close>

definition sha256_round :: "nat \<Rightarrow> u32 list \<times> u32 list \<Rightarrow> u32 list \<times> u32 list" where
  "sha256_round t s =
     (case s of (r, x) \<Rightarrow>
       let (w, x) = (if t < 16 then (x ! t, x) else sha256_BLK2 t x)
       in (sha2_R sha256_S0 sha256_S1 (K256 ! t) w t r, x))"

definition sha256_transform :: "hash_context \<Rightarrow> bytes \<Rightarrow> hash_context" where
  "sha256_transform ctx data =
     (let x = map (\<lambda>k. read_swap32 data (4 * k)) [0..<16];
          (r, x) = fold sha256_round [0..<64] (load_regs 8 (state ctx), x)
      in ctx\<lparr>state := add_regs (state ctx) r\<rparr>)"

definition sha256_write :: "hash_context \<Rightarrow> bytes \<Rightarrow> nat \<Rightarrow> hash_context option" where
  "sha256_write = md_write SHA256_BLOCKSIZE sha256_transform"

definition sha256_lenfield :: "u64 \<Rightarrow> bytes" where
  "sha256_lenfield cnt = be_bytes 8 (push_bit 3 cnt)"

definition sha256_out :: "u64 list \<Rightarrow> bytes" where
  "sha256_out st = concat (map (\<lambda>a. be_bytes 4 (ucast (st ! a) :: u32)) [0..<8])"

definition sha256_final :: "hash_context \<Rightarrow> hash_context" where
  "sha256_final = md_final SHA256_BLOCKSIZE sha256_lenfield sha256_transform sha256_out"

section \<open>SHA-512\<close>

definition K512 :: "u64 list" where
  "K512 = [
     0x428A2F98D728AE22, 0x7137449123EF65CD, 0xB5C0FBCFEC4D3B2F, 0xE9B5DBA58189DBBC,
     0x3956C25BF348B538, 0x59F111F1B605D019, 0x923F82A4AF194F9B, 0xAB1C5ED5DA6D8118,
     0xD807AA98A3030242, 0x12835B0145706FBE, 0x243185BE4EE4B28C, 0x550C7DC3D5FFB4E2,
     0x72BE5D74F27B896F, 0x80DEB1FE3B1696B1, 0x9BDC06A725C71235, 0xC19BF174CF692694,
     0xE49B69C19EF14AD2, 0xEFBE4786384F25E3, 0x0FC19DC68B8CD5B5, 0x240CA1CC77AC9C65,
     0x2DE92C6F592B0275, 0x4A7484AA6EA6E483, 0x5CB0A9DCBD41FBD4, 0x76F988DA831153B5,
     0x983E5152EE66DFAB, 0xA831C66D2DB43210, 0xB00327C898FB213F, 0xBF597FC7BEEF0EE4,
     0xC6E00BF33DA88FC2, 0xD5A79147930AA725, 0x06CA6351E003826F, 0x142929670A0E6E70,
     0x27B70A8546D22FFC, 0x2E1B21385C26C926, 0x4D2C6DFC5AC42AED, 0x53380D139D95B3DF,
     0x650A73548BAF63DE, 0x766A0ABB3C77B2A8, 0x81C2C92E47EDAEE6, 0x92722C851482353B,
     0xA2BFE8A14CF10364, 0xA81A664BBC423001, 0xC24B8B70D0F89791, 0xC76C51A30654BE30,
     0xD192E819D6EF5218, 0xD69906245565A910, 0xF40E35855771202A, 0x106AA07032BBD1B8,
     0x19A4C116B8D2D0C8, 0x1E376C085141AB53, 0x2748774CDF8EEB99, 0x34B0BCB5E19B48A8,
     0x391C0CB3C5C95A63, 0x4ED8AA4AE3418ACB, 0x5B9CCA4F7763E373, 0x682E6FF3D6B2B8A3,
     0x748F82EE5DEFB2FC, 0x78A5636F43172F60, 0x84C87814A1F0AB72, 0x8CC702081A6439EC,
     0x90BEFFFA23631E28, 0xA4506CEBDE82BDE9, 0xBEF9A3F7B2C67915, 0xC67178F2E372532B,
     0xCA273ECEEA26619C, 0xD186B8C721C0C207, 0xEADA7DD6CDE0EB1E, 0xF57D4F7FEE6ED178,
     0x06F067AA72176FBA, 0x0A637DC5A2C898A6, 0x113F9804BEF90DAE, 0x1B710B35131C471B,
     0x28DB77F523047D84, 0x32CAAB7B40C72493, 0x3C9EBE0A15C9BEBC, 0x431D67C49C100D4C,
     0x4CC5D4BECB3E42B6, 0x597F299CFC657E2A, 0x5FCB6FAB3AD6FAEC, 0x6C44198C4A475817]"

definition sha512_init :: "hash_context \<Rightarrow> hash_context" where
  "sha512_init ctx = zero_context\<lparr>state :=
     [0x6a09e667f3bcc908, 0xbb67ae8584caa73b, 0x3c6ef372fe94f82b, 0xa54ff53a5f1d36f1,
      0x510e527fade682d1, 0x9b05688c2b3e6c1f, 0x1f83d9abfb41bd6b, 0x5be0cd19137e2179]\<rparr>"

definition sha512_S0 :: "u64 \<Rightarrow> u64" where
  "sha512_S0 x = ROR64 (ROR64 (ROR64 x 5 XOR x) 6 XOR x) 28"

definition sha512_S1 :: "u64 \<Rightarrow> u64" where
  "sha512_S1 x = ROR64 (ROR64 (ROR64 x 23 XOR x) 4 XOR x) 14"

definition sha512_s0 :: "u64 \<Rightarrow> u64" where
  "sha512_s0 x = ROR64 (ROR64 x 7 XOR x) 1 XOR drop_bit 7 x"

definition sha512_s1 :: "u64 \<Rightarrow> u64" where
  "sha512_s1 x = ROR64 (ROR64 x 42 XOR x) 19 XOR drop_bit 6 x"

text \<open>The array \<^verbatim>\<open>W[80]\<close>, filled in index order.\<close>

definition sha512_W_next :: "bytes \<Rightarrow> nat \<Rightarrow> u64 list \<Rightarrow> u64 list" where
  "sha512_W_next data i W =
     W @ [if i < 16 then read_swap64 data (8 * i)
          else sha512_s1 (W ! (i - 2)) + W ! (i - 7) + sha512_s0 (W ! (i - 15)) + W ! (i - 16)]"

definition sha512_transform :: "hash_context \<Rightarrow> bytes \<Rightarrow> hash_context" where
  "sha512_transform ctx data =
     (let W = fold (sha512_W_next data) [0..<80] [];
          r = fold (\<lambda>i. sha2_R sha512_S0 sha512_S1 (K512 ! i) (W ! i) i) [0..<80] (load_regs 8 (state ctx))
      in ctx\<lparr>state := add_regs (state ctx) r\<rparr>)"

definition sha512_write :: "hash_context \<Rightarrow> bytes \<Rightarrow> nat \<Rightarrow> hash_context option" where
  "sha512_write = md_write SHA512_BLOCKSIZE sha512_transform"

text \<open>The 128-bit length field: \<^verbatim>\<open>bitcount_hi\<close>, then \<^verbatim>\<open>bitcount_lo\<close>.\<close>

definition sha512_lenfield :: "u64 \<Rightarrow> bytes" where
  "sha512_lenfield cnt = be_bytes 8 (drop_bit (64 - 3) cnt) @ be_bytes 8 (push_bit 3 cnt)"

definition sha512_out :: "u64 list \<Rightarrow> bytes" where
  "sha512_out st = concat (map (\<lambda>a. be_bytes 8 (st ! a)) [0..<8])"

definition sha512_final :: "hash_context \<Rightarrow> hash_context" where
  "sha512_final = md_final SHA512_BLOCKSIZE sha512_lenfield sha512_transform sha512_out"

section \<open>FIPS 180-4\<close>

function fips_W :: "('a::len word \<Rightarrow> 'a word) \<Rightarrow> ('a word \<Rightarrow> 'a word) \<Rightarrow> (nat \<Rightarrow> 'a word) \<Rightarrow> nat \<Rightarrow> 'a word" where
  "fips_W s0 s1 M t =
     (if t < 16 then M t
      else s1 (fips_W s0 s1 M (t - 2)) + fips_W s0 s1 M (t - 7) + s0 (fips_W s0 s1 M (t - 15))
           + fips_W s0 s1 M (t - 16))"
  by pat_completeness auto
termination
  by (relation "measure (\<lambda>(s0, s1, M, t). t)") auto

declare fips_W.simps [simp del]

definition fips_round ::
  "('a::len word \<Rightarrow> 'a word) \<Rightarrow> ('a word \<Rightarrow> 'a word) \<Rightarrow> (nat \<Rightarrow> 'a word) \<Rightarrow> (nat \<Rightarrow> 'a word) \<Rightarrow> nat \<Rightarrow> 'a word list \<Rightarrow> 'a word list" where
  "fips_round S0 S1 K W t v =
     (case v of [a, b, c, d, e, f, g, h] \<Rightarrow>
        let T1 = h + S1 e + ((e AND f) XOR (NOT e AND g)) + K t + W t;
            T2 = S0 a + ((a AND b) XOR (a AND c) XOR (b AND c))
        in [T1 + T2, a, b, c, d + T1, e, f, g]
      | _ \<Rightarrow> v)"

definition fips256_Sigma0 :: "u32 \<Rightarrow> u32" where
  "fips256_Sigma0 x = word_rotr 2 x XOR word_rotr 13 x XOR word_rotr 22 x"
definition fips256_Sigma1 :: "u32 \<Rightarrow> u32" where
  "fips256_Sigma1 x = word_rotr 6 x XOR word_rotr 11 x XOR word_rotr 25 x"
definition fips256_sigma0 :: "u32 \<Rightarrow> u32" where
  "fips256_sigma0 x = word_rotr 7 x XOR word_rotr 18 x XOR drop_bit 3 x"
definition fips256_sigma1 :: "u32 \<Rightarrow> u32" where
  "fips256_sigma1 x = word_rotr 17 x XOR word_rotr 19 x XOR drop_bit 10 x"

definition fips_sha256_block :: "u32 list \<Rightarrow> bytes \<Rightarrow> u32 list" where
  "fips_sha256_block H blk =
     map2 (+) H (fold (fips_round fips256_Sigma0 fips256_Sigma1 (\<lambda>t. K256 ! t)
        (fips_W fips256_sigma0 fips256_sigma1 (\<lambda>k. be_word (slice (4 * k) 4 blk)))) [0..<64] H)"

definition fips_sha256 :: "bytes \<Rightarrow> bytes" where
  "fips_sha256 msg =
     concat (map (be_bytes 4) (foldl fips_sha256_block
       [0x6a09e667, 0xbb67ae85, 0x3c6ef372, 0xa54ff53a, 0x510e527f, 0x9b05688c, 0x1f83d9ab, 0x5be0cd19]
       (chunks 64 (msg @ md_pad 64 (be_bytes 8 (of_nat (8 * length msg) :: u64)) (length msg)))))"

definition fips512_Sigma0 :: "u64 \<Rightarrow> u64" where
  "fips512_Sigma0 x = word_rotr 28 x XOR word_rotr 34 x XOR word_rotr 39 x"
definition fips512_Sigma1 :: "u64 \<Rightarrow> u64" where
  "fips512_Sigma1 x = word_rotr 14 x XOR word_rotr 18 x XOR word_rotr 41 x"
definition fips512_sigma0 :: "u64 \<Rightarrow> u64" where
  "fips512_sigma0 x = word_rotr 1 x XOR word_rotr 8 x XOR drop_bit 7 x"
definition fips512_sigma1 :: "u64 \<Rightarrow> u64" where
  "fips512_sigma1 x = word_rotr 19 x XOR word_rotr 61 x XOR drop_bit 6 x"

definition fips_sha512_block :: "u64 list \<Rightarrow> bytes \<Rightarrow> u64 list" where
  "fips_sha512_block H blk =
     map2 (+) H (fold (fips_round fips512_Sigma0 fips512_Sigma1 (\<lambda>t. K512 ! t)
        (fips_W fips512_sigma0 fips512_sigma1 (\<lambda>k. be_word (slice (8 * k) 8 blk)))) [0..<80] H)"

definition fips_sha512 :: "bytes \<Rightarrow> bytes" where
  "fips_sha512 msg =
     concat (map (be_bytes 8) (foldl fips_sha512_block
       [0x6a09e667f3bcc908, 0xbb67ae8584caa73b, 0x3c6ef372fe94f82b, 0xa54ff53a5f1d36f1,
        0x510e527fade682d1, 0x9b05688c2b3e6c1f, 0x1f83d9abfb41bd6b, 0x5be0cd19137e2179]
       (chunks 128 (msg @ md_pad 128 (be_bytes 16 (of_nat (8 * length msg) :: 128 word)) (length msg)))))"

section \<open>One round, for both algorithms\<close>

lemma sha256_sigmas:
  "sha256_S0 = fips256_Sigma0" "sha256_S1 = fips256_Sigma1"
  "sha256_s0 = fips256_sigma0" "sha256_s1 = fips256_sigma1"
  by (simp_all add: fun_eq_iff sha256_S0_def sha256_S1_def sha256_s0_def sha256_s1_def
      fips256_Sigma0_def fips256_Sigma1_def fips256_sigma0_def fips256_sigma1_def rot_simps ac_simps)

lemma sha512_sigmas:
  "sha512_S0 = fips512_Sigma0" "sha512_S1 = fips512_Sigma1"
  "sha512_s0 = fips512_sigma0" "sha512_s1 = fips512_sigma1"
  by (simp_all add: fun_eq_iff sha512_S0_def sha512_S1_def sha512_s0_def sha512_s1_def
      fips512_Sigma0_def fips512_Sigma1_def fips512_sigma0_def fips512_sigma1_def rot_simps ac_simps)

lemma upt_8: "[0..<8] = [0, 1, 2, 3, 4, 5, 6, 7]"
  by (simp add: upt_rec)

lemma length_sha2_R [simp]: "length (sha2_R S0 S1 k w i r) = length r"
  by (simp add: sha2_R_def Let_def)

lemma sha2_R_sim:
  assumes "length r = 8"
  shows "reg_view 8 (Suc i) (sha2_R S0 S1 (K i) (W i) i r) = fips_round S0 S1 K W i (reg_view 8 i r)"
  unfolding reg_view_def upt_8 sha2_R_def Let_def using assms
  by (simp add: reg_Suc reg_Suc_0 reg_less reg_inj nth_list_update fips_round_def Let_def
      Ch_fips Ma_fips add.commute add.left_commute)

section \<open>SHA-256: the transform is the block function of the standard\<close>

abbreviation "sha256_sched M \<equiv> fips_W fips256_sigma0 fips256_sigma1 M"
abbreviation "sha256_ref M \<equiv> fips_round fips256_Sigma0 fips256_Sigma1 (\<lambda>t. K256 ! t) (sha256_sched M)"

lemma sha256_BLK2_eq:
  assumes "circular (sha256_sched M) t x" "16 \<le> t"
  shows "sha256_BLK2 t x = (sha256_sched M t, x[t mod 16 := sha256_sched M t])"
proof -
  have "sha256_sched M t = sha256_sched M (t - 16) + (sha256_s1 (sha256_sched M (t - 2))
      + sha256_sched M (t - 7) + sha256_s0 (sha256_sched M (t - 15)))"
    using assms(2) by (simp add: fips_W.simps [of _ _ M t] sha256_sigmas ac_simps)
  then show ?thesis
    using assms circular_nth [OF assms, of 2] circular_nth [OF assms, of 7] circular_nth [OF assms, of 15]
    by (simp add: sha256_BLK2_def Let_def circular_nth_oldest)
qed

lemma sha256_round_sim:
  assumes "circular (sha256_sched M) t x" "length r = 8"
  shows "\<exists>x'. sha256_round t (r, x) = (sha2_R fips256_Sigma0 fips256_Sigma1 (K256 ! t) (sha256_sched M t) t r, x')
    \<and> circular (sha256_sched M) (Suc t) x'"
proof (cases "t < 16")
  case True
  then show ?thesis
    using assms by (simp add: sha256_round_def sha256_sigmas circular_message circular_keep)
next
  case False
  then show ?thesis
    using assms by (simp add: sha256_round_def sha256_sigmas sha256_BLK2_eq circular_push)
qed

lemma sha256_rounds_sim:
  assumes "circular (sha256_sched M) 0 x" "length r = 8"
  shows "\<exists>r' x'. fold sha256_round [0..<n] (r, x) = (r', x') \<and> circular (sha256_sched M) n x' \<and>
     length r' = 8 \<and> reg_view 8 n r' = fold (sha256_ref M) [0..<n] r"
proof (induction n)
  case 0
  then show ?case
    using assms by (simp add: reg_view_mult)
next
  case (Suc n)
  then obtain r' x' where IH: "fold sha256_round [0..<n] (r, x) = (r', x')"
    "circular (sha256_sched M) n x'" "length r' = 8"
    "reg_view 8 n r' = fold (sha256_ref M) [0..<n] r"
    by blast
  obtain x'' where "sha256_round n (r', x') =
      (sha2_R fips256_Sigma0 fips256_Sigma1 (K256 ! n) (sha256_sched M n) n r', x'')"
    "circular (sha256_sched M) (Suc n) x''"
    using sha256_round_sim [OF IH(2,3)] by blast
  with IH sha2_R_sim [OF IH(3), where i = n and K = "\<lambda>t. K256 ! t" and W = "sha256_sched M"]
  show ?case
    by simp
qed

lemma sha256_transform_frame [frame_simps]:
  "buf (sha256_transform ctx d) = buf ctx" "bytecount (sha256_transform ctx d) = bytecount ctx"
  "length (state (sha256_transform ctx d)) = length (state ctx)"
  by (simp_all add: sha256_transform_def split_def Let_def)

lemma sha256_transform_take: "sha256_transform ctx (take 64 d) = sha256_transform ctx d"
proof -
  have "map (\<lambda>k. read_swap32 (take 64 d) (4 * k)) [0..<16] = map (\<lambda>k. read_swap32 d (4 * k)) [0..<16]"
    by (rule map_cong) (simp_all add: reads_take)
  then show ?thesis
    by (simp only: sha256_transform_def)
qed

lemma sha256_transform_compress:
  "state (sha256_transform ctx d) = md_compress sha256_transform (state ctx) (take 64 d)"
  by (simp add: md_compress_def sha256_transform_take) (simp add: sha256_transform_def split_def Let_def)

lemma sha256_transform_fips_block:
  assumes "length (state ctx) = 8"
  shows "load_regs 8 (state (sha256_transform ctx d)) = fips_sha256_block (load_regs 8 (state ctx)) d"
proof -
  let ?M = "\<lambda>k. be_word (slice (4 * k) 4 d) :: u32"
  let ?x = "map (\<lambda>k. read_swap32 d (4 * k)) [0..<16]"
  have "circular (sha256_sched ?M) 0 ?x"
    by (intro circular_init) (simp add: fips_W.simps read_swap32_def)
  then obtain r' x' where r: "fold sha256_round [0..<64] (load_regs 8 (state ctx), ?x) = (r', x')"
    "length r' = 8" "reg_view 8 64 r' = fold (sha256_ref ?M) [0..<64] (load_regs 8 (state ctx))"
    using sha256_rounds_sim [of ?M ?x "load_regs 8 (state ctx)" 64] by auto
  have "reg_view 8 64 r' = r'"
    using r(2) by (intro reg_view_mult) simp_all
  then show ?thesis
    using r assms load_add_regs [of r' "state ctx"]
    by (simp add: sha256_transform_def fips_sha256_block_def del: upt_Suc)
qed

section \<open>SHA-512: the transform is the block function of the standard\<close>

abbreviation "sha512_sched M \<equiv> fips_W fips512_sigma0 fips512_sigma1 M"
abbreviation "sha512_ref M \<equiv> fips_round fips512_Sigma0 fips512_Sigma1 (\<lambda>t. K512 ! t) (sha512_sched M)"

lemma sha512_W_eq:
  "fold (sha512_W_next d) [0..<n] [] = map (sha512_sched (\<lambda>k. be_word (slice (8 * k) 8 d))) [0..<n]"
proof (induction n)
  case 0
  then show ?case by simp
next
  case (Suc n)
  then show ?case
    by (simp add: sha512_W_next_def sha512_sigmas fips_W.simps [of _ _ _ n] read_swap64_def)
qed

lemma sha512_rounds_sim:
  assumes "length r = 8" "n \<le> 80"
    and "r' = fold (\<lambda>i. sha2_R sha512_S0 sha512_S1 (K512 ! i) (map (sha512_sched M) [0..<80] ! i) i) [0..<n] r"
  shows "length r' = 8 \<and> reg_view 8 n r' = fold (sha512_ref M) [0..<n] r"
  using assms(2,3)
proof (induction n arbitrary: r')
  case 0
  then show ?case
    using assms(1) by (simp add: reg_view_mult)
next
  case (Suc n)
  then show ?case
    using sha2_R_sim [where i = n and K = "\<lambda>t. K512 ! t" and W = "sha512_sched M"]
    by (simp add: sha512_sigmas)
qed

lemma sha512_transform_frame [frame_simps]:
  "buf (sha512_transform ctx d) = buf ctx" "bytecount (sha512_transform ctx d) = bytecount ctx"
  "length (state (sha512_transform ctx d)) = length (state ctx)"
  by (simp_all add: sha512_transform_def Let_def)

lemma sha512_W_take:
  "fold (sha512_W_next (take 128 d)) [0..<80] [] = fold (sha512_W_next d) [0..<80] []"
  by (rule fold_cong) (auto simp: sha512_W_next_def reads_take fun_eq_iff)

lemma sha512_transform_compress:
  "state (sha512_transform ctx d) = md_compress sha512_transform (state ctx) (take 128 d)"
  by (simp add: md_compress_def sha512_transform_def Let_def sha512_W_take del: upt_Suc)

lemma load_regs_64: "length st = n \<Longrightarrow> load_regs n st = (st :: u64 list)"
  by (auto simp: load_regs_def intro: nth_equalityI)

lemma sha512_transform_fips_block:
  assumes "length (state ctx) = 8"
  shows "state (sha512_transform ctx d) = fips_sha512_block (state ctx) d"
proof -
  let ?M = "\<lambda>k. be_word (slice (8 * k) 8 d) :: u64"
  define r' where "r' = fold (\<lambda>i. sha2_R sha512_S0 sha512_S1 (K512 ! i)
      (map (sha512_sched ?M) [0..<80] ! i) i) [0..<80] (load_regs 8 (state ctx))"
  have r: "length r' = 8" "reg_view 8 80 r' = fold (sha512_ref ?M) [0..<80] (load_regs 8 (state ctx))"
    using sha512_rounds_sim [OF _ _ r'_def] by auto
  have v: "reg_view 8 80 r' = r'"
    using r(1) by (intro reg_view_mult) simp_all
  have "state (sha512_transform ctx d) = add_regs (state ctx) r'"
    unfolding sha512_transform_def sha512_W_eq Let_def r'_def by simp
  then have "load_regs 8 (state (sha512_transform ctx d)) = map2 (+) (load_regs 8 (state ctx)) r'"
    using load_add_regs [of r' "state ctx"] r(1) assms by simp
  then show ?thesis
    using r(2) v assms by (simp add: load_regs_64 frame_simps fips_sha512_block_def)
qed

section \<open>SHA-256 as a hash algorithm\<close>

definition sha256_represents :: "bytes \<Rightarrow> hash_context \<Rightarrow> bool" where
  "sha256_represents = absorbed SHA256_BLOCKSIZE sha256_transform (state (sha256_init zero_context))"

interpretation sha256_blocks: block_transform SHA256_BLOCKSIZE sha256_transform
  by unfold_locales
    (simp_all add: SHA256_BLOCKSIZE_def frame_simps sha256_transform_compress [symmetric])

lemma sha256_fold:
  "length st = 8 \<Longrightarrow>
   load_regs 8 (md_fold sha256_transform st blks) = foldl fips_sha256_block (load_regs 8 st) blks"
  using md_fold_invariant [of "\<lambda>st. length st = 8" sha256_transform "load_regs 8" fips_sha256_block st blks]
  by (simp add: sha256_transform_fips_block frame_simps)

lemma sha256_out_regs: "sha256_out st = concat (map (be_bytes 4) (load_regs 8 st :: u32 list))"
  by (simp add: sha256_out_def load_regs_def comp_def)

lemma length_sha256_out: "length (sha256_out st) = 32"
  by (simp add: sha256_out_def length_concat comp_def upt_8)

lemma sha256_init_regs:
  "length (state (sha256_init ctx)) = 8"
  "load_regs 8 (state (sha256_init ctx)) =
     [0x6a09e667, 0xbb67ae85, 0x3c6ef372, 0xa54ff53a, 0x510e527f, 0x9b05688c, 0x1f83d9ab, 0x5be0cd19 :: u32]"
  by (simp_all add: sha256_init_def load_regs_def upt_8)

lemma sha256_final_digest:
  assumes "sha256_represents msg ctx"
  shows "take SHA256_HASHSIZE (buf (sha256_final ctx)) = fips_sha256 msg"
proof -
  let ?init = "state (sha256_init zero_context)"
  have cnt: "bytecount ctx = of_nat (length msg)"
    using assms by (simp add: sha256_represents_def absorbed_def)
  have "take SHA256_HASHSIZE (buf (sha256_final ctx)) = sha256_out (md_fold sha256_transform ?init
      (chunks SHA256_BLOCKSIZE (msg @ md_pad SHA256_BLOCKSIZE (sha256_lenfield (bytecount ctx)) (length msg))))"
    unfolding sha256_final_def using assms
    by (intro sha256_blocks.final_absorbs [where lb = 8])
      (simp_all add: sha256_represents_def sha256_lenfield_def length_sha256_out hash_sizes)
  then show ?thesis
    unfolding fips_sha256_def cnt sha256_lenfield_def push_bit_3_of_nat
    by (simp add: sha256_out_regs sha256_fold sha256_init_regs SHA256_BLOCKSIZE_def)
qed

interpretation sha256: hash_algorithm SHA256_BLOCKSIZE 0 SHA256_HASHSIZE sha256_init sha256_write
  sha256_final fips_sha256 sha256_represents
proof unfold_locales
  show "sha256_represents [] (sha256_init ctx)" for ctx
    by (simp add: sha256_represents_def absorbed_def sha256_init_def zero_context_def hash_sizes)
  show "\<exists>ctx'. sha256_write ctx mem len = Some ctx' \<and> sha256_represents (msg @ take len mem) ctx'"
    if "sha256_represents msg ctx" "len \<le> length mem" for msg ctx len mem
    using that unfolding sha256_represents_def sha256_write_def by (rule sha256_blocks.write_absorbs)
qed (rule sha256_final_digest)

section \<open>SHA-512 as a hash algorithm\<close>

definition sha512_represents :: "bytes \<Rightarrow> hash_context \<Rightarrow> bool" where
  "sha512_represents = absorbed SHA512_BLOCKSIZE sha512_transform (state (sha512_init zero_context))"

interpretation sha512_blocks: block_transform SHA512_BLOCKSIZE sha512_transform
  by unfold_locales
    (simp_all add: SHA512_BLOCKSIZE_def frame_simps sha512_transform_compress [symmetric])

lemma sha512_fold:
  assumes "length st = 8"
  shows "md_fold sha512_transform st blks = foldl fips_sha512_block st blks"
    and "length (foldl fips_sha512_block st blks) = 8"
proof -
  have "length (md_fold sha512_transform st blks) = 8 \<and>
      md_fold sha512_transform st blks = foldl fips_sha512_block st blks"
    using assms by (intro md_fold_invariant) (simp_all add: sha512_transform_fips_block [symmetric] frame_simps)
  then show "md_fold sha512_transform st blks = foldl fips_sha512_block st blks"
    and "length (foldl fips_sha512_block st blks) = 8"
    by auto
qed

lemma sha512_out_map: "length st = 8 \<Longrightarrow> sha512_out st = concat (map (be_bytes 8) st)"
  by (auto simp: sha512_out_def intro!: arg_cong [where f = concat] nth_equalityI)

lemma length_sha512_out: "length (sha512_out st) = 64"
  by (simp add: sha512_out_def length_concat comp_def upt_8)

text \<open>The two 64-bit halves of the length field are the 128-bit bit count.\<close>

lemma sha512_lenfield_128:
  assumes "n < 2 ^ 64"
  shows "sha512_lenfield (of_nat n) = be_bytes 16 (of_nat (8 * n) :: 128 word)"
proof -
  define c :: u64 where "c = of_nat n"
  have "unat c = n"
    using assms by (simp add: c_def unat_of_nat)
  then have "(ucast c :: 128 word) = of_nat n"
    by (metis of_nat_unat)
  then have w: "(of_nat (8 * n) :: 128 word) = push_bit 3 (ucast c)"
    by (simp add: push_bit_eq_mult)
  have "le_bytes 16 (push_bit 3 (ucast c) :: 128 word) =
      le_bytes 8 (push_bit 3 c) @ le_bytes 8 (drop_bit (64 - 3) c)"
  proof (rule nth_equalityI)
    fix i assume "i < length (le_bytes 16 (push_bit 3 (ucast c) :: 128 word))"
    then have i: "i < 16" by simp
    have hi: "8 * (i - 8) + 61 + k = 8 * i + k - 3" if "\<not> i < 8" for k
      using that by arith
    show "le_bytes 16 (push_bit 3 (ucast c) :: 128 word) ! i =
        (le_bytes 8 (push_bit 3 c) @ le_bytes 8 (drop_bit (64 - 3) c)) ! i"
      using i by (intro bit_word_eqI) (auto simp: nth_append le_bytes_nth bit_simps hi)
  qed simp
  then show ?thesis
    unfolding w sha512_lenfield_def be_bytes_def c_def [symmetric] by simp
qed

lemma sha512_final_digest:
  assumes "sha512_represents msg ctx" "length msg < 2 ^ 64"
  shows "take SHA512_HASHSIZE (buf (sha512_final ctx)) = fips_sha512 msg"
proof -
  let ?init = "state (sha512_init zero_context)"
  have cnt: "bytecount ctx = of_nat (length msg)"
    using assms(1) by (simp add: sha512_represents_def absorbed_def)
  have "take SHA512_HASHSIZE (buf (sha512_final ctx)) = sha512_out (md_fold sha512_transform ?init
      (chunks SHA512_BLOCKSIZE (msg @ md_pad SHA512_BLOCKSIZE (sha512_lenfield (bytecount ctx)) (length msg))))"
    unfolding sha512_final_def using assms(1)
    by (intro sha512_blocks.final_absorbs [where lb = 16])
      (simp_all add: sha512_represents_def sha512_lenfield_def length_sha512_out hash_sizes)
  moreover have "length ?init = 8"
    by (simp add: sha512_init_def)
  ultimately show ?thesis
    unfolding fips_sha512_def cnt sha512_lenfield_128 [OF assms(2)]
    by (simp add: sha512_out_map sha512_fold SHA512_BLOCKSIZE_def sha512_init_def)
qed

interpretation sha512: hash_algorithm SHA512_BLOCKSIZE 0 SHA512_HASHSIZE sha512_init sha512_write
  sha512_final fips_sha512 sha512_represents
proof unfold_locales
  show "sha512_represents [] (sha512_init ctx)" for ctx
    by (simp add: sha512_represents_def absorbed_def sha512_init_def zero_context_def hash_sizes)
  show "\<exists>ctx'. sha512_write ctx mem len = Some ctx' \<and> sha512_represents (msg @ take len mem) ctx'"
    if "sha512_represents msg ctx" "len \<le> length mem" for msg ctx len mem
    using that unfolding sha512_represents_def sha512_write_def by (rule sha512_blocks.write_absorbs)
qed (rule sha512_final_digest)

end
