(* ===== verification/Hash.thy ===== *)
theory Hash
  imports Hash_Md5 Hash_Sha1 Hash_Sha2
begin

text \<open>
  The callers of the hash algorithms in \<^verbatim>\<open>src/common/hash.c\<close>: the dispatch tables \<^verbatim>\<open>hash_init\<close>,
  \<^verbatim>\<open>hash_write\<close>, \<^verbatim>\<open>hash_final\<close>, \<^verbatim>\<open>hash_count\<close>; \<^verbatim>\<open>HashBuffer\<close>, \<^verbatim>\<open>HashFile\<close> and the hash database
  lookups built on them. The operating system's reads are the argument of \<^verbatim>\<open>HashFile\<close>: the list of
  outcomes of the successive \<^verbatim>\<open>read\<close> calls.
\<close>

section \<open>Dispatch\<close>

datatype hash_type = HASH_MD5 | HASH_SHA1 | HASH_SHA256 | HASH_SHA512

text \<open>The \<^verbatim>\<open>unsigned type\<close> argument; \<open>None\<close> is \<^verbatim>\<open>type >= HASH_MAX\<close>.\<close>

definition hash_type_of :: "nat \<Rightarrow> hash_type option" where
  "hash_type_of n = (if n = 0 then Some HASH_MD5 else if n = 1 then Some HASH_SHA1
     else if n = 2 then Some HASH_SHA256 else if n = 3 then Some HASH_SHA512 else None)"

fun hash_init :: "hash_type \<Rightarrow> hash_context \<Rightarrow> hash_context" where
  "hash_init HASH_MD5 = md5_init"
| "hash_init HASH_SHA1 = sha1_init"
| "hash_init HASH_SHA256 = sha256_init"
| "hash_init HASH_SHA512 = sha512_init"

fun hash_write :: "hash_type \<Rightarrow> hash_context \<Rightarrow> bytes \<Rightarrow> nat \<Rightarrow> hash_context option" where
  "hash_write HASH_MD5 = md5_write"
| "hash_write HASH_SHA1 = sha1_write"
| "hash_write HASH_SHA256 = sha256_write"
| "hash_write HASH_SHA512 = sha512_write"

fun hash_final :: "hash_type \<Rightarrow> hash_context \<Rightarrow> hash_context" where
  "hash_final HASH_MD5 = md5_final"
| "hash_final HASH_SHA1 = sha1_final"
| "hash_final HASH_SHA256 = sha256_final"
| "hash_final HASH_SHA512 = sha512_final"

fun hash_count :: "hash_type \<Rightarrow> nat" where
  "hash_count HASH_MD5 = MD5_HASHSIZE"
| "hash_count HASH_SHA1 = SHA1_HASHSIZE"
| "hash_count HASH_SHA256 = SHA256_HASHSIZE"
| "hash_count HASH_SHA512 = SHA512_HASHSIZE"

section \<open>HashBuffer and HashFile\<close>

text \<open>
  Memory for the digest and the path are given (non-null). The outcomes of the two routines: \<open>HashFalse\<close> is the return value \<^verbatim>\<open>FALSE\<close>, \<open>HashTrue h\<close> is \<^verbatim>\<open>TRUE\<close> with
  the digest stored, \<open>HashOverread\<close> stands for a read past the memory the caller gave.
\<close>

datatype hash_result = HashFalse | HashTrue bytes | HashOverread

definition HashBuffer :: "nat \<Rightarrow> bytes \<Rightarrow> nat \<Rightarrow> hash_result" where
  "HashBuffer type mem len =
     (case hash_type_of type of
        None \<Rightarrow> HashFalse
      | Some t \<Rightarrow>
          (case hash_write t (hash_init t zero_context) mem len of
             None \<Rightarrow> HashOverread
           | Some ctx \<Rightarrow> HashTrue (take (hash_count t) (buf (hash_final t ctx)))))"

text \<open>
  One round of the loop of \<^verbatim>\<open>HashFile\<close>: the user cancelled, the read failed (which is also what reading
  from a descriptor that could not be opened does), or \<open>n\<close> bytes were read and the 4096-byte local
  buffer now holds \<open>mem\<close>. A read of 0 bytes is the end of the file; every read after the listed ones
  is one of 0 bytes.
\<close>

datatype read_outcome = UserCancel | ReadFault | ReadBytes bytes nat

fun hash_read_loop :: "hash_type \<Rightarrow> hash_context \<Rightarrow> read_outcome list \<Rightarrow> hash_result" where
  "hash_read_loop t ctx [] = HashTrue (take (hash_count t) (buf (hash_final t ctx)))"
| "hash_read_loop t ctx (UserCancel # rs) = HashFalse"
| "hash_read_loop t ctx (ReadFault # rs) = HashFalse"
| "hash_read_loop t ctx (ReadBytes mem n # rs) =
     (if n = 0 then HashTrue (take (hash_count t) (buf (hash_final t ctx)))
      else case hash_write t ctx mem n of
             None \<Rightarrow> HashOverread
           | Some ctx \<Rightarrow> hash_read_loop t ctx rs)"

definition HashFile :: "nat \<Rightarrow> read_outcome list \<Rightarrow> hash_result" where
  "HashFile type reads =
     (case hash_type_of type of
        None \<Rightarrow> HashFalse
      | Some t \<Rightarrow> hash_read_loop t (hash_init t zero_context) reads)"

text \<open>
  \<^verbatim>\<open>memcmp(hash, &db[i], size)\<close> over the database for \<^verbatim>\<open>i = 0; i < ARRAYSIZE(db); i += size\<close>. The
  database array (\<^verbatim>\<open>src/common/db.h\<close>) is an argument.
\<close>

function db_lookup :: "nat \<Rightarrow> bytes \<Rightarrow> bytes \<Rightarrow> nat \<Rightarrow> bool" where
  "db_lookup sz db h i =
     (if sz = 0 \<or> length db \<le> i then False
      else if slice i sz db = h then True
      else db_lookup sz db h (i + sz))"
  by pat_completeness auto
termination
  by (relation "measure (\<lambda>(sz, db, h, i). length db - i)") auto

declare db_lookup.simps [simp del]

definition IsBufferInDB :: "bytes \<Rightarrow> bytes \<Rightarrow> nat \<Rightarrow> bool" where
  "IsBufferInDB sha256db mem len =
     (case HashBuffer 2 mem len of
        HashTrue h \<Rightarrow> db_lookup SHA256_HASHSIZE sha256db h 0
      | _ \<Rightarrow> False)"

definition IsFileInDB :: "bytes \<Rightarrow> read_outcome list \<Rightarrow> bool" where
  "IsFileInDB sha256db reads =
     (case HashFile 2 reads of
        HashTrue h \<Rightarrow> db_lookup SHA256_HASHSIZE sha256db h 0
      | _ \<Rightarrow> False)"

section \<open>The dispatch tables as one hash algorithm\<close>

fun hash_digest :: "hash_type \<Rightarrow> bytes \<Rightarrow> bytes" where
  "hash_digest HASH_MD5 = rfc1321_md5"
| "hash_digest HASH_SHA1 = fips_sha1"
| "hash_digest HASH_SHA256 = fips_sha256"
| "hash_digest HASH_SHA512 = fips_sha512"

fun hash_represents :: "hash_type \<Rightarrow> bytes \<Rightarrow> hash_context \<Rightarrow> bool" where
  "hash_represents HASH_MD5 = md5_represents"
| "hash_represents HASH_SHA1 = sha1_represents"
| "hash_represents HASH_SHA256 = sha256_represents"
| "hash_represents HASH_SHA512 = sha512_represents"

fun hash_blocksize :: "hash_type \<Rightarrow> nat" where
  "hash_blocksize HASH_SHA512 = SHA512_BLOCKSIZE"
| "hash_blocksize _ = 64"

fun hash_slack :: "hash_type \<Rightarrow> nat" where
  "hash_slack HASH_MD5 = 64"
| "hash_slack _ = 0"

text \<open>Every entry of the tables meets the contract, with its own digest.\<close>

interpretation hash: hash_algorithm "hash_blocksize t" "hash_slack t" "hash_count t" "hash_init t"
  "hash_write t" "hash_final t" "hash_digest t" "hash_represents t" for t
proof (cases t)
  case HASH_MD5
  then show "hash_algorithm (hash_blocksize t) (hash_slack t) (hash_count t) (hash_init t)
      (hash_write t) (hash_final t) (hash_digest t) (hash_represents t)"
    using md5.hash_algorithm_axioms by (simp add: MD5_BLOCKSIZE_def)
next
  case HASH_SHA1
  then show "hash_algorithm (hash_blocksize t) (hash_slack t) (hash_count t) (hash_init t)
      (hash_write t) (hash_final t) (hash_digest t) (hash_represents t)"
    using sha1.hash_algorithm_axioms by (simp add: SHA1_BLOCKSIZE_def)
next
  case HASH_SHA256
  then show "hash_algorithm (hash_blocksize t) (hash_slack t) (hash_count t) (hash_init t)
      (hash_write t) (hash_final t) (hash_digest t) (hash_represents t)"
    using sha256.hash_algorithm_axioms by (simp add: SHA256_BLOCKSIZE_def)
next
  case HASH_SHA512
  then show "hash_algorithm (hash_blocksize t) (hash_slack t) (hash_count t) (hash_init t)
      (hash_write t) (hash_final t) (hash_digest t) (hash_represents t)"
    using sha512.hash_algorithm_axioms by simp
qed

section \<open>Results\<close>

lemma hash_type_of_cases: "hash_type_of n = None \<longleftrightarrow> 4 \<le> n"
  by (auto simp: hash_type_of_def)

text \<open>
  C1. For every hash type and every buffer shorter than \<open>2 ^ 64\<close> bytes, \<^verbatim>\<open>HashBuffer\<close> returns the digest
  that RFC 1321 (MD5) or FIPS 180-4 (SHA-1, SHA-256, SHA-512) define for the first \<open>len\<close> bytes of the
  buffer, and it never reads beyond them.
\<close>

theorem HashBuffer_digest:
  assumes "hash_type_of type = Some t" "len \<le> length mem" "len < 2 ^ 64"
  shows "HashBuffer type mem len = HashTrue (hash_digest t (take len mem))"
proof -
  obtain ctx where "hash_write t (hash_init t zero_context) mem len = Some ctx"
    "take (hash_count t) (buf (hash_final t ctx)) = hash_digest t (take len mem)"
    using hash.one_shot [OF assms(2,3)] by blast
  then show ?thesis
    using assms(1) by (simp add: HashBuffer_def)
qed

theorem HashBuffer_digest_witness:
  "HashBuffer 2 [0x61, 0x62, 0x63] 3 = HashTrue (fips_sha256 [0x61, 0x62, 0x63])"
  using HashBuffer_digest [of 2 HASH_SHA256 3 "[0x61, 0x62, 0x63]"] by (simp add: hash_type_of_def)

text \<open>The bytes that a sequence of successful reads delivers.\<close>

fun read_data_of :: "read_outcome list \<Rightarrow> bytes" where
  "read_data_of [] = []"
| "read_data_of (ReadBytes mem n # rs) = take n mem @ read_data_of rs"
| "read_data_of (_ # rs) = read_data_of rs"

text \<open>What \<^verbatim>\<open>read(h, buf, 4096)\<close> returns: between 1 and 4096 bytes of the 4096-byte buffer.\<close>

fun good_read :: "read_outcome \<Rightarrow> bool" where
  "good_read (ReadBytes mem n) \<longleftrightarrow> length mem = 4096 \<and> 0 < n \<and> n \<le> 4096"
| "good_read _ \<longleftrightarrow> False"

lemma hash_slack_4096: "hash_slack t \<le> 4096"
  by (cases t) simp_all

lemma hash_read_loop_digest:
  assumes "hash_represents t msg ctx" "list_all good_read rs" "length (msg @ read_data_of rs) < 2 ^ 64"
  shows "hash_read_loop t ctx rs = HashTrue (hash_digest t (msg @ read_data_of rs))"
  using assms
proof (induction rs arbitrary: msg ctx)
  case Nil
  then show ?case
    by (simp add: hash.final_digest)
next
  case (Cons r rs)
  then obtain mem n where r: "r = ReadBytes mem n" "length mem = 4096" "0 < n" "n \<le> 4096"
    by (cases r) auto
  obtain ctx' where "hash_write t ctx mem n = Some ctx'" "hash_represents t (msg @ take n mem) ctx'"
    using hash.write_represents [OF Cons.prems(1), of n mem] r hash_slack_4096 by auto
  then show ?case
    using Cons.IH [of "msg @ take n mem" ctx'] Cons.prems r by simp
qed

text \<open>
  C12. However the operating system splits a file into reads of 1 to 4096 bytes, \<^verbatim>\<open>HashFile\<close> returns the
  digest of the file's contents.
\<close>

theorem HashFile_digest:
  assumes "hash_type_of type = Some t" "list_all good_read reads" "length (read_data_of reads) < 2 ^ 64"
  shows "HashFile type reads = HashTrue (hash_digest t (read_data_of reads))"
  using assms hash_read_loop_digest [OF hash.init_represents [of t zero_context] assms(2)]
  by (simp add: HashFile_def)

lemma replicate_two_one: "replicate 2 x = [x, x]" "replicate 1 x = [x]" "replicate (Suc 0) x = [x]"
  by (simp_all add: numeral_2_eq_2)

theorem HashFile_digest_witness:
  "HashFile 0 [ReadBytes (replicate 4096 7) 2, ReadBytes (replicate 4096 9) 1] =
   HashTrue (rfc1321_md5 [7, 7, 9])"
  using HashFile_digest [of 0 HASH_MD5 "[ReadBytes (replicate 4096 7) 2, ReadBytes (replicate 4096 9) 1]"]
  by (simp add: hash_type_of_def replicate_two_one)

lemma hash_read_loop_failure:
  assumes "hash_represents t msg ctx" "list_all good_read rs" "bad = UserCancel \<or> bad = ReadFault"
  shows "hash_read_loop t ctx (rs @ bad # rest) = HashFalse"
  using assms
proof (induction rs arbitrary: msg ctx)
  case Nil
  then show ?case by auto
next
  case (Cons r rs)
  then obtain mem n where r: "r = ReadBytes mem n" "length mem = 4096" "0 < n" "n \<le> 4096"
    by (cases r) auto
  obtain ctx' where "hash_write t ctx mem n = Some ctx'" "hash_represents t (msg @ take n mem) ctx'"
    using hash.write_represents [OF Cons.prems(1), of n mem] r hash_slack_4096 by auto
  then show ?case
    using Cons.IH [of "msg @ take n mem" ctx'] Cons.prems r by simp
qed

text \<open>
  A read error or a cancellation, after any number of successful reads, makes \<^verbatim>\<open>HashFile\<close> return
  \<^verbatim>\<open>FALSE\<close>: no digest of a part of the file is ever reported.
\<close>

theorem HashFile_failure:
  assumes "list_all good_read rs" "bad = UserCancel \<or> bad = ReadFault"
  shows "HashFile type (rs @ bad # rest) = HashFalse"
  using hash_read_loop_failure [OF hash.init_represents [of _ zero_context] assms]
  by (auto simp: HashFile_def split: option.splits)

theorem HashFile_failure_witness:
  "HashFile 1 ([ReadBytes (replicate 4096 7) 2] @ ReadFault # []) = HashFalse"
  by (rule HashFile_failure) simp_all

text \<open>Scanning the database is membership in its list of digests.\<close>

lemma db_lookup_chunks:
  assumes "0 < sz" "sz dvd length db" "sz dvd i"
  shows "db_lookup sz db h i \<longleftrightarrow> h \<in> set (chunks sz (drop i db))"
  using assms
proof (induction sz db h i rule: db_lookup.induct)
  case (1 sz db h i)
  show ?case
  proof (cases "length db \<le> i")
    case True
    with "1.prems" show ?thesis
      by (simp add: db_lookup.simps [of sz])
  next
    case False
    then have "sz \<le> length (drop i db)"
      using "1.prems" by (simp add: dvd_imp_le dvd_diff_nat)
    then have "chunks sz (drop i db) = slice i sz db # chunks sz (drop (i + sz) db)"
      using "1.prems"(1) by (simp add: chunks_cons slice_def add.commute)
    then show ?thesis
      using 1 False by (auto simp: db_lookup.simps [of sz db h i])
  qed
qed

text \<open>
  \<^verbatim>\<open>IsBufferInDB\<close> answers whether the SHA-256 digest of the buffer is one of the 32-byte entries of the
  database, first and last entries included.
\<close>

theorem IsBufferInDB_iff:
  assumes "len \<le> length mem" "len < 2 ^ 64" "32 dvd length db"
  shows "IsBufferInDB db mem len \<longleftrightarrow> fips_sha256 (take len mem) \<in> set (chunks 32 db)"
  using hash.one_shot [OF assms(1,2), of HASH_SHA256 zero_context] assms(3)
  by (auto simp: IsBufferInDB_def HashBuffer_def hash_type_of_def hash_sizes db_lookup_chunks)

theorem IsBufferInDB_iff_witness:
  "IsBufferInDB (replicate 64 0) [1, 2, 3] 2 \<longleftrightarrow> fips_sha256 [1, 2] \<in> set (chunks 32 (replicate 64 0))"
  using IsBufferInDB_iff [of 2 "[1, 2, 3]" "replicate 64 0"] by simp

text \<open>
  \<^verbatim>\<open>md5_write\<close> called with fewer bytes than the current block lacks, on a context that already holds part
  of a block, reads past the bytes it was given; the writes of the other algorithms never do.
\<close>

theorem md5_write_overread:
  assumes "hash_represents HASH_MD5 msg ctx" "0 < length msg mod 64" "length msg mod 64 + length mem < 64"
  shows "hash_write HASH_MD5 ctx mem (length mem) = None \<and>
    (\<forall>t msg' ctx'. t \<noteq> HASH_MD5 \<longrightarrow> hash_represents t msg' ctx' \<longrightarrow>
       hash_write t ctx' mem (length mem) \<noteq> None)"
proof -
  have "unat (bytecount ctx AND of_nat (MD5_BLOCKSIZE - 1)) = length msg mod MD5_BLOCKSIZE"
    using assms(1) by (simp only: hash_represents.simps md5_represents_def absorbed_def md5_blocks.block_pos)
  then have "hash_write HASH_MD5 ctx mem (length mem) = None"
    using assms(2,3) by (simp add: md5_write_short MD5_BLOCKSIZE_def mem_read_def)
  moreover have "hash_write t ctx' mem (length mem) \<noteq> None"
    if "t \<noteq> HASH_MD5" "hash_represents t msg' ctx'" for t msg' ctx'
    using hash.write_represents [OF that(2) order_refl, of mem] that(1) by (cases t) auto
  ultimately show ?thesis by blast
qed

theorem md5_write_overread_witness:
  "hash_write HASH_MD5 (the (hash_write HASH_MD5 (md5_init zero_context) [1] 1)) [2] 1 = None"
proof -
  have "hash_represents HASH_MD5 [1] (the (hash_write HASH_MD5 (md5_init zero_context) [1] 1))"
    using hash.write_represents [OF hash.init_represents [of HASH_MD5 zero_context], of 1 "[1]"] by auto
  from md5_write_overread [OF this, of "[2]"] show ?thesis by simp
qed

text \<open>
  C22. The four block transforms compute the compression functions of the standards: the unrolled MD5
  steps those of RFC 1321, and the SHA-1, SHA-256 and SHA-512 loops, with the message schedule kept in
  a circular buffer and the registers renamed instead of moved, those of FIPS 180-4.
\<close>

theorem transforms_standard:
  assumes "length (state ctx) = 8"
  shows "load_regs 4 (state (md5_transform ctx d)) = rfc1321_block (load_regs 4 (state ctx)) d \<and>
    load_regs 5 (state (sha1_transform ctx d)) = fips_sha1_block (load_regs 5 (state ctx)) d \<and>
    load_regs 8 (state (sha256_transform ctx d)) = fips_sha256_block (load_regs 8 (state ctx)) d \<and>
    state (sha512_transform ctx d) = fips_sha512_block (state ctx) d"
  using assms
  by (simp add: md5_transform_rfc_block sha1_transform_fips_block sha256_transform_fips_block
      sha512_transform_fips_block)

theorem transforms_standard_witness:
  "length (state (sha1_init zero_context)) = 8 \<and>
   load_regs 5 (state (sha1_transform (sha1_init zero_context) (replicate 64 0))) =
     fips_sha1_block (load_regs 5 (state (sha1_init zero_context))) (replicate 64 0)"
  using transforms_standard [of "sha1_init zero_context" "replicate 64 0"]
  by (simp add: sha1_init_def)

end
