(* ===== verification/Hash_Table.thy ===== *)
theory Hash_Table
  imports Rufus_Prelude "HOL-Library.While_Combinator"
begin

text \<open>
  The string hash table of \<^verbatim>\<open>src/common/stdfn.c\<close> (\<^verbatim>\<open>isprime\<close>, \<^verbatim>\<open>htab_create\<close>, \<^verbatim>\<open>htab_destroy\<close>,
  \<^verbatim>\<open>htab_hash\<close>): double hashing with open addressing over a prime number of slots. A table is the
  finite injective map from strings to slots that its entries describe, and \<^verbatim>\<open>htab_hash\<close> implements
  \<^emph>\<open>look up or insert\<close> on that map. A C string is the list of its bytes before the terminating zero;
  memory allocation succeeds.
\<close>

section \<open>The code\<close>

text \<open>\<^verbatim>\<open>isprime\<close>; the value is \<open>None\<close> if the loop never ends.\<close>

definition isprime :: "u32 \<Rightarrow> bool option" where
  "isprime number =
     map_option (\<lambda>divider. number mod divider \<noteq> 0)
       (while_option (\<lambda>divider. divider * divider < number \<and> number mod divider \<noteq> 0) (\<lambda>divider. divider + 2) 3)"

record htab_entry =
  he_used :: u32
  he_str :: "bytes option"

text \<open>The empty list stands for the null pointer in \<^verbatim>\<open>table\<close>.\<close>

record htab_table =
  ht_table :: "htab_entry list"
  ht_size :: u32
  ht_filled :: u32

definition HTAB_EMPTY :: htab_table where
  "HTAB_EMPTY = \<lparr>ht_table = [], ht_size = 0, ht_filled = 0\<rparr>"

definition empty_entry :: htab_entry where
  "empty_entry = \<lparr>he_used = 0, he_str = None\<rparr>"

text \<open>
  \<^verbatim>\<open>htab_create\<close>: the returned value and the new table. The outer \<open>None\<close> would be a search for the size
  that never ends.
\<close>

definition htab_create :: "u32 \<Rightarrow> htab_table \<Rightarrow> (bool \<times> htab_table) option" where
  "htab_create nel htab =
     (if ht_table htab \<noteq> [] then Some (False, htab)
      else map_option
        (\<lambda>nel. (True, htab\<lparr>ht_size := nel, ht_filled := 0, ht_table := replicate (unat (nel + 1)) empty_entry\<rparr>))
        (while_option (\<lambda>nel. isprime nel \<noteq> Some True) (\<lambda>nel. nel + 2) (nel OR 1)))"

definition htab_destroy :: "htab_table \<Rightarrow> htab_table" where
  "htab_destroy htab =
     (if ht_table htab = [] then htab
      else htab\<lparr>ht_filled := 0, ht_size := 0, ht_table := []\<rparr>)"

text \<open>sdbm's hash over \<^verbatim>\<open>char\<close>, which is signed, and the first slot to try.\<close>

definition sdbm_hash :: "bytes \<Rightarrow> u32" where
  "sdbm_hash str =
     (let r = foldl (\<lambda>r c. scast c + push_bit 6 r + push_bit 16 r - r) 0 str
      in if r = 0 then r + 1 else r)"

definition htab_hval :: "u32 \<Rightarrow> bytes \<Rightarrow> u32" where
  "htab_hval sz str = (let hval = sdbm_hash str mod sz in if hval = 0 then hval + 1 else hval)"

definition htab_hval2 :: "u32 \<Rightarrow> u32 \<Rightarrow> u32" where
  "htab_hval2 sz hval = 1 + hval mod (sz - 2)"

definition htab_step :: "u32 \<Rightarrow> u32 \<Rightarrow> u32 \<Rightarrow> u32" where
  "htab_step sz hval2 idx = (if idx \<le> hval2 then sz + idx - hval2 else idx - hval2)"

text \<open>\<^verbatim>\<open>safe_strcmp\<close> treats a null string as \<^verbatim>\<open>"<NULL>"\<close>.\<close>

definition entry_matches :: "htab_entry \<Rightarrow> u32 \<Rightarrow> bytes \<Rightarrow> bool" where
  "entry_matches e hval str \<longleftrightarrow> he_used e = hval \<and>
     (case he_str e of Some s \<Rightarrow> str = s | None \<Rightarrow> str = [0x3c, 0x4e, 0x55, 0x4c, 0x4c, 0x3e])"

text \<open>
  The \<^verbatim>\<open>do ... while\<close> loop: \<open>Inl idx\<close> is \<^verbatim>\<open>return idx\<close>, \<open>Inr idx\<close> leaves the loop with \<^verbatim>\<open>idx\<close> for the
  new entry, \<open>None\<close> is a loop that never ends.
\<close>

partial_function (option) htab_probe ::
    "htab_entry list \<Rightarrow> u32 \<Rightarrow> bytes \<Rightarrow> u32 \<Rightarrow> u32 \<Rightarrow> u32 \<Rightarrow> (u32 + u32) option" where
  [code]: "htab_probe tab sz str hval hval2 idx =
     (let idx = htab_step sz hval2 idx
      in if idx = hval then Some (Inr idx)
         else if entry_matches (tab ! unat idx) hval str then Some (Inl idx)
         else if he_used (tab ! unat idx) \<noteq> 0 then htab_probe tab sz str hval hval2 idx
         else Some (Inr idx))"

text \<open>The part after the search: a new entry at \<open>idx\<close>, or 0 when the table is full.\<close>

definition htab_insert :: "bytes \<Rightarrow> u32 \<Rightarrow> u32 \<Rightarrow> htab_table \<Rightarrow> u32 \<times> htab_table" where
  "htab_insert str hval idx htab =
     (if \<not> ht_filled htab < ht_size htab then (0, htab)
      else (idx, htab\<lparr>ht_table := (ht_table htab)[unat idx := \<lparr>he_used = hval, he_str = Some str\<rparr>],
                      ht_filled := ht_filled htab + 1\<rparr>))"

definition htab_hash :: "bytes \<Rightarrow> htab_table \<Rightarrow> (u32 \<times> htab_table) option" where
  "htab_hash str htab =
     (if ht_table htab = [] then Some (0, htab)
      else let hval = htab_hval (ht_size htab) str; e = ht_table htab ! unat hval
        in if he_used e \<noteq> 0 then
             if entry_matches e hval str then Some (hval, htab)
             else (case htab_probe (ht_table htab) (ht_size htab) str hval (htab_hval2 (ht_size htab) hval) hval of
                     None \<Rightarrow> None
                   | Some (Inl idx) \<Rightarrow> Some (idx, htab)
                   | Some (Inr idx) \<Rightarrow> Some (htab_insert str hval idx htab))
           else Some (htab_insert str hval hval htab))"

section \<open>Primality test and table size\<close>

definition is_prime :: "nat \<Rightarrow> bool" where
  "is_prime n \<longleftrightarrow> 1 < n \<and> (\<forall>d. d dvd n \<longrightarrow> d = 1 \<or> d = n)"

text \<open>A search in steps of 2 from an odd word ends if the condition stops it at 1.\<close>

lemma odd_step_measure:
  fixes d :: u32
  assumes "odd d" "d \<noteq> 1"
  shows "unat (1 - (d + 2)) < unat (1 - d)"
proof -
  have even: "even (unat (1 - d))"
    using assms(1) by transfer (simp add: even_nat_iff even_take_bit_eq)
  have "1 - d \<noteq> 0"
    using assms(2) by auto
  then have "unat (1 - d) \<noteq> 0"
    by (simp add: unat_eq_zero)
  then have "2 \<le> unat (1 - d)"
    using even by (cases "unat (1 - d) = 1") auto
  then have "(2::u32) \<le> 1 - d"
    by (simp add: word_le_nat_alt)
  then have "unat (1 - d - 2) = unat (1 - d) - 2"
    by (subst unat_sub) simp_all
  moreover have "1 - (d + 2) = 1 - d - 2"
    by simp
  ultimately show ?thesis
    using \<open>2 \<le> unat (1 - d)\<close> by simp
qed

lemma odd_search_ends:
  fixes d :: u32
  assumes "odd d" "\<not> b 1"
  shows "while_option b (\<lambda>d. d + 2) d \<noteq> None"
  using assms(1)
proof (induction "unat (1 - d)" arbitrary: d rule: less_induct)
  case less
  show ?case
  proof (cases "b d")
    case True
    then have "d \<noteq> 1"
      using assms(2) by auto
    then have "while_option b (\<lambda>d. d + 2) (d + 2) \<noteq> None"
      using less odd_step_measure by simp
    then show ?thesis
      using True by (subst while_option_unfold) simp
  next
    case False
    then show ?thesis by (subst while_option_unfold) simp
  qed
qed

text \<open>Below a known stopping point nothing wraps and the search returns the first stopping point.\<close>

lemma odd_search_first:
  fixes d :: u32
  assumes "odd (unat d)" "odd m" "unat d \<le> m" "m < 2 ^ 32" "\<not> b (of_nat m)"
  shows "\<exists>t. while_option b (\<lambda>d. d + 2) d = Some t \<and> odd (unat t) \<and> unat d \<le> unat t \<and> unat t \<le> m \<and> \<not> b t \<and>
    (\<forall>k. odd k \<and> unat d \<le> k \<and> k < unat t \<longrightarrow> b (of_nat k))"
  using assms(1,3)
proof (induction "m - unat d" arbitrary: d rule: less_induct)
  case less
  show ?case
  proof (cases "b d")
    case True
    then have "unat d \<noteq> m"
      using assms(5) by auto
    then have le: "unat d + 2 \<le> m"
      using less.prems assms(2) by presburger
    then have "unat (d + 2) = unat d + 2"
      using assms(4) by (simp add: unat_add_lem [THEN iffD1])
    moreover from this have "\<exists>t. while_option b (\<lambda>d. d + 2) (d + 2) = Some t \<and> odd (unat t) \<and>
        unat (d + 2) \<le> unat t \<and> unat t \<le> m \<and> \<not> b t \<and>
        (\<forall>k. odd k \<and> unat (d + 2) \<le> k \<and> k < unat t \<longrightarrow> b (of_nat k))"
      using less.prems le by (intro less.hyps) auto
    moreover have "b (of_nat k)" if "odd k" "unat d \<le> k" "k < unat d + 2" for k
    proof -
      have "k = unat d"
        using less.prems(1) that by presburger
      then show ?thesis using True by simp
    qed
    moreover have "while_option b (\<lambda>d. d + 2) d = while_option b (\<lambda>d. d + 2) (d + 2)"
      using True by (subst while_option_unfold) simp
    ultimately show ?thesis
      by (metis add_leD1 not_less)
  next
    case False
    then show ?thesis
      using less.prems by (subst while_option_unfold) auto
  qed
qed

lemma isprime_total: "isprime n \<noteq> None"
  using odd_search_ends [of 3 "\<lambda>d. d * d < n \<and> n mod d \<noteq> 0"] by (simp add: isprime_def)

lemma trial_division_composite:
  assumes "odd n" "5 \<le> n" "t dvd n" "3 \<le> t" "\<forall>k. odd k \<and> 3 \<le> k \<and> k < t \<longrightarrow> k * k < (n::nat)"
  shows "\<not> is_prime n"
proof -
  have "t \<noteq> n"
  proof
    assume "t = n"
    then have "(n - 2) * (n - 2) < n"
      using assms(1,2) spec [OF assms(5), of "n - 2"] by simp
    moreover have "n \<le> 3 * (n - 2)" "3 * (n - 2) \<le> (n - 2) * (n - 2)"
      using assms(2) by (simp_all add: mult_le_mono1)
    ultimately show False by linarith
  qed
  then show ?thesis
    using assms(3,4) by (auto simp: is_prime_def)
qed

lemma small_divisor:
  assumes "d dvd (n::nat)" "1 < d" "d < n"
  shows "\<exists>e. e dvd n \<and> 1 < e \<and> e * e \<le> n"
proof (cases "d * d \<le> n")
  case True
  then show ?thesis using assms by blast
next
  case False
  from assms(1) obtain e where e: "n = d * e" ..
  with False have "e < d"
    by simp
  then have "e * e \<le> n"
    by (simp add: e)
  moreover have "1 < e"
    using assms e by (cases e) auto
  moreover have "e dvd n"
    by (simp add: e)
  ultimately show ?thesis by blast
qed

lemma trial_division_prime:
  assumes "odd n" "5 \<le> n" "n \<le> t * t" "odd t" "\<forall>k. odd k \<and> 3 \<le> k \<and> k < t \<longrightarrow> \<not> k dvd n" "\<not> t dvd (n::nat)"
  shows "is_prime n"
proof (rule ccontr)
  assume "\<not> is_prime n"
  then obtain d where "d dvd n" "d \<noteq> 1" "d \<noteq> n"
    using assms(2) by (auto simp: is_prime_def)
  moreover from this have "d \<noteq> 0" "d < n"
    using assms(2) dvd_imp_le [of d n] by (auto intro: Nat.gr0I)
  ultimately obtain e where e: "e dvd n" "1 < e" "e * e \<le> n"
    using small_divisor [of d n] by (auto simp: nat_neq_iff)
  have "odd e"
    using e(1) assms(1) by auto
  then have "3 \<le> e"
    using e(2) by presburger
  moreover have "e \<le> t"
    using le_trans [OF e(3) assms(3)] by (simp flip: power2_eq_square add: power2_nat_le_eq_le)
  moreover have "e \<noteq> t"
    using e(1) assms(6) by auto
  ultimately show False
    using assms(5) e(1) \<open>odd e\<close> by auto
qed

lemma isprime_iff:
  assumes "odd (unat n)" "5 \<le> unat n" "unat n \<le> 65535 * 65535"
  shows "isprime n = Some (is_prime (unat n))"
proof -
  define b where "b = (\<lambda>d. d * d < n \<and> n mod d \<noteq> 0)"
  have b: "b (of_nat k) \<longleftrightarrow> k * k < unat n \<and> \<not> k dvd unat n" if "k \<le> 65535" for k
  proof -
    have "k * k \<le> 65535 * 65535"
      using that by (intro mult_le_mono)
    then have "unat (of_nat k * of_nat k :: u32) = k * k" "unat (of_nat k :: u32) = k"
      using that by (simp_all add: unat_of_nat flip: of_nat_mult)
    then show ?thesis
      by (simp add: b_def word_less_nat_alt unat_mod dvd_eq_mod_eq_0 unat_eq_zero [symmetric])
  qed
  have "\<not> b (of_nat 65535)"
    using b [of 65535] assms(3) by linarith
  then obtain t where t: "while_option b (\<lambda>d. d + 2) 3 = Some t" "odd (unat t)" "3 \<le> unat t" "unat t \<le> 65535"
    "\<not> b t" "\<forall>k. odd k \<and> 3 \<le> k \<and> k < unat t \<longrightarrow> b (of_nat k)"
    using odd_search_first [of 3 65535 b] by auto
  have bt: "\<not> (unat t * unat t < unat n \<and> \<not> unat t dvd unat n)"
    using t(5) b [OF t(4)] by simp
  have before: "\<forall>k. odd k \<and> 3 \<le> k \<and> k < unat t \<longrightarrow> k * k < unat n \<and> \<not> k dvd unat n"
    using t(4,6) b by auto
  have "isprime n = Some (n mod t \<noteq> 0)"
    using t(1) by (simp add: isprime_def b_def)
  moreover have "n mod t \<noteq> 0 \<longleftrightarrow> \<not> unat t dvd unat n"
    by (simp add: dvd_eq_mod_eq_0 unat_eq_zero [symmetric] unat_mod)
  moreover have "is_prime (unat n) \<longleftrightarrow> \<not> unat t dvd unat n"
  proof (cases "unat t dvd unat n")
    case True
    then show ?thesis
      using trial_division_composite [OF assms(1,2) True t(3)] before by blast
  next
    case False
    then show ?thesis
      using trial_division_prime [OF assms(1,2) _ t(2)] bt before by (simp add: not_less)
  qed
  ultimately show ?thesis by simp
qed

lemma isprime_1: "isprime 1 = Some True"
  by (simp add: isprime_def while_option_unfold)

lemma odd_or_1: "odd (nel OR 1 :: u32)"
  by (simp add: even_or_iff)

lemma is_prime_odd: "is_prime p \<Longrightarrow> 5 \<le> p \<Longrightarrow> odd p"
  by (auto simp: is_prime_def)

section \<open>The probe sequence\<close>

text \<open>The slots tried for home slot \<open>h\<close> and step \<open>h2\<close> in a table of \<open>n\<close> slots numbered from 1.\<close>

definition probe_pos :: "nat \<Rightarrow> nat \<Rightarrow> nat \<Rightarrow> nat \<Rightarrow> nat" where
  "probe_pos n h h2 k = (h - 1 + k * (n - h2)) mod n + 1"

lemma probe_pos_range: "0 < n \<Longrightarrow> 1 \<le> probe_pos n h h2 k \<and> probe_pos n h h2 k \<le> n"
  by (simp add: probe_pos_def Suc_le_eq)

lemma probe_pos_0: "1 \<le> h \<Longrightarrow> h \<le> n \<Longrightarrow> probe_pos n h h2 0 = h"
  by (simp add: probe_pos_def)

lemma probe_pos_period: "1 \<le> h \<Longrightarrow> h \<le> n \<Longrightarrow> probe_pos n h h2 n = h"
  unfolding probe_pos_def by (subst mod_mult_self2) simp

lemma mod_add_diff_step:
  assumes "q < n" "1 \<le> h2" "h2 \<le> (n::nat)"
  shows "(q + (n - h2)) mod n = (if q < h2 then q + n - h2 else q - h2)"
proof (cases "q < h2")
  case True
  then show ?thesis using assms by simp
next
  case False
  then have "(q + (n - h2)) mod n = (q - h2 + n) mod n"
    using False assms by (intro arg_cong [where f = "\<lambda>x. x mod n"]) simp
  also have "\<dots> = q - h2"
    using assms by (simp only: mod_add_self2) simp
  finally show ?thesis using False by simp
qed

lemma probe_pos_Suc:
  assumes "1 \<le> h2" "h2 \<le> n"
  shows "probe_pos n h h2 (Suc k) =
    (if probe_pos n h h2 k \<le> h2 then n + probe_pos n h h2 k - h2 else probe_pos n h h2 k - h2)"
proof -
  define q where "q = (h - 1 + k * (n - h2)) mod n"
  have "probe_pos n h h2 (Suc k) = (q + (n - h2)) mod n + 1" "probe_pos n h h2 k = q + 1"
    by (simp_all add: probe_pos_def q_def mod_simps add.assoc add.left_commute add.commute)
  moreover have "(q + (n - h2)) mod n = (if q < h2 then q + n - h2 else q - h2)"
    using assms by (intro mod_add_diff_step) (simp_all add: q_def)
  ultimately show ?thesis
    using assms by (auto simp: Suc_diff_le)
qed

lemma is_prime_coprime:
  assumes "is_prime n" "0 < c" "c < n"
  shows "coprime c n"
proof -
  have "gcd c n dvd n" "gcd c n \<le> c"
    using assms(2) by (simp_all add: gcd_le1_nat)
  then have "gcd c n = 1"
    using assms unfolding is_prime_def by (metis leD)
  then show ?thesis by (simp add: coprime_iff_gcd_eq_1)
qed

lemma probe_pos_inj:
  assumes "coprime (n - h2) n" "i < j" "j < n"
  shows "probe_pos n h h2 i \<noteq> probe_pos n h h2 j"
proof
  assume "probe_pos n h h2 i = probe_pos n h h2 j"
  then have "(h - 1 + j * (n - h2)) mod n = (h - 1 + i * (n - h2)) mod n"
    by (simp add: probe_pos_def)
  then have "n dvd (h - 1 + j * (n - h2)) - (h - 1 + i * (n - h2))"
    using assms(2) by (intro mod_eq_dvd_iff_nat [THEN iffD1]) simp_all
  then have "n dvd (j - i) * (n - h2)"
    using assms(2) by (simp add: diff_mult_distrib)
  then have "n dvd j - i"
    using assms(1) by (simp add: coprime_commute coprime_dvd_mult_left_iff)
  then show False
    using assms(2,3) by (auto dest: dvd_imp_le)
qed

text \<open>The step is coprime to the number of slots: every slot is tried exactly once before the home slot
  comes up again.\<close>

lemma probe_pos_covers:
  assumes "coprime (n - h2) n" "0 < n" "1 \<le> j" "j \<le> n"
  shows "\<exists>k<n. probe_pos n h h2 k = j"
proof -
  have "inj_on (probe_pos n h h2) {..<n}"
    by (rule inj_onI) (metis probe_pos_inj [OF assms(1)] lessThan_iff nat_neq_iff)
  then have "card (probe_pos n h h2 ` {..<n}) = n"
    by (simp add: card_image)
  moreover have "probe_pos n h h2 ` {..<n} \<subseteq> {1..n}"
    using probe_pos_range [OF assms(2)] by auto
  ultimately have "probe_pos n h h2 ` {..<n} = {1..n}"
    by (intro card_subset_eq) simp_all
  then have "j \<in> probe_pos n h h2 ` {..<n}"
    using assms(3,4) by simp
  then show ?thesis by auto
qed

section \<open>The table invariant\<close>

definition slot :: "htab_table \<Rightarrow> nat \<Rightarrow> htab_entry" where
  "slot t j = ht_table t ! j"

text \<open>The slot tried for \<open>s\<close> in round \<open>k\<close>.\<close>

definition try_pos :: "u32 \<Rightarrow> bytes \<Rightarrow> nat \<Rightarrow> nat" where
  "try_pos sz s k = probe_pos (unat sz) (unat (htab_hval sz s)) (unat (htab_hval2 sz (htab_hval sz s))) k"

text \<open>Slot \<open>j\<close> holds \<open>s\<close> and every slot tried before it is taken by another string.\<close>

definition placed :: "htab_table \<Rightarrow> bytes \<Rightarrow> nat \<Rightarrow> bool" where
  "placed t s j \<longleftrightarrow> he_str (slot t j) = Some s \<and> he_used (slot t j) = htab_hval (ht_size t) s \<and>
     (\<exists>k < unat (ht_size t). j = try_pos (ht_size t) s k \<and>
        (\<forall>i<k. he_used (slot t (try_pos (ht_size t) s i)) \<noteq> 0 \<and> he_str (slot t (try_pos (ht_size t) s i)) \<noteq> Some s))"

definition htab_sized :: "htab_table \<Rightarrow> bool" where
  "htab_sized t \<longleftrightarrow> is_prime (unat (ht_size t)) \<and> 5 \<le> unat (ht_size t) \<and>
     length (ht_table t) = unat (ht_size t) + 1"

definition used_slots :: "htab_table \<Rightarrow> nat set" where
  "used_slots t = {j. 1 \<le> j \<and> j \<le> unat (ht_size t) \<and> he_used (slot t j) \<noteq> 0}"

definition htab_inv :: "htab_table \<Rightarrow> bool" where
  "htab_inv t \<longleftrightarrow> htab_sized t \<and> unat (ht_filled t) = card (used_slots t) \<and>
     (\<forall>j \<in> used_slots t. \<exists>s. placed t s j)"

text \<open>The map that a table stands for: the slot of every stored string.\<close>

definition htab_abs :: "htab_table \<Rightarrow> bytes \<rightharpoonup> nat" where
  "htab_abs t s = (if \<exists>j \<in> used_slots t. he_str (slot t j) = Some s
     then Some (THE j. j \<in> used_slots t \<and> he_str (slot t j) = Some s) else None)"

lemma used_slots_subset: "used_slots t \<subseteq> {1..unat (ht_size t)}"
  by (auto simp: used_slots_def)

lemma finite_used_slots [simp]: "finite (used_slots t)"
  by (rule finite_subset [OF used_slots_subset]) simp

lemma hval_range:
  assumes "2 \<le> unat sz"
  shows "1 \<le> unat (htab_hval sz s) \<and> unat (htab_hval sz s) \<le> unat sz"
proof -
  have "unat (sdbm_hash s mod sz) < unat sz"
    using assms by (simp add: unat_mod)
  then show ?thesis
    using assms by (cases "sdbm_hash s mod sz = 0") (auto simp: htab_hval_def Suc_le_eq unat_gt_0)
qed

lemma hval2_range:
  assumes "3 \<le> unat sz"
  shows "1 \<le> unat (htab_hval2 sz h) \<and> unat (htab_hval2 sz h) < unat sz"
proof -
  have sz2: "unat (sz - 2) = unat sz - 2"
    using assms by (subst unat_sub) (simp_all add: word_le_nat_alt)
  then have m: "unat (h mod (sz - 2)) < unat sz - 2"
    using assms by (simp add: unat_mod)
  then have "unat (1 + h mod (sz - 2)) = 1 + unat (h mod (sz - 2))"
    using unsigned_less [of sz, where 'a = nat] by (intro unat_add_lem [THEN iffD1, THEN trans]) simp_all
  then show ?thesis
    using m by (simp add: htab_hval2_def)
qed

lemma htab_step_unat:
  assumes "unat idx \<le> unat sz" "unat h2 \<le> unat sz"
  shows "unat (htab_step sz h2 idx) =
    (if unat idx \<le> unat h2 then unat sz + unat idx - unat h2 else unat idx - unat h2)"
proof (cases "idx \<le> h2")
  case True
  then have "unat (h2 - idx) = unat h2 - unat idx"
    by (simp add: unat_sub)
  moreover from this have "h2 - idx \<le> sz"
    using assms by (simp add: word_le_nat_alt)
  ultimately have "unat (sz - (h2 - idx)) = unat sz - (unat h2 - unat idx)"
    by (simp add: unat_sub)
  then have "unat (sz + idx - h2) = unat sz - (unat h2 - unat idx)"
    by (simp add: diff_diff_eq2)
  then show ?thesis
    using True assms by (simp add: htab_step_def word_le_nat_alt)
next
  case False
  then have "unat (idx - h2) = unat idx - unat h2"
    by (intro unat_sub) simp
  then show ?thesis
    using False by (simp add: htab_step_def word_le_nat_alt)
qed

text \<open>The probe sequence of a string in a table of prime size.\<close>

lemma try_pos_facts:
  assumes "htab_sized t"
  shows "try_pos (ht_size t) s 0 = unat (htab_hval (ht_size t) s)"
    and "try_pos (ht_size t) s (unat (ht_size t)) = unat (htab_hval (ht_size t) s)"
    and "1 \<le> try_pos (ht_size t) s k" "try_pos (ht_size t) s k \<le> unat (ht_size t)"
    and "i < j \<Longrightarrow> j < unat (ht_size t) \<Longrightarrow> try_pos (ht_size t) s i \<noteq> try_pos (ht_size t) s j"
    and "1 \<le> p \<Longrightarrow> p \<le> unat (ht_size t) \<Longrightarrow> \<exists>k < unat (ht_size t). try_pos (ht_size t) s k = p"
proof -
  let ?n = "unat (ht_size t)" and ?h = "htab_hval (ht_size t) s"
  have n: "is_prime ?n" "5 \<le> ?n"
    using assms by (simp_all add: htab_sized_def)
  then have h: "1 \<le> unat ?h" "unat ?h \<le> ?n"
    using hval_range [of "ht_size t" s] by simp_all
  have h2: "1 \<le> unat (htab_hval2 (ht_size t) ?h)" "unat (htab_hval2 (ht_size t) ?h) < ?n"
    using hval2_range [of "ht_size t" ?h] n(2) by simp_all
  then have co: "coprime (?n - unat (htab_hval2 (ht_size t) ?h)) ?n"
    using n by (intro is_prime_coprime) simp_all
  show "try_pos (ht_size t) s 0 = unat ?h" "try_pos (ht_size t) s ?n = unat ?h"
    using h by (simp_all only: try_pos_def probe_pos_0 probe_pos_period)
  show "1 \<le> try_pos (ht_size t) s k" "try_pos (ht_size t) s k \<le> ?n"
    using n(2) probe_pos_range [of ?n] by (simp_all add: try_pos_def)
  show "i < j \<Longrightarrow> j < ?n \<Longrightarrow> try_pos (ht_size t) s i \<noteq> try_pos (ht_size t) s j"
    unfolding try_pos_def by (rule probe_pos_inj [OF co])
  show "1 \<le> p \<Longrightarrow> p \<le> ?n \<Longrightarrow> \<exists>k < ?n. try_pos (ht_size t) s k = p"
    unfolding try_pos_def using n(2) by (intro probe_pos_covers [OF co]) simp_all
qed

lemma htab_step_try_pos:
  assumes "htab_sized t" "unat idx = try_pos (ht_size t) s k"
  shows "unat (htab_step (ht_size t) (htab_hval2 (ht_size t) (htab_hval (ht_size t) s)) idx) =
    try_pos (ht_size t) s (Suc k)"
proof -
  let ?h2 = "htab_hval2 (ht_size t) (htab_hval (ht_size t) s)"
  have "1 \<le> unat ?h2" "unat ?h2 \<le> unat (ht_size t)"
    using assms(1) hval2_range [of "ht_size t"] by (simp_all add: htab_sized_def less_imp_le)
  then show ?thesis
    using htab_step_unat [of idx "ht_size t" ?h2] try_pos_facts(4) [OF assms(1), of s k] assms(2)
    by (simp add: try_pos_def probe_pos_Suc)
qed

abbreviation matches_at :: "htab_table \<Rightarrow> bytes \<Rightarrow> nat \<Rightarrow> bool" where
  "matches_at t s k \<equiv> entry_matches (slot t (try_pos (ht_size t) s k)) (htab_hval (ht_size t) s) s"

abbreviation used_at :: "htab_table \<Rightarrow> bytes \<Rightarrow> nat \<Rightarrow> bool" where
  "used_at t s k \<equiv> he_used (slot t (try_pos (ht_size t) s k)) \<noteq> 0"

text \<open>
  The loop ends: it returns the first slot that holds the string, leaves with the first free slot, or
  comes back to the home slot after trying every other.
\<close>

lemma htab_probe_run:
  assumes "htab_sized t" "k < unat (ht_size t)" "unat idx = try_pos (ht_size t) s k"
  shows "\<exists>r m. htab_probe (ht_table t) (ht_size t) s (htab_hval (ht_size t) s)
      (htab_hval2 (ht_size t) (htab_hval (ht_size t) s)) idx = Some r \<and>
    k < m \<and> m \<le> unat (ht_size t) \<and> (\<forall>i. k < i \<and> i < m \<longrightarrow> used_at t s i \<and> \<not> matches_at t s i) \<and>
    (case r of
       Inl j \<Rightarrow> m < unat (ht_size t) \<and> unat j = try_pos (ht_size t) s m \<and> matches_at t s m
     | Inr j \<Rightarrow> unat j = try_pos (ht_size t) s m \<and>
         (m = unat (ht_size t) \<or> \<not> used_at t s m \<and> \<not> matches_at t s m))"
  using assms(2,3)
proof (induction "unat (ht_size t) - k" arbitrary: k idx rule: less_induct)
  case less
  let ?n = "unat (ht_size t)" and ?h = "htab_hval (ht_size t) s"
  let ?idx = "htab_step (ht_size t) (htab_hval2 (ht_size t) ?h) idx"
  have idx: "unat ?idx = try_pos (ht_size t) s (Suc k)"
    using htab_step_try_pos [OF assms(1) less.prems(2)] .
  have home: "?idx = ?h \<longleftrightarrow> Suc k = ?n"
  proof (cases "Suc k < ?n")
    case True
    then have "try_pos (ht_size t) s (Suc k) \<noteq> unat ?h"
      using try_pos_facts(5) [OF assms(1), of 0 "Suc k" s] try_pos_facts(1) [OF assms(1), of s] by simp
    then show ?thesis
      using True idx by auto
  next
    case False
    then have "Suc k = ?n"
      using less.prems(1) by simp
    then show ?thesis
      using idx try_pos_facts(2) [OF assms(1), of s] by (simp add: word_unat_eq_iff)
  qed
  consider "Suc k = ?n" | "Suc k < ?n" "matches_at t s (Suc k)"
    | "Suc k < ?n" "\<not> matches_at t s (Suc k)" "\<not> used_at t s (Suc k)"
    | "Suc k < ?n" "\<not> matches_at t s (Suc k)" "used_at t s (Suc k)"
    using less.prems(1) by linarith
  then show ?case
  proof cases
    case 4
    have lt: "?n - Suc k < ?n - k"
      using less.prems(1) by simp
    from 4 obtain r m where "htab_probe (ht_table t) (ht_size t) s ?h (htab_hval2 (ht_size t) ?h) ?idx = Some r"
      and m: "Suc k < m \<and> m \<le> ?n \<and> (\<forall>i. Suc k < i \<and> i < m \<longrightarrow> used_at t s i \<and> \<not> matches_at t s i) \<and>
        (case r of
           Inl j \<Rightarrow> m < ?n \<and> unat j = try_pos (ht_size t) s m \<and> matches_at t s m
         | Inr j \<Rightarrow> unat j = try_pos (ht_size t) s m \<and> (m = ?n \<or> \<not> used_at t s m \<and> \<not> matches_at t s m))"
      using less.hyps [OF lt 4(1) idx] by blast
    then have "htab_probe (ht_table t) (ht_size t) s ?h (htab_hval2 (ht_size t) ?h) idx = Some r"
      using 4 home idx by (subst htab_probe.simps) (simp add: Let_def slot_def)
    moreover have "used_at t s i \<and> \<not> matches_at t s i" if "k < i" "i < m" for i
      using m 4 that by (cases "i = Suc k") auto
    ultimately show ?thesis
      using m by (intro exI [of _ r] exI [of _ m]) (auto split: sum.splits)
  next
    case 1
    then have "htab_probe (ht_table t) (ht_size t) s ?h (htab_hval2 (ht_size t) ?h) idx = Some (Inr ?idx)"
      using home by (subst htab_probe.simps) (simp add: Let_def)
    then show ?thesis
      using 1 idx by (intro exI [of _ "Inr ?idx"] exI [of _ "Suc k"]) auto
  next
    case 2
    then have "htab_probe (ht_table t) (ht_size t) s ?h (htab_hval2 (ht_size t) ?h) idx = Some (Inl ?idx)"
      using home idx by (subst htab_probe.simps) (simp add: Let_def slot_def)
    then show ?thesis
      using 2 idx by (intro exI [of _ "Inl ?idx"] exI [of _ "Suc k"]) auto
  next
    case 3
    then have "htab_probe (ht_table t) (ht_size t) s ?h (htab_hval2 (ht_size t) ?h) idx = Some (Inr ?idx)"
      using home idx by (subst htab_probe.simps) (simp add: Let_def slot_def)
    then show ?thesis
      using 3 idx by (intro exI [of _ "Inr ?idx"] exI [of _ "Suc k"]) auto
  qed
qed

section \<open>htab_hash looks up or inserts\<close>

lemma matches_used:
  assumes "htab_sized t" "matches_at t s k"
  shows "used_at t s k"
proof -
  have "unat (htab_hval (ht_size t) s) \<noteq> 0"
    using hval_range [of "ht_size t" s] assms(1) by (simp add: htab_sized_def)
  then show ?thesis
    using assms(2) by (auto simp: entry_matches_def)
qed

lemma htab_hash_search:
  assumes "htab_sized t"
  shows "\<exists>m \<le> unat (ht_size t). (\<forall>i<m. used_at t s i \<and> \<not> matches_at t s i) \<and>
    (m < unat (ht_size t) \<and> matches_at t s m \<and> htab_hash s t = Some (of_nat (try_pos (ht_size t) s m), t) \<or>
     (m = unat (ht_size t) \<or> \<not> used_at t s m) \<and>
     htab_hash s t = Some (htab_insert s (htab_hval (ht_size t) s) (of_nat (try_pos (ht_size t) s m)) t))"
proof -
  let ?n = "unat (ht_size t)" and ?h = "htab_hval (ht_size t) s"
  have tab: "ht_table t \<noteq> []" and n: "0 < ?n"
    using assms by (auto simp: htab_sized_def)
  have home: "unat ?h = try_pos (ht_size t) s 0"
    using try_pos_facts(1) [OF assms] by simp
  consider "\<not> used_at t s 0" | "matches_at t s 0" "used_at t s 0" | "used_at t s 0" "\<not> matches_at t s 0"
    by blast
  then show ?thesis
  proof cases
    case 1
    then show ?thesis
      using tab home [symmetric] by (intro exI [of _ 0]) (simp add: htab_hash_def Let_def slot_def)
  next
    case 2
    then show ?thesis
      using tab n home [symmetric] by (intro exI [of _ 0]) (simp add: htab_hash_def Let_def slot_def)
  next
    case 3
    obtain r m where r: "htab_probe (ht_table t) (ht_size t) s ?h (htab_hval2 (ht_size t) ?h) ?h = Some r"
      "m \<le> ?n" "\<forall>i. 0 < i \<and> i < m \<longrightarrow> used_at t s i \<and> \<not> matches_at t s i"
      "case r of
         Inl j \<Rightarrow> m < ?n \<and> unat j = try_pos (ht_size t) s m \<and> matches_at t s m
       | Inr j \<Rightarrow> unat j = try_pos (ht_size t) s m \<and> (m = ?n \<or> \<not> used_at t s m \<and> \<not> matches_at t s m)"
      using htab_probe_run [OF assms n home] by blast
    have "\<forall>i<m. used_at t s i \<and> \<not> matches_at t s i"
      using r(3) 3 by (metis gr0I)
    moreover have "htab_hash s t = (case r of Inl idx \<Rightarrow> Some (idx, t) | Inr idx \<Rightarrow> Some (htab_insert s ?h idx t))"
      using 3 tab r(1) home [symmetric] by (simp add: htab_hash_def Let_def slot_def split: sum.splits)
    moreover have "j = of_nat (try_pos (ht_size t) s m)" if "unat j = try_pos (ht_size t) s m" for j :: u32
      using that [symmetric] by simp
    ultimately show ?thesis
      using r(2,4) by (intro exI [of _ m]) (auto split: sum.splits)
  qed
qed

lemma used_slotsI: "htab_sized t \<Longrightarrow> used_at t s k \<Longrightarrow> try_pos (ht_size t) s k \<in> used_slots t"
  using try_pos_facts(3,4) by (simp add: used_slots_def)

lemma stored_placed:
  assumes "htab_inv t" "j \<in> used_slots t" "he_str (slot t j) = Some s"
  shows "placed t s j"
proof -
  obtain s' where "placed t s' j"
    using assms(1,2) by (auto simp: htab_inv_def)
  then show ?thesis
    using assms(3) by (auto simp: placed_def)
qed

lemma matches_iff_stored:
  assumes "htab_inv t" "used_at t s k"
  shows "matches_at t s k \<longleftrightarrow> he_str (slot t (try_pos (ht_size t) s k)) = Some s"
proof -
  have sized: "htab_sized t"
    using assms(1) by (simp add: htab_inv_def)
  then have used: "try_pos (ht_size t) s k \<in> used_slots t"
    using assms(2) by (rule used_slotsI)
  then obtain s' where "placed t s' (try_pos (ht_size t) s k)"
    using assms(1) by (auto simp: htab_inv_def)
  then show ?thesis
    using stored_placed [OF assms(1) used, of s] by (auto simp: entry_matches_def placed_def)
qed

lemma stored_unique:
  assumes "htab_inv t" "j \<in> used_slots t" "j' \<in> used_slots t" "he_str (slot t j) = Some s" "he_str (slot t j') = Some s"
  shows "j = j'"
proof -
  obtain k k' where "j = try_pos (ht_size t) s k" "j' = try_pos (ht_size t) s k'"
    "\<forall>i<k. he_str (slot t (try_pos (ht_size t) s i)) \<noteq> Some s"
    "\<forall>i<k'. he_str (slot t (try_pos (ht_size t) s i)) \<noteq> Some s"
    using stored_placed [OF assms(1,2,4)] stored_placed [OF assms(1,3,5)] by (auto simp: placed_def)
  then show ?thesis
    using assms(4,5) by (metis linorder_neqE_nat)
qed

lemma htab_abs_eq_Some:
  assumes "htab_inv t"
  shows "htab_abs t s = Some j \<longleftrightarrow> j \<in> used_slots t \<and> he_str (slot t j) = Some s"
proof -
  have "(THE j. j \<in> used_slots t \<and> he_str (slot t j) = Some s) = j" if "j \<in> used_slots t" "he_str (slot t j) = Some s" for j
    using that stored_unique [OF assms] by (intro the_equality) auto
  then show ?thesis
    by (auto simp: htab_abs_def)
qed

lemma htab_abs_eq_None:
  "htab_abs t s = None \<longleftrightarrow> (\<forall>j \<in> used_slots t. he_str (slot t j) \<noteq> Some s)"
  by (simp add: htab_abs_def)

text \<open>Storing a new string in the free slot where its search ended.\<close>

definition store :: "htab_table \<Rightarrow> bytes \<Rightarrow> nat \<Rightarrow> htab_table" where
  "store t s j = t\<lparr>ht_table := (ht_table t)[j := \<lparr>he_used = htab_hval (ht_size t) s, he_str = Some s\<rparr>],
     ht_filled := ht_filled t + 1\<rparr>"

lemma slot_store:
  "j < length (ht_table t) \<Longrightarrow>
   slot (store t s j) i = (if i = j then \<lparr>he_used = htab_hval (ht_size t) s, he_str = Some s\<rparr> else slot t i)"
  by (simp add: slot_def store_def)

lemma ht_size_store [simp]: "ht_size (store t s j) = ht_size t"
  by (simp add: store_def)

lemma used_slots_store:
  assumes "htab_sized t" "1 \<le> j" "j \<le> unat (ht_size t)"
  shows "used_slots (store t s j) = insert j (used_slots t)"
proof -
  have "htab_hval (ht_size t) s \<noteq> 0"
    using hval_range [of "ht_size t" s] assms(1) by (auto simp: htab_sized_def)
  then show ?thesis
    using assms by (auto simp: used_slots_def slot_store htab_sized_def)
qed

lemma placed_store:
  assumes "htab_sized t" "1 \<le> j" "j \<le> unat (ht_size t)" "j \<notin> used_slots t" "placed t s' j'" "j' \<in> used_slots t"
  shows "placed (store t s j) s' j'"
proof -
  have "slot (store t s j) i = slot t i" if "i \<in> used_slots t" for i
    using that assms(1,3,4) by (auto simp: slot_store htab_sized_def)
  then show ?thesis
    using assms(1,5,6) used_slotsI [OF assms(1)] by (auto simp: placed_def)
qed

lemma htab_inv_store:
  assumes "htab_inv t" "m < unat (ht_size t)" "j = try_pos (ht_size t) s m" "\<not> used_at t s m"
    and "\<forall>i<m. used_at t s i \<and> \<not> matches_at t s i" "unat (ht_filled t) < unat (ht_size t)"
  shows "htab_inv (store t s j)"
proof -
  have sized: "htab_sized t"
    using assms(1) by (simp add: htab_inv_def)
  have j: "1 \<le> j" "j \<le> unat (ht_size t)" "j \<notin> used_slots t"
    using try_pos_facts(3,4) [OF sized] assms(3,4) by (simp_all add: used_slots_def)
  have other: "slot (store t s j) i = slot t i" if "i \<in> used_slots t" for i
    using that j sized by (auto simp: slot_store htab_sized_def)
  have "he_str (slot t (try_pos (ht_size t) s i)) \<noteq> Some s" if "i < m" for i
    using assms(5) that matches_iff_stored [OF assms(1)] by blast
  then have "placed (store t s j) s j"
    using assms(2,3,5) j sized other used_slotsI [OF sized]
    by (auto simp: placed_def slot_store htab_sized_def intro!: exI [of _ m])
  moreover have "unat (ht_filled t + 1) = unat (ht_filled t) + 1"
    using assms(6) unsigned_less [of "ht_size t", where 'a = nat] by (intro unat_add_lem [THEN iffD1, THEN trans]) simp_all
  moreover have "htab_sized (store t s j)"
    using sized by (simp add: htab_sized_def store_def)
  moreover have "\<exists>s'. placed (store t s j) s' i" if "i \<in> used_slots t" for i
    using that assms(1) placed_store [OF sized j] by (metis htab_inv_def)
  ultimately show ?thesis
    using assms(1) j sized
    by (auto simp: htab_inv_def used_slots_store store_def [THEN arg_cong [where f = ht_filled]])
qed

lemma all_tried_full:
  assumes "htab_inv t" "\<forall>i < unat (ht_size t). used_at t s i"
  shows "unat (ht_filled t) = unat (ht_size t)"
proof -
  have sized: "htab_sized t"
    using assms(1) by (simp add: htab_inv_def)
  have "j \<in> used_slots t" if "1 \<le> j" "j \<le> unat (ht_size t)" for j
    using try_pos_facts(6) [OF sized that, of s] assms(2) used_slotsI [OF sized] by blast
  then have "used_slots t = {1..unat (ht_size t)}"
    using used_slots_subset [of t] by auto
  then show ?thesis
    using assms(1) by (simp add: htab_inv_def)
qed

lemma free_slot_not_full:
  assumes "htab_inv t" "\<not> used_at t s m"
  shows "unat (ht_filled t) < unat (ht_size t)"
proof -
  have sized: "htab_sized t"
    using assms(1) by (simp add: htab_inv_def)
  have "try_pos (ht_size t) s m \<in> {1..unat (ht_size t)} - used_slots t"
    using try_pos_facts(3,4) [OF sized] assms(2) by (simp add: used_slots_def)
  then have "used_slots t \<subset> {1..unat (ht_size t)}"
    using used_slots_subset [of t] by blast
  then have "card (used_slots t) < card {1..unat (ht_size t)}"
    by (intro psubset_card_mono) simp_all
  then show ?thesis
    using assms(1) by (simp add: htab_inv_def)
qed

lemma htab_abs_store:
  assumes "htab_inv t" "htab_inv (store t s j)" "1 \<le> j" "j \<le> unat (ht_size t)" "j \<notin> used_slots t" "htab_abs t s = None"
  shows "htab_abs (store t s j) = (htab_abs t)(s \<mapsto> j)"
proof
  fix s'
  have sized: "htab_sized t" "j < length (ht_table t)"
    using assms(1,4) by (auto simp: htab_inv_def htab_sized_def)
  have "htab_abs (store t s j) s' = Some i \<longleftrightarrow> ((htab_abs t)(s \<mapsto> j)) s' = Some i" for i
    using assms(3-6) sized
    by (auto simp: htab_abs_eq_Some [OF assms(2)] htab_abs_eq_Some [OF assms(1)] used_slots_store slot_store
        htab_abs_eq_None)
  then show "htab_abs (store t s j) s' = ((htab_abs t)(s \<mapsto> j)) s'"
    by (metis not_Some_eq)
qed

lemma search_failed_not_stored:
  assumes "htab_inv t" "\<forall>i<m. used_at t s i \<and> \<not> matches_at t s i" "m = unat (ht_size t) \<or> \<not> used_at t s m"
  shows "htab_abs t s = None"
proof (rule ccontr)
  assume "htab_abs t s \<noteq> None"
  then obtain j where j: "j \<in> used_slots t" "he_str (slot t j) = Some s"
    by (auto simp: htab_abs_eq_None)
  then obtain k where k: "k < unat (ht_size t)" "j = try_pos (ht_size t) s k" "\<forall>i<k. used_at t s i"
    using stored_placed [OF assms(1) j] by (auto simp: placed_def)
  have "used_at t s k"
    using j(1) k(2) by (simp add: used_slots_def)
  then have "matches_at t s k"
    using matches_iff_stored [OF assms(1)] j(2) k(2) by simp
  then have "m \<le> k"
    using assms(2) by (meson not_le)
  then show False
    using assms(3) k(1,3) \<open>used_at t s k\<close> by (metis le_neq_implies_less not_le)
qed

lemma htab_insert_eq:
  "htab_insert s (htab_hval (ht_size t) s) idx t =
    (if unat (ht_filled t) < unat (ht_size t) then (idx, store t s (unat idx)) else (0, t))"
  by (simp add: htab_insert_def store_def word_less_nat_alt)

lemma htab_hash_spec:
  assumes "htab_inv t"
  shows "\<exists>idx t'. htab_hash s t = Some (idx, t') \<and> htab_inv t' \<and>
    (case htab_abs t s of
       Some j \<Rightarrow> unat idx = j \<and> t' = t
     | None \<Rightarrow>
         if unat (ht_filled t) < unat (ht_size t)
         then 1 \<le> unat idx \<and> unat idx \<le> unat (ht_size t) \<and> unat idx \<notin> used_slots t \<and>
              htab_abs t' = (htab_abs t)(s \<mapsto> unat idx)
         else idx = 0 \<and> t' = t)"
proof -
  let ?n = "unat (ht_size t)"
  have sized: "htab_sized t"
    using assms by (simp add: htab_inv_def)
  obtain m where m: "m \<le> ?n" "\<forall>i<m. used_at t s i \<and> \<not> matches_at t s i"
    "m < ?n \<and> matches_at t s m \<and> htab_hash s t = Some (of_nat (try_pos (ht_size t) s m), t) \<or>
     (m = ?n \<or> \<not> used_at t s m) \<and>
     htab_hash s t = Some (htab_insert s (htab_hval (ht_size t) s) (of_nat (try_pos (ht_size t) s m)) t)"
    using htab_hash_search [OF sized] by blast
  define j where "j = try_pos (ht_size t) s m"
  have j: "1 \<le> j" "j \<le> ?n" "unat (of_nat j :: u32) = j"
    using try_pos_facts(3,4) [OF sized, of s m] unsigned_less [of "ht_size t", where 'a = nat]
    by (simp_all add: j_def unat_of_nat)
  consider "m < ?n" "matches_at t s m" "htab_hash s t = Some (of_nat j, t)"
    | "m = ?n \<or> \<not> used_at t s m" "htab_hash s t = Some (htab_insert s (htab_hval (ht_size t) s) (of_nat j) t)"
    using m(3) by (auto simp: j_def)
  then show ?thesis
  proof cases
    case 1
    have used: "used_at t s m"
      using matches_used [OF sized] 1(2) .
    then have "htab_abs t s = Some j"
      using matches_iff_stored [OF assms used] 1(2) used_slotsI [OF sized used]
      by (simp add: htab_abs_eq_Some [OF assms] j_def)
    then show ?thesis
      using 1(3) assms j(3) by simp
  next
    case 2
    have none: "htab_abs t s = None"
      using search_failed_not_stored [OF assms m(2) 2(1)] .
    show ?thesis
    proof (cases "unat (ht_filled t) < ?n")
      case True
      then have free: "m < ?n" "\<not> used_at t s m"
        using all_tried_full [OF assms] m(1,2) 2(1) by (auto simp: le_less)
      then have "htab_inv (store t s j)"
        using htab_inv_store [OF assms free(1) j_def free(2) m(2) True] by simp
      moreover have "j \<notin> used_slots t"
        using free(2) by (simp add: used_slots_def j_def)
      ultimately show ?thesis
        using 2(2) none True j htab_abs_store [OF assms _ j(1,2)] by (simp add: htab_insert_eq)
    next
      case False
      then show ?thesis
        using 2(2) none assms by (simp add: htab_insert_eq)
    qed
  qed
qed

text \<open>Interning a list of strings one after the other.\<close>

fun intern_all :: "(bytes \<Rightarrow> 't \<Rightarrow> (u32 \<times> 't) option) \<Rightarrow> bytes list \<Rightarrow> 't \<Rightarrow> (u32 list \<times> 't) option" where
  "intern_all intern [] t = Some ([], t)"
| "intern_all intern (s # ss) t =
     (case intern s t of
        None \<Rightarrow> None
      | Some (idx, t') \<Rightarrow>
          (case intern_all intern ss t' of None \<Rightarrow> None | Some (ids, t'') \<Rightarrow> Some (idx # ids, t'')))"

text \<open>
  What the users of the table rely on, as an interface: \<open>lookup\<close> is the map, \<open>room\<close> says that a new string
  can be added, and interning one either finds it, adds it under a fresh non-zero index, or answers 0.
\<close>

locale string_interner =
  fixes inv :: "'t \<Rightarrow> bool" and lookup :: "'t \<Rightarrow> bytes \<rightharpoonup> nat" and room :: "'t \<Rightarrow> bool"
    and intern :: "bytes \<Rightarrow> 't \<Rightarrow> (u32 \<times> 't) option"
  assumes known: "inv t \<Longrightarrow> lookup t s = Some j \<Longrightarrow> \<exists>idx. intern s t = Some (idx, t) \<and> unat idx = j"
    and fresh: "inv t \<Longrightarrow> lookup t s = None \<Longrightarrow> room t \<Longrightarrow>
      \<exists>idx t'. intern s t = Some (idx, t') \<and> inv t' \<and> idx \<noteq> 0 \<and> lookup t' = (lookup t)(s \<mapsto> unat idx)"
    and full: "inv t \<Longrightarrow> lookup t s = None \<Longrightarrow> \<not> room t \<Longrightarrow> intern s t = Some (0, t)"
    and lookup_inj: "inv t \<Longrightarrow> lookup t a = Some j \<Longrightarrow> lookup t b = Some j \<Longrightarrow> a = b"
begin

lemma intern_step:
  assumes "inv t"
  shows "\<exists>idx t'. intern s t = Some (idx, t') \<and> inv t' \<and> lookup t \<subseteq>\<^sub>m lookup t' \<and>
    (idx \<noteq> 0 \<longrightarrow> lookup t' s = Some (unat idx))"
proof (cases "lookup t s")
  case None
  then show ?thesis
    using fresh [OF assms None] full [OF assms None] assms by (cases "room t") (fastforce simp: map_le_def)+
next
  case (Some j)
  then show ?thesis
    using known [OF assms Some] assms by auto
qed

lemma intern_all_total:
  assumes "inv t"
  shows "\<exists>ids t'. intern_all intern ss t = Some (ids, t') \<and> inv t' \<and> lookup t \<subseteq>\<^sub>m lookup t' \<and> length ids = length ss \<and>
    (\<forall>i < length ss. ids ! i \<noteq> 0 \<longrightarrow> lookup t' (ss ! i) = Some (unat (ids ! i)))"
  using assms
proof (induction ss arbitrary: t)
  case Nil
  then show ?case by simp
next
  case (Cons s ss)
  obtain idx t1 where t1: "intern s t = Some (idx, t1)" "inv t1" "lookup t \<subseteq>\<^sub>m lookup t1"
    "idx \<noteq> 0 \<longrightarrow> lookup t1 s = Some (unat idx)"
    using intern_step [OF Cons.prems] by blast
  obtain ids t2 where t2: "intern_all intern ss t1 = Some (ids, t2)" "inv t2" "lookup t1 \<subseteq>\<^sub>m lookup t2"
    "length ids = length ss" "\<forall>i < length ss. ids ! i \<noteq> 0 \<longrightarrow> lookup t2 (ss ! i) = Some (unat (ids ! i))"
    using Cons.IH [OF t1(2)] by blast
  have "idx \<noteq> 0 \<longrightarrow> lookup t2 s = Some (unat idx)"
    using t1(4) t2(3) by (auto simp: map_le_def dom_def)
  then show ?case
    using t1 t2 by (auto simp: nth_Cons' intro: map_le_trans)
qed

lemma intern_all_injective:
  assumes "inv t"
  shows "\<exists>ids t'. intern_all intern ss t = Some (ids, t') \<and> inv t' \<and> length ids = length ss \<and>
    (\<forall>i < length ss. \<forall>j < length ss. ids ! i \<noteq> 0 \<longrightarrow> ids ! j \<noteq> 0 \<longrightarrow> (ids ! i = ids ! j \<longleftrightarrow> ss ! i = ss ! j))"
proof -
  obtain ids t' where r: "intern_all intern ss t = Some (ids, t')" "inv t'" "length ids = length ss"
    "\<forall>i < length ss. ids ! i \<noteq> 0 \<longrightarrow> lookup t' (ss ! i) = Some (unat (ids ! i))"
    using intern_all_total [OF assms] by blast
  have "ids ! i = ids ! j \<longleftrightarrow> ss ! i = ss ! j"
    if "i < length ss" "j < length ss" "ids ! i \<noteq> 0" "ids ! j \<noteq> 0" for i j
    using r(4) that lookup_inj [OF r(2)] by (metis option.inject word_unat_eq_iff)
  then show ?thesis
    using r by blast
qed

end

lemma htab_abs_inj:
  assumes "htab_inv t" "htab_abs t a = Some j" "htab_abs t b = Some j"
  shows "a = b"
  using assms by (simp add: htab_abs_eq_Some)

interpretation htab: string_interner htab_inv htab_abs "\<lambda>t. unat (ht_filled t) < unat (ht_size t)" htab_hash
proof unfold_locales
  fix t s j
  assume "htab_inv t" "htab_abs t s = Some j"
  then show "\<exists>idx. htab_hash s t = Some (idx, t) \<and> unat idx = j"
    using htab_hash_spec [of t s] by auto
next
  fix t s
  assume "htab_inv t" "htab_abs t s = None" "unat (ht_filled t) < unat (ht_size t)"
  then show "\<exists>idx t'. htab_hash s t = Some (idx, t') \<and> htab_inv t' \<and> idx \<noteq> 0 \<and> htab_abs t' = (htab_abs t)(s \<mapsto> unat idx)"
    using htab_hash_spec [of t s] by force
next
  fix t s
  assume "htab_inv t" "htab_abs t s = None" "\<not> unat (ht_filled t) < unat (ht_size t)"
  then show "htab_hash s t = Some (0, t)"
    using htab_hash_spec [of t s] by auto
qed (rule htab_abs_inj)

text \<open>
  C3. \<^verbatim>\<open>htab_hash\<close> on a well-formed table always returns and implements look up or insert on the map from
  strings to slots: a stored string gives its slot and changes nothing; a new string gets a free slot
  between 1 and the size and is added to the map, all other strings keeping theirs; only when every
  slot is taken is a new string refused with 0. The table stays well formed.
\<close>

theorem htab_hash_correct:
  assumes "htab_inv t"
  shows "\<exists>idx t'. htab_hash s t = Some (idx, t') \<and> htab_inv t' \<and>
    (case htab_abs t s of
       Some j \<Rightarrow> unat idx = j \<and> t' = t
     | None \<Rightarrow>
         if unat (ht_filled t) < unat (ht_size t)
         then 1 \<le> unat idx \<and> unat idx \<le> unat (ht_size t) \<and> unat idx \<notin> used_slots t \<and>
              htab_abs t' = (htab_abs t)(s \<mapsto> unat idx)
         else idx = 0 \<and> t' = t)"
  using assms by (rule htab_hash_spec)

lemma htab_inv_empty:
  assumes "is_prime (unat sz)" "5 \<le> unat sz" "unat sz + 1 < 2 ^ 32"
  shows "htab_inv \<lparr>ht_table = replicate (unat (sz + 1)) empty_entry, ht_size = sz, ht_filled = 0\<rparr>"
proof -
  have "unat (sz + 1) = unat sz + 1"
    using assms(3) by (intro unat_add_lem [THEN iffD1, THEN trans]) simp_all
  then show ?thesis
    using assms by (auto simp: htab_inv_def htab_sized_def used_slots_def slot_def empty_entry_def nth_replicate
        simp del: replicate_Suc)
qed

lemma unat_or_1_odd: "odd (unat (nel OR 1 :: u32))"
  by transfer (simp add: even_nat_iff even_take_bit_eq even_or_iff)

text \<open>
  C25. \<^verbatim>\<open>htab_create\<close> on an empty table, for a requested size of at least 4 with a prime \<open>p\<close> at or above it that
  is at most 65535 squared, returns: the size of the new table is the least prime not below the request
  made odd, and the table is well formed and holds no string.
\<close>

theorem htab_create_correct:
  assumes "is_prime p" "5 \<le> unat (nel OR 1)" "unat (nel OR 1) \<le> p" "p \<le> 65535 * 65535"
  shows "\<exists>t. htab_create nel HTAB_EMPTY = Some (True, t) \<and> htab_inv t \<and> htab_abs t = Map.empty \<and>
    is_prime (unat (ht_size t)) \<and> unat (nel OR 1) \<le> unat (ht_size t) \<and>
    (\<forall>q. is_prime q \<and> unat (nel OR 1) \<le> q \<longrightarrow> unat (ht_size t) \<le> q)"
proof -
  define b where "b = (\<lambda>n. isprime n \<noteq> Some True)"
  have b: "b (of_nat k) \<longleftrightarrow> \<not> is_prime k" if "odd k" "5 \<le> k" "k \<le> 65535 * 65535" for k
    using isprime_iff [of "of_nat k"] that by (simp add: b_def unat_of_nat)
  have p: "odd p" "5 \<le> p"
    using is_prime_odd assms by simp_all
  have "p < 2 ^ 32"
    using assms(4) by simp
  moreover have "\<not> b (of_nat p)"
    using b p assms by simp
  ultimately obtain sz where sz: "while_option b (\<lambda>n. n + 2) (nel OR 1) = Some sz" "odd (unat sz)"
    "unat (nel OR 1) \<le> unat sz" "unat sz \<le> p" "\<not> b sz"
    "\<forall>k. odd k \<and> unat (nel OR 1) \<le> k \<and> k < unat sz \<longrightarrow> b (of_nat k)"
    using odd_search_first [of "nel OR 1" p b] unat_or_1_odd p(1) assms(3) by blast
  have prime: "is_prime (unat sz)"
    using b [of "unat sz"] sz assms(2,4) by simp
  have least: "unat sz \<le> q" if "is_prime q" "unat (nel OR 1) \<le> q" for q
  proof (rule ccontr)
    assume "\<not> unat sz \<le> q"
    then show False
      using that sz(4,6) b [of q] is_prime_odd [of q] assms(2,4) by auto
  qed
  let ?t = "\<lparr>ht_table = replicate (unat (sz + 1)) empty_entry, ht_size = sz, ht_filled = 0\<rparr>"
  have inv: "htab_inv ?t"
    using prime sz(3,4) assms(2,4) by (intro htab_inv_empty) simp_all
  then have "used_slots ?t = {}"
    by (simp add: htab_inv_def)
  then have "htab_abs ?t = Map.empty"
    by (simp add: htab_abs_eq_None fun_eq_iff)
  moreover have "htab_create nel HTAB_EMPTY = Some (True, ?t)"
    using sz(1) by (simp add: htab_create_def HTAB_EMPTY_def b_def)
  ultimately show ?thesis
    using inv prime sz(3) least by auto
qed

theorem htab_create_correct_witness:
  "\<exists>t. htab_create 6 HTAB_EMPTY = Some (True, t) \<and> htab_inv t \<and> unat (ht_size t) = 7"
proof -
  have p: "is_prime 7"
  proof -
    have "d = 1 \<or> d = 7" if "d dvd 7" for d :: nat
    proof -
      have "d \<le> 7" using that by (auto dest: dvd_imp_le)
      then have "d \<in> {0, 1, 2, 3, 4, 5, 6, 7}" by auto
      with that show ?thesis by auto
    qed
    then show ?thesis by (simp add: is_prime_def)
  qed
  have "unat (6 OR 1 :: u32) = 7" by simp
  then show ?thesis
    using htab_create_correct [OF p, of 6] p by (auto intro!: order_antisym)
qed

text \<open>
  Any sequence of \<^verbatim>\<open>htab_hash\<close> calls on a well-formed table returns, and the non-zero indices it gives
  identify the strings: two calls get the same index exactly when they passed the same string.
\<close>

theorem htab_hash_session:
  assumes "htab_inv t"
  shows "\<exists>ids t'. intern_all htab_hash ss t = Some (ids, t') \<and> htab_inv t' \<and> length ids = length ss \<and>
    (\<forall>i < length ss. \<forall>j < length ss. ids ! i \<noteq> 0 \<longrightarrow> ids ! j \<noteq> 0 \<longrightarrow> (ids ! i = ids ! j \<longleftrightarrow> ss ! i = ss ! j))"
  using assms by (rule htab.intern_all_injective)

text \<open>A concrete well-formed table of 5 slots.\<close>

definition htab_5 :: htab_table where
  "htab_5 = \<lparr>ht_table = replicate 6 empty_entry, ht_size = 5, ht_filled = 0\<rparr>"

lemma htab_5_inv: "htab_inv htab_5"
proof -
  have "d = 1 \<or> d = 5" if "d dvd 5" for d :: nat
  proof -
    have "d \<le> 5" using that by (auto dest: dvd_imp_le)
    then have "d \<in> {0, 1, 2, 3, 4, 5}" by auto
    with that show ?thesis by auto
  qed
  then show ?thesis
    using htab_inv_empty [of 5] by (simp add: is_prime_def htab_5_def)
qed

theorem htab_hash_correct_witness:
  "\<exists>idx t'. htab_hash [0x61] htab_5 = Some (idx, t') \<and> htab_abs t' = [[0x61] \<mapsto> unat idx]"
proof -
  have "used_slots htab_5 = {}"
    using htab_5_inv by (simp add: htab_inv_def htab_5_def)
  then have "htab_abs htab_5 = Map.empty"
    by (simp add: htab_abs_eq_None fun_eq_iff)
  then show ?thesis
    using htab_hash_correct [OF htab_5_inv, of "[0x61]"] by (auto simp: htab_5_def)
qed

theorem htab_hash_session_witness:
  "\<exists>ids t'. intern_all htab_hash [[0x61], [0x66], [0x61]] htab_5 = Some (ids, t') \<and>
     htab_inv t' \<and> length ids = 3"
  using htab_hash_session [OF htab_5_inv, of "[[0x61], [0x66], [0x61]]"] by auto

end
