(* ===== verification/Sector_File.thy ===== *)
theory Sector_File
  imports Rufus_Prelude
begin

text \<open>
  Sector-based access to a drive: \<^verbatim>\<open>src/ms-sys/file_common.c\<close> (\<^verbatim>\<open>contains_data\<close>, \<^verbatim>\<open>read_data\<close>,
  \<^verbatim>\<open>write_data\<close>) over the \<^verbatim>\<open>read_sectors\<close> and \<^verbatim>\<open>write_sectors\<close> of \<^verbatim>\<open>src/ms-sys/file_unix.c\<close> and
  \<^verbatim>\<open>src/ms-sys/file_win.c\<close>. A drive is its contents, the offset of its open descriptor, and whether it
  refuses writes. Byte positions are natural numbers: a drive is smaller than \<open>2 ^ 63\<close> bytes, so the
  \<^verbatim>\<open>uint64_t\<close> sums of the code do not wrap.
\<close>

section \<open>The drive and the system calls\<close>

datatype platform = Win32 | Linux

record drive =
  dv_data :: bytes
  dv_pos :: nat
  dv_base :: nat
  dv_readonly :: bool

text \<open>
  \<^verbatim>\<open>lseek(fd, off, SEEK_SET)\<close> and \<^verbatim>\<open>SetFilePointerEx\<close> on a device: positions beyond its end are refused.
\<close>

definition sys_seek :: "nat \<Rightarrow> drive \<Rightarrow> drive option" where
  "sys_seek off d = (if off \<le> length (dv_data d) then Some (d\<lparr>dv_pos := off\<rparr>) else None)"

text \<open>\<^verbatim>\<open>read\<close> and \<^verbatim>\<open>ReadFile\<close>: the bytes up to the end of the device.\<close>

definition sys_read :: "nat \<Rightarrow> drive \<Rightarrow> bytes \<times> drive" where
  "sys_read n d =
     (let bs = slice (dv_pos d) n (dv_data d) in (bs, d\<lparr>dv_pos := dv_pos d + length bs\<rparr>))"

text \<open>\<^verbatim>\<open>write\<close> and \<^verbatim>\<open>WriteFile\<close>: \<open>-1\<close> on a drive that refuses writes, else the bytes that fit.\<close>

definition sys_write :: "bytes \<Rightarrow> drive \<Rightarrow> int \<times> drive" where
  "sys_write bs d =
     (if dv_readonly d then (- 1, d)
      else let bs = take (length (dv_data d) - dv_pos d) bs
           in (int (length bs), d\<lparr>dv_data := memcpy_to (dv_pos d) bs (dv_data d), dv_pos := dv_pos d + length bs\<rparr>))"

section \<open>Sectors\<close>

text \<open>
  \<^verbatim>\<open>write_sectors\<close>. The Linux version returns the requested size even when the write failed or was
  short; the Windows version returns \<open>-1\<close> then, or 0 for an empty write on a large drive.
\<close>

definition write_sectors ::
    "platform \<Rightarrow> bool \<Rightarrow> nat \<Rightarrow> nat \<Rightarrow> nat \<Rightarrow> bytes \<Rightarrow> drive \<Rightarrow> int \<times> drive" where
  "write_sectors plat large_drive SectorSize StartSector nSectors pBuf d =
     (if nSectors * SectorSize > 0xFFFFFFFF then (- 1, d)
      else let size = nSectors * SectorSize
        in case sys_seek (StartSector * SectorSize) d of
             None \<Rightarrow> (- 1, d)
           | Some d \<Rightarrow>
               (let (wret, d) = sys_write (take size pBuf) d
                in case plat of
                     Linux \<Rightarrow> (if wret \<noteq> int size \<and> large_drive \<and> size = 0 then (0, d) else (int size, d))
                   | Win32 \<Rightarrow>
                       (if wret < 0 then (- 1, d)
                        else if wret \<noteq> int size then (if large_drive \<and> wret = 0 then 0 else - 1, d)
                        else (wret, d))))"

text \<open>\<^verbatim>\<open>read_sectors\<close>: both versions return the number of bytes read, also when it is short.\<close>

definition read_sectors ::
    "platform \<Rightarrow> nat \<Rightarrow> nat \<Rightarrow> nat \<Rightarrow> bytes \<Rightarrow> drive \<Rightarrow> int \<times> bytes \<times> drive" where
  "read_sectors plat SectorSize StartSector nSectors pBuf d =
     (if nSectors * SectorSize > 0xFFFFFFFF then (- 1, pBuf, d)
      else let size = nSectors * SectorSize
        in case sys_seek (StartSector * SectorSize) d of
             None \<Rightarrow> (- 1, pBuf, d)
           | Some d \<Rightarrow>
               (let (bs, d) = sys_read size d
                in (int (length bs), memcpy_to 0 bs pBuf, d)))"

section \<open>Bytes at a position\<close>

text \<open>
  What \<^verbatim>\<open>Position\<close> is relative to: the \<^verbatim>\<open>_offset\<close> of the caller's \<^verbatim>\<open>FAKE_FD\<close> on Windows, \<^verbatim>\<open>ftell(fp)\<close> on
  Linux, which for a stream that is only used through its descriptor is the offset of the descriptor.
\<close>

definition base_position :: "platform \<Rightarrow> drive \<Rightarrow> nat" where
  "base_position plat d = (case plat of Win32 \<Rightarrow> dv_base d | Linux \<Rightarrow> dv_pos d)"

definition MAX_DATA_LEN :: nat where "MAX_DATA_LEN = 65536"

text \<open>
  \<open>aucBuf\<close> is the uninitialised buffer of \<^verbatim>\<open>MAX_DATA_LEN\<close> bytes that each call allocates; \<open>ss\<close> is
  \<^verbatim>\<open>ulBytesPerSector\<close>.
\<close>

definition read_data ::
    "platform \<Rightarrow> nat \<Rightarrow> bytes \<Rightarrow> nat \<Rightarrow> nat \<Rightarrow> drive \<Rightarrow> bytes option \<times> drive" where
  "read_data plat ss aucBuf Position Len d =
     (let Position = Position + base_position plat d;
          StartSector = Position div ss;
          EndSector = (Position + Len + ss - 1) div ss;
          NumSectors = EndSector - StartSector
      in if NumSectors * ss > MAX_DATA_LEN then (None, d)
         else if Len > 0xFFFFFFFF then (None, d)
         else let (ret, aucBuf, d) = read_sectors plat ss StartSector NumSectors aucBuf d
           in if ret \<le> 0 then (None, d)
              else (Some (slice (Position - StartSector * ss) Len aucBuf), d))"

definition contains_data ::
    "platform \<Rightarrow> nat \<Rightarrow> bytes \<Rightarrow> nat \<Rightarrow> bytes \<Rightarrow> drive \<Rightarrow> bool \<times> drive" where
  "contains_data plat ss aucBuf Position pData d =
     (let (r, d) = read_data plat ss aucBuf Position (length pData) d in (r = Some pData, d))"

definition write_data ::
    "platform \<Rightarrow> bool \<Rightarrow> nat \<Rightarrow> bytes \<Rightarrow> nat \<Rightarrow> bytes \<Rightarrow> drive \<Rightarrow> bool \<times> drive" where
  "write_data plat large_drive ss aucBuf Position pData d =
     (let Position = Position + base_position plat d;
          Len = length pData;
          StartSector = Position div ss;
          EndSector = (Position + Len + ss - 1) div ss;
          NumSectors = EndSector - StartSector
      in if NumSectors * ss > MAX_DATA_LEN then (False, d)
         else if Len > 0xFFFFFFFF then (False, d)
         else let (ret, aucBuf, d) = read_sectors plat ss StartSector NumSectors aucBuf d
           in if ret \<le> 0 then (False, d)
              else let aucBuf = memcpy_to (Position - StartSector * ss) pData aucBuf;
                       (ret, d) = write_sectors plat large_drive ss StartSector NumSectors aucBuf d
                in (\<not> ret \<le> 0, d))"

section \<open>Transfers inside the drive\<close>

text \<open>
  A transfer of \<open>len\<close> bytes at \<open>pos\<close> (relative to the base) that stays inside the drive, is not empty
  and needs no more than one buffer of whole sectors.
\<close>

definition transfer_ok :: "platform \<Rightarrow> nat \<Rightarrow> nat \<Rightarrow> nat \<Rightarrow> drive \<Rightarrow> bool" where
  "transfer_ok plat ss pos len d \<longleftrightarrow> 0 < ss \<and> 0 < len \<and> ss dvd length (dv_data d) \<and>
     pos + base_position plat d + len \<le> length (dv_data d) \<and>
     ((pos + base_position plat d) mod ss + len + ss - 1) div ss * ss \<le> MAX_DATA_LEN"

lemma sector_span:
  fixes P len ss n :: nat
  assumes "0 < ss" "0 < len" "ss dvd n" "P + len \<le> n"
  defines "S \<equiv> P div ss" and "E \<equiv> (P + len + ss - 1) div ss"
  shows "S * ss \<le> P" "P + len \<le> E * ss" "E * ss \<le> n" "S < E"
    and "(E - S) * ss = (P mod ss + len + ss - 1) div ss * ss" "P - S * ss = P mod ss"
proof -
  have P: "P = S * ss + P mod ss"
    by (simp add: S_def)
  show "S * ss \<le> P" "P - S * ss = P mod ss"
    by (simp_all add: S_def minus_div_mult_eq_mod)
  have E: "E = S + (P mod ss + len + ss - 1) div ss"
  proof -
    define Q where "Q = P mod ss + len + ss - 1"
    have "P + len + ss - 1 = S * ss + Q"
      using P assms(1) unfolding Q_def by linarith
    then have "E = S + Q div ss"
      using assms(1) by (simp add: E_def)
    then show ?thesis
      by (simp only: Q_def)
  qed
  then show "(E - S) * ss = (P mod ss + len + ss - 1) div ss * ss"
    by simp
  have "(P + len + ss - 1) mod ss < ss"
    using assms(1) by simp
  moreover have "(P + len + ss - 1) mod ss + E * ss = P + len + ss - 1"
    by (simp add: E_def)
  ultimately show le: "P + len \<le> E * ss"
    by linarith
  obtain k where k: "n = ss * k"
    using assms(3) ..
  have "E \<le> (ss * k + ss - 1) div ss"
    using assms(4) k by (simp add: E_def div_le_mono)
  also have "\<dots> = k"
    using assms(1) by (simp add: div_nat_eqI)
  finally show "E * ss \<le> n"
    by (simp add: k mult.commute)
  have "S * ss < E * ss"
    using le \<open>S * ss \<le> P\<close> assms(2) by linarith
  then show "S < E"
    using assms(1) by simp
qed

text \<open>The sectors of a good transfer, with the effect of reading them.\<close>

definition span_start :: "nat \<Rightarrow> nat \<Rightarrow> nat" where
  "span_start ss P = P div ss * ss"

definition span_end :: "nat \<Rightarrow> nat \<Rightarrow> nat \<Rightarrow> nat" where
  "span_end ss P len = (P + len + ss - 1) div ss * ss"

lemma read_sectors_span:
  assumes "S * ss \<le> E * ss" "E * ss \<le> length (dv_data d)" "(E - S) * ss \<le> MAX_DATA_LEN" "length b = MAX_DATA_LEN"
  shows "read_sectors plat ss S (E - S) b d =
    (int ((E - S) * ss), memcpy_to 0 (slice (S * ss) ((E - S) * ss) (dv_data d)) b, d\<lparr>dv_pos := E * ss\<rparr>)"
proof -
  have "min ((E - S) * ss) (length (dv_data d) - S * ss) = (E - S) * ss"
    using assms(2) by (simp add: diff_mult_distrib)
  then show ?thesis
    using assms order_trans [OF assms(1,2)]
    by (simp add: read_sectors_def sys_seek_def sys_read_def MAX_DATA_LEN_def diff_mult_distrib)
qed

lemma write_sectors_span:
  assumes "S * ss \<le> E * ss" "E * ss \<le> length (dv_data d)" "(E - S) * ss \<le> MAX_DATA_LEN" "length b = MAX_DATA_LEN"
    and "\<not> dv_readonly d"
  shows "write_sectors plat large ss S (E - S) b d =
    (int ((E - S) * ss), d\<lparr>dv_data := memcpy_to (S * ss) (take ((E - S) * ss) b) (dv_data d), dv_pos := E * ss\<rparr>)"
proof -
  have "min (length (dv_data d) - S * ss) ((E - S) * ss) = (E - S) * ss"
    using assms(2) by (simp add: diff_mult_distrib)
  then show ?thesis
    using assms order_trans [OF assms(1,2)]
    by (cases plat)
      (simp_all add: write_sectors_def sys_seek_def sys_write_def MAX_DATA_LEN_def diff_mult_distrib)
qed

lemma transfer_okD:
  assumes "transfer_ok plat ss pos len d"
  defines "P \<equiv> pos + base_position plat d"
  shows "P div ss * ss \<le> (P + len + ss - 1) div ss * ss"
    and "(P + len + ss - 1) div ss * ss \<le> length (dv_data d)"
    and "((P + len + ss - 1) div ss - P div ss) * ss \<le> MAX_DATA_LEN"
    and "0 < ((P + len + ss - 1) div ss - P div ss) * ss"
    and "P mod ss + len \<le> ((P + len + ss - 1) div ss - P div ss) * ss"
    and "len \<le> 0xFFFFFFFF"
proof -
  note span = sector_span [of ss len "length (dv_data d)" P]
  have ok: "0 < ss" "0 < len" "ss dvd length (dv_data d)" "P + len \<le> length (dv_data d)"
    "(P mod ss + len + ss - 1) div ss * ss \<le> MAX_DATA_LEN"
    using assms(1) by (simp_all add: transfer_ok_def P_def)
  then show "P div ss * ss \<le> (P + len + ss - 1) div ss * ss"
    "(P + len + ss - 1) div ss * ss \<le> length (dv_data d)"
    "((P + len + ss - 1) div ss - P div ss) * ss \<le> MAX_DATA_LEN"
    "0 < ((P + len + ss - 1) div ss - P div ss) * ss"
    using span by simp_all
  have "P mod ss + len = P + len - P div ss * ss"
    by (simp add: minus_div_mult_eq_mod [symmetric])
  also have "\<dots> \<le> (P + len + ss - 1) div ss * ss - P div ss * ss"
    using span(2) [OF ok(1-4)] by (rule diff_le_mono)
  finally show fits: "P mod ss + len \<le> ((P + len + ss - 1) div ss - P div ss) * ss"
    by (simp add: diff_mult_distrib)
  have "len \<le> MAX_DATA_LEN"
    using fits span(5) [OF ok(1-4)] ok(5) by linarith
  then show "len \<le> 0xFFFFFFFF"
    by (simp add: MAX_DATA_LEN_def)
qed

lemma read_data_ok:
  assumes "transfer_ok plat ss pos len d" "length b = MAX_DATA_LEN"
  shows "read_data plat ss b pos len d =
    (Some (slice (pos + base_position plat d) len (dv_data d)),
     d\<lparr>dv_pos := span_end ss (pos + base_position plat d) len\<rparr>)"
proof -
  define P where "P = pos + base_position plat d"
  define S where "S = P div ss"
  define E where "E = (P + len + ss - 1) div ss"
  note ok = transfer_okD [OF assms(1), folded P_def, folded S_def E_def]
  have off: "P - S * ss = P mod ss" "S * ss + P mod ss = P"
    by (simp_all add: S_def minus_div_mult_eq_mod)
  have "slice (P mod ss) len (memcpy_to 0 (slice (S * ss) ((E - S) * ss) (dv_data d)) b) =
      slice (P mod ss) len (slice (S * ss) ((E - S) * ss) (dv_data d))"
    using ok(2,5) by (simp add: memcpy_to_def slice_append_left diff_mult_distrib)
  also have "\<dots> = slice P len (dv_data d)"
    using ok(5) off(2) by (simp add: slice_slice)
  finally have "slice (P - S * ss) len (memcpy_to 0 (slice (S * ss) ((E - S) * ss) (dv_data d)) b) = slice P len (dv_data d)"
    by (simp only: off(1))
  then show ?thesis
    unfolding read_data_def span_end_def Let_def P_def [symmetric] S_def [symmetric] E_def [symmetric]
    using ok assms(2) read_sectors_span [OF ok(1-3) assms(2), of plat] by (simp add: not_less not_le zero_less_mult_iff)
qed

lemma memcpy_through_buffer:
  assumes "o1 + length x \<le> n" "n \<le> length b" "s + n \<le> length dat"
  shows "memcpy_to s (take n (memcpy_to o1 x (memcpy_to 0 (slice s n dat) b))) dat = memcpy_to (s + o1) x dat"
proof (rule nth_equalityI)
  show "length (memcpy_to s (take n (memcpy_to o1 x (memcpy_to 0 (slice s n dat) b))) dat) =
      length (memcpy_to (s + o1) x dat)"
    using assms by simp
next
  fix i
  assume "i < length (memcpy_to s (take n (memcpy_to o1 x (memcpy_to 0 (slice s n dat) b))) dat)"
  then have i: "i < length dat"
    using assms by simp
  show "memcpy_to s (take n (memcpy_to o1 x (memcpy_to 0 (slice s n dat) b))) dat ! i = memcpy_to (s + o1) x dat ! i"
    using assms i by (auto simp: memcpy_to_nth slice_nth)
qed

lemma write_data_ok:
  assumes "transfer_ok plat ss pos (length x) d" "length b = MAX_DATA_LEN" "\<not> dv_readonly d"
  shows "write_data plat large ss b pos x d =
    (True, d\<lparr>dv_data := memcpy_to (pos + base_position plat d) x (dv_data d),
             dv_pos := span_end ss (pos + base_position plat d) (length x)\<rparr>)"
proof -
  define P where "P = pos + base_position plat d"
  define S where "S = P div ss"
  define E where "E = (P + length x + ss - 1) div ss"
  note ok = transfer_okD [OF assms(1), folded P_def, folded S_def E_def]
  let ?b = "memcpy_to (P mod ss) x (memcpy_to 0 (slice (S * ss) ((E - S) * ss) (dv_data d)) b)"
  let ?d = "d\<lparr>dv_pos := E * ss\<rparr>"
  have off: "P - S * ss = P mod ss" "S * ss + P mod ss = P"
    by (simp_all add: S_def minus_div_mult_eq_mod)
  have sum: "S * ss + (E - S) * ss \<le> length (dv_data d)"
    using ok(1,2) by (simp add: diff_mult_distrib)
  have len: "length ?b = MAX_DATA_LEN"
    using ok(3,5) sum assms(2) by simp
  have "memcpy_to (S * ss) (take ((E - S) * ss) ?b) (dv_data d) = memcpy_to P x (dv_data d)"
    using memcpy_through_buffer [of "P mod ss" x "(E - S) * ss" b "S * ss" "dv_data d"] ok(3,5) sum assms(2) off(2)
    by simp
  moreover have "write_sectors plat large ss S (E - S) ?b ?d =
    (int ((E - S) * ss), d\<lparr>dv_data := memcpy_to (S * ss) (take ((E - S) * ss) ?b) (dv_data d), dv_pos := E * ss\<rparr>)"
    using ok assms(3) by (subst write_sectors_span [OF _ _ _ len]) simp_all
  ultimately show ?thesis
    unfolding write_data_def span_end_def Let_def P_def [symmetric] S_def [symmetric] E_def [symmetric] off(1)
    using ok assms(2) read_sectors_span [OF ok(1-3) assms(2), of plat] by (simp add: not_less not_le zero_less_mult_iff)
qed

lemma contains_data_ok:
  assumes "transfer_ok plat ss pos (length x) d" "length b = MAX_DATA_LEN"
  shows "contains_data plat ss b pos x d =
    (slice (pos + base_position plat d) (length x) (dv_data d) = x,
     d\<lparr>dv_pos := span_end ss (pos + base_position plat d) (length x)\<rparr>)"
  using read_data_ok [OF assms] by (simp add: contains_data_def)

lemma span_end_le:
  assumes "transfer_ok plat ss pos len d"
  shows "span_end ss (pos + base_position plat d) len \<le> length (dv_data d)"
  using transfer_okD(2) [OF assms] by (simp add: span_end_def)

text \<open>
  C13. A write of a non-empty byte string that stays inside a writable drive and needs at most one buffer of
  sectors succeeds, on both platforms and for every sector size: it replaces exactly those bytes of
  the drive and leaves the descriptor after the last sector it touched. Then \<^verbatim>\<open>read_data\<close> at the same position
  returns these bytes, on Windows wherever the descriptor is, on Linux after it has been moved back to where it was
  before the write, because \<^verbatim>\<open>Position\<close> is relative to it there.
\<close>

theorem write_data_correct:
  assumes "transfer_ok plat ss pos (length x) d" "length b = MAX_DATA_LEN" "\<not> dv_readonly d"
  shows "\<exists>d'. write_data plat large ss b pos x d = (True, d') \<and>
    dv_data d' = memcpy_to (pos + base_position plat d) x (dv_data d) \<and>
    slice (pos + base_position plat d) (length x) (dv_data d') = x \<and>
    (\<forall>i n. i + n \<le> length (dv_data d) \<and>
       (i + n \<le> pos + base_position plat d \<or> pos + base_position plat d + length x \<le> i) \<longrightarrow>
       slice i n (dv_data d') = slice i n (dv_data d)) \<and>
    dv_pos d' = span_end ss (pos + base_position plat d) (length x) \<and>
    (\<forall>q b'. (plat = Win32 \<or> q = dv_pos d) \<and> length b' = MAX_DATA_LEN \<longrightarrow>
       fst (read_data plat ss b' pos (length x) (d'\<lparr>dv_pos := q\<rparr>)) = Some x)"
proof -
  define d' where "d' = d\<lparr>dv_data := memcpy_to (pos + base_position plat d) x (dv_data d),
    dv_pos := span_end ss (pos + base_position plat d) (length x)\<rparr>"
  have fits: "pos + base_position plat d + length x \<le> length (dv_data d)"
    using assms(1) by (simp add: transfer_ok_def)
  have again: "fst (read_data plat ss b' pos (length x) (d'\<lparr>dv_pos := q\<rparr>)) = Some x"
    if "plat = Win32 \<or> q = dv_pos d" "length b' = MAX_DATA_LEN" for q b'
  proof -
    have base: "base_position plat (d'\<lparr>dv_pos := q\<rparr>) = base_position plat d"
      using that(1) by (auto simp: base_position_def d'_def split: platform.split)
    then have "transfer_ok plat ss pos (length x) (d'\<lparr>dv_pos := q\<rparr>)"
      using assms(1) fits by (simp add: transfer_ok_def d'_def)
    then show ?thesis
      using read_data_ok [OF _ that(2)] base fits by (simp add: d'_def slice_memcpy_to_same)
  qed
  have "write_data plat large ss b pos x d = (True, d')"
    using write_data_ok [OF assms, of large] by (simp add: d'_def)
  then show ?thesis
    by (rule exI [of _ d', OF conjI]) (use fits again in \<open>simp add: d'_def slice_memcpy_to_same slice_memcpy_to_other\<close>)
qed

text \<open>
  On Linux a write that the drive refuses is reported as a success: \<^verbatim>\<open>write_sectors\<close> returns the
  requested size and the drive is unchanged. The Windows version reports the failure.
\<close>

theorem write_data_unreported_failure:
  assumes "transfer_ok plat ss pos (length x) d" "length b = MAX_DATA_LEN" "dv_readonly d"
  shows "(fst (write_data plat large ss b pos x d) \<longleftrightarrow> plat = Linux) \<and>
    dv_data (snd (write_data plat large ss b pos x d)) = dv_data d"
proof -
  define P where "P = pos + base_position plat d"
  define S where "S = P div ss"
  define E where "E = (P + length x + ss - 1) div ss"
  note ok = transfer_okD [OF assms(1), folded P_def, folded S_def E_def]
  have "write_sectors plat large ss S (E - S) b' (d\<lparr>dv_pos := E * ss\<rparr>) =
      (if plat = Linux then int ((E - S) * ss) else - 1, d\<lparr>dv_pos := S * ss\<rparr>)" for b'
    using ok assms(3) order_trans [OF ok(1,2)]
    by (cases plat) (simp_all add: write_sectors_def sys_seek_def sys_write_def MAX_DATA_LEN_def)
  then show ?thesis
    unfolding write_data_def Let_def P_def [symmetric] S_def [symmetric] E_def [symmetric]
    using ok assms(2) read_sectors_span [OF ok(1-3) assms(2), of plat]
    by (simp add: not_less not_le zero_less_mult_iff)
qed

text \<open>A drive of two sectors, for concrete instances.\<close>

definition sample_drive :: "bool \<Rightarrow> drive" where
  "sample_drive ro = \<lparr>dv_data = replicate 1024 0, dv_pos = 0, dv_base = 0, dv_readonly = ro\<rparr>"

lemma sample_transfer: "transfer_ok plat 512 510 (length [0x55, 0xAA :: byte]) (sample_drive ro)"
  by (cases plat) (simp_all add: transfer_ok_def sample_drive_def base_position_def MAX_DATA_LEN_def)

theorem write_data_correct_witness:
  "\<exists>d'. write_data Linux False 512 (replicate 65536 7) 510 [0x55, 0xAA] (sample_drive False) = (True, d') \<and>
     dv_data d' = memcpy_to 510 [0x55, 0xAA] (replicate 1024 0) \<and>
     fst (read_data Linux 512 (replicate 65536 7) 510 (Suc (Suc 0)) (d'\<lparr>dv_pos := 0\<rparr>)) = Some [0x55, 0xAA]"
  using write_data_correct [OF sample_transfer [of Linux False], of "replicate 65536 7" False]
  by (auto simp: sample_drive_def base_position_def MAX_DATA_LEN_def)

theorem write_data_unreported_failure_witness:
  "fst (write_data Linux False 512 (replicate 65536 7) 510 [0x55, 0xAA] (sample_drive True)) \<and>
   dv_data (snd (write_data Linux False 512 (replicate 65536 7) 510 [0x55, 0xAA] (sample_drive True))) = replicate 1024 0"
  using write_data_unreported_failure [OF sample_transfer [of Linux True], of "replicate 65536 7" False]
  by (simp add: sample_drive_def MAX_DATA_LEN_def)

end
