(* ===== verification/Boot_Data.thy ===== *)
theory Boot_Data
  imports Rufus_Prelude
begin

text \<open>
  The boot code of \<^verbatim>\<open>src/ms-sys/inc\<close>: every array that the functions of \<^verbatim>\<open>br.c\<close>, \<^verbatim>\<open>fat12.c\<close>, \<^verbatim>\<open>fat16.c\<close>,
  \<^verbatim>\<open>fat32.c\<close> and \<^verbatim>\<open>ntfs.c\<close> include, byte for byte. Two headers that define an array of the same name
  (the FreeDOS and ReactOS variants) give two constants here, named after their file.
\<close>

definition br_fat12_0x0 :: bytes where
  "br_fat12_0x0 = [0xEB, 0x3C, 0x90, 0x4D, 0x53, 0x57, 0x49, 0x4E, 0x34, 0x2E, 0x31]"

definition br_fat12_0x3e :: bytes where
  "br_fat12_0x3e = concat [
     [0x33, 0xC9, 0x8E, 0xD1, 0xBC, 0xFC, 0x7B, 0x16, 0x07, 0xBD, 0x78, 0, 0xC5, 0x76, 0, 0x1E],
     [0x56, 0x16, 0x55, 0xBF, 0x22, 0x05, 0x89, 0x7E, 0, 0x89, 0x4E, 0x02, 0xB1, 0x0B, 0xFC, 0xF3],
     [0xA4, 0x06, 0x1F, 0xBD, 0, 0x7C, 0xC6, 0x45, 0xFE, 0x0F, 0x38, 0x4E, 0x24, 0x7D, 0x20, 0x8B],
     [0xC1, 0x99, 0xE8, 0x7E, 0x01, 0x83, 0xEB, 0x3A, 0x66, 0xA1, 0x1C, 0x7C, 0x66, 0x3B, 0x07, 0x8A],
     [0x57, 0xFC, 0x75, 0x06, 0x80, 0xCA, 0x02, 0x88, 0x56, 0x02, 0x80, 0xC3, 0x10, 0x73, 0xED, 0x33],
     [0xC9, 0xFE, 0x06, 0xD8, 0x7D, 0x8A, 0x46, 0x10, 0x98, 0xF7, 0x66, 0x16, 0x03, 0x46, 0x1C, 0x13],
     [0x56, 0x1E, 0x03, 0x46, 0x0E, 0x13, 0xD1, 0x8B, 0x76, 0x11, 0x60, 0x89, 0x46, 0xFC, 0x89, 0x56],
     [0xFE, 0xB8, 0x20, 0, 0xF7, 0xE6, 0x8B, 0x5E, 0x0B, 0x03, 0xC3, 0x48, 0xF7, 0xF3, 0x01, 0x46],
     [0xFC, 0x11, 0x4E, 0xFE, 0x61, 0xBF, 0, 0x07, 0xE8, 0x28, 0x01, 0x72, 0x3E, 0x38, 0x2D, 0x74],
     [0x17, 0x60, 0xB1, 0x0B, 0xBE, 0xD8, 0x7D, 0xF3, 0xA6, 0x61, 0x74, 0x3D, 0x4E, 0x74, 0x09, 0x83],
     [0xC7, 0x20, 0x3B, 0xFB, 0x72, 0xE7, 0xEB, 0xDD, 0xFE, 0x0E, 0xD8, 0x7D, 0x7B, 0xA7, 0xBE, 0x7F],
     [0x7D, 0xAC, 0x98, 0x03, 0xF0, 0xAC, 0x98, 0x40, 0x74, 0x0C, 0x48, 0x74, 0x13, 0xB4, 0x0E, 0xBB],
     [0x07, 0, 0xCD, 0x10, 0xEB, 0xEF, 0xBE, 0x82, 0x7D, 0xEB, 0xE6, 0xBE, 0x80, 0x7D, 0xEB, 0xE1],
     [0xCD, 0x16, 0x5E, 0x1F, 0x66, 0x8F, 0x04, 0xCD, 0x19, 0xBE, 0x81, 0x7D, 0x8B, 0x7D, 0x1A, 0x8D],
     [0x45, 0xFE, 0x8A, 0x4E, 0x0D, 0xF7, 0xE1, 0x03, 0x46, 0xFC, 0x13, 0x56, 0xFE, 0xB1, 0x04, 0xE8],
     [0xC2, 0, 0x72, 0xD7, 0xEA, 0, 0x02, 0x70, 0, 0x52, 0x50, 0x06, 0x53, 0x6A, 0x01, 0x6A],
     [0x10, 0x91, 0x8B, 0x46, 0x18, 0xA2, 0x26, 0x05, 0x96, 0x92, 0x33, 0xD2, 0xF7, 0xF6, 0x91, 0xF7],
     [0xF6, 0x42, 0x87, 0xCA, 0xF7, 0x76, 0x1A, 0x8A, 0xF2, 0x8A, 0xE8, 0xC0, 0xCC, 0x02, 0x0A, 0xCC],
     [0xB8, 0x01, 0x02, 0x80, 0x7E, 0x02, 0x0E, 0x75, 0x04, 0xB4, 0x42, 0x8B, 0xF4, 0x8A, 0x56, 0x24],
     [0xCD, 0x13, 0x61, 0x61, 0x72, 0x0A, 0x40, 0x75, 0x01, 0x42, 0x03, 0x5E, 0x0B, 0x49, 0x75, 0x77],
     [0xC3, 0x03, 0x18, 0x01, 0x27, 0x0D, 0x0A, 0x49, 0x6E, 0x76, 0x61, 0x6C, 0x69, 0x64, 0x20, 0x73],
     [0x79, 0x73, 0x74, 0x65, 0x6D, 0x20, 0x64, 0x69, 0x73, 0x6B, 0xFF, 0x0D, 0x0A, 0x44, 0x69, 0x73],
     [0x6B, 0x20, 0x49, 0x2F, 0x4F, 0x20, 0x65, 0x72, 0x72, 0x6F, 0x72, 0xFF, 0x0D, 0x0A, 0x52, 0x65],
     [0x70, 0x6C, 0x61, 0x63, 0x65, 0x20, 0x74, 0x68, 0x65, 0x20, 0x64, 0x69, 0x73, 0x6B, 0x2C, 0x20],
     [0x61, 0x6E, 0x64, 0x20, 0x74, 0x68, 0x65, 0x6E, 0x20, 0x70, 0x72, 0x65, 0x73, 0x73, 0x20, 0x61],
     [0x6E, 0x79, 0x20, 0x6B, 0x65, 0x79, 0x0D, 0x0A, 0, 0, 0x49, 0x4F, 0x20, 0x20, 0x20, 0x20],
     [0x20, 0x20, 0x53, 0x59, 0x53, 0x4D, 0x53, 0x44, 0x4F, 0x53, 0x20, 0x20, 0x20, 0x53, 0x59, 0x53],
     [0x7F, 0x01, 0, 0x41, 0xBB, 0, 0x07, 0x60, 0x66, 0x6A, 0, 0xE9, 0x3B, 0xFF, 0, 0],
     [0x55, 0xAA]]"

definition br_fat16_0x0 :: bytes where
  "br_fat16_0x0 = [0xEB, 0x3C, 0x90, 0x4D, 0x53, 0x57, 0x49, 0x4E, 0x34, 0x2E, 0x31]"

definition br_fat16_0x3e :: bytes where
  "br_fat16_0x3e = concat [
     [0xFA, 0x33, 0xC9, 0x8E, 0xD1, 0xBC, 0xFC, 0x7B, 0x16, 0x07, 0xBD, 0x78, 0, 0xC5, 0x76, 0],
     [0x1E, 0x56, 0x16, 0x55, 0xBF, 0x22, 0x05, 0x89, 0x7E, 0, 0x89, 0x4E, 0x02, 0xB1, 0x0B, 0xFC],
     [0xF3, 0xA4, 0x06, 0x1F, 0xBD, 0, 0x7C, 0xC6, 0x45, 0xFE, 0x0F, 0x8B, 0x46, 0x18, 0x88, 0x45],
     [0xF9, 0x38, 0x4E, 0x24, 0x7D, 0x22, 0x8B, 0xC1, 0x99, 0xE8, 0x77, 0x01, 0x72, 0x1A, 0x83, 0xEB],
     [0x3A, 0x66, 0xA1, 0x1C, 0x7C, 0x66, 0x3B, 0x07, 0x8A, 0x57, 0xFC, 0x75, 0x06, 0x80, 0xCA, 0x02],
     [0x88, 0x56, 0x02, 0x80, 0xC3, 0x10, 0x73, 0xED, 0x33, 0xC9, 0x8A, 0x46, 0x10, 0x98, 0xF7, 0x66],
     [0x16, 0x03, 0x46, 0x1C, 0x13, 0x56, 0x1E, 0x03, 0x46, 0x0E, 0x13, 0xD1, 0x8B, 0x76, 0x11, 0x60],
     [0x89, 0x46, 0xFC, 0x89, 0x56, 0xFE, 0xB8, 0x20, 0, 0xF7, 0xE6, 0x8B, 0x5E, 0x0B, 0x03, 0xC3],
     [0x48, 0xF7, 0xF3, 0x01, 0x46, 0xFC, 0x11, 0x4E, 0xFE, 0x61, 0xBF, 0, 0x07, 0xE8, 0x23, 0x01],
     [0x72, 0x39, 0x38, 0x2D, 0x74, 0x17, 0x60, 0xB1, 0x0B, 0xBE, 0xD8, 0x7D, 0xF3, 0xA6, 0x61, 0x74],
     [0x39, 0x4E, 0x74, 0x09, 0x83, 0xC7, 0x20, 0x3B, 0xFB, 0x72, 0xE7, 0xEB, 0xDD, 0xBE, 0x7F, 0x7D],
     [0xAC, 0x98, 0x03, 0xF0, 0xAC, 0x84, 0xC0, 0x74, 0x17, 0x3C, 0xFF, 0x74, 0x09, 0xB4, 0x0E, 0xBB],
     [0x07, 0, 0xCD, 0x10, 0xEB, 0xEE, 0xBE, 0x82, 0x7D, 0xEB, 0xE5, 0xBE, 0x80, 0x7D, 0xEB, 0xE0],
     [0x98, 0xCD, 0x16, 0x5E, 0x1F, 0x66, 0x8F, 0x04, 0xCD, 0x19, 0xBE, 0x81, 0x7D, 0x8B, 0x7D, 0x1A],
     [0x8D, 0x45, 0xFE, 0x8A, 0x4E, 0x0D, 0xF7, 0xE1, 0x03, 0x46, 0xFC, 0x13, 0x56, 0xFE, 0xB1, 0x04],
     [0xE8, 0xC1, 0, 0x72, 0xD6, 0xEA, 0, 0x02, 0x70, 0, 0xB4, 0x42, 0xEB, 0x2D, 0x60, 0x66],
     [0x6A, 0, 0x52, 0x50, 0x06, 0x53, 0x6A, 0x01, 0x6A, 0x10, 0x8B, 0xF4, 0x74, 0xEC, 0x91, 0x92],
     [0x33, 0xD2, 0xF7, 0x76, 0x18, 0x91, 0xF7, 0x76, 0x18, 0x42, 0x87, 0xCA, 0xF7, 0x76, 0x1A, 0x8A],
     [0xF2, 0x8A, 0xE8, 0xC0, 0xCC, 0x02, 0x0A, 0xCC, 0xB8, 0x01, 0x02, 0x8A, 0x56, 0x24, 0xCD, 0x13],
     [0x8D, 0x64, 0x10, 0x61, 0x72, 0x0A, 0x40, 0x75, 0x01, 0x42, 0x03, 0x5E, 0x0B, 0x49, 0x75, 0x77],
     [0xC3, 0x03, 0x18, 0x01, 0x27, 0x0D, 0x0A, 0x49, 0x6E, 0x76, 0x61, 0x6C, 0x69, 0x64, 0x20, 0x73],
     [0x79, 0x73, 0x74, 0x65, 0x6D, 0x20, 0x64, 0x69, 0x73, 0x6B, 0xFF, 0x0D, 0x0A, 0x44, 0x69, 0x73],
     [0x6B, 0x20, 0x49, 0x2F, 0x4F, 0x20, 0x65, 0x72, 0x72, 0x6F, 0x72, 0xFF, 0x0D, 0x0A, 0x52, 0x65],
     [0x70, 0x6C, 0x61, 0x63, 0x65, 0x20, 0x74, 0x68, 0x65, 0x20, 0x64, 0x69, 0x73, 0x6B, 0x2C, 0x20],
     [0x61, 0x6E, 0x64, 0x20, 0x74, 0x68, 0x65, 0x6E, 0x20, 0x70, 0x72, 0x65, 0x73, 0x73, 0x20, 0x61],
     [0x6E, 0x79, 0x20, 0x6B, 0x65, 0x79, 0x0D, 0x0A, 0, 0, 0x49, 0x4F, 0x20, 0x20, 0x20, 0x20],
     [0x20, 0x20, 0x53, 0x59, 0x53, 0x4D, 0x53, 0x44, 0x4F, 0x53, 0x20, 0x20, 0x20, 0x53, 0x59, 0x53],
     [0x7F, 0x01, 0, 0x41, 0xBB, 0, 0x07, 0x80, 0x7E, 0x02, 0x0E, 0xE9, 0x40, 0xFF, 0, 0],
     [0x55, 0xAA]]"

definition br_fat16fd_0x3e :: bytes where
  "br_fat16fd_0x3e = concat [
     [0xFA, 0xFC, 0x31, 0xC0, 0x8E, 0xD8, 0xBD, 0, 0x7C, 0xB8, 0xE0, 0x1F, 0x8E, 0xC0, 0x89, 0xEE],
     [0x89, 0xEF, 0xB9, 0, 0x01, 0xF3, 0xA5, 0xEA, 0x5E, 0x7C, 0xE0, 0x1F, 0, 0, 0x60, 0],
     [0x8E, 0xD8, 0x8E, 0xD0, 0x8D, 0x66, 0xA0, 0xFB, 0x80, 0x7E, 0x24, 0xFF, 0x75, 0x03, 0x88, 0x56],
     [0x24, 0xC7, 0x46, 0xC0, 0x10, 0, 0xC7, 0x46, 0xC2, 0x01, 0, 0xE8, 0xE6, 0, 0x46, 0x72],
     [0x65, 0x65, 0x44, 0x4F, 0x53, 0, 0x8B, 0x76, 0x1C, 0x8B, 0x7E, 0x1E, 0x03, 0x76, 0x0E, 0x83],
     [0xD7, 0, 0x89, 0x76, 0xD2, 0x89, 0x7E, 0xD4, 0x8A, 0x46, 0x10, 0x98, 0xF7, 0x66, 0x16, 0x01],
     [0xC6, 0x11, 0xD7, 0x89, 0x76, 0xD6, 0x89, 0x7E, 0xD8, 0x8B, 0x5E, 0x0B, 0xB1, 0x05, 0xD3, 0xEB],
     [0x8B, 0x46, 0x11, 0x31, 0xD2, 0xF7, 0xF3, 0x89, 0x46, 0xD0, 0x01, 0xC6, 0x83, 0xD7, 0, 0x89],
     [0x76, 0xDA, 0x89, 0x7E, 0xDC, 0x8B, 0x46, 0xD6, 0x8B, 0x56, 0xD8, 0x8B, 0x7E, 0xD0, 0xC4, 0x5E],
     [0x5A, 0xE8, 0x98, 0, 0x72, 0x2F, 0xC4, 0x7E, 0x5A, 0xB9, 0x0B, 0, 0xBE, 0xF1, 0x7D, 0x57],
     [0xF3, 0xA6, 0x5F, 0x26, 0x8B, 0x45, 0x1A, 0x74, 0x0B, 0x83, 0xC7, 0x20, 0x26, 0x80, 0x3D, 0],
     [0x75, 0xE7, 0x72, 0x56, 0x50, 0xC4, 0x5E, 0x5A, 0x8B, 0x7E, 0x16, 0x8B, 0x46, 0xD2, 0x8B, 0x56],
     [0xD4, 0xE8, 0x68, 0, 0x58, 0x72, 0x43, 0x1E, 0x07, 0x8E, 0x5E, 0x5C, 0xBF, 0, 0x20, 0xAB],
     [0x89, 0xC6, 0x8B, 0x56, 0x5C, 0x01, 0xF6, 0x73, 0x03, 0x80, 0xC6, 0x10, 0x8E, 0xDA, 0xAD, 0x3D],
     [0xF8, 0xFF, 0x72, 0xEB, 0x31, 0xC0, 0xAB, 0x0E, 0x1F, 0xC4, 0x5E, 0x5A, 0xBE, 0, 0x20, 0xAD],
     [0x09, 0xC0, 0x74, 0x24, 0x48, 0x48, 0x8B, 0x7E, 0x0D, 0x81, 0xE7, 0xFF, 0, 0xF7, 0xE7, 0x03],
     [0x46, 0xDA, 0x13, 0x56, 0xDC, 0xE8, 0x24, 0, 0x73, 0xE5, 0xE8, 0x17, 0, 0x20, 0x65, 0x72],
     [0x72, 0, 0x30, 0xE4, 0xCD, 0x16, 0xCD, 0x19, 0x8A, 0x5E, 0x24, 0xFF, 0x6E, 0x5A, 0x31, 0xDB],
     [0xB4, 0x0E, 0xCD, 0x10, 0x5E, 0xAC, 0x56, 0x3C, 0, 0x75, 0xF3, 0xC3, 0x56, 0x89, 0x46, 0xC8],
     [0x89, 0x56, 0xCA, 0x8C, 0x46, 0xC6, 0x89, 0x5E, 0xC4, 0xB4, 0x41, 0xBB, 0xAA, 0x55, 0x8A, 0x56],
     [0x24, 0x84, 0xD2, 0x74, 0x19, 0xCD, 0x13, 0x72, 0x15, 0xD1, 0xE9, 0x81, 0xDB, 0x54, 0xAA, 0x75],
     [0x0D, 0x8D, 0x76, 0xC0, 0x89, 0x5E, 0xCC, 0x89, 0x5E, 0xCE, 0xB4, 0x42, 0xEB, 0x2C, 0x8B, 0x4E],
     [0xC8, 0x8B, 0x56, 0xCA, 0x8A, 0x46, 0x18, 0xF6, 0x66, 0x1A, 0x91, 0xF7, 0xF1, 0x92, 0xF6, 0x76],
     [0x18, 0x89, 0xD1, 0x88, 0xC6, 0x86, 0xE9, 0xD0, 0xC9, 0xD0, 0xC9, 0x8A, 0x46, 0x18, 0x28, 0xE0],
     [0xFE, 0xC4, 0x08, 0xE1, 0xC4, 0x5E, 0xC4, 0xB8, 0x01, 0x02, 0x8A, 0x56, 0x24, 0xCD, 0x13, 0x73],
     [0x06, 0x30, 0xE4, 0xCD, 0x13, 0xEB, 0xA2, 0x8B, 0x46, 0x0B, 0xF6, 0x76, 0xC0, 0x01, 0x46, 0xC6],
     [0x83, 0x46, 0xC8, 0x01, 0x83, 0x56, 0xCA, 0, 0x4F, 0x75, 0xEA, 0x8E, 0x46, 0xC6, 0x5E, 0xC3],
     [0, 0, 0, 0x4B, 0x45, 0x52, 0x4E, 0x45, 0x4C, 0x20, 0x20, 0x53, 0x59, 0x53, 0, 0],
     [0x55, 0xAA]]"

definition br_fat16ros_0x0 :: bytes where
  "br_fat16ros_0x0 = [0xEB, 0x71, 0x90, 0x46, 0x72, 0x4C, 0x64, 0x72, 0x31, 0x2E, 0x30]"

definition br_fat16ros_0x3e :: bytes where
  "br_fat16ros_0x3e = concat [
     [0x46, 0x52, 0x45, 0x45, 0x4C, 0x44, 0x52, 0x20, 0x53, 0x59, 0x53, 0x4C, 0x6F, 0x61, 0x64, 0x20],
     [0x66, 0x61, 0x69, 0x6C, 0x65, 0x64, 0x21, 0x0D, 0x0A, 0, 0x50, 0x72, 0x65, 0x73, 0x73, 0x20],
     [0x61, 0x6E, 0x79, 0x20, 0x6B, 0x65, 0x79, 0x20, 0x74, 0x6F, 0x20, 0x72, 0x65, 0x62, 0x6F, 0x6F],
     [0x74, 0x2E, 0x2E, 0x2E, 0, 0x31, 0xC0, 0x8E, 0xD8, 0x8E, 0xD0, 0xBC, 0xE0, 0x7B, 0x89, 0xE5],
     [0xA0, 0x24, 0x7C, 0x3C, 0xFF, 0x74, 0x02, 0x88, 0xC2, 0x88, 0x16, 0x24, 0x7C, 0x31, 0xFF, 0xB4],
     [0x08, 0xCD, 0x13, 0x0F, 0x82, 0xB8, 0, 0x66, 0x0F, 0xB6, 0xDD, 0x88, 0xCF, 0xC0, 0xEF, 0x06],
     [0x80, 0xE1, 0x3F, 0x66, 0x0F, 0xB6, 0xC9, 0x66, 0x0F, 0xB6, 0xC6, 0x66, 0x40, 0x66, 0x43, 0x66],
     [0xF7, 0xE1, 0x66, 0xF7, 0xE3, 0x66, 0x89, 0x46, 0x08, 0x66, 0x0F, 0xB7, 0x86, 0x2E, 0, 0x66],
     [0x03, 0x86, 0x3C, 0, 0x66, 0x0F, 0xB7, 0x8E, 0x36, 0, 0x66, 0x60, 0xBB, 0, 0x80, 0x8E],
     [0xC3, 0x31, 0xFF, 0xE8, 0xB9, 0, 0x66, 0x61, 0x66, 0x89, 0xC3, 0x66, 0x0F, 0xB6, 0x86, 0x30],
     [0, 0x66, 0xF7, 0xE1, 0x66, 0x01, 0xD8, 0x66, 0x89, 0x46, 0x04, 0x66, 0x0F, 0xB7, 0x9E, 0x31],
     [0, 0x66, 0x83, 0xC3, 0x0F, 0x66, 0xC1, 0xEB, 0x04, 0x66, 0x01, 0xC3, 0x66, 0x89, 0x5E, 0],
     [0xBB, 0, 0x10, 0x8E, 0xC3, 0x31, 0xFF, 0x31, 0xC9, 0x41, 0x06, 0xE8, 0x81, 0, 0x07, 0xBA],
     [0x10, 0, 0x31, 0xDB, 0x89, 0xDF, 0x26, 0x38, 0x2D, 0x74, 0x34, 0xBE, 0x3E, 0x7C, 0xB9, 0x0B],
     [0, 0xF3, 0xA6, 0x74, 0x08, 0x83, 0xC3, 0x20, 0x4A, 0x75, 0xE9, 0xEB, 0xD3, 0x26, 0x66, 0x0F],
     [0xB7, 0x47, 0x1A, 0xBA, 0x80, 0x0F, 0x8E, 0xC2, 0x31, 0xFF, 0xE8, 0x24, 0, 0x83, 0xF8, 0xF8],
     [0x72, 0xF8, 0x8A, 0x16, 0x24, 0x7C, 0x8A, 0x36, 0xFD, 0x7D, 0xEA, 0, 0xF8, 0, 0, 0xBE],
     [0x49, 0x7C, 0xE8, 0x7B, 0, 0xBE, 0x58, 0x7C, 0xE8, 0x75, 0, 0x31, 0xC0, 0xCD, 0x16, 0xCD],
     [0x19, 0x66, 0x60, 0x66, 0x48, 0x66, 0x48, 0x66, 0x0F, 0xB6, 0x8E, 0x2D, 0, 0x66, 0xF7, 0xE1],
     [0x66, 0x03, 0x46, 0, 0xE8, 0x18, 0, 0x66, 0x61, 0x06, 0xBB, 0x02, 0, 0xF7, 0xE3, 0xC1],
     [0xE2, 0x0C, 0x81, 0xC2, 0, 0x80, 0x8E, 0xC2, 0x89, 0xC3, 0x26, 0x8B, 0x07, 0x07, 0xC3, 0x66],
     [0x0F, 0xB7, 0xD9, 0x83, 0xFB, 0x40, 0x76, 0x03, 0xBB, 0x40, 0, 0x66, 0x60, 0x66, 0x6A, 0],
     [0x66, 0x50, 0x06, 0x57, 0x53, 0x6A, 0x10, 0x89, 0xE6, 0x8A, 0x16, 0x24, 0x7C, 0xB4, 0x42, 0xCD],
     [0x13, 0x72, 0x9C, 0x83, 0xC4, 0x10, 0xC1, 0xE3, 0x05, 0x8C, 0xC0, 0x01, 0xD8, 0x8E, 0xC0, 0x66],
     [0x61, 0x66, 0x01, 0xD8, 0x29, 0xD9, 0x75, 0xC7, 0xC3, 0xB4, 0x0E, 0xBB, 0x07, 0, 0xCD, 0x10],
     [0xAC, 0x08, 0xC0, 0x75, 0xF4, 0xC3, 0, 0, 0, 0, 0, 0, 0, 0, 0, 0],
     [0, 0, 0, 0, 0, 0, 0, 0, 0, 0, 0, 0, 0, 0, 0, 0],
     [0, 0, 0, 0, 0, 0, 0, 0, 0, 0, 0, 0, 0, 0, 0, 0],
     [0x55, 0xAA]]"

definition br_fat32_0x0 :: bytes where
  "br_fat32_0x0 = [0xEB, 0x58, 0x90, 0x4D, 0x53, 0x57, 0x49, 0x4E, 0x34, 0x2E, 0x31]"

definition br_fat32_0x3f0 :: bytes where
  "br_fat32_0x3f0 = concat [
     [0, 0, 0, 0, 0, 0, 0, 0, 0, 0, 0, 0, 0, 0, 0x55, 0xAA],
     [0xFA, 0x66, 0x0F, 0xB6, 0x46, 0x10, 0x66, 0x8B, 0x4E, 0x24, 0x66, 0xF7, 0xE1, 0x66, 0x03, 0x46],
     [0x1C, 0x66, 0x0F, 0xB7, 0x56, 0x0E, 0x66, 0x03, 0xC2, 0x33, 0xC9, 0x66, 0x89, 0x46, 0xFC, 0x66],
     [0xC7, 0x46, 0xF8, 0xFF, 0xFF, 0xFF, 0xFF, 0xFA, 0x66, 0x8B, 0x46, 0x2C, 0x66, 0x83, 0xF8, 0x02],
     [0x0F, 0x82, 0xCF, 0xFC, 0x66, 0x3D, 0xF8, 0xFF, 0xFF, 0x0F, 0x0F, 0x83, 0xC5, 0xFC, 0x66, 0x0F],
     [0xA4, 0xC2, 0x10, 0xFB, 0x52, 0x50, 0xFA, 0x66, 0xC1, 0xE0, 0x10, 0x66, 0x0F, 0xAC, 0xD0, 0x10],
     [0x66, 0x83, 0xE8, 0x02, 0x66, 0x0F, 0xB6, 0x5E, 0x0D, 0x8B, 0xF3, 0x66, 0xF7, 0xE3, 0x66, 0x03],
     [0x46, 0xFC, 0x66, 0x0F, 0xA4, 0xC2, 0x10, 0xFB, 0xBB, 0, 0x07, 0x8B, 0xFB, 0xB9, 0x01, 0],
     [0xE8, 0xBE, 0xFC, 0x0F, 0x82, 0xAA, 0xFC, 0x38, 0x2D, 0x74, 0x1E, 0xB1, 0x0B, 0x56, 0xBE, 0xD8],
     [0x7D, 0xF3, 0xA6, 0x5E, 0x74, 0x19, 0x03, 0xF9, 0x83, 0xC7, 0x15, 0x3B, 0xFB, 0x72, 0xE8, 0x4E],
     [0x75, 0xD6, 0x58, 0x5A, 0xE8, 0x66, 0, 0x72, 0xAB, 0x83, 0xC4, 0x04, 0xE9, 0x64, 0xFC, 0x83],
     [0xC4, 0x04, 0x8B, 0x75, 0x09, 0x8B, 0x7D, 0x0F, 0x8B, 0xC6, 0xFA, 0x66, 0xC1, 0xE0, 0x10, 0x8B],
     [0xC7, 0x66, 0x83, 0xF8, 0x02, 0x72, 0x3B, 0x66, 0x3D, 0xF8, 0xFF, 0xFF, 0x0F, 0x73, 0x33, 0x66],
     [0x48, 0x66, 0x48, 0x66, 0x0F, 0xB6, 0x4E, 0x0D, 0x66, 0xF7, 0xE1, 0x66, 0x03, 0x46, 0xFC, 0x66],
     [0x0F, 0xA4, 0xC2, 0x10, 0xFB, 0xBB, 0, 0x07, 0x53, 0xB9, 0x04, 0, 0xE8, 0x52, 0xFC, 0x5B],
     [0x0F, 0x82, 0x3D, 0xFC, 0x81, 0x3F, 0x4D, 0x5A, 0x75, 0x08, 0x81, 0xBF, 0, 0x02, 0x42, 0x4A],
     [0x74, 0x06, 0xBE, 0x80, 0x7D, 0xE9, 0x0E, 0xFC, 0xEA, 0, 0x02, 0x70, 0, 0x03, 0xC0, 0x13],
     [0xD2, 0x03, 0xC0, 0x13, 0xD2, 0xE8, 0x18, 0, 0xFA, 0x26, 0x66, 0x8B, 0x01, 0x66, 0x25, 0xFF],
     [0xFF, 0xFF, 0x0F, 0x66, 0x0F, 0xA4, 0xC2, 0x10, 0x66, 0x3D, 0xF8, 0xFF, 0xFF, 0x0F, 0xFB, 0xC3],
     [0xBF, 0, 0x7E, 0xFA, 0x66, 0xC1, 0xE0, 0x10, 0x66, 0x0F, 0xAC, 0xD0, 0x10, 0x66, 0x0F, 0xB7],
     [0x4E, 0x0B, 0x66, 0x33, 0xD2, 0x66, 0xF7, 0xF1, 0x66, 0x3B, 0x46, 0xF8, 0x74, 0x44, 0x66, 0x89],
     [0x46, 0xF8, 0x66, 0x03, 0x46, 0x1C, 0x66, 0x0F, 0xB7, 0x4E, 0x0E, 0x66, 0x03, 0xC1, 0x66, 0x0F],
     [0xB7, 0x5E, 0x28, 0x83, 0xE3, 0x0F, 0x74, 0x16, 0x3A, 0x5E, 0x10, 0x0F, 0x83, 0xA4, 0xFB, 0x52],
     [0x66, 0x8B, 0xC8, 0x66, 0x8B, 0x46, 0x24, 0x66, 0xF7, 0xE3, 0x66, 0x03, 0xC1, 0x5A, 0x52, 0x66],
     [0x0F, 0xA4, 0xC2, 0x10, 0xFB, 0x8B, 0xDF, 0xB9, 0x01, 0, 0xE8, 0xB4, 0xFB, 0x5A, 0x0F, 0x82],
     [0x9F, 0xFB, 0xFB, 0x8B, 0xDA, 0xC3, 0, 0, 0, 0, 0, 0, 0, 0, 0, 0],
     [0, 0, 0, 0, 0, 0, 0, 0, 0, 0, 0, 0, 0, 0, 0, 0],
     [0, 0, 0, 0, 0, 0, 0, 0, 0, 0, 0, 0, 0, 0, 0, 0],
     [0, 0, 0, 0, 0, 0, 0, 0, 0, 0, 0, 0, 0, 0, 0, 0],
     [0, 0, 0, 0, 0, 0, 0, 0, 0, 0, 0, 0, 0, 0, 0, 0],
     [0, 0, 0, 0, 0, 0, 0, 0, 0, 0, 0, 0, 0, 0, 0, 0],
     [0, 0, 0, 0, 0, 0, 0, 0, 0, 0, 0, 0, 0, 0, 0, 0],
     [0, 0, 0, 0, 0, 0, 0, 0, 0, 0, 0, 0, 0, 0, 0x55, 0xAA]]"

definition br_fat32_0x52 :: bytes where
  "br_fat32_0x52 = concat [
     [0x46, 0x41, 0x54, 0x33, 0x32, 0x20, 0x20, 0x20, 0xFA, 0x33, 0xC9, 0x8E, 0xD1, 0xBC, 0xF8, 0x7B],
     [0x8E, 0xC1, 0xBD, 0x78, 0, 0xC5, 0x76, 0, 0x1E, 0x56, 0x16, 0x55, 0xBF, 0x22, 0x05, 0x89],
     [0x7E, 0, 0x89, 0x4E, 0x02, 0xB1, 0x0B, 0xFC, 0xF3, 0xA4, 0x8E, 0xD9, 0xBD, 0, 0x7C, 0xC6],
     [0x45, 0xFE, 0x0F, 0x8B, 0x46, 0x18, 0x88, 0x45, 0xF9, 0x38, 0x4E, 0x40, 0x7D, 0x25, 0x8B, 0xC1],
     [0x99, 0xBB, 0, 0x07, 0xE8, 0x97, 0, 0x72, 0x1A, 0x83, 0xEB, 0x3A, 0x66, 0xA1, 0x1C, 0x7C],
     [0x66, 0x3B, 0x07, 0x8A, 0x57, 0xFC, 0x75, 0x06, 0x80, 0xCA, 0x02, 0x88, 0x56, 0x02, 0x80, 0xC3],
     [0x10, 0x73, 0xED, 0xBF, 0x02, 0, 0x83, 0x7E, 0x16, 0, 0x75, 0x45, 0x8B, 0x46, 0x1C, 0x8B],
     [0x56, 0x1E, 0xB9, 0x03, 0, 0x49, 0x40, 0x75, 0x01, 0x42, 0xBB, 0, 0x7E, 0xE8, 0x5F, 0],
     [0x73, 0x26, 0xB0, 0xF8, 0x4F, 0x74, 0x1D, 0x8B, 0x46, 0x32, 0x33, 0xD2, 0xB9, 0x03, 0, 0x3B],
     [0xC8, 0x77, 0x1E, 0x8B, 0x76, 0x0E, 0x3B, 0xCE, 0x73, 0x17, 0x2B, 0xF1, 0x03, 0x46, 0x1C, 0x13],
     [0x56, 0x1E, 0xEB, 0xD1, 0x73, 0x0B, 0xEB, 0x27, 0x83, 0x7E, 0x2A, 0, 0x77, 0x03, 0xE9, 0xFD],
     [0x02, 0xBE, 0x7E, 0x7D, 0xAC, 0x98, 0x03, 0xF0, 0xAC, 0x84, 0xC0, 0x74, 0x17, 0x3C, 0xFF, 0x74],
     [0x09, 0xB4, 0x0E, 0xBB, 0x07, 0, 0xCD, 0x10, 0xEB, 0xEE, 0xBE, 0x81, 0x7D, 0xEB, 0xE5, 0xBE],
     [0x7F, 0x7D, 0xEB, 0xE0, 0x98, 0xCD, 0x16, 0x5E, 0x1F, 0x66, 0x8F, 0x04, 0xCD, 0x19, 0x41, 0x56],
     [0x66, 0x6A, 0, 0x52, 0x50, 0x06, 0x53, 0x6A, 0x01, 0x6A, 0x10, 0x8B, 0xF4, 0x60, 0x80, 0x7E],
     [0x02, 0x0E, 0x75, 0x04, 0xB4, 0x42, 0xEB, 0x1D, 0x91, 0x92, 0x33, 0xD2, 0xF7, 0x76, 0x18, 0x91],
     [0xF7, 0x76, 0x18, 0x42, 0x87, 0xCA, 0xF7, 0x76, 0x1A, 0x8A, 0xF2, 0x8A, 0xE8, 0xC0, 0xCC, 0x02],
     [0x0A, 0xCC, 0xB8, 0x01, 0x02, 0x8A, 0x56, 0x40, 0xCD, 0x13, 0x61, 0x8D, 0x64, 0x10, 0x5E, 0x72],
     [0x0A, 0x40, 0x75, 0x01, 0x42, 0x03, 0x5E, 0x0B, 0x49, 0x75, 0xB4, 0xC3, 0x03, 0x18, 0x01, 0x27],
     [0x0D, 0x0A, 0x49, 0x6E, 0x76, 0x61, 0x6C, 0x69, 0x64, 0x20, 0x73, 0x79, 0x73, 0x74, 0x65, 0x6D],
     [0x20, 0x64, 0x69, 0x73, 0x6B, 0xFF, 0x0D, 0x0A, 0x44, 0x69, 0x73, 0x6B, 0x20, 0x49, 0x2F, 0x4F],
     [0x20, 0x65, 0x72, 0x72, 0x6F, 0x72, 0xFF, 0x0D, 0x0A, 0x52, 0x65, 0x70, 0x6C, 0x61, 0x63, 0x65],
     [0x20, 0x74, 0x68, 0x65, 0x20, 0x64, 0x69, 0x73, 0x6B, 0x2C, 0x20, 0x61, 0x6E, 0x64, 0x20, 0x74],
     [0x68, 0x65, 0x6E, 0x20, 0x70, 0x72, 0x65, 0x73, 0x73, 0x20, 0x61, 0x6E, 0x79, 0x20, 0x6B, 0x65],
     [0x79, 0x0D, 0x0A, 0, 0, 0, 0x49, 0x4F, 0x20, 0x20, 0x20, 0x20, 0x20, 0x20, 0x53, 0x59],
     [0x53, 0x4D, 0x53, 0x44, 0x4F, 0x53, 0x20, 0x20, 0x20, 0x53, 0x59, 0x53, 0x7E, 0x01, 0, 0x57],
     [0x49, 0x4E, 0x42, 0x4F, 0x4F, 0x54, 0x20, 0x53, 0x59, 0x53, 0, 0, 0x55, 0xAA, 0x52, 0x52],
     [0x61, 0x41, 0, 0, 0, 0, 0, 0, 0, 0, 0, 0, 0, 0, 0, 0],
     [0, 0, 0, 0, 0, 0, 0, 0, 0, 0, 0, 0, 0, 0, 0, 0],
     [0, 0, 0, 0, 0, 0, 0, 0, 0, 0, 0, 0, 0, 0, 0, 0],
     [0, 0, 0, 0, 0, 0, 0, 0, 0, 0, 0, 0, 0, 0, 0, 0],
     [0, 0, 0, 0, 0, 0, 0, 0, 0, 0, 0, 0, 0, 0, 0, 0],
     [0, 0, 0, 0, 0, 0, 0, 0, 0, 0, 0, 0, 0, 0, 0, 0],
     [0, 0, 0, 0, 0, 0, 0, 0, 0, 0, 0, 0, 0, 0, 0, 0],
     [0, 0, 0, 0, 0, 0, 0, 0, 0, 0, 0, 0, 0, 0, 0, 0],
     [0, 0, 0, 0, 0, 0, 0, 0, 0, 0, 0, 0, 0, 0, 0, 0],
     [0, 0, 0, 0, 0, 0, 0, 0, 0, 0, 0, 0, 0, 0, 0, 0],
     [0, 0, 0, 0, 0, 0, 0, 0, 0, 0, 0, 0, 0, 0, 0, 0],
     [0, 0, 0, 0, 0, 0, 0, 0, 0, 0, 0, 0, 0, 0, 0, 0],
     [0, 0, 0, 0, 0, 0, 0, 0, 0, 0, 0, 0, 0, 0, 0, 0],
     [0, 0, 0, 0, 0, 0, 0, 0, 0, 0, 0, 0, 0, 0, 0, 0],
     [0, 0, 0, 0, 0, 0, 0, 0, 0, 0, 0, 0, 0, 0, 0, 0],
     [0, 0, 0, 0, 0, 0, 0, 0, 0, 0, 0, 0, 0, 0, 0, 0],
     [0, 0, 0, 0, 0, 0, 0, 0, 0, 0, 0, 0, 0, 0, 0, 0],
     [0, 0, 0, 0, 0, 0, 0, 0, 0, 0, 0, 0, 0, 0, 0, 0],
     [0, 0, 0, 0, 0, 0, 0, 0, 0, 0, 0, 0, 0, 0, 0, 0],
     [0, 0, 0, 0, 0, 0, 0, 0, 0, 0, 0, 0, 0, 0, 0, 0],
     [0, 0, 0, 0, 0, 0, 0, 0, 0, 0, 0, 0, 0, 0, 0, 0],
     [0, 0, 0, 0, 0, 0, 0, 0, 0, 0, 0, 0, 0, 0, 0, 0],
     [0, 0, 0, 0, 0, 0, 0, 0, 0, 0, 0, 0, 0, 0, 0, 0],
     [0, 0, 0, 0, 0, 0, 0, 0, 0, 0, 0, 0, 0, 0, 0, 0],
     [0, 0, 0, 0, 0, 0, 0, 0, 0, 0, 0, 0, 0, 0, 0, 0],
     [0, 0, 0, 0, 0, 0, 0, 0, 0, 0, 0, 0, 0, 0, 0, 0],
     [0, 0, 0, 0, 0, 0, 0, 0, 0, 0, 0, 0, 0, 0, 0, 0],
     [0, 0, 0, 0, 0, 0, 0, 0, 0, 0, 0, 0, 0, 0, 0, 0],
     [0, 0, 0, 0, 0, 0, 0, 0, 0, 0, 0, 0, 0, 0, 0, 0],
     [0, 0, 0, 0, 0, 0, 0, 0, 0, 0, 0, 0, 0, 0, 0, 0],
     [0, 0, 0x72, 0x72, 0x41, 0x61]]"

definition br_fat32fd_0x3f0 :: bytes where
  "br_fat32fd_0x3f0 = concat [
     [0, 0, 0, 0, 0, 0, 0, 0, 0, 0, 0, 0, 0, 0, 0x55, 0xAA],
     [0, 0, 0, 0, 0, 0, 0, 0, 0, 0, 0, 0, 0, 0, 0, 0],
     [0, 0, 0, 0, 0, 0, 0, 0, 0, 0, 0, 0, 0, 0, 0, 0],
     [0, 0, 0, 0, 0, 0, 0, 0, 0, 0, 0, 0, 0, 0, 0, 0],
     [0, 0, 0, 0, 0, 0, 0, 0, 0, 0, 0, 0, 0, 0, 0, 0],
     [0, 0, 0, 0, 0, 0, 0, 0, 0, 0, 0, 0, 0, 0, 0, 0],
     [0, 0, 0, 0, 0, 0, 0, 0, 0, 0, 0, 0, 0, 0, 0, 0],
     [0, 0, 0, 0, 0, 0, 0, 0, 0, 0, 0, 0, 0, 0, 0, 0],
     [0, 0, 0, 0, 0, 0, 0, 0, 0, 0, 0, 0, 0, 0, 0, 0],
     [0, 0, 0, 0, 0, 0, 0, 0, 0, 0, 0, 0, 0, 0, 0, 0],
     [0, 0, 0, 0, 0, 0, 0, 0, 0, 0, 0, 0, 0, 0, 0, 0],
     [0, 0, 0, 0, 0, 0, 0, 0, 0, 0, 0, 0, 0, 0, 0, 0],
     [0, 0, 0, 0, 0, 0, 0, 0, 0, 0, 0, 0, 0, 0, 0, 0],
     [0, 0, 0, 0, 0, 0, 0, 0, 0, 0, 0, 0, 0, 0, 0, 0],
     [0, 0, 0, 0, 0, 0, 0, 0, 0, 0, 0, 0, 0, 0, 0, 0],
     [0, 0, 0, 0, 0, 0, 0, 0, 0, 0, 0, 0, 0, 0, 0, 0],
     [0, 0, 0, 0, 0, 0, 0, 0, 0, 0, 0, 0, 0, 0, 0, 0],
     [0, 0, 0, 0, 0, 0, 0, 0, 0, 0, 0, 0, 0, 0, 0, 0],
     [0, 0, 0, 0, 0, 0, 0, 0, 0, 0, 0, 0, 0, 0, 0, 0],
     [0, 0, 0, 0, 0, 0, 0, 0, 0, 0, 0, 0, 0, 0, 0, 0],
     [0, 0, 0, 0, 0, 0, 0, 0, 0, 0, 0, 0, 0, 0, 0, 0],
     [0, 0, 0, 0, 0, 0, 0, 0, 0, 0, 0, 0, 0, 0, 0, 0],
     [0, 0, 0, 0, 0, 0, 0, 0, 0, 0, 0, 0, 0, 0, 0, 0],
     [0, 0, 0, 0, 0, 0, 0, 0, 0, 0, 0, 0, 0, 0, 0, 0],
     [0, 0, 0, 0, 0, 0, 0, 0, 0, 0, 0, 0, 0, 0, 0, 0],
     [0, 0, 0, 0, 0, 0, 0, 0, 0, 0, 0, 0, 0, 0, 0, 0],
     [0, 0, 0, 0, 0, 0, 0, 0, 0, 0, 0, 0, 0, 0, 0, 0],
     [0, 0, 0, 0, 0, 0, 0, 0, 0, 0, 0, 0, 0, 0, 0, 0],
     [0, 0, 0, 0, 0, 0, 0, 0, 0, 0, 0, 0, 0, 0, 0, 0],
     [0, 0, 0, 0, 0, 0, 0, 0, 0, 0, 0, 0, 0, 0, 0, 0],
     [0, 0, 0, 0, 0, 0, 0, 0, 0, 0, 0, 0, 0, 0, 0, 0],
     [0, 0, 0, 0, 0, 0, 0, 0, 0, 0, 0, 0, 0, 0, 0, 0],
     [0, 0, 0, 0, 0, 0, 0, 0, 0, 0, 0, 0, 0, 0, 0x55, 0xAA]]"

definition br_fat32fd_0x52 :: bytes where
  "br_fat32fd_0x52 = concat [
     [0x46, 0x41, 0x54, 0x33, 0x32, 0x20, 0x20, 0x20, 0xFC, 0xFA, 0x29, 0xC0, 0x8E, 0xD8, 0xBD, 0],
     [0x7C, 0xB8, 0xE0, 0x1F, 0x8E, 0xC0, 0x89, 0xEE, 0x89, 0xEF, 0xB9, 0, 0x01, 0xF3, 0xA5, 0xEA],
     [0x7A, 0x7C, 0xE0, 0x1F, 0, 0, 0x60, 0, 0x8E, 0xD8, 0x8E, 0xD0, 0x8D, 0x66, 0xE0, 0xFB],
     [0x88, 0x56, 0x40, 0xBE, 0xC1, 0x7D, 0xE8, 0xF4, 0, 0x66, 0x31, 0xC0, 0x66, 0x89, 0x46, 0x44],
     [0x8B, 0x46, 0x0E, 0x66, 0x03, 0x46, 0x1C, 0x66, 0x89, 0x46, 0x48, 0x66, 0x89, 0x46, 0x4C, 0x66],
     [0x8B, 0x46, 0x10, 0x66, 0xF7, 0x6E, 0x24, 0x66, 0x01, 0x46, 0x4C, 0xB8, 0, 0x02, 0x3B, 0x46],
     [0x0B, 0x74, 0x08, 0x01, 0xC0, 0xFF, 0x06, 0x34, 0x7D, 0xEB, 0xF3, 0x66, 0x8B, 0x46, 0x2C, 0x66],
     [0x50, 0xE8, 0x94, 0, 0x72, 0x4D, 0xC4, 0x5E, 0x76, 0xE8, 0xB7, 0, 0x31, 0xFF, 0xB9, 0x0B],
     [0, 0xBE, 0xF1, 0x7D, 0xF3, 0xA6, 0x74, 0x15, 0x83, 0xC7, 0x20, 0x83, 0xE7, 0xE0, 0x3B, 0x7E],
     [0x0B, 0x75, 0xEB, 0x4A, 0x75, 0xE0, 0x66, 0x58, 0xE8, 0x34, 0, 0xEB, 0xD2, 0x26, 0xFF, 0x75],
     [0x09, 0x26, 0xFF, 0x75, 0x0F, 0x66, 0x58, 0x29, 0xDB, 0x66, 0x50, 0xE8, 0x5A, 0, 0x72, 0x0D],
     [0xE8, 0x80, 0, 0x4A, 0x75, 0xFA, 0x66, 0x58, 0xE8, 0x14, 0, 0xEB, 0xEC, 0x8A, 0x5E, 0x40],
     [0xFF, 0x6E, 0x76, 0xBE, 0xEE, 0x7D, 0xE8, 0x64, 0, 0x30, 0xE4, 0xCD, 0x16, 0xCD, 0x19, 0x06],
     [0x57, 0x53, 0x89, 0xC7, 0xC1, 0xE7, 0x02, 0x50, 0x8B, 0x46, 0x0B, 0x48, 0x21, 0xC7, 0x58, 0x66],
     [0xC1, 0xE8, 0x07, 0x66, 0x03, 0x46, 0x48, 0xBB, 0, 0x20, 0x8E, 0xC3, 0x29, 0xDB, 0x66, 0x3B],
     [0x46, 0x44, 0x74, 0x07, 0x66, 0x89, 0x46, 0x44, 0xE8, 0x38, 0, 0x26, 0x80, 0x65, 0x03, 0x0F],
     [0x26, 0x66, 0x8B, 0x05, 0x5B, 0x5F, 0x07, 0xC3, 0x66, 0x3D, 0xF8, 0xFF, 0xFF, 0x0F, 0x73, 0x15],
     [0x66, 0x48, 0x66, 0x48, 0x66, 0x0F, 0xB6, 0x56, 0x0D, 0x66, 0x52, 0x66, 0xF7, 0xE2, 0x66, 0x5A],
     [0x66, 0x03, 0x46, 0x4C, 0xC3, 0xF9, 0xC3, 0x31, 0xDB, 0xB4, 0x0E, 0xCD, 0x10, 0xAC, 0x3C, 0],
     [0x75, 0xF5, 0xC3, 0x52, 0x56, 0x57, 0x66, 0x50, 0x89, 0xE7, 0x6A, 0, 0x6A, 0, 0x66, 0x50],
     [0x06, 0x53, 0x6A, 0x01, 0x6A, 0x10, 0x89, 0xE6, 0x8A, 0x56, 0x40, 0xB4, 0x42, 0xCD, 0x13, 0x89],
     [0xFC, 0x66, 0x58, 0x73, 0x08, 0x50, 0x30, 0xE4, 0xCD, 0x13, 0x58, 0xEB, 0xD9, 0x66, 0x40, 0x03],
     [0x5E, 0x0B, 0x73, 0x07, 0x8C, 0xC2, 0x80, 0xC6, 0x10, 0x8E, 0xC2, 0x5F, 0x5E, 0x5A, 0xC3, 0x4C],
     [0x6F, 0x61, 0x64, 0x69, 0x6E, 0x67, 0x20, 0x46, 0x72, 0x65, 0x65, 0x44, 0x4F, 0x53, 0x20, 0],
     [0, 0, 0, 0, 0, 0, 0, 0, 0, 0, 0, 0, 0, 0, 0, 0],
     [0, 0, 0, 0, 0, 0, 0, 0, 0, 0, 0, 0, 0x4E, 0x6F, 0x20, 0x4B],
     [0x45, 0x52, 0x4E, 0x45, 0x4C, 0x20, 0x20, 0x53, 0x59, 0x53, 0, 0, 0x55, 0xAA, 0x52, 0x52],
     [0x61, 0x41, 0, 0, 0, 0, 0, 0, 0, 0, 0, 0, 0, 0, 0, 0],
     [0, 0, 0, 0, 0, 0, 0, 0, 0, 0, 0, 0, 0, 0, 0, 0],
     [0, 0, 0, 0, 0, 0, 0, 0, 0, 0, 0, 0, 0, 0, 0, 0],
     [0, 0, 0, 0, 0, 0, 0, 0, 0, 0, 0, 0, 0, 0, 0, 0],
     [0, 0, 0, 0, 0, 0, 0, 0, 0, 0, 0, 0, 0, 0, 0, 0],
     [0, 0, 0, 0, 0, 0, 0, 0, 0, 0, 0, 0, 0, 0, 0, 0],
     [0, 0, 0, 0, 0, 0, 0, 0, 0, 0, 0, 0, 0, 0, 0, 0],
     [0, 0, 0, 0, 0, 0, 0, 0, 0, 0, 0, 0, 0, 0, 0, 0],
     [0, 0, 0, 0, 0, 0, 0, 0, 0, 0, 0, 0, 0, 0, 0, 0],
     [0, 0, 0, 0, 0, 0, 0, 0, 0, 0, 0, 0, 0, 0, 0, 0],
     [0, 0, 0, 0, 0, 0, 0, 0, 0, 0, 0, 0, 0, 0, 0, 0],
     [0, 0, 0, 0, 0, 0, 0, 0, 0, 0, 0, 0, 0, 0, 0, 0],
     [0, 0, 0, 0, 0, 0, 0, 0, 0, 0, 0, 0, 0, 0, 0, 0],
     [0, 0, 0, 0, 0, 0, 0, 0, 0, 0, 0, 0, 0, 0, 0, 0],
     [0, 0, 0, 0, 0, 0, 0, 0, 0, 0, 0, 0, 0, 0, 0, 0],
     [0, 0, 0, 0, 0, 0, 0, 0, 0, 0, 0, 0, 0, 0, 0, 0],
     [0, 0, 0, 0, 0, 0, 0, 0, 0, 0, 0, 0, 0, 0, 0, 0],
     [0, 0, 0, 0, 0, 0, 0, 0, 0, 0, 0, 0, 0, 0, 0, 0],
     [0, 0, 0, 0, 0, 0, 0, 0, 0, 0, 0, 0, 0, 0, 0, 0],
     [0, 0, 0, 0, 0, 0, 0, 0, 0, 0, 0, 0, 0, 0, 0, 0],
     [0, 0, 0, 0, 0, 0, 0, 0, 0, 0, 0, 0, 0, 0, 0, 0],
     [0, 0, 0, 0, 0, 0, 0, 0, 0, 0, 0, 0, 0, 0, 0, 0],
     [0, 0, 0, 0, 0, 0, 0, 0, 0, 0, 0, 0, 0, 0, 0, 0],
     [0, 0, 0, 0, 0, 0, 0, 0, 0, 0, 0, 0, 0, 0, 0, 0],
     [0, 0, 0, 0, 0, 0, 0, 0, 0, 0, 0, 0, 0, 0, 0, 0],
     [0, 0, 0, 0, 0, 0, 0, 0, 0, 0, 0, 0, 0, 0, 0, 0],
     [0, 0, 0, 0, 0, 0, 0, 0, 0, 0, 0, 0, 0, 0, 0, 0],
     [0, 0, 0, 0, 0, 0, 0, 0, 0, 0, 0, 0, 0, 0, 0, 0],
     [0, 0, 0, 0, 0, 0, 0, 0, 0, 0, 0, 0, 0, 0, 0, 0],
     [0, 0, 0, 0, 0, 0, 0, 0, 0, 0, 0, 0, 0, 0, 0, 0],
     [0, 0, 0x72, 0x72, 0x41, 0x61]]"

definition br_fat32kos_0x52 :: bytes where
  "br_fat32kos_0x52 = concat [
     [0x46, 0x41, 0x54, 0x33, 0x32, 0x20, 0x20, 0x20, 0x80, 0x3C, 0x80, 0x75, 0x09, 0x66, 0x8B, 0x44],
     [0x08, 0x2E, 0x66, 0xA3, 0x1C, 0x7C, 0x66, 0x31, 0xC0, 0x8E, 0xD8, 0x8E, 0xD0, 0xBC, 0, 0x7C],
     [0x89, 0xE5, 0x88, 0x16, 0x08, 0x7A, 0xFC, 0xFB, 0x68, 0, 0x08, 0x07, 0x66, 0x0F, 0xB7, 0x5E],
     [0x0E, 0x66, 0x89, 0x1E, 0, 0x7A, 0x8A, 0x46, 0x10, 0x66, 0xF7, 0x66, 0x24, 0x66, 0x01, 0xD8],
     [0x66, 0x0F, 0xB6, 0x5E, 0x0D, 0x01, 0xDB, 0x66, 0x29, 0xD8, 0x66, 0xA3, 0x04, 0x7A, 0x66, 0x8B],
     [0x46, 0x2C, 0x66, 0x25, 0xFF, 0xFF, 0xFF, 0x0F, 0x31, 0xDB, 0x89, 0xDF, 0x66, 0x50, 0xE8, 0x62],
     [0, 0x0F, 0xB6, 0x4E, 0x0D, 0xC1, 0xE1, 0x04, 0x26, 0x80, 0x3D, 0, 0x74, 0x4D, 0x51, 0x57],
     [0xB9, 0x0B, 0, 0xBE, 0xCB, 0x7D, 0xF3, 0xA6, 0x5F, 0x59, 0x74, 0x0E, 0x83, 0xC7, 0x20, 0xE2],
     [0xE7, 0x66, 0x58, 0xE8, 0x8D, 0, 0x73, 0x33, 0x72, 0xCE, 0x66, 0x58, 0x26, 0x8B, 0x45, 0x14],
     [0x25, 0xFF, 0x0F, 0x66, 0xC1, 0xE0, 0x10, 0x26, 0x8B, 0x45, 0x1A, 0x31, 0xDB, 0x66, 0x50, 0xE8],
     [0x21, 0, 0x8C, 0xC0, 0x0F, 0xB6, 0x4E, 0x0D, 0xC1, 0xE1, 0x05, 0x01, 0xC8, 0x8E, 0xC0, 0x66],
     [0x58, 0xE8, 0x5F, 0, 0x72, 0xE5, 0xEA, 0, 0x80, 0, 0, 0xBE, 0xBA, 0x7D, 0xE8, 0x98],
     [0, 0xEB, 0xFE, 0x66, 0x0F, 0xB6, 0x4E, 0x0D, 0x66, 0xF7, 0xE1, 0x66, 0x03, 0x06, 0x04, 0x7A],
     [0x66, 0x03, 0x46, 0x1C, 0x06, 0x66, 0x60, 0x6A, 0, 0x6A, 0, 0x66, 0x50, 0x06, 0x53, 0x83],
     [0xE9, 0x7F, 0x19, 0xC0, 0x21, 0xC8, 0x83, 0xC0, 0x7F, 0x50, 0xC1, 0xE0, 0x05, 0x8C, 0xC1, 0x01],
     [0xC1, 0x8E, 0xC1, 0x6A, 0x10, 0xB8, 0, 0x42, 0x8A, 0x16, 0x08, 0x7A, 0x89, 0xE6, 0xCD, 0x13],
     [0xBE, 0xD9, 0x7D, 0x72, 0xB9, 0x61, 0x66, 0x61, 0x66, 0x83, 0xC0, 0x7F, 0x83, 0xE9, 0x7F, 0x77],
     [0xC4, 0x07, 0xC3, 0x06, 0x1E, 0x07, 0xBB, 0, 0x7E, 0x66, 0x50, 0x66, 0xC1, 0xE8, 0x07, 0x66],
     [0x3B, 0x06, 0xF9, 0x7D, 0x74, 0x0F, 0x66, 0xA3, 0xF9, 0x7D, 0x66, 0x03, 0x06, 0, 0x7A, 0xB9],
     [0x01, 0, 0xE8, 0x9B, 0xFF, 0x66, 0x58, 0x66, 0x83, 0xE0, 0x7F, 0x67, 0x66, 0x8B, 0x04, 0x85],
     [0, 0x7E, 0, 0, 0x66, 0x25, 0xFF, 0xFF, 0xFF, 0x0F, 0x66, 0x3D, 0xF7, 0xFF, 0xFF, 0x0F],
     [0xBE, 0xEB, 0x7D, 0x0F, 0x84, 0x67, 0xFF, 0x07, 0xC3, 0xAC, 0x84, 0xC0, 0x74, 0x09, 0xB4, 0x0E],
     [0xBB, 0x07, 0, 0xCD, 0x10, 0xEB, 0xF2, 0xC3, 0x43, 0x61, 0x6E, 0x6E, 0x6F, 0x74, 0x20, 0x66],
     [0x69, 0x6E, 0x64, 0x20, 0x66, 0x69, 0x6C, 0x65, 0x20, 0x4D, 0x54, 0x4C, 0x44, 0x5F, 0x46, 0x33],
     [0x32, 0x20, 0x20, 0x20, 0x0D, 0x0A, 0, 0x44, 0x69, 0x73, 0x6B, 0x20, 0x72, 0x65, 0x61, 0x64],
     [0x20, 0x65, 0x72, 0x72, 0x6F, 0x72, 0x0D, 0x0A, 0, 0x42, 0x61, 0x64, 0x20, 0x63, 0x6C, 0x75],
     [0x73, 0x74, 0x65, 0x72, 0x0D, 0x0A, 0, 0xFF, 0xFF, 0xFF, 0xFF, 0, 0x55, 0xAA]]"

definition br_fat32nt_0x1800 :: bytes where
  "br_fat32nt_0x1800 = concat [
     [0x66, 0x0F, 0xB6, 0x46, 0x10, 0x66, 0x8B, 0x4E, 0x24, 0x66, 0xF7, 0xE1, 0x66, 0x03, 0x46, 0x1C],
     [0x66, 0x0F, 0xB7, 0x56, 0x0E, 0x66, 0x03, 0xC2, 0x66, 0x89, 0x46, 0xFC, 0x66, 0xC7, 0x46, 0xF4],
     [0xFF, 0xFF, 0xFF, 0xFF, 0x66, 0x8B, 0x46, 0x2C, 0x66, 0x83, 0xF8, 0x02, 0x0F, 0x82, 0xA6, 0xFC],
     [0x66, 0x3D, 0xF8, 0xFF, 0xFF, 0x0F, 0x0F, 0x83, 0x9C, 0xFC, 0x66, 0x50, 0x66, 0x83, 0xE8, 0x02],
     [0x66, 0x0F, 0xB6, 0x5E, 0x0D, 0x8B, 0xF3, 0x66, 0xF7, 0xE3, 0x66, 0x03, 0x46, 0xFC, 0xBB, 0],
     [0x82, 0x8B, 0xFB, 0xB9, 0x01, 0, 0xE8, 0x87, 0xFC, 0x38, 0x2D, 0x74, 0x1E, 0xB1, 0x0B, 0x56],
     [0xBE, 0x70, 0x7D, 0xF3, 0xA6, 0x5E, 0x74, 0x1B, 0x03, 0xF9, 0x83, 0xC7, 0x15, 0x3B, 0xFB, 0x72],
     [0xE8, 0x4E, 0x75, 0xDA, 0x66, 0x58, 0xE8, 0x65, 0, 0x72, 0xBF, 0x83, 0xC4, 0x04, 0xE9, 0x55],
     [0xFC, 0, 0x20, 0x83, 0xC4, 0x04, 0x8B, 0x75, 0x09, 0x8B, 0x7D, 0x0F, 0x8B, 0xC6, 0x66, 0xC1],
     [0xE0, 0x10, 0x8B, 0xC7, 0x66, 0x83, 0xF8, 0x02, 0x0F, 0x82, 0x3A, 0xFC, 0x66, 0x3D, 0xF8, 0xFF],
     [0xFF, 0x0F, 0x0F, 0x83, 0x30, 0xFC, 0x66, 0x50, 0x66, 0x83, 0xE8, 0x02, 0x66, 0x0F, 0xB6, 0x4E],
     [0x0D, 0x66, 0xF7, 0xE1, 0x66, 0x03, 0x46, 0xFC, 0xBB, 0, 0, 0x06, 0x8E, 0x06, 0x81, 0x80],
     [0xE8, 0x1D, 0xFC, 0x07, 0x66, 0x58, 0xC1, 0xEB, 0x04, 0x01, 0x1E, 0x81, 0x80, 0xE8, 0x0E, 0],
     [0x0F, 0x83, 0x02, 0, 0x72, 0xD0, 0x8A, 0x56, 0x40, 0xEA, 0, 0, 0, 0x20, 0x66, 0xC1],
     [0xE0, 0x02, 0xE8, 0x11, 0, 0x26, 0x66, 0x8B, 0x01, 0x66, 0x25, 0xFF, 0xFF, 0xFF, 0x0F, 0x66],
     [0x3D, 0xF8, 0xFF, 0xFF, 0x0F, 0xC3, 0xBF, 0, 0x7E, 0x66, 0x0F, 0xB7, 0x4E, 0x0B, 0x66, 0x33],
     [0xD2, 0x66, 0xF7, 0xF1, 0x66, 0x3B, 0x46, 0xF4, 0x74, 0x3A, 0x66, 0x89, 0x46, 0xF4, 0x66, 0x03],
     [0x46, 0x1C, 0x66, 0x0F, 0xB7, 0x4E, 0x0E, 0x66, 0x03, 0xC1, 0x66, 0x0F, 0xB7, 0x5E, 0x28, 0x83],
     [0xE3, 0x0F, 0x74, 0x16, 0x3A, 0x5E, 0x10, 0x0F, 0x83, 0xAB, 0xFB, 0x52, 0x66, 0x8B, 0xC8, 0x66],
     [0x8B, 0x46, 0x24, 0x66, 0xF7, 0xE3, 0x66, 0x03, 0xC1, 0x5A, 0x52, 0x8B, 0xDF, 0xB9, 0x01, 0],
     [0xE8, 0x9D, 0xFB, 0x5A, 0x8B, 0xDA, 0xC3, 0, 0, 0, 0, 0, 0, 0, 0, 0],
     [0, 0, 0, 0, 0, 0, 0, 0, 0, 0, 0, 0, 0, 0, 0, 0],
     [0, 0, 0, 0, 0, 0, 0, 0, 0, 0, 0, 0, 0, 0, 0, 0],
     [0, 0, 0, 0, 0, 0, 0, 0, 0, 0, 0, 0, 0, 0, 0, 0],
     [0, 0, 0, 0, 0, 0, 0, 0, 0, 0, 0, 0, 0, 0, 0, 0],
     [0, 0, 0, 0, 0, 0, 0, 0, 0, 0, 0, 0, 0, 0, 0, 0],
     [0, 0, 0, 0, 0, 0, 0, 0, 0, 0, 0, 0, 0, 0, 0, 0],
     [0, 0, 0, 0, 0, 0, 0, 0, 0, 0, 0, 0, 0, 0, 0, 0],
     [0, 0, 0, 0, 0, 0, 0, 0, 0, 0, 0, 0, 0, 0, 0, 0],
     [0, 0, 0, 0, 0, 0, 0, 0, 0, 0, 0, 0, 0, 0, 0, 0],
     [0, 0, 0, 0, 0, 0, 0, 0, 0, 0, 0, 0, 0, 0, 0, 0],
     [0, 0, 0, 0, 0, 0, 0, 0, 0, 0, 0, 0, 0, 0, 0x55, 0xAA]]"

definition br_fat32nt_0x3f0 :: bytes where
  "br_fat32nt_0x3f0 = concat [
     [0, 0, 0, 0, 0, 0, 0, 0, 0, 0, 0, 0, 0, 0, 0x55, 0xAA],
     [0xFA, 0x66, 0x0F, 0xB6, 0x46, 0x10, 0x66, 0x8B, 0x4E, 0x24, 0x66, 0xF7, 0xE1, 0x66, 0x03, 0x46],
     [0x1C, 0x66, 0x0F, 0xB7, 0x56, 0x0E, 0x66, 0x03, 0xC2, 0x33, 0xC9, 0x66, 0x89, 0x46, 0xFC, 0x66],
     [0xC7, 0x46, 0xF8, 0xFF, 0xFF, 0xFF, 0xFF, 0xFA, 0x66, 0x8B, 0x46, 0x2C, 0x66, 0x83, 0xF8, 0x02],
     [0x0F, 0x82, 0xCF, 0xFC, 0x66, 0x3D, 0xF8, 0xFF, 0xFF, 0x0F, 0x0F, 0x83, 0xC5, 0xFC, 0x66, 0x0F],
     [0xA4, 0xC2, 0x10, 0xFB, 0x52, 0x50, 0xFA, 0x66, 0xC1, 0xE0, 0x10, 0x66, 0x0F, 0xAC, 0xD0, 0x10],
     [0x66, 0x83, 0xE8, 0x02, 0x66, 0x0F, 0xB6, 0x5E, 0x0D, 0x8B, 0xF3, 0x66, 0xF7, 0xE3, 0x66, 0x03],
     [0x46, 0xFC, 0x66, 0x0F, 0xA4, 0xC2, 0x10, 0xFB, 0xBB, 0, 0x07, 0x8B, 0xFB, 0xB9, 0x01, 0],
     [0xE8, 0xBE, 0xFC, 0x0F, 0x82, 0xAA, 0xFC, 0x38, 0x2D, 0x74, 0x1E, 0xB1, 0x0B, 0x56, 0xBE, 0xD8],
     [0x7D, 0xF3, 0xA6, 0x5E, 0x74, 0x19, 0x03, 0xF9, 0x83, 0xC7, 0x15, 0x3B, 0xFB, 0x72, 0xE8, 0x4E],
     [0x75, 0xD6, 0x58, 0x5A, 0xE8, 0x66, 0, 0x72, 0xAB, 0x83, 0xC4, 0x04, 0xE9, 0x64, 0xFC, 0x83],
     [0xC4, 0x04, 0x8B, 0x75, 0x09, 0x8B, 0x7D, 0x0F, 0x8B, 0xC6, 0xFA, 0x66, 0xC1, 0xE0, 0x10, 0x8B],
     [0xC7, 0x66, 0x83, 0xF8, 0x02, 0x72, 0x3B, 0x66, 0x3D, 0xF8, 0xFF, 0xFF, 0x0F, 0x73, 0x33, 0x66],
     [0x48, 0x66, 0x48, 0x66, 0x0F, 0xB6, 0x4E, 0x0D, 0x66, 0xF7, 0xE1, 0x66, 0x03, 0x46, 0xFC, 0x66],
     [0x0F, 0xA4, 0xC2, 0x10, 0xFB, 0xBB, 0, 0x07, 0x53, 0xB9, 0x04, 0, 0xE8, 0x52, 0xFC, 0x5B],
     [0x0F, 0x82, 0x3D, 0xFC, 0x81, 0x3F, 0x4D, 0x5A, 0x75, 0x08, 0x81, 0xBF, 0, 0x02, 0x42, 0x4A],
     [0x74, 0x06, 0xBE, 0x80, 0x7D, 0xE9, 0x0E, 0xFC, 0xEA, 0, 0x02, 0x70, 0, 0x03, 0xC0, 0x13],
     [0xD2, 0x03, 0xC0, 0x13, 0xD2, 0xE8, 0x18, 0, 0xFA, 0x26, 0x66, 0x8B, 0x01, 0x66, 0x25, 0xFF],
     [0xFF, 0xFF, 0x0F, 0x66, 0x0F, 0xA4, 0xC2, 0x10, 0x66, 0x3D, 0xF8, 0xFF, 0xFF, 0x0F, 0xFB, 0xC3],
     [0xBF, 0, 0x7E, 0xFA, 0x66, 0xC1, 0xE0, 0x10, 0x66, 0x0F, 0xAC, 0xD0, 0x10, 0x66, 0x0F, 0xB7],
     [0x4E, 0x0B, 0x66, 0x33, 0xD2, 0x66, 0xF7, 0xF1, 0x66, 0x3B, 0x46, 0xF8, 0x74, 0x44, 0x66, 0x89],
     [0x46, 0xF8, 0x66, 0x03, 0x46, 0x1C, 0x66, 0x0F, 0xB7, 0x4E, 0x0E, 0x66, 0x03, 0xC1, 0x66, 0x0F],
     [0xB7, 0x5E, 0x28, 0x83, 0xE3, 0x0F, 0x74, 0x16, 0x3A, 0x5E, 0x10, 0x0F, 0x83, 0xA4, 0xFB, 0x52],
     [0x66, 0x8B, 0xC8, 0x66, 0x8B, 0x46, 0x24, 0x66, 0xF7, 0xE3, 0x66, 0x03, 0xC1, 0x5A, 0x52, 0x66],
     [0x0F, 0xA4, 0xC2, 0x10, 0xFB, 0x8B, 0xDF, 0xB9, 0x01, 0, 0xE8, 0xB4, 0xFB, 0x5A, 0x0F, 0x82],
     [0x9F, 0xFB, 0xFB, 0x8B, 0xDA, 0xC3, 0, 0, 0, 0, 0, 0, 0, 0, 0, 0],
     [0, 0, 0, 0, 0, 0, 0, 0, 0, 0, 0, 0, 0, 0, 0, 0],
     [0, 0, 0, 0, 0, 0, 0, 0, 0, 0, 0, 0, 0, 0, 0, 0],
     [0, 0, 0, 0, 0, 0, 0, 0, 0, 0, 0, 0, 0, 0, 0, 0],
     [0, 0, 0, 0, 0, 0, 0, 0, 0, 0, 0, 0, 0, 0, 0, 0],
     [0, 0, 0, 0, 0, 0, 0, 0, 0, 0, 0, 0, 0, 0, 0, 0],
     [0, 0, 0, 0, 0, 0, 0, 0, 0, 0, 0, 0, 0, 0, 0, 0],
     [0, 0, 0, 0, 0, 0, 0, 0, 0, 0, 0, 0, 0, 0, 0x55, 0xAA]]"

definition br_fat32nt_0x52 :: bytes where
  "br_fat32nt_0x52 = concat [
     [0x46, 0x41, 0x54, 0x33, 0x32, 0x20, 0x20, 0x20, 0x33, 0xC9, 0x8E, 0xD1, 0xBC, 0xF4, 0x7B, 0x8E],
     [0xC1, 0x8E, 0xD9, 0xBD, 0, 0x7C, 0x88, 0x4E, 0x02, 0x8A, 0x56, 0x40, 0xB4, 0x08, 0xCD, 0x13],
     [0x73, 0x05, 0xB9, 0xFF, 0xFF, 0x8A, 0xF1, 0x66, 0x0F, 0xB6, 0xC6, 0x40, 0x66, 0x0F, 0xB6, 0xD1],
     [0x80, 0xE2, 0x3F, 0xF7, 0xE2, 0x86, 0xCD, 0xC0, 0xED, 0x06, 0x41, 0x66, 0x0F, 0xB7, 0xC9, 0x66],
     [0xF7, 0xE1, 0x66, 0x89, 0x46, 0xF8, 0x83, 0x7E, 0x16, 0, 0x75, 0x38, 0x83, 0x7E, 0x2A, 0],
     [0x77, 0x32, 0x66, 0x8B, 0x46, 0x1C, 0x66, 0x83, 0xC0, 0x0C, 0xBB, 0, 0x80, 0xB9, 0x01, 0],
     [0xE8, 0x2B, 0, 0xE9, 0x48, 0x03, 0xA0, 0xFA, 0x7D, 0xB4, 0x7D, 0x8B, 0xF0, 0xAC, 0x84, 0xC0],
     [0x74, 0x17, 0x3C, 0xFF, 0x74, 0x09, 0xB4, 0x0E, 0xBB, 0x07, 0, 0xCD, 0x10, 0xEB, 0xEE, 0xA0],
     [0xFB, 0x7D, 0xEB, 0xE5, 0xA0, 0xF9, 0x7D, 0xEB, 0xE0, 0x98, 0xCD, 0x16, 0xCD, 0x19, 0x66, 0x60],
     [0x66, 0x3B, 0x46, 0xF8, 0x0F, 0x82, 0x4A, 0, 0x66, 0x6A, 0, 0x66, 0x50, 0x06, 0x53, 0x66],
     [0x68, 0x10, 0, 0x01, 0, 0x80, 0x7E, 0x02, 0, 0x0F, 0x85, 0x20, 0, 0xB4, 0x41, 0xBB],
     [0xAA, 0x55, 0x8A, 0x56, 0x40, 0xCD, 0x13, 0x0F, 0x82, 0x1C, 0, 0x81, 0xFB, 0x55, 0xAA, 0x0F],
     [0x85, 0x14, 0, 0xF6, 0xC1, 0x01, 0x0F, 0x84, 0x0D, 0, 0xFE, 0x46, 0x02, 0xB4, 0x42, 0x8A],
     [0x56, 0x40, 0x8B, 0xF4, 0xCD, 0x13, 0xB0, 0xF9, 0x66, 0x58, 0x66, 0x58, 0x66, 0x58, 0x66, 0x58],
     [0xEB, 0x2A, 0x66, 0x33, 0xD2, 0x66, 0x0F, 0xB7, 0x4E, 0x18, 0x66, 0xF7, 0xF1, 0xFE, 0xC2, 0x8A],
     [0xCA, 0x66, 0x8B, 0xD0, 0x66, 0xC1, 0xEA, 0x10, 0xF7, 0x76, 0x1A, 0x86, 0xD6, 0x8A, 0x56, 0x40],
     [0x8A, 0xE8, 0xC0, 0xE4, 0x06, 0x0A, 0xCC, 0xB8, 0x01, 0x02, 0xCD, 0x13, 0x66, 0x61, 0x0F, 0x82],
     [0x54, 0xFF, 0x81, 0xC3, 0, 0x02, 0x66, 0x40, 0x49, 0x0F, 0x85, 0x71, 0xFF, 0xC3, 0x4E, 0x54],
     [0x4C, 0x44, 0x52, 0x20, 0x20, 0x20, 0x20, 0x20, 0x20, 0, 0, 0, 0, 0, 0, 0],
     [0, 0, 0, 0, 0, 0, 0, 0, 0, 0, 0, 0, 0, 0, 0, 0],
     [0, 0, 0, 0, 0, 0, 0, 0, 0, 0, 0, 0, 0, 0, 0, 0],
     [0, 0, 0, 0, 0, 0, 0, 0, 0, 0, 0x0D, 0x0A, 0x4E, 0x54, 0x4C, 0x44],
     [0x52, 0x20, 0x69, 0x73, 0x20, 0x6D, 0x69, 0x73, 0x73, 0x69, 0x6E, 0x67, 0xFF, 0x0D, 0x0A, 0x44],
     [0x69, 0x73, 0x6B, 0x20, 0x65, 0x72, 0x72, 0x6F, 0x72, 0xFF, 0x0D, 0x0A, 0x50, 0x72, 0x65, 0x73],
     [0x73, 0x20, 0x61, 0x6E, 0x79, 0x20, 0x6B, 0x65, 0x79, 0x20, 0x74, 0x6F, 0x20, 0x72, 0x65, 0x73],
     [0x74, 0x61, 0x72, 0x74, 0x0D, 0x0A, 0, 0, 0, 0, 0, 0, 0, 0, 0, 0],
     [0, 0, 0, 0, 0, 0, 0, 0xAC, 0xBF, 0xCC, 0, 0, 0x55, 0xAA, 0x52, 0x52],
     [0x61, 0x41, 0, 0, 0, 0, 0, 0, 0, 0, 0, 0, 0, 0, 0, 0],
     [0, 0, 0, 0, 0, 0, 0, 0, 0, 0, 0, 0, 0, 0, 0, 0],
     [0, 0, 0, 0, 0, 0, 0, 0, 0, 0, 0, 0, 0, 0, 0, 0],
     [0, 0, 0, 0, 0, 0, 0, 0, 0, 0, 0, 0, 0, 0, 0, 0],
     [0, 0, 0, 0, 0, 0, 0, 0, 0, 0, 0, 0, 0, 0, 0, 0],
     [0, 0, 0, 0, 0, 0, 0, 0, 0, 0, 0, 0, 0, 0, 0, 0],
     [0, 0, 0, 0, 0, 0, 0, 0, 0, 0, 0, 0, 0, 0, 0, 0],
     [0, 0, 0, 0, 0, 0, 0, 0, 0, 0, 0, 0, 0, 0, 0, 0],
     [0, 0, 0, 0, 0, 0, 0, 0, 0, 0, 0, 0, 0, 0, 0, 0],
     [0, 0, 0, 0, 0, 0, 0, 0, 0, 0, 0, 0, 0, 0, 0, 0],
     [0, 0, 0, 0, 0, 0, 0, 0, 0, 0, 0, 0, 0, 0, 0, 0],
     [0, 0, 0, 0, 0, 0, 0, 0, 0, 0, 0, 0, 0, 0, 0, 0],
     [0, 0, 0, 0, 0, 0, 0, 0, 0, 0, 0, 0, 0, 0, 0, 0],
     [0, 0, 0, 0, 0, 0, 0, 0, 0, 0, 0, 0, 0, 0, 0, 0],
     [0, 0, 0, 0, 0, 0, 0, 0, 0, 0, 0, 0, 0, 0, 0, 0],
     [0, 0, 0, 0, 0, 0, 0, 0, 0, 0, 0, 0, 0, 0, 0, 0],
     [0, 0, 0, 0, 0, 0, 0, 0, 0, 0, 0, 0, 0, 0, 0, 0],
     [0, 0, 0, 0, 0, 0, 0, 0, 0, 0, 0, 0, 0, 0, 0, 0],
     [0, 0, 0, 0, 0, 0, 0, 0, 0, 0, 0, 0, 0, 0, 0, 0],
     [0, 0, 0, 0, 0, 0, 0, 0, 0, 0, 0, 0, 0, 0, 0, 0],
     [0, 0, 0, 0, 0, 0, 0, 0, 0, 0, 0, 0, 0, 0, 0, 0],
     [0, 0, 0, 0, 0, 0, 0, 0, 0, 0, 0, 0, 0, 0, 0, 0],
     [0, 0, 0, 0, 0, 0, 0, 0, 0, 0, 0, 0, 0, 0, 0, 0],
     [0, 0, 0, 0, 0, 0, 0, 0, 0, 0, 0, 0, 0, 0, 0, 0],
     [0, 0, 0, 0, 0, 0, 0, 0, 0, 0, 0, 0, 0, 0, 0, 0],
     [0, 0, 0, 0, 0, 0, 0, 0, 0, 0, 0, 0, 0, 0, 0, 0],
     [0, 0, 0, 0, 0, 0, 0, 0, 0, 0, 0, 0, 0, 0, 0, 0],
     [0, 0, 0, 0, 0, 0, 0, 0, 0, 0, 0, 0, 0, 0, 0, 0],
     [0, 0, 0, 0, 0, 0, 0, 0, 0, 0, 0, 0, 0, 0, 0, 0],
     [0, 0, 0, 0, 0, 0, 0, 0, 0, 0, 0, 0, 0, 0, 0, 0],
     [0, 0, 0x72, 0x72, 0x41, 0x61]]"

definition br_fat32pe_0x1800 :: bytes where
  "br_fat32pe_0x1800 = concat [
     [0x66, 0x0F, 0xB6, 0x46, 0x10, 0x66, 0x8B, 0x4E, 0x24, 0x66, 0xF7, 0xE1, 0x66, 0x03, 0x46, 0x1C],
     [0x66, 0x0F, 0xB7, 0x56, 0x0E, 0x66, 0x03, 0xC2, 0x66, 0x89, 0x46, 0xFC, 0x66, 0xC7, 0x46, 0xF4],
     [0xFF, 0xFF, 0xFF, 0xFF, 0x66, 0x8B, 0x46, 0x2C, 0x66, 0x83, 0xF8, 0x02, 0x0F, 0x82, 0xC2, 0xFC],
     [0x66, 0x3D, 0xF8, 0xFF, 0xFF, 0x0F, 0x0F, 0x83, 0xB8, 0xFC, 0x66, 0x50, 0x66, 0x83, 0xE8, 0x02],
     [0x66, 0x0F, 0xB6, 0x5E, 0x0D, 0x8B, 0xF3, 0x66, 0xF7, 0xE3, 0x66, 0x03, 0x46, 0xFC, 0xBB, 0],
     [0x82, 0x8B, 0xFB, 0xB9, 0x01, 0, 0xE8, 0xA3, 0xFC, 0x38, 0x2D, 0x74, 0x1E, 0xB1, 0x0B, 0x56],
     [0xBE, 0x69, 0x7D, 0xF3, 0xA6, 0x5E, 0x74, 0x1B, 0x03, 0xF9, 0x83, 0xC7, 0x15, 0x3B, 0xFB, 0x72],
     [0xE8, 0x4E, 0x75, 0xDA, 0x66, 0x58, 0xE8, 0x65, 0, 0x72, 0xBF, 0x83, 0xC4, 0x04, 0xE9, 0x71],
     [0xFC, 0, 0x20, 0x83, 0xC4, 0x04, 0x8B, 0x75, 0x09, 0x8B, 0x7D, 0x0F, 0x8B, 0xC6, 0x66, 0xC1],
     [0xE0, 0x10, 0x8B, 0xC7, 0x66, 0x83, 0xF8, 0x02, 0x0F, 0x82, 0x56, 0xFC, 0x66, 0x3D, 0xF8, 0xFF],
     [0xFF, 0x0F, 0x0F, 0x83, 0x4C, 0xFC, 0x66, 0x50, 0x66, 0x83, 0xE8, 0x02, 0x66, 0x0F, 0xB6, 0x4E],
     [0x0D, 0x66, 0xF7, 0xE1, 0x66, 0x03, 0x46, 0xFC, 0xBB, 0, 0, 0x06, 0x8E, 0x06, 0x81, 0x80],
     [0xE8, 0x39, 0xFC, 0x07, 0x66, 0x58, 0xC1, 0xEB, 0x04, 0x01, 0x1E, 0x81, 0x80, 0xE8, 0x0E, 0],
     [0x0F, 0x83, 0x02, 0, 0x72, 0xD0, 0x8A, 0x56, 0x40, 0xEA, 0, 0, 0, 0x20, 0x66, 0xC1],
     [0xE0, 0x02, 0xE8, 0x11, 0, 0x26, 0x66, 0x8B, 0x01, 0x66, 0x25, 0xFF, 0xFF, 0xFF, 0x0F, 0x66],
     [0x3D, 0xF8, 0xFF, 0xFF, 0x0F, 0xC3, 0xBF, 0, 0x7E, 0x66, 0x0F, 0xB7, 0x4E, 0x0B, 0x66, 0x33],
     [0xD2, 0x66, 0xF7, 0xF1, 0x66, 0x3B, 0x46, 0xF4, 0x74, 0x3A, 0x66, 0x89, 0x46, 0xF4, 0x66, 0x03],
     [0x46, 0x1C, 0x66, 0x0F, 0xB7, 0x4E, 0x0E, 0x66, 0x03, 0xC1, 0x66, 0x0F, 0xB7, 0x5E, 0x28, 0x83],
     [0xE3, 0x0F, 0x74, 0x16, 0x3A, 0x5E, 0x10, 0x0F, 0x83, 0xC7, 0xFB, 0x52, 0x66, 0x8B, 0xC8, 0x66],
     [0x8B, 0x46, 0x24, 0x66, 0xF7, 0xE3, 0x66, 0x03, 0xC1, 0x5A, 0x52, 0x8B, 0xDF, 0xB9, 0x01, 0],
     [0xE8, 0xB9, 0xFB, 0x5A, 0x8B, 0xDA, 0xC3, 0, 0, 0, 0, 0, 0, 0, 0, 0],
     [0, 0, 0, 0, 0, 0, 0, 0, 0, 0, 0, 0, 0, 0, 0, 0],
     [0, 0, 0, 0, 0, 0, 0, 0, 0, 0, 0, 0, 0, 0, 0, 0],
     [0, 0, 0, 0, 0, 0, 0, 0, 0, 0, 0, 0, 0, 0, 0, 0],
     [0, 0, 0, 0, 0, 0, 0, 0, 0, 0, 0, 0, 0, 0, 0, 0],
     [0, 0, 0, 0, 0, 0, 0, 0, 0, 0, 0, 0, 0, 0, 0, 0],
     [0, 0, 0, 0, 0, 0, 0, 0, 0, 0, 0, 0, 0, 0, 0, 0],
     [0, 0, 0, 0, 0, 0, 0, 0, 0, 0, 0, 0, 0, 0, 0, 0],
     [0, 0, 0, 0, 0, 0, 0, 0, 0, 0, 0, 0, 0, 0, 0, 0],
     [0, 0, 0, 0, 0, 0, 0, 0, 0, 0, 0, 0, 0, 0, 0, 0],
     [0, 0, 0, 0, 0, 0, 0, 0, 0, 0, 0, 0, 0, 0, 0, 0],
     [0, 0, 0, 0, 0, 0, 0, 0, 0, 0, 0, 0, 0, 0, 0x55, 0xAA]]"

definition br_fat32pe_0x3f0 :: bytes where
  "br_fat32pe_0x3f0 = concat [
     [0, 0, 0, 0, 0, 0, 0, 0, 0, 0, 0, 0, 0, 0, 0x55, 0xAA],
     [0xFA, 0x66, 0x0F, 0xB6, 0x46, 0x10, 0x66, 0x8B, 0x4E, 0x24, 0x66, 0xF7, 0xE1, 0x66, 0x03, 0x46],
     [0x1C, 0x66, 0x0F, 0xB7, 0x56, 0x0E, 0x66, 0x03, 0xC2, 0x33, 0xC9, 0x66, 0x89, 0x46, 0xFC, 0x66],
     [0xC7, 0x46, 0xF8, 0xFF, 0xFF, 0xFF, 0xFF, 0xFA, 0x66, 0x8B, 0x46, 0x2C, 0x66, 0x83, 0xF8, 0x02],
     [0x0F, 0x82, 0xCF, 0xFC, 0x66, 0x3D, 0xF8, 0xFF, 0xFF, 0x0F, 0x0F, 0x83, 0xC5, 0xFC, 0x66, 0x0F],
     [0xA4, 0xC2, 0x10, 0xFB, 0x52, 0x50, 0xFA, 0x66, 0xC1, 0xE0, 0x10, 0x66, 0x0F, 0xAC, 0xD0, 0x10],
     [0x66, 0x83, 0xE8, 0x02, 0x66, 0x0F, 0xB6, 0x5E, 0x0D, 0x8B, 0xF3, 0x66, 0xF7, 0xE3, 0x66, 0x03],
     [0x46, 0xFC, 0x66, 0x0F, 0xA4, 0xC2, 0x10, 0xFB, 0xBB, 0, 0x07, 0x8B, 0xFB, 0xB9, 0x01, 0],
     [0xE8, 0xBE, 0xFC, 0x0F, 0x82, 0xAA, 0xFC, 0x38, 0x2D, 0x74, 0x1E, 0xB1, 0x0B, 0x56, 0xBE, 0xD8],
     [0x7D, 0xF3, 0xA6, 0x5E, 0x74, 0x19, 0x03, 0xF9, 0x83, 0xC7, 0x15, 0x3B, 0xFB, 0x72, 0xE8, 0x4E],
     [0x75, 0xD6, 0x58, 0x5A, 0xE8, 0x66, 0, 0x72, 0xAB, 0x83, 0xC4, 0x04, 0xE9, 0x64, 0xFC, 0x83],
     [0xC4, 0x04, 0x8B, 0x75, 0x09, 0x8B, 0x7D, 0x0F, 0x8B, 0xC6, 0xFA, 0x66, 0xC1, 0xE0, 0x10, 0x8B],
     [0xC7, 0x66, 0x83, 0xF8, 0x02, 0x72, 0x3B, 0x66, 0x3D, 0xF8, 0xFF, 0xFF, 0x0F, 0x73, 0x33, 0x66],
     [0x48, 0x66, 0x48, 0x66, 0x0F, 0xB6, 0x4E, 0x0D, 0x66, 0xF7, 0xE1, 0x66, 0x03, 0x46, 0xFC, 0x66],
     [0x0F, 0xA4, 0xC2, 0x10, 0xFB, 0xBB, 0, 0x07, 0x53, 0xB9, 0x04, 0, 0xE8, 0x52, 0xFC, 0x5B],
     [0x0F, 0x82, 0x3D, 0xFC, 0x81, 0x3F, 0x4D, 0x5A, 0x75, 0x08, 0x81, 0xBF, 0, 0x02, 0x42, 0x4A],
     [0x74, 0x06, 0xBE, 0x80, 0x7D, 0xE9, 0x0E, 0xFC, 0xEA, 0, 0x02, 0x70, 0, 0x03, 0xC0, 0x13],
     [0xD2, 0x03, 0xC0, 0x13, 0xD2, 0xE8, 0x18, 0, 0xFA, 0x26, 0x66, 0x8B, 0x01, 0x66, 0x25, 0xFF],
     [0xFF, 0xFF, 0x0F, 0x66, 0x0F, 0xA4, 0xC2, 0x10, 0x66, 0x3D, 0xF8, 0xFF, 0xFF, 0x0F, 0xFB, 0xC3],
     [0xBF, 0, 0x7E, 0xFA, 0x66, 0xC1, 0xE0, 0x10, 0x66, 0x0F, 0xAC, 0xD0, 0x10, 0x66, 0x0F, 0xB7],
     [0x4E, 0x0B, 0x66, 0x33, 0xD2, 0x66, 0xF7, 0xF1, 0x66, 0x3B, 0x46, 0xF8, 0x74, 0x44, 0x66, 0x89],
     [0x46, 0xF8, 0x66, 0x03, 0x46, 0x1C, 0x66, 0x0F, 0xB7, 0x4E, 0x0E, 0x66, 0x03, 0xC1, 0x66, 0x0F],
     [0xB7, 0x5E, 0x28, 0x83, 0xE3, 0x0F, 0x74, 0x16, 0x3A, 0x5E, 0x10, 0x0F, 0x83, 0xA4, 0xFB, 0x52],
     [0x66, 0x8B, 0xC8, 0x66, 0x8B, 0x46, 0x24, 0x66, 0xF7, 0xE3, 0x66, 0x03, 0xC1, 0x5A, 0x52, 0x66],
     [0x0F, 0xA4, 0xC2, 0x10, 0xFB, 0x8B, 0xDF, 0xB9, 0x01, 0, 0xE8, 0xB4, 0xFB, 0x5A, 0x0F, 0x82],
     [0x9F, 0xFB, 0xFB, 0x8B, 0xDA, 0xC3, 0, 0, 0, 0, 0, 0, 0, 0, 0, 0],
     [0, 0, 0, 0, 0, 0, 0, 0, 0, 0, 0, 0, 0, 0, 0, 0],
     [0, 0, 0, 0, 0, 0, 0, 0, 0, 0, 0, 0, 0, 0, 0, 0],
     [0, 0, 0, 0, 0, 0, 0, 0, 0, 0, 0, 0, 0, 0, 0, 0],
     [0, 0, 0, 0, 0, 0, 0, 0, 0, 0, 0, 0, 0, 0, 0, 0],
     [0, 0, 0, 0, 0, 0, 0, 0, 0, 0, 0, 0, 0, 0, 0, 0],
     [0, 0, 0, 0, 0, 0, 0, 0, 0, 0, 0, 0, 0, 0, 0, 0],
     [0, 0, 0, 0, 0, 0, 0, 0, 0, 0, 0, 0, 0, 0, 0x55, 0xAA]]"

definition br_fat32pe_0x52 :: bytes where
  "br_fat32pe_0x52 = concat [
     [0x46, 0x41, 0x54, 0x33, 0x32, 0x20, 0x20, 0x20, 0x33, 0xC9, 0x8E, 0xD1, 0xBC, 0xF4, 0x7B, 0x8E],
     [0xC1, 0x8E, 0xD9, 0xBD, 0, 0x7C, 0x88, 0x4E, 0x02, 0x8A, 0x56, 0x40, 0xB4, 0x41, 0xBB, 0xAA],
     [0x55, 0xCD, 0x13, 0x72, 0x10, 0x81, 0xFB, 0x55, 0xAA, 0x75, 0x0A, 0xF6, 0xC1, 0x01, 0x74, 0x05],
     [0xFE, 0x46, 0x02, 0xEB, 0x2D, 0x8A, 0x56, 0x40, 0xB4, 0x08, 0xCD, 0x13, 0x73, 0x05, 0xB9, 0xFF],
     [0xFF, 0x8A, 0xF1, 0x66, 0x0F, 0xB6, 0xC6, 0x40, 0x66, 0x0F, 0xB6, 0xD1, 0x80, 0xE2, 0x3F, 0xF7],
     [0xE2, 0x86, 0xCD, 0xC0, 0xED, 0x06, 0x41, 0x66, 0x0F, 0xB7, 0xC9, 0x66, 0xF7, 0xE1, 0x66, 0x89],
     [0x46, 0xF8, 0x83, 0x7E, 0x16, 0, 0x75, 0x38, 0x83, 0x7E, 0x2A, 0, 0x77, 0x32, 0x66, 0x8B],
     [0x46, 0x1C, 0x66, 0x83, 0xC0, 0x0C, 0xBB, 0, 0x80, 0xB9, 0x01, 0, 0xE8, 0x2B, 0, 0xE9],
     [0x2C, 0x03, 0xA0, 0xFA, 0x7D, 0xB4, 0x7D, 0x8B, 0xF0, 0xAC, 0x84, 0xC0, 0x74, 0x17, 0x3C, 0xFF],
     [0x74, 0x09, 0xB4, 0x0E, 0xBB, 0x07, 0, 0xCD, 0x10, 0xEB, 0xEE, 0xA0, 0xFB, 0x7D, 0xEB, 0xE5],
     [0xA0, 0xF9, 0x7D, 0xEB, 0xE0, 0x98, 0xCD, 0x16, 0xCD, 0x19, 0x66, 0x60, 0x80, 0x7E, 0x02, 0],
     [0x0F, 0x84, 0x20, 0, 0x66, 0x6A, 0, 0x66, 0x50, 0x06, 0x53, 0x66, 0x68, 0x10, 0, 0x01],
     [0, 0xB4, 0x42, 0x8A, 0x56, 0x40, 0x8B, 0xF4, 0xCD, 0x13, 0x66, 0x58, 0x66, 0x58, 0x66, 0x58],
     [0x66, 0x58, 0xEB, 0x33, 0x66, 0x3B, 0x46, 0xF8, 0x72, 0x03, 0xF9, 0xEB, 0x2A, 0x66, 0x33, 0xD2],
     [0x66, 0x0F, 0xB7, 0x4E, 0x18, 0x66, 0xF7, 0xF1, 0xFE, 0xC2, 0x8A, 0xCA, 0x66, 0x8B, 0xD0, 0x66],
     [0xC1, 0xEA, 0x10, 0xF7, 0x76, 0x1A, 0x86, 0xD6, 0x8A, 0x56, 0x40, 0x8A, 0xE8, 0xC0, 0xE4, 0x06],
     [0x0A, 0xCC, 0xB8, 0x01, 0x02, 0xCD, 0x13, 0x66, 0x61, 0x0F, 0x82, 0x75, 0xFF, 0x81, 0xC3, 0],
     [0x02, 0x66, 0x40, 0x49, 0x75, 0x94, 0xC3, 0x42, 0x4F, 0x4F, 0x54, 0x4D, 0x47, 0x52, 0x20, 0x20],
     [0x20, 0x20, 0, 0, 0, 0, 0, 0, 0, 0, 0, 0, 0, 0, 0, 0],
     [0, 0, 0, 0, 0, 0, 0, 0, 0, 0, 0, 0, 0, 0, 0, 0],
     [0, 0, 0, 0, 0, 0, 0, 0, 0, 0, 0, 0, 0, 0, 0, 0],
     [0, 0, 0, 0, 0, 0, 0, 0, 0, 0, 0x0D, 0x0A, 0x42, 0x4F, 0x4F, 0x54],
     [0x4D, 0x47, 0x52, 0x20, 0x69, 0x73, 0x20, 0x6D, 0x69, 0x73, 0x73, 0x69, 0x6E, 0x67, 0xFF, 0x0D],
     [0x0A, 0x44, 0x69, 0x73, 0x6B, 0x20, 0x65, 0x72, 0x72, 0x6F, 0x72, 0xFF, 0x0D, 0x0A, 0x50, 0x72],
     [0x65, 0x73, 0x73, 0x20, 0x61, 0x6E, 0x79, 0x20, 0x6B, 0x65, 0x79, 0x20, 0x74, 0x6F, 0x20, 0x72],
     [0x65, 0x73, 0x74, 0x61, 0x72, 0x74, 0x0D, 0x0A, 0, 0, 0, 0, 0, 0, 0, 0],
     [0, 0, 0, 0, 0, 0, 0, 0xAC, 0xC1, 0xCE, 0, 0, 0x55, 0xAA, 0x52, 0x52],
     [0x61, 0x41, 0, 0, 0, 0, 0, 0, 0, 0, 0, 0, 0, 0, 0, 0],
     [0, 0, 0, 0, 0, 0, 0, 0, 0, 0, 0, 0, 0, 0, 0, 0],
     [0, 0, 0, 0, 0, 0, 0, 0, 0, 0, 0, 0, 0, 0, 0, 0],
     [0, 0, 0, 0, 0, 0, 0, 0, 0, 0, 0, 0, 0, 0, 0, 0],
     [0, 0, 0, 0, 0, 0, 0, 0, 0, 0, 0, 0, 0, 0, 0, 0],
     [0, 0, 0, 0, 0, 0, 0, 0, 0, 0, 0, 0, 0, 0, 0, 0],
     [0, 0, 0, 0, 0, 0, 0, 0, 0, 0, 0, 0, 0, 0, 0, 0],
     [0, 0, 0, 0, 0, 0, 0, 0, 0, 0, 0, 0, 0, 0, 0, 0],
     [0, 0, 0, 0, 0, 0, 0, 0, 0, 0, 0, 0, 0, 0, 0, 0],
     [0, 0, 0, 0, 0, 0, 0, 0, 0, 0, 0, 0, 0, 0, 0, 0],
     [0, 0, 0, 0, 0, 0, 0, 0, 0, 0, 0, 0, 0, 0, 0, 0],
     [0, 0, 0, 0, 0, 0, 0, 0, 0, 0, 0, 0, 0, 0, 0, 0],
     [0, 0, 0, 0, 0, 0, 0, 0, 0, 0, 0, 0, 0, 0, 0, 0],
     [0, 0, 0, 0, 0, 0, 0, 0, 0, 0, 0, 0, 0, 0, 0, 0],
     [0, 0, 0, 0, 0, 0, 0, 0, 0, 0, 0, 0, 0, 0, 0, 0],
     [0, 0, 0, 0, 0, 0, 0, 0, 0, 0, 0, 0, 0, 0, 0, 0],
     [0, 0, 0, 0, 0, 0, 0, 0, 0, 0, 0, 0, 0, 0, 0, 0],
     [0, 0, 0, 0, 0, 0, 0, 0, 0, 0, 0, 0, 0, 0, 0, 0],
     [0, 0, 0, 0, 0, 0, 0, 0, 0, 0, 0, 0, 0, 0, 0, 0],
     [0, 0, 0, 0, 0, 0, 0, 0, 0, 0, 0, 0, 0, 0, 0, 0],
     [0, 0, 0, 0, 0, 0, 0, 0, 0, 0, 0, 0, 0, 0, 0, 0],
     [0, 0, 0, 0, 0, 0, 0, 0, 0, 0, 0, 0, 0, 0, 0, 0],
     [0, 0, 0, 0, 0, 0, 0, 0, 0, 0, 0, 0, 0, 0, 0, 0],
     [0, 0, 0, 0, 0, 0, 0, 0, 0, 0, 0, 0, 0, 0, 0, 0],
     [0, 0, 0, 0, 0, 0, 0, 0, 0, 0, 0, 0, 0, 0, 0, 0],
     [0, 0, 0, 0, 0, 0, 0, 0, 0, 0, 0, 0, 0, 0, 0, 0],
     [0, 0, 0, 0, 0, 0, 0, 0, 0, 0, 0, 0, 0, 0, 0, 0],
     [0, 0, 0, 0, 0, 0, 0, 0, 0, 0, 0, 0, 0, 0, 0, 0],
     [0, 0, 0, 0, 0, 0, 0, 0, 0, 0, 0, 0, 0, 0, 0, 0],
     [0, 0, 0, 0, 0, 0, 0, 0, 0, 0, 0, 0, 0, 0, 0, 0],
     [0, 0, 0x72, 0x72, 0x41, 0x61, 0, 0, 0, 0, 0x02]]"

definition br_fat32ros_0x1c00 :: bytes where
  "br_fat32ros_0x1c00 = concat [
     [0x66, 0x8B, 0x86, 0x2C, 0, 0x66, 0x3D, 0xF8, 0xFF, 0xFF, 0x0F, 0x72, 0x03, 0xE9, 0x6C, 0x01],
     [0xBB, 0, 0x20, 0x8E, 0xC3, 0xE8, 0x26, 0x01, 0x31, 0xDB, 0x8A, 0x9E, 0x0D, 0, 0xC1, 0xE3],
     [0x04, 0xB8, 0, 0x20, 0x8E, 0xC0, 0x31, 0xFF, 0xBE, 0xA3, 0x7F, 0xB9, 0x0B, 0, 0xF3, 0xA6],
     [0x74, 0x2B, 0x4B, 0x75, 0x03, 0xE9, 0x44, 0x01, 0x8C, 0xC0, 0x83, 0xC0, 0x02, 0x8E, 0xC0, 0x31],
     [0xFF, 0xBE, 0xA3, 0x7F, 0xB9, 0x0B, 0, 0xF3, 0xA6, 0x74, 0x12, 0x4B, 0x75, 0xEA, 0x66, 0x8B],
     [0x86, 0x2C, 0, 0xE8, 0x6C, 0, 0x66, 0x89, 0x86, 0x2C, 0, 0xEB, 0xA3, 0xBE, 0xAE, 0x7F],
     [0xE8, 0x42, 0xFF, 0x31, 0xFF, 0x31, 0xD2, 0x26, 0x8B, 0x45, 0x14, 0x66, 0xC1, 0xE0, 0x10, 0x26],
     [0x8B, 0x45, 0x1A, 0x66, 0x83, 0xF8, 0x02, 0x73, 0x03, 0xE9, 0x17, 0xFF, 0x66, 0x3D, 0xF8, 0xFF],
     [0xFF, 0x0F, 0x72, 0x03, 0xE9, 0x0C, 0xFF, 0xBB, 0x80, 0x0F, 0x8E, 0xC3, 0x66, 0x3D, 0xF8, 0xFF],
     [0xFF, 0x0F, 0x73, 0x21, 0x66, 0x50, 0x31, 0xDB, 0x06, 0xE8, 0xA2, 0, 0x07, 0x31, 0xDB, 0x8A],
     [0x9E, 0x0D, 0, 0xC1, 0xE3, 0x05, 0x8C, 0xC0, 0x01, 0xD8, 0x8E, 0xC0, 0x66, 0x58, 0x06, 0xE8],
     [0x10, 0, 0x07, 0xEB, 0xD7, 0x8A, 0x96, 0x40, 0, 0x8A, 0x36, 0xFD, 0x7D, 0xEA, 0, 0xF8],
     [0, 0, 0x66, 0xC1, 0xE0, 0x02, 0x66, 0x89, 0xC1, 0x66, 0x31, 0xD2, 0x66, 0x0F, 0xB7, 0x9E],
     [0x0B, 0, 0x66, 0x53, 0x66, 0xF7, 0xF3, 0x66, 0x0F, 0xB7, 0x9E, 0x0E, 0, 0x66, 0x01, 0xD8],
     [0x66, 0x8B, 0x9E, 0x1C, 0, 0x66, 0x01, 0xD8, 0x66, 0x5B, 0x66, 0x4B, 0x66, 0x21, 0xD9, 0x66],
     [0x0F, 0xB7, 0x9E, 0x28, 0, 0x83, 0xE3, 0x0F, 0x74, 0x18, 0x3A, 0x9E, 0x10, 0, 0x72, 0x03],
     [0xE9, 0x90, 0xFE, 0x66, 0x50, 0x66, 0x8B, 0x86, 0x24, 0, 0x66, 0xF7, 0xE3, 0x66, 0x5A, 0x66],
     [0x01, 0xD0, 0x66, 0x51, 0xBB, 0, 0x90, 0x8E, 0xC3, 0x66, 0x3B, 0x06, 0x3A, 0x7F, 0x74, 0x0C],
     [0x66, 0xA3, 0x3A, 0x7F, 0x31, 0xDB, 0xB9, 0x01, 0, 0xE8, 0xAF, 0xFD, 0x66, 0x59, 0x26, 0x67],
     [0x66, 0x8B, 0x01, 0x66, 0x25, 0xFF, 0xFF, 0xFF, 0x0F, 0xC3, 0xFF, 0xFF, 0xFF, 0xFF, 0x66, 0x48],
     [0x66, 0x48, 0x66, 0x31, 0xD2, 0x66, 0x0F, 0xB6, 0x9E, 0x0D, 0, 0x66, 0xF7, 0xE3, 0x66, 0x50],
     [0x66, 0x31, 0xD2, 0x66, 0x0F, 0xB6, 0x86, 0x10, 0, 0x66, 0xF7, 0xA6, 0x24, 0, 0x66, 0x0F],
     [0xB7, 0x9E, 0x0E, 0, 0x66, 0x01, 0xD8, 0x66, 0x03, 0x86, 0x1C, 0, 0x66, 0x5B, 0x66, 0x01],
     [0xD8, 0x31, 0xDB, 0x0F, 0xB6, 0x8E, 0x0D, 0, 0xE8, 0x60, 0xFD, 0xC3, 0xBE, 0x8B, 0x7F, 0xE8],
     [0x23, 0xFE, 0xBE, 0xD9, 0x7D, 0xE8, 0x1D, 0xFE, 0xE9, 0x0E, 0xFE, 0x66, 0x72, 0x65, 0x65, 0x6C],
     [0x64, 0x72, 0x2E, 0x73, 0x79, 0x73, 0x20, 0x6E, 0x6F, 0x74, 0x20, 0x66, 0x6F, 0x75, 0x6E, 0x64],
     [0x0D, 0x0A, 0, 0x46, 0x52, 0x45, 0x45, 0x4C, 0x44, 0x52, 0x20, 0x53, 0x59, 0x53, 0x4C, 0x6F],
     [0x61, 0x64, 0x69, 0x6E, 0x67, 0x20, 0x46, 0x72, 0x65, 0x65, 0x4C, 0x6F, 0x61, 0x64, 0x65, 0x72],
     [0x2E, 0x2E, 0x2E, 0x0D, 0x0A, 0, 0, 0, 0, 0, 0, 0, 0, 0, 0, 0],
     [0, 0, 0, 0, 0, 0, 0, 0, 0, 0, 0, 0, 0, 0, 0, 0],
     [0, 0, 0, 0, 0, 0, 0, 0, 0, 0, 0, 0, 0, 0, 0, 0],
     [0, 0, 0, 0, 0, 0, 0, 0, 0, 0, 0, 0, 0, 0, 0x55, 0xAA]]"

definition br_fat32ros_0x3f0 :: bytes where
  "br_fat32ros_0x3f0 = [0, 0, 0, 0, 0, 0, 0, 0, 0, 0, 0, 0, 0, 0, 0x55, 0xAA]"

definition br_fat32ros_0x52 :: bytes where
  "br_fat32ros_0x52 = concat [
     [0x46, 0x41, 0x54, 0x33, 0x32, 0x20, 0x20, 0x20, 0x31, 0xC0, 0x8E, 0xD8, 0x8E, 0xC0, 0x8E, 0xD0],
     [0xBD, 0, 0x7C, 0xBC, 0, 0x7C, 0x80, 0xBE, 0x40, 0, 0xFF, 0x75, 0x04, 0x88, 0x96, 0x40],
     [0, 0x83, 0xBE, 0x16, 0, 0, 0x75, 0x0F, 0x66, 0x83, 0xBE, 0x11, 0, 0, 0x75, 0x07],
     [0x83, 0xBE, 0x2A, 0, 0, 0x76, 0x03, 0xE9, 0x07, 0x01, 0xB8, 0, 0x08, 0x8A, 0x96, 0x40],
     [0, 0xCD, 0x13, 0x73, 0x05, 0xB9, 0xFF, 0xFF, 0x88, 0xCE, 0x88, 0xEB, 0x88, 0xCF, 0xC0, 0xEF],
     [0x06, 0x80, 0xE1, 0x3F, 0x66, 0x0F, 0xB6, 0xC6, 0x66, 0x0F, 0xB7, 0xDB, 0x66, 0x0F, 0xB6, 0xC9],
     [0x66, 0x40, 0x66, 0x43, 0x66, 0xF7, 0xE1, 0x66, 0xF7, 0xE3, 0x66, 0xA3, 0xB4, 0x7D, 0x66, 0xB8],
     [0x0E, 0, 0, 0, 0x66, 0x03, 0x86, 0x1C, 0, 0xB9, 0x01, 0, 0x31, 0xDB, 0x8E, 0xC3],
     [0xBB, 0, 0x7E, 0xE8, 0x03, 0, 0xE9, 0x25, 0x01, 0x06, 0x66, 0x3B, 0x06, 0xB4, 0x7D, 0x73],
     [0x1C, 0x66, 0x60, 0xB4, 0x41, 0xBB, 0xAA, 0x55, 0x8A, 0x96, 0x40, 0, 0xCD, 0x13, 0x72, 0x57],
     [0x81, 0xFB, 0x55, 0xAA, 0x75, 0x51, 0xF6, 0xC1, 0x01, 0x74, 0x4C, 0x66, 0x61, 0x66, 0x60, 0x83],
     [0xF9, 0x40, 0x76, 0x03, 0xB9, 0x40, 0, 0x89, 0x0E, 0x45, 0x7D, 0x6A, 0, 0x6A, 0, 0x66],
     [0x50, 0x06, 0x53, 0x51, 0x6A, 0x10, 0x89, 0xE6, 0x8A, 0x96, 0x40, 0, 0xB4, 0x42, 0xCD, 0x13],
     [0x72, 0x67, 0x83, 0xC4, 0x10, 0x66, 0x61, 0x53, 0x66, 0x8B, 0x1E, 0x45, 0x7D, 0x66, 0x01, 0xD8],
     [0x66, 0xC1, 0xE3, 0x05, 0x8C, 0xC2, 0x01, 0xDA, 0x8E, 0xC2, 0x5B, 0x2B, 0x0E, 0x45, 0x7D, 0x75],
     [0xBC, 0x07, 0xC3, 0, 0, 0, 0, 0x66, 0x61, 0x66, 0x60, 0x66, 0x31, 0xD2, 0x66, 0x0F],
     [0xB7, 0x8E, 0x18, 0, 0x66, 0xF7, 0xF1, 0xFE, 0xC2, 0x88, 0xD1, 0x66, 0x89, 0xC2, 0x66, 0xC1],
     [0xEA, 0x10, 0xF7, 0xB6, 0x1A, 0, 0x88, 0xD6, 0x8A, 0x96, 0x40, 0, 0x88, 0xC5, 0xD0, 0xCC],
     [0xD0, 0xCC, 0x08, 0xE1, 0xB8, 0x01, 0x02, 0xCD, 0x13, 0x72, 0x0E, 0x66, 0x61, 0x66, 0x40, 0x8C],
     [0xC2, 0x83, 0xC2, 0x20, 0x8E, 0xC2, 0xE2, 0xC1, 0xC3, 0xBE, 0xB8, 0x7D, 0xE8, 0x14, 0, 0xEB],
     [0x06, 0xBE, 0xC5, 0x7D, 0xE8, 0x0C, 0, 0xBE, 0xD9, 0x7D, 0xE8, 0x06, 0, 0x31, 0xC0, 0xCD],
     [0x16, 0xCD, 0x19, 0xAC, 0x08, 0xC0, 0x74, 0x09, 0xB4, 0x0E, 0xBB, 0x07, 0, 0xCD, 0x10, 0xEB],
     [0xF2, 0xC3, 0, 0, 0, 0, 0x44, 0x69, 0x73, 0x6B, 0x20, 0x65, 0x72, 0x72, 0x6F, 0x72],
     [0x0D, 0x0A, 0, 0x46, 0x69, 0x6C, 0x65, 0x20, 0x73, 0x79, 0x73, 0x74, 0x65, 0x6D, 0x20, 0x65],
     [0x72, 0x72, 0x6F, 0x72, 0x0D, 0x0A, 0, 0x50, 0x72, 0x65, 0x73, 0x73, 0x20, 0x61, 0x6E, 0x79],
     [0x20, 0x6B, 0x65, 0x79, 0x20, 0x74, 0x6F, 0x20, 0x72, 0x65, 0x73, 0x74, 0x61, 0x72, 0x74, 0x0D],
     [0x0A, 0, 0, 0, 0, 0, 0, 0, 0, 0, 0, 0, 0x55, 0xAA, 0x52, 0x52],
     [0x61, 0x41, 0, 0, 0, 0, 0, 0, 0, 0, 0, 0, 0, 0, 0, 0],
     [0, 0, 0, 0, 0, 0, 0, 0, 0, 0, 0, 0, 0, 0, 0, 0],
     [0, 0, 0, 0, 0, 0, 0, 0, 0, 0, 0, 0, 0, 0, 0, 0],
     [0, 0, 0, 0, 0, 0, 0, 0, 0, 0, 0, 0, 0, 0, 0, 0],
     [0, 0, 0, 0, 0, 0, 0, 0, 0, 0, 0, 0, 0, 0, 0, 0],
     [0, 0, 0, 0, 0, 0, 0, 0, 0, 0, 0, 0, 0, 0, 0, 0],
     [0, 0, 0, 0, 0, 0, 0, 0, 0, 0, 0, 0, 0, 0, 0, 0],
     [0, 0, 0, 0, 0, 0, 0, 0, 0, 0, 0, 0, 0, 0, 0, 0],
     [0, 0, 0, 0, 0, 0, 0, 0, 0, 0, 0, 0, 0, 0, 0, 0],
     [0, 0, 0, 0, 0, 0, 0, 0, 0, 0, 0, 0, 0, 0, 0, 0],
     [0, 0, 0, 0, 0, 0, 0, 0, 0, 0, 0, 0, 0, 0, 0, 0],
     [0, 0, 0, 0, 0, 0, 0, 0, 0, 0, 0, 0, 0, 0, 0, 0],
     [0, 0, 0, 0, 0, 0, 0, 0, 0, 0, 0, 0, 0, 0, 0, 0],
     [0, 0, 0, 0, 0, 0, 0, 0, 0, 0, 0, 0, 0, 0, 0, 0],
     [0, 0, 0, 0, 0, 0, 0, 0, 0, 0, 0, 0, 0, 0, 0, 0],
     [0, 0, 0, 0, 0, 0, 0, 0, 0, 0, 0, 0, 0, 0, 0, 0],
     [0, 0, 0, 0, 0, 0, 0, 0, 0, 0, 0, 0, 0, 0, 0, 0],
     [0, 0, 0, 0, 0, 0, 0, 0, 0, 0, 0, 0, 0, 0, 0, 0],
     [0, 0, 0, 0, 0, 0, 0, 0, 0, 0, 0, 0, 0, 0, 0, 0],
     [0, 0, 0, 0, 0, 0, 0, 0, 0, 0, 0, 0, 0, 0, 0, 0],
     [0, 0, 0, 0, 0, 0, 0, 0, 0, 0, 0, 0, 0, 0, 0, 0],
     [0, 0, 0, 0, 0, 0, 0, 0, 0, 0, 0, 0, 0, 0, 0, 0],
     [0, 0, 0, 0, 0, 0, 0, 0, 0, 0, 0, 0, 0, 0, 0, 0],
     [0, 0, 0, 0, 0, 0, 0, 0, 0, 0, 0, 0, 0, 0, 0, 0],
     [0, 0, 0, 0, 0, 0, 0, 0, 0, 0, 0, 0, 0, 0, 0, 0],
     [0, 0, 0, 0, 0, 0, 0, 0, 0, 0, 0, 0, 0, 0, 0, 0],
     [0, 0, 0, 0, 0, 0, 0, 0, 0, 0, 0, 0, 0, 0, 0, 0],
     [0, 0, 0, 0, 0, 0, 0, 0, 0, 0, 0, 0, 0, 0, 0, 0],
     [0, 0, 0, 0, 0, 0, 0, 0, 0, 0, 0, 0, 0, 0, 0, 0],
     [0, 0, 0, 0, 0, 0, 0, 0, 0, 0, 0, 0, 0, 0, 0, 0],
     [0, 0, 0x72, 0x72, 0x41, 0x61]]"

definition br_ntfs_0x0 :: bytes where
  "br_ntfs_0x0 = [0xEB, 0x52, 0x90, 0x4E, 0x54, 0x46, 0x53, 0x20, 0x20, 0x20, 0x20]"

definition br_ntfs_0x54 :: bytes where
  "br_ntfs_0x54 = concat [
     [0xFA, 0x33, 0xC0, 0x8E, 0xD0, 0xBC, 0, 0x7C, 0xFB, 0x68, 0xC0, 0x07, 0x1F, 0x1E, 0x68, 0x66],
     [0, 0xCB, 0x88, 0x16, 0x0E, 0, 0x66, 0x81, 0x3E, 0x03, 0, 0x4E, 0x54, 0x46, 0x53, 0x75],
     [0x15, 0xB4, 0x41, 0xBB, 0xAA, 0x55, 0xCD, 0x13, 0x72, 0x0C, 0x81, 0xFB, 0x55, 0xAA, 0x75, 0x06],
     [0xF7, 0xC1, 0x01, 0, 0x75, 0x03, 0xE9, 0xDD, 0, 0x1E, 0x83, 0xEC, 0x18, 0x68, 0x1A, 0],
     [0xB4, 0x48, 0x8A, 0x16, 0x0E, 0, 0x8B, 0xF4, 0x16, 0x1F, 0xCD, 0x13, 0x9F, 0x83, 0xC4, 0x18],
     [0x9E, 0x58, 0x1F, 0x72, 0xE1, 0x3B, 0x06, 0x0B, 0, 0x75, 0xDB, 0xA3, 0x0F, 0, 0xC1, 0x2E],
     [0x0F, 0, 0x04, 0x1E, 0x5A, 0x33, 0xDB, 0xB9, 0, 0x20, 0x2B, 0xC8, 0x66, 0xFF, 0x06, 0x11],
     [0, 0x03, 0x16, 0x0F, 0, 0x8E, 0xC2, 0xFF, 0x06, 0x16, 0, 0xE8, 0x4B, 0, 0x2B, 0xC8],
     [0x77, 0xEF, 0xB8, 0, 0xBB, 0xCD, 0x1A, 0x66, 0x23, 0xC0, 0x75, 0x2D, 0x66, 0x81, 0xFB, 0x54],
     [0x43, 0x50, 0x41, 0x75, 0x24, 0x81, 0xF9, 0x02, 0x01, 0x72, 0x1E, 0x16, 0x68, 0x07, 0xBB, 0x16],
     [0x68, 0x70, 0x0E, 0x16, 0x68, 0x09, 0, 0x66, 0x53, 0x66, 0x53, 0x66, 0x55, 0x16, 0x16, 0x16],
     [0x68, 0xB8, 0x01, 0x66, 0x61, 0x0E, 0x07, 0xCD, 0x1A, 0x33, 0xC0, 0xBF, 0x28, 0x10, 0xB9, 0xD8],
     [0x0F, 0xFC, 0xF3, 0xAA, 0xE9, 0x5F, 0x01, 0x90, 0x90, 0x66, 0x60, 0x1E, 0x06, 0x66, 0xA1, 0x11],
     [0, 0x66, 0x03, 0x06, 0x1C, 0, 0x1E, 0x66, 0x68, 0, 0, 0, 0, 0x66, 0x50, 0x06],
     [0x53, 0x68, 0x01, 0, 0x68, 0x10, 0, 0xB4, 0x42, 0x8A, 0x16, 0x0E, 0, 0x16, 0x1F, 0x8B],
     [0xF4, 0xCD, 0x13, 0x66, 0x59, 0x5B, 0x5A, 0x66, 0x59, 0x66, 0x59, 0x1F, 0x0F, 0x82, 0x16, 0],
     [0x66, 0xFF, 0x06, 0x11, 0, 0x03, 0x16, 0x0F, 0, 0x8E, 0xC2, 0xFF, 0x0E, 0x16, 0, 0x75],
     [0xBC, 0x07, 0x1F, 0x66, 0x61, 0xC3, 0xA0, 0xF8, 0x01, 0xE8, 0x09, 0, 0xA0, 0xFB, 0x01, 0xE8],
     [0x03, 0, 0xF4, 0xEB, 0xFD, 0xB4, 0x01, 0x8B, 0xF0, 0xAC, 0x3C, 0, 0x74, 0x09, 0xB4, 0x0E],
     [0xBB, 0x07, 0, 0xCD, 0x10, 0xEB, 0xF2, 0xC3, 0x0D, 0x0A, 0x41, 0x20, 0x64, 0x69, 0x73, 0x6B],
     [0x20, 0x72, 0x65, 0x61, 0x64, 0x20, 0x65, 0x72, 0x72, 0x6F, 0x72, 0x20, 0x6F, 0x63, 0x63, 0x75],
     [0x72, 0x72, 0x65, 0x64, 0, 0x0D, 0x0A, 0x42, 0x4F, 0x4F, 0x54, 0x4D, 0x47, 0x52, 0x20, 0x69],
     [0x73, 0x20, 0x6D, 0x69, 0x73, 0x73, 0x69, 0x6E, 0x67, 0, 0x0D, 0x0A, 0x42, 0x4F, 0x4F, 0x54],
     [0x4D, 0x47, 0x52, 0x20, 0x69, 0x73, 0x20, 0x63, 0x6F, 0x6D, 0x70, 0x72, 0x65, 0x73, 0x73, 0x65],
     [0x64, 0, 0x0D, 0x0A, 0x50, 0x72, 0x65, 0x73, 0x73, 0x20, 0x43, 0x74, 0x72, 0x6C, 0x2B, 0x41],
     [0x6C, 0x74, 0x2B, 0x44, 0x65, 0x6C, 0x20, 0x74, 0x6F, 0x20, 0x72, 0x65, 0x73, 0x74, 0x61, 0x72],
     [0x74, 0x0D, 0x0A, 0, 0x8C, 0xA9, 0xBE, 0xD6, 0, 0, 0x55, 0xAA, 0x07, 0, 0x42, 0],
     [0x4F, 0, 0x4F, 0, 0x54, 0, 0x4D, 0, 0x47, 0, 0x52, 0, 0x04, 0, 0x24, 0],
     [0x49, 0, 0x33, 0, 0x30, 0, 0, 0xD4, 0, 0, 0, 0x24, 0, 0, 0, 0],
     [0, 0, 0, 0, 0, 0, 0, 0, 0, 0, 0, 0, 0, 0, 0, 0],
     [0, 0, 0, 0, 0, 0, 0, 0, 0, 0, 0, 0, 0, 0, 0, 0],
     [0, 0, 0, 0, 0, 0, 0, 0, 0, 0, 0, 0, 0, 0, 0, 0],
     [0, 0, 0xEB, 0x22, 0x90, 0x90, 0x05, 0, 0x4E, 0, 0x54, 0, 0x4C, 0, 0x44, 0],
     [0x52, 0, 0, 0, 0, 0, 0, 0, 0, 0, 0, 0, 0, 0, 0, 0],
     [0, 0, 0, 0, 0, 0, 0x66, 0x0F, 0xB7, 0x06, 0x0B, 0, 0x66, 0x0F, 0xB6, 0x1E],
     [0x0D, 0, 0x66, 0xF7, 0xE3, 0x66, 0xA3, 0x52, 0x02, 0x66, 0x8B, 0x0E, 0x40, 0, 0x80, 0xF9],
     [0, 0x0F, 0x8F, 0x0E, 0, 0xF6, 0xD9, 0x66, 0xB8, 0x01, 0, 0, 0, 0x66, 0xD3, 0xE0],
     [0xEB, 0x08, 0x90, 0x66, 0xA1, 0x52, 0x02, 0x66, 0xF7, 0xE1, 0x66, 0xA3, 0x66, 0x02, 0x66, 0x0F],
     [0xB7, 0x1E, 0x0B, 0, 0x66, 0x33, 0xD2, 0x66, 0xF7, 0xF3, 0x66, 0xA3, 0x56, 0x02, 0xE8, 0x95],
     [0x04, 0x66, 0x8B, 0x0E, 0x4E, 0x02, 0x66, 0x89, 0x0E, 0x26, 0x02, 0x66, 0x03, 0x0E, 0x66, 0x02],
     [0x66, 0x89, 0x0E, 0x2A, 0x02, 0x66, 0x03, 0x0E, 0x66, 0x02, 0x66, 0x89, 0x0E, 0x2E, 0x02, 0x66],
     [0x03, 0x0E, 0x66, 0x02, 0x66, 0x89, 0x0E, 0x3E, 0x02, 0x66, 0x03, 0x0E, 0x66, 0x02, 0x66, 0x89],
     [0x0E, 0x46, 0x02, 0x66, 0xB8, 0x90, 0, 0, 0, 0x66, 0x8B, 0x0E, 0x26, 0x02, 0xE8, 0x83],
     [0x09, 0x66, 0x0B, 0xC0, 0x0F, 0x84, 0x5E, 0xFE, 0x66, 0xA3, 0x32, 0x02, 0x66, 0xB8, 0xA0, 0],
     [0, 0, 0x66, 0x8B, 0x0E, 0x2A, 0x02, 0xE8, 0x6A, 0x09, 0x66, 0xA3, 0x36, 0x02, 0x66, 0xB8],
     [0xB0, 0, 0, 0, 0x66, 0x8B, 0x0E, 0x2E, 0x02, 0xE8, 0x58, 0x09, 0x66, 0xA3, 0x3A, 0x02],
     [0x66, 0xA1, 0x32, 0x02, 0x66, 0x0B, 0xC0, 0x0F, 0x84, 0x2B, 0xFE, 0x67, 0x80, 0x78, 0x08, 0],
     [0x0F, 0x85, 0x22, 0xFE, 0x67, 0x66, 0x8D, 0x50, 0x10, 0x67, 0x03, 0x42, 0x04, 0x67, 0x66, 0x0F],
     [0xB6, 0x48, 0x0C, 0x66, 0x89, 0x0E, 0x72, 0x02, 0x67, 0x66, 0x8B, 0x48, 0x08, 0x66, 0x89, 0x0E],
     [0x6E, 0x02, 0x66, 0xA1, 0x6E, 0x02, 0x66, 0x0F, 0xB7, 0x0E, 0x0B, 0, 0x66, 0x33, 0xD2, 0x66],
     [0xF7, 0xF1, 0x66, 0xA3, 0x76, 0x02, 0x66, 0xA1, 0x46, 0x02, 0x66, 0x03, 0x06, 0x6E, 0x02, 0x66],
     [0xA3, 0x4A, 0x02, 0x66, 0x83, 0x3E, 0x36, 0x02, 0, 0x0F, 0x84, 0x1D, 0, 0x66, 0x83, 0x3E],
     [0x3A, 0x02, 0, 0x0F, 0x84, 0xCF, 0xFD, 0x66, 0x8B, 0x1E, 0x3A, 0x02, 0x1E, 0x07, 0x66, 0x8B],
     [0x3E, 0x4A, 0x02, 0x66, 0xA1, 0x2E, 0x02, 0xE8, 0xE0, 0x01, 0x66, 0x0F, 0xB7, 0x0E, 0, 0x02],
     [0x66, 0xB8, 0x02, 0x02, 0, 0, 0xE8, 0x22, 0x08, 0x66, 0x0B, 0xC0, 0x0F, 0x85, 0x16, 0],
     [0x66, 0x0F, 0xB7, 0x0E, 0x5A, 0x02, 0x66, 0xB8, 0x5C, 0x02, 0, 0, 0xE8, 0x0C, 0x08, 0x66],
     [0x0B, 0xC0, 0x0F, 0x84, 0x42, 0x0C, 0x67, 0x66, 0x8B, 0, 0x1E, 0x07, 0x66, 0x8B, 0x3E, 0x3E],
     [0x02, 0xE8, 0x3F, 0x06, 0x66, 0xA1, 0x3E, 0x02, 0x66, 0xBB, 0x20, 0, 0, 0, 0x66, 0xB9],
     [0, 0, 0, 0, 0x66, 0xBA, 0, 0, 0, 0, 0xE8, 0xE4, 0, 0x66, 0x85, 0xC0],
     [0x0F, 0x85, 0x23, 0, 0x66, 0xA1, 0x3E, 0x02, 0x66, 0xBB, 0x80, 0, 0, 0, 0x66, 0xB9],
     [0, 0, 0, 0, 0x66, 0xBA, 0, 0, 0, 0, 0xE8, 0xC4, 0, 0x66, 0x0B, 0xC0],
     [0x0F, 0x85, 0x44, 0, 0xE9, 0xF1, 0x0B, 0x66, 0x33, 0xD2, 0x66, 0xB9, 0x80, 0, 0, 0],
     [0x66, 0xA1, 0x3E, 0x02, 0xE8, 0xCA, 0x08, 0x66, 0x0B, 0xC0, 0x0F, 0x84, 0xDA, 0x0B, 0x1E, 0x07],
     [0x66, 0x8B, 0x3E, 0x3E, 0x02, 0xE8, 0xDB, 0x05, 0x66, 0xA1, 0x3E, 0x02, 0x66, 0xBB, 0x80, 0],
     [0, 0, 0x66, 0xB9, 0, 0, 0, 0, 0x66, 0xBA, 0, 0, 0, 0, 0xE8, 0x80],
     [0, 0x66, 0x0B, 0xC0, 0x0F, 0x84, 0xB0, 0x0B, 0x67, 0x66, 0x0F, 0xB7, 0x58, 0x0C, 0x66, 0x81],
     [0xE3, 0xFF, 0, 0, 0, 0x0F, 0x85, 0xA5, 0x0B, 0x66, 0x8B, 0xD8, 0x68, 0, 0x20, 0x07],
     [0x66, 0x2B, 0xFF, 0x66, 0xA1, 0x3E, 0x02, 0xE8, 0, 0x01, 0x68, 0, 0x20, 0x07, 0x66, 0x2B],
     [0xFF, 0x66, 0xA1, 0x3E, 0x02, 0xE8, 0xAC, 0x0A, 0x8A, 0x16, 0x0E, 0, 0xB8, 0xE8, 0x03, 0x8E],
     [0xC0, 0x8D, 0x36, 0x0B, 0, 0x2B, 0xC0, 0x68, 0, 0x20, 0x50, 0xCB, 0x06, 0x1E, 0x66, 0x60],
     [0x66, 0x8B, 0xDA, 0x66, 0x0F, 0xB6, 0x0E, 0x0D, 0, 0x66, 0xF7, 0xE1, 0x66, 0xA3, 0x11, 0],
     [0x66, 0x8B, 0xC3, 0x66, 0xF7, 0xE1, 0xA3, 0x16, 0, 0x8B, 0xDF, 0x83, 0xE3, 0x0F, 0x8C, 0xC0],
     [0x66, 0xC1, 0xEF, 0x04, 0x03, 0xC7, 0x50, 0x07, 0xE8, 0x3E, 0xFC, 0x66, 0x61, 0x90, 0x1F, 0x07],
     [0xC3, 0x67, 0x03, 0x40, 0x14, 0x67, 0x66, 0x83, 0x38, 0xFF, 0x0F, 0x84, 0x4C, 0, 0x67, 0x66],
     [0x39, 0x18, 0x0F, 0x85, 0x33, 0, 0x66, 0x0B, 0xC9, 0x0F, 0x85, 0x0A, 0, 0x67, 0x80, 0x78],
     [0x09, 0, 0x0F, 0x85, 0x23, 0, 0xC3, 0x67, 0x3A, 0x48, 0x09, 0x0F, 0x85, 0x1A, 0, 0x66],
     [0x8B, 0xF0, 0x67, 0x03, 0x70, 0x0A, 0xE8, 0x97, 0x06, 0x66, 0x51, 0x1E, 0x07, 0x66, 0x8B, 0xFA],
     [0xF3, 0xA7, 0x66, 0x59, 0x0F, 0x85, 0x01, 0, 0xC3, 0x67, 0x66, 0x83, 0x78, 0x04, 0, 0x0F],
     [0x84, 0x07, 0, 0x67, 0x66, 0x03, 0x40, 0x04, 0xEB, 0xAB, 0x66, 0x2B, 0xC0, 0xC3, 0x66, 0x8B],
     [0xF3, 0xE8, 0x6C, 0x06, 0x67, 0x66, 0x03, 0, 0x67, 0xF7, 0x40, 0x0C, 0x02, 0, 0x0F, 0x85],
     [0x34, 0, 0x67, 0x66, 0x8D, 0x50, 0x10, 0x67, 0x3A, 0x4A, 0x40, 0x0F, 0x85, 0x18, 0, 0x67],
     [0x66, 0x8D, 0x72, 0x42, 0xE8, 0x49, 0x06, 0x66, 0x51, 0x1E, 0x07, 0x66, 0x8B, 0xFB, 0xF3, 0xA7],
     [0x66, 0x59, 0x0F, 0x85, 0x01, 0, 0xC3, 0x67, 0x83, 0x78, 0x08, 0, 0x0F, 0x84, 0x06, 0],
     [0x67, 0x03, 0x40, 0x08, 0xEB, 0xC2, 0x66, 0x33, 0xC0, 0xC3, 0x67, 0x80, 0x7B, 0x08, 0, 0x0F],
     [0x85, 0x1C, 0, 0x06, 0x1E, 0x66, 0x60, 0x67, 0x66, 0x8D, 0x53, 0x10, 0x67, 0x66, 0x8B, 0x0A],
     [0x66, 0x8B, 0xF3, 0x67, 0x03, 0x72, 0x04, 0xF3, 0xA4, 0x66, 0x61, 0x90, 0x1F, 0x07, 0xC3, 0x66],
     [0x50, 0x67, 0x66, 0x8D, 0x53, 0x10, 0x66, 0x85, 0xC0, 0x0F, 0x85, 0x0A, 0, 0x67, 0x66, 0x8B],
     [0x4A, 0x08, 0x66, 0x41, 0xEB, 0x11, 0x90, 0x67, 0x66, 0x8B, 0x42, 0x18, 0x66, 0x33, 0xD2, 0x66],
     [0xF7, 0x36, 0x52, 0x02, 0x66, 0x8B, 0xC8, 0x66, 0x2B, 0xC0, 0x66, 0x5E, 0xE8, 0x01, 0, 0xC3],
     [0x06, 0x1E, 0x66, 0x60, 0x67, 0x80, 0x7B, 0x08, 0x01, 0x0F, 0x84, 0x03, 0, 0xE9, 0x76, 0xFB],
     [0x66, 0x83, 0xF9, 0, 0x0F, 0x85, 0x06, 0, 0x66, 0x61, 0x90, 0x1F, 0x07, 0xC3, 0x66, 0x53],
     [0x66, 0x50, 0x66, 0x51, 0x66, 0x56, 0x66, 0x57, 0x06, 0xE8, 0x91, 0x04, 0x66, 0x8B, 0xD1, 0x07],
     [0x66, 0x5F, 0x66, 0x5E, 0x66, 0x59, 0x66, 0x85, 0xC0, 0x0F, 0x84, 0x34, 0, 0x66, 0x3B, 0xCA],
     [0x0F, 0x8D, 0x03, 0, 0x66, 0x8B, 0xD1, 0xE8, 0x82, 0xFE, 0x66, 0x2B, 0xCA, 0x66, 0x8B, 0xDA],
     [0x66, 0x8B, 0xC2, 0x66, 0x0F, 0xB6, 0x16, 0x0D, 0, 0x66, 0xF7, 0xE2, 0x66, 0x0F, 0xB7, 0x16],
     [0x0B, 0, 0x66, 0xF7, 0xE2, 0x66, 0x03, 0xF8, 0x66, 0x58, 0x66, 0x03, 0xC3, 0x66, 0x5B, 0xEB],
     [0x9F, 0x66, 0x85, 0xF6, 0x0F, 0x84, 0x0E, 0xFB, 0x66, 0x51, 0x66, 0x57, 0x06, 0x67, 0x66, 0x0F],
     [0xB6, 0x43, 0x09, 0x66, 0x85, 0xC0, 0x0F, 0x84, 0x20, 0, 0x66, 0xD1, 0xE0, 0x66, 0x2B, 0xE0],
     [0x66, 0x8B, 0xFC, 0x66, 0x54, 0x66, 0x56, 0x67, 0x66, 0x0F, 0xB7, 0x73, 0x0A, 0x66, 0x03, 0xF3],
     [0x66, 0x8B, 0xC8, 0xF3, 0xA4, 0x66, 0x5E, 0xEB, 0x03, 0x90, 0x66, 0x50, 0x66, 0x50, 0x67, 0x66],
     [0x8B, 0x03, 0x66, 0x50, 0x67, 0x66, 0x8B, 0x43, 0x18, 0x66, 0x50, 0x67, 0x66, 0x8B, 0x56, 0x20],
     [0x66, 0x85, 0xD2, 0x0F, 0x84, 0x0B, 0, 0x66, 0x8B, 0xFE, 0x1E, 0x07, 0x66, 0x8B, 0xC2, 0xE8],
     [0x71, 0x03, 0x66, 0x8B, 0xC6, 0x66, 0x5A, 0x66, 0x59, 0x66, 0x42, 0x66, 0x51, 0x66, 0x56, 0xE8],
     [0x3F, 0x06, 0x66, 0x85, 0xC0, 0x0F, 0x84, 0x9D, 0xFA, 0x66, 0x5E, 0x66, 0x59, 0x66, 0x8B, 0xFE],
     [0x1E, 0x07, 0xE8, 0x4E, 0x03, 0x66, 0x8B, 0xC6, 0x66, 0x8B, 0xD9, 0x66, 0x59, 0x66, 0x5A, 0x66],
     [0x51, 0x66, 0x56, 0x66, 0xD1, 0xE9, 0xE8, 0xF8, 0xFD, 0x66, 0x85, 0xC0, 0x0F, 0x84, 0x76, 0xFA],
     [0x66, 0x5E, 0x66, 0x59, 0x66, 0x03, 0xE1, 0x07, 0x66, 0x5F, 0x66, 0x59, 0x66, 0x8B, 0xD0, 0x66],
     [0x58, 0x66, 0x5B, 0x66, 0x8B, 0xDA, 0xE9, 0xF5, 0xFE, 0x06, 0x1E, 0x66, 0x60, 0x26, 0x67, 0x66],
     [0x0F, 0xB7, 0x5F, 0x04, 0x26, 0x67, 0x66, 0x0F, 0xB7, 0x4F, 0x06, 0x66, 0x0B, 0xC9, 0x0F, 0x84],
     [0x44, 0xFA, 0x66, 0x03, 0xDF, 0x66, 0x83, 0xC3, 0x02, 0x66, 0x81, 0xC7, 0xFE, 0x01, 0, 0],
     [0x66, 0x49, 0x66, 0x0B, 0xC9, 0x0F, 0x84, 0x17, 0, 0x26, 0x67, 0x8B, 0x03, 0x26, 0x67, 0x89],
     [0x07, 0x66, 0x83, 0xC3, 0x02, 0x66, 0x81, 0xC7, 0, 0x02, 0, 0, 0x66, 0x49, 0xEB, 0xE2],
     [0x66, 0x61, 0x90, 0x1F, 0x07, 0xC3, 0x06, 0x1E, 0x66, 0x60, 0x66, 0xB8, 0x01, 0, 0, 0],
     [0x66, 0xA3, 0x22, 0x02, 0x66, 0xA1, 0x1E, 0x02, 0x66, 0x03, 0x06, 0x66, 0x02, 0x66, 0xA3, 0x6A],
     [0x02, 0x66, 0x03, 0x06, 0x66, 0x02, 0x66, 0xA3, 0x4E, 0x02, 0x66, 0xA1, 0x30, 0, 0x66, 0x0F],
     [0xB6, 0x1E, 0x0D, 0, 0x66, 0xF7, 0xE3, 0x66, 0x8B, 0x1E, 0x4E, 0x02, 0x66, 0x89, 0x07, 0x66],
     [0xA3, 0x11, 0, 0x83, 0xC3, 0x04, 0x66, 0xA1, 0x56, 0x02, 0x66, 0x89, 0x07, 0xA3, 0x16, 0],
     [0x83, 0xC3, 0x04, 0x66, 0x89, 0x1E, 0x4E, 0x02, 0x66, 0x8B, 0x1E, 0x1E, 0x02, 0x1E, 0x07, 0xE8],
     [0x67, 0xF9, 0x66, 0x8B, 0xFB, 0xE8, 0x51, 0xFF, 0x66, 0xA1, 0x1E, 0x02, 0x66, 0xBB, 0x20, 0],
     [0, 0, 0x66, 0xB9, 0, 0, 0, 0, 0x66, 0xBA, 0, 0, 0, 0, 0xE8, 0x10],
     [0xFD, 0x66, 0x0B, 0xC0, 0x0F, 0x84, 0x19, 0x01, 0x66, 0x8B, 0xD8, 0x1E, 0x07, 0x66, 0x8B, 0x3E],
     [0x1A, 0x02, 0x66, 0x33, 0xC0, 0xE8, 0xA2, 0xFD, 0x66, 0x8B, 0x1E, 0x1A, 0x02, 0x66, 0x81, 0x3F],
     [0x80, 0, 0, 0, 0x0F, 0x84, 0xEB, 0, 0x03, 0x5F, 0x04, 0xEB, 0xF0, 0x66, 0x53, 0x66],
     [0x8B, 0x47, 0x10, 0x66, 0xF7, 0x26, 0x56, 0x02, 0x66, 0x50, 0x66, 0x33, 0xD2, 0x66, 0x0F, 0xB6],
     [0x1E, 0x0D, 0, 0x66, 0xF7, 0xF3, 0x66, 0x52, 0xE8, 0xDC, 0, 0x66, 0x0B, 0xC0, 0x0F, 0x84],
     [0x44, 0xF9, 0x66, 0x8B, 0x0E, 0x56, 0x02, 0x66, 0x0F, 0xB6, 0x1E, 0x0D, 0, 0x66, 0xF7, 0xE3],
     [0x66, 0x5A, 0x66, 0x03, 0xC2, 0x66, 0x8B, 0x1E, 0x4E, 0x02, 0x66, 0x89, 0x07, 0x83, 0xC3, 0x04],
     [0x66, 0x0F, 0xB6, 0x06, 0x0D, 0, 0x66, 0x2B, 0xC2, 0x66, 0x3B, 0xC1, 0x0F, 0x86, 0x03, 0],
     [0x66, 0x8B, 0xC1, 0x66, 0x89, 0x07, 0x66, 0x2B, 0xC8, 0x66, 0x5A, 0x0F, 0x84, 0x75, 0, 0x66],
     [0x03, 0xC2, 0x66, 0x50, 0x66, 0x33, 0xD2, 0x66, 0x0F, 0xB6, 0x1E, 0x0D, 0, 0x66, 0xF7, 0xF3],
     [0x66, 0x51, 0xE8, 0x82, 0, 0x66, 0x59, 0x66, 0x0B, 0xC0, 0x0F, 0x84, 0xE8, 0xF8, 0x66, 0x0F],
     [0xB6, 0x1E, 0x0D, 0, 0x66, 0xF7, 0xE3, 0x66, 0x8B, 0x1E, 0x4E, 0x02, 0x66, 0x8B, 0x17, 0x83],
     [0xC3, 0x04, 0x66, 0x03, 0x17, 0x66, 0x3B, 0xD0, 0x0F, 0x85, 0x15, 0, 0x66, 0x0F, 0xB6, 0x06],
     [0x0D, 0, 0x66, 0x3B, 0xC1, 0x0F, 0x86, 0x03, 0, 0x66, 0x8B, 0xC1, 0x66, 0x01, 0x07, 0xEB],
     [0xA5, 0x83, 0xC3, 0x04, 0x66, 0x89, 0x1E, 0x4E, 0x02, 0x66, 0x89, 0x07, 0x83, 0xC3, 0x04, 0x66],
     [0x0F, 0xB6, 0x06, 0x0D, 0, 0x66, 0x3B, 0xC1, 0x0F, 0x86, 0x03, 0, 0x66, 0x8B, 0xC1, 0x66],
     [0x89, 0x07, 0xEB, 0x82, 0x83, 0xC3, 0x04, 0x66, 0xFF, 0x06, 0x22, 0x02, 0x66, 0x89, 0x1E, 0x4E],
     [0x02, 0x66, 0x5B, 0x03, 0x5F, 0x04, 0x66, 0x81, 0x3F, 0x80, 0, 0, 0, 0x0F, 0x84, 0x0C],
     [0xFF, 0x66, 0x61, 0x90, 0x1F, 0x07, 0xC3, 0x66, 0x8B, 0xD0, 0x66, 0x8B, 0x0E, 0x22, 0x02, 0x66],
     [0x8B, 0x36, 0x6A, 0x02, 0x66, 0x03, 0x36, 0x66, 0x02, 0x66, 0x52, 0x66, 0x51, 0x66, 0x52, 0x66],
     [0x8B, 0x1E, 0x6A, 0x02, 0x66, 0x8B, 0x3E, 0x56, 0x02, 0x66, 0x8B, 0x04, 0x66, 0xA3, 0x11, 0],
     [0x83, 0xC6, 0x04, 0x66, 0x8B, 0x04, 0xA3, 0x16, 0, 0x83, 0xC6, 0x04, 0x1E, 0x07, 0xE8, 0xE8],
     [0xF7, 0x66, 0x2B, 0xF8, 0x0F, 0x84, 0x08, 0, 0xF7, 0x26, 0x0B, 0, 0x03, 0xD8, 0xEB, 0xD9],
     [0x66, 0x8B, 0x3E, 0x6A, 0x02, 0x1E, 0x07, 0xE8, 0xBF, 0xFD, 0x66, 0xA1, 0x6A, 0x02, 0x66, 0xBB],
     [0x80, 0, 0, 0, 0x66, 0xB9, 0, 0, 0, 0, 0x66, 0x8B, 0xD1, 0xE8, 0x81, 0xFB],
     [0x66, 0x0B, 0xC0, 0x0F, 0x84, 0xFF, 0xF7, 0x66, 0x8B, 0xD8, 0x66, 0x58, 0x66, 0x56, 0xE8, 0x2C],
     [0x01, 0x66, 0x5E, 0x66, 0x0B, 0xC0, 0x0F, 0x84, 0x05, 0, 0x66, 0x5B, 0x66, 0x5B, 0xC3, 0x66],
     [0x59, 0x66, 0x5A, 0xE2, 0x84, 0x66, 0x33, 0xC0, 0xC3, 0x06, 0x1E, 0x66, 0x60, 0x66, 0x50, 0x66],
     [0x51, 0x66, 0x33, 0xD2, 0x66, 0x0F, 0xB6, 0x1E, 0x0D, 0, 0x66, 0xF7, 0xF3, 0x66, 0x52, 0x66],
     [0x57, 0xE8, 0x53, 0xFF, 0x66, 0x5F, 0x66, 0x0B, 0xC0, 0x0F, 0x84, 0xB9, 0xF7, 0x66, 0x0F, 0xB6],
     [0x1E, 0x0D, 0, 0x66, 0xF7, 0xE3, 0x66, 0x5A, 0x66, 0x03, 0xC2, 0x66, 0xA3, 0x11, 0, 0x66],
     [0x59, 0x66, 0x0F, 0xB6, 0x1E, 0x0D, 0, 0x66, 0x3B, 0xCB, 0x0F, 0x8E, 0x13, 0, 0x89, 0x1E],
     [0x16, 0, 0x66, 0x2B, 0xCB, 0x66, 0x58, 0x66, 0x03, 0xC3, 0x66, 0x50, 0x66, 0x51, 0xEB, 0x14],
     [0x90, 0x66, 0x58, 0x66, 0x03, 0xC1, 0x66, 0x50, 0x89, 0x0E, 0x16, 0, 0x66, 0xB9, 0, 0],
     [0, 0, 0x66, 0x51, 0x06, 0x66, 0x57, 0x8B, 0xDF, 0x83, 0xE3, 0x0F, 0x8C, 0xC0, 0x66, 0xC1],
     [0xEF, 0x04, 0x03, 0xC7, 0x50, 0x07, 0xE8, 0x10, 0xF7, 0x66, 0x5F, 0x07, 0x66, 0x03, 0x3E, 0x52],
     [0x02, 0x66, 0x59, 0x66, 0x58, 0x66, 0x83, 0xF9, 0, 0x0F, 0x8F, 0x70, 0xFF, 0x66, 0x61, 0x90],
     [0x1F, 0x07, 0xC3, 0x06, 0x1E, 0x66, 0x60, 0x66, 0xF7, 0x26, 0x56, 0x02, 0x66, 0x8B, 0x0E, 0x56],
     [0x02, 0xE8, 0x55, 0xFF, 0xE8, 0xD2, 0xFC, 0x66, 0x61, 0x90, 0x1F, 0x07, 0xC3, 0x06, 0x1E, 0x66],
     [0x60, 0x66, 0xF7, 0x26, 0x72, 0x02, 0x66, 0x8B, 0x1E, 0x36, 0x02, 0x66, 0x8B, 0x0E, 0x72, 0x02],
     [0x66, 0x8B, 0x36, 0x2A, 0x02, 0x1E, 0x07, 0x66, 0x8B, 0x3E, 0x46, 0x02, 0xE8, 0x81, 0xFB, 0xE8],
     [0xA7, 0xFC, 0x66, 0x61, 0x90, 0x1F, 0x07, 0xC3, 0x66, 0x50, 0x66, 0x53, 0x66, 0x51, 0x66, 0x8B],
     [0x1E, 0x4A, 0x02, 0x66, 0x8B, 0xC8, 0x66, 0xC1, 0xE8, 0x03, 0x66, 0x83, 0xE1, 0x07, 0x66, 0x03],
     [0xD8, 0x66, 0xB8, 0x01, 0, 0, 0, 0x66, 0xD3, 0xE0, 0x67, 0x84, 0x03, 0x0F, 0x84, 0x04],
     [0, 0xF8, 0xEB, 0x02, 0x90, 0xF9, 0x66, 0x59, 0x66, 0x5B, 0x66, 0x58, 0xC3, 0x67, 0x80, 0x7B],
     [0x08, 0x01, 0x0F, 0x84, 0x04, 0, 0x66, 0x2B, 0xC0, 0xC3, 0x67, 0x66, 0x8D, 0x73, 0x10, 0x67],
     [0x66, 0x8B, 0x56, 0x08, 0x66, 0x3B, 0xC2, 0x0F, 0x87, 0x0B, 0, 0x67, 0x66, 0x8B, 0x16, 0x66],
     [0x3B, 0xC2, 0x0F, 0x83, 0x04, 0, 0x66, 0x2B, 0xC0, 0xC3, 0x67, 0x03, 0x5E, 0x10, 0x66, 0x2B],
     [0xF6, 0x67, 0x80, 0x3B, 0, 0x0F, 0x84, 0x3E, 0, 0xE8, 0x81, 0, 0x66, 0x03, 0xF1, 0xE8],
     [0x39, 0, 0x66, 0x03, 0xCA, 0x66, 0x3B, 0xC1, 0x0F, 0x8C, 0x21, 0, 0x66, 0x8B, 0xD1, 0x66],
     [0x50, 0x67, 0x66, 0x0F, 0xB6, 0x0B, 0x66, 0x8B, 0xC1, 0x66, 0x83, 0xE0, 0x0F, 0x66, 0xC1, 0xE9],
     [0x04, 0x66, 0x03, 0xD9, 0x66, 0x03, 0xD8, 0x66, 0x43, 0x66, 0x58, 0xEB, 0xC4, 0x66, 0x2B, 0xC8],
     [0x66, 0x2B, 0xC2, 0x66, 0x03, 0xC6, 0xC3, 0x66, 0x2B, 0xC0, 0xC3, 0x66, 0x2B, 0xC9, 0x67, 0x8A],
     [0x0B, 0x80, 0xE1, 0x0F, 0x66, 0x83, 0xF9, 0, 0x0F, 0x85, 0x04, 0, 0x66, 0x2B, 0xC9, 0xC3],
     [0x66, 0x53, 0x66, 0x52, 0x66, 0x03, 0xD9, 0x67, 0x66, 0x0F, 0xBE, 0x13, 0x66, 0x49, 0x66, 0x4B],
     [0x66, 0x83, 0xF9, 0, 0x0F, 0x84, 0x0D, 0, 0x66, 0xC1, 0xE2, 0x08, 0x67, 0x8A, 0x13, 0x66],
     [0x4B, 0x66, 0x49, 0xEB, 0xEB, 0x66, 0x8B, 0xCA, 0x66, 0x5A, 0x66, 0x5B, 0xC3, 0x66, 0x53, 0x66],
     [0x52, 0x66, 0x2B, 0xD2, 0x67, 0x8A, 0x13, 0x66, 0x83, 0xE2, 0x0F, 0x66, 0x2B, 0xC9, 0x67, 0x8A],
     [0x0B, 0xC0, 0xE9, 0x04, 0x66, 0x83, 0xF9, 0, 0x0F, 0x85, 0x08, 0, 0x66, 0x2B, 0xC9, 0x66],
     [0x5A, 0x66, 0x5B, 0xC3, 0x66, 0x03, 0xDA, 0x66, 0x03, 0xD9, 0x67, 0x66, 0x0F, 0xBE, 0x13, 0x66],
     [0x49, 0x66, 0x4B, 0x66, 0x83, 0xF9, 0, 0x0F, 0x84, 0x0D, 0, 0x66, 0xC1, 0xE2, 0x08, 0x67],
     [0x8A, 0x13, 0x66, 0x4B, 0x66, 0x49, 0xEB, 0xEB, 0x66, 0x8B, 0xCA, 0x66, 0x5A, 0x66, 0x5B, 0xC3],
     [0x66, 0x0B, 0xC9, 0x0F, 0x85, 0x01, 0, 0xC3, 0x66, 0x51, 0x66, 0x56, 0x67, 0x83, 0x3E, 0x61],
     [0x0F, 0x8C, 0x0C, 0, 0x67, 0x83, 0x3E, 0x7A, 0x0F, 0x8F, 0x04, 0, 0x67, 0x83, 0x2E, 0x20],
     [0x66, 0x83, 0xC6, 0x02, 0xE2, 0xE6, 0x66, 0x5E, 0x66, 0x59, 0xC3, 0x66, 0x50, 0x66, 0x51, 0x66],
     [0x8B, 0xD0, 0x66, 0xA1, 0x32, 0x02, 0x67, 0x66, 0x8D, 0x58, 0x10, 0x67, 0x03, 0x43, 0x04, 0x67],
     [0x66, 0x8D, 0x40, 0x10, 0x66, 0x8B, 0xDA, 0xE8, 0x44, 0xF9, 0x66, 0x0B, 0xC0, 0x0F, 0x84, 0x05],
     [0, 0x66, 0x59, 0x66, 0x59, 0xC3, 0x66, 0xA1, 0x36, 0x02, 0x66, 0x0B, 0xC0, 0x0F, 0x85, 0x08],
     [0, 0x66, 0x59, 0x66, 0x59, 0x66, 0x33, 0xC0, 0xC3, 0x66, 0x8B, 0x16, 0x36, 0x02, 0x67, 0x66],
     [0x8D, 0x52, 0x10, 0x67, 0x66, 0x8B, 0x42, 0x18, 0x66, 0x33, 0xD2, 0x66, 0xF7, 0x36, 0x6E, 0x02],
     [0x66, 0x33, 0xF6, 0x66, 0x50, 0x66, 0x56, 0x66, 0x58, 0x66, 0x5E, 0x66, 0x3B, 0xC6, 0x0F, 0x84],
     [0x3A, 0, 0x66, 0x56, 0x66, 0x40, 0x66, 0x50, 0x66, 0x48, 0xE8, 0x1B, 0xFE, 0x72, 0xE8, 0xE8],
     [0xEB, 0xFD, 0x66, 0x5A, 0x66, 0x5E, 0x66, 0x59, 0x66, 0x5B, 0x66, 0x53, 0x66, 0x51, 0x66, 0x56],
     [0x66, 0x52, 0x66, 0xA1, 0x46, 0x02, 0x67, 0x66, 0x8D, 0x40, 0x18, 0xE8, 0xD0, 0xF8, 0x66, 0x0B],
     [0xC0, 0x74, 0xC4, 0x66, 0x59, 0x66, 0x59, 0x66, 0x59, 0x66, 0x59, 0xC3, 0x66, 0x59, 0x66, 0x59],
     [0x66, 0x33, 0xC0, 0xC3, 0x66, 0x51, 0x66, 0x50, 0x66, 0xB8, 0x05, 0, 0, 0, 0x1E, 0x07],
     [0x66, 0x8B, 0xF9, 0xE8, 0x8D, 0xFD, 0x66, 0x8B, 0xC1, 0x66, 0xBB, 0x20, 0, 0, 0, 0x66],
     [0xB9, 0, 0, 0, 0, 0x66, 0xBA, 0, 0, 0, 0, 0xE8, 0x33, 0xF8, 0x66, 0x5B],
     [0x66, 0x59, 0x66, 0x85, 0xC0, 0x0F, 0x85, 0x15, 0, 0x66, 0x8B, 0xC1, 0x66, 0x0F, 0xB7, 0x0E],
     [0x10, 0x02, 0x66, 0xBA, 0x12, 0x02, 0, 0, 0xE8, 0x16, 0xF8, 0xEB, 0x33, 0x90, 0x66, 0x33],
     [0xD2, 0x66, 0x8B, 0xC1, 0x66, 0x8B, 0xCB, 0x66, 0x50, 0x66, 0x53, 0xE8, 0x23, 0, 0x66, 0x5B],
     [0x66, 0x5F, 0x66, 0x0B, 0xC0, 0x0F, 0x84, 0x17, 0, 0x1E, 0x07, 0xE8, 0x35, 0xFD, 0x66, 0x8B],
     [0xC7, 0x66, 0x0F, 0xB7, 0x0E, 0x10, 0x02, 0x66, 0xBA, 0x12, 0x02, 0, 0, 0xE8, 0xE1, 0xF7],
     [0xC3, 0x66, 0x52, 0x66, 0x51, 0x66, 0xBB, 0x20, 0, 0, 0, 0x66, 0xB9, 0, 0, 0],
     [0, 0x66, 0xBA, 0, 0, 0, 0, 0xE8, 0xC7, 0xF7, 0x66, 0x0B, 0xC0, 0x0F, 0x84, 0x63],
     [0, 0x66, 0x8B, 0xD8, 0x1E, 0x07, 0x66, 0x8B, 0x3E, 0x1A, 0x02, 0x66, 0x33, 0xC0, 0xE8, 0x59],
     [0xF8, 0x1E, 0x07, 0x66, 0x8B, 0x1E, 0x1A, 0x02, 0x66, 0x59, 0x66, 0x5A, 0x26, 0x66, 0x39, 0x0F],
     [0x0F, 0x85, 0x0C, 0, 0x26, 0x66, 0x39, 0x57, 0x08, 0x0F, 0x84, 0x31, 0, 0xEB, 0x13, 0x90],
     [0x26, 0x66, 0x83, 0x3F, 0xFF, 0x0F, 0x84, 0x2F, 0, 0x26, 0x83, 0x7F, 0x04, 0, 0x0F, 0x84],
     [0x26, 0, 0x26, 0x66, 0x0F, 0xB7, 0x47, 0x04, 0x03, 0xD8, 0x8B, 0xC3, 0x25, 0, 0x80, 0x74],
     [0xCB, 0x8C, 0xC0, 0x05, 0, 0x08, 0x8E, 0xC0, 0x81, 0xE3, 0xFF, 0x7F, 0xEB, 0xBE, 0x26, 0x66],
     [0x8B, 0x47, 0x10, 0xC3, 0x66, 0x59, 0x66, 0x5A, 0x66, 0x33, 0xC0, 0xC3, 0x66, 0x50, 0x66, 0x51],
     [0x66, 0x8B, 0xC7, 0x66, 0xC1, 0xE8, 0x04, 0x06, 0x59, 0x03, 0xC8, 0x51, 0x07, 0x66, 0x83, 0xE7],
     [0x0F, 0x66, 0x59, 0x66, 0x58, 0xC3, 0x60, 0x06, 0xBE, 0xBD, 0x0D, 0xBF, 0, 0x20, 0x1E, 0x07],
     [0xB9, 0x0D, 0, 0x90, 0xF3, 0xA5, 0x07, 0x61, 0xC3, 0x01, 0x23, 0x45, 0x67, 0x89, 0xAB, 0xCD],
     [0xEF, 0xFE, 0xDC, 0xBA, 0x98, 0x76, 0x54, 0x32, 0x10, 0xF0, 0xE1, 0xD2, 0xC3, 0, 0, 0],
     [0, 0x20, 0x20, 0x60, 0x8B, 0x36, 0x18, 0x20, 0x26, 0x8A, 0x05, 0x88, 0x04, 0x47, 0x46, 0x66],
     [0xFF, 0x06, 0x14, 0x20, 0x81, 0xFE, 0x60, 0x20, 0x75, 0x06, 0xE8, 0x5B, 0, 0xBE, 0x20, 0x20],
     [0xE2, 0xE6, 0x89, 0x36, 0x18, 0x20, 0x61, 0xC3, 0x66, 0x60, 0x8B, 0x36, 0x18, 0x20, 0xB0, 0x80],
     [0x88, 0x04, 0x46, 0x32, 0xC0, 0x81, 0xFE, 0x60, 0x20, 0x75, 0x06, 0xE8, 0x3A, 0, 0xBE, 0x20],
     [0x20, 0x81, 0xFE, 0x58, 0x20, 0x75, 0xE9, 0x66, 0x33, 0xC0, 0x66, 0xA3, 0x58, 0x20, 0x66, 0xA1],
     [0x14, 0x20, 0x66, 0xC1, 0xE0, 0x03, 0x66, 0x0F, 0xC8, 0x66, 0xA3, 0x5C, 0x20, 0xE8, 0x18, 0],
     [0xBB, 0, 0x20, 0x66, 0x8B, 0x07, 0x66, 0x0F, 0xC8, 0x66, 0x89, 0x07, 0x83, 0xC3, 0x04, 0x81],
     [0xFB, 0x34, 0x20, 0x75, 0xEE, 0x66, 0x61, 0xC3, 0x66, 0x60, 0xBB, 0x20, 0x20, 0x66, 0x8B, 0x07],
     [0x66, 0x0F, 0xC8, 0x66, 0x89, 0x07, 0x83, 0xC3, 0x04, 0x81, 0xFB, 0x60, 0x20, 0x75, 0xEE, 0xBB],
     [0, 0x20, 0x66, 0x8B, 0x0F, 0x66, 0x8B, 0x57, 0x04, 0x66, 0x8B, 0x77, 0x08, 0x66, 0x8B, 0x7F],
     [0x0C, 0x66, 0x8B, 0x6F, 0x10, 0xBB, 0x20, 0x20, 0xC7, 0x06, 0x1A, 0x20, 0x30, 0x0F, 0xC6, 0x06],
     [0x1C, 0x20, 0x14, 0x90, 0x53, 0x8B, 0x1E, 0x1A, 0x20, 0xFF, 0x17, 0x66, 0x03, 0x47, 0x02, 0x5B],
     [0x66, 0x03, 0xE8, 0x66, 0x03, 0x2F, 0x66, 0x8B, 0xC1, 0x66, 0xC1, 0xC0, 0x05, 0x66, 0x03, 0xC5],
     [0x66, 0x8B, 0xEF, 0x66, 0x8B, 0xFE, 0x66, 0x8B, 0xF2, 0x66, 0xC1, 0xC6, 0x1E, 0x66, 0x8B, 0xD1],
     [0x66, 0x8B, 0xC8, 0x66, 0x8B, 0x07, 0x66, 0x33, 0x47, 0x08, 0x66, 0x33, 0x47, 0x20, 0x66, 0x33],
     [0x47, 0x34, 0x66, 0xD1, 0xC0, 0x66, 0x89, 0x47, 0x40, 0x83, 0xC3, 0x04, 0xFE, 0x0E, 0x1C, 0x20],
     [0x75, 0xB2, 0x83, 0x06, 0x1A, 0x20, 0x06, 0x81, 0x3E, 0x1A, 0x20, 0x48, 0x0F, 0x75, 0x9F, 0xBB],
     [0, 0x20, 0x66, 0x01, 0x0F, 0x66, 0x01, 0x57, 0x04, 0x66, 0x01, 0x77, 0x08, 0x66, 0x01, 0x7F],
     [0x0C, 0x66, 0x01, 0x6F, 0x10, 0x66, 0x61, 0xC3, 0x66, 0x8B, 0xC6, 0x66, 0x33, 0xC7, 0x66, 0x23],
     [0xC2, 0x66, 0x33, 0xC7, 0xC3, 0x66, 0x8B, 0xC2, 0x66, 0x33, 0xC6, 0x66, 0x33, 0xC7, 0xC3, 0x66],
     [0x53, 0x66, 0x8B, 0xC2, 0x66, 0x23, 0xC6, 0x66, 0x8B, 0xDA, 0x66, 0x23, 0xDF, 0x66, 0x0B, 0xC3],
     [0x66, 0x8B, 0xDE, 0x66, 0x23, 0xDF, 0x66, 0x0B, 0xC3, 0x66, 0x5B, 0xC3, 0xFC, 0x0E, 0x99, 0x79],
     [0x82, 0x5A, 0x09, 0x0F, 0xA1, 0xEB, 0xD9, 0x6E, 0x13, 0x0F, 0xDC, 0xBC, 0x1B, 0x8F, 0x09, 0x0F],
     [0xD6, 0xC1, 0x62, 0xCA, 0x06, 0x1E, 0x66, 0x60, 0x66, 0x33, 0xDB, 0xB8, 0, 0xBB, 0xCD, 0x1A],
     [0x66, 0x23, 0xC0, 0x0F, 0x85, 0xBB, 0, 0x66, 0x81, 0xFB, 0x54, 0x43, 0x50, 0x41, 0x0F, 0x85],
     [0xB0, 0, 0x81, 0xF9, 0x02, 0x01, 0x0F, 0x82, 0xA8, 0, 0x66, 0x61, 0x90, 0x1F, 0x07, 0x06],
     [0x1E, 0x66, 0x60, 0x67, 0x80, 0x7B, 0x08, 0, 0x0F, 0x85, 0x0C, 0, 0x67, 0x66, 0x8D, 0x53],
     [0x10, 0x67, 0x66, 0x8B, 0x0A, 0xEB, 0x25, 0x90, 0x67, 0x66, 0x8D, 0x53, 0x10, 0x67, 0x66, 0x8B],
     [0x4A, 0x28, 0x66, 0x81, 0xF9, 0, 0, 0x08, 0, 0x0F, 0x83, 0x0C, 0, 0x67, 0x66, 0x8B],
     [0x42, 0x2C, 0x66, 0x23, 0xC0, 0x0F, 0x84, 0x03, 0, 0x66, 0x33, 0xC9, 0x0E, 0x1F, 0xE8, 0xF5],
     [0xFD, 0x66, 0x23, 0xC9, 0x0F, 0x84, 0x32, 0, 0x66, 0xBA, 0, 0x80, 0, 0, 0x66, 0x3B],
     [0xCA, 0x0F, 0x86, 0x1F, 0, 0x66, 0x2B, 0xCA, 0x06, 0x66, 0x51, 0x66, 0x57, 0x66, 0x52, 0x66],
     [0x8B, 0xCA, 0xE8, 0xB7, 0xFD, 0xE8, 0xFB, 0xFD, 0x66, 0x5A, 0x66, 0x5F, 0x66, 0x59, 0x07, 0x66],
     [0x03, 0xFA, 0xEB, 0xDA, 0xE8, 0xA5, 0xFD, 0xE8, 0xE9, 0xFD, 0xE8, 0x0B, 0xFE, 0x0E, 0x07, 0x66],
     [0xBB, 0x54, 0x43, 0x50, 0x41, 0x66, 0xBF, 0, 0x20, 0, 0, 0x66, 0xB9, 0x14, 0, 0],
     [0, 0x66, 0xB8, 0x07, 0xBB, 0, 0, 0x66, 0xBA, 0x0A, 0, 0, 0, 0x66, 0x33, 0xF6],
     [0xCD, 0x1A, 0x66, 0x61, 0x90, 0x1F, 0x07, 0xC3, 0xA0, 0xF9, 0x01, 0xE9, 0x4B, 0xF1, 0xA0, 0xFA],
     [0x01, 0xE9, 0x45, 0xF1]]"

definition label_11_char :: bytes where
  "label_11_char = [0x4E, 0x4F, 0x20, 0x4E, 0x41, 0x4D, 0x45, 0x20, 0x20, 0x20, 0x20]"

definition mbr_2000_0x0 :: bytes where
  "mbr_2000_0x0 = concat [
     [0x33, 0xC0, 0x8E, 0xD0, 0xBC, 0, 0x7C, 0xFB, 0x50, 0x07, 0x50, 0x1F, 0xFC, 0xBE, 0x1B, 0x7C],
     [0xBF, 0x1B, 0x06, 0x50, 0x57, 0xB9, 0xE5, 0x01, 0xF3, 0xA4, 0xCB, 0xBD, 0xBE, 0x07, 0xB1, 0x04],
     [0x38, 0x6E, 0, 0x7C, 0x09, 0x75, 0x13, 0x83, 0xC5, 0x10, 0xE2, 0xF4, 0xCD, 0x18, 0x8B, 0xF5],
     [0x83, 0xC6, 0x10, 0x49, 0x74, 0x19, 0x38, 0x2C, 0x74, 0xF6, 0xA0, 0xB5, 0x07, 0xB4, 0x07, 0x8B],
     [0xF0, 0xAC, 0x3C, 0, 0x74, 0xFC, 0xBB, 0x07, 0, 0xB4, 0x0E, 0xCD, 0x10, 0xEB, 0xF2, 0x88],
     [0x4E, 0x10, 0xE8, 0x46, 0, 0x73, 0x2A, 0xFE, 0x46, 0x10, 0x80, 0x7E, 0x04, 0x0B, 0x74, 0x0B],
     [0x80, 0x7E, 0x04, 0x0C, 0x74, 0x05, 0xA0, 0xB6, 0x07, 0x75, 0xD2, 0x80, 0x46, 0x02, 0x06, 0x83],
     [0x46, 0x08, 0x06, 0x83, 0x56, 0x0A, 0, 0xE8, 0x21, 0, 0x73, 0x05, 0xA0, 0xB6, 0x07, 0xEB],
     [0xBC, 0x81, 0x3E, 0xFE, 0x7D, 0x55, 0xAA, 0x74, 0x0B, 0x80, 0x7E, 0x10, 0, 0x74, 0xC8, 0xA0],
     [0xB7, 0x07, 0xEB, 0xA9, 0x8B, 0xFC, 0x1E, 0x57, 0x8B, 0xF5, 0xCB, 0xBF, 0x05, 0, 0x8A, 0x56],
     [0, 0xB4, 0x08, 0xCD, 0x13, 0x72, 0x23, 0x8A, 0xC1, 0x24, 0x3F, 0x98, 0x8A, 0xDE, 0x8A, 0xFC],
     [0x43, 0xF7, 0xE3, 0x8B, 0xD1, 0x86, 0xD6, 0xB1, 0x06, 0xD2, 0xEE, 0x42, 0xF7, 0xE2, 0x39, 0x56],
     [0x0A, 0x77, 0x23, 0x72, 0x05, 0x39, 0x46, 0x08, 0x73, 0x1C, 0xB8, 0x01, 0x02, 0xBB, 0, 0x7C],
     [0x8B, 0x4E, 0x02, 0x8B, 0x56, 0, 0xCD, 0x13, 0x73, 0x51, 0x4F, 0x74, 0x4E, 0x32, 0xE4, 0x8A],
     [0x56, 0, 0xCD, 0x13, 0xEB, 0xE4, 0x8A, 0x56, 0, 0x60, 0xBB, 0xAA, 0x55, 0xB4, 0x41, 0xCD],
     [0x13, 0x72, 0x36, 0x81, 0xFB, 0x55, 0xAA, 0x75, 0x30, 0xF6, 0xC1, 0x01, 0x74, 0x2B, 0x61, 0x60],
     [0x6A, 0, 0x6A, 0, 0xFF, 0x76, 0x0A, 0xFF, 0x76, 0x08, 0x6A, 0, 0x68, 0, 0x7C, 0x6A],
     [0x01, 0x6A, 0x10, 0xB4, 0x42, 0x8B, 0xF4, 0xCD, 0x13, 0x61, 0x61, 0x73, 0x0E, 0x4F, 0x74, 0x0B],
     [0x32, 0xE4, 0x8A, 0x56, 0, 0xCD, 0x13, 0xEB, 0xD6, 0x61, 0xF9, 0xC3, 0x49, 0x6E, 0x76, 0x61],
     [0x6C, 0x69, 0x64, 0x20, 0x70, 0x61, 0x72, 0x74, 0x69, 0x74, 0x69, 0x6F, 0x6E, 0x20, 0x74, 0x61],
     [0x62, 0x6C, 0x65, 0, 0x45, 0x72, 0x72, 0x6F, 0x72, 0x20, 0x6C, 0x6F, 0x61, 0x64, 0x69, 0x6E],
     [0x67, 0x20, 0x6F, 0x70, 0x65, 0x72, 0x61, 0x74, 0x69, 0x6E, 0x67, 0x20, 0x73, 0x79, 0x73, 0x74],
     [0x65, 0x6D, 0, 0x4D, 0x69, 0x73, 0x73, 0x69, 0x6E, 0x67, 0x20, 0x6F, 0x70, 0x65, 0x72, 0x61],
     [0x74, 0x69, 0x6E, 0x67, 0x20, 0x73, 0x79, 0x73, 0x74, 0x65, 0x6D, 0, 0, 0, 0, 0],
     [0, 0, 0, 0, 0, 0, 0, 0, 0, 0, 0, 0, 0, 0, 0, 0],
     [0, 0, 0, 0, 0, 0, 0, 0, 0, 0, 0, 0, 0, 0, 0, 0],
     [0, 0, 0, 0, 0, 0, 0, 0, 0, 0, 0, 0, 0, 0, 0, 0],
     [0, 0, 0, 0, 0, 0x2C, 0x44, 0x63]]"

definition mbr_95b_0x0 :: bytes where
  "mbr_95b_0x0 = concat [
     [0x33, 0xC0, 0x8E, 0xD0, 0xBC, 0, 0x7C, 0xFB, 0x50, 0x07, 0x50, 0x1F, 0xFC, 0xBE, 0x1B, 0x7C],
     [0xBF, 0x1B, 0x06, 0x50, 0x57, 0xB9, 0xE5, 0x01, 0xF3, 0xA4, 0xCB, 0xBE, 0xBE, 0x07, 0xB1, 0x04],
     [0x38, 0x2C, 0x7C, 0x09, 0x75, 0x15, 0x83, 0xC6, 0x10, 0xE2, 0xF5, 0xCD, 0x18, 0x8B, 0x14, 0x8B],
     [0xEE, 0x83, 0xC6, 0x10, 0x49, 0x74, 0x16, 0x38, 0x2C, 0x74, 0xF6, 0xBE, 0x10, 0x07, 0x4E, 0xAC],
     [0x3C, 0, 0x74, 0xFA, 0xBB, 0x07, 0, 0xB4, 0x0E, 0xCD, 0x10, 0xEB, 0xF2, 0x89, 0x46, 0x25],
     [0x96, 0x8A, 0x46, 0x04, 0xB4, 0x06, 0x3C, 0x0E, 0x74, 0x11, 0xB4, 0x0B, 0x3C, 0x0C, 0x74, 0x05],
     [0x3A, 0xC4, 0x75, 0x2B, 0x40, 0xC6, 0x46, 0x25, 0x06, 0x75, 0x24, 0xBB, 0xAA, 0x55, 0x50, 0xB4],
     [0x41, 0xCD, 0x13, 0x58, 0x72, 0x16, 0x81, 0xFB, 0x55, 0xAA, 0x75, 0x10, 0xF6, 0xC1, 0x01, 0x74],
     [0x0B, 0x8A, 0xE0, 0x88, 0x56, 0x24, 0xC7, 0x06, 0xA1, 0x06, 0xEB, 0x1E, 0x88, 0x66, 0x04, 0xBF],
     [0x0A, 0, 0xB8, 0x01, 0x02, 0x8B, 0xDC, 0x33, 0xC9, 0x83, 0xFF, 0x05, 0x7F, 0x03, 0x8B, 0x4E],
     [0x25, 0x03, 0x4E, 0x02, 0xCD, 0x13, 0x72, 0x29, 0xBE, 0x46, 0x07, 0x81, 0x3E, 0xFE, 0x7D, 0x55],
     [0xAA, 0x74, 0x5A, 0x83, 0xEF, 0x05, 0x7F, 0xDA, 0x85, 0xF6, 0x75, 0x83, 0xBE, 0x27, 0x07, 0xEB],
     [0x8A, 0x98, 0x91, 0x52, 0x99, 0x03, 0x46, 0x08, 0x13, 0x56, 0x0A, 0xE8, 0x12, 0, 0x5A, 0xEB],
     [0xD5, 0x4F, 0x74, 0xE4, 0x33, 0xC0, 0xCD, 0x13, 0xEB, 0xB8]]"

definition mbr_95b_0x0e0 :: bytes where
  "mbr_95b_0x0e0 = concat [
     [0x56, 0x33, 0xF6, 0x56, 0x56, 0x52, 0x50, 0x06, 0x53, 0x51, 0xBE, 0x10, 0, 0x56, 0x8B, 0xF4],
     [0x50, 0x52, 0xB8, 0, 0x42, 0x8A, 0x56, 0x24, 0xCD, 0x13, 0x5A, 0x58, 0x8D, 0x64, 0x10, 0x72],
     [0x0A, 0x40, 0x75, 0x01, 0x42, 0x80, 0xC7, 0x02, 0xE2, 0xF7, 0xF8, 0x5E, 0xC3, 0xEB, 0x74, 0x49],
     [0x6E, 0x76, 0x61, 0x6C, 0x69, 0x64, 0x20, 0x70, 0x61, 0x72, 0x74, 0x69, 0x74, 0x69, 0x6F, 0x6E],
     [0x20, 0x74, 0x61, 0x62, 0x6C, 0x65, 0, 0x45, 0x72, 0x72, 0x6F, 0x72, 0x20, 0x6C, 0x6F, 0x61],
     [0x64, 0x69, 0x6E, 0x67, 0x20, 0x6F, 0x70, 0x65, 0x72, 0x61, 0x74, 0x69, 0x6E, 0x67, 0x20, 0x73],
     [0x79, 0x73, 0x74, 0x65, 0x6D, 0, 0x4D, 0x69, 0x73, 0x73, 0x69, 0x6E, 0x67, 0x20, 0x6F, 0x70],
     [0x65, 0x72, 0x61, 0x74, 0x69, 0x6E, 0x67, 0x20, 0x73, 0x79, 0x73, 0x74, 0x65, 0x6D, 0, 0],
     [0, 0, 0, 0, 0, 0, 0, 0, 0, 0, 0, 0, 0, 0, 0, 0],
     [0, 0, 0, 0, 0, 0, 0, 0, 0, 0, 0, 0, 0, 0, 0, 0],
     [0, 0, 0, 0x8B, 0xFC, 0x1E, 0x57, 0x8B, 0xF5, 0xCB, 0, 0, 0, 0, 0, 0],
     [0, 0, 0, 0, 0, 0, 0, 0, 0, 0, 0, 0, 0, 0, 0, 0],
     [0, 0, 0, 0, 0, 0, 0, 0, 0, 0, 0, 0, 0, 0, 0, 0],
     [0, 0, 0, 0, 0, 0, 0, 0]]"

definition mbr_dos_0x0 :: bytes where
  "mbr_dos_0x0 = concat [
     [0xFA, 0x33, 0xC0, 0x8E, 0xD0, 0xBC, 0, 0x7C, 0x8B, 0xF4, 0x50, 0x07, 0x50, 0x1F, 0xFB, 0xFC],
     [0xBF, 0, 0x06, 0xB9, 0, 0x01, 0xF3, 0xA5, 0xEA, 0x1D, 0x06, 0, 0, 0xBE, 0xBE, 0x07],
     [0xB3, 0x04, 0x80, 0x3C, 0x80, 0x74, 0x0E, 0x80, 0x3C, 0, 0x75, 0x1C, 0x83, 0xC6, 0x10, 0xFE],
     [0xCB, 0x75, 0xEF, 0xCD, 0x18, 0x8B, 0x14, 0x8B, 0x4C, 0x02, 0x8B, 0xEE, 0x83, 0xC6, 0x10, 0xFE],
     [0xCB, 0x74, 0x1A, 0x80, 0x3C, 0, 0x74, 0xF4, 0xBE, 0x8B, 0x06, 0xAC, 0x3C, 0, 0x74, 0x0B],
     [0x56, 0xBB, 0x07, 0, 0xB4, 0x0E, 0xCD, 0x10, 0x5E, 0xEB, 0xF0, 0xEB, 0xFE, 0xBF, 0x05, 0],
     [0xBB, 0, 0x7C, 0xB8, 0x01, 0x02, 0x57, 0xCD, 0x13, 0x5F, 0x73, 0x0C, 0x33, 0xC0, 0xCD, 0x13],
     [0x4F, 0x75, 0xED, 0xBE, 0xA3, 0x06, 0xEB, 0xD3, 0xBE, 0xC2, 0x06, 0xBF, 0xFE, 0x7D, 0x81, 0x3D],
     [0x55, 0xAA, 0x75, 0xC7, 0x8B, 0xF5, 0xEA, 0, 0x7C, 0, 0, 0x49, 0x6E, 0x76, 0x61, 0x6C],
     [0x69, 0x64, 0x20, 0x70, 0x61, 0x72, 0x74, 0x69, 0x74, 0x69, 0x6F, 0x6E, 0x20, 0x74, 0x61, 0x62],
     [0x6C, 0x65, 0, 0x45, 0x72, 0x72, 0x6F, 0x72, 0x20, 0x6C, 0x6F, 0x61, 0x64, 0x69, 0x6E, 0x67],
     [0x20, 0x6F, 0x70, 0x65, 0x72, 0x61, 0x74, 0x69, 0x6E, 0x67, 0x20, 0x73, 0x79, 0x73, 0x74, 0x65],
     [0x6D, 0, 0x4D, 0x69, 0x73, 0x73, 0x69, 0x6E, 0x67, 0x20, 0x6F, 0x70, 0x65, 0x72, 0x61, 0x74],
     [0x69, 0x6E, 0x67, 0x20, 0x73, 0x79, 0x73, 0x74, 0x65, 0x6D, 0, 0, 0, 0, 0, 0],
     [0, 0, 0, 0, 0, 0, 0, 0, 0, 0, 0, 0, 0, 0, 0, 0],
     [0, 0, 0, 0, 0, 0, 0, 0, 0, 0, 0, 0, 0, 0, 0, 0],
     [0, 0, 0, 0, 0, 0, 0, 0, 0, 0, 0, 0, 0, 0, 0, 0],
     [0, 0, 0, 0, 0, 0, 0, 0, 0, 0, 0, 0, 0, 0, 0, 0],
     [0, 0, 0, 0, 0, 0, 0, 0, 0, 0, 0, 0, 0, 0, 0, 0],
     [0, 0, 0, 0, 0, 0, 0, 0, 0, 0, 0, 0, 0, 0, 0, 0],
     [0, 0, 0, 0, 0, 0, 0, 0, 0, 0, 0, 0, 0, 0, 0, 0],
     [0, 0, 0, 0, 0, 0, 0, 0, 0, 0, 0, 0, 0, 0, 0, 0],
     [0, 0, 0, 0, 0, 0, 0, 0, 0, 0, 0, 0, 0, 0, 0, 0],
     [0, 0, 0, 0, 0, 0, 0, 0, 0, 0, 0, 0, 0, 0, 0, 0],
     [0, 0, 0, 0, 0, 0, 0, 0, 0, 0, 0, 0, 0, 0, 0, 0],
     [0, 0, 0, 0, 0, 0, 0, 0, 0, 0, 0, 0, 0, 0, 0, 0],
     [0, 0, 0, 0, 0, 0, 0, 0, 0, 0, 0, 0, 0, 0, 0, 0],
     [0, 0, 0, 0, 0, 0, 0, 0]]"

definition mbr_dos_f2_0x0 :: bytes where
  "mbr_dos_f2_0x0 = concat [
     [0xFA, 0x33, 0xC0, 0x8E, 0xD0, 0xBC, 0, 0x7C, 0x8B, 0xF4, 0x50, 0x07, 0x50, 0x1F, 0xFB, 0xFC],
     [0xBF, 0, 0x06, 0xB9, 0, 0x01, 0xF2, 0xA5, 0xEA, 0x1D, 0x06, 0, 0, 0xBE, 0xBE, 0x07],
     [0xB3, 0x04, 0x80, 0x3C, 0x80, 0x74, 0x0E, 0x80, 0x3C, 0, 0x75, 0x1C, 0x83, 0xC6, 0x10, 0xFE],
     [0xCB, 0x75, 0xEF, 0xCD, 0x18, 0x8B, 0x14, 0x8B, 0x4C, 0x02, 0x8B, 0xEE, 0x83, 0xC6, 0x10, 0xFE],
     [0xCB, 0x74, 0x1A, 0x80, 0x3C, 0, 0x74, 0xF4, 0xBE, 0x8B, 0x06, 0xAC, 0x3C, 0, 0x74, 0x0B],
     [0x56, 0xBB, 0x07, 0, 0xB4, 0x0E, 0xCD, 0x10, 0x5E, 0xEB, 0xF0, 0xEB, 0xFE, 0xBF, 0x05, 0],
     [0xBB, 0, 0x7C, 0xB8, 0x01, 0x02, 0x57, 0xCD, 0x13, 0x5F, 0x73, 0x0C, 0x33, 0xC0, 0xCD, 0x13],
     [0x4F, 0x75, 0xED, 0xBE, 0xA3, 0x06, 0xEB, 0xD3, 0xBE, 0xC2, 0x06, 0xBF, 0xFE, 0x7D, 0x81, 0x3D],
     [0x55, 0xAA, 0x75, 0xC7, 0x8B, 0xF5, 0xEA, 0, 0x7C, 0, 0, 0x49, 0x6E, 0x76, 0x61, 0x6C],
     [0x69, 0x64, 0x20, 0x70, 0x61, 0x72, 0x74, 0x69, 0x74, 0x69, 0x6F, 0x6E, 0x20, 0x74, 0x61, 0x62],
     [0x6C, 0x65, 0, 0x45, 0x72, 0x72, 0x6F, 0x72, 0x20, 0x6C, 0x6F, 0x61, 0x64, 0x69, 0x6E, 0x67],
     [0x20, 0x6F, 0x70, 0x65, 0x72, 0x61, 0x74, 0x69, 0x6E, 0x67, 0x20, 0x73, 0x79, 0x73, 0x74, 0x65],
     [0x6D, 0, 0x4D, 0x69, 0x73, 0x73, 0x69, 0x6E, 0x67, 0x20, 0x6F, 0x70, 0x65, 0x72, 0x61, 0x74],
     [0x69, 0x6E, 0x67, 0x20, 0x73, 0x79, 0x73, 0x74, 0x65, 0x6D, 0, 0, 0, 0, 0, 0],
     [0, 0, 0, 0, 0, 0, 0, 0, 0, 0, 0, 0, 0, 0, 0, 0],
     [0, 0, 0, 0, 0, 0, 0, 0, 0, 0, 0, 0, 0, 0, 0, 0],
     [0, 0, 0, 0, 0, 0, 0, 0, 0, 0, 0, 0, 0, 0, 0, 0],
     [0, 0, 0, 0, 0, 0, 0, 0, 0, 0, 0, 0, 0, 0, 0, 0],
     [0, 0, 0, 0, 0, 0, 0, 0, 0, 0, 0, 0, 0, 0, 0, 0],
     [0, 0, 0, 0, 0, 0, 0, 0, 0, 0, 0, 0, 0, 0, 0, 0],
     [0, 0, 0, 0, 0, 0, 0, 0, 0, 0, 0, 0, 0, 0, 0, 0],
     [0, 0, 0, 0, 0, 0, 0, 0, 0, 0, 0, 0, 0, 0, 0, 0],
     [0, 0, 0, 0, 0, 0, 0, 0, 0, 0, 0, 0, 0, 0, 0, 0],
     [0, 0, 0, 0, 0, 0, 0, 0, 0, 0, 0, 0, 0, 0, 0, 0],
     [0, 0, 0, 0, 0, 0, 0, 0, 0, 0, 0, 0, 0, 0, 0, 0],
     [0, 0, 0, 0, 0, 0, 0, 0, 0, 0, 0, 0, 0, 0, 0, 0],
     [0, 0, 0, 0, 0, 0, 0, 0, 0, 0, 0, 0, 0, 0, 0, 0],
     [0, 0, 0, 0, 0, 0, 0, 0]]"

definition mbr_gpt_syslinux_0x0 :: bytes where
  "mbr_gpt_syslinux_0x0 = concat [
     [0x33, 0xC0, 0xFA, 0x8E, 0xD8, 0x8E, 0xD0, 0xBC, 0, 0x7C, 0x89, 0xE6, 0x06, 0x57, 0x8E, 0xC0],
     [0xFB, 0xFC, 0xBF, 0, 0x06, 0xB9, 0, 0x01, 0xF3, 0xA5, 0xEA, 0x1F, 0x06, 0, 0, 0x52],
     [0x89, 0xE5, 0x83, 0xEC, 0x1C, 0x6A, 0x1E, 0xC7, 0x46, 0xFA, 0, 0x02, 0x52, 0xB4, 0x41, 0xBB],
     [0xAA, 0x55, 0x31, 0xC9, 0x30, 0xF6, 0xF9, 0xCD, 0x13, 0x5A, 0xB4, 0x08, 0x72, 0x17, 0x81, 0xFB],
     [0x55, 0xAA, 0x75, 0x11, 0xD1, 0xE9, 0x73, 0x0D, 0x66, 0xC7, 0x06, 0x59, 0x07, 0xB4, 0x42, 0xEB],
     [0x13, 0xB4, 0x48, 0x89, 0xE6, 0xCD, 0x13, 0x83, 0xE1, 0x3F, 0x51, 0x0F, 0xB6, 0xC6, 0x40, 0xF7],
     [0xE1, 0x52, 0x50, 0x66, 0x31, 0xC0, 0x66, 0x99, 0x40, 0xE8, 0xDC, 0, 0x8B, 0x4E, 0x56, 0x8B],
     [0x46, 0x5A, 0x50, 0x51, 0xF7, 0xE1, 0xF7, 0x76, 0xFA, 0x91, 0x41, 0x66, 0x8B, 0x46, 0x4E, 0x66],
     [0x8B, 0x56, 0x52, 0x53, 0xE8, 0xC4, 0, 0xE2, 0xFB, 0x31, 0xF6, 0x5F, 0x59, 0x58, 0x66, 0x8B],
     [0x15, 0x66, 0x0B, 0x55, 0x04, 0x66, 0x0B, 0x55, 0x08, 0x66, 0x0B, 0x55, 0x0C, 0x74, 0x0C, 0xF6],
     [0x45, 0x30, 0x04, 0x74, 0x06, 0x21, 0xF6, 0x75, 0x19, 0x89, 0xFE, 0x01, 0xC7, 0xE2, 0xDF, 0x21],
     [0xF6, 0x75, 0x2E, 0xE8, 0xE1, 0, 0x4D, 0x69, 0x73, 0x73, 0x69, 0x6E, 0x67, 0x20, 0x4F, 0x53],
     [0x0D, 0x0A, 0xE8, 0xD2, 0, 0x4D, 0x75, 0x6C, 0x74, 0x69, 0x70, 0x6C, 0x65, 0x20, 0x61, 0x63],
     [0x74, 0x69, 0x76, 0x65, 0x20, 0x70, 0x61, 0x72, 0x74, 0x69, 0x74, 0x69, 0x6F, 0x6E, 0x73, 0x0D],
     [0x0A, 0x91, 0xBF, 0xBE, 0x07, 0x57, 0x66, 0x31, 0xC0, 0xB0, 0x80, 0x66, 0xAB, 0xB0, 0xED, 0x66],
     [0xAB, 0x66, 0x8B, 0x44, 0x20, 0x66, 0x8B, 0x54, 0x24, 0xE8, 0x40, 0, 0x66, 0x8B, 0x44, 0x28],
     [0x66, 0x8B, 0x54, 0x2C, 0x66, 0x2B, 0x44, 0x20, 0x66, 0x1B, 0x54, 0x24, 0xE8, 0x70, 0, 0xE8],
     [0x2A, 0, 0x66, 0x0F, 0xB7, 0xC1, 0x66, 0xAB, 0xF3, 0xA4, 0x5E, 0x66, 0x8B, 0x44, 0x34, 0x66],
     [0x8B, 0x54, 0x38, 0xE8, 0x22, 0, 0x81, 0x3E, 0xFE, 0x7D, 0x55, 0xAA, 0x75, 0x85, 0x89, 0xEC],
     [0x5A, 0x5F, 0x07, 0x66, 0xB8, 0x21, 0x47, 0x50, 0x54, 0xFA, 0xFF, 0xE4, 0x66, 0x21, 0xD2, 0x74],
     [0x04, 0x66, 0x83, 0xC8, 0xFF, 0x66, 0xAB, 0xC3, 0xBB, 0, 0x7C, 0x66, 0x60, 0x66, 0x52, 0x66],
     [0x50, 0x06, 0x53, 0x6A, 0x01, 0x6A, 0x10, 0x89, 0xE6, 0x66, 0xF7, 0x76, 0xDC, 0xC0, 0xE4, 0x06],
     [0x88, 0xE1, 0x88, 0xC5, 0x92, 0xF6, 0x76, 0xE0, 0x88, 0xC6, 0x08, 0xE1, 0x41, 0xB8, 0x01, 0x02],
     [0x8A, 0x56, 0, 0xCD, 0x13, 0x8D, 0x64, 0x10, 0x66, 0x61, 0x72, 0x0C, 0x02, 0x7E, 0xFB, 0x66],
     [0x83, 0xC0, 0x01, 0x66, 0x83, 0xD2, 0, 0xC3, 0xE8, 0x0C, 0, 0x44, 0x69, 0x73, 0x6B, 0x20],
     [0x65, 0x72, 0x72, 0x6F, 0x72, 0x0D, 0x0A, 0x5E, 0xAC, 0xB4, 0x0E, 0x8A, 0x3E, 0x62, 0x04, 0xB3],
     [0x07, 0xCD, 0x10, 0x3C, 0x0A, 0x75, 0xF1, 0xCD, 0x18, 0xF4, 0xEB, 0xFD, 0, 0, 0, 0],
     [0, 0, 0, 0, 0, 0, 0, 0]]"

definition mbr_grub_0x0 :: bytes where
  "mbr_grub_0x0 = concat [
     [0xEB, 0x5E, 0x90, 0, 0, 0, 0, 0, 0, 0, 0, 0, 0, 0, 0, 0],
     [0, 0, 0, 0, 0, 0, 0, 0, 0, 0, 0, 0, 0, 0, 0, 0],
     [0, 0, 0, 0, 0, 0, 0, 0, 0, 0, 0, 0, 0, 0, 0, 0],
     [0, 0, 0, 0, 0, 0, 0, 0, 0, 0, 0, 0, 0, 0, 0, 0],
     [0, 0, 0, 0, 0, 0, 0, 0, 0, 0, 0, 0, 0, 0, 0, 0],
     [0, 0, 0, 0, 0, 0, 0, 0, 0, 0, 0x80, 0, 0x20, 0x39, 0xFF, 0xFF],
     [0x31, 0xDB, 0x8E, 0xD3, 0xBC, 0x80, 0x05, 0xE8, 0, 0, 0x5B, 0x81, 0xEB, 0x6A, 0, 0xC1],
     [0xEB, 0x04, 0x8C, 0xC8, 0x01, 0xC3, 0x53, 0x68, 0x7B, 0, 0xCB, 0x68, 0, 0x20, 0x17, 0xBC],
     [0, 0x90, 0x80, 0xFA, 0, 0x74, 0x02, 0xB2, 0x80, 0x16, 0x07, 0xB0, 0x10, 0x30, 0xF6, 0x31],
     [0xDB, 0xE8, 0xC2, 0, 0x72, 0x29, 0x0E, 0x1F, 0x31, 0xF6, 0x31, 0xFF, 0xB9, 0xDF, 0, 0xFC],
     [0xF3, 0xA5, 0xBB, 0xFC, 0x1F, 0x66, 0xB8, 0x47, 0x52, 0x55, 0xAA, 0x66, 0x39, 0x07, 0x75, 0x03],
     [0xE8, 0xB6, 0x19, 0xEA, 0xB8, 0, 0, 0x20, 0x16, 0x1F, 0x66, 0x39, 0x07, 0x74, 0x1F, 0x80],
     [0xF2, 0x80, 0x68, 0xC0, 0x07, 0x07, 0xB0, 0x10, 0x30, 0xF6, 0x31, 0xDB, 0xE8, 0x87, 0, 0x72],
     [0x05, 0xEA, 0, 0, 0xC0, 0x07, 0xBE, 0x92, 0x01, 0xE8, 0xAF, 0, 0xEB, 0xFE, 0xBE, 0xBE],
     [0x01, 0xE8, 0x14, 0x10, 0xF6, 0x06, 0xA4, 0x01, 0x80, 0x0F, 0x84, 0x8A, 0x19, 0x83, 0xC6, 0x0C],
     [0x81, 0xFE, 0xFE, 0x01, 0x72, 0xEB, 0x77, 0x2D, 0xF6, 0x06, 0xA7, 0x01, 0x01, 0x0F, 0x85, 0x3C],
     [0x17, 0x80, 0x0E, 0xA7, 0x01, 0x01, 0xF6, 0x06, 0xA7, 0x01, 0x02, 0x75, 0xD4, 0x68, 0, 0x0D],
     [0x07, 0xB0, 0x04, 0x31, 0xD2, 0x31, 0xDB, 0xE8, 0x3C, 0, 0x73, 0xC2, 0xBE, 0xCB, 0x1C, 0xE8],
     [0x69, 0, 0xE9, 0x18, 0x17, 0xF6, 0x06, 0xA7, 0x01, 0x01, 0x0F, 0x85, 0x0F, 0x17, 0x80, 0x0E],
     [0xA7, 0x01, 0x01, 0xE9, 0xF0, 0x16, 0x1E, 0x06, 0x52, 0x56, 0x57, 0x55, 0xF9, 0xCD, 0x13, 0x5D],
     [0x5F, 0x5E, 0x5A, 0x07, 0x1F, 0xC3, 0xFA, 0xB8, 0, 0x20, 0x8E, 0xD0, 0xBC, 0xDC, 0x8F, 0xFB],
     [0x66, 0x61, 0x07, 0x1F, 0xEB, 0x97, 0xB4, 0x02, 0xBF, 0x03, 0, 0xB9, 0x01, 0, 0x60, 0x50],
     [0x53, 0x51, 0xFE, 0xC8, 0, 0xC1, 0xD0, 0xE0, 0, 0xC7, 0xB0, 0x01, 0xE8, 0xC7, 0xFF, 0x59],
     [0x5B, 0x58, 0x72, 0x04, 0xFE, 0xC8, 0x75, 0xE7, 0x61, 0x73, 0x0B, 0x60, 0x31, 0xC0, 0xE8, 0xB5],
     [0xFF, 0x61, 0x4F, 0x75, 0xD9, 0xF9, 0xC3, 0xB4, 0x0E, 0xCD, 0x10, 0x2E, 0xAC, 0x3C, 0, 0x75],
     [0xF6, 0xC3, 0x0D, 0x0A, 0x4D, 0x69, 0x73, 0x73, 0x69, 0x6E, 0x67, 0x20, 0x68, 0x65, 0x6C, 0x70],
     [0x65, 0x72, 0x2E, 0, 0, 0x3F, 0xFF]]"

definition mbr_grub2_0x0 :: bytes where
  "mbr_grub2_0x0 = concat [
     [0xEB, 0x63, 0x90, 0, 0, 0, 0, 0, 0, 0, 0, 0, 0, 0, 0, 0],
     [0, 0, 0, 0, 0, 0, 0, 0, 0, 0, 0, 0, 0, 0, 0, 0],
     [0, 0, 0, 0, 0, 0, 0, 0, 0, 0, 0, 0, 0, 0, 0, 0],
     [0, 0, 0, 0, 0, 0, 0, 0, 0, 0, 0, 0, 0, 0, 0, 0],
     [0, 0, 0, 0, 0, 0, 0, 0, 0, 0, 0, 0, 0, 0, 0, 0],
     [0, 0, 0, 0, 0, 0, 0, 0, 0, 0, 0, 0x80, 0x01, 0, 0, 0],
     [0, 0, 0, 0, 0xFF, 0xFA, 0x90, 0x90, 0xF6, 0xC2, 0x80, 0x74, 0x05, 0xF6, 0xC2, 0x70],
     [0x74, 0x02, 0xB2, 0x80, 0xEA, 0x79, 0x7C, 0, 0, 0x31, 0xC0, 0x8E, 0xD8, 0x8E, 0xD0, 0xBC],
     [0, 0x20, 0xFB, 0xA0, 0x64, 0x7C, 0x3C, 0xFF, 0x74, 0x02, 0x88, 0xC2, 0x52, 0xBE, 0x80, 0x7D],
     [0xE8, 0x17, 0x01, 0xBE, 0x05, 0x7C, 0xB4, 0x41, 0xBB, 0xAA, 0x55, 0xCD, 0x13, 0x5A, 0x52, 0x72],
     [0x3D, 0x81, 0xFB, 0x55, 0xAA, 0x75, 0x37, 0x83, 0xE1, 0x01, 0x74, 0x32, 0x31, 0xC0, 0x89, 0x44],
     [0x04, 0x40, 0x88, 0x44, 0xFF, 0x89, 0x44, 0x02, 0xC7, 0x04, 0x10, 0, 0x66, 0x8B, 0x1E, 0x5C],
     [0x7C, 0x66, 0x89, 0x5C, 0x08, 0x66, 0x8B, 0x1E, 0x60, 0x7C, 0x66, 0x89, 0x5C, 0x0C, 0xC7, 0x44],
     [0x06, 0, 0x70, 0xB4, 0x42, 0xCD, 0x13, 0x72, 0x05, 0xBB, 0, 0x70, 0xEB, 0x76, 0xB4, 0x08],
     [0xCD, 0x13, 0x73, 0x0D, 0x5A, 0x84, 0xD2, 0x0F, 0x83, 0xD8, 0, 0xBE, 0x8B, 0x7D, 0xE9, 0x82],
     [0, 0x66, 0x0F, 0xB6, 0xC6, 0x88, 0x64, 0xFF, 0x40, 0x66, 0x89, 0x44, 0x04, 0x0F, 0xB6, 0xD1],
     [0xC1, 0xE2, 0x02, 0x88, 0xE8, 0x88, 0xF4, 0x40, 0x89, 0x44, 0x08, 0x0F, 0xB6, 0xC2, 0xC0, 0xE8],
     [0x02, 0x66, 0x89, 0x04, 0x66, 0xA1, 0x60, 0x7C, 0x66, 0x09, 0xC0, 0x75, 0x4E, 0x66, 0xA1, 0x5C],
     [0x7C, 0x66, 0x31, 0xD2, 0x66, 0xF7, 0x34, 0x88, 0xD1, 0x31, 0xD2, 0x66, 0xF7, 0x74, 0x04, 0x3B],
     [0x44, 0x08, 0x7D, 0x37, 0xFE, 0xC1, 0x88, 0xC5, 0x30, 0xC0, 0xC1, 0xE8, 0x02, 0x08, 0xC1, 0x88],
     [0xD0, 0x5A, 0x88, 0xC6, 0xBB, 0, 0x70, 0x8E, 0xC3, 0x31, 0xDB, 0xB8, 0x01, 0x02, 0xCD, 0x13],
     [0x72, 0x1E, 0x8C, 0xC3, 0x60, 0x1E, 0xB9, 0, 0x01, 0x8E, 0xDB, 0x31, 0xF6, 0xBF, 0, 0x80],
     [0x8E, 0xC6, 0xFC, 0xF3, 0xA5, 0x1F, 0x61, 0xFF, 0x26, 0x5A, 0x7C, 0xBE, 0x86, 0x7D, 0xEB, 0x03],
     [0xBE, 0x95, 0x7D, 0xE8, 0x34, 0, 0xBE, 0x9A, 0x7D, 0xE8, 0x2E, 0, 0xCD, 0x18, 0xEB, 0xFE],
     [0x47, 0x52, 0x55, 0x42, 0x20, 0, 0x47, 0x65, 0x6F, 0x6D, 0, 0x48, 0x61, 0x72, 0x64, 0x20],
     [0x44, 0x69, 0x73, 0x6B, 0, 0x52, 0x65, 0x61, 0x64, 0, 0x20, 0x45, 0x72, 0x72, 0x6F, 0x72],
     [0x0D, 0x0A, 0, 0xBB, 0x01, 0, 0xB4, 0x0E, 0xCD, 0x10, 0xAC, 0x3C, 0, 0x75, 0xF4, 0xC3]]"

definition mbr_kolibri_0x0 :: bytes where
  "mbr_kolibri_0x0 = concat [
     [0x33, 0xC0, 0x8E, 0xD0, 0xBC, 0, 0x7C, 0xFB, 0x50, 0x07, 0x50, 0x1F, 0xFC, 0xBE, 0x1B, 0x7C],
     [0xBF, 0x1B, 0x06, 0x50, 0x57, 0xB9, 0xE5, 0x01, 0xF3, 0xA4, 0xCB, 0xBD, 0xBE, 0x07, 0xB1, 0x04],
     [0x38, 0x6E, 0, 0x7C, 0x09, 0x75, 0x13, 0x83, 0xC5, 0x10, 0xE2, 0xF4, 0xCD, 0x18, 0x8B, 0xF5],
     [0x83, 0xC6, 0x10, 0x49, 0x74, 0x19, 0x38, 0x2C, 0x74, 0xF6, 0xA0, 0xB5, 0x07, 0xB4, 0x07, 0x8B],
     [0xF0, 0xAC, 0x3C, 0, 0x74, 0xFC, 0xBB, 0x07, 0, 0xB4, 0x0E, 0xCD, 0x10, 0xEB, 0xF2, 0x88],
     [0x4E, 0x10, 0xE8, 0x46, 0, 0x73, 0x2A, 0xFE, 0x46, 0x10, 0x80, 0x7E, 0x04, 0x0B, 0x74, 0x0B],
     [0x80, 0x7E, 0x04, 0x0C, 0x74, 0x05, 0xA0, 0xB6, 0x07, 0x75, 0xD2, 0x80, 0x46, 0x02, 0x06, 0x83],
     [0x46, 0x08, 0x06, 0x83, 0x56, 0x0A, 0, 0xE8, 0x21, 0, 0x73, 0x05, 0xA0, 0xB6, 0x07, 0xEB],
     [0xBC, 0x81, 0x3E, 0xFE, 0x7D, 0x55, 0xAA, 0x74, 0x0B, 0x80, 0x7E, 0x10, 0, 0x74, 0xC8, 0xA0],
     [0xB7, 0x07, 0xEB, 0xA9, 0x8B, 0xFC, 0x1E, 0x57, 0x8B, 0xF5, 0xCB, 0xBF, 0x05, 0, 0x90, 0x90],
     [0x90, 0x90, 0x90, 0x90, 0x90, 0x90, 0x90, 0x90, 0x90, 0x90, 0x90, 0x90, 0x90, 0x90, 0x90, 0x90],
     [0x90, 0x90, 0x90, 0x90, 0x90, 0x90, 0x90, 0x90, 0x90, 0x90, 0x90, 0x90, 0x90, 0x90, 0x90, 0x90],
     [0x90, 0x90, 0x90, 0x90, 0x90, 0x90, 0x90, 0x90, 0x90, 0x90, 0x90, 0x90, 0x90, 0x90, 0x90, 0x90],
     [0x90, 0x90, 0x90, 0x90, 0x90, 0x90, 0x90, 0x90, 0x90, 0x90, 0x90, 0x90, 0x90, 0x90, 0x90, 0x90],
     [0x90, 0x90, 0x90, 0x90, 0x90, 0x90, 0x90, 0x90, 0x90, 0x60, 0xBB, 0xAA, 0x55, 0xB4, 0x41, 0xCD],
     [0x13, 0x72, 0x36, 0x81, 0xFB, 0x55, 0xAA, 0x75, 0x30, 0xF6, 0xC1, 0x01, 0x74, 0x2B, 0x61, 0x60],
     [0x6A, 0, 0x6A, 0, 0xFF, 0x76, 0x0A, 0xFF, 0x76, 0x08, 0x6A, 0, 0x68, 0, 0x7C, 0x6A],
     [0x01, 0x6A, 0x10, 0xB4, 0x42, 0x8B, 0xF4, 0xCD, 0x13, 0x61, 0x61, 0x73, 0x0E, 0x4F, 0x74, 0x0B],
     [0x32, 0xE4, 0x52, 0xCD, 0x13, 0x5A, 0x90, 0xEB, 0xD6, 0x61, 0xF9, 0xC3, 0x49, 0x6E, 0x76, 0x61],
     [0x6C, 0x69, 0x64, 0x20, 0x70, 0x61, 0x72, 0x74, 0x69, 0x74, 0x69, 0x6F, 0x6E, 0x20, 0x74, 0x61],
     [0x62, 0x6C, 0x65, 0, 0x45, 0x72, 0x72, 0x6F, 0x72, 0x20, 0x6C, 0x6F, 0x61, 0x64, 0x69, 0x6E],
     [0x67, 0x20, 0x6F, 0x70, 0x65, 0x72, 0x61, 0x74, 0x69, 0x6E, 0x67, 0x20, 0x73, 0x79, 0x73, 0x74],
     [0x65, 0x6D, 0, 0x4D, 0x69, 0x73, 0x73, 0x69, 0x6E, 0x67, 0x20, 0x6F, 0x70, 0x65, 0x72, 0x61],
     [0x74, 0x69, 0x6E, 0x67, 0x20, 0x73, 0x79, 0x73, 0x74, 0x65, 0x6D, 0, 0, 0, 0, 0],
     [0, 0, 0, 0, 0, 0, 0, 0, 0, 0, 0, 0, 0, 0, 0, 0],
     [0, 0, 0, 0, 0, 0, 0, 0, 0, 0, 0, 0, 0, 0, 0, 0],
     [0, 0, 0, 0, 0, 0, 0, 0, 0, 0, 0, 0, 0, 0, 0, 0],
     [0, 0, 0, 0, 0, 0x2C, 0x44, 0x63]]"

definition mbr_msg_rufus_0x0 :: bytes where
  "mbr_msg_rufus_0x0 = concat [
     [0x41, 0x4B, 0x45, 0x4F, 0xFC, 0x31, 0xC0, 0xFA, 0x8E, 0xD0, 0xBC, 0, 0x7C, 0xFB, 0x8E, 0xD8],
     [0xBB, 0x13, 0x04, 0x8B, 0x07, 0x83, 0xE8, 0x04, 0x89, 0x07, 0xC1, 0xE0, 0x06, 0x8E, 0xC0, 0xB8],
     [0x03, 0, 0xCD, 0x10, 0xB4, 0x02, 0xCD, 0x10, 0xB4, 0x41, 0xBB, 0xAA, 0x55, 0x31, 0xC9, 0x31],
     [0xD2, 0xCD, 0x13, 0x72, 0x27, 0x81, 0xFB, 0x55, 0xAA, 0x75, 0x21, 0xF7, 0xC1, 0x01, 0, 0x74],
     [0x1B, 0x66, 0x31, 0xC0, 0x66, 0x50, 0x6A, 0x22, 0x06, 0x66, 0x50, 0x6A, 0x08, 0x6A, 0x10, 0x89],
     [0xE6, 0xB4, 0x42, 0xCD, 0x13, 0x9F, 0x83, 0xC4, 0x10, 0x9E, 0xEB, 0x0D, 0xB8, 0x08, 0x02, 0xB9],
     [0x23, 0, 0xBA, 0x80, 0, 0x31, 0xDB, 0xCD, 0x13, 0xBB, 0x07, 0, 0x72, 0x0B, 0x31, 0xF6],
     [0x8C, 0xC0, 0x8E, 0xD8, 0xE8, 0x3F, 0, 0xEB, 0x06, 0xBE, 0x0B, 0x7D, 0xE8, 0x37, 0, 0x31],
     [0xC0, 0x8E, 0xD8, 0xBE, 0x57, 0x7D, 0xE8, 0x2D, 0, 0xE8, 0x1D, 0, 0xB4, 0x01, 0xCD, 0x16],
     [0x75, 0x08, 0xB4, 0x02, 0xCD, 0x16, 0x24, 0x04, 0x74, 0xF2, 0x31, 0xC0, 0x8E, 0xD8, 0xB8, 0x34],
     [0x12, 0xA3, 0x73, 0x04, 0xEA, 0, 0, 0xFF, 0xFF, 0xB4, 0x01, 0xCD, 0x16, 0x74, 0x06, 0xB4],
     [0, 0xCD, 0x16, 0xE2, 0xF4, 0xC3, 0xAC, 0x3C, 0, 0x74, 0x4F, 0x3C, 0x0D, 0x74, 0xF7, 0x3C],
     [0x0A, 0x75, 0x10, 0x53, 0xB4, 0x03, 0xCD, 0x10, 0xFE, 0xC6, 0xB2, 0, 0xB4, 0x02, 0xCD, 0x10],
     [0x5B, 0xEB, 0xE3, 0x3C, 0x5C, 0x75, 0x1C, 0xB1, 0x02, 0xAC, 0x3C, 0x46, 0x7F, 0xD8, 0x2C, 0x30],
     [0x3C, 0x09, 0x7E, 0x02, 0x2C, 0x07, 0xC0, 0xE3, 0x04, 0x24, 0x0F, 0x08, 0xC3, 0xFE, 0xC9, 0x75],
     [0xE8, 0xEB, 0xC3, 0xB9, 0x01, 0, 0xB4, 0x09, 0xCD, 0x10, 0x53, 0x31, 0xDB, 0xB4, 0x03, 0xCD],
     [0x10, 0xFE, 0xC2, 0xB4, 0x02, 0xCD, 0x10, 0x5B, 0xEB, 0xAC, 0xC3, 0x0D, 0x0A, 0x20, 0x20, 0x20],
     [0x20, 0x20, 0x20, 0x20, 0x20, 0x20, 0x20, 0x20, 0x20, 0x20, 0x5C, 0x30, 0x34, 0x2A, 0x2A, 0x2A],
     [0x20, 0x45, 0x52, 0x52, 0x4F, 0x52, 0x3A, 0x20, 0x54, 0x48, 0x49, 0x53, 0x20, 0x4D, 0x45, 0x44],
     [0x49, 0x41, 0x20, 0x43, 0x41, 0x4E, 0x4E, 0x4F, 0x54, 0x20, 0x42, 0x4F, 0x4F, 0x54, 0x20, 0x49],
     [0x4E, 0x20, 0x4C, 0x45, 0x47, 0x41, 0x43, 0x59, 0x20, 0x4D, 0x4F, 0x44, 0x45, 0x20, 0x2A, 0x2A],
     [0x2A, 0x5C, 0x30, 0x37, 0x0D, 0x0A, 0, 0x0D, 0x0A, 0x0D, 0x0A, 0x20, 0x20, 0x20, 0x20, 0x20],
     [0x20, 0x20, 0x20, 0x20, 0x20, 0x20, 0x20, 0x20, 0x5C, 0x37, 0x30, 0x50, 0x6C, 0x65, 0x61, 0x73],
     [0x65, 0x20, 0x72, 0x65, 0x6D, 0x6F, 0x76, 0x65, 0x20, 0x74, 0x68, 0x69, 0x73, 0x20, 0x6D, 0x65],
     [0x64, 0x69, 0x61, 0x20, 0x61, 0x6E, 0x64, 0x20, 0x70, 0x72, 0x65, 0x73, 0x73, 0x20, 0x61, 0x6E],
     [0x79, 0x20, 0x6B, 0x65, 0x79, 0x20, 0x74, 0x6F, 0x20, 0x72, 0x65, 0x62, 0x6F, 0x6F, 0x74, 0x5C],
     [0x30, 0x37, 0, 0, 0, 0, 0, 0, 0, 0, 0, 0, 0, 0, 0, 0]]"

definition mbr_reactos_0x0 :: bytes where
  "mbr_reactos_0x0 = concat [
     [0xFA, 0xFC, 0x31, 0xC0, 0x8E, 0xD0, 0x8E, 0xD8, 0xBD, 0, 0x7C, 0x8D, 0x66, 0xE0, 0xFB, 0xB8],
     [0xE0, 0x1F, 0x8E, 0xC0, 0x89, 0xEE, 0x89, 0xEF, 0xB9, 0, 0x01, 0xF3, 0xA5, 0xEA, 0x22, 0x7C],
     [0xE0, 0x1F, 0x8E, 0xD8, 0x8E, 0xD0, 0x31, 0xC0, 0x8E, 0xC0, 0x8D, 0xBE, 0xBE, 0x01, 0xF6, 0x05],
     [0x80, 0x75, 0x6D, 0x83, 0xC7, 0x10, 0x81, 0xFF, 0xFE, 0x7D, 0x72, 0xF2, 0xE8, 0xC4, 0, 0x6E],
     [0x6F, 0x20, 0x61, 0x63, 0x74, 0x69, 0x76, 0x65, 0x20, 0x70, 0x61, 0x72, 0x74, 0x69, 0x74, 0x69],
     [0x6F, 0x6E, 0x20, 0x66, 0x6F, 0x75, 0x6E, 0x64, 0, 0xEB, 0xFE, 0xE8, 0xA5, 0, 0x72, 0x65],
     [0x61, 0x64, 0x20, 0x65, 0x72, 0x72, 0x6F, 0x72, 0x20, 0x77, 0x68, 0x69, 0x6C, 0x65, 0x20, 0x72],
     [0x65, 0x61, 0x64, 0x69, 0x6E, 0x67, 0x20, 0x64, 0x72, 0x69, 0x76, 0x65, 0, 0xEB, 0xDA, 0xE8],
     [0x81, 0, 0x70, 0x61, 0x72, 0x74, 0x69, 0x74, 0x69, 0x6F, 0x6E, 0x20, 0x73, 0x69, 0x67, 0x6E],
     [0x61, 0x74, 0x75, 0x72, 0x65, 0x20, 0x21, 0x3D, 0x20, 0x35, 0x35, 0x41, 0x41, 0, 0xEB, 0xB9],
     [0xE8, 0x10, 0, 0x72, 0xB6, 0x26, 0x81, 0x3E, 0xFE, 0x7D, 0x55, 0xAA, 0x75, 0xD1, 0xEA, 0],
     [0x7C, 0, 0, 0xBB, 0xAA, 0x55, 0xB4, 0x41, 0xCD, 0x13, 0x72, 0x32, 0x81, 0xFB, 0x55, 0xAA],
     [0x75, 0x2C, 0xF6, 0xC1, 0x01, 0x74, 0x27, 0xEB, 0x10, 0x10, 0, 0x04, 0, 0, 0x7C, 0],
     [0, 0, 0, 0, 0, 0, 0, 0, 0, 0x8B, 0x45, 0x08, 0xA3, 0xD1, 0x7C, 0x8B],
     [0x45, 0x0A, 0xA3, 0xD3, 0x7C, 0xB8, 0, 0x42, 0xBE, 0xC9, 0x7C, 0xCD, 0x13, 0xC3, 0xB8, 0x04],
     [0x02, 0xBB, 0, 0x7C, 0x8B, 0x4D, 0x02, 0x8A, 0x75, 0x01, 0xCD, 0x13, 0xC3, 0x31, 0xDB, 0xB4],
     [0x0E, 0xCD, 0x10, 0x5E, 0xAC, 0x56, 0x3C, 0, 0x75, 0xF3, 0xC3]]"

definition mbr_rufus_0x0 :: bytes where
  "mbr_rufus_0x0 = concat [
     [0x41, 0x4B, 0x45, 0x4F, 0xFC, 0x31, 0xC0, 0xFA, 0x8E, 0xD0, 0xBC, 0, 0x7C, 0xFB, 0x89, 0xE6],
     [0x89, 0xE7, 0x1E, 0x06, 0x8E, 0xD8, 0xBB, 0x13, 0x04, 0x8B, 0x07, 0x48, 0x89, 0x07, 0xC1, 0xE0],
     [0x06, 0x2D, 0xC0, 0x07, 0x8E, 0xC0, 0xB9, 0, 0x02, 0xF3, 0xA4, 0x50, 0x68, 0x30, 0x7C, 0xCB],
     [0x8E, 0xD8, 0x66, 0x31, 0xDB, 0x8E, 0xC3, 0x41, 0xBA, 0x81, 0, 0xE8, 0x89, 0, 0x72, 0x6D],
     [0xBB, 0xBE, 0x7D, 0xB9, 0x04, 0, 0x26, 0x80, 0x3F, 0, 0x7C, 0x09, 0x75, 0x05, 0x83, 0xC3],
     [0x10, 0xE2, 0xF3, 0xEB, 0x58, 0xBE, 0x94, 0x7D, 0xE8, 0xDA, 0, 0xE8, 0xCA, 0, 0xBA, 0x5A],
     [0x7D, 0xBE, 0x6E, 0x7D, 0xE8, 0xA0, 0, 0xB4, 0x01, 0xCD, 0x16, 0x75, 0x3D, 0xB4, 0x02, 0xCD],
     [0x16, 0x24, 0x04, 0x75, 0x38, 0x80, 0x3E, 0x93, 0x7D, 0, 0x7F, 0x0B, 0xBE, 0xB4, 0x7D, 0xE8],
     [0xB3, 0, 0xC6, 0x06, 0x93, 0x7D, 0x12, 0x80, 0x3E, 0x92, 0x7D, 0, 0x75, 0xD9, 0xE8, 0x89],
     [0, 0xC6, 0x06, 0xBE, 0x7D, 0x81, 0x68, 0x80, 0, 0xBA, 0x72, 0x7D, 0xBE, 0x7E, 0x7D, 0xE8],
     [0x65, 0, 0x5A, 0x07, 0x1F, 0xEA, 0, 0x7C, 0, 0, 0xE8, 0x6D, 0, 0xE8, 0x78, 0],
     [0xBB, 0xBE, 0x7D, 0x8B, 0x17, 0x52, 0xB2, 0x80, 0x8B, 0x4F, 0x02, 0x66, 0x8B, 0x5F, 0x08, 0xE8],
     [0x05, 0, 0x73, 0xD5, 0x07, 0x1F, 0xCB, 0x60, 0xB4, 0x41, 0xBB, 0xAA, 0x55, 0xCD, 0x13, 0x72],
     [0x2C, 0x81, 0xFB, 0x55, 0xAA, 0x75, 0x26, 0xF7, 0xC1, 0x01, 0, 0x74, 0x20, 0x61, 0x1E, 0x66],
     [0x31, 0xC0, 0x8E, 0xD8, 0x66, 0x50, 0x66, 0x53, 0x50, 0x68, 0, 0x7C, 0x40, 0x50, 0x6A, 0x10],
     [0x89, 0xE6, 0xB4, 0x42, 0xCD, 0x13, 0x9F, 0x83, 0xC4, 0x10, 0x9E, 0x1F, 0xC3, 0x61, 0xBB, 0],
     [0x7C, 0xB8, 0x01, 0x02, 0xCD, 0x13, 0xC3, 0xFA, 0x8B, 0x1C, 0x26, 0x66, 0x8B, 0x07, 0x66, 0x89],
     [0x04, 0x26, 0x89, 0x17, 0x26, 0x8C, 0x4F, 0x02, 0xFB, 0xC3, 0xFA, 0xBB, 0x20, 0, 0x66, 0xA1],
     [0x6E, 0x7D, 0x26, 0x66, 0x89, 0x07, 0xFB, 0xC3, 0xB4, 0x01, 0xCD, 0x16, 0x74, 0x06, 0xB4, 0],
     [0xCD, 0x16, 0xE2, 0xF4, 0xC3, 0xAC, 0x3C, 0, 0x74, 0x09, 0xB4, 0x0E, 0xBB, 0x07, 0, 0xCD],
     [0x10, 0xEB, 0xF2, 0xC3, 0x50, 0x2E, 0xA0, 0xBE, 0x7D, 0x80, 0xFA, 0x80, 0x75, 0x04, 0x88, 0xC2],
     [0xEB, 0x06, 0x38, 0xC2, 0x75, 0x02, 0xB2, 0x80, 0x58, 0xC3, 0xFA, 0x2E, 0x80, 0x3E, 0x92, 0x7D],
     [0, 0x74, 0x0A, 0x2E, 0xFE, 0x0E, 0x93, 0x7D, 0x2E, 0xFE, 0x0E, 0x92, 0x7D, 0xEA, 0x20, 0],
     [0, 0, 0x9C, 0x2E, 0xFE, 0x06, 0x91, 0x7D, 0x75, 0x03, 0xE8, 0xC7, 0xFF, 0x9A, 0x4C, 0],
     [0, 0, 0x9C, 0x2E, 0xFE, 0x0E, 0x91, 0x7D, 0x79, 0x03, 0xE8, 0xB7, 0xFF, 0x9D, 0xCA, 0x02],
     [0, 0xFF, 0x49, 0x12, 0x0D, 0x0A, 0x50, 0x72, 0x65, 0x73, 0x73, 0x20, 0x61, 0x6E, 0x79, 0x20],
     [0x6B, 0x65, 0x79, 0x20, 0x74, 0x6F, 0x20, 0x62, 0x6F, 0x6F, 0x74, 0x20, 0x66, 0x72, 0x6F, 0x6D],
     [0x20, 0x55, 0x53, 0x42, 0x2E, 0, 0, 0]]"

definition mbr_syslinux_0x0 :: bytes where
  "mbr_syslinux_0x0 = concat [
     [0x33, 0xC0, 0xFA, 0x8E, 0xD8, 0x8E, 0xD0, 0xBC, 0, 0x7C, 0x89, 0xE6, 0x06, 0x57, 0x8E, 0xC0],
     [0xFB, 0xFC, 0xBF, 0, 0x06, 0xB9, 0, 0x01, 0xF3, 0xA5, 0xEA, 0x1F, 0x06, 0, 0, 0x52],
     [0x52, 0xB4, 0x41, 0xBB, 0xAA, 0x55, 0x31, 0xC9, 0x30, 0xF6, 0xF9, 0xCD, 0x13, 0x72, 0x13, 0x81],
     [0xFB, 0x55, 0xAA, 0x75, 0x0D, 0xD1, 0xE9, 0x73, 0x09, 0x66, 0xC7, 0x06, 0x8D, 0x06, 0xB4, 0x42],
     [0xEB, 0x15, 0x5A, 0xB4, 0x08, 0xCD, 0x13, 0x83, 0xE1, 0x3F, 0x51, 0x0F, 0xB6, 0xC6, 0x40, 0xF7],
     [0xE1, 0x52, 0x50, 0x66, 0x31, 0xC0, 0x66, 0x99, 0xE8, 0x66, 0, 0xE8, 0x35, 0x01, 0x4D, 0x69],
     [0x73, 0x73, 0x69, 0x6E, 0x67, 0x20, 0x6F, 0x70, 0x65, 0x72, 0x61, 0x74, 0x69, 0x6E, 0x67, 0x20],
     [0x73, 0x79, 0x73, 0x74, 0x65, 0x6D, 0x2E, 0x0D, 0x0A, 0x66, 0x60, 0x66, 0x31, 0xD2, 0xBB, 0],
     [0x7C, 0x66, 0x52, 0x66, 0x50, 0x06, 0x53, 0x6A, 0x01, 0x6A, 0x10, 0x89, 0xE6, 0x66, 0xF7, 0x36],
     [0xF4, 0x7B, 0xC0, 0xE4, 0x06, 0x88, 0xE1, 0x88, 0xC5, 0x92, 0xF6, 0x36, 0xF8, 0x7B, 0x88, 0xC6],
     [0x08, 0xE1, 0x41, 0xB8, 0x01, 0x02, 0x8A, 0x16, 0xFA, 0x7B, 0xCD, 0x13, 0x8D, 0x64, 0x10, 0x66],
     [0x61, 0xC3, 0xE8, 0xC4, 0xFF, 0xBE, 0xBE, 0x7D, 0xBF, 0xBE, 0x07, 0xB9, 0x20, 0, 0xF3, 0xA5],
     [0xC3, 0x66, 0x60, 0x89, 0xE5, 0xBB, 0xBE, 0x07, 0xB9, 0x04, 0, 0x31, 0xC0, 0x53, 0x51, 0xF6],
     [0x07, 0x80, 0x74, 0x03, 0x40, 0x89, 0xDE, 0x83, 0xC3, 0x10, 0xE2, 0xF3, 0x48, 0x74, 0x5B, 0x79],
     [0x39, 0x59, 0x5B, 0x8A, 0x47, 0x04, 0x3C, 0x0F, 0x74, 0x06, 0x24, 0x7F, 0x3C, 0x05, 0x75, 0x22],
     [0x66, 0x8B, 0x47, 0x08, 0x66, 0x8B, 0x56, 0x14, 0x66, 0x01, 0xD0, 0x66, 0x21, 0xD2, 0x75, 0x03],
     [0x66, 0x89, 0xC2, 0xE8, 0xAC, 0xFF, 0x72, 0x03, 0xE8, 0xB6, 0xFF, 0x66, 0x8B, 0x46, 0x1C, 0xE8],
     [0xA0, 0xFF, 0x83, 0xC3, 0x10, 0xE2, 0xCC, 0x66, 0x61, 0xC3, 0xE8, 0x76, 0, 0x4D, 0x75, 0x6C],
     [0x74, 0x69, 0x70, 0x6C, 0x65, 0x20, 0x61, 0x63, 0x74, 0x69, 0x76, 0x65, 0x20, 0x70, 0x61, 0x72],
     [0x74, 0x69, 0x74, 0x69, 0x6F, 0x6E, 0x73, 0x2E, 0x0D, 0x0A, 0x66, 0x8B, 0x44, 0x08, 0x66, 0x03],
     [0x46, 0x1C, 0x66, 0x89, 0x44, 0x08, 0xE8, 0x30, 0xFF, 0x72, 0x27, 0x66, 0x81, 0x3E, 0, 0x7C],
     [0x58, 0x46, 0x53, 0x42, 0x75, 0x09, 0x66, 0x83, 0xC0, 0x04, 0xE8, 0x1C, 0xFF, 0x72, 0x13, 0x81],
     [0x3E, 0xFE, 0x7D, 0x55, 0xAA, 0x0F, 0x85, 0xF2, 0xFE, 0xBC, 0xFA, 0x7B, 0x5A, 0x5F, 0x07, 0xFA],
     [0xFF, 0xE4, 0xE8, 0x1E, 0, 0x4F, 0x70, 0x65, 0x72, 0x61, 0x74, 0x69, 0x6E, 0x67, 0x20, 0x73],
     [0x79, 0x73, 0x74, 0x65, 0x6D, 0x20, 0x6C, 0x6F, 0x61, 0x64, 0x20, 0x65, 0x72, 0x72, 0x6F, 0x72],
     [0x2E, 0x0D, 0x0A, 0x5E, 0xAC, 0xB4, 0x0E, 0x8A, 0x3E, 0x62, 0x04, 0xB3, 0x07, 0xCD, 0x10, 0x3C],
     [0x0A, 0x75, 0xF1, 0xCD, 0x18, 0xF4, 0xEB, 0xFD, 0, 0, 0, 0, 0, 0, 0, 0],
     [0, 0, 0, 0, 0, 0, 0, 0]]"

definition mbr_vista_0x0 :: bytes where
  "mbr_vista_0x0 = concat [
     [0x33, 0xC0, 0x8E, 0xD0, 0xBC, 0, 0x7C, 0x8E, 0xC0, 0x8E, 0xD8, 0xBE, 0, 0x7C, 0xBF, 0],
     [0x06, 0xB9, 0, 0x02, 0xFC, 0xF3, 0xA4, 0x50, 0x68, 0x1C, 0x06, 0xCB, 0xFB, 0xB9, 0x04, 0],
     [0xBD, 0xBE, 0x07, 0x80, 0x7E, 0, 0, 0x7C, 0x0B, 0x0F, 0x85, 0x10, 0x01, 0x83, 0xC5, 0x10],
     [0xE2, 0xF1, 0xCD, 0x18, 0x88, 0x56, 0, 0x55, 0xC6, 0x46, 0x11, 0x05, 0xC6, 0x46, 0x10, 0],
     [0xB4, 0x41, 0xBB, 0xAA, 0x55, 0xCD, 0x13, 0x5D, 0x72, 0x0F, 0x81, 0xFB, 0x55, 0xAA, 0x75, 0x09],
     [0xF7, 0xC1, 0x01, 0, 0x74, 0x03, 0xFE, 0x46, 0x10, 0x66, 0x60, 0x80, 0x7E, 0x10, 0, 0x74],
     [0x26, 0x66, 0x68, 0, 0, 0, 0, 0x66, 0xFF, 0x76, 0x08, 0x68, 0, 0, 0x68, 0],
     [0x7C, 0x68, 0x01, 0, 0x68, 0x10, 0, 0xB4, 0x42, 0x8A, 0x56, 0, 0x8B, 0xF4, 0xCD, 0x13],
     [0x9F, 0x83, 0xC4, 0x10, 0x9E, 0xEB, 0x14, 0xB8, 0x01, 0x02, 0xBB, 0, 0x7C, 0x8A, 0x56, 0],
     [0x8A, 0x76, 0x01, 0x8A, 0x4E, 0x02, 0x8A, 0x6E, 0x03, 0xCD, 0x13, 0x66, 0x61, 0x73, 0x1E, 0xFE],
     [0x4E, 0x11, 0x0F, 0x85, 0x0C, 0, 0x80, 0x7E, 0, 0x80, 0x0F, 0x84, 0x8A, 0, 0xB2, 0x80],
     [0xEB, 0x82, 0x55, 0x32, 0xE4, 0x8A, 0x56, 0, 0xCD, 0x13, 0x5D, 0xEB, 0x9C, 0x81, 0x3E, 0xFE],
     [0x7D, 0x55, 0xAA, 0x75, 0x6E, 0xFF, 0x76, 0, 0xE8, 0x8A, 0, 0x0F, 0x85, 0x15, 0, 0xB0],
     [0xD1, 0xE6, 0x64, 0xE8, 0x7F, 0, 0xB0, 0xDF, 0xE6, 0x60, 0xE8, 0x78, 0, 0xB0, 0xFF, 0xE6],
     [0x64, 0xE8, 0x71, 0, 0xB8, 0, 0xBB, 0xCD, 0x1A, 0x66, 0x23, 0xC0, 0x75, 0x3B, 0x66, 0x81],
     [0xFB, 0x54, 0x43, 0x50, 0x41, 0x75, 0x32, 0x81, 0xF9, 0x02, 0x01, 0x72, 0x2C, 0x66, 0x68, 0x07],
     [0xBB, 0, 0, 0x66, 0x68, 0, 0x02, 0, 0, 0x66, 0x68, 0x08, 0, 0, 0, 0x66],
     [0x53, 0x66, 0x53, 0x66, 0x55, 0x66, 0x68, 0, 0, 0, 0, 0x66, 0x68, 0, 0x7C, 0],
     [0, 0x66, 0x61, 0x68, 0, 0, 0x07, 0xCD, 0x1A, 0x5A, 0x32, 0xF6, 0xEA, 0, 0x7C, 0],
     [0, 0xCD, 0x18, 0xA0, 0xB7, 0x07, 0xEB, 0x08, 0xA0, 0xB6, 0x07, 0xEB, 0x03, 0xA0, 0xB5, 0x07],
     [0x32, 0xE4, 0x05, 0, 0x07, 0x8B, 0xF0, 0xAC, 0x3C, 0, 0x74, 0xFC, 0xBB, 0x07, 0, 0xB4],
     [0x0E, 0xCD, 0x10, 0xEB, 0xF2, 0x2B, 0xC9, 0xE4, 0x64, 0xEB, 0, 0x24, 0x02, 0xE0, 0xF8, 0x24],
     [0x02, 0xC3, 0x49, 0x6E, 0x76, 0x61, 0x6C, 0x69, 0x64, 0x20, 0x70, 0x61, 0x72, 0x74, 0x69, 0x74],
     [0x69, 0x6F, 0x6E, 0x20, 0x74, 0x61, 0x62, 0x6C, 0x65, 0, 0x45, 0x72, 0x72, 0x6F, 0x72, 0x20],
     [0x6C, 0x6F, 0x61, 0x64, 0x69, 0x6E, 0x67, 0x20, 0x6F, 0x70, 0x65, 0x72, 0x61, 0x74, 0x69, 0x6E],
     [0x67, 0x20, 0x73, 0x79, 0x73, 0x74, 0x65, 0x6D, 0, 0x4D, 0x69, 0x73, 0x73, 0x69, 0x6E, 0x67],
     [0x20, 0x6F, 0x70, 0x65, 0x72, 0x61, 0x74, 0x69, 0x6E, 0x67, 0x20, 0x73, 0x79, 0x73, 0x74, 0x65],
     [0x6D, 0, 0, 0, 0, 0x62, 0x7A, 0x99]]"

definition mbr_win7_0x0 :: bytes where
  "mbr_win7_0x0 = concat [
     [0x33, 0xC0, 0x8E, 0xD0, 0xBC, 0, 0x7C, 0x8E, 0xC0, 0x8E, 0xD8, 0xBE, 0, 0x7C, 0xBF, 0],
     [0x06, 0xB9, 0, 0x02, 0xFC, 0xF3, 0xA4, 0x50, 0x68, 0x1C, 0x06, 0xCB, 0xFB, 0xB9, 0x04, 0],
     [0xBD, 0xBE, 0x07, 0x80, 0x7E, 0, 0, 0x7C, 0x0B, 0x0F, 0x85, 0x0E, 0x01, 0x83, 0xC5, 0x10],
     [0xE2, 0xF1, 0xCD, 0x18, 0x88, 0x56, 0, 0x55, 0xC6, 0x46, 0x11, 0x05, 0xC6, 0x46, 0x10, 0],
     [0xB4, 0x41, 0xBB, 0xAA, 0x55, 0xCD, 0x13, 0x5D, 0x72, 0x0F, 0x81, 0xFB, 0x55, 0xAA, 0x75, 0x09],
     [0xF7, 0xC1, 0x01, 0, 0x74, 0x03, 0xFE, 0x46, 0x10, 0x66, 0x60, 0x80, 0x7E, 0x10, 0, 0x74],
     [0x26, 0x66, 0x68, 0, 0, 0, 0, 0x66, 0xFF, 0x76, 0x08, 0x68, 0, 0, 0x68, 0],
     [0x7C, 0x68, 0x01, 0, 0x68, 0x10, 0, 0xB4, 0x42, 0x8A, 0x56, 0, 0x8B, 0xF4, 0xCD, 0x13],
     [0x9F, 0x83, 0xC4, 0x10, 0x9E, 0xEB, 0x14, 0xB8, 0x01, 0x02, 0xBB, 0, 0x7C, 0x8A, 0x56, 0],
     [0x8A, 0x76, 0x01, 0x8A, 0x4E, 0x02, 0x8A, 0x6E, 0x03, 0xCD, 0x13, 0x66, 0x61, 0x73, 0x1C, 0xFE],
     [0x4E, 0x11, 0x75, 0x0C, 0x80, 0x7E, 0, 0x80, 0x0F, 0x84, 0x8A, 0, 0xB2, 0x80, 0xEB, 0x84],
     [0x55, 0x32, 0xE4, 0x8A, 0x56, 0, 0xCD, 0x13, 0x5D, 0xEB, 0x9E, 0x81, 0x3E, 0xFE, 0x7D, 0x55],
     [0xAA, 0x75, 0x6E, 0xFF, 0x76, 0, 0xE8, 0x8D, 0, 0x75, 0x17, 0xFA, 0xB0, 0xD1, 0xE6, 0x64],
     [0xE8, 0x83, 0, 0xB0, 0xDF, 0xE6, 0x60, 0xE8, 0x7C, 0, 0xB0, 0xFF, 0xE6, 0x64, 0xE8, 0x75],
     [0, 0xFB, 0xB8, 0, 0xBB, 0xCD, 0x1A, 0x66, 0x23, 0xC0, 0x75, 0x3B, 0x66, 0x81, 0xFB, 0x54],
     [0x43, 0x50, 0x41, 0x75, 0x32, 0x81, 0xF9, 0x02, 0x01, 0x72, 0x2C, 0x66, 0x68, 0x07, 0xBB, 0],
     [0, 0x66, 0x68, 0, 0x02, 0, 0, 0x66, 0x68, 0x08, 0, 0, 0, 0x66, 0x53, 0x66],
     [0x53, 0x66, 0x55, 0x66, 0x68, 0, 0, 0, 0, 0x66, 0x68, 0, 0x7C, 0, 0, 0x66],
     [0x61, 0x68, 0, 0, 0x07, 0xCD, 0x1A, 0x5A, 0x32, 0xF6, 0xEA, 0, 0x7C, 0, 0, 0xCD],
     [0x18, 0xA0, 0xB7, 0x07, 0xEB, 0x08, 0xA0, 0xB6, 0x07, 0xEB, 0x03, 0xA0, 0xB5, 0x07, 0x32, 0xE4],
     [0x05, 0, 0x07, 0x8B, 0xF0, 0xAC, 0x3C, 0, 0x74, 0x09, 0xBB, 0x07, 0, 0xB4, 0x0E, 0xCD],
     [0x10, 0xEB, 0xF2, 0xF4, 0xEB, 0xFD, 0x2B, 0xC9, 0xE4, 0x64, 0xEB, 0, 0x24, 0x02, 0xE0, 0xF8],
     [0x24, 0x02, 0xC3, 0x49, 0x6E, 0x76, 0x61, 0x6C, 0x69, 0x64, 0x20, 0x70, 0x61, 0x72, 0x74, 0x69],
     [0x74, 0x69, 0x6F, 0x6E, 0x20, 0x74, 0x61, 0x62, 0x6C, 0x65, 0, 0x45, 0x72, 0x72, 0x6F, 0x72],
     [0x20, 0x6C, 0x6F, 0x61, 0x64, 0x69, 0x6E, 0x67, 0x20, 0x6F, 0x70, 0x65, 0x72, 0x61, 0x74, 0x69],
     [0x6E, 0x67, 0x20, 0x73, 0x79, 0x73, 0x74, 0x65, 0x6D, 0, 0x4D, 0x69, 0x73, 0x73, 0x69, 0x6E],
     [0x67, 0x20, 0x6F, 0x70, 0x65, 0x72, 0x61, 0x74, 0x69, 0x6E, 0x67, 0x20, 0x73, 0x79, 0x73, 0x74],
     [0x65, 0x6D, 0, 0, 0, 0x63, 0x7B, 0x9A]]"

definition mbr_zero_0x0 :: bytes where
  "mbr_zero_0x0 = concat [
     [0, 0, 0, 0, 0, 0, 0, 0, 0, 0, 0, 0, 0, 0, 0, 0],
     [0, 0, 0, 0, 0, 0, 0, 0, 0, 0, 0, 0, 0, 0, 0, 0],
     [0, 0, 0, 0, 0, 0, 0, 0, 0, 0, 0, 0, 0, 0, 0, 0],
     [0, 0, 0, 0, 0, 0, 0, 0, 0, 0, 0, 0, 0, 0, 0, 0],
     [0, 0, 0, 0, 0, 0, 0, 0, 0, 0, 0, 0, 0, 0, 0, 0],
     [0, 0, 0, 0, 0, 0, 0, 0, 0, 0, 0, 0, 0, 0, 0, 0],
     [0, 0, 0, 0, 0, 0, 0, 0, 0, 0, 0, 0, 0, 0, 0, 0],
     [0, 0, 0, 0, 0, 0, 0, 0, 0, 0, 0, 0, 0, 0, 0, 0],
     [0, 0, 0, 0, 0, 0, 0, 0, 0, 0, 0, 0, 0, 0, 0, 0],
     [0, 0, 0, 0, 0, 0, 0, 0, 0, 0, 0, 0, 0, 0, 0, 0],
     [0, 0, 0, 0, 0, 0, 0, 0, 0, 0, 0, 0, 0, 0, 0, 0],
     [0, 0, 0, 0, 0, 0, 0, 0, 0, 0, 0, 0, 0, 0, 0, 0],
     [0, 0, 0, 0, 0, 0, 0, 0, 0, 0, 0, 0, 0, 0, 0, 0],
     [0, 0, 0, 0, 0, 0, 0, 0, 0, 0, 0, 0, 0, 0, 0, 0],
     [0, 0, 0, 0, 0, 0, 0, 0, 0, 0, 0, 0, 0, 0, 0, 0],
     [0, 0, 0, 0, 0, 0, 0, 0, 0, 0, 0, 0, 0, 0, 0, 0],
     [0, 0, 0, 0, 0, 0, 0, 0, 0, 0, 0, 0, 0, 0, 0, 0],
     [0, 0, 0, 0, 0, 0, 0, 0, 0, 0, 0, 0, 0, 0, 0, 0],
     [0, 0, 0, 0, 0, 0, 0, 0, 0, 0, 0, 0, 0, 0, 0, 0],
     [0, 0, 0, 0, 0, 0, 0, 0, 0, 0, 0, 0, 0, 0, 0, 0],
     [0, 0, 0, 0, 0, 0, 0, 0, 0, 0, 0, 0, 0, 0, 0, 0],
     [0, 0, 0, 0, 0, 0, 0, 0, 0, 0, 0, 0, 0, 0, 0, 0],
     [0, 0, 0, 0, 0, 0, 0, 0, 0, 0, 0, 0, 0, 0, 0, 0],
     [0, 0, 0, 0, 0, 0, 0, 0, 0, 0, 0, 0, 0, 0, 0, 0],
     [0, 0, 0, 0, 0, 0, 0, 0, 0, 0, 0, 0, 0, 0, 0, 0],
     [0, 0, 0, 0, 0, 0, 0, 0, 0, 0, 0, 0, 0, 0, 0, 0],
     [0, 0, 0, 0, 0, 0, 0, 0, 0, 0, 0, 0, 0, 0, 0, 0],
     [0, 0, 0, 0, 0, 0, 0, 0, 0, 0, 0, 0, 0, 0]]"

section \<open>Sizes\<close>

named_theorems boot_lengths \<open>\<^verbatim>\<open>sizeof\<close> of the arrays\<close>

lemma length_br_fat12_0x0 [boot_lengths]: "length br_fat12_0x0 = 11"
  by (simp add: br_fat12_0x0_def)

lemma length_br_fat12_0x3e [boot_lengths]: "length br_fat12_0x3e = 450"
  by (simp add: br_fat12_0x3e_def)

lemma length_br_fat16_0x0 [boot_lengths]: "length br_fat16_0x0 = 11"
  by (simp add: br_fat16_0x0_def)

lemma length_br_fat16_0x3e [boot_lengths]: "length br_fat16_0x3e = 450"
  by (simp add: br_fat16_0x3e_def)

lemma length_br_fat16fd_0x3e [boot_lengths]: "length br_fat16fd_0x3e = 450"
  by (simp add: br_fat16fd_0x3e_def)

lemma length_br_fat16ros_0x0 [boot_lengths]: "length br_fat16ros_0x0 = 11"
  by (simp add: br_fat16ros_0x0_def)

lemma length_br_fat16ros_0x3e [boot_lengths]: "length br_fat16ros_0x3e = 450"
  by (simp add: br_fat16ros_0x3e_def)

lemma length_br_fat32_0x0 [boot_lengths]: "length br_fat32_0x0 = 11"
  by (simp add: br_fat32_0x0_def)

lemma length_br_fat32_0x3f0 [boot_lengths]: "length br_fat32_0x3f0 = 528"
  by (simp add: br_fat32_0x3f0_def)

lemma length_br_fat32_0x52 [boot_lengths]: "length br_fat32_0x52 = 918"
  by (simp add: br_fat32_0x52_def)

lemma length_br_fat32fd_0x3f0 [boot_lengths]: "length br_fat32fd_0x3f0 = 528"
  by (simp add: br_fat32fd_0x3f0_def)

lemma length_br_fat32fd_0x52 [boot_lengths]: "length br_fat32fd_0x52 = 918"
  by (simp add: br_fat32fd_0x52_def)

lemma length_br_fat32kos_0x52 [boot_lengths]: "length br_fat32kos_0x52 = 430"
  by (simp add: br_fat32kos_0x52_def)

lemma length_br_fat32nt_0x1800 [boot_lengths]: "length br_fat32nt_0x1800 = 512"
  by (simp add: br_fat32nt_0x1800_def)

lemma length_br_fat32nt_0x3f0 [boot_lengths]: "length br_fat32nt_0x3f0 = 528"
  by (simp add: br_fat32nt_0x3f0_def)

lemma length_br_fat32nt_0x52 [boot_lengths]: "length br_fat32nt_0x52 = 918"
  by (simp add: br_fat32nt_0x52_def)

lemma length_br_fat32pe_0x1800 [boot_lengths]: "length br_fat32pe_0x1800 = 512"
  by (simp add: br_fat32pe_0x1800_def)

lemma length_br_fat32pe_0x3f0 [boot_lengths]: "length br_fat32pe_0x3f0 = 528"
  by (simp add: br_fat32pe_0x3f0_def)

lemma length_br_fat32pe_0x52 [boot_lengths]: "length br_fat32pe_0x52 = 923"
  by (simp add: br_fat32pe_0x52_def)

lemma length_br_fat32ros_0x1c00 [boot_lengths]: "length br_fat32ros_0x1c00 = 512"
  by (simp add: br_fat32ros_0x1c00_def)

lemma length_br_fat32ros_0x3f0 [boot_lengths]: "length br_fat32ros_0x3f0 = 16"
  by (simp add: br_fat32ros_0x3f0_def)

lemma length_br_fat32ros_0x52 [boot_lengths]: "length br_fat32ros_0x52 = 918"
  by (simp add: br_fat32ros_0x52_def)

lemma length_br_ntfs_0x0 [boot_lengths]: "length br_ntfs_0x0 = 11"
  by (simp add: br_ntfs_0x0_def)

lemma length_br_ntfs_0x54 [boot_lengths]: "length br_ntfs_0x54 = 4052"
  by (simp add: br_ntfs_0x54_def)

lemma length_label_11_char [boot_lengths]: "length label_11_char = 11"
  by (simp add: label_11_char_def)

lemma length_mbr_2000_0x0 [boot_lengths]: "length mbr_2000_0x0 = 440"
  by (simp add: mbr_2000_0x0_def)

lemma length_mbr_95b_0x0 [boot_lengths]: "length mbr_95b_0x0 = 218"
  by (simp add: mbr_95b_0x0_def)

lemma length_mbr_95b_0x0e0 [boot_lengths]: "length mbr_95b_0x0e0 = 216"
  by (simp add: mbr_95b_0x0e0_def)

lemma length_mbr_dos_0x0 [boot_lengths]: "length mbr_dos_0x0 = 440"
  by (simp add: mbr_dos_0x0_def)

lemma length_mbr_dos_f2_0x0 [boot_lengths]: "length mbr_dos_f2_0x0 = 440"
  by (simp add: mbr_dos_f2_0x0_def)

lemma length_mbr_gpt_syslinux_0x0 [boot_lengths]: "length mbr_gpt_syslinux_0x0 = 440"
  by (simp add: mbr_gpt_syslinux_0x0_def)

lemma length_mbr_grub_0x0 [boot_lengths]: "length mbr_grub_0x0 = 423"
  by (simp add: mbr_grub_0x0_def)

lemma length_mbr_grub2_0x0 [boot_lengths]: "length mbr_grub2_0x0 = 432"
  by (simp add: mbr_grub2_0x0_def)

lemma length_mbr_kolibri_0x0 [boot_lengths]: "length mbr_kolibri_0x0 = 440"
  by (simp add: mbr_kolibri_0x0_def)

lemma length_mbr_msg_rufus_0x0 [boot_lengths]: "length mbr_msg_rufus_0x0 = 432"
  by (simp add: mbr_msg_rufus_0x0_def)

lemma length_mbr_reactos_0x0 [boot_lengths]: "length mbr_reactos_0x0 = 267"
  by (simp add: mbr_reactos_0x0_def)

lemma length_mbr_rufus_0x0 [boot_lengths]: "length mbr_rufus_0x0 = 440"
  by (simp add: mbr_rufus_0x0_def)

lemma length_mbr_syslinux_0x0 [boot_lengths]: "length mbr_syslinux_0x0 = 440"
  by (simp add: mbr_syslinux_0x0_def)

lemma length_mbr_vista_0x0 [boot_lengths]: "length mbr_vista_0x0 = 440"
  by (simp add: mbr_vista_0x0_def)

lemma length_mbr_win7_0x0 [boot_lengths]: "length mbr_win7_0x0 = 440"
  by (simp add: mbr_win7_0x0_def)

lemma length_mbr_zero_0x0 [boot_lengths]: "length mbr_zero_0x0 = 446"
  by (simp add: mbr_zero_0x0_def)

end
