(* ===== verification/Boot_Records.thy ===== *)
theory Boot_Records
  imports Sector_File Boot_Data
begin

text \<open>
  The boot records of \<^verbatim>\<open>src/ms-sys\<close> (\<^verbatim>\<open>br.c\<close>, \<^verbatim>\<open>fat12.c\<close>, \<^verbatim>\<open>fat16.c\<close>, \<^verbatim>\<open>fat32.c\<close>, \<^verbatim>\<open>ntfs.c\<close>,
  \<^verbatim>\<open>partition_info.c\<close>): the functions that recognise and write them, as sequences of \<^verbatim>\<open>contains_data\<close> and
  \<^verbatim>\<open>write_data\<close> calls, one definition per function. Every call may move the descriptor, so each
  function returns the drive as it leaves it.
\<close>

section \<open>Environment and C conjunctions\<close>

text \<open>
  The build, the globals \<^verbatim>\<open>large_drive\<close> and \<^verbatim>\<open>ulBytesPerSector\<close>, and the contents of freshly allocated
  buffers.
\<close>

record io_env =
  io_plat :: platform
  io_large_drive :: bool
  ulBytesPerSector :: nat
  io_junk :: bytes

definition set_bytes_per_sector :: "nat \<Rightarrow> io_env \<Rightarrow> io_env" where
  "set_bytes_per_sector ulValue io =
     io\<lparr>ulBytesPerSector := (if ulValue < 512 \<or> ulValue > 65536 then 512 else ulValue)\<rparr>"

definition has_data :: "io_env \<Rightarrow> nat \<Rightarrow> bytes \<Rightarrow> drive \<Rightarrow> bool \<times> drive" where
  "has_data io = contains_data (io_plat io) (ulBytesPerSector io) (io_junk io)"

definition put_data :: "io_env \<Rightarrow> nat \<Rightarrow> bytes \<Rightarrow> drive \<Rightarrow> bool \<times> drive" where
  "put_data io = write_data (io_plat io) (io_large_drive io) (ulBytesPerSector io) (io_junk io)"

definition get_data :: "io_env \<Rightarrow> nat \<Rightarrow> nat \<Rightarrow> drive \<Rightarrow> bytes option \<times> drive" where
  "get_data io = read_data (io_plat io) (ulBytesPerSector io) (io_junk io)"

text \<open>\<^verbatim>\<open>a && b && ...\<close> and \<^verbatim>\<open>a || b || ...\<close>, which stop at the first false and the first true operand.\<close>

fun all_of :: "('d \<Rightarrow> bool \<times> 'd) list \<Rightarrow> 'd \<Rightarrow> bool \<times> 'd" where
  "all_of [] d = (True, d)"
| "all_of (f # fs) d = (let (r, d) = f d in if r then all_of fs d else (False, d))"

fun any_of :: "('d \<Rightarrow> bool \<times> 'd) list \<Rightarrow> 'd \<Rightarrow> bool \<times> 'd" where
  "any_of [] d = (False, d)"
| "any_of (f # fs) d = (let (r, d) = f d in if r then (True, d) else any_of fs d)"

section \<open>Disk signature, boot marker\<close>

definition read_windows_disk_signature :: "io_env \<Rightarrow> drive \<Rightarrow> u32 \<times> drive" where
  "read_windows_disk_signature io d =
     (let (r, d) = get_data io 0x1b8 4 d in (case r of None \<Rightarrow> 0 | Some b \<Rightarrow> le_word b, d))"

definition write_windows_disk_signature :: "io_env \<Rightarrow> u32 \<Rightarrow> drive \<Rightarrow> bool \<times> drive" where
  "write_windows_disk_signature io tWDS = put_data io 0x1b8 (le_bytes 4 tWDS)"

definition read_mbr_copy_protect_bytes :: "io_env \<Rightarrow> drive \<Rightarrow> u16 \<times> drive" where
  "read_mbr_copy_protect_bytes io d =
     (let (r, d) = get_data io 0x1bc 2 d in (case r of None \<Rightarrow> 0xffff | Some b \<Rightarrow> le_word b, d))"

definition is_br :: "io_env \<Rightarrow> drive \<Rightarrow> bool \<times> drive" where
  "is_br io = has_data io 0x1fe [0x55, 0xAA]"

definition is_lilo_br :: "io_env \<Rightarrow> drive \<Rightarrow> bool \<times> drive" where
  "is_lilo_br io = any_of [has_data io 0x6 [0x4C, 0x49, 0x4C, 0x4F], has_data io 0x2 [0x4C, 0x49, 0x4C, 0x4F]]"

text \<open>\<^verbatim>\<open>for (pos = 0x1FE; pos < ulBytesPerSector; pos += 0x200)\<close>\<close>

function bootmark_loop :: "io_env \<Rightarrow> nat \<Rightarrow> drive \<Rightarrow> bool \<times> drive" where
  "bootmark_loop io pos d =
     (if pos < ulBytesPerSector io then
        (let (r, d) = put_data io pos [0x55, 0xAA] d
         in if r then bootmark_loop io (pos + 0x200) d else (False, d))
      else (True, d))"
  by pat_completeness auto
termination
  by (relation "measure (\<lambda>(io, pos, d). ulBytesPerSector io - pos)") auto

declare bootmark_loop.simps [simp del]

definition write_bootmark :: "io_env \<Rightarrow> drive \<Rightarrow> bool \<times> drive" where
  "write_bootmark io = bootmark_loop io 0x1fe"

section \<open>Master boot records (br.c)\<close>

definition is_dos_mbr :: "io_env \<Rightarrow> drive \<Rightarrow> bool \<times> drive" where
  "is_dos_mbr io = all_of [has_data io 0x0 mbr_dos_0x0,
                          is_br io]"

definition is_dos_f2_mbr :: "io_env \<Rightarrow> drive \<Rightarrow> bool \<times> drive" where
  "is_dos_f2_mbr io = all_of [has_data io 0x0 mbr_dos_f2_0x0,
                             is_br io]"

definition is_95b_mbr :: "io_env \<Rightarrow> drive \<Rightarrow> bool \<times> drive" where
  "is_95b_mbr io = all_of [has_data io 0x0 mbr_95b_0x0,
                          has_data io 0x0e0 mbr_95b_0x0e0,
                          is_br io]"

definition is_2000_mbr :: "io_env \<Rightarrow> drive \<Rightarrow> bool \<times> drive" where
  "is_2000_mbr io = all_of [has_data io 0x0 (take 0x12c mbr_2000_0x0),
                           is_br io]"

definition is_vista_mbr :: "io_env \<Rightarrow> drive \<Rightarrow> bool \<times> drive" where
  "is_vista_mbr io = all_of [has_data io 0x0 (take 0x162 mbr_vista_0x0),
                            is_br io]"

definition is_win7_mbr :: "io_env \<Rightarrow> drive \<Rightarrow> bool \<times> drive" where
  "is_win7_mbr io = all_of [has_data io 0x0 (take 0x163 mbr_win7_0x0),
                           is_br io]"

definition is_rufus_mbr :: "io_env \<Rightarrow> drive \<Rightarrow> bool \<times> drive" where
  "is_rufus_mbr io = all_of [has_data io 0x0 mbr_rufus_0x0,
                            is_br io]"

definition is_rufus_msg_mbr :: "io_env \<Rightarrow> drive \<Rightarrow> bool \<times> drive" where
  "is_rufus_msg_mbr io = all_of [has_data io 0x0 mbr_msg_rufus_0x0,
                                is_br io]"

definition is_reactos_mbr :: "io_env \<Rightarrow> drive \<Rightarrow> bool \<times> drive" where
  "is_reactos_mbr io = all_of [has_data io 0x0 mbr_reactos_0x0,
                              is_br io]"

definition is_grub4dos_mbr :: "io_env \<Rightarrow> drive \<Rightarrow> bool \<times> drive" where
  "is_grub4dos_mbr io = all_of [has_data io 0x0 mbr_grub_0x0,
                               is_br io]"

definition is_grub2_mbr :: "io_env \<Rightarrow> drive \<Rightarrow> bool \<times> drive" where
  "is_grub2_mbr io = all_of [has_data io 0x0 mbr_grub2_0x0,
                            is_br io]"

definition is_kolibrios_mbr :: "io_env \<Rightarrow> drive \<Rightarrow> bool \<times> drive" where
  "is_kolibrios_mbr io = all_of [has_data io 0x0 mbr_kolibri_0x0,
                                is_br io]"

definition is_syslinux_mbr :: "io_env \<Rightarrow> drive \<Rightarrow> bool \<times> drive" where
  "is_syslinux_mbr io = all_of [has_data io 0x0 mbr_syslinux_0x0,
                               is_br io]"

definition is_syslinux_gpt_mbr :: "io_env \<Rightarrow> drive \<Rightarrow> bool \<times> drive" where
  "is_syslinux_gpt_mbr io = all_of [has_data io 0x0 mbr_gpt_syslinux_0x0,
                                   is_br io]"

definition is_zero_mbr :: "io_env \<Rightarrow> drive \<Rightarrow> bool \<times> drive" where
  "is_zero_mbr io = all_of [has_data io 0x0 mbr_zero_0x0]"

definition is_zero_mbr_not_including_disk_signature_or_copy_protect :: "io_env \<Rightarrow> drive \<Rightarrow> bool \<times> drive" where
  "is_zero_mbr_not_including_disk_signature_or_copy_protect io = all_of [has_data io 0x0 (take 0x1b8 mbr_zero_0x0)]"

definition write_dos_mbr :: "io_env \<Rightarrow> drive \<Rightarrow> bool \<times> drive" where
  "write_dos_mbr io = all_of [put_data io 0x0 mbr_dos_0x0,
                             write_bootmark io]"

definition write_95b_mbr :: "io_env \<Rightarrow> drive \<Rightarrow> bool \<times> drive" where
  "write_95b_mbr io = all_of [put_data io 0x0 mbr_95b_0x0,
                             put_data io 0x0e0 mbr_95b_0x0e0,
                             write_bootmark io]"

definition write_2000_mbr :: "io_env \<Rightarrow> drive \<Rightarrow> bool \<times> drive" where
  "write_2000_mbr io = all_of [put_data io 0x0 mbr_2000_0x0,
                              write_bootmark io]"

definition write_vista_mbr :: "io_env \<Rightarrow> drive \<Rightarrow> bool \<times> drive" where
  "write_vista_mbr io = all_of [put_data io 0x0 mbr_vista_0x0,
                               write_bootmark io]"

definition write_win7_mbr :: "io_env \<Rightarrow> drive \<Rightarrow> bool \<times> drive" where
  "write_win7_mbr io = all_of [put_data io 0x0 mbr_win7_0x0,
                              write_bootmark io]"

definition write_rufus_mbr :: "io_env \<Rightarrow> drive \<Rightarrow> bool \<times> drive" where
  "write_rufus_mbr io = all_of [put_data io 0x0 mbr_rufus_0x0,
                               write_bootmark io]"

definition write_rufus_msg_mbr :: "io_env \<Rightarrow> drive \<Rightarrow> bool \<times> drive" where
  "write_rufus_msg_mbr io = all_of [put_data io 0x0 mbr_msg_rufus_0x0,
                                   write_bootmark io]"

definition write_reactos_mbr :: "io_env \<Rightarrow> drive \<Rightarrow> bool \<times> drive" where
  "write_reactos_mbr io = all_of [put_data io 0x0 mbr_reactos_0x0,
                                 write_bootmark io]"

definition write_kolibrios_mbr :: "io_env \<Rightarrow> drive \<Rightarrow> bool \<times> drive" where
  "write_kolibrios_mbr io = all_of [put_data io 0x0 mbr_kolibri_0x0,
                                   write_bootmark io]"

definition write_syslinux_mbr :: "io_env \<Rightarrow> drive \<Rightarrow> bool \<times> drive" where
  "write_syslinux_mbr io = all_of [put_data io 0x0 mbr_syslinux_0x0,
                                  write_bootmark io]"

definition write_syslinux_gpt_mbr :: "io_env \<Rightarrow> drive \<Rightarrow> bool \<times> drive" where
  "write_syslinux_gpt_mbr io = all_of [put_data io 0x0 mbr_gpt_syslinux_0x0,
                                      write_bootmark io]"

definition write_grub4dos_mbr :: "io_env \<Rightarrow> drive \<Rightarrow> bool \<times> drive" where
  "write_grub4dos_mbr io = all_of [put_data io 0x0 mbr_grub_0x0,
                                  write_bootmark io]"

definition write_grub2_mbr :: "io_env \<Rightarrow> drive \<Rightarrow> bool \<times> drive" where
  "write_grub2_mbr io = all_of [put_data io 0x0 mbr_grub2_0x0,
                               write_bootmark io]"

definition write_zero_mbr :: "io_env \<Rightarrow> drive \<Rightarrow> bool \<times> drive" where
  "write_zero_mbr io = all_of [put_data io 0x0 mbr_zero_0x0,
                              write_bootmark io]"

section \<open>FAT12 boot records (fat12.c)\<close>

definition is_fat_12_fs :: "io_env \<Rightarrow> drive \<Rightarrow> bool \<times> drive" where
  "is_fat_12_fs io = has_data io 0x36 [0x46, 0x41, 0x54, 0x31, 0x32, 0x20, 0x20, 0x20]"

definition entire_fat_12_br_matches :: "io_env \<Rightarrow> drive \<Rightarrow> bool \<times> drive" where
  "entire_fat_12_br_matches io = all_of [has_data io 0x0 br_fat12_0x0,
                                        has_data io 0x3e br_fat12_0x3e]"

definition write_fat_12_br :: "io_env \<Rightarrow> bool \<Rightarrow> drive \<Rightarrow> bool \<times> drive" where
  "write_fat_12_br io bKeepLabel = (if bKeepLabel then
     all_of [put_data io 0x0 br_fat12_0x0,
             put_data io 0x3e br_fat12_0x3e]
   else
     all_of [put_data io 0x0 br_fat12_0x0,
             put_data io 0x2b label_11_char,
             put_data io 0x3e br_fat12_0x3e])"

section \<open>FAT16 boot records (fat16.c)\<close>

definition is_fat_16_fs :: "io_env \<Rightarrow> drive \<Rightarrow> bool \<times> drive" where
  "is_fat_16_fs io = has_data io 0x36 [0x46, 0x41, 0x54, 0x31, 0x36, 0x20, 0x20, 0x20]"

text \<open>\<^verbatim>\<open>"MSWIN4.1"\<close>\<close>

definition mswin41 :: bytes where
  "mswin41 = [0x4D, 0x53, 0x57, 0x49, 0x4E, 0x34, 0x2E, 0x31]"

definition is_fat_16_br :: "io_env \<Rightarrow> drive \<Rightarrow> bool \<times> drive" where
  "is_fat_16_br io = all_of [has_data io 0x1fe [0x55, 0xAA], has_data io 0x03 mswin41]"

definition entire_fat_16_br_matches :: "io_env \<Rightarrow> drive \<Rightarrow> bool \<times> drive" where
  "entire_fat_16_br_matches io = all_of [has_data io 0x0 br_fat16_0x0,
                                        has_data io 0x3e br_fat16_0x3e]"

definition write_fat_16_br :: "io_env \<Rightarrow> bool \<Rightarrow> drive \<Rightarrow> bool \<times> drive" where
  "write_fat_16_br io bKeepLabel = (if bKeepLabel then
     all_of [put_data io 0x0 br_fat16_0x0,
             put_data io 0x3e br_fat16_0x3e]
   else
     all_of [put_data io 0x0 br_fat16_0x0,
             put_data io 0x2b label_11_char,
             put_data io 0x3e br_fat16_0x3e])"

definition entire_fat_16_fd_br_matches :: "io_env \<Rightarrow> drive \<Rightarrow> bool \<times> drive" where
  "entire_fat_16_fd_br_matches io = all_of [has_data io 0x0 br_fat16_0x0,
                                           has_data io 0x3e br_fat16fd_0x3e]"

definition write_fat_16_fd_br :: "io_env \<Rightarrow> bool \<Rightarrow> drive \<Rightarrow> bool \<times> drive" where
  "write_fat_16_fd_br io bKeepLabel = (if bKeepLabel then
     all_of [put_data io 0x0 br_fat16_0x0,
             put_data io 0x3e br_fat16fd_0x3e]
   else
     all_of [put_data io 0x0 br_fat16_0x0,
             put_data io 0x2b label_11_char,
             put_data io 0x3e br_fat16fd_0x3e])"

definition entire_fat_16_ros_br_matches :: "io_env \<Rightarrow> drive \<Rightarrow> bool \<times> drive" where
  "entire_fat_16_ros_br_matches io = all_of [has_data io 0x0 br_fat16ros_0x0,
                                            has_data io 0x3e br_fat16ros_0x3e]"

definition write_fat_16_ros_br :: "io_env \<Rightarrow> bool \<Rightarrow> drive \<Rightarrow> bool \<times> drive" where
  "write_fat_16_ros_br io bKeepLabel = (if bKeepLabel then
     all_of [put_data io 0x0 br_fat16ros_0x0,
             put_data io 0x3e br_fat16ros_0x3e]
   else
     all_of [put_data io 0x0 br_fat16ros_0x0,
             put_data io 0x2b label_11_char,
             put_data io 0x3e br_fat16ros_0x3e])"

section \<open>FAT32 boot records (fat32.c)\<close>

definition is_fat_32_fs :: "io_env \<Rightarrow> drive \<Rightarrow> bool \<times> drive" where
  "is_fat_32_fs io = has_data io 0x52 [0x46, 0x41, 0x54, 0x33, 0x32, 0x20, 0x20, 0x20]"

definition is_fat_32_br :: "io_env \<Rightarrow> drive \<Rightarrow> bool \<times> drive" where
  "is_fat_32_br io = all_of
     (map (\<lambda>i. has_data io (0x1fe + i * 0x200) [0x55, 0xAA]) [0..<3] @ [has_data io 0x03 mswin41])"

definition entire_fat_32_br_matches :: "io_env \<Rightarrow> drive \<Rightarrow> bool \<times> drive" where
  "entire_fat_32_br_matches io = all_of [has_data io 0x0 br_fat32_0x0,
                                        has_data io 0x52 br_fat32_0x52,
                                        has_data io 0x3f0 br_fat32_0x3f0]"

definition write_fat_32_br :: "io_env \<Rightarrow> bool \<Rightarrow> drive \<Rightarrow> bool \<times> drive" where
  "write_fat_32_br io bKeepLabel = (if bKeepLabel then
     all_of [put_data io 0x0 br_fat32_0x0,
             put_data io 0x52 br_fat32_0x52,
             put_data io 0x3f0 br_fat32_0x3f0]
   else
     all_of [put_data io 0x0 br_fat32_0x0,
             put_data io 0x47 label_11_char,
             put_data io 0x52 br_fat32_0x52,
             put_data io 0x3f0 br_fat32_0x3f0])"

definition entire_fat_32_fd_br_matches :: "io_env \<Rightarrow> drive \<Rightarrow> bool \<times> drive" where
  "entire_fat_32_fd_br_matches io = all_of [has_data io 0x0 br_fat32_0x0,
                                           has_data io 0x52 br_fat32fd_0x52,
                                           has_data io 0x3f0 br_fat32fd_0x3f0]"

definition write_fat_32_fd_br :: "io_env \<Rightarrow> bool \<Rightarrow> drive \<Rightarrow> bool \<times> drive" where
  "write_fat_32_fd_br io bKeepLabel = (if bKeepLabel then
     all_of [put_data io 0x0 br_fat32_0x0,
             put_data io 0x52 br_fat32fd_0x52,
             put_data io 0x3f0 br_fat32fd_0x3f0]
   else
     all_of [put_data io 0x0 br_fat32_0x0,
             put_data io 0x47 label_11_char,
             put_data io 0x52 br_fat32fd_0x52,
             put_data io 0x3f0 br_fat32fd_0x3f0])"

definition entire_fat_32_nt_br_matches :: "io_env \<Rightarrow> drive \<Rightarrow> bool \<times> drive" where
  "entire_fat_32_nt_br_matches io = all_of [has_data io 0x0 br_fat32_0x0,
                                           has_data io 0x52 br_fat32nt_0x52,
                                           has_data io 0x3f0 br_fat32nt_0x3f0,
                                           has_data io 0x1800 br_fat32nt_0x1800]"

definition write_fat_32_nt_br :: "io_env \<Rightarrow> bool \<Rightarrow> drive \<Rightarrow> bool \<times> drive" where
  "write_fat_32_nt_br io bKeepLabel = (if bKeepLabel then
     all_of [put_data io 0x0 br_fat32_0x0,
             put_data io 0x52 br_fat32nt_0x52,
             put_data io 0x3f0 br_fat32nt_0x3f0,
             put_data io 0x1800 br_fat32nt_0x1800]
   else
     all_of [put_data io 0x0 br_fat32_0x0,
             put_data io 0x47 label_11_char,
             put_data io 0x52 br_fat32nt_0x52,
             put_data io 0x3f0 br_fat32nt_0x3f0,
             put_data io 0x1800 br_fat32nt_0x1800])"

definition entire_fat_32_pe_br_matches :: "io_env \<Rightarrow> drive \<Rightarrow> bool \<times> drive" where
  "entire_fat_32_pe_br_matches io = all_of [has_data io 0x0 br_fat32_0x0,
                                           has_data io 0x52 br_fat32pe_0x52,
                                           has_data io 0x3f0 br_fat32pe_0x3f0,
                                           has_data io 0x1800 br_fat32pe_0x1800]"

definition write_fat_32_pe_br :: "io_env \<Rightarrow> bool \<Rightarrow> drive \<Rightarrow> bool \<times> drive" where
  "write_fat_32_pe_br io bKeepLabel = (if bKeepLabel then
     all_of [put_data io 0x0 br_fat32_0x0,
             put_data io 0x52 br_fat32pe_0x52,
             put_data io 0x3f0 br_fat32pe_0x3f0,
             put_data io 0x1800 br_fat32pe_0x1800]
   else
     all_of [put_data io 0x0 br_fat32_0x0,
             put_data io 0x47 label_11_char,
             put_data io 0x52 br_fat32pe_0x52,
             put_data io 0x3f0 br_fat32pe_0x3f0,
             put_data io 0x1800 br_fat32pe_0x1800])"

definition entire_fat_32_ros_br_matches :: "io_env \<Rightarrow> drive \<Rightarrow> bool \<times> drive" where
  "entire_fat_32_ros_br_matches io = all_of [has_data io 0x0 br_fat32_0x0,
                                            has_data io 0x52 br_fat32ros_0x52,
                                            has_data io 0x3f0 br_fat32ros_0x3f0,
                                            has_data io 0x1c00 br_fat32ros_0x1c00]"

definition write_fat_32_ros_br :: "io_env \<Rightarrow> bool \<Rightarrow> drive \<Rightarrow> bool \<times> drive" where
  "write_fat_32_ros_br io bKeepLabel = (if bKeepLabel then
     all_of [put_data io 0x0 br_fat32_0x0,
             put_data io 0x52 br_fat32ros_0x52,
             put_data io 0x3f0 br_fat32ros_0x3f0,
             put_data io 0x1c00 br_fat32ros_0x1c00]
   else
     all_of [put_data io 0x0 br_fat32_0x0,
             put_data io 0x47 label_11_char,
             put_data io 0x52 br_fat32ros_0x52,
             put_data io 0x3f0 br_fat32ros_0x3f0,
             put_data io 0x1c00 br_fat32ros_0x1c00])"

definition entire_fat_32_kos_br_matches :: "io_env \<Rightarrow> drive \<Rightarrow> bool \<times> drive" where
  "entire_fat_32_kos_br_matches io = all_of [has_data io 0x0 br_fat32_0x0,
                                            has_data io 0x52 br_fat32kos_0x52]"

definition write_fat_32_kos_br :: "io_env \<Rightarrow> bool \<Rightarrow> drive \<Rightarrow> bool \<times> drive" where
  "write_fat_32_kos_br io bKeepLabel = (if bKeepLabel then
     all_of [put_data io 0x0 br_fat32_0x0,
             put_data io 0x52 br_fat32kos_0x52]
   else
     all_of [put_data io 0x0 br_fat32_0x0,
             put_data io 0x47 label_11_char,
             put_data io 0x52 br_fat32kos_0x52])"

section \<open>NTFS boot records (ntfs.c)\<close>

definition ntfs_magic :: bytes where
  "ntfs_magic = [0x4E, 0x54, 0x46, 0x53, 0x20, 0x20, 0x20, 0x20]"

definition is_ntfs_fs :: "io_env \<Rightarrow> drive \<Rightarrow> bool \<times> drive" where
  "is_ntfs_fs io = has_data io 0x03 ntfs_magic"

definition is_ntfs_br :: "io_env \<Rightarrow> drive \<Rightarrow> bool \<times> drive" where
  "is_ntfs_br io = all_of [has_data io 0x1fe [0x55, 0xAA], has_data io 0x03 ntfs_magic]"

definition entire_ntfs_br_matches :: "io_env \<Rightarrow> drive \<Rightarrow> bool \<times> drive" where
  "entire_ntfs_br_matches io = all_of [has_data io 0x0 br_ntfs_0x0,
                                      has_data io 0x54 br_ntfs_0x54]"

definition write_ntfs_br :: "io_env \<Rightarrow> drive \<Rightarrow> bool \<times> drive" where
  "write_ntfs_br io = all_of [put_data io 0x0 br_ntfs_0x0,
                             put_data io 0x54 br_ntfs_0x54]"

section \<open>Partition parameters (partition_info.c)\<close>

text \<open>The \<^verbatim>\<open>int\<close> arguments are words; \<^verbatim>\<open>unsigned long\<close> has 64 bits, so a negative start sector is extended.\<close>

definition write_partition_number_of_heads :: "io_env \<Rightarrow> u32 \<Rightarrow> drive \<Rightarrow> bool \<times> drive" where
  "write_partition_number_of_heads io iHeads d =
     (let s = ucast iHeads :: u16
      in if s = 0 then (False, d)
         else put_data io 0x1a [ucast (s AND 0xff), ucast (drop_bit 8 (s AND 0xff00))] d)"

definition write_partition_start_sector_number :: "io_env \<Rightarrow> u32 \<Rightarrow> drive \<Rightarrow> bool \<times> drive" where
  "write_partition_start_sector_number io iStartSector d =
     (let l = scast iStartSector :: u64
      in if l = 0 then (False, d)
         else put_data io 0x1c
           [ucast (l AND 0xff), ucast (drop_bit 8 (l AND 0xff00)),
            ucast (drop_bit 16 (l AND 0xff0000)), ucast (drop_bit 24 (l AND 0xff000000))] d)"

definition write_partition_physical_disk_drive_id_fat32 :: "io_env \<Rightarrow> drive \<Rightarrow> bool \<times> drive" where
  "write_partition_physical_disk_drive_id_fat32 io = put_data io 0x40 [0x80]"

definition write_partition_physical_disk_drive_id_fat16 :: "io_env \<Rightarrow> drive \<Rightarrow> bool \<times> drive" where
  "write_partition_physical_disk_drive_id_fat16 io = put_data io 0x24 [0x80]"

section \<open>Stores of bytes\<close>

text \<open>The contents after a sequence of writes.\<close>

definition apply_writes :: "(nat \<times> bytes) list \<Rightarrow> bytes \<Rightarrow> bytes" where
  "apply_writes ws c = fold (\<lambda>(p, x) c. memcpy_to p x c) ws c"

lemma apply_writes_simps [simp]:
  "apply_writes [] c = c" "apply_writes ((p, x) # ws) c = apply_writes ws (memcpy_to p x c)"
  "apply_writes (vs @ ws) c = apply_writes ws (apply_writes vs c)"
  by (simp_all add: apply_writes_def)

definition writes_fit :: "nat \<Rightarrow> (nat \<times> bytes) list \<Rightarrow> bool" where
  "writes_fit n ws \<longleftrightarrow> (\<forall>(p, x) \<in> set ws. p + length x \<le> n)"

lemma writes_fit_simps [simp]:
  "writes_fit n []" "writes_fit n ((p, x) # ws) \<longleftrightarrow> p + length x \<le> n \<and> writes_fit n ws"
  "writes_fit n (vs @ ws) \<longleftrightarrow> writes_fit n vs \<and> writes_fit n ws"
  by (auto simp: writes_fit_def)

definition avoids :: "nat \<Rightarrow> nat \<Rightarrow> (nat \<times> bytes) list \<Rightarrow> bool" where
  "avoids i n ws \<longleftrightarrow> (\<forall>(p, x) \<in> set ws. i + n \<le> p \<or> p + length x \<le> i)"

lemma avoids_simps [simp]:
  "avoids i n []" "avoids i n ((p, x) # ws) \<longleftrightarrow> (i + n \<le> p \<or> p + length x \<le> i) \<and> avoids i n ws"
  "avoids i n (vs @ ws) \<longleftrightarrow> avoids i n vs \<and> avoids i n ws"
  by (auto simp: avoids_def)

lemma length_apply_writes: "writes_fit (length c) ws \<Longrightarrow> length (apply_writes ws c) = length c"
  by (induction ws arbitrary: c) auto

lemma slice_apply_writes_avoids:
  "writes_fit (length c) ws \<Longrightarrow> avoids i n ws \<Longrightarrow> i + n \<le> length c \<Longrightarrow> slice i n (apply_writes ws c) = slice i n c"
  by (induction ws arbitrary: c) (auto simp: slice_memcpy_to_other)

lemma slice_apply_writes_written:
  assumes "writes_fit (length c) (vs @ (p, x) # ws)" "avoids p (length x) ws" "n \<le> length x"
  shows "slice p n (apply_writes (vs @ (p, x) # ws) c) = take n x"
proof -
  let ?c = "apply_writes vs c"
  have len: "length ?c = length c"
    using assms(1) by (simp add: length_apply_writes)
  have "slice p (length x) (apply_writes ws (memcpy_to p x ?c)) = x"
    using assms(1,2) len by (subst slice_apply_writes_avoids) (simp_all add: slice_memcpy_to_same)
  moreover have "slice p n (apply_writes ws (memcpy_to p x ?c)) =
      slice 0 n (slice p (length x) (apply_writes ws (memcpy_to p x ?c)))"
    using assms(3) by (simp only: slice_slice add_0_right add_0)
  ultimately show ?thesis by simp
qed

text \<open>
  What the boot record code relies on: a store with contents, a write that replaces bytes and a test
  for bytes, both for strings of 1 to 4096 bytes inside the contents.
\<close>

definition fits :: "nat \<Rightarrow> nat \<times> bytes \<Rightarrow> bool" where
  "fits L w \<longleftrightarrow> 0 < length (snd w) \<and> length (snd w) \<le> 4096 \<and> fst w + length (snd w) \<le> L"

locale byte_store =
  fixes ready :: "'d \<Rightarrow> bool" and content :: "'d \<Rightarrow> bytes"
    and put has :: "nat \<Rightarrow> bytes \<Rightarrow> 'd \<Rightarrow> bool \<times> 'd"
  assumes put_ready: "ready d \<Longrightarrow> fits (length (content d)) (p, x) \<Longrightarrow>
      \<exists>d'. put p x d = (True, d') \<and> ready d' \<and> content d' = memcpy_to p x (content d)"
    and has_ready: "ready d \<Longrightarrow> fits (length (content d)) (p, x) \<Longrightarrow>
      \<exists>d'. has p x d = (slice p (length x) (content d) = x, d') \<and> ready d' \<and> content d' = content d"
begin

lemma put_all:
  assumes "ready d" "\<forall>w \<in> set ws. fits (length (content d)) w"
  shows "\<exists>d'. all_of (map (case_prod put) ws @ fs) d = all_of fs d' \<and> ready d' \<and> content d' = apply_writes ws (content d)"
  using assms
proof (induction ws arbitrary: d)
  case Nil
  then show ?case by auto
next
  case (Cons w ws)
  obtain p x where w: "w = (p, x)" by force
  then obtain d1 where d1: "put p x d = (True, d1)" "ready d1" "content d1 = memcpy_to p x (content d)"
    using put_ready [OF Cons.prems(1)] Cons.prems(2) by force
  then have "length (content d1) = length (content d)"
    using Cons.prems(2) w by (simp add: fits_def)
  then obtain d' where "all_of (map (case_prod put) ws @ fs) d1 = all_of fs d'" "ready d'"
    "content d' = apply_writes ws (content d1)"
    using Cons.IH [OF d1(2)] Cons.prems(2) by auto
  then show ?case
    using d1 w by auto
qed

lemma has_all:
  assumes "ready d" "\<forall>w \<in> set ws. fits (length (content d)) w"
  shows "fst (all_of (map (case_prod has) ws) d) \<longleftrightarrow> (\<forall>(p, x) \<in> set ws. slice p (length x) (content d) = x)"
  using assms
proof (induction ws arbitrary: d)
  case Nil
  then show ?case by simp
next
  case (Cons w ws)
  obtain p x where w: "w = (p, x)" by force
  then obtain d1 where d1: "has p x d = (slice p (length x) (content d) = x, d1)" "ready d1" "content d1 = content d"
    using has_ready [OF Cons.prems(1)] Cons.prems(2) by force
  then show ?case
    using Cons.IH [OF d1(2)] Cons.prems(2) w by simp
qed

end

section \<open>Master boot records on a ready drive\<close>

text \<open>
  A writable drive seen through the Windows layer at its start: whole sectors of a multiple of 512 bytes
  up to 16 KiB, and at least one of them.
\<close>

definition drive_ready :: "io_env \<Rightarrow> drive \<Rightarrow> bool" where
  "drive_ready io d \<longleftrightarrow> io_plat io = Win32 \<and> length (io_junk io) = MAX_DATA_LEN \<and>
     512 dvd ulBytesPerSector io \<and> 0 < ulBytesPerSector io \<and> ulBytesPerSector io \<le> 16384 \<and>
     ulBytesPerSector io dvd length (dv_data d) \<and> 0 < length (dv_data d) \<and> dv_base d = 0 \<and> \<not> dv_readonly d"

lemma drive_ready_transfer:
  assumes "drive_ready io d" "fits (length (dv_data d)) (p, x)"
  shows "transfer_ok Win32 (ulBytesPerSector io) p (length x) d"
proof -
  let ?ss = "ulBytesPerSector io"
  have "(p mod ?ss + length x + ?ss - 1) div ?ss * ?ss \<le> p mod ?ss + length x + ?ss - 1"
    by (rule div_times_less_eq_dividend)
  also have "\<dots> \<le> MAX_DATA_LEN"
  proof -
    have "p mod ?ss < ?ss" "?ss \<le> 16384" "length x \<le> 4096"
      using assms by (simp_all add: drive_ready_def fits_def)
    then show ?thesis
      unfolding MAX_DATA_LEN_def by linarith
  qed
  finally show ?thesis
    using assms by (simp add: transfer_ok_def drive_ready_def fits_def base_position_def)
qed

interpretation win: byte_store "drive_ready io" dv_data "put_data io" "has_data io" for io
proof unfold_locales
  fix d p x
  assume a: "drive_ready io d" "fits (length (dv_data d)) (p, x)"
  note t = drive_ready_transfer [OF a]
  show "\<exists>d'. put_data io p x d = (True, d') \<and> drive_ready io d' \<and> dv_data d' = memcpy_to p x (dv_data d)"
    using write_data_ok [OF t, of "io_junk io" "io_large_drive io"] a
    by (simp add: put_data_def drive_ready_def base_position_def fits_def)
  show "\<exists>d'. has_data io p x d = (slice p (length x) (dv_data d) = x, d') \<and> drive_ready io d' \<and> dv_data d' = dv_data d"
    using contains_data_ok [OF t, of "io_junk io"] a
    by (simp add: has_data_def drive_ready_def base_position_def)
qed

abbreviation bootmark :: "nat \<times> bytes" where
  "bootmark \<equiv> (0x1fe, [0x55, 0xAA])"

text \<open>The writes of the boot marker loop.\<close>

function bootmarks :: "nat \<Rightarrow> nat \<Rightarrow> (nat \<times> bytes) list" where
  "bootmarks ss pos = (if pos < ss then (pos, [0x55, 0xAA]) # bootmarks ss (pos + 0x200) else [])"
  by pat_completeness auto
termination
  by (relation "measure (\<lambda>(ss, pos). ss - pos)") auto

declare bootmarks.simps [simp del]

lemma bootmark_loop_all_of:
  "bootmark_loop io pos d = all_of (map (case_prod (put_data io)) (bootmarks (ulBytesPerSector io) pos)) d"
proof (induction io pos d rule: bootmark_loop.induct)
  case (1 io pos d)
  then show ?case
    by (subst bootmark_loop.simps, subst bootmarks.simps) (auto split: prod.splits)
qed

lemma write_bootmark_all_of:
  "write_bootmark io = all_of (map (case_prod (put_data io)) (bootmarks (ulBytesPerSector io) 0x1fe))"
  by (simp add: write_bootmark_def bootmark_loop_all_of fun_eq_iff)

lemma bootmarks_range:
  assumes "(p, x) \<in> set (bootmarks ss pos)" "512 dvd ss" "pos mod 512 = 510"
  shows "pos \<le> p \<and> p + 2 \<le> ss \<and> x = [0x55, 0xAA]"
  using assms
proof (induction ss pos rule: bootmarks.induct)
  case (1 ss pos)
  have lt: "pos < ss"
    using "1.prems"(1) by (subst (asm) bootmarks.simps) (simp split: if_splits)
  obtain k where k: "ss = 512 * k"
    using "1.prems"(2) ..
  have q: "pos = 512 * (pos div 512) + 510"
    using "1.prems"(3) mult_div_mod_eq [of 512 pos] by simp
  then have "pos div 512 < k"
    using lt k by linarith
  then have "pos + 2 \<le> ss"
    using q k by linarith
  moreover have "(p, x) = (pos, [0x55, 0xAA]) \<or> (p, x) \<in> set (bootmarks ss (pos + 0x200))"
    using "1.prems"(1) lt by (subst (asm) bootmarks.simps) simp
  moreover have "(pos + 0x200) mod 512 = 510"
    using "1.prems"(3) by (simp add: mod_add_eq [symmetric])
  ultimately show ?case
    using "1.IH" [OF lt _ "1.prems"(2)] by auto
qed

text \<open>The functions under test, and the bytes that each writes and looks for.\<close>

definition mbr_functions ::
    "((io_env \<Rightarrow> drive \<Rightarrow> bool \<times> drive) \<times> (io_env \<Rightarrow> drive \<Rightarrow> bool \<times> drive)) list" where
  "mbr_functions = [
     (write_dos_mbr, is_dos_mbr),
     (write_95b_mbr, is_95b_mbr),
     (write_2000_mbr, is_2000_mbr),
     (write_vista_mbr, is_vista_mbr),
     (write_win7_mbr, is_win7_mbr),
     (write_rufus_mbr, is_rufus_mbr),
     (write_rufus_msg_mbr, is_rufus_msg_mbr),
     (write_reactos_mbr, is_reactos_mbr),
     (write_kolibrios_mbr, is_kolibrios_mbr),
     (write_syslinux_mbr, is_syslinux_mbr),
     (write_syslinux_gpt_mbr, is_syslinux_gpt_mbr),
     (write_grub4dos_mbr, is_grub4dos_mbr),
     (write_grub2_mbr, is_grub2_mbr),
     (write_zero_mbr, is_zero_mbr)]"

definition mbr_table :: "((nat \<times> bytes) list \<times> (nat \<times> bytes) list) list" where
  "mbr_table = [
     ([(0, mbr_dos_0x0)], [(0, mbr_dos_0x0), bootmark]),
     ([(0, mbr_95b_0x0), (0xe0, mbr_95b_0x0e0)], [(0, mbr_95b_0x0), (0xe0, mbr_95b_0x0e0), bootmark]),
     ([(0, mbr_2000_0x0)], [(0, take 0x12c mbr_2000_0x0), bootmark]),
     ([(0, mbr_vista_0x0)], [(0, take 0x162 mbr_vista_0x0), bootmark]),
     ([(0, mbr_win7_0x0)], [(0, take 0x163 mbr_win7_0x0), bootmark]),
     ([(0, mbr_rufus_0x0)], [(0, mbr_rufus_0x0), bootmark]),
     ([(0, mbr_msg_rufus_0x0)], [(0, mbr_msg_rufus_0x0), bootmark]),
     ([(0, mbr_reactos_0x0)], [(0, mbr_reactos_0x0), bootmark]),
     ([(0, mbr_kolibri_0x0)], [(0, mbr_kolibri_0x0), bootmark]),
     ([(0, mbr_syslinux_0x0)], [(0, mbr_syslinux_0x0), bootmark]),
     ([(0, mbr_gpt_syslinux_0x0)], [(0, mbr_gpt_syslinux_0x0), bootmark]),
     ([(0, mbr_grub_0x0)], [(0, mbr_grub_0x0), bootmark]),
     ([(0, mbr_grub2_0x0)], [(0, mbr_grub2_0x0), bootmark]),
     ([(0, mbr_zero_0x0)], [(0, mbr_zero_0x0)])]"

lemmas mbr_function_defs = write_dos_mbr_def is_dos_mbr_def
  write_95b_mbr_def is_95b_mbr_def
  write_2000_mbr_def is_2000_mbr_def
  write_vista_mbr_def is_vista_mbr_def
  write_win7_mbr_def is_win7_mbr_def
  write_rufus_mbr_def is_rufus_mbr_def
  write_rufus_msg_mbr_def is_rufus_msg_mbr_def
  write_reactos_mbr_def is_reactos_mbr_def
  write_kolibrios_mbr_def is_kolibrios_mbr_def
  write_syslinux_mbr_def is_syslinux_mbr_def
  write_syslinux_gpt_mbr_def is_syslinux_gpt_mbr_def
  write_grub4dos_mbr_def is_grub4dos_mbr_def
  write_grub2_mbr_def is_grub2_mbr_def
  write_zero_mbr_def is_zero_mbr_def

lemma mbr_functions_table:
  "map (\<lambda>(w, i). (w io, i io)) mbr_functions =
   map (\<lambda>(ws, hs). (all_of (map (case_prod (put_data io)) ws @ [write_bootmark io]),
     all_of (map (case_prod (has_data io)) hs))) mbr_table"
  by (simp add: mbr_functions_def mbr_table_def mbr_function_defs is_br_def)

lemma all_of_single: "all_of [f] d = f d"
  by (auto split: prod.splits)

lemma fits_bootmarks:
  assumes "drive_ready io d" "w \<in> set (bootmarks (ulBytesPerSector io) 0x1fe)"
  shows "fits (length (dv_data d)) w"
proof -
  have "ulBytesPerSector io \<le> length (dv_data d)"
    using assms(1) by (simp add: drive_ready_def dvd_imp_le)
  then show ?thesis
    using assms bootmarks_range [of "fst w" "snd w" "ulBytesPerSector io" "0x1fe"]
    by (auto simp: fits_def drive_ready_def)
qed

lemma ready_length: "drive_ready io d \<Longrightarrow> 512 \<le> length (dv_data d)"
  by (auto simp: drive_ready_def dest!: dvd_imp_le)

text \<open>What a table row has to provide: code below the partition table that the row itself recognises.\<close>

definition row_ok :: "(nat \<times> bytes) list \<times> (nat \<times> bytes) list \<Rightarrow> bool" where
  "row_ok row \<longleftrightarrow> (case row of (ws, hs) \<Rightarrow>
     (\<forall>(p, x) \<in> set ws. 0 < length x \<and> p + length x \<le> 446) \<and>
     (\<forall>(p, x) \<in> set hs. (p, x) = bootmark \<or> 0 < length x \<and> p + length x \<le> 446 \<and>
        (\<forall>c. 512 \<le> length c \<longrightarrow> slice p (length x) (apply_writes ws c) = x)))"

lemma slice_memcpy_prefix:
  assumes "off + length src \<le> length dst" "n \<le> length src"
  shows "slice off n (memcpy_to off src dst) = take n src"
  using assms by (simp add: slice_def memcpy_to_def)

lemma row_ok_single:
  assumes "0 < n" "n \<le> length code" "length code \<le> 446" "\<forall>w \<in> set hs. w = bootmark"
  shows "row_ok ([(0, code)], (0, take n code) # hs)"
  using assms by (auto simp: row_ok_def slice_memcpy_prefix simp del: slice_0_take)

lemma row_ok_all:
  assumes "0 < length code" "length code \<le> 446" "\<forall>w \<in> set hs. w = bootmark"
  shows "row_ok ([(0, code)], (0, code) # hs)"
  using row_ok_single [of "length code" code hs] assms by simp

lemma row_ok_95b: "row_ok ([(0, mbr_95b_0x0), (0xe0, mbr_95b_0x0e0)], [(0, mbr_95b_0x0), (0xe0, mbr_95b_0x0e0), bootmark])"
  unfolding row_ok_def
  by (auto simp: boot_lengths slice_memcpy_to_same slice_memcpy_to_other
      simp del: slice_0_take length_greater_0_conv)

lemma mbr_table_ok: "\<forall>row \<in> set mbr_table. row_ok row"
  unfolding mbr_table_def list.set ball_simps
  by (intro conjI row_ok_95b row_ok_all row_ok_single)
    (simp_all add: boot_lengths del: length_greater_0_conv)

lemma mbr_write:
  assumes "drive_ready io d" "row_ok (ws, hs)"
  shows "\<exists>d'. all_of (map (case_prod (put_data io)) ws @ [write_bootmark io]) d = (True, d') \<and> drive_ready io d' \<and>
    dv_data d' = apply_writes (ws @ bootmarks (ulBytesPerSector io) 0x1fe) (dv_data d)"
proof -
  have ws: "\<forall>w \<in> set ws. fits (length (dv_data d)) w"
    using assms(2) ready_length [OF assms(1)] by (fastforce simp: row_ok_def fits_def)
  obtain d1 where d1: "all_of (map (case_prod (put_data io)) ws @ [write_bootmark io]) d = all_of [write_bootmark io] d1"
    "drive_ready io d1" "dv_data d1 = apply_writes ws (dv_data d)"
    using win.put_all [OF assms(1) ws] by blast
  obtain d2 where "all_of (map (case_prod (put_data io)) (bootmarks (ulBytesPerSector io) 0x1fe) @ []) d1 = all_of [] d2"
    "drive_ready io d2" "dv_data d2 = apply_writes (bootmarks (ulBytesPerSector io) 0x1fe) (dv_data d1)"
    using win.put_all [OF d1(2)] fits_bootmarks [OF d1(2)] by blast
  then show ?thesis
    using d1 by (simp add: all_of_single write_bootmark_all_of del: all_of.simps(2))
qed

definition recognised :: "(nat \<times> bytes) list \<Rightarrow> bytes \<Rightarrow> bool" where
  "recognised hs c \<longleftrightarrow> (\<forall>(p, x) \<in> set hs. slice p (length x) c = x)"

lemma mbr_test:
  assumes "drive_ready io d" "row_ok (ws, hs)"
  shows "fst (all_of (map (case_prod (has_data io)) hs) d) \<longleftrightarrow> recognised hs (dv_data d)"
proof -
  have "\<forall>w \<in> set hs. fits (length (dv_data d)) w"
    using assms(2) ready_length [OF assms(1)] by (fastforce simp: row_ok_def fits_def)
  then show ?thesis
    using win.has_all [OF assms(1), of hs] by (simp add: recognised_def)
qed

lemma avoids_bootmarks:
  assumes "512 dvd ss" "pos mod 512 = 510" "i + n \<le> pos"
  shows "avoids i n (bootmarks ss pos)"
  using assms(3) by (auto simp: avoids_def dest!: bootmarks_range [OF _ assms(1,2)])

lemma writes_fit_mbr:
  assumes "drive_ready io d" "row_ok (ws, hs)"
  shows "writes_fit (length (dv_data d)) (ws @ bootmarks (ulBytesPerSector io) 0x1fe)"
proof -
  have "p + length x \<le> length (dv_data d)" if "(p, x) \<in> set (bootmarks (ulBytesPerSector io) 0x1fe)" for p x
    using fits_bootmarks [OF assms(1) that] by (simp add: fits_def)
  then show ?thesis
    using assms(2) ready_length [OF assms(1)] by (fastforce simp: writes_fit_def row_ok_def)
qed

lemma bootmarks_first:
  assumes "drive_ready io d"
  shows "bootmarks (ulBytesPerSector io) 0x1fe = bootmark # bootmarks (ulBytesPerSector io) 0x3fe"
proof -
  have "512 \<le> ulBytesPerSector io"
    using assms by (auto simp: drive_ready_def dest: dvd_imp_le)
  then show ?thesis
    by (subst bootmarks.simps) simp
qed

lemma own_record_recognised:
  assumes "drive_ready io d" "row_ok (ws, hs)"
  shows "recognised hs (apply_writes (ws @ bootmarks (ulBytesPerSector io) 0x1fe) (dv_data d))"
proof -
  let ?ss = "ulBytesPerSector io" and ?c = "dv_data d"
  have ss: "512 dvd ?ss"
    using assms(1) by (simp add: drive_ready_def)
  note fit = writes_fit_mbr [OF assms]
  have "slice p (length x) (apply_writes (ws @ bootmarks ?ss 0x1fe) ?c) = x" if h: "(p, x) \<in> set hs" for p x
  proof (cases "(p, x) = bootmark")
    case True
    then show ?thesis
      using slice_apply_writes_written [of ?c ws "0x1fe" "[0x55, 0xAA]" "bootmarks ?ss 0x3fe" 2] fit
        avoids_bootmarks [OF ss, of "0x3fe" "0x1fe" 2] bootmarks_first [OF assms(1)] by (simp add: numeral_2_eq_2)
  next
    case False
    then have x: "p + length x \<le> 446" "slice p (length x) (apply_writes ws ?c) = x"
      using assms(2) h ready_length [OF assms(1)] by (auto simp: row_ok_def)
    have "slice p (length x) (apply_writes (bootmarks ?ss 0x1fe) (apply_writes ws ?c)) = slice p (length x) (apply_writes ws ?c)"
      using fit x(1) avoids_bootmarks [OF ss, of "0x1fe" p "length x"] ready_length [OF assms(1)]
      by (intro slice_apply_writes_avoids) (simp_all add: length_apply_writes)
    then show ?thesis
      using x(2) by simp
  qed
  then show ?thesis
    by (auto simp: recognised_def)
qed

text \<open>The first 159 bytes tell all records apart.\<close>

definition row_code :: "(nat \<times> bytes) list \<times> (nat \<times> bytes) list \<Rightarrow> bytes" where
  "row_code row = take 159 (snd (hd (snd row)))"

lemma row_codes_distinct: "distinct (map row_code mbr_table)"
  by code_simp

lemma row_heads: "\<forall>(ws, hs) \<in> set mbr_table. \<exists>x hs'. hs = (0, x) # hs' \<and> 159 \<le> length x"
  unfolding mbr_table_def list.set ball_simps
  by (simp add: boot_lengths)

lemma recognised_code:
  assumes "(ws, hs) \<in> set mbr_table" "recognised hs c"
  shows "take 159 c = row_code (ws, hs)"
proof -
  obtain x hs' where x: "hs = (0, x) # hs'" "159 \<le> length x"
    using row_heads assms(1) by blast
  then have "take (length x) c = x"
    using assms(2) by (simp add: recognised_def)
  then have "take 159 (take (length x) c) = take 159 x"
    by simp
  then show ?thesis
    using x by (simp add: row_code_def min_def)
qed

lemma mbr_functions_nth:
  assumes "k < length mbr_functions"
  shows "fst (mbr_functions ! k) io = all_of (map (case_prod (put_data io)) (fst (mbr_table ! k)) @ [write_bootmark io])"
    and "snd (mbr_functions ! k) io = all_of (map (case_prod (has_data io)) (snd (mbr_table ! k)))"
    and "k < length mbr_table"
proof -
  show k: "k < length mbr_table"
    using assms map_eq_imp_length_eq [OF mbr_functions_table] by simp
  have "(case mbr_functions ! k of (w, i) \<Rightarrow> (w io, i io)) = (case mbr_table ! k of (ws, hs) \<Rightarrow>
      (all_of (map (case_prod (put_data io)) ws @ [write_bootmark io]), all_of (map (case_prod (has_data io)) hs)))"
    using arg_cong [OF mbr_functions_table [of io], of "\<lambda>l. l ! k"] assms k by simp
  then show "fst (mbr_functions ! k) io = all_of (map (case_prod (put_data io)) (fst (mbr_table ! k)) @ [write_bootmark io])"
    "snd (mbr_functions ! k) io = all_of (map (case_prod (has_data io)) (snd (mbr_table ! k)))"
    by (simp_all split: prod.splits)
qed

text \<open>
  C4. Each of the fourteen MBR writers, on a writable drive through the Windows layer, at the start of the
  drive and for every sector size that is a multiple of 512 up to 16 KiB, succeeds, keeps the partition table (bytes 0x1be to
  0x1fd), and leaves a drive that its own recogniser accepts and that every other recogniser of the
  list rejects. Through the Linux layer this is false, as the theorem on the displaced boot marker below shows.
\<close>

theorem mbr_written_and_recognised:
  assumes "drive_ready io d" "k < length mbr_functions" "j < length mbr_functions"
  shows "\<exists>d'. fst (mbr_functions ! k) io d = (True, d') \<and> drive_ready io d' \<and>
    slice 0x1be 64 (dv_data d') = slice 0x1be 64 (dv_data d) \<and>
    (fst (snd (mbr_functions ! j) io d') \<longleftrightarrow> j = k)"
proof -
  obtain ws hs where k: "mbr_table ! k = (ws, hs)" by force
  obtain ws' hs' where j: "mbr_table ! j = (ws', hs')" by force
  have lt: "k < length mbr_table" "j < length mbr_table"
    using mbr_functions_nth(3) assms(2,3) by simp_all
  then have rows: "(ws, hs) \<in> set mbr_table" "(ws', hs') \<in> set mbr_table"
    using k j by (metis nth_mem)+
  then have ok: "row_ok (ws, hs)" "row_ok (ws', hs')"
    using mbr_table_ok by blast+
  obtain d' where d': "fst (mbr_functions ! k) io d = (True, d')" "drive_ready io d'"
    "dv_data d' = apply_writes (ws @ bootmarks (ulBytesPerSector io) 0x1fe) (dv_data d)"
    using mbr_write [OF assms(1) ok(1)] k by (auto simp: mbr_functions_nth [OF assms(2)])
  have own: "recognised hs (dv_data d')"
    using own_record_recognised [OF assms(1) ok(1)] d'(3) by simp
  have "fst (snd (mbr_functions ! j) io d') \<longleftrightarrow> recognised hs' (dv_data d')"
    using mbr_test [OF d'(2) ok(2)] j by (simp add: mbr_functions_nth [OF assms(3)])
  moreover have "recognised hs' (dv_data d') \<longleftrightarrow> j = k"
  proof
    assume "recognised hs' (dv_data d')"
    then have "row_code (mbr_table ! j) = row_code (mbr_table ! k)"
      using recognised_code [OF rows(1) own] recognised_code [OF rows(2)] j k by simp
    then have "map row_code mbr_table ! j = map row_code mbr_table ! k"
      using lt by simp
    then show "j = k"
      using row_codes_distinct lt nth_eq_iff_index_eq [of "map row_code mbr_table" j k] by simp
  qed (use own j k in simp)
  moreover have "slice 0x1be 64 (dv_data d') = slice 0x1be 64 (dv_data d)"
    unfolding d'(3)
  proof (rule slice_apply_writes_avoids [OF writes_fit_mbr [OF assms(1) ok(1)]])
    have "avoids 0x1be 64 ws"
      using ok(1) by (fastforce simp: row_ok_def avoids_def)
    then show "avoids 0x1be 64 (ws @ bootmarks (ulBytesPerSector io) 0x1fe)"
      using avoids_bootmarks [of "ulBytesPerSector io" "0x1fe" "0x1be" 64] assms(1) by (simp add: drive_ready_def)
  qed (use ready_length [OF assms(1)] in simp)
  ultimately show ?thesis
    using d'(1,2) by blast
qed

definition sample_io :: "platform \<Rightarrow> io_env" where
  "sample_io plat = \<lparr>io_plat = plat, io_large_drive = False, ulBytesPerSector = 512, io_junk = replicate 65536 7\<rparr>"

lemma sample_ready: "drive_ready (sample_io Win32) (sample_drive False)"
  by (simp add: drive_ready_def sample_io_def sample_drive_def MAX_DATA_LEN_def)

theorem mbr_written_and_recognised_witness:
  "\<exists>d'. write_rufus_mbr (sample_io Win32) (sample_drive False) = (True, d') \<and> \<not> fst (is_win7_mbr (sample_io Win32) d')"
  using mbr_written_and_recognised [OF sample_ready, of 5 4] by (auto simp: mbr_functions_def)

section \<open>Master boot records on Linux\<close>

text \<open>
  C27. On Linux the position of every call is relative to where the previous one left the descriptor. On a
  drive with 512-byte sectors and a descriptor at its start, \<^verbatim>\<open>write_rufus_mbr\<close> reports success, but the
  boot marker that belongs at the end of the first sector is written to the end of the second, and the
  first sector keeps the two bytes it had there.
\<close>

theorem linux_boot_marker_misplaced:
  assumes "io_plat io = Linux" "ulBytesPerSector io = 512" "length (io_junk io) = MAX_DATA_LEN"
    and "dv_pos d = 0" "\<not> dv_readonly d" "512 dvd length (dv_data d)" "1024 \<le> length (dv_data d)"
  shows "\<exists>d'. write_rufus_mbr io d = (True, d') \<and>
    dv_data d' = memcpy_to 0x3fe [0x55, 0xAA] (memcpy_to 0 mbr_rufus_0x0 (dv_data d)) \<and>
    slice 0x1fe 2 (dv_data d') = slice 0x1fe 2 (dv_data d)"
proof -
  let ?d1 = "d\<lparr>dv_data := memcpy_to 0 mbr_rufus_0x0 (dv_data d), dv_pos := 512\<rparr>"
  let ?c2 = "memcpy_to 0x3fe [0x55, 0xAA] (memcpy_to 0 mbr_rufus_0x0 (dv_data d))"
  have "transfer_ok Linux 512 0 (length mbr_rufus_0x0) d"
    using assms by (simp add: transfer_ok_def base_position_def boot_lengths MAX_DATA_LEN_def)
  from write_data_ok [OF this assms(3,5), of "io_large_drive io"]
  have put1: "put_data io 0 mbr_rufus_0x0 d = (True, ?d1)"
    using assms(1,2,4) by (simp add: put_data_def base_position_def span_end_def boot_lengths)
  have "transfer_ok Linux 512 0x1fe (length [0x55, 0xAA :: byte]) ?d1"
    using assms(6,7) by (simp add: transfer_ok_def base_position_def boot_lengths MAX_DATA_LEN_def)
  from write_data_ok [OF this assms(3), of "io_large_drive io"]
  have put2: "\<exists>d2. put_data io 0x1fe [0x55, 0xAA] ?d1 = (True, d2) \<and> dv_data d2 = ?c2"
    using assms(1,2,5) by (simp add: put_data_def base_position_def)
  have "bootmark_loop io (0x1fe + 0x200) d2 = (True, d2)" for d2
    using assms(2) by (subst bootmark_loop.simps) simp
  then have "\<exists>d2. bootmark_loop io 0x1fe ?d1 = (True, d2) \<and> dv_data d2 = ?c2"
    using put2 assms(2) by (subst bootmark_loop.simps) auto
  then have "\<exists>d'. write_rufus_mbr io d = (True, d') \<and> dv_data d' = ?c2"
    using put1 by (auto simp: write_rufus_mbr_def write_bootmark_def)
  moreover have "slice 0x1fe 2 ?c2 = slice 0x1fe 2 (dv_data d)"
    using assms(7) by (simp add: slice_memcpy_to_other boot_lengths)
  ultimately show ?thesis by auto
qed

theorem linux_boot_marker_misplaced_witness:
  "\<exists>d'. write_rufus_mbr (sample_io Linux) (sample_drive False) = (True, d') \<and>
     slice 0x1fe 2 (dv_data d') = [0, 0]"
  using linux_boot_marker_misplaced [of "sample_io Linux" "sample_drive False"]
  by (auto simp: sample_io_def sample_drive_def MAX_DATA_LEN_def slice_def numeral_2_eq_2)

section \<open>FAT32 boot records\<close>

definition fat32_functions ::
    "((io_env \<Rightarrow> bool \<Rightarrow> drive \<Rightarrow> bool \<times> drive) \<times> (io_env \<Rightarrow> drive \<Rightarrow> bool \<times> drive)) list" where
  "fat32_functions = [
     (write_fat_32_br, entire_fat_32_br_matches),
     (write_fat_32_fd_br, entire_fat_32_fd_br_matches),
     (write_fat_32_nt_br, entire_fat_32_nt_br_matches),
     (write_fat_32_pe_br, entire_fat_32_pe_br_matches),
     (write_fat_32_ros_br, entire_fat_32_ros_br_matches),
     (write_fat_32_kos_br, entire_fat_32_kos_br_matches)]"

text \<open>What each writes besides the first eleven bytes and the label.\<close>

definition fat32_table :: "(nat \<times> bytes) list list" where
  "fat32_table = [
     [(0x52, br_fat32_0x52), (0x3f0, br_fat32_0x3f0)],
     [(0x52, br_fat32fd_0x52), (0x3f0, br_fat32fd_0x3f0)],
     [(0x52, br_fat32nt_0x52), (0x3f0, br_fat32nt_0x3f0), (0x1800, br_fat32nt_0x1800)],
     [(0x52, br_fat32pe_0x52), (0x3f0, br_fat32pe_0x3f0), (0x1800, br_fat32pe_0x1800)],
     [(0x52, br_fat32ros_0x52), (0x3f0, br_fat32ros_0x3f0), (0x1c00, br_fat32ros_0x1c00)],
     [(0x52, br_fat32kos_0x52)]]"

lemmas fat32_function_defs = write_fat_32_br_def entire_fat_32_br_matches_def
  write_fat_32_fd_br_def entire_fat_32_fd_br_matches_def
  write_fat_32_nt_br_def entire_fat_32_nt_br_matches_def
  write_fat_32_pe_br_def entire_fat_32_pe_br_matches_def
  write_fat_32_ros_br_def entire_fat_32_ros_br_matches_def
  write_fat_32_kos_br_def entire_fat_32_kos_br_matches_def

definition fat32_writes :: "bool \<Rightarrow> (nat \<times> bytes) list \<Rightarrow> (nat \<times> bytes) list" where
  "fat32_writes bKeepLabel ws = (0, br_fat32_0x0) # (if bKeepLabel then ws else (0x47, label_11_char) # ws)"

lemma fat32_functions_table:
  "map (\<lambda>(w, m). (w io keep, m io)) fat32_functions =
   map (\<lambda>ws. (all_of (map (case_prod (put_data io)) (fat32_writes keep ws)),
     all_of (map (case_prod (has_data io)) ((0, br_fat32_0x0) # ws)))) fat32_table"
  by (simp add: fat32_functions_def fat32_table_def fat32_function_defs fat32_writes_def)

text \<open>Writes in ascending, disjoint order are all still there at the end.\<close>

definition ascending :: "(nat \<times> bytes) list \<Rightarrow> bool" where
  "ascending ws \<longleftrightarrow> sorted_wrt (\<lambda>(p, x) (q, y). p + length x \<le> q) ws"

lemma ascending_simps [simp]:
  "ascending []" "ascending ((p, x) # ws) \<longleftrightarrow> (\<forall>(q, y) \<in> set ws. p + length x \<le> q) \<and> ascending ws"
  by (simp_all add: ascending_def)

lemma ascending_recognised:
  assumes "ascending ws" "writes_fit (length c) ws" "set hs \<subseteq> set ws"
  shows "recognised hs (apply_writes ws c)"
proof -
  have "slice p (length x) (apply_writes ws c) = x" if w: "(p, x) \<in> set ws" for p x
  proof -
    obtain vs us where ws: "ws = vs @ (p, x) # us"
      using w by (auto simp: in_set_conv_decomp)
    have "avoids p (length x) us"
      using assms(1) by (fastforce simp: ws ascending_def sorted_wrt_append avoids_def)
    then show ?thesis
      using slice_apply_writes_written [of c vs p x us "length x"] assms(2) by (simp add: ws)
  qed
  then show ?thesis
    using assms(3) by (auto simp: recognised_def)
qed

lemma put_all_ready:
  assumes "drive_ready io d" "\<forall>w \<in> set ws. fits (length (dv_data d)) w"
  shows "\<exists>d'. all_of (map (case_prod (put_data io)) ws) d = (True, d') \<and> drive_ready io d' \<and>
    dv_data d' = apply_writes ws (dv_data d)"
  using win.put_all [OF assms, of "[]"] by auto

text \<open>Writing ascending records and then looking for some of them.\<close>

lemma write_then_match:
  assumes "drive_ready io d" "\<forall>w \<in> set ws. fits (length (dv_data d)) w" "ascending ws" "set hs \<subseteq> set ws"
  shows "\<exists>d'. all_of (map (case_prod (put_data io)) ws) d = (True, d') \<and> drive_ready io d' \<and>
    fst (all_of (map (case_prod (has_data io)) hs) d') \<and> dv_data d' = apply_writes ws (dv_data d)"
proof -
  have fit: "writes_fit (length (dv_data d)) ws"
    using assms(2) by (auto simp: writes_fit_def fits_def)
  obtain d' where d': "all_of (map (case_prod (put_data io)) ws) d = (True, d')" "drive_ready io d'"
    "dv_data d' = apply_writes ws (dv_data d)"
    using put_all_ready [OF assms(1,2)] by blast
  then have "\<forall>w \<in> set hs. fits (length (dv_data d')) w"
    using assms(2,4) fit by (auto simp: length_apply_writes)
  then have "fst (all_of (map (case_prod (has_data io)) hs) d')"
    using win.has_all [OF d'(2)] ascending_recognised [OF assms(3) fit assms(4)] d'(3)
    by (simp add: recognised_def)
  then show ?thesis
    using d' by blast
qed

lemma fat32_table_rows:
  "list_all (\<lambda>ws. ascending ws \<and> (\<forall>w \<in> set ws. 0x52 \<le> fst w \<and> fits 0x2000 w)) fat32_table"
  by (simp add: fat32_table_def fits_def boot_lengths del: length_greater_0_conv)

lemma fat32_table_cluster_info:
  "k < length fat32_table \<Longrightarrow> k \<noteq> 3 \<Longrightarrow> avoids 0x3e8 8 (fat32_table ! k)"
  by (auto simp: fat32_table_def boot_lengths less_Suc_eq numeral_eq_Suc)

lemma fat32_writes_row:
  assumes "k < length fat32_table"
  shows "ascending (fat32_writes keep (fat32_table ! k))"
    and "\<forall>w \<in> set (fat32_writes keep (fat32_table ! k)). fits 0x2000 w"
    and "avoids 0x0b 0x3c (fat32_writes keep (fat32_table ! k))"
    and "avoids 0x47 11 (fat32_table ! k)"
proof -
  have row: "ascending (fat32_table ! k)" "\<forall>w \<in> set (fat32_table ! k). 0x52 \<le> fst w \<and> fits 0x2000 w"
    using fat32_table_rows assms by (auto simp: list_all_length)
  then show "ascending (fat32_writes keep (fat32_table ! k))"
    by (fastforce simp: fat32_writes_def boot_lengths)
  show "\<forall>w \<in> set (fat32_writes keep (fat32_table ! k)). fits 0x2000 w"
    using row(2) by (auto simp: fat32_writes_def fits_def boot_lengths simp del: length_greater_0_conv)
  show "avoids 0x0b 0x3c (fat32_writes keep (fat32_table ! k))" "avoids 0x47 11 (fat32_table ! k)"
    using row(2) by (fastforce simp: fat32_writes_def avoids_def boot_lengths)+
qed

lemma fat32_functions_nth:
  assumes "k < length fat32_functions"
  shows "fst (fat32_functions ! k) io keep = all_of (map (case_prod (put_data io)) (fat32_writes keep (fat32_table ! k)))"
    and "snd (fat32_functions ! k) io = all_of (map (case_prod (has_data io)) ((0, br_fat32_0x0) # fat32_table ! k))"
    and "k < length fat32_table"
proof -
  show k: "k < length fat32_table"
    using assms map_eq_imp_length_eq [OF fat32_functions_table] by simp
  have "(case fat32_functions ! k of (w, m) \<Rightarrow> (w io keep, m io)) =
      (all_of (map (case_prod (put_data io)) (fat32_writes keep (fat32_table ! k))),
       all_of (map (case_prod (has_data io)) ((0, br_fat32_0x0) # fat32_table ! k)))"
    using arg_cong [OF fat32_functions_table [of io keep], of "\<lambda>l. l ! k"] assms k by simp
  then show "fst (fat32_functions ! k) io keep = all_of (map (case_prod (put_data io)) (fat32_writes keep (fat32_table ! k)))"
    "snd (fat32_functions ! k) io = all_of (map (case_prod (has_data io)) ((0, br_fat32_0x0) # fat32_table ! k))"
    by (simp_all split: prod.splits)
qed

lemma fits_mono: "fits m w \<Longrightarrow> m \<le> n \<Longrightarrow> fits n w"
  by (simp add: fits_def)

text \<open>
  C26. Each of the six FAT32 boot record writers, on a writable drive of at least 8 KiB through the Windows
  layer, at the start of the drive and for every sector size that is a multiple of 512 up to 16 KiB,
  succeeds and leaves a drive that its own \<^verbatim>\<open>entire_fat_32_..._matches\<close> accepts. The BIOS parameter block (bytes 0x0b to 0x46)
  is kept; the volume label is kept when \<^verbatim>\<open>bKeepLabel\<close> is set and becomes \<^verbatim>\<open>"NO NAME    "\<close> otherwise; and all
  writers but the \<^verbatim>\<open>pe\<close> one, number 3 of the list, keep the cluster information at 0x3e8. Through the Linux layer the second and later
  writes are displaced, as the theorem on the boot marker above shows, and this is not claimed.
\<close>

theorem fat32_boot_record_written:
  assumes "drive_ready io d" "0x2000 \<le> length (dv_data d)" "k < length fat32_functions"
  shows "\<exists>d'. fst (fat32_functions ! k) io keep d = (True, d') \<and> fst (snd (fat32_functions ! k) io d') \<and>
    slice 0x0b 0x3c (dv_data d') = slice 0x0b 0x3c (dv_data d) \<and>
    slice 0x47 11 (dv_data d') = (if keep then slice 0x47 11 (dv_data d) else label_11_char) \<and>
    (k \<noteq> 3 \<longrightarrow> slice 0x3e8 8 (dv_data d') = slice 0x3e8 8 (dv_data d))"
proof -
  let ?row = "fat32_table ! k"
  let ?ws = "fat32_writes keep ?row"
  have k: "k < length fat32_table"
    using fat32_functions_nth(3) [OF assms(3)] .
  note row = fat32_writes_row [OF k]
  have fits: "\<forall>w \<in> set ?ws. fits (length (dv_data d)) w"
    using row(2) assms(2) fits_mono by blast
  then have fit: "writes_fit (length (dv_data d)) ?ws"
    by (auto simp: writes_fit_def fits_def)
  have sub: "set ((0, br_fat32_0x0) # ?row) \<subseteq> set ?ws"
    by (auto simp: fat32_writes_def)
  obtain d' where d': "fst (fat32_functions ! k) io keep d = (True, d')" "fst (snd (fat32_functions ! k) io d')"
    "dv_data d' = apply_writes ?ws (dv_data d)"
    using write_then_match [OF assms(1) fits row(1) sub] unfolding fat32_functions_nth [OF assms(3)] by blast
  have bpb: "slice 0x0b 0x3c (dv_data d') = slice 0x0b 0x3c (dv_data d)"
    unfolding d'(3) using slice_apply_writes_avoids [OF fit row(3)] assms(2) by simp
  have label: "slice 0x47 11 (dv_data d') = (if keep then slice 0x47 11 (dv_data d) else label_11_char)"
  proof (cases keep)
    case True
    then show ?thesis
      unfolding d'(3) using slice_apply_writes_avoids [OF fit, of "0x47" 11] row(4) assms(2)
      by (simp add: fat32_writes_def boot_lengths)
  next
    case False
    then show ?thesis
      unfolding d'(3)
      using slice_apply_writes_written [of "dv_data d" "[(0, br_fat32_0x0)]" "0x47" label_11_char ?row 11] row(4) fit
      by (simp add: fat32_writes_def boot_lengths)
  qed
  have info: "slice 0x3e8 8 (dv_data d') = slice 0x3e8 8 (dv_data d)" if "k \<noteq> 3"
    unfolding d'(3) using slice_apply_writes_avoids [OF fit, of "0x3e8" 8] fat32_table_cluster_info [OF k that] assms(2)
    by (simp add: fat32_writes_def boot_lengths)
  show ?thesis
    using d'(1,2) bpb label info by blast
qed

definition sample_drive_8k :: drive where
  "sample_drive_8k = \<lparr>dv_data = replicate 8192 0, dv_pos = 0, dv_base = 0, dv_readonly = False\<rparr>"

lemma sample_8k_ready: "drive_ready (sample_io Win32) sample_drive_8k" "length (dv_data sample_drive_8k) = 8192"
  by (simp_all add: drive_ready_def sample_io_def sample_drive_8k_def MAX_DATA_LEN_def)

theorem fat32_boot_record_written_witness:
  "\<exists>d'. write_fat_32_fd_br (sample_io Win32) False sample_drive_8k = (True, d') \<and>
     fst (entire_fat_32_fd_br_matches (sample_io Win32) d') \<and> slice 0x47 11 (dv_data d') = label_11_char"
  using fat32_boot_record_written [OF sample_8k_ready(1), of 1 False]
  by (auto simp: fat32_functions_def sample_8k_ready)

text \<open>
  The \<^verbatim>\<open>pe\<close> boot record overwrites cluster information that its comment says is not overwritten: the free
  cluster count at 0x3e8 becomes 0 and the first byte of the next free cluster at 0x3ec becomes 2.
\<close>

theorem fat32_pe_overwrites_cluster_info:
  assumes "drive_ready io d" "0x2000 \<le> length (dv_data d)"
  shows "\<exists>d'. write_fat_32_pe_br io keep d = (True, d') \<and> slice 0x3e8 5 (dv_data d') = [0, 0, 0, 0, 2]"
proof -
  let ?row = "fat32_table ! 3"
  let ?ws = "fat32_writes keep ?row"
  have k: "3 < length fat32_functions" "3 < length fat32_table"
    by (simp_all add: fat32_functions_def fat32_table_def)
  note row = fat32_writes_row [OF k(2)]
  have fits: "\<forall>w \<in> set ?ws. fits (length (dv_data d)) w"
    using row(2) assms(2) fits_mono by blast
  then have fit: "writes_fit (length (dv_data d)) ?ws"
    by (auto simp: writes_fit_def fits_def)
  have pe: "fst (fat32_functions ! 3) = write_fat_32_pe_br" "(0x52, br_fat32pe_0x52) \<in> set ?ws"
    by (simp_all add: fat32_functions_def fat32_table_def fat32_writes_def)
  obtain d' where d': "write_fat_32_pe_br io keep d = (True, d')" "dv_data d' = apply_writes ?ws (dv_data d)"
    using put_all_ready [OF assms(1) fits] fat32_functions_nth(1) [OF k(1), of io keep] pe(1) by auto
  have "slice 0x52 923 (dv_data d') = br_fat32pe_0x52"
    using ascending_recognised [OF row(1) fit, of "[(0x52, br_fat32pe_0x52)]"] pe(2) d'(2)
    by (simp add: recognised_def boot_lengths)
  then have "slice 918 5 (slice 0x52 923 (dv_data d')) = slice 918 5 br_fat32pe_0x52"
    by simp
  moreover have "slice 918 5 br_fat32pe_0x52 = [0, 0, 0, 0, 2]"
    by code_simp
  ultimately show ?thesis
    using d'(1) by (simp add: slice_slice)
qed

theorem fat32_pe_overwrites_cluster_info_witness:
  "\<exists>d'. write_fat_32_pe_br (sample_io Win32) True sample_drive_8k = (True, d') \<and> slice 0x3e8 5 (dv_data d') = [0, 0, 0, 0, 2]"
  using fat32_pe_overwrites_cluster_info [OF sample_8k_ready(1)] by (simp add: sample_8k_ready)

section \<open>Other records\<close>

definition other_functions ::
    "((io_env \<Rightarrow> bool \<Rightarrow> drive \<Rightarrow> bool \<times> drive) \<times> (io_env \<Rightarrow> drive \<Rightarrow> bool \<times> drive) \<times> nat) list" where
  "other_functions = [
     (write_fat_12_br, entire_fat_12_br_matches, 0x2b), (write_fat_16_br, entire_fat_16_br_matches, 0x2b),
     (write_fat_16_fd_br, entire_fat_16_fd_br_matches, 0x2b), (write_fat_16_ros_br, entire_fat_16_ros_br_matches, 0x2b),
     (\<lambda>io keep. write_ntfs_br io, entire_ntfs_br_matches, 0x54)]"

lemma label_not_Nil: "label_11_char \<noteq> []"
  by (simp add: label_11_char_def)

lemma pair_boot_record:
  assumes "drive_ready io d" "0x2000 \<le> length (dv_data d)" "length code = 11" "lab = [] \<or> lab = [(0x2b, label_11_char)]"
    and "(lim = 0x2b \<and> off = 0x3e) \<or> (lim = 0x54 \<and> off = 0x54 \<and> lab = [])" "0 < length body" "length body \<le> 4052"
  shows "\<exists>d'. all_of (put_data io 0 code # map (case_prod (put_data io)) lab @ [put_data io off body]) d = (True, d') \<and>
    fst (all_of [has_data io 0 code, has_data io off body] d') \<and>
    slice 0x0b (lim - 0x0b) (dv_data d') = slice 0x0b (lim - 0x0b) (dv_data d)"
proof -
  let ?ws = "(0, code) # lab @ [(off, body)]"
  have asc: "ascending ?ws"
    using assms(3-5) by (auto simp: boot_lengths)
  have fits: "\<forall>w \<in> set ?ws. fits (length (dv_data d)) w"
    using assms(2-7) label_not_Nil by (auto simp: fits_def boot_lengths simp del: length_greater_0_conv)
  then have fit: "writes_fit (length (dv_data d)) ?ws"
    by (auto simp: writes_fit_def fits_def)
  have av: "avoids 0x0b (lim - 0x0b) ?ws"
    using assms(3-5) by auto
  obtain d' where d': "all_of (map (case_prod (put_data io)) ?ws) d = (True, d')"
    "fst (all_of (map (case_prod (has_data io)) [(0, code), (off, body)]) d')" "dv_data d' = apply_writes ?ws (dv_data d)"
    using write_then_match [OF assms(1) fits asc, of "[(0, code), (off, body)]"] by auto
  moreover have "slice 0x0b (lim - 0x0b) (dv_data d') = slice 0x0b (lim - 0x0b) (dv_data d)"
    unfolding d'(3) using slice_apply_writes_avoids [OF fit av] assms(2,5) by auto
  ultimately show ?thesis
    by (simp del: all_of.simps)
qed

text \<open>
  The FAT12, FAT16 (plain, FreeDOS and ReactOS) and NTFS boot record writers, on a ready drive of at least
  8 KiB, succeed, are recognised by their own matcher, and keep the BIOS parameter block up to the
  label (FAT) or up to the boot code (NTFS).
\<close>

theorem other_boot_records_written:
  assumes "drive_ready io d" "0x2000 \<le> length (dv_data d)" "(w, m, lim) \<in> set other_functions"
  shows "\<exists>d'. w io keep d = (True, d') \<and> fst (m io d') \<and> slice 0x0b (lim - 0x0b) (dv_data d') = slice 0x0b (lim - 0x0b) (dv_data d)"
proof -
  define lab where "lab = (if keep then [] else [(0x2b :: nat, label_11_char)])"
  have lab: "lab = [] \<or> lab = [(0x2b, label_11_char)]"
    by (simp add: lab_def)
  note rec = pair_boot_record [OF assms(1,2), of _ lab lim "0x3e"]
  consider "w = write_fat_12_br" "m = entire_fat_12_br_matches" "lim = 0x2b"
    | "w = write_fat_16_br" "m = entire_fat_16_br_matches" "lim = 0x2b"
    | "w = write_fat_16_fd_br" "m = entire_fat_16_fd_br_matches" "lim = 0x2b"
    | "w = write_fat_16_ros_br" "m = entire_fat_16_ros_br_matches" "lim = 0x2b"
    | "w = (\<lambda>io keep. write_ntfs_br io)" "m = entire_ntfs_br_matches" "lim = 0x54"
    using assms(3) by (auto simp: other_functions_def)
  then show ?thesis
  proof cases
    case 1
    then show ?thesis
      using rec [of br_fat12_0x0 br_fat12_0x3e] lab
      by (simp add: lab_def write_fat_12_br_def entire_fat_12_br_matches_def boot_lengths
          del: all_of.simps length_greater_0_conv split: if_splits)
  next
    case 2
    then show ?thesis
      using rec [of br_fat16_0x0 br_fat16_0x3e] lab
      by (simp add: lab_def write_fat_16_br_def entire_fat_16_br_matches_def boot_lengths
          del: all_of.simps length_greater_0_conv split: if_splits)
  next
    case 3
    then show ?thesis
      using rec [of br_fat16_0x0 br_fat16fd_0x3e] lab
      by (simp add: lab_def write_fat_16_fd_br_def entire_fat_16_fd_br_matches_def boot_lengths
          del: all_of.simps length_greater_0_conv split: if_splits)
  next
    case 4
    then show ?thesis
      using rec [of br_fat16ros_0x0 br_fat16ros_0x3e] lab
      by (simp add: lab_def write_fat_16_ros_br_def entire_fat_16_ros_br_matches_def boot_lengths
          del: all_of.simps length_greater_0_conv split: if_splits)
  next
    case 5
    then show ?thesis
      using pair_boot_record [OF assms(1,2), of br_ntfs_0x0 "[]" lim "0x54" br_ntfs_0x54]
      by (simp add: write_ntfs_br_def entire_ntfs_br_matches_def boot_lengths del: all_of.simps length_greater_0_conv)
  qed
qed

theorem other_boot_records_written_witness:
  "\<exists>d'. write_ntfs_br (sample_io Win32) sample_drive_8k = (True, d') \<and> fst (entire_ntfs_br_matches (sample_io Win32) d')"
  using other_boot_records_written [OF sample_8k_ready(1), of "\<lambda>io keep. write_ntfs_br io" entire_ntfs_br_matches "0x54" False]
  by (auto simp: sample_8k_ready other_functions_def)

text \<open>
  A disk signature written with \<^verbatim>\<open>write_windows_disk_signature\<close> is what \<^verbatim>\<open>read_windows_disk_signature\<close>
  returns, and writing it leaves the boot code before it and the partition table after it unchanged.
\<close>

theorem disk_signature_roundtrip:
  assumes "drive_ready io d"
  shows "\<exists>d'. write_windows_disk_signature io sig d = (True, d') \<and> fst (read_windows_disk_signature io d') = sig \<and>
    take 0x1b8 (dv_data d') = take 0x1b8 (dv_data d) \<and> slice 0x1be 66 (dv_data d') = slice 0x1be 66 (dv_data d)"
proof -
  have len: "512 \<le> length (dv_data d)"
    using ready_length [OF assms] .
  then have "fits (length (dv_data d)) (0x1b8, le_bytes 4 sig)"
    by (simp add: fits_def del: length_greater_0_conv)
  from win.put_ready [OF assms this] obtain d' where d': "put_data io 0x1b8 (le_bytes 4 sig) d = (True, d')"
    "drive_ready io d'" "dv_data d' = memcpy_to 0x1b8 (le_bytes 4 sig) (dv_data d)"
    by blast
  have "fits (length (dv_data d')) (0x1b8, le_bytes 4 sig)"
    using len d'(3) by (simp add: fits_def del: length_greater_0_conv)
  then have "fst (get_data io 0x1b8 4 d') = Some (slice 0x1b8 4 (dv_data d'))"
    using read_data_ok [OF drive_ready_transfer [OF d'(2)], of "0x1b8" "le_bytes 4 sig" "io_junk io"] d'(2)
    by (simp add: get_data_def drive_ready_def base_position_def)
  moreover have "slice 0x1b8 4 (dv_data d') = le_bytes 4 sig"
    using len d'(3) by (simp add: slice_memcpy_to_same)
  ultimately have "fst (read_windows_disk_signature io d') = sig"
    by (auto simp: read_windows_disk_signature_def split: prod.splits)
  then show ?thesis
    using d' len by (simp add: write_windows_disk_signature_def take_memcpy_to slice_memcpy_to_other)
qed

theorem disk_signature_roundtrip_witness:
  "\<exists>d'. write_windows_disk_signature (sample_io Win32) 0xDEADBEEF (sample_drive False) = (True, d') \<and>
     fst (read_windows_disk_signature (sample_io Win32) d') = 0xDEADBEEF"
  using disk_signature_roundtrip [OF sample_ready, of "0xDEADBEEF"] by blast

end
