(* ===== verification/Libfat.thy ===== *)
theory Libfat
  imports Rufus_Prelude
begin

text \<open>
  The FAT reader of \<^verbatim>\<open>src/syslinux/libfat\<close>: the sector cache (\<^verbatim>\<open>cache.c\<close>), opening a file system
  (\<^verbatim>\<open>open.c\<close>), cluster chains (\<^verbatim>\<open>fatchain.c\<close>) and the search of a directory (\<^verbatim>\<open>searchdir.c\<close>).
  The caller's read function is an argument: sector numbers to sectors, \<open>None\<close> for a read error. The
  sector size is \<open>2 ^ sh\<close>. All sector numbers of an opened file system are below \<open>2 ^ 41\<close>, so they are
  natural numbers here; \<open>None\<close> stands for the sector number \<open>-1\<close> that the code uses for errors.
\<close>

section \<open>The code\<close>

datatype fat_type = FAT12 | FAT16 | FAT28

type_synonym reader = "nat \<Rightarrow> bytes option"

record libfat_filesystem =
  ff_type :: fat_type
  ff_clustsize :: nat
  ff_clustshift :: nat
  ff_endcluster :: int
  ff_rootcluster :: int
  ff_fat :: nat
  ff_rootdir :: nat
  ff_data :: nat
  ff_end :: nat
  ff_sectors :: "(nat \<times> bytes) list"

definition read8 :: "bytes \<Rightarrow> nat \<Rightarrow> nat" where
  "read8 b i = unat (b ! i)"

definition read16 :: "bytes \<Rightarrow> nat \<Rightarrow> nat" where
  "read16 b i = unat (le_word (slice i 2 b) :: u16)"

definition read32 :: "bytes \<Rightarrow> nat \<Rightarrow> nat" where
  "read32 b i = unat (le_word (slice i 4 b) :: u32)"

subsection \<open>Cache\<close>

text \<open>\<^verbatim>\<open>libfat_get_sector\<close>, when memory for a sector can be allocated.\<close>

definition libfat_get_sector :: "reader \<Rightarrow> libfat_filesystem \<Rightarrow> nat \<Rightarrow> bytes option \<times> libfat_filesystem" where
  "libfat_get_sector rd fs n =
     (case map_of (ff_sectors fs) n of
        Some d \<Rightarrow> (Some d, fs)
      | None \<Rightarrow>
          (case rd n of
             None \<Rightarrow> (None, fs)
           | Some d \<Rightarrow> (Some d, fs\<lparr>ff_sectors := (n, d) # ff_sectors fs\<rparr>)))"

definition libfat_flush :: "libfat_filesystem \<Rightarrow> libfat_filesystem" where
  "libfat_flush fs = fs\<lparr>ff_sectors := []\<rparr>"

subsection \<open>Opening\<close>

definition libfat_open :: "nat \<Rightarrow> reader \<Rightarrow> libfat_filesystem option" where
  "libfat_open sh rd =
     (case rd 0 of
        None \<Rightarrow> None
      | Some bs \<Rightarrow>
          if read16 bs 11 \<noteq> 2 ^ sh then None
          else (case List.find (\<lambda>i. 2 ^ i mod 256 = read8 bs 13) [0..<9] of
                  None \<Rightarrow> None
                | Some i \<Rightarrow>
                    let sectors = (if read16 bs 19 = 0 then read32 bs 32 else read16 bs 19);
                        fat = read16 bs 14;
                        fatsize = (if read16 bs 22 = 0 then read32 bs 36 else read16 bs 22);
                        rootdir = fat + fatsize * read8 bs 16;
                        rootdirsize = (read16 bs 17 * 32 + (2 ^ sh - 1)) div 2 ^ sh;
                        data = rootdir + rootdirsize
                    in if data \<ge> sectors then None
                       else let nclusters = (sectors - data) div 2 ^ i;
                                endcluster = nclusters + 2
                         in if nclusters > 0xffffff4 then None
                            else let typ = (if nclusters \<le> 0xff4 then FAT12 else if nclusters \<le> 0xfff4 then FAT16 else FAT28);
                                     minfatsize = (case typ of FAT12 \<Rightarrow> endcluster + endcluster div 2
                                                   | FAT16 \<Rightarrow> endcluster * 2 | FAT28 \<Rightarrow> endcluster * 4);
                                     minfatsize = (minfatsize + 2 ^ sh - 1) div 2 ^ sh
                              in if minfatsize > fatsize then None
                                 else Some \<lparr>ff_type = typ, ff_clustsize = 2 ^ i, ff_clustshift = i,
                                   ff_endcluster = int endcluster,
                                   ff_rootcluster = (if typ = FAT28 then sint (le_word (slice 44 4 bs) :: u32) else 0),
                                   ff_fat = fat, ff_rootdir = rootdir, ff_data = data, ff_end = sectors,
                                   ff_sectors = [(0, bs)]\<rparr>))"

subsection \<open>Chains\<close>

definition libfat_clustertosector :: "libfat_filesystem \<Rightarrow> int \<Rightarrow> nat option" where
  "libfat_clustertosector fs cluster =
     (let cluster = (if cluster = 0 then ff_rootcluster fs else cluster)
      in if cluster = 0 then Some (ff_rootdir fs)
         else if cluster < 2 \<or> cluster \<ge> ff_endcluster fs then None
         else Some (ff_data fs + nat (cluster - 2) * 2 ^ ff_clustshift fs))"

text \<open>Byte \<open>off\<close> of the FAT, through the cache.\<close>

definition fat_sector :: "nat \<Rightarrow> reader \<Rightarrow> libfat_filesystem \<Rightarrow> nat \<Rightarrow> bytes option \<times> libfat_filesystem" where
  "fat_sector sh rd fs off = libfat_get_sector rd fs (ff_fat fs + off div 2 ^ sh)"

text \<open>
  \<^verbatim>\<open>libfat_nextsector\<close>. \<^verbatim>\<open>~rs & clustmask\<close> is non-zero when \<open>rs\<close> is not the last sector of its cluster:
  the cluster size is a power of two.
\<close>

definition libfat_nextsector ::
    "nat \<Rightarrow> reader \<Rightarrow> libfat_filesystem \<Rightarrow> nat \<Rightarrow> nat option \<times> libfat_filesystem" where
  "libfat_nextsector sh rd fs s =
     (if s < ff_data fs then
        if s < ff_rootdir fs then (None, fs)
        else (Some (if s + 1 < ff_data fs then s + 1 else 0), fs)
      else
        let rs = s - ff_data fs; mask = 2 ^ sh - 1
        in if rs mod ff_clustsize fs \<noteq> ff_clustsize fs - 1 then (Some (s + 1), fs)
           else let cluster = 2 + rs div 2 ^ ff_clustshift fs
             in if int cluster \<ge> ff_endcluster fs then (None, fs)
                else case ff_type fs of
                  FAT12 \<Rightarrow>
                    (let off = cluster + cluster div 2 in
                     case fat_sector sh rd fs off of
                       (None, fs) \<Rightarrow> (None, fs)
                     | (Some d, fs) \<Rightarrow>
                         let nextcluster = read8 d (off AND mask); off = off + 1 in
                         (case fat_sector sh rd fs off of
                            (None, fs) \<Rightarrow> (None, fs)
                          | (Some d, fs) \<Rightarrow>
                              let nextcluster = nextcluster OR push_bit 8 (read8 d (off AND mask));
                                  nextcluster = (if odd cluster then drop_bit 4 nextcluster else nextcluster AND 0x0FFF)
                              in (if nextcluster \<ge> 0x0FF8 then Some 0
                                  else libfat_clustertosector fs (int nextcluster), fs)))
                | FAT16 \<Rightarrow>
                    (let off = cluster * 2 in
                     case fat_sector sh rd fs off of
                       (None, fs) \<Rightarrow> (None, fs)
                     | (Some d, fs) \<Rightarrow>
                         let nextcluster = read16 d (off AND mask)
                         in (if nextcluster \<ge> 0x0FFF8 then Some 0
                             else libfat_clustertosector fs (int nextcluster), fs))
                | FAT28 \<Rightarrow>
                    (let off = cluster * 4 in
                     case fat_sector sh rd fs off of
                       (None, fs) \<Rightarrow> (None, fs)
                     | (Some d, fs) \<Rightarrow>
                         let nextcluster = read32 d (off AND mask) AND 0x0FFFFFFF
                         in (if nextcluster \<ge> 0x0FFFFFF8 then Some 0
                             else libfat_clustertosector fs (int nextcluster), fs)))"

subsection \<open>Directory search\<close>

text \<open>
  A directory entry is 32 bytes: name at 0 (11 bytes), attribute at 11, \<^verbatim>\<open>clusthi\<close> at 20, \<^verbatim>\<open>clustlo\<close> at 26,
  \<^verbatim>\<open>size\<close> at 28. The scan of one sector: \<open>Inl (r, place)\<close> is \<^verbatim>\<open>return r\<close> with the offset of the entry if one was
  found, \<open>Inr ()\<close> is the end of the sector.
\<close>

definition dirent_cluster :: "bytes \<Rightarrow> int" where
  "dirent_cluster e = (if read32 e 28 = 0 then 0
     else sint (of_nat (read16 e 26) + push_bit 16 (of_nat (read16 e 20)) :: u32))"

fun scan_sector :: "bytes \<Rightarrow> bytes \<Rightarrow> nat \<Rightarrow> nat \<Rightarrow> int \<times> nat option + unit" where
  "scan_sector name d nent 0 = Inr ()"
| "scan_sector name d nent (Suc k) =
     (let e = slice nent 32 d
      in if (e ! 11) AND 0x48 = 0 \<and> take 11 e = name then Inl (dirent_cluster e, Some nent)
         else if e ! 0 = 0 then Inl (- 2, None)
         else scan_sector name d (nent + 32) k)"

text \<open>
  \<^verbatim>\<open>libfat_searchdir\<close> from sector \<open>s\<close>: the returned number, and the place of the entry (sector and
  offset) when it was found. \<open>None\<close> is a search that never ends.
\<close>

partial_function (option) searchdir_loop ::
    "nat \<Rightarrow> reader \<Rightarrow> bytes \<Rightarrow> libfat_filesystem \<Rightarrow> nat option \<Rightarrow>
     ((int \<times> (nat \<times> nat) option) \<times> libfat_filesystem) option" where
  [code]: "searchdir_loop sh rd name fs s =
     (case s of
        None \<Rightarrow> Some ((- 1, None), fs)
      | Some s \<Rightarrow>
          if s = 0 then Some ((- 2, None), fs)
          else (case libfat_get_sector rd fs s of
                  (None, fs) \<Rightarrow> Some ((- 1, None), fs)
                | (Some d, fs) \<Rightarrow>
                    (case scan_sector name d 0 (2 ^ sh div 32) of
                       Inl (r, place) \<Rightarrow> Some ((r, map_option (Pair s) place), fs)
                     | Inr _ \<Rightarrow>
                         (case libfat_nextsector sh rd fs s of
                            (s', fs') \<Rightarrow> searchdir_loop sh rd name fs' s'))))"

definition libfat_searchdir ::
    "nat \<Rightarrow> reader \<Rightarrow> libfat_filesystem \<Rightarrow> int \<Rightarrow> bytes \<Rightarrow>
     ((int \<times> (nat \<times> nat) option) \<times> libfat_filesystem) option" where
  "libfat_searchdir sh rd fs dirclust name =
     searchdir_loop sh rd name fs (libfat_clustertosector fs dirclust)"

section \<open>The cache is transparent\<close>

text \<open>The cached sectors are what the read function returns.\<close>

definition cache_ok :: "reader \<Rightarrow> libfat_filesystem \<Rightarrow> bool" where
  "cache_ok rd fs \<longleftrightarrow> (\<forall>(n, d) \<in> set (ff_sectors fs). rd n = Some d)"

text \<open>Two states of the same file system: they differ in the cache only.\<close>

definition same_fs :: "libfat_filesystem \<Rightarrow> libfat_filesystem \<Rightarrow> bool" where
  "same_fs fs fs' \<longleftrightarrow> fs'\<lparr>ff_sectors := []\<rparr> = fs\<lparr>ff_sectors := []\<rparr>"

lemma same_fs_refl [simp]: "same_fs fs fs"
  by (simp add: same_fs_def)

lemma same_fs_trans: "same_fs a b \<Longrightarrow> same_fs b c \<Longrightarrow> same_fs a c"
  by (simp add: same_fs_def)

lemma same_fs_fields:
  assumes "same_fs fs fs'"
  shows "ff_type fs' = ff_type fs" "ff_clustsize fs' = ff_clustsize fs" "ff_clustshift fs' = ff_clustshift fs"
    "ff_endcluster fs' = ff_endcluster fs" "ff_rootcluster fs' = ff_rootcluster fs" "ff_fat fs' = ff_fat fs"
    "ff_rootdir fs' = ff_rootdir fs" "ff_data fs' = ff_data fs" "ff_end fs' = ff_end fs"
  using assms by (cases fs; cases fs'; simp add: same_fs_def)+

lemma libfat_get_sector_ok:
  assumes "cache_ok rd fs"
  shows "fst (libfat_get_sector rd fs n) = rd n" "cache_ok rd (snd (libfat_get_sector rd fs n))"
    "same_fs fs (snd (libfat_get_sector rd fs n))"
proof -
  have "rd n = Some d" if "map_of (ff_sectors fs) n = Some d" for d
    using assms map_of_SomeD [OF that] by (auto simp: cache_ok_def)
  then show "fst (libfat_get_sector rd fs n) = rd n" "cache_ok rd (snd (libfat_get_sector rd fs n))"
    "same_fs fs (snd (libfat_get_sector rd fs n))"
    using assms by (auto simp: libfat_get_sector_def cache_ok_def same_fs_def split: option.splits)
qed

lemma fat_sector_ok:
  assumes "cache_ok rd fs" "fat_sector sh rd fs off = (r, fs')"
  shows "r = rd (ff_fat fs + off div 2 ^ sh)" "cache_ok rd fs'" "same_fs fs fs'"
  using libfat_get_sector_ok [OF assms(1), of "ff_fat fs + off div 2 ^ sh"] assms(2)
  by (simp_all add: fat_sector_def)

section \<open>Cluster chains\<close>

text \<open>Byte \<open>i\<close> of the file allocation table, and entry \<open>c\<close> of it as the FAT formats define it.\<close>

definition fat_byte :: "nat \<Rightarrow> reader \<Rightarrow> libfat_filesystem \<Rightarrow> nat \<Rightarrow> nat option" where
  "fat_byte sh rd fs i = map_option (\<lambda>d. read8 d (i mod 2 ^ sh)) (rd (ff_fat fs + i div 2 ^ sh))"

definition fat_entry :: "nat \<Rightarrow> reader \<Rightarrow> libfat_filesystem \<Rightarrow> nat \<Rightarrow> nat option" where
  "fat_entry sh rd fs c =
     (let b = fat_byte sh rd fs in
      case ff_type fs of
        FAT12 \<Rightarrow>
          (let k = 3 * (c div 2) in
           if even c
           then Option.bind (b k) (\<lambda>x. Option.bind (b (k + 1)) (\<lambda>y. Some (x + 256 * (y mod 16))))
           else Option.bind (b (k + 1)) (\<lambda>x. Option.bind (b (k + 2)) (\<lambda>y. Some (x div 16 + 16 * y))))
      | FAT16 \<Rightarrow> Option.bind (b (2 * c)) (\<lambda>x. Option.bind (b (2 * c + 1)) (\<lambda>y. Some (x + 256 * y)))
      | FAT28 \<Rightarrow>
          Option.bind (b (4 * c)) (\<lambda>x. Option.bind (b (4 * c + 1)) (\<lambda>y.
          Option.bind (b (4 * c + 2)) (\<lambda>z. Option.bind (b (4 * c + 3)) (\<lambda>w.
            Some ((x + 256 * y + 65536 * z + 16777216 * w) mod 2 ^ 28))))))"

definition end_of_chain :: "fat_type \<Rightarrow> nat \<Rightarrow> bool" where
  "end_of_chain t v \<longleftrightarrow> (case t of FAT12 \<Rightarrow> 0xFF8 \<le> v | FAT16 \<Rightarrow> 0xFFF8 \<le> v | FAT28 \<Rightarrow> 0xFFFFFF8 \<le> v)"

text \<open>The sector after \<open>s\<close>, without a cache.\<close>

definition next_sector :: "nat \<Rightarrow> reader \<Rightarrow> libfat_filesystem \<Rightarrow> nat \<Rightarrow> nat option" where
  "next_sector sh rd fs s =
     (if s < ff_rootdir fs \<and> s < ff_data fs then None
      else if s < ff_data fs then Some (if s + 1 = ff_data fs then 0 else s + 1)
      else if (s - ff_data fs) mod ff_clustsize fs + 1 \<noteq> ff_clustsize fs then Some (s + 1)
      else let c = 2 + (s - ff_data fs) div ff_clustsize fs
        in if ff_endcluster fs \<le> int c then None
           else case fat_entry sh rd fs c of
             None \<Rightarrow> None
           | Some v \<Rightarrow> if end_of_chain (ff_type fs) v then Some 0 else libfat_clustertosector fs (int v))"

lemma and_mask_mod: "(x::nat) AND (2 ^ n - 1) = x mod 2 ^ n"
  using take_bit_eq_mask [of n x] by (simp add: mask_eq_exp_minus_1 take_bit_eq_mod)

lemma or_push_bit_8:
  assumes "x < 256"
  shows "x OR push_bit 8 y = x + 256 * (y::nat)"
proof -
  have "take_bit 8 x = x"
    using assms by (simp add: take_bit_nat_eq_self)
  then have "\<not> bit x n" if "8 \<le> n" for n
    using that bit_take_bit_iff [of 8 x n] by simp
  then have "x AND push_bit 8 y = 0"
    by (intro bit_eqI) (auto simp: bit_simps)
  then show ?thesis
    by (simp add: disjunctive_add_eq_or [symmetric] push_bit_eq_mult)
qed

lemma read8_less: "read8 d i < 256"
  using unsigned_less [of "d ! i", where 'a = nat] by (simp add: read8_def)

lemma slice_enum:
  "i + 2 \<le> length d \<Longrightarrow> slice i 2 d = [d ! i, d ! (i + 1)]"
  "i + 4 \<le> length d \<Longrightarrow> slice i 4 d = [d ! i, d ! (i + 1), d ! (i + 2), d ! (i + 3)]"
  by (intro nth_equalityI; force simp: slice_nth nth_Cons' numeral_eq_Suc less_Suc_eq)+

lemma read16_bytes: "i + 2 \<le> length d \<Longrightarrow> read16 d i = read8 d i + 256 * read8 d (i + 1)"
  using unat_le_word [of "slice i 2 d", where 'a = 16]
  by (simp add: read16_def read8_def slice_enum del: le_word.simps)

lemma read32_bytes:
  "i + 4 \<le> length d \<Longrightarrow>
   read32 d i = read8 d i + 256 * read8 d (i + 1) + 65536 * read8 d (i + 2) + 16777216 * read8 d (i + 3)"
  using unat_le_word [of "slice i 4 d", where 'a = 32]
  by (simp add: read32_def read8_def slice_enum del: le_word.simps)

text \<open>A reader that returns whole sectors, of at least 4 bytes.\<close>

definition sector_reader :: "nat \<Rightarrow> reader \<Rightarrow> bool" where
  "sector_reader sh rd \<longleftrightarrow> 2 \<le> sh \<and> (\<forall>n d. rd n = Some d \<longrightarrow> length d = 2 ^ sh)"

lemma aligned_div_mod:
  assumes "k < m" "m dvd 2 ^ sh" "(i::nat) mod m = 0"
  shows "(i + k) div 2 ^ sh = i div 2 ^ sh" "(i + k) mod 2 ^ sh = i mod 2 ^ sh + k" "i mod 2 ^ sh + m \<le> 2 ^ sh"
proof -
  obtain q where q: "2 ^ sh = m * q"
    using assms(2) ..
  obtain j where j: "i = m * j"
    using assms(3) by (auto simp: mod_eq_0_iff_dvd elim: dvdE)
  have "m * q \<noteq> 0"
    by (simp only: q [symmetric]) simp
  then have pos: "0 < m" "0 < q"
    by simp_all
  have i: "i mod 2 ^ sh = m * (j mod q)"
    unfolding q j by (rule mult_mod_right [symmetric])
  have "j mod q + 1 \<le> q"
    using pos by (simp add: Suc_le_eq)
  then have "m * (j mod q + 1) \<le> m * q"
    by (rule mult_le_mono2)
  then show le: "i mod 2 ^ sh + m \<le> 2 ^ sh"
    unfolding i unfolding q by simp
  define r where "r = i mod 2 ^ sh + k"
  have ik: "i + k = i div 2 ^ sh * 2 ^ sh + r"
    using div_mult_mod_eq [of i "2 ^ sh"] by (simp add: r_def)
  have r: "r < 2 ^ sh"
    using le assms(1) by (simp add: r_def)
  have "(i div 2 ^ sh * 2 ^ sh + r) div 2 ^ sh = i div 2 ^ sh + r div 2 ^ sh"
    by (rule div_mult_self3) simp
  then show "(i + k) div 2 ^ sh = i div 2 ^ sh"
    using r ik by simp
  have "(i + k) mod 2 ^ sh = r"
    unfolding ik mod_mult_self3 using r by simp
  then show "(i + k) mod 2 ^ sh = i mod 2 ^ sh + k"
    by (simp only: r_def)
qed

lemma power_dvd_sector: "2 \<le> sh \<Longrightarrow> 4 dvd (2::nat) ^ sh" "2 \<le> sh \<Longrightarrow> 2 dvd (2::nat) ^ sh"
  using le_imp_power_dvd [of 2 sh "2::nat"] le_imp_power_dvd [of 1 sh "2::nat"] by simp_all

lemma fat_byte_aligned:
  assumes "k < m" "m dvd 2 ^ sh" "i mod m = 0" "rd (ff_fat fs + i div 2 ^ sh) = Some d"
  shows "fat_byte sh rd fs (i + k) = Some (read8 d (i mod 2 ^ sh + k))"
  using aligned_div_mod [OF assms(1-3)] assms(4) by (simp add: fat_byte_def)

lemma fat_byte_None:
  assumes "rd (ff_fat fs + i div 2 ^ sh) = None"
  shows "fat_byte sh rd fs i = None"
  using assms by (simp add: fat_byte_def)

lemma fat_entry_16:
  assumes "sector_reader sh rd" "ff_type fs = FAT16"
  shows "fat_entry sh rd fs c = map_option (\<lambda>d. read16 d (c * 2 mod 2 ^ sh)) (rd (ff_fat fs + c * 2 div 2 ^ sh))"
proof (cases "rd (ff_fat fs + c * 2 div 2 ^ sh)")
  case None
  then show ?thesis
    using assms fat_byte_None [of rd fs "2 * c" sh] by (simp add: fat_entry_def mult.commute)
next
  case (Some d)
  have d: "length d = 2 ^ sh" "2 dvd (2::nat) ^ sh"
    using assms(1) Some power_dvd_sector(2) by (auto simp: sector_reader_def)
  have "c * 2 mod 2 ^ sh + 2 \<le> length d"
    using aligned_div_mod(3) [OF _ d(2), of 0 "c * 2"] d(1) by simp
  then show ?thesis
    using assms Some fat_byte_aligned [OF _ d(2), of 0 "c * 2" rd fs d] fat_byte_aligned [OF _ d(2), of 1 "c * 2" rd fs d]
    by (simp add: fat_entry_def Let_def mult.commute [of 2 c] read16_bytes)
qed

lemma fat_entry_28:
  assumes "sector_reader sh rd" "ff_type fs = FAT28"
  shows "fat_entry sh rd fs c =
    map_option (\<lambda>d. read32 d (c * 4 mod 2 ^ sh) mod 2 ^ 28) (rd (ff_fat fs + c * 4 div 2 ^ sh))"
proof (cases "rd (ff_fat fs + c * 4 div 2 ^ sh)")
  case None
  then show ?thesis
    using assms fat_byte_None [of rd fs "4 * c" sh] by (simp add: fat_entry_def mult.commute)
next
  case (Some d)
  have d: "length d = 2 ^ sh" "4 dvd (2::nat) ^ sh"
    using assms(1) Some power_dvd_sector(1) by (auto simp: sector_reader_def)
  have "c * 4 mod 2 ^ sh + 4 \<le> length d"
    using aligned_div_mod(3) [OF _ d(2), of 0 "c * 4"] d(1) by simp
  then show ?thesis
    using assms Some fat_byte_aligned [OF _ d(2), of 0 "c * 4" rd fs d] fat_byte_aligned [OF _ d(2), of 1 "c * 4" rd fs d]
      fat_byte_aligned [OF _ d(2), of 2 "c * 4" rd fs d] fat_byte_aligned [OF _ d(2), of 3 "c * 4" rd fs d]
    by (simp add: fat_entry_def Let_def mult.commute [of 4 c] read32_bytes)
qed

text \<open>The two bytes of a 12-bit entry, as the code combines them.\<close>

definition fat12_combine :: "nat \<Rightarrow> nat \<Rightarrow> nat \<Rightarrow> nat" where
  "fat12_combine c x y =
     (let v = x OR push_bit 8 y in if odd c then drop_bit 4 v else v AND 0x0FFF)"

lemma fat12_combine_eq:
  assumes "x < 256"
  shows "fat12_combine c x y = (if odd c then x div 16 + 16 * y else x + 256 * (y mod 16))"
proof -
  have "(x + 256 * y) div 16 = x div 16 + 16 * y"
    using div_mult_self2 [of 16 x "16 * y"] by (simp add: mult.assoc)
  moreover have "(x + 256 * y) mod 4096 = x + 256 * (y mod 16)"
  proof -
    have "256 * y mod 4096 = 256 * (y mod 16)"
      using mult_mod_right [of 256 y 16] by simp
    then have "(x + 256 * y) mod 4096 = (x + 256 * (y mod 16)) mod 4096"
      by (metis mod_add_right_eq)
    moreover have "x + 256 * (y mod 16) < 4096"
      using assms mod_less_divisor [of 16 y] by simp
    ultimately show ?thesis
      by simp
  qed
  moreover have "v AND 0x0FFF = v mod 4096" for v :: nat
    using and_mask_mod [of v 12] by simp
  ultimately show ?thesis
    using assms by (simp add: fat12_combine_def or_push_bit_8 drop_bit_eq_div)
qed

lemma fat12_offset: "c + c div 2 = (if even c then 3 * (c div 2) else 3 * (c div 2) + 1)" for c :: nat
  by (auto elim!: evenE oddE)

lemma fat_entry_12:
  assumes "ff_type fs = FAT12"
  shows "fat_entry sh rd fs c =
    Option.bind (fat_byte sh rd fs (c + c div 2)) (\<lambda>x.
    Option.bind (fat_byte sh rd fs (c + c div 2 + 1)) (\<lambda>y. Some (fat12_combine c x y)))"
proof -
  have "x < 256" if "fat_byte sh rd fs i = Some x" for x i
    using that by (auto simp: fat_byte_def read8_less)
  then show ?thesis
    using assms by (auto simp: fat_entry_def fat12_offset fat12_combine_eq Let_def split: bind_splits)
qed

lemma clustertosector_same: "same_fs fs fs' \<Longrightarrow> libfat_clustertosector fs' c = libfat_clustertosector fs c"
  by (simp add: libfat_clustertosector_def same_fs_fields Let_def)

lemma nextsector_fat12:
  assumes "cache_ok rd fs" "ff_type fs = FAT12" "s \<ge> ff_data fs" "ff_clustsize fs = 2 ^ ff_clustshift fs"
    "(s - ff_data fs) mod ff_clustsize fs = ff_clustsize fs - 1"
    "int (2 + (s - ff_data fs) div ff_clustsize fs) < ff_endcluster fs" "libfat_nextsector sh rd fs s = (r, fs')"
  shows "r = next_sector sh rd fs s \<and> cache_ok rd fs' \<and> same_fs fs fs'"
proof -
  define c where "c = 2 + (s - ff_data fs) div 2 ^ ff_clustshift fs"
  obtain r1 fs1 where 1: "fat_sector sh rd fs (c + c div 2) = (r1, fs1)" by force
  obtain r2 fs2 where 2: "fat_sector sh rd fs1 (c + c div 2 + 1) = (r2, fs2)" by force
  note ok1 = fat_sector_ok [OF assms(1) 1]
  note ok2 = fat_sector_ok [OF ok1(2) 2]
  have spec: "next_sector sh rd fs s = (case fat_entry sh rd fs c of None \<Rightarrow> None
      | Some v \<Rightarrow> if end_of_chain (ff_type fs) v then Some 0 else libfat_clustertosector fs (int v))"
    using assms(3-6) by (simp add: next_sector_def c_def Let_def)
  have conds: "\<not> s < ff_data fs" "\<not> (s - ff_data fs) mod ff_clustsize fs \<noteq> ff_clustsize fs - 1" "\<not> int c \<ge> ff_endcluster fs"
    using assms(3-6) by (simp_all add: c_def)
  have code: "libfat_nextsector sh rd fs s = (case r1 of None \<Rightarrow> (None, fs1)
      | Some d \<Rightarrow> (case r2 of None \<Rightarrow> (None, fs2)
        | Some d2 \<Rightarrow> let v = fat12_combine c (read8 d ((c + c div 2) AND (2 ^ sh - 1))) (read8 d2 ((c + c div 2 + 1) AND (2 ^ sh - 1)))
            in (if 0xFF8 \<le> v then Some 0 else libfat_clustertosector fs2 (int v), fs2)))"
    unfolding libfat_nextsector_def Let_def c_def [symmetric] if_not_P [OF conds(1)] if_not_P [OF conds(2)] if_not_P [OF conds(3)]
    using assms(2) 1 2 by (simp add: fat12_combine_def split: option.splits)
  show ?thesis
  proof (cases "r1 = None \<or> r2 = None")
    case True
    then have "fat_entry sh rd fs c = None"
      using ok1(1) ok2(1) same_fs_fields(6) [OF ok1(3)]
      by (auto simp: fat_entry_12 [OF assms(2)] fat_byte_def split: bind_splits)
    then show ?thesis
      using True code assms(7) spec ok1 ok2 same_fs_trans by (auto split: option.splits)
  next
    case False
    then obtain d d2 where d: "r1 = Some d" "r2 = Some d2" by auto
    then have "fat_entry sh rd fs c = Some (fat12_combine c (read8 d ((c + c div 2) AND (2 ^ sh - 1)))
        (read8 d2 ((c + c div 2 + 1) AND (2 ^ sh - 1))))"
      using ok1(1) ok2(1) same_fs_fields(6) [OF ok1(3)]
      by (simp add: fat_entry_12 [OF assms(2)] fat_byte_def and_mask_mod [simplified])
    moreover have "same_fs fs fs2"
      using ok1(3) ok2(3) same_fs_trans by blast
    ultimately show ?thesis
      using d code assms(2,7) spec ok2(2) by (auto simp: Let_def end_of_chain_def clustertosector_same)
  qed
qed

lemma nextsector_wide:
  assumes "cache_ok rd fs" "ff_type fs \<noteq> FAT12" "s \<ge> ff_data fs" "ff_clustsize fs = 2 ^ ff_clustshift fs"
    "(s - ff_data fs) mod ff_clustsize fs = ff_clustsize fs - 1" "sector_reader sh rd"
    "int (2 + (s - ff_data fs) div ff_clustsize fs) < ff_endcluster fs" "libfat_nextsector sh rd fs s = (r, fs')"
  shows "r = next_sector sh rd fs s \<and> cache_ok rd fs' \<and> same_fs fs fs'"
proof -
  define c where "c = 2 + (s - ff_data fs) div 2 ^ ff_clustshift fs"
  define w :: nat where "w = (if ff_type fs = FAT16 then 2 else 4)"
  obtain r1 fs1 where fat: "fat_sector sh rd fs (c * w) = (r1, fs1)" by force
  note ok1 = fat_sector_ok [OF assms(1) fat]
  have spec: "next_sector sh rd fs s = (case fat_entry sh rd fs c of None \<Rightarrow> None
      | Some v \<Rightarrow> if end_of_chain (ff_type fs) v then Some 0 else libfat_clustertosector fs (int v))"
    using assms(3-7) by (simp add: next_sector_def c_def Let_def)
  have conds: "\<not> s < ff_data fs" "\<not> (s - ff_data fs) mod ff_clustsize fs \<noteq> ff_clustsize fs - 1" "\<not> int c \<ge> ff_endcluster fs"
    using assms(3-7) by (simp_all add: c_def)
  have mask28: "v AND 0x0FFFFFFF = v mod 2 ^ 28" for v :: nat
    using and_mask_mod [of v 28] by simp
  consider "ff_type fs = FAT16" | "ff_type fs = FAT28"
    using assms(2) by (cases "ff_type fs") auto
  then show ?thesis
  proof cases
    case 1
    then have "libfat_nextsector sh rd fs s = (case r1 of None \<Rightarrow> (None, fs1)
      | Some d \<Rightarrow> let v = read16 d (c * 2 mod 2 ^ sh)
          in (if 0xFFF8 \<le> v then Some 0 else libfat_clustertosector fs1 (int v), fs1))"
      unfolding libfat_nextsector_def Let_def c_def [symmetric] if_not_P [OF conds(1)] if_not_P [OF conds(2)] if_not_P [OF conds(3)]
      using fat by (simp add: w_def and_mask_mod [simplified] split: option.splits)
    then show ?thesis
      using 1 spec assms(8) ok1 fat_entry_16 [OF assms(6) 1, of c]
      by (auto simp: Let_def w_def end_of_chain_def clustertosector_same split: option.splits)
  next
    case 2
    then have "libfat_nextsector sh rd fs s = (case r1 of None \<Rightarrow> (None, fs1)
      | Some d \<Rightarrow> let v = read32 d (c * 4 mod 2 ^ sh) mod 2 ^ 28
          in (if 0xFFFFFF8 \<le> v then Some 0 else libfat_clustertosector fs1 (int v), fs1))"
      unfolding libfat_nextsector_def Let_def c_def [symmetric] if_not_P [OF conds(1)] if_not_P [OF conds(2)] if_not_P [OF conds(3)]
      using fat by (simp add: w_def and_mask_mod [simplified] mask28 split: option.splits)
    then show ?thesis
      using 2 spec assms(8) ok1 fat_entry_28 [OF assms(6) 2, of c]
      by (auto simp: Let_def w_def end_of_chain_def clustertosector_same split: option.splits)
  qed
qed

lemma libfat_nextsector_spec:
  assumes "cache_ok rd fs" "sector_reader sh rd" "ff_clustsize fs = 2 ^ ff_clustshift fs"
    "libfat_nextsector sh rd fs s = (r, fs')"
  shows "r = next_sector sh rd fs s \<and> cache_ok rd fs' \<and> same_fs fs fs'"
proof (cases "s < ff_data fs \<or> (s - ff_data fs) mod ff_clustsize fs \<noteq> ff_clustsize fs - 1 \<or>
    ff_endcluster fs \<le> int (2 + (s - ff_data fs) div ff_clustsize fs)")
  case True
  moreover have "0 < ff_clustsize fs"
    using assms(3) by simp
  ultimately show ?thesis
    using assms by (auto simp: libfat_nextsector_def next_sector_def Let_def split: if_splits)
next
  case False
  then show ?thesis
    using nextsector_fat12 [OF assms(1) _ _ assms(3) _ _ assms(4)]
      nextsector_wide [OF assms(1) _ _ assms(3) _ assms(2) _ assms(4)]
    by (cases "ff_type fs = FAT12") (auto simp: not_less not_le)
qed

section \<open>Directories\<close>

text \<open>
  The sectors of a directory that starts at \<open>s\<close>, as the file system links them, and the code that a
  search ending there without a match returns: \<open>-2\<close> at the end of the chain, \<open>-1\<close> for a broken link or
  an unreadable sector.
\<close>

inductive sector_chain :: "nat \<Rightarrow> reader \<Rightarrow> libfat_filesystem \<Rightarrow> nat option \<Rightarrow> nat list \<Rightarrow> int \<Rightarrow> bool" for sh rd fs where
  chain_end: "sector_chain sh rd fs (Some 0) [] (- 2)"
| chain_broken: "sector_chain sh rd fs None [] (- 1)"
| chain_unreadable: "s \<noteq> 0 \<Longrightarrow> rd s = None \<Longrightarrow> sector_chain sh rd fs (Some s) [] (- 1)"
| chain_next: "s \<noteq> 0 \<Longrightarrow> rd s = Some d \<Longrightarrow> sector_chain sh rd fs (next_sector sh rd fs s) ss e \<Longrightarrow>
    sector_chain sh rd fs (Some s) (s # ss) e"

text \<open>The entries of those sectors, in order, and the search as one pass over them.\<close>

definition sector_entries :: "nat \<Rightarrow> reader \<Rightarrow> nat \<Rightarrow> (nat \<times> nat \<times> bytes) list" where
  "sector_entries sh rd s = map (\<lambda>k. (s, 32 * k, slice (32 * k) 32 (the (rd s)))) [0..<2 ^ sh div 32]"

fun search_entries :: "bytes \<Rightarrow> (nat \<times> nat \<times> bytes) list \<Rightarrow> int \<Rightarrow> int \<times> (nat \<times> nat) option" where
  "search_entries name [] e = (e, None)"
| "search_entries name ((s, off, x) # es) e =
     (if (x ! 11) AND 0x48 = 0 \<and> take 11 x = name then (dirent_cluster x, Some (s, off))
      else if x ! 0 = 0 then (- 2, None)
      else search_entries name es e)"

lemma scan_sector_entries:
  "search_entries name (map (\<lambda>k. (s, 32 * k, slice (32 * k) 32 d)) [i..<i + n] @ es) e =
   (case scan_sector name d (32 * i) n of
      Inl (r, place) \<Rightarrow> (r, map_option (Pair s) place)
    | Inr _ \<Rightarrow> search_entries name es e)"
proof (induction n arbitrary: i)
  case 0
  then show ?case by simp
next
  case (Suc n)
  show ?case
    using Suc [of "Suc i"] by (simp add: upt_conv_Cons Let_def add.commute del: upt_Suc)
qed

lemma search_sector_entries:
  assumes "rd s = Some d"
  shows "search_entries name (sector_entries sh rd s @ es) e =
   (case scan_sector name d 0 (2 ^ sh div 32) of
      Inl (r, place) \<Rightarrow> (r, map_option (Pair s) place)
    | Inr _ \<Rightarrow> search_entries name es e)"
  using scan_sector_entries [of name s d 0 "2 ^ sh div 32" es e] assms by (simp add: sector_entries_def)

definition fs_ready :: "nat \<Rightarrow> reader \<Rightarrow> libfat_filesystem \<Rightarrow> bool" where
  "fs_ready sh rd fs \<longleftrightarrow> cache_ok rd fs \<and> sector_reader sh rd \<and> ff_clustsize fs = 2 ^ ff_clustshift fs"

lemma fat_entry_same:
  assumes "same_fs fs fs'"
  shows "fat_entry sh rd fs' c = fat_entry sh rd fs c"
proof -
  have "fat_byte sh rd fs' = fat_byte sh rd fs"
    by (simp add: fat_byte_def fun_eq_iff same_fs_fields(6) [OF assms])
  then show ?thesis
    by (simp only: fat_entry_def same_fs_fields(1) [OF assms])
qed

lemma next_sector_same:
  assumes "same_fs fs fs'"
  shows "next_sector sh rd fs' s = next_sector sh rd fs s"
  unfolding next_sector_def fat_entry_same [OF assms] clustertosector_same [OF assms] same_fs_fields [OF assms]
  by (rule refl)

lemma fs_ready_same: "fs_ready sh rd fs \<Longrightarrow> same_fs fs fs' \<Longrightarrow> cache_ok rd fs' \<Longrightarrow> fs_ready sh rd fs'"
  by (simp add: fs_ready_def same_fs_fields)

lemma get_sector_ready:
  assumes "fs_ready sh rd fs" "libfat_get_sector rd fs n = (r, fs')"
  shows "r = rd n \<and> fs_ready sh rd fs' \<and> same_fs fs fs'"
  using libfat_get_sector_ok [of rd fs n] assms fs_ready_same by (auto simp: fs_ready_def)

lemma nextsector_ready:
  assumes "fs_ready sh rd fs" "libfat_nextsector sh rd fs s = (r, fs')"
  shows "r = next_sector sh rd fs s \<and> fs_ready sh rd fs' \<and> same_fs fs fs'"
  using libfat_nextsector_spec [of rd fs sh s r fs'] assms fs_ready_same by (auto simp: fs_ready_def)

lemma searchdir_loop_chain:
  assumes "sector_chain sh rd fs0 s ss e" "fs_ready sh rd fs" "same_fs fs0 fs"
  shows "\<exists>fs'. searchdir_loop sh rd name fs s = Some (search_entries name (concat (map (sector_entries sh rd) ss)) e, fs') \<and>
    fs_ready sh rd fs' \<and> same_fs fs fs'"
  using assms
proof (induction arbitrary: fs rule: sector_chain.induct)
  case chain_end
  then show ?case by (subst searchdir_loop.simps) auto
next
  case chain_broken
  then show ?case by (subst searchdir_loop.simps) auto
next
  case (chain_unreadable s)
  obtain r fs1 where "libfat_get_sector rd fs s = (r, fs1)" by force
  then show ?case
    using get_sector_ready [OF chain_unreadable.prems(1)] chain_unreadable
    by (subst searchdir_loop.simps) auto
next
  case (chain_next s d ss e)
  obtain r fs1 where get: "libfat_get_sector rd fs s = (r, fs1)" by force
  note 1 = get_sector_ready [OF chain_next.prems(1) get]
  obtain s' fs2 where nxt: "libfat_nextsector sh rd fs1 s = (s', fs2)" by force
  note 2 = nextsector_ready [OF conjunct1 [OF conjunct2 [OF 1]] nxt]
  have same1: "same_fs fs0 fs1"
    using 1 chain_next.prems(2) same_fs_trans by blast
  then have same2: "same_fs fs0 fs2" "s' = next_sector sh rd fs0 s"
    using 2 same_fs_trans next_sector_same by metis+
  obtain fs3 where "searchdir_loop sh rd name fs2 s' =
      Some (search_entries name (concat (map (sector_entries sh rd) ss)) e, fs3)" "fs_ready sh rd fs3" "same_fs fs2 fs3"
    using chain_next.IH [of fs2] 2 same2 by auto
  moreover have "same_fs fs fs1" "same_fs fs fs2" "r = Some d"
    using 1 2 chain_next.hyps(2) same_fs_trans by blast+
  ultimately show ?case
    using chain_next.hyps(1,2) get nxt 1 2 same_fs_trans [of fs fs2 fs3]
    by (subst searchdir_loop.simps) (auto simp: search_sector_entries [of rd s d] split: sum.splits prod.splits)
qed

text \<open>
  C10. When the sectors of a directory form a finite chain, \<^verbatim>\<open>libfat_searchdir\<close> returns, whatever is cached, and
  its result is that of one pass over all entries of the directory in order: the first entry with the
  wanted name that is not a volume label or device, unless an entry with an empty name or a read error
  comes first.
\<close>

theorem libfat_searchdir_correct:
  assumes "fs_ready sh rd fs" "sector_chain sh rd fs (libfat_clustertosector fs dirclust) ss e"
  shows "\<exists>fs'. libfat_searchdir sh rd fs dirclust name =
    Some (search_entries name (concat (map (sector_entries sh rd) ss)) e, fs') \<and> fs_ready sh rd fs' \<and> same_fs fs fs'"
  using searchdir_loop_chain [OF assms(2,1) same_fs_refl] by (simp add: libfat_searchdir_def)

text \<open>
  C21. \<^verbatim>\<open>libfat_nextsector\<close> follows the file system: whatever is cached, it returns the next sector of the root
  directory or of the cluster, and at the end of a cluster the first sector of the cluster that the
  entry of the FAT (12, 16 or 28 bits wide, as the formats define it) names, 0 at the end of the chain.
\<close>

theorem libfat_nextsector_correct:
  assumes "fs_ready sh rd fs" "libfat_nextsector sh rd fs s = (r, fs')"
  shows "r = next_sector sh rd fs s \<and> fs_ready sh rd fs' \<and> same_fs fs fs'"
  using assms by (rule nextsector_ready)

text \<open>A loop in the chain without a match or an end mark.\<close>

lemma searchdir_loop_cyclic:
  assumes closed: "\<And>s. s \<in> S \<Longrightarrow> s \<noteq> 0 \<and> (\<exists>d. rd s = Some d \<and> scan_sector name d 0 (2 ^ sh div 32) = Inr ()) \<and>
      (\<exists>s' \<in> S. next_sector sh rd fs0 s = Some s')"
    and "s \<in> S" "fs_ready sh rd fs" "same_fs fs0 fs"
  shows "searchdir_loop sh rd name fs (Some s) = None"
proof (rule ccontr)
  assume "searchdir_loop sh rd name fs (Some s) \<noteq> None"
  then obtain y where y: "searchdir_loop sh rd name fs (Some s) = Some y" by blast
  let ?P = "\<lambda>sh' rd' nm fs os y. \<forall>s. os = Some s \<longrightarrow> s \<in> S \<longrightarrow> rd' = rd \<longrightarrow> sh' = sh \<longrightarrow> nm = name \<longrightarrow>
      fs_ready sh rd fs \<longrightarrow> same_fs fs0 fs \<longrightarrow> False"
  have "?P sh rd name fs (Some s) y"
  proof (rule searchdir_loop.raw_induct [of ?P, OF _ y])
    fix f sh' rd' nm fs os y
    assume ih: "\<And>sh' rd' nm fs os y. f sh' rd' nm fs os = Some y \<Longrightarrow> ?P sh' rd' nm fs os y"
      and body: "(case os of None \<Rightarrow> Some ((- 1, None), fs)
        | Some s \<Rightarrow> if s = 0 then Some ((- 2, None), fs)
            else (case libfat_get_sector rd' fs s of
                    (None, fs) \<Rightarrow> Some ((- 1, None), fs)
                  | (Some d, fs) \<Rightarrow>
                      (case scan_sector nm d 0 (2 ^ sh' div 32) of
                         Inl (r, place) \<Rightarrow> Some ((r, map_option (Pair s) place), fs)
                       | Inr _ \<Rightarrow> (case libfat_nextsector sh' rd' fs s of (s', fs') \<Rightarrow> f sh' rd' nm fs' s')))) = Some y"
    show "?P sh' rd' nm fs os y"
    proof (intro allI impI)
      fix s assume a: "os = Some s" "s \<in> S" "rd' = rd" "sh' = sh" "nm = name" "fs_ready sh rd fs" "same_fs fs0 fs"
      obtain d s' where d: "s \<noteq> 0" "rd s = Some d" "scan_sector name d 0 (2 ^ sh div 32) = Inr ()" "s' \<in> S"
        "next_sector sh rd fs0 s = Some s'"
        using closed [OF a(2)] by blast
      obtain r fs1 where get: "libfat_get_sector rd fs s = (r, fs1)" by force
      note g = get_sector_ready [OF a(6) get]
      obtain q fs2 where nxt: "libfat_nextsector sh rd fs1 s = (q, fs2)" by force
      note n = nextsector_ready [OF conjunct1 [OF conjunct2 [OF g]] nxt]
      have same: "same_fs fs0 fs1" "same_fs fs0 fs2"
        using a(7) g n same_fs_trans by blast+
      then have "q = Some s'"
        using n d(5) next_sector_same by metis
      then have "f sh rd name fs2 (Some s') = Some y"
        using body a d g get nxt by simp
      then show False
        using ih d(4) n same by blast
    qed
  qed
  then show False
    using assms(2-4) by blast
qed

end
