(* ===== verification/Libfat_Open.thy ===== *)
theory Libfat_Open
  imports Libfat
begin

text \<open>
  What \<^verbatim>\<open>libfat_open\<close> establishes for the rest of \<^verbatim>\<open>src/syslinux/libfat\<close>: the geometry of an accepted file
  system, the one FAT12 geometry that its size check misses, and concrete disk images on which the
  lookups of the library run.
\<close>

section \<open>Geometry of an opened file system\<close>

text \<open>Sectors of one FAT, as the boot sector states it.\<close>

definition fat_sectors :: "bytes \<Rightarrow> nat" where
  "fat_sectors bs = (if read16 bs 22 = 0 then read32 bs 36 else read16 bs 22)"

lemma find_shift:
  assumes "List.find P [0..<n] = Some i"
  shows "i < n" "P i"
  using assms by (auto simp: find_Some_iff)

lemma round_up_div: "0 < (m::nat) \<Longrightarrow> x \<le> (x + m - 1) div m * m"
  using div_mult_mod_eq [of "x + m - 1" m] mod_less_divisor [of m "x + m - 1"] by linarith

lemma fat_size_bound:
  assumes "0 < (m::nat)" "(x + m - 1) div m \<le> k"
  shows "x \<le> k * m"
  using round_up_div [OF assms(1), of x] mult_le_mono1 [OF assms(2), of m] by linarith

text \<open>What a successful \<^verbatim>\<open>libfat_open\<close> has read and checked.\<close>

lemma libfat_open_SomeE:
  assumes "libfat_open sh rd = Some fs"
  obtains bs where "rd 0 = Some bs" "read16 bs 11 = 2 ^ sh" "ff_sectors fs = [(0, bs)]"
    "ff_clustshift fs \<le> 8" "ff_clustsize fs = 2 ^ ff_clustshift fs" "2 ^ ff_clustshift fs mod 256 = read8 bs 13"
    "ff_fat fs = read16 bs 14" "ff_rootdir fs = ff_fat fs + fat_sectors bs * read8 bs 16"
    "ff_rootdir fs \<le> ff_data fs" "ff_data fs < ff_end fs"
    "ff_end fs = (if read16 bs 19 = 0 then read32 bs 32 else read16 bs 19)"
    "ff_endcluster fs = int (2 + (ff_end fs - ff_data fs) div ff_clustsize fs)"
    "(case ff_type fs of FAT12 \<Rightarrow> nat (ff_endcluster fs) + nat (ff_endcluster fs) div 2
      | FAT16 \<Rightarrow> nat (ff_endcluster fs) * 2 | FAT28 \<Rightarrow> nat (ff_endcluster fs) * 4) \<le> fat_sectors bs * 2 ^ sh"
proof -
  obtain bs where bs: "rd 0 = Some bs"
    using assms by (auto simp: libfat_open_def split: option.splits)
  obtain i where i: "List.find (\<lambda>i. 2 ^ i mod 256 = read8 bs 13) [0..<9] = Some i" "read16 bs 11 = 2 ^ sh"
    using assms bs by (auto simp: libfat_open_def split: option.splits if_splits)
  note shift = find_shift [OF i(1)]
  define sectors where "sectors = (if read16 bs 19 = 0 then read32 bs 32 else read16 bs 19)"
  define rootdir where "rootdir = read16 bs 14 + fat_sectors bs * read8 bs 16"
  define data where "data = rootdir + (read16 bs 17 * 32 + (2 ^ sh - 1)) div 2 ^ sh"
  define ty where "ty = (if (sectors - data) div 2 ^ i \<le> 0xff4 then FAT12
    else if (sectors - data) div 2 ^ i \<le> 0xfff4 then FAT16 else FAT28)"
  define n where "n = (sectors - data) div 2 ^ i + 2"
  define need where "need = (case ty of FAT12 \<Rightarrow> n + n div 2 | FAT16 \<Rightarrow> n * 2 | FAT28 \<Rightarrow> n * 4)"
  note defs = sectors_def rootdir_def data_def ty_def n_def need_def fat_sectors_def
  have fs: "data < sectors" "(need + 2 ^ sh - 1) div 2 ^ sh \<le> fat_sectors bs"
    "fs = \<lparr>ff_type = ty, ff_clustsize = 2 ^ i, ff_clustshift = i, ff_endcluster = int n,
       ff_rootcluster = (if ty = FAT28 then sint (le_word (slice 44 4 bs) :: u32) else 0),
       ff_fat = read16 bs 14, ff_rootdir = rootdir, ff_data = data, ff_end = sectors, ff_sectors = [(0, bs)]\<rparr>"
    using assms unfolding libfat_open_def bs option.case i(1) i(2) defs [symmetric] Let_def
    by (simp_all only: not_less not_le refl if_False if_True split: if_splits) simp_all
  have "need \<le> fat_sectors bs * 2 ^ sh"
    using fat_size_bound [OF _ fs(2)] by simp
  then have size: "(case ff_type fs of FAT12 \<Rightarrow> nat (ff_endcluster fs) + nat (ff_endcluster fs) div 2
      | FAT16 \<Rightarrow> nat (ff_endcluster fs) * 2 | FAT28 \<Rightarrow> nat (ff_endcluster fs) * 4) \<le> fat_sectors bs * 2 ^ sh"
    by (cases ty) (simp_all add: fs(3) need_def)
  show thesis
    using bs i(2) shift fs(1) size
    by (intro that [of bs]) (simp_all add: fs(3) sectors_def rootdir_def data_def n_def)
qed

text \<open>
  C24. Opening is sound. When \<^verbatim>\<open>libfat_open\<close> succeeds the file system is ready for use (its cache agrees with
  the disk, the cluster size is the power of two of the boot sector, 1 to 256 sectors), every legal
  cluster lies between the start of the data area and the end of the disk, two different clusters do not
  overlap, and the entry of every legal cluster lies inside the FAT; in a FAT12 system this is shown of
  every cluster but the last one.
\<close>

theorem libfat_open_correct:
  assumes "libfat_open sh rd = Some fs" "sector_reader sh rd"
  shows "fs_ready sh rd fs \<and> ff_clustshift fs \<le> 8 \<and> ff_rootdir fs \<le> ff_data fs \<and>
    (\<forall>c s. 2 \<le> c \<longrightarrow> libfat_clustertosector fs c = Some s \<longrightarrow>
       c < ff_endcluster fs \<and> ff_data fs \<le> s \<and> s + ff_clustsize fs \<le> ff_end fs \<and>
       (\<forall>c' s'. c < c' \<longrightarrow> libfat_clustertosector fs c' = Some s' \<longrightarrow> s + ff_clustsize fs \<le> s') \<and>
       (let size = fat_sectors (the (rd 0)) * 2 ^ sh; n = nat c in
        case ff_type fs of FAT12 \<Rightarrow> c + 1 < ff_endcluster fs \<longrightarrow> n + n div 2 + 1 < size
        | FAT16 \<Rightarrow> 2 * n + 1 < size | FAT28 \<Rightarrow> 4 * n + 3 < size))"
proof -
  obtain bs where o: "rd 0 = Some bs" "ff_sectors fs = [(0, bs)]"
    "ff_clustshift fs \<le> 8" "ff_clustsize fs = 2 ^ ff_clustshift fs" "ff_rootdir fs \<le> ff_data fs" "ff_data fs < ff_end fs"
    "ff_endcluster fs = int (2 + (ff_end fs - ff_data fs) div ff_clustsize fs)"
    "(case ff_type fs of FAT12 \<Rightarrow> nat (ff_endcluster fs) + nat (ff_endcluster fs) div 2
      | FAT16 \<Rightarrow> nat (ff_endcluster fs) * 2 | FAT28 \<Rightarrow> nat (ff_endcluster fs) * 4) \<le> fat_sectors bs * 2 ^ sh"
    by (rule libfat_open_SomeE [OF assms(1)])
  have ready: "fs_ready sh rd fs"
    using assms(2) o by (simp add: fs_ready_def cache_ok_def)
  have cluster: "c < ff_endcluster fs \<and> s = ff_data fs + (nat c - 2) * ff_clustsize fs \<and> s + ff_clustsize fs \<le> ff_end fs"
    if "2 \<le> c" "libfat_clustertosector fs c = Some s" for c s
  proof -
    have c: "c < ff_endcluster fs" "s = ff_data fs + (nat c - 2) * ff_clustsize fs"
      using that o(4) by (auto simp: libfat_clustertosector_def Let_def nat_diff_distrib split: if_splits)
    then have "nat c - 2 + 1 \<le> (ff_end fs - ff_data fs) div ff_clustsize fs"
      using o(7) that(1) by linarith
    then have "(nat c - 2 + 1) * ff_clustsize fs \<le> ff_end fs - ff_data fs"
      using o(4) by (meson div_times_less_eq_dividend le_trans mult_le_mono1)
    then show ?thesis
      using c o(6) by simp
  qed
  have order: "s + ff_clustsize fs \<le> s'"
    if "2 \<le> c" "libfat_clustertosector fs c = Some s" "c < c'" "libfat_clustertosector fs c' = Some s'" for c s c' s'
  proof -
    have "(nat c - 2 + 1) * ff_clustsize fs \<le> (nat c' - 2) * ff_clustsize fs"
      using that(1,3) by (intro mult_le_mono1) linarith
    then show ?thesis
      using cluster [OF that(1,2)] cluster [OF _ that(4)] that(1,3) by simp
  qed
  have "let size = fat_sectors (the (rd 0)) * 2 ^ sh; n = nat c in
        case ff_type fs of FAT12 \<Rightarrow> c + 1 < ff_endcluster fs \<longrightarrow> n + n div 2 + 1 < size
        | FAT16 \<Rightarrow> 2 * n + 1 < size | FAT28 \<Rightarrow> 4 * n + 3 < size"
    if "2 \<le> c" "c < ff_endcluster fs" for c
    using that o(1,8) by (cases "ff_type fs") (simp_all add: Let_def; linarith)+
  then show ?thesis
    using ready o(3,5) cluster order by (simp; metis le_add1)
qed

section \<open>A disk image\<close>

text \<open>
  The disk image of a small FAT12 system: 512-byte sectors, one per cluster, one FAT of two sectors, a root
  directory of one sector and 681 clusters. The root directory starts with a volume label and the entry of
  a file in cluster 2, which is the only cluster of its chain.
\<close>

definition fat12_boot :: bytes where
  "fat12_boot = replicate 11 0 @ [0, 2, 1, 1, 0, 1, 16, 0, 0xAD, 0x02, 0xF8, 2, 0] @ replicate 488 0"

definition fat12_fat :: bytes where
  "fat12_fat = [0xF8, 0xFF, 0xFF, 0xFF, 0x0F] @ replicate 507 0"

definition ldlinux_sys :: bytes where
  "ldlinux_sys = [0x4C, 0x44, 0x4C, 0x49, 0x4E, 0x55, 0x58, 0x20, 0x53, 0x59, 0x53]"

definition fat12_root :: "byte \<Rightarrow> bytes" where
  "fat12_root c = [c, 0x20, 0x20, 0x20, 0x20, 0x20, 0x20, 0x20, 0x20, 0x20, 0x20, 8] @ replicate 20 0 @
     ldlinux_sys @ [0x20] @ replicate 14 0 @ [2, 0, 0x10, 0, 0, 0] @ replicate 448 0"

definition fat12_disk :: "byte \<Rightarrow> reader" where
  "fat12_disk c n =
     (if n = 0 then Some fat12_boot else if n = 1 then Some fat12_fat else if n = 2 then Some (replicate 512 0)
      else if n = 3 then Some (fat12_root c) else if n < 685 then Some (replicate 512 0) else None)"

definition fat12_fs :: libfat_filesystem where
  "fat12_fs = \<lparr>ff_type = FAT12, ff_clustsize = 1, ff_clustshift = 0, ff_endcluster = 683, ff_rootcluster = 0,
     ff_fat = 1, ff_rootdir = 3, ff_data = 4, ff_end = 685, ff_sectors = [(0, fat12_boot)]\<rparr>"

lemma fat12_fields:
  "ff_type fat12_fs = FAT12" "ff_clustsize fat12_fs = 1" "ff_clustshift fat12_fs = 0" "ff_endcluster fat12_fs = 683"
  "ff_rootcluster fat12_fs = 0" "ff_fat fat12_fs = 1" "ff_rootdir fat12_fs = 3" "ff_data fat12_fs = 4" "ff_end fat12_fs = 685"
  by (simp_all add: fat12_fs_def)

lemma fat12_boot_fields:
  "read16 fat12_boot 11 = 512" "read8 fat12_boot 13 = 1" "read16 fat12_boot 14 = 1" "read8 fat12_boot 16 = 1"
  "read16 fat12_boot 17 = 16" "read16 fat12_boot 19 = 685" "read16 fat12_boot 22 = 2" "fat_sectors fat12_boot = 2"
  by code_simp+

lemma fat12_opened: "libfat_open 9 (fat12_disk c) = Some fat12_fs"
  by (simp add: libfat_open_def fat12_disk_def fat12_boot_fields Let_def upt_rec fat12_fs_def)

lemma fat12_disk_reader: "sector_reader 9 (fat12_disk c)"
  by (auto simp: sector_reader_def fat12_disk_def fat12_boot_def fat12_fat_def fat12_root_def ldlinux_sys_def split: if_splits)

lemma fat12_ready: "fs_ready 9 (fat12_disk c) fat12_fs"
  using fat12_disk_reader by (simp add: fs_ready_def cache_ok_def fat12_fs_def fat12_disk_def)

lemma fat12_next: "fst (libfat_nextsector 9 (fat12_disk c) fat12_fs s) = next_sector 9 (fat12_disk c) fat12_fs s"
  using nextsector_ready [OF fat12_ready, of c s] by (metis prod.collapse)

lemma fat12_last_entry: "fat_entry 9 (fat12_disk c) fat12_fs 682 = Some (256 * (unat c mod 16))"
  by (simp add: fat_entry_def fat12_fs_def fat_byte_def fat12_disk_def read8_def fat12_root_def)

theorem libfat_open_correct_witness:
  "fs_ready 9 (fat12_disk 0x41) fat12_fs \<and> libfat_clustertosector fat12_fs 682 = Some 684"
proof
  show "fs_ready 9 (fat12_disk 0x41) fat12_fs"
    using libfat_open_correct [OF fat12_opened fat12_disk_reader] by simp
  show "libfat_clustertosector fat12_fs 682 = Some 684"
    by code_simp
qed

text \<open>
  The size check of \<^verbatim>\<open>libfat_open\<close> is one byte short in a FAT12 system with an odd number of entries. In the
  image above it accepts a FAT of 1024 bytes, but the entry of the last cluster, 682, occupies the bytes
  1023 and 1024: the chain after that cluster depends on the first byte of the root directory.
\<close>

theorem libfat_open_fat12_gap:
  "libfat_open 9 (fat12_disk c) = Some fat12_fs \<and> fat_sectors fat12_boot = 2 \<and> 682 < ff_endcluster fat12_fs \<and>
   2 * 512 \<le> 682 + 682 div 2 + (1::nat) \<and>
   fst (libfat_nextsector 9 (fat12_disk 0x41) fat12_fs 684) = Some 258 \<and>
   fst (libfat_nextsector 9 (fat12_disk 0x42) fat12_fs 684) = Some 514"
proof (intro conjI fat12_opened)
  show "fat_sectors fat12_boot = 2" by (rule fat12_boot_fields)
  show "682 < ff_endcluster fat12_fs" by (simp add: fat12_fs_def)
  show "2 * 512 \<le> 682 + 682 div 2 + (1::nat)" by simp
  show "fst (libfat_nextsector 9 (fat12_disk 0x41) fat12_fs 684) = Some 258"
    by (simp add: fat12_next next_sector_def fat12_last_entry fat12_fields end_of_chain_def
        libfat_clustertosector_def)
  show "fst (libfat_nextsector 9 (fat12_disk 0x42) fat12_fs 684) = Some 514"
    by (simp add: fat12_next next_sector_def fat12_last_entry fat12_fields end_of_chain_def libfat_clustertosector_def)
qed

lemma fat12_scan: "scan_sector ldlinux_sys (fat12_root 0x41) 0 16 = Inl (2, Some 32)"
  by code_simp

theorem libfat_searchdir_correct_witness:
  "\<exists>fs'. libfat_searchdir 9 (fat12_disk 0x41) fat12_fs 0 ldlinux_sys = Some ((2, Some (3, 32)), fs') \<and>
     fs_ready 9 (fat12_disk 0x41) fs'"
proof -
  have root: "fat12_disk 0x41 3 = Some (fat12_root 0x41)"
    by (simp add: fat12_disk_def)
  have "next_sector 9 (fat12_disk 0x41) fat12_fs 3 = Some 0"
    by (simp add: next_sector_def fat12_fields)
  then have "sector_chain 9 (fat12_disk 0x41) fat12_fs (libfat_clustertosector fat12_fs 0) [3] (- 2)"
    using root chain_next [of 3 "fat12_disk 0x41"] chain_end by (simp add: libfat_clustertosector_def fat12_fields)
  from libfat_searchdir_correct [OF fat12_ready this, of ldlinux_sys] show ?thesis
    using search_sector_entries [of "fat12_disk 0x41" 3 "fat12_root 0x41" ldlinux_sys 9 "[]" "- 2"] root fat12_scan by auto
qed

theorem libfat_nextsector_correct_witness:
  "next_sector 9 (fat12_disk 0x41) fat12_fs 684 = Some 258 \<and>
   fst (libfat_nextsector 9 (fat12_disk 0x41) fat12_fs 684) = Some 258"
proof -
  have "next_sector 9 (fat12_disk 0x41) fat12_fs 684 = Some 258"
    by (simp add: next_sector_def fat12_last_entry fat12_fields end_of_chain_def libfat_clustertosector_def)
  then show ?thesis
    using libfat_nextsector_correct [OF fat12_ready, of "0x41" 684] by (metis prod.collapse)
qed

section \<open>Directories that never end\<close>

text \<open>
  A directory whose chain of sectors runs in a circle, with no end mark and no match in it, is searched
  forever: nothing in \<^verbatim>\<open>libfat_searchdir\<close> bounds the length of a chain.
\<close>

theorem libfat_searchdir_diverges:
  assumes "fs_ready sh rd fs" "libfat_clustertosector fs dirclust = Some s" "s \<in> S"
    and "\<forall>s \<in> S. s \<noteq> 0 \<and> (\<exists>d. rd s = Some d \<and> scan_sector name d 0 (2 ^ sh div 32) = Inr ()) \<and>
      (\<exists>s' \<in> S. next_sector sh rd fs s = Some s')"
  shows "libfat_searchdir sh rd fs dirclust name = None"
  using searchdir_loop_cyclic [of S rd name sh fs s fs] assms by (simp add: libfat_searchdir_def)

definition looped_disk :: reader where
  "looped_disk n = (if n = 1 then Some ([0xF8, 0xFF, 0xFF, 2, 0] @ replicate 507 0)
     else if n = 4 then Some (replicate 512 0x41) else fat12_disk 0x41 n)"

theorem libfat_searchdir_diverges_witness:
  "libfat_open 9 looped_disk = Some fat12_fs \<and> libfat_searchdir 9 looped_disk fat12_fs 2 ldlinux_sys = None"
proof
  show "libfat_open 9 looped_disk = Some fat12_fs"
    using fat12_opened [of "0x41"] by (simp add: libfat_open_def looped_disk_def)
  have "sector_reader 9 looped_disk"
    using fat12_disk_reader [of "0x41"] by (auto simp: sector_reader_def looped_disk_def split: if_splits)
  then have "fs_ready 9 looped_disk fat12_fs"
    using fat12_ready [of "0x41"] by (simp add: fs_ready_def cache_ok_def fat12_fs_def looped_disk_def)
  moreover have "looped_disk 4 = Some (replicate 512 0x41)"
    by (simp add: looped_disk_def)
  moreover have "scan_sector ldlinux_sys (replicate 512 0x41) 0 16 = Inr ()"
    by code_simp
  moreover have "next_sector 9 looped_disk fat12_fs 4 = Some 4"
    by (simp add: next_sector_def fat12_fields fat_entry_def fat_byte_def looped_disk_def read8_def end_of_chain_def
        libfat_clustertosector_def)
  moreover have "libfat_clustertosector fat12_fs 2 = Some 4"
    by (simp add: libfat_clustertosector_def fat12_fields)
  ultimately show "libfat_searchdir 9 looped_disk fat12_fs 2 ldlinux_sys = None"
    by (intro libfat_searchdir_diverges [where S = "{4}"]) auto
qed

end
