(* ===== verification/Regex.thy ===== *)
theory Regex
  imports Rufus_Prelude
begin

text \<open>
  The regular expression matcher \<^verbatim>\<open>src/re.c\<close>: compiled objects, character classes, the backtracking matcher and the
  search \<^verbatim>\<open>re_matchp\<close>. A C string is the list of its characters without the terminating zero. The characters of
  the text are \<^verbatim>\<open>char\<close>, which is signed on the platforms of the program; \<^verbatim>\<open>isdigit\<close>, \<^verbatim>\<open>isalpha\<close> and \<^verbatim>\<open>isspace\<close> are those
  of the C locale.
\<close>

section \<open>The code\<close>

datatype re_type = UNUSED | DOT | BEGIN | END | QUESTIONMARK | STAR | PLUS | CHAR_LIT | CHAR_CLASS | INV_CHAR_CLASS
  | DIGIT | NOT_DIGIT | ALPHA | NOT_ALPHA | WHITESPACE | NOT_WHITESPACE

text \<open>The union \<open>u\<close>: a character, or a pointer into \<^verbatim>\<open>ccl_buf\<close> given by its index.\<close>

datatype re_union = U_ch byte | U_ccl nat

record regex_t =
  re_type :: re_type
  re_u :: re_union

text \<open>Character \<open>i\<close> of a zero-terminated string or buffer.\<close>

definition char_at :: "bytes \<Rightarrow> nat \<Rightarrow> byte" where
  "char_at s i = (if i < length s then s ! i else 0)"

subsection \<open>Single characters\<close>

definition matchdigit :: "byte \<Rightarrow> bool" where
  "matchdigit c \<longleftrightarrow> 0x30 \<le> c \<and> c \<le> 0x39"

definition matchalpha :: "byte \<Rightarrow> bool" where
  "matchalpha c \<longleftrightarrow> 0x41 \<le> c \<and> c \<le> 0x5A \<or> 0x61 \<le> c \<and> c \<le> 0x7A"

definition matchwhitespace :: "byte \<Rightarrow> bool" where
  "matchwhitespace c \<longleftrightarrow> c = 0x20 \<or> 0x09 \<le> c \<and> c \<le> 0x0D"

definition matchalphanum :: "byte \<Rightarrow> bool" where
  "matchalphanum c \<longleftrightarrow> c = 0x5F \<or> matchalpha c \<or> matchdigit c"

definition matchrange :: "bytes \<Rightarrow> byte \<Rightarrow> nat \<Rightarrow> bool" where
  "matchrange b c i \<longleftrightarrow> c \<noteq> 0x2D \<and> char_at b i \<noteq> 0 \<and> char_at b i \<noteq> 0x2D \<and> char_at b (i + 1) = 0x2D \<and>
     char_at b (i + 2) \<noteq> 0 \<and> char_at b i \<le>s c \<and> c \<le>s char_at b (i + 2)"

text \<open>\<^verbatim>\<open>RE_DOT_MATCHES_NEWLINE\<close> is 1.\<close>

definition matchdot :: "byte \<Rightarrow> bool" where
  "matchdot c = True"

definition ismetachar :: "byte \<Rightarrow> bool" where
  "ismetachar c \<longleftrightarrow> c = 0x73 \<or> c = 0x53 \<or> c = 0x77 \<or> c = 0x57 \<or> c = 0x64 \<or> c = 0x44"

definition matchmetachar :: "byte \<Rightarrow> byte \<Rightarrow> bool" where
  "matchmetachar c m =
     (if m = 0x64 then matchdigit c else if m = 0x44 then \<not> matchdigit c
      else if m = 0x77 then matchalphanum c else if m = 0x57 then \<not> matchalphanum c
      else if m = 0x73 then matchwhitespace c else if m = 0x53 then \<not> matchwhitespace c
      else c = m)"

text \<open>\<open>None\<close> is a scan that runs past the end of the buffer.\<close>

function matchcharclass :: "bytes \<Rightarrow> byte \<Rightarrow> nat \<Rightarrow> bool option" where
  "matchcharclass b c i =
     (if length b \<le> i then None
      else if matchrange b c i then Some True
      else if char_at b i = 0x5C then
        if matchmetachar c (char_at b (i + 1)) then Some True
        else if c = char_at b (i + 1) \<and> \<not> ismetachar c then Some True
        else if char_at b (i + 1) \<noteq> 0 then matchcharclass b c (i + 2)
        else Some False
      else if c = char_at b i then
        if c = 0x2D then Some (char_at b (i - 1) = 0 \<or> char_at b (i + 1) = 0) else Some True
      else if char_at b i \<noteq> 0 then matchcharclass b c (i + 1)
      else Some False)"
  by pat_completeness auto
termination
  by (relation "measure (\<lambda>(b, c, i). length b - i)") auto

declare matchcharclass.simps [simp del]

text \<open>
  \<^verbatim>\<open>matchone\<close>. The default case compares the unsigned character of the union with a signed one, as \<^verbatim>\<open>int\<close>; when the
  union holds a pointer, its first byte is compared, which depends on where \<^verbatim>\<open>ccl_buf\<close> lies: \<open>low\<close>.
\<close>

definition matchone :: "(nat \<Rightarrow> byte) \<Rightarrow> bytes \<Rightarrow> regex_t \<Rightarrow> byte \<Rightarrow> bool" where
  "matchone low b p c =
     (let class_of = (case re_u p of U_ccl i \<Rightarrow> matchcharclass b c i | U_ch _ \<Rightarrow> None) in
      case re_type p of
        DOT \<Rightarrow> matchdot c
      | CHAR_CLASS \<Rightarrow> class_of = Some True
      | INV_CHAR_CLASS \<Rightarrow> class_of = Some False
      | DIGIT \<Rightarrow> matchdigit c
      | NOT_DIGIT \<Rightarrow> \<not> matchdigit c
      | ALPHA \<Rightarrow> matchalphanum c
      | NOT_ALPHA \<Rightarrow> \<not> matchalphanum c
      | WHITESPACE \<Rightarrow> matchwhitespace c
      | NOT_WHITESPACE \<Rightarrow> \<not> matchwhitespace c
      | _ \<Rightarrow> uint (case re_u p of U_ch x \<Rightarrow> x | U_ccl i \<Rightarrow> low i) = sint c)"

subsection \<open>The matcher\<close>

text \<open>
  A pattern is the list of objects up to the first \<^verbatim>\<open>UNUSED\<close>; \<open>[]\<close> is a pointer to that object. \<open>one\<close> is \<^verbatim>\<open>matchone\<close>.
  The functions return the result and \<^verbatim>\<open>*matchlength\<close>.
\<close>

definition type_at :: "regex_t list \<Rightarrow> nat \<Rightarrow> re_type" where
  "type_at ps i = (if i < length ps then re_type (ps ! i) else UNUSED)"

text \<open>The first loop of \<^verbatim>\<open>matchstar\<close> and of \<^verbatim>\<open>matchplus\<close>: how far \<open>text\<close> is advanced.\<close>

fun match_run :: "(regex_t \<Rightarrow> byte \<Rightarrow> bool) \<Rightarrow> regex_t \<Rightarrow> bytes \<Rightarrow> nat" where
  "match_run one p [] = 0"
| "match_run one p (x # xs) = (if one p x then Suc (match_run one p xs) else 0)"

function matchloop :: "(regex_t \<Rightarrow> byte \<Rightarrow> bool) \<Rightarrow> int \<Rightarrow> regex_t list \<Rightarrow> bytes \<Rightarrow> int \<Rightarrow> bool \<times> int"
  and matchquestion :: "(regex_t \<Rightarrow> byte \<Rightarrow> bool) \<Rightarrow> regex_t \<Rightarrow> regex_t list \<Rightarrow> bytes \<Rightarrow> int \<Rightarrow> bool \<times> int"
  and star_back :: "(regex_t \<Rightarrow> byte \<Rightarrow> bool) \<Rightarrow> int \<Rightarrow> regex_t list \<Rightarrow> bytes \<Rightarrow> nat \<Rightarrow> int \<Rightarrow> bool \<times> int"
  and plus_back :: "(regex_t \<Rightarrow> byte \<Rightarrow> bool) \<Rightarrow> regex_t list \<Rightarrow> bytes \<Rightarrow> nat \<Rightarrow> int \<Rightarrow> bool \<times> int"
  where
  "matchloop one pre ps text ml =
     (case ps of
        [] \<Rightarrow> (True, ml)
      | p # rest \<Rightarrow>
          if type_at ps 1 = QUESTIONMARK then matchquestion one p (drop 2 ps) text ml
          else if type_at ps 1 = STAR then
            let n = match_run one p text in star_back one ml (drop 2 ps) text n (ml + int n)
          else if type_at ps 1 = PLUS then
            let n = match_run one p text in plus_back one (drop 2 ps) text n (ml + int n)
          else if re_type p = END \<and> rest = [] then (text = [], ml)
          else (case text of
                  [] \<Rightarrow> (False, pre)
                | x # xs \<Rightarrow> if one p x then matchloop one pre rest xs (ml + 1) else (False, pre)))"
| "matchquestion one p ps text ml =
     (case matchloop one ml ps text ml of
        (True, ml) \<Rightarrow> (True, ml)
      | (False, ml) \<Rightarrow>
          (case text of
             [] \<Rightarrow> (False, ml)
           | x # xs \<Rightarrow>
               if one p x
               then (case matchloop one ml ps xs ml of (True, ml) \<Rightarrow> (True, ml + 1) | (False, ml) \<Rightarrow> (False, ml))
               else (False, ml)))"
| "star_back one prelen ps text n ml =
     (case matchloop one ml ps (drop n text) ml of
        (True, ml) \<Rightarrow> (True, ml)
      | (False, ml) \<Rightarrow> (case n of 0 \<Rightarrow> (False, prelen) | Suc n \<Rightarrow> star_back one prelen ps text n (ml - 1)))"
| "plus_back one ps text n ml =
     (case n of
        0 \<Rightarrow> (False, ml)
      | Suc m \<Rightarrow>
          (case matchloop one ml ps (drop n text) ml of
             (True, ml) \<Rightarrow> (True, ml)
           | (False, ml) \<Rightarrow> plus_back one ps text m (ml - 1)))"
  by pat_completeness auto
termination
  by (relation "inv_image (less_than <*lex*> less_than) (\<lambda>x. case x of
        Inl (Inl (one, pre, ps, text, ml)) \<Rightarrow> (length ps, 0)
      | Inl (Inr (one, p, ps, text, ml)) \<Rightarrow> (length ps, 1)
      | Inr (Inl (one, prelen, ps, text, n, ml)) \<Rightarrow> (length ps, Suc n)
      | Inr (Inr (one, ps, text, n, ml)) \<Rightarrow> (length ps, Suc n))") auto

declare matchloop.simps [simp del] matchquestion.simps [simp del] star_back.simps [simp del] plus_back.simps [simp del]

definition matchpattern :: "(regex_t \<Rightarrow> byte \<Rightarrow> bool) \<Rightarrow> regex_t list \<Rightarrow> bytes \<Rightarrow> int \<Rightarrow> bool \<times> int" where
  "matchpattern one ps text ml = matchloop one ml ps text ml"

text \<open>The search of \<^verbatim>\<open>re_matchp\<close> for a pattern that does not start with \<^verbatim>\<open>BEGIN\<close>.\<close>

fun search_loop :: "(regex_t \<Rightarrow> byte \<Rightarrow> bool) \<Rightarrow> regex_t list \<Rightarrow> bytes \<Rightarrow> int \<Rightarrow> int \<Rightarrow> int \<times> int" where
  "search_loop one ps [] idx ml = (- 1, snd (matchpattern one ps [] ml))"
| "search_loop one ps (x # xs) idx ml =
     (case matchpattern one ps (x # xs) ml of
        (True, ml) \<Rightarrow> (idx, ml)
      | (False, ml) \<Rightarrow> search_loop one ps xs (idx + 1) ml)"

definition re_matchp :: "(regex_t \<Rightarrow> byte \<Rightarrow> bool) \<Rightarrow> regex_t list option \<Rightarrow> bytes \<Rightarrow> int \<times> int" where
  "re_matchp one pattern text =
     (case pattern of
        None \<Rightarrow> (- 1, 0)
      | Some ps \<Rightarrow>
          if type_at ps 0 = BEGIN
          then (case matchpattern one (drop 1 ps) text 0 of (r, ml) \<Rightarrow> (if r then 0 else - 1, ml))
          else search_loop one ps text 0 0)"

section \<open>The language of a pattern\<close>

text \<open>
  The objects of a pattern grouped into items, each with its quantifier (\<^const>\<open>CHAR_LIT\<close> for none), and whether the
  pattern ends with an end anchor.
\<close>

fun re_items :: "regex_t list \<Rightarrow> (regex_t \<times> re_type) list \<times> bool" where
  "re_items [] = ([], False)"
| "re_items [p] = (if re_type p = END then ([], True) else ([(p, CHAR_LIT)], False))"
| "re_items (p # q # ps) =
     (if re_type q \<in> {QUESTIONMARK, STAR, PLUS}
      then (case re_items ps of (its, e) \<Rightarrow> ((p, re_type q) # its, e))
      else (case re_items (q # ps) of (its, e) \<Rightarrow> ((p, CHAR_LIT) # its, e)))"

definition item_lang :: "(regex_t \<Rightarrow> byte \<Rightarrow> bool) \<Rightarrow> regex_t \<times> re_type \<Rightarrow> bytes set" where
  "item_lang one = (\<lambda>(p, q).
     case q of
       QUESTIONMARK \<Rightarrow> {[]} \<union> {[x] |x. one p x}
     | STAR \<Rightarrow> {u. \<forall>x \<in> set u. one p x}
     | PLUS \<Rightarrow> {u. u \<noteq> [] \<and> (\<forall>x \<in> set u. one p x)}
     | _ \<Rightarrow> {[x] |x. one p x})"

fun items_lang :: "(regex_t \<Rightarrow> byte \<Rightarrow> bool) \<Rightarrow> (regex_t \<times> re_type) list \<Rightarrow> bytes set" where
  "items_lang one [] = {[]}"
| "items_lang one (it # its) = {u @ v |u v. u \<in> item_lang one it \<and> v \<in> items_lang one its}"

text \<open>Items with an optional end anchor match a prefix \<open>u\<close> of \<open>text\<close>; so does a pattern.\<close>

definition matches_items :: "(regex_t \<Rightarrow> byte \<Rightarrow> bool) \<Rightarrow> (regex_t \<times> re_type) list \<times> bool \<Rightarrow> bytes \<Rightarrow> bytes \<Rightarrow> bool" where
  "matches_items one r text u \<longleftrightarrow> u \<in> items_lang one (fst r) \<and> (\<exists>v. text = u @ v \<and> (snd r \<longrightarrow> v = []))"

definition matches_prefix :: "(regex_t \<Rightarrow> byte \<Rightarrow> bool) \<Rightarrow> regex_t list \<Rightarrow> bytes \<Rightarrow> bytes \<Rightarrow> bool" where
  "matches_prefix one ps = matches_items one (re_items ps)"

section \<open>The matcher decides the language\<close>

lemma matches_items_Nil [simp]: "matches_items one ([], e) text u \<longleftrightarrow> u = [] \<and> (e \<longrightarrow> text = [])"
  by (auto simp: matches_items_def)

lemma matches_items_Cons:
  "matches_items one (it # its, e) text w \<longleftrightarrow>
   (\<exists>k \<le> length text. take k text \<in> item_lang one it \<and> (\<exists>u. matches_items one (its, e) (drop k text) u \<and> w = take k text @ u))"
  (is "?L \<longleftrightarrow> ?R")
proof
  assume ?L
  then obtain a b v where "a \<in> item_lang one it" "b \<in> items_lang one its" "w = a @ b" "text = (a @ b) @ v" "e \<longrightarrow> v = []"
    by (auto simp: matches_items_def)
  then show ?R
    by (intro exI [of _ "length a"]) (auto simp: matches_items_def)
next
  assume ?R
  then obtain k u v where "k \<le> length text" "take k text \<in> item_lang one it" "u \<in> items_lang one its"
    "w = take k text @ u" "drop k text = u @ v" "e \<longrightarrow> v = []"
    by (auto simp: matches_items_def)
  then have "text = w @ v" "w \<in> items_lang one (it # its)"
    using append_take_drop_id [of k "text"] by auto
  then show ?L
    using \<open>e \<longrightarrow> v = []\<close> by (auto simp: matches_items_def)
qed

lemma match_run_le: "match_run one p text \<le> length text"
  by (induction "text") auto

lemma take_match_run:
  "k \<le> length text \<Longrightarrow> (\<forall>x \<in> set (take k text). one p x) \<longleftrightarrow> k \<le> match_run one p text"
proof (induction "text" arbitrary: k)
  case (Cons x xs)
  then show ?case by (cases k) auto
qed simp

text \<open>What each quantifier adds to the items \<open>r\<close> that follow it.\<close>

lemma run_star: "k \<le> length text \<and> take k text \<in> item_lang one (p, STAR) \<longleftrightarrow> k \<le> match_run one p text"
  using match_run_le [of one p "text"] take_match_run [of k "text" one p] by (auto simp: item_lang_def)

lemma run_plus: "k \<le> length text \<and> take k text \<in> item_lang one (p, PLUS) \<longleftrightarrow> k \<le> match_run one p text \<and> 0 < k"
  using match_run_le [of one p "text"] take_match_run [of k "text" one p] by (cases "text = []") (auto simp: item_lang_def)

lemma matches_star:
  "matches_items one ((p, STAR) # its, e) text w \<longleftrightarrow>
   (\<exists>k \<le> match_run one p text. \<exists>u. matches_items one (its, e) (drop k text) u \<and> w = take k text @ u)"
  unfolding matches_items_Cons using run_star [of _ "text" one p] by blast

lemma matches_plus:
  "matches_items one ((p, PLUS) # its, e) text w \<longleftrightarrow>
   (\<exists>k \<le> match_run one p text. 0 < k \<and> (\<exists>u. matches_items one (its, e) (drop k text) u \<and> w = take k text @ u))"
  unfolding matches_items_Cons using run_plus [of _ "text" one p] by blast

lemma matches_char:
  assumes "q \<notin> {QUESTIONMARK, STAR, PLUS}"
  shows "matches_items one ((p, q) # its, e) text w \<longleftrightarrow>
   (\<exists>x xs u. text = x # xs \<and> one p x \<and> matches_items one (its, e) xs u \<and> w = x # u)"
proof -
  have "item_lang one (p, q) = {[x] |x. one p x}"
    using assms by (cases q) (auto simp: item_lang_def)
  then have "items_lang one ((p, q) # its) = {x # v |x v. one p x \<and> v \<in> items_lang one its}"
    by (simp add: set_eq_iff) (metis append_Cons append_Nil)
  then show ?thesis
    by (auto simp: matches_items_def simp del: items_lang.simps)
qed

lemma matches_question:
  "matches_items one ((p, QUESTIONMARK) # its, e) text w \<longleftrightarrow>
   matches_items one (its, e) text w \<or>
   (\<exists>x xs u. text = x # xs \<and> one p x \<and> matches_items one (its, e) xs u \<and> w = x # u)"
proof -
  have "matches_items one ((p, QUESTIONMARK) # its, e) text w \<longleftrightarrow>
    matches_items one (its, e) text w \<or> matches_items one ((p, CHAR_LIT) # its, e) text w"
    by (auto simp: matches_items_def item_lang_def)
  then show ?thesis
    by (simp add: matches_char)
qed

lemma type_at_simps [simp]:
  "type_at [] i = UNUSED" "type_at (p # ps) 0 = re_type p" "type_at (p # ps) (Suc i) = type_at ps i"
  by (auto simp: type_at_def)

text \<open>The items of a pattern, by the case that the matcher takes.\<close>

lemma re_items_Cons:
  "re_items (p # ps) =
    (if type_at ps 0 \<in> {QUESTIONMARK, STAR, PLUS}
     then (case re_items (drop 1 ps) of (its, e) \<Rightarrow> ((p, type_at ps 0) # its, e))
     else if ps = [] \<and> re_type p = END then ([], True)
     else (case re_items ps of (its, e) \<Rightarrow> ((p, CHAR_LIT) # its, e)))"
  by (cases ps) auto

text \<open>The results of the four functions: when they succeed there is a match of at most the reported length; when
  they fail there is none, and the reported length has not shrunk.\<close>

definition result_ok :: "bool \<times> int \<Rightarrow> (bytes \<Rightarrow> bool) \<Rightarrow> int \<Rightarrow> int \<Rightarrow> bool" where
  "result_ok r m ml pre \<longleftrightarrow> (if fst r then \<exists>u. m u \<and> ml + int (length u) \<le> snd r else (\<forall>u. \<not> m u) \<and> pre \<le> snd r)"

lemma result_ok_simps [simp]:
  "result_ok (True, n) m ml pre \<longleftrightarrow> (\<exists>u. m u \<and> ml + int (length u) \<le> n)"
  "result_ok (False, n) m ml pre \<longleftrightarrow> (\<forall>u. \<not> m u) \<and> pre \<le> n"
  by (simp_all add: result_ok_def)

lemma result_ok_weaken:
  "result_ok r m a pre \<Longrightarrow> (\<And>u. m' u \<longleftrightarrow> m u) \<Longrightarrow> b \<le> a \<Longrightarrow> pre' \<le> pre \<Longrightarrow> result_ok r m' b pre'"
  by (force simp: result_ok_def split: if_splits)

lemma result_ok_Cons:
  assumes "result_ok r m (ml + 1) pre" "\<And>u. m u \<Longrightarrow> m' (x # u)" "\<And>w. m' w \<Longrightarrow> \<exists>u. m u"
  shows "result_ok r m' ml pre"
proof (cases "fst r")
  case True
  then obtain u where "m u" "ml + 1 + int (length u) \<le> snd r"
    using assms(1) by (auto simp: result_ok_def)
  then show ?thesis
    using True assms(2) [of u] by (auto simp: result_ok_def intro!: exI [of _ "x # u"])
next
  case False
  then show ?thesis
    using assms(1,3) by (auto simp: result_ok_def)
qed

text \<open>The loop decides pattern \<open>ps\<close>.\<close>

definition loop_ok :: "(regex_t \<Rightarrow> byte \<Rightarrow> bool) \<Rightarrow> regex_t list \<Rightarrow> bool" where
  "loop_ok one ps \<longleftrightarrow>
     (\<forall>pre ml text. pre \<le> ml \<longrightarrow> result_ok (matchloop one pre ps text ml) (matches_prefix one ps text) ml pre)"

lemma loop_okD: "loop_ok one ps \<Longrightarrow> matchloop one ml ps text ml = r \<Longrightarrow> result_ok r (matches_prefix one ps text) ml ml"
  by (auto simp: loop_ok_def)

lemma star_back_ok:
  assumes "loop_ok one ps" "n \<le> length text"
  shows "result_ok (star_back one prelen ps text n ml)
     (\<lambda>w. \<exists>k \<le> n. \<exists>u. matches_prefix one ps (drop k text) u \<and> w = take k text @ u) (ml - int n) prelen"
  using assms(2)
proof (induction n arbitrary: ml)
  case (0 ml)
  obtain r1 ml1 where "matchloop one ml ps text ml = (r1, ml1)" by force
  with loop_okD [OF assms(1) this] show ?case
    by (subst star_back.simps) (cases r1; simp)
next
  case (Suc m ml)
  obtain r1 ml1 where 1: "matchloop one ml ps (drop (Suc m) text) ml = (r1, ml1)" by force
  note ok = loop_okD [OF assms(1) 1]
  show ?case
  proof (cases r1)
    case True
    then obtain u where "matches_prefix one ps (drop (Suc m) text) u" "ml + int (length u) \<le> ml1"
      using ok by auto
    moreover from this have "\<exists>k \<le> Suc m. (\<exists>v. matches_prefix one ps (drop k text) v \<and> take (Suc m) text @ u = take k text @ v)"
      by blast
    ultimately show ?thesis
      using True 1 Suc.prems by (subst star_back.simps) (simp, intro exI [of _ "take (Suc m) text @ u"], simp)
  next
    case False
    then have code: "star_back one prelen ps text (Suc m) ml = star_back one prelen ps text m (ml1 - 1)"
      using 1 by (subst star_back.simps) simp
    show ?thesis
      unfolding code using ok False Suc.prems
      by (intro result_ok_weaken [OF Suc.IH [of "ml1 - 1"]]) (auto simp: le_Suc_eq)
  qed
qed

lemma plus_back_ok:
  assumes "loop_ok one ps" "n \<le> length text"
  shows "result_ok (plus_back one ps text n ml)
     (\<lambda>w. \<exists>k \<le> n. 0 < k \<and> (\<exists>u. matches_prefix one ps (drop k text) u \<and> w = take k text @ u)) (ml - int n) (ml - int n)"
  using assms(2)
proof (induction n arbitrary: ml)
  case (0 ml)
  show ?case by (subst plus_back.simps) simp
next
  case (Suc m ml)
  obtain r1 ml1 where 1: "matchloop one ml ps (drop (Suc m) text) ml = (r1, ml1)" by force
  note ok = loop_okD [OF assms(1) 1]
  show ?case
  proof (cases r1)
    case True
    then obtain u where "matches_prefix one ps (drop (Suc m) text) u" "ml + int (length u) \<le> ml1"
      using ok by auto
    moreover from this have "\<exists>k \<le> Suc m. 0 < k \<and> (\<exists>v. matches_prefix one ps (drop k text) v \<and> take (Suc m) text @ u = take k text @ v)"
      by blast
    ultimately show ?thesis
      using True 1 Suc.prems by (subst plus_back.simps) (simp, intro exI [of _ "take (Suc m) text @ u"], simp)
  next
    case False
    then have code: "plus_back one ps text (Suc m) ml = plus_back one ps text m (ml1 - 1)"
      using 1 by (subst plus_back.simps) simp
    show ?thesis
      unfolding code using ok False Suc.prems
      by (intro result_ok_weaken [OF Suc.IH [of "ml1 - 1"]]) (auto simp: le_Suc_eq)
  qed
qed

lemma matchquestion_ok:
  assumes "loop_ok one ps" "re_items ps = (its, e)"
  shows "result_ok (matchquestion one p ps text ml) (matches_items one ((p, QUESTIONMARK) # its, e) text) ml ml"
proof -
  obtain r1 ml1 where 1: "matchloop one ml ps text ml = (r1, ml1)" by force
  note ok1 = loop_okD [OF assms(1) 1]
  show ?thesis
  proof (cases "r1 \<or> \<not> (\<exists>x xs. text = x # xs \<and> one p x)")
    case True
    then show ?thesis
      using ok1 1 assms(2)
      by (subst matchquestion.simps) (cases r1; auto simp: matches_question matches_prefix_def split: list.splits)
  next
    case False
    then obtain x xs where x: "text = x # xs" "one p x" "\<not> r1" by blast
    obtain r2 ml2 where 2: "matchloop one ml1 ps xs ml1 = (r2, ml2)" by force
    have code: "matchquestion one p ps text ml = (r2, if r2 then ml2 + 1 else ml2)"
      using x 1 2 by (subst matchquestion.simps) (cases r2; simp)
    have m: "matches_items one ((p, QUESTIONMARK) # its, e) text w \<longleftrightarrow> (\<exists>u. matches_prefix one ps xs u \<and> w = x # u)" for w
      using ok1 x assms(2) by (simp add: matches_question matches_prefix_def)
    show ?thesis
      unfolding code using loop_okD [OF assms(1) 2] ok1 x(3) by (cases r2) (fastforce simp: m)+
  qed
qed

lemma matchloop_ok: "loop_ok one ps"
proof (induction ps rule: length_induct)
  case (1 ps)
  have "result_ok (matchloop one pre ps text ml) (matches_prefix one ps text) ml pre" if pre: "pre \<le> ml" for pre ml "text"
  proof (cases ps)
    case Nil
    then show ?thesis by (simp add: matchloop.simps [of _ _ "[]"] matches_prefix_def)
  next
    case (Cons p rest)
    have rest: "loop_ok one rest" "loop_ok one (drop 1 rest)"
      using 1 Cons by auto
    have run: "match_run one p text \<le> length text" by (rule match_run_le)
    obtain its e where its: "re_items (drop 1 rest) = (its, e)" by force
    consider (q) "type_at rest 0 = QUESTIONMARK" | (s) "type_at rest 0 = STAR" | (plus) "type_at rest 0 = PLUS"
      | (e) "re_type p = END" "rest = []"
      | (plain) "type_at rest 0 \<notin> {QUESTIONMARK, STAR, PLUS}" "\<not> (re_type p = END \<and> rest = [])"
      by auto
    then show ?thesis
    proof cases
      case q
      then show ?thesis
        using result_ok_weaken [OF matchquestion_ok [OF rest(2) its, of p "text" ml] refl order_refl pre] Cons its
        by (simp add: matchloop.simps [of _ _ "p # rest"] matches_prefix_def re_items_Cons)
    next
      case s
      then show ?thesis
        using star_back_ok [OF rest(2) run, of ml "ml + int (match_run one p text)"] pre Cons its
        by (simp add: matchloop.simps [of _ _ "p # rest"] matches_prefix_def re_items_Cons matches_star Let_def
            result_ok_def split: if_splits)
    next
      case plus
      then show ?thesis
        using plus_back_ok [OF rest(2) run, of "ml + int (match_run one p text)"] pre Cons its
        by (simp add: matchloop.simps [of _ _ "p # rest"] matches_prefix_def re_items_Cons matches_plus Let_def
            result_ok_def split: if_splits)
    next
      case e
      then show ?thesis
        using pre Cons by (simp add: matchloop.simps [of _ _ "[p]"] matches_prefix_def result_ok_def)
    next
      case plain
      have m: "matches_prefix one ps text w \<longleftrightarrow> (\<exists>x xs u. text = x # xs \<and> one p x \<and> matches_prefix one rest xs u \<and> w = x # u)" for w
        using plain Cons by (cases "re_items rest") (auto simp: matches_prefix_def re_items_Cons matches_char)
      have code: "matchloop one pre ps text ml = (case text of [] \<Rightarrow> (False, pre)
          | x # xs \<Rightarrow> if one p x then matchloop one pre rest xs (ml + 1) else (False, pre))"
        using plain Cons by (subst matchloop.simps) auto
      show ?thesis
      proof (cases "\<exists>x xs. text = x # xs \<and> one p x")
        case True
        then obtain x xs where x: "text = x # xs" "one p x" by blast
        have "result_ok (matchloop one pre rest xs (ml + 1)) (matches_prefix one rest xs) (ml + 1) pre"
          using rest(1) pre by (simp add: loop_ok_def)
        then have "result_ok (matchloop one pre rest xs (ml + 1)) (matches_prefix one ps text) ml pre"
          by (rule result_ok_Cons [where x = x]) (use x m in auto)
        then show ?thesis
          using code x by simp
      next
        case False
        then show ?thesis
          using m code by (auto split: list.splits)
      qed
    qed
  qed
  then show ?case by (simp add: loop_ok_def)
qed


section \<open>Searching\<close>

lemma matchpattern_iff: "fst (matchpattern one ps text ml) \<longleftrightarrow> (\<exists>u. matches_prefix one ps text u)"
  using loop_okD [OF matchloop_ok refl, of one ml ps "text"] by (auto simp: matchpattern_def result_ok_def split: if_splits)

lemma matchpattern_length:
  "matchpattern one ps text ml = (r, ml') \<Longrightarrow>
   if r then \<exists>u. matches_prefix one ps text u \<and> ml + int (length u) \<le> ml' else ml \<le> ml'"
  using loop_okD [OF matchloop_ok, of one ml ps "text" "(r, ml')"] by (auto simp: matchpattern_def)

lemma find_map_Suc: "List.find P (map Suc is) = map_option Suc (List.find (\<lambda>i. P (Suc i)) is)"
  by (induction "is") auto

text \<open>The first position of the text at which the pattern matches.\<close>

definition first_match :: "(regex_t \<Rightarrow> byte \<Rightarrow> bool) \<Rightarrow> regex_t list \<Rightarrow> bytes \<Rightarrow> nat option" where
  "first_match one ps text = List.find (\<lambda>i. \<exists>u. matches_prefix one ps (drop i text) u) [0..<length text]"

lemma first_match_Cons:
  "first_match one ps (x # xs) =
    (if \<exists>u. matches_prefix one ps (x # xs) u then Some 0 else map_option Suc (first_match one ps xs))"
proof -
  have "[0..<length (x # xs)] = 0 # map Suc [0..<length xs]"
    by (simp add: upt_conv_Cons map_Suc_upt del: upt_Suc)
  then show ?thesis
    by (auto simp: first_match_def find_map_Suc simp del: upt_Suc)
qed

lemma search_loop_ok:
  assumes "0 \<le> idx" "0 \<le> ml"
  shows "case first_match one ps text of
       None \<Rightarrow> fst (search_loop one ps text idx ml) = - 1
     | Some i \<Rightarrow> fst (search_loop one ps text idx ml) = idx + int i \<and>
         (\<exists>u. matches_prefix one ps (drop i text) u \<and> int (length u) \<le> snd (search_loop one ps text idx ml))"
  using assms
proof (induction "text" arbitrary: idx ml)
  case Nil
  then show ?case by (simp add: first_match_def)
next
  case (Cons x xs)
  obtain r ml' where m: "matchpattern one ps (x # xs) ml = (r, ml')" by force
  note len = matchpattern_length [OF m]
  show ?case
  proof (cases r)
    case True
    then show ?thesis
      using len m Cons.prems by (force simp: first_match_Cons)
  next
    case False
    then have "\<not> (\<exists>u. matches_prefix one ps (x # xs) u)"
      using matchpattern_iff [of one ps "x # xs" ml] m by simp
    then show ?thesis
      using False len m Cons.IH [of "idx + 1" ml'] Cons.prems
      by (auto simp: first_match_Cons split: option.splits)
  qed
qed

text \<open>
  C5. \<^verbatim>\<open>re_matchp\<close> decides the language of the pattern. Anchored at the start, it returns 0 exactly when the pattern matches
  a prefix of the text. Otherwise it returns the first position before the end of the text at which
  the pattern matches, -1 if there is none. When it returns a position, \<^verbatim>\<open>*matchlength\<close> is not smaller
  than the length of some match there.
\<close>

theorem re_matchp_correct:
  "case re_matchp one (Some ps) text of (idx, len) \<Rightarrow>
    (if type_at ps 0 = BEGIN
     then idx = (if \<exists>u. matches_prefix one (drop 1 ps) text u then 0 else - 1)
     else idx = (case first_match one ps text of Some i \<Rightarrow> int i | None \<Rightarrow> - 1)) \<and>
    (idx \<noteq> - 1 \<longrightarrow> (\<exists>u. matches_prefix one (if type_at ps 0 = BEGIN then drop 1 ps else ps) (drop (nat idx) text) u \<and>
       int (length u) \<le> len))"
proof (cases "type_at ps 0 = BEGIN")
  case True
  obtain r ml where m: "matchpattern one (drop 1 ps) text 0 = (r, ml)" by force
  then show ?thesis
    using matchpattern_length [OF m] matchpattern_iff [of one "drop 1 ps" "text" 0] True
    by (cases r) (auto simp: re_matchp_def)
next
  case False
  then show ?thesis
    using search_loop_ok [of 0 0 one ps "text"] by (auto simp: re_matchp_def split: option.splits prod.splits)
qed

section \<open>Characters and classes\<close>

text \<open>The buffer \<open>b\<close> holds the zero-terminated string \<open>s\<close> at \<open>i\<close>.\<close>

fun str_at :: "bytes \<Rightarrow> nat \<Rightarrow> bytes \<Rightarrow> bool" where
  "str_at b i [] \<longleftrightarrow> i < length b \<and> char_at b i = 0"
| "str_at b i (x # xs) \<longleftrightarrow> i < length b \<and> char_at b i = x \<and> str_at b (i + 1) xs"

text \<open>The items of a class, the text of an item, and the characters it stands for.\<close>

datatype class_item = Single byte | Range byte byte | Escape byte

fun item_text :: "class_item \<Rightarrow> bytes" where
  "item_text (Single a) = [a]"
| "item_text (Range a z) = [a, 0x2D, z]"
| "item_text (Escape a) = [0x5C, a]"

fun item_ok :: "class_item \<Rightarrow> bool" where
  "item_ok (Single a) \<longleftrightarrow> a \<notin> {0, 0x2D, 0x5C, 0x5D}"
| "item_ok (Range a z) \<longleftrightarrow> a \<notin> {0, 0x2D, 0x5C, 0x5D} \<and> z \<notin> {0, 0x2D, 0x5C, 0x5D} \<and> a \<le>s z"
| "item_ok (Escape a) \<longleftrightarrow> a \<notin> {0, 0x2D}"

fun in_item :: "byte \<Rightarrow> class_item \<Rightarrow> bool" where
  "in_item c (Single a) \<longleftrightarrow> c = a"
| "in_item c (Range a z) \<longleftrightarrow> a \<le>s c \<and> c \<le>s z"
| "in_item c (Escape a) \<longleftrightarrow> matchmetachar c a"

definition class_text :: "class_item list \<Rightarrow> bytes" where
  "class_text its = concat (map item_text its)"

lemma class_text_simps [simp]: "class_text [] = []" "class_text (it # its) = item_text it @ class_text its"
  by (simp_all add: class_text_def)

lemma str_at_class_not_dash:
  assumes "str_at b i (class_text its)" "list_all item_ok its"
  shows "char_at b i \<noteq> 0x2D"
proof (cases its)
  case (Cons it rest)
  then show ?thesis
    using assms by (cases it) auto
qed (use assms in auto)

lemma sle_refl: "a \<le>s (a::byte)"
  by (simp add: word_sle_eq)

lemma matchmetachar_default: "\<not> ismetachar a \<Longrightarrow> matchmetachar c a \<longleftrightarrow> c = a"
  by (auto simp: matchmetachar_def ismetachar_def)

lemma class_step:
  assumes "str_at b i (item_text it @ s)" "item_ok it" "c \<notin> {0, 0x2D}" "char_at b (i + length (item_text it)) \<noteq> 0x2D"
  shows "matchcharclass b c i = (if in_item c it then Some True else matchcharclass b c (i + length (item_text it)))"
proof (cases it)
  case (Single a)
  then show ?thesis
    using assms by (subst matchcharclass.simps) (auto simp: matchrange_def)
next
  case (Escape a)
  then show ?thesis
    using assms matchmetachar_default [of a c] by (subst matchcharclass.simps) (auto simp: matchrange_def)
next
  case (Range a z)
  have 3: "matchcharclass b c (i + 2) = (if c = z then Some True else matchcharclass b c (i + 3))"
    using Range assms by (subst matchcharclass.simps) (auto simp: matchrange_def numeral_3_eq_3 numeral_2_eq_2)
  have 2: "matchcharclass b c (i + 1) = matchcharclass b c (i + 2)"
    using Range assms by (subst matchcharclass.simps) (auto simp: matchrange_def)
  have "matchcharclass b c i = (if a \<le>s c \<and> c \<le>s z \<or> c = a then Some True else matchcharclass b c (i + 1))"
    using Range assms by (subst matchcharclass.simps) (auto simp: matchrange_def)
  then show ?thesis
    using 2 3 Range assms(2) sle_refl by (auto simp: numeral_3_eq_3)
qed

text \<open>
  A character class in the buffer (single characters, ascending ranges and escapes other than an escaped minus
  sign) is matched by exactly the characters of its items, for every character but the minus sign;
  the scan stays inside the buffer.
\<close>

theorem matchcharclass_correct:
  assumes "str_at b i (class_text its)" "list_all item_ok its" "c \<notin> {0, 0x2D}"
  shows "matchcharclass b c i = Some (\<exists>it \<in> set its. in_item c it)"
  using assms(1,2)
proof (induction its arbitrary: i)
  case Nil
  then show ?case
    using assms(3) by (subst matchcharclass.simps) (auto simp: matchrange_def)
next
  case (Cons it its)
  have next_str: "str_at b (i + length (item_text it)) (class_text its)"
    using Cons.prems by (cases it) (simp_all add: numeral_3_eq_3 numeral_2_eq_2)
  then have "char_at b (i + length (item_text it)) \<noteq> 0x2D"
    using str_at_class_not_dash Cons.prems by auto
  then show ?case
    using class_step [of b i it "class_text its" c] Cons.prems Cons.IH [OF next_str] assms(3) by auto
qed

theorem matchcharclass_correct_witness:
  "matchcharclass [0, 0x61, 0x2D, 0x63, 0x5C, 0x64, 0] 0x35 1 = Some True"
  using matchcharclass_correct [of "[0, 0x61, 0x2D, 0x63, 0x5C, 0x64, 0]" 1 "[Range 0x61 0x63, Escape 0x64]" "0x35"]
  by (simp add: char_at_def word_sle_eq matchmetachar_def matchdigit_def)

theorem re_matchp_correct_witness:
  "\<exists>u. matches_prefix (\<lambda>_ x. x = 0x61) [\<lparr>re_type = CHAR_LIT, re_u = U_ch 0x61\<rparr>] [0x61, 0x62] u"
proof -
  let ?ps = "[\<lparr>re_type = CHAR_LIT, re_u = U_ch 0x61\<rparr>]"
  have "re_matchp (\<lambda>_ x. x = 0x61) (Some ?ps) [0x62, 0x61, 0x62] = (1, 1)"
    by code_simp
  then show ?thesis
    using re_matchp_correct [of ?ps "\<lambda>_ x. x = 0x61" "[0x62, 0x61, 0x62]"] by auto
qed

end
