(* ===== verification/Regex_Compile.thy ===== *)
theory Regex_Compile
  imports Regex "HOL-Library.Monad_Syntax"
begin

text \<open>
  \<^verbatim>\<open>re_compile\<close> and \<^verbatim>\<open>re_match\<close> of \<^verbatim>\<open>src/re.c\<close>, with the two static arrays of the compiler as explicit state. A result
  \<open>None\<close> is a write outside of an array.
\<close>

section \<open>The code\<close>

record re_static =
  re_compiled :: "regex_t list"
  ccl_buf :: bytes

definition MAX_REGEXP_OBJECTS :: nat where "MAX_REGEXP_OBJECTS = 30"

definition MAX_CHAR_CLASS_LEN :: nat where "MAX_CHAR_CLASS_LEN = 40"

definition set_type :: "nat \<Rightarrow> re_type \<Rightarrow> re_static \<Rightarrow> re_static option" where
  "set_type j t st =
     (if j < length (re_compiled st)
      then Some (st\<lparr>re_compiled := (re_compiled st)[j := (re_compiled st ! j)\<lparr>re_type := t\<rparr>]\<rparr>) else None)"

definition set_u :: "nat \<Rightarrow> re_union \<Rightarrow> re_static \<Rightarrow> re_static option" where
  "set_u j u st =
     (if j < length (re_compiled st)
      then Some (st\<lparr>re_compiled := (re_compiled st)[j := (re_compiled st ! j)\<lparr>re_u := u\<rparr>]\<rparr>) else None)"

definition put_ccl :: "nat \<Rightarrow> byte \<Rightarrow> re_static \<Rightarrow> re_static option" where
  "put_ccl i x st = (if i < length (ccl_buf st) then Some (st\<lparr>ccl_buf := (ccl_buf st)[i := x]\<rparr>) else None)"

text \<open>The loop that copies the characters of a class: \<open>None\<close> in the pair is \<^verbatim>\<open>return 0\<close>.\<close>

function ccl_loop :: "bytes \<Rightarrow> nat \<Rightarrow> nat \<Rightarrow> re_static \<Rightarrow> ((nat \<times> nat) option \<times> re_static) option" where
  "ccl_loop pattern i ccl_bufidx st =
     (if char_at pattern i = 0x5D \<or> char_at pattern i = 0 then Some (Some (i, ccl_bufidx), st)
      else if char_at pattern i = 0x5C then
        if ccl_bufidx \<ge> MAX_CHAR_CLASS_LEN - 1 then Some (None, st)
        else if char_at pattern (i + 1) = 0 then Some (None, st)
        else (case put_ccl ccl_bufidx (char_at pattern i) st of
                None \<Rightarrow> None
              | Some st \<Rightarrow>
                  (case put_ccl (ccl_bufidx + 1) (char_at pattern (i + 1)) st of
                     None \<Rightarrow> None
                   | Some st \<Rightarrow> ccl_loop pattern (i + 2) (ccl_bufidx + 2) st))
      else if ccl_bufidx \<ge> MAX_CHAR_CLASS_LEN then Some (None, st)
      else (case put_ccl ccl_bufidx (char_at pattern i) st of
              None \<Rightarrow> None
            | Some st \<Rightarrow> ccl_loop pattern (i + 1) (ccl_bufidx + 1) st))"
  by pat_completeness auto
termination
  by (relation "measure (\<lambda>(pattern, i, _). length pattern - i)") (auto simp: char_at_def split: if_splits)

declare ccl_loop.simps [simp del]

definition meta_type :: "byte \<Rightarrow> re_type option" where
  "meta_type c =
     (if c = 0x5E then Some BEGIN else if c = 0x24 then Some END else if c = 0x2E then Some DOT
      else if c = 0x2A then Some STAR else if c = 0x2B then Some PLUS else if c = 0x3F then Some QUESTIONMARK else None)"

definition escape_type :: "byte \<Rightarrow> re_type option" where
  "escape_type c =
     (if c = 0x64 then Some DIGIT else if c = 0x44 then Some NOT_DIGIT else if c = 0x77 then Some ALPHA
      else if c = 0x57 then Some NOT_ALPHA else if c = 0x73 then Some WHITESPACE
      else if c = 0x53 then Some NOT_WHITESPACE else None)"

text \<open>The \<^verbatim>\<open>switch\<close>: the new \<open>i\<close> and \<^verbatim>\<open>ccl_bufidx\<close>, or \<open>None\<close> for \<^verbatim>\<open>return 0\<close>.\<close>

definition compile_class ::
    "bytes \<Rightarrow> nat \<Rightarrow> nat \<Rightarrow> nat \<Rightarrow> re_static \<Rightarrow> ((nat \<times> nat) option \<times> re_static) option" where
  "compile_class pattern i j ccl_bufidx st =
     (let neg = (char_at pattern (i + 1) = 0x5E) in
      do { st \<leftarrow> set_type j (if neg then INV_CHAR_CLASS else CHAR_CLASS) st;
           if neg \<and> char_at pattern (i + 2) = 0 then Some (None, st)
           else do { (r, st) \<leftarrow> ccl_loop pattern (if neg then i + 2 else i + 1) ccl_bufidx st;
                     (case r of
                        None \<Rightarrow> Some (None, st)
                      | Some (i', idx) \<Rightarrow>
                          if idx \<ge> MAX_CHAR_CLASS_LEN then Some (None, st)
                          else do { st \<leftarrow> put_ccl idx 0 st;
                                    st \<leftarrow> set_u j (U_ccl ccl_bufidx) st;
                                    Some (Some (i', idx + 1), st) }) } })"

definition compile_object ::
    "bytes \<Rightarrow> nat \<Rightarrow> nat \<Rightarrow> nat \<Rightarrow> re_static \<Rightarrow> ((nat \<times> nat) option \<times> re_static) option" where
  "compile_object pattern i j ccl_bufidx st =
     (let c = char_at pattern i in
      case meta_type c of
        Some t \<Rightarrow> do { st \<leftarrow> set_type j t st; Some (Some (i, ccl_bufidx), st) }
      | None \<Rightarrow>
          if c = 0x5C then
            if char_at pattern (i + 1) \<noteq> 0 then
              (case escape_type (char_at pattern (i + 1)) of
                 Some t \<Rightarrow> do { st \<leftarrow> set_type j t st; Some (Some (i + 1, ccl_bufidx), st) }
               | None \<Rightarrow> do { st \<leftarrow> set_type j CHAR_LIT st;
                             st \<leftarrow> set_u j (U_ch (char_at pattern (i + 1))) st;
                             Some (Some (i + 1, ccl_bufidx), st) })
            else Some (Some (i, ccl_bufidx), st)
          else if c = 0x5B then compile_class pattern i j ccl_bufidx st
          else do { st \<leftarrow> set_type j CHAR_LIT st; st \<leftarrow> set_u j (U_ch c) st; Some (Some (i, ccl_bufidx), st) })"

function compile_loop :: "bytes \<Rightarrow> nat \<Rightarrow> nat \<Rightarrow> nat \<Rightarrow> re_static \<Rightarrow> (bool \<times> re_static) option" where
  "compile_loop pattern i j ccl_bufidx st =
     (if char_at pattern i \<noteq> 0 \<and> j + 1 < MAX_REGEXP_OBJECTS then
        (case compile_object pattern i j ccl_bufidx st of
           None \<Rightarrow> None
         | Some (None, st) \<Rightarrow> Some (False, st)
         | Some (Some (i, ccl_bufidx), st) \<Rightarrow>
             if char_at pattern i = 0 then Some (False, st)
             else compile_loop pattern (i + 1) (j + 1) ccl_bufidx st)
      else do { st \<leftarrow> set_type j UNUSED st; Some (True, st) })"
  by pat_completeness auto
termination
  by (relation "measure (\<lambda>(pattern, i, j, _). MAX_REGEXP_OBJECTS - j)") auto

declare compile_loop.simps [simp del]

definition re_compile :: "bytes \<Rightarrow> re_static \<Rightarrow> (bool \<times> re_static) option" where
  "re_compile pattern st = compile_loop pattern 0 0 1 st"

text \<open>The objects before the sentinel.\<close>

definition re_pattern :: "re_static \<Rightarrow> regex_t list" where
  "re_pattern st = takeWhile (\<lambda>p. re_type p \<noteq> UNUSED) (re_compiled st)"

definition re_match :: "(nat \<Rightarrow> byte) \<Rightarrow> bytes \<Rightarrow> bytes \<Rightarrow> re_static \<Rightarrow> ((int \<times> int) \<times> re_static) option" where
  "re_match low pattern text st =
     do { (ok, st) \<leftarrow> re_compile pattern st;
          Some (re_matchp (matchone low (ccl_buf st)) (if ok then Some (re_pattern st) else None) text, st) }"

text \<open>The arrays before the first call.\<close>

definition re_static_init :: re_static where
  "re_static_init = \<lparr>re_compiled = replicate 30 \<lparr>re_type = UNUSED, re_u = U_ch 0\<rparr>, ccl_buf = replicate 40 0\<rparr>"

section \<open>Memory safety\<close>

definition re_static_ok :: "re_static \<Rightarrow> bool" where
  "re_static_ok st \<longleftrightarrow> length (re_compiled st) = MAX_REGEXP_OBJECTS \<and> length (ccl_buf st) = MAX_CHAR_CLASS_LEN"

lemma set_type_ok:
  assumes "re_static_ok st" "j < MAX_REGEXP_OBJECTS"
  obtains st' where "set_type j t st = Some st'" "re_static_ok st'" "re_type (re_compiled st' ! j) = t"
  using assms by (auto simp: set_type_def re_static_ok_def)

lemma set_u_ok: "re_static_ok st \<Longrightarrow> j < MAX_REGEXP_OBJECTS \<Longrightarrow> \<exists>st'. set_u j u st = Some st' \<and> re_static_ok st'"
  by (auto simp: set_u_def re_static_ok_def)

lemma put_ccl_ok: "re_static_ok st \<Longrightarrow> i < MAX_CHAR_CLASS_LEN \<Longrightarrow> \<exists>st'. put_ccl i x st = Some st' \<and> re_static_ok st'"
  by (auto simp: put_ccl_def re_static_ok_def)

text \<open>The outcome of a step: no fault, and the state stays well formed.\<close>

definition step_ok :: "('r \<times> re_static) option \<Rightarrow> bool" where
  "step_ok x \<longleftrightarrow> (\<exists>r st'. x = Some (r, st') \<and> re_static_ok st')"

lemma ccl_loop_ok: "re_static_ok st \<Longrightarrow> step_ok (ccl_loop pattern i idx st)"
proof (induction pattern i idx st rule: ccl_loop.induct)
  case (1 pattern i idx st)
  show ?case
  proof (cases "char_at pattern i \<notin> {0, 0x5D, 0x5C} \<and> idx < MAX_CHAR_CLASS_LEN")
    case True
    then obtain st1 where "put_ccl idx (char_at pattern i) st = Some st1" "re_static_ok st1"
      using put_ccl_ok "1.prems" by blast
    then show ?thesis
      using True "1.IH"(2) by (subst ccl_loop.simps) auto
  next
    case False
    show ?thesis
    proof (cases "char_at pattern i = 0x5C \<and> idx < MAX_CHAR_CLASS_LEN - 1 \<and> char_at pattern (i + 1) \<noteq> 0")
      case True
      then obtain st1 where 1: "put_ccl idx (char_at pattern i) st = Some st1" "re_static_ok st1"
        using put_ccl_ok "1.prems" by (metis less_imp_diff_less less_diff_conv add_lessD1)
      then obtain st2 where "put_ccl (idx + 1) (char_at pattern (i + 1)) st1 = Some st2" "re_static_ok st2"
        using put_ccl_ok True by (metis less_diff_conv)
      then show ?thesis
        using True 1 "1.IH"(1) by (subst ccl_loop.simps) auto
    next
      case no: False
      then show ?thesis
        using False "1.prems" by (subst ccl_loop.simps) (auto simp: step_ok_def)
    qed
  qed
qed

lemma step_okI: "re_static_ok st' \<Longrightarrow> step_ok (Some (r, st'))"
  by (simp add: step_ok_def)

lemma compile_class_ok:
  assumes "re_static_ok st" "j < MAX_REGEXP_OBJECTS"
  shows "step_ok (compile_class pattern i j idx st)"
proof -
  define neg where "neg \<longleftrightarrow> char_at pattern (i + 1) = 0x5E"
  obtain st1 where 1: "set_type j (if neg then INV_CHAR_CLASS else CHAR_CLASS) st = Some st1" "re_static_ok st1"
    using set_type_ok [OF assms] by metis
  obtain r st2 where 2: "ccl_loop pattern (if neg then i + 2 else i + 1) idx st1 = Some (r, st2)" "re_static_ok st2"
    using ccl_loop_ok [OF 1(2)] unfolding step_ok_def by blast
  have code: "compile_class pattern i j idx st =
      (if neg \<and> char_at pattern (i + 2) = 0 then Some (None, st1)
       else case r of None \<Rightarrow> Some (None, st2)
         | Some (i', idx') \<Rightarrow> if idx' \<ge> MAX_CHAR_CLASS_LEN then Some (None, st2)
             else do { st \<leftarrow> put_ccl idx' 0 st2; st \<leftarrow> set_u j (U_ccl idx) st; Some (Some (i', idx' + 1), st) })"
    unfolding compile_class_def Let_def neg_def [symmetric] 1(1) by (simp add: 2(1))
  have "step_ok (do { st \<leftarrow> put_ccl idx' 0 st2; st \<leftarrow> set_u j (U_ccl idx) st; Some (Some (i', idx' + 1), st) })"
    if "idx' < MAX_CHAR_CLASS_LEN" for i' idx'
    using that 2(2) assms(2) by (auto simp: put_ccl_def set_u_def re_static_ok_def step_ok_def)
  then show ?thesis
    unfolding code using 1(2) 2(2) by (auto simp: step_okI not_le split: option.splits)
qed

lemma set_both_ok:
  assumes "re_static_ok st" "j < MAX_REGEXP_OBJECTS"
  shows "step_ok (do { st \<leftarrow> set_type j t st; st \<leftarrow> set_u j u st; Some (r, st) })"
  using assms by (auto simp: set_type_def set_u_def re_static_ok_def step_ok_def)

lemma compile_object_ok:
  assumes "re_static_ok st" "j < MAX_REGEXP_OBJECTS"
  shows "step_ok (compile_object pattern i j idx st)"
proof -
  have "step_ok (do { st \<leftarrow> set_type j t st; Some (r, st) })" for t and r :: "(nat \<times> nat) option"
    using assms by (auto simp: set_type_def re_static_ok_def step_ok_def)
  then show ?thesis
    using set_both_ok [OF assms] compile_class_ok [OF assms] assms(1)
    by (auto simp: compile_object_def Let_def step_okI split: option.splits)
qed

lemma compile_loop_ok:
  assumes "re_static_ok st" "j < MAX_REGEXP_OBJECTS"
  shows "\<exists>ok st'. compile_loop pattern i j idx st = Some (ok, st') \<and> re_static_ok st' \<and>
    (ok \<longrightarrow> UNUSED \<in> re_type ` set (re_compiled st'))"
  using assms
proof (induction pattern i j idx st rule: compile_loop.induct)
  case (1 pattern i j idx st)
  show ?case
  proof (cases "char_at pattern i \<noteq> 0 \<and> j + 1 < MAX_REGEXP_OBJECTS")
    case True
    obtain r st1 where 1: "compile_object pattern i j idx st = Some (r, st1)" "re_static_ok st1"
      using compile_object_ok [OF "1.prems"] unfolding step_ok_def by blast
    show ?thesis
    proof (cases "\<exists>i' idx'. r = Some (i', idx') \<and> char_at pattern i' \<noteq> 0")
      case r: True
      then obtain i' idx' where "r = Some (i', idx')" "char_at pattern i' \<noteq> 0" by blast
      then show ?thesis
        using True 1 "1.IH" [OF True 1(1) refl] by (subst compile_loop.simps) simp
    next
      case False
      then show ?thesis
        using True 1 by (subst compile_loop.simps) (auto split: option.splits)
    qed
  next
    case False
    obtain st' where "set_type j UNUSED st = Some st'" "re_static_ok st'" "re_type (re_compiled st' ! j) = UNUSED"
      by (rule set_type_ok [OF "1.prems"])
    moreover from this have "UNUSED \<in> re_type ` set (re_compiled st')"
      using "1.prems"(2) nth_mem [of j "re_compiled st'"] by (metis image_eqI re_static_ok_def)
    ultimately show ?thesis
      using False by (subst compile_loop.simps) auto
  qed
qed

text \<open>
  C29. For every pattern, \<^verbatim>\<open>re_compile\<close> terminates and writes only inside its two static arrays, and a successful compilation
  leaves the sentinel that ends the pattern.
\<close>

theorem re_compile_safe:
  assumes "re_static_ok st"
  shows "\<exists>ok st'. re_compile pattern st = Some (ok, st') \<and> re_static_ok st' \<and>
    (ok \<longrightarrow> UNUSED \<in> re_type ` set (re_compiled st'))"
  using compile_loop_ok [OF assms] by (simp add: re_compile_def MAX_REGEXP_OBJECTS_def)

theorem re_compile_safe_witness:
  "\<exists>ok st'. re_compile (replicate 100 0x5B) re_static_init = Some (ok, st') \<and> re_static_ok st'"
  using re_compile_safe [of re_static_init "replicate 100 0x5B"]
  by (auto simp: re_static_ok_def re_static_init_def MAX_REGEXP_OBJECTS_def MAX_CHAR_CLASS_LEN_def)

section \<open>Patterns and their text\<close>

text \<open>
  A pattern as a sequence of tokens: metacharacters and character sets by their object type, literal characters,
  and classes. \<open>tok_text\<close> is the way to write a token, \<open>obj_is\<close> what its object has to hold.
\<close>

datatype re_tok = Meta byte | Charset byte | Lit byte | Class bool "class_item list"

fun tok_text :: "re_tok \<Rightarrow> bytes" where
  "tok_text (Meta c) = [c]"
| "tok_text (Charset c) = [0x5C, c]"
| "tok_text (Lit c) = (if meta_type c \<noteq> None \<or> c = 0x5C \<or> c = 0x5B then [0x5C, c] else [c])"
| "tok_text (Class neg its) = [0x5B] @ (if neg then [0x5E] else []) @ class_text its @ [0x5D]"

fun tok_ok :: "re_tok \<Rightarrow> bool" where
  "tok_ok (Meta c) \<longleftrightarrow> meta_type c \<noteq> None"
| "tok_ok (Charset c) \<longleftrightarrow> escape_type c \<noteq> None"
| "tok_ok (Lit c) \<longleftrightarrow> c \<noteq> 0"
| "tok_ok (Class neg its) \<longleftrightarrow> list_all item_ok its \<and> (neg \<or> take 1 (class_text its) \<noteq> [0x5E])"

fun obj_is :: "bytes \<Rightarrow> re_tok \<Rightarrow> regex_t \<Rightarrow> bool" where
  "obj_is b (Meta c) p \<longleftrightarrow> Some (re_type p) = meta_type c"
| "obj_is b (Charset c) p \<longleftrightarrow> Some (re_type p) = escape_type c"
| "obj_is b (Lit c) p \<longleftrightarrow> re_type p = CHAR_LIT \<and> re_u p = U_ch c"
| "obj_is b (Class neg its) p \<longleftrightarrow> re_type p = (if neg then INV_CHAR_CLASS else CHAR_CLASS) \<and>
     (\<exists>i. re_u p = U_ccl i \<and> str_at b i (class_text its))"

fun ccl_size :: "re_tok \<Rightarrow> nat" where
  "ccl_size (Class neg its) = length (class_text its) + 1"
| "ccl_size _ = 0"

definition toks_text :: "re_tok list \<Rightarrow> bytes" where
  "toks_text ts = concat (map tok_text ts)"

lemma toks_text_simps [simp]: "toks_text [] = []" "toks_text (t # ts) = tok_text t @ toks_text ts"
  by (simp_all add: toks_text_def)

lemma char_at_append [simp]:
  "char_at (pre @ s) (length pre + k) = char_at s k" "char_at (pre @ s) (length pre) = char_at s 0"
  "char_at (pre @ s) (Suc (length pre)) = char_at s (Suc 0)"
  "char_at (pre @ s) (Suc (Suc (length pre))) = char_at s (Suc (Suc 0))"
  by (simp_all add: char_at_def nth_append numeral_2_eq_2)

lemma char_at_Cons [simp]: "char_at (x # s) 0 = x" "char_at (x # s) (Suc k) = char_at s k" "char_at [] k = 0"
  by (simp_all add: char_at_def)

lemma str_at_slice: "str_at b i s \<longleftrightarrow> i + length s < length b \<and> slice i (length s + 1) b = s @ [0]"
proof (induction s arbitrary: i)
  case Nil
  then show ?case
    by (auto simp: char_at_def slice_def take_Suc_conv_app_nth hd_drop_conv_nth take_Suc)
next
  case (Cons x s)
  have "slice i (length (x # s) + 1) b = b ! i # slice (i + 1) (length s + 1) b" if "i < length b"
    using that Cons_nth_drop_Suc [of i b] by (simp add: slice_def take_Cons flip: Cons_nth_drop_Suc)
  then show ?case
    using Cons.IH [of "i + 1"] by (auto simp: char_at_def)
qed

lemma str_at_frame:
  assumes "str_at b i s" "i + length s < n" "take n b' = take n b" "length b' = length b"
  shows "str_at b' i s"
proof -
  have "slice i (length s + 1) c = drop i (take (i + length s + 1) (take n c))" for c :: bytes
    using assms(2) by (simp add: slice_def drop_take min_def)
  then have "slice i (length s + 1) b' = slice i (length s + 1) b"
    using assms(3) by metis
  then show ?thesis
    using assms by (simp add: str_at_slice)
qed

subsection \<open>Classes\<close>

lemma ccl_char_step:
  assumes "char_at pattern i \<notin> {0, 0x5C, 0x5D}" "idx < MAX_CHAR_CLASS_LEN" "re_static_ok st"
  shows "ccl_loop pattern i idx st =
    ccl_loop pattern (i + 1) (idx + 1) (st\<lparr>ccl_buf := memcpy_to idx [char_at pattern i] (ccl_buf st)\<rparr>)"
  using assms by (subst ccl_loop.simps) (auto simp: put_ccl_def re_static_ok_def memcpy_to_def upd_conv_take_nth_drop)

lemma ccl_escape_step:
  assumes "char_at pattern i = 0x5C" "char_at pattern (i + 1) \<noteq> 0" "idx + 1 < MAX_CHAR_CLASS_LEN" "re_static_ok st"
  shows "ccl_loop pattern i idx st =
    ccl_loop pattern (i + 2) (idx + 2) (st\<lparr>ccl_buf := memcpy_to idx [0x5C, char_at pattern (i + 1)] (ccl_buf st)\<rparr>)"
proof -
  have "(ccl_buf st)[idx := 0x5C, idx + 1 := char_at pattern (i + 1)] =
      memcpy_to idx [0x5C, char_at pattern (i + 1)] (ccl_buf st)"
    using assms(3,4) by (intro nth_equalityI) (auto simp: memcpy_to_nth re_static_ok_def nth_list_update nth_Cons')
  then show ?thesis
    using assms by (subst ccl_loop.simps) (auto simp: put_ccl_def re_static_ok_def)
qed

lemma memcpy_to_append:
  assumes "i + length (s @ t) \<le> length b" "j = i + length s"
  shows "memcpy_to j t (memcpy_to i s b) = memcpy_to i (s @ t) b"
  using assms by (simp add: memcpy_to_def add.commute add.left_commute)

lemma memcpy_static_ok: "re_static_ok st \<Longrightarrow> idx + length s \<le> MAX_CHAR_CLASS_LEN \<Longrightarrow>
    re_static_ok (st\<lparr>ccl_buf := memcpy_to idx s (ccl_buf st)\<rparr>)"
  by (simp add: re_static_ok_def)

lemma ccl_item_step:
  assumes "item_ok it" "idx + length (item_text it) \<le> MAX_CHAR_CLASS_LEN" "re_static_ok st"
    "pattern = pre @ item_text it @ post" "i = length pre"
  shows "ccl_loop pattern i idx st =
    ccl_loop pattern (i + length (item_text it)) (idx + length (item_text it))
      (st\<lparr>ccl_buf := memcpy_to idx (item_text it) (ccl_buf st)\<rparr>)"
proof (cases it)
  case (Single a)
  then show ?thesis
    using assms by (simp add: ccl_char_step)
next
  case (Escape a)
  have "char_at pattern i = 0x5C" "char_at pattern (i + 1) = a"
    using assms(4,5) Escape by simp_all
  then show ?thesis
    using assms(1-3) Escape ccl_escape_step [of pattern i idx st] by simp
next
  case (Range a z)
  define st1 where "st1 = st\<lparr>ccl_buf := memcpy_to idx [a] (ccl_buf st)\<rparr>"
  define st2 where "st2 = st1\<lparr>ccl_buf := memcpy_to (idx + 1) [0x2D] (ccl_buf st1)\<rparr>"
  define st3 where "st3 = st2\<lparr>ccl_buf := memcpy_to (idx + 2) [z] (ccl_buf st2)\<rparr>"
  have ok: "re_static_ok st1" "re_static_ok st2"
    using assms(2,3) Range by (simp_all add: st1_def st2_def memcpy_static_ok re_static_ok_def)
  have chars: "char_at pattern i = a" "char_at pattern (i + 1) = 0x2D" "char_at pattern (i + 2) = z"
    using assms(4,5) Range by (simp_all add: numeral_2_eq_2)
  have "st3 = st\<lparr>ccl_buf := memcpy_to idx [a, 0x2D, z] (ccl_buf st)\<rparr>"
    using assms(2,3) Range by (simp add: st3_def st2_def st1_def memcpy_to_append re_static_ok_def)
  moreover have "ccl_loop pattern i idx st = ccl_loop pattern (i + 1) (idx + 1) st1"
    using ccl_char_step [of pattern i idx st] chars(1) assms(1-3) Range by (simp add: st1_def)
  moreover have "ccl_loop pattern (i + 1) (idx + 1) st1 = ccl_loop pattern (i + 2) (idx + 2) st2"
    using ccl_char_step [of pattern "i + 1" "idx + 1" st1] chars(2) ok(1) assms(2) Range by (simp add: st2_def)
  moreover have "ccl_loop pattern (i + 2) (idx + 2) st2 = ccl_loop pattern (i + 3) (idx + 3) st3"
    using ccl_char_step [of pattern "i + 2" "idx + 2" st2] chars(3) ok(2) assms(1,2) Range
    by (simp add: st3_def eval_nat_numeral)
  ultimately show ?thesis
    using Range by (simp add: numeral_3_eq_3)
qed

lemma ccl_loop_items:
  assumes "list_all item_ok its" "idx + length (class_text its) \<le> MAX_CHAR_CLASS_LEN" "re_static_ok st"
    "pattern = pre @ class_text its @ 0x5D # post" "i = length pre"
  shows "ccl_loop pattern i idx st = Some (Some (i + length (class_text its), idx + length (class_text its)),
    st\<lparr>ccl_buf := memcpy_to idx (class_text its) (ccl_buf st)\<rparr>)"
  using assms
proof (induction its arbitrary: i idx st pre)
  case Nil
  then show ?case by (subst ccl_loop.simps) simp
next
  case (Cons it its)
  let ?st = "st\<lparr>ccl_buf := memcpy_to idx (item_text it) (ccl_buf st)\<rparr>"
  have "ccl_loop pattern i idx st = ccl_loop pattern (i + length (item_text it)) (idx + length (item_text it)) ?st"
    using Cons.prems by (intro ccl_item_step) auto
  also have "\<dots> = Some (Some (i + length (item_text it) + length (class_text its),
      idx + length (item_text it) + length (class_text its)),
      ?st\<lparr>ccl_buf := memcpy_to (idx + length (item_text it)) (class_text its) (ccl_buf ?st)\<rparr>)"
    using Cons.prems by (intro Cons.IH [of _ _ "pre @ item_text it"]) (auto simp: memcpy_static_ok)
  finally show ?case
    using Cons.prems by (simp add: memcpy_to_append re_static_ok_def)
qed


subsection \<open>Tokens\<close>

text \<open>Two states agree before object \<open>j\<close> and before buffer index \<open>idx\<close>.\<close>

definition same_before :: "nat \<Rightarrow> nat \<Rightarrow> re_static \<Rightarrow> re_static \<Rightarrow> bool" where
  "same_before j idx st st' \<longleftrightarrow> take j (re_compiled st') = take j (re_compiled st) \<and> take idx (ccl_buf st') = take idx (ccl_buf st)"

lemma same_before_mono:
  assumes "same_before j' idx' st st'" "j \<le> j'" "idx \<le> idx'"
  shows "same_before j idx st st'"
proof -
  have "take j xs = take j (take j' xs)" "take idx ys = take idx (take idx' ys)" for xs :: "regex_t list" and ys :: bytes
    using assms(2,3) by (simp_all add: min_def)
  then show ?thesis
    using assms(1) unfolding same_before_def by metis
qed

lemma same_before_trans: "same_before j idx a b \<Longrightarrow> same_before j idx b c \<Longrightarrow> same_before j idx a c"
  by (simp add: same_before_def)

lemma set_type_u_state:
  assumes "re_static_ok st" "j < MAX_REGEXP_OBJECTS"
  shows "do { st \<leftarrow> set_type j t st; st \<leftarrow> set_u j u st; Some (r, st) } =
    Some (r, st\<lparr>re_compiled := (re_compiled st)[j := (re_compiled st ! j)\<lparr>re_type := t, re_u := u\<rparr>]\<rparr>)"
    and "do { st \<leftarrow> set_type j t st; Some (r, st) } =
    Some (r, st\<lparr>re_compiled := (re_compiled st)[j := (re_compiled st ! j)\<lparr>re_type := t\<rparr>]\<rparr>)"
  using assms by (simp_all add: set_type_def set_u_def re_static_ok_def)

lemma class_text_no_zero: "list_all item_ok its \<Longrightarrow> 0 \<notin> set (class_text its)"
proof (induction its)
  case (Cons it its)
  then show ?case by (cases it) auto
qed simp

lemma compile_class_tok:
  assumes "re_static_ok st" "j < MAX_REGEXP_OBJECTS" "tok_ok (Class neg its)" "idx + length (class_text its) < MAX_CHAR_CLASS_LEN"
    "pattern = pre @ tok_text (Class neg its) @ post" "i = length pre"
  shows "compile_class pattern i j idx st = Some (Some (i + length (tok_text (Class neg its)) - 1, idx + length (class_text its) + 1),
    \<lparr>re_compiled = (re_compiled st)[j := (re_compiled st ! j)\<lparr>re_type := if neg then INV_CHAR_CLASS else CHAR_CLASS, re_u := U_ccl idx\<rparr>],
     ccl_buf = memcpy_to idx (class_text its @ [0]) (ccl_buf st)\<rparr>)"
proof -
  let ?t = "if neg then INV_CHAR_CLASS else CHAR_CLASS" and ?i = "if neg then i + 2 else i + 1"
  let ?st1 = "st\<lparr>re_compiled := (re_compiled st)[j := (re_compiled st ! j)\<lparr>re_type := ?t\<rparr>]\<rparr>"
  have ok1: "re_static_ok ?st1"
    using assms(1) by (simp add: re_static_ok_def)
  have neg: "char_at pattern (i + 1) = 0x5E \<longleftrightarrow> neg"
    using assms(3,5,6) by (cases "class_text its") auto
  have nz: "neg \<Longrightarrow> char_at pattern (i + 2) \<noteq> 0"
    using assms(3,5,6) class_text_no_zero [of its] by (cases "class_text its") auto
  have loop: "ccl_loop pattern ?i idx ?st1 = Some (Some (?i + length (class_text its), idx + length (class_text its)),
      ?st1\<lparr>ccl_buf := memcpy_to idx (class_text its) (ccl_buf ?st1)\<rparr>)"
    using assms(3-6) by (intro ccl_loop_items [OF _ _ ok1, where pre = "pre @ [0x5B] @ (if neg then [0x5E] else [])" and post = post]) auto
  have type: "set_type j ?t st = Some ?st1"
    using assms(1,2) by (simp add: set_type_def re_static_ok_def)
  have buf: "(memcpy_to idx (class_text its) (ccl_buf st))[idx + length (class_text its) := 0] = memcpy_to idx (class_text its @ [0]) (ccl_buf st)"
    using assms(1,4) by (intro nth_equalityI) (auto simp: memcpy_to_nth nth_list_update nth_append re_static_ok_def)
  show ?thesis
    unfolding compile_class_def Let_def neg type
    using loop nz assms(1,2,4) buf
    by (auto simp: put_ccl_def set_u_def re_static_ok_def)
qed

lemma same_before_update:
  "same_before j idx st (st\<lparr>re_compiled := (re_compiled st)[j := p]\<rparr>)"
  "idx \<le> length (ccl_buf st) \<Longrightarrow>
     same_before j idx st \<lparr>re_compiled = (re_compiled st)[j := p], ccl_buf = memcpy_to idx s (ccl_buf st)\<rparr>"
  by (simp_all add: same_before_def take_memcpy_to)

lemma meta_type_backslash: "meta_type 0x5C = None"
  by (simp add: meta_type_def)

text \<open>The object of one token, for every later state of the buffer that keeps what is written so far.\<close>

lemma compile_object_tok:
  assumes "re_static_ok st" "j < MAX_REGEXP_OBJECTS" "tok_ok t" "idx + ccl_size t \<le> MAX_CHAR_CLASS_LEN"
    "pattern = pre @ tok_text t @ post" "i = length pre"
  shows "\<exists>st'. compile_object pattern i j idx st = Some (Some (i + length (tok_text t) - 1, idx + ccl_size t), st') \<and>
    re_static_ok st' \<and> same_before j idx st st' \<and>
    (\<forall>b. take (idx + ccl_size t) b = take (idx + ccl_size t) (ccl_buf st') \<longrightarrow> length b = MAX_CHAR_CLASS_LEN \<longrightarrow>
       obj_is b t (re_compiled st' ! j))"
proof (cases t)
  case (Class neg its)
  let ?st = "\<lparr>re_compiled = (re_compiled st)[j := (re_compiled st ! j)\<lparr>re_type := if neg then INV_CHAR_CLASS else CHAR_CLASS,
      re_u := U_ccl idx\<rparr>], ccl_buf = memcpy_to idx (class_text its @ [0]) (ccl_buf st)\<rparr>"
  have "meta_type 0x5B = None"
    by (simp add: meta_type_def)
  then have "compile_object pattern i j idx st = compile_class pattern i j idx st"
    using assms(5,6) Class by (simp add: compile_object_def)
  then have code: "compile_object pattern i j idx st = Some (Some (i + length (tok_text t) - 1, idx + ccl_size t), ?st)"
    using compile_class_tok [of st j neg its idx pattern pre post i] assms Class by simp
  have "str_at (ccl_buf ?st) idx (class_text its)"
    using assms(1,4) Class by (simp add: str_at_slice re_static_ok_def slice_memcpy_to_same)
  then have obj: "obj_is b t (re_compiled ?st ! j)"
    if "take (idx + ccl_size t) b = take (idx + ccl_size t) (ccl_buf ?st)" "length b = MAX_CHAR_CLASS_LEN" for b
    using str_at_frame [OF _ _ that(1)] that(2) assms(1,2,4) Class by (simp add: re_static_ok_def)
  have "re_static_ok ?st" "same_before j idx st ?st"
    using assms(1,4) Class same_before_update(2) [of idx st j] by (simp_all add: re_static_ok_def)
  with code obj show ?thesis
    by blast
next
  case (Lit c)
  let ?st = "st\<lparr>re_compiled := (re_compiled st)[j := (re_compiled st ! j)\<lparr>re_type := CHAR_LIT, re_u := U_ch c\<rparr>]\<rparr>"
  have "compile_object pattern i j idx st = Some (Some (i + length (tok_text t) - 1, idx), ?st)"
  proof (cases "meta_type c \<noteq> None \<or> c = 0x5C \<or> c = 0x5B")
    case True
    then have "escape_type c = None"
      by (auto simp: meta_type_def escape_type_def split: if_splits)
    then show ?thesis
      using True Lit assms(3,5,6) set_type_u_state(1) [OF assms(1,2)]
      by (simp add: compile_object_def meta_type_backslash)
  next
    case False
    then show ?thesis
      using Lit assms(3,5,6) set_type_u_state(1) [OF assms(1,2)] by (simp add: compile_object_def)
  qed
  then show ?thesis
    using Lit assms(1,2) same_before_update(1) [of j idx st] by (auto simp: re_static_ok_def)
next
  case (Meta c)
  then obtain ty where ty: "meta_type c = Some ty" using assms(3) by auto
  let ?st = "st\<lparr>re_compiled := (re_compiled st)[j := (re_compiled st ! j)\<lparr>re_type := ty\<rparr>]\<rparr>"
  have "compile_object pattern i j idx st = Some (Some (i + length (tok_text t) - 1, idx), ?st)"
    using ty Meta assms(5,6) set_type_u_state(2) [OF assms(1,2)] by (simp add: compile_object_def)
  then show ?thesis
    using ty Meta assms(1,2) same_before_update(1) [of j idx st] by (auto simp: re_static_ok_def)
next
  case (Charset c)
  then obtain ty where ty: "escape_type c = Some ty" using assms(3) by auto
  let ?st = "st\<lparr>re_compiled := (re_compiled st)[j := (re_compiled st ! j)\<lparr>re_type := ty\<rparr>]\<rparr>"
  have "c \<noteq> 0"
    using ty by (auto simp: escape_type_def)
  then have "compile_object pattern i j idx st = Some (Some (i + length (tok_text t) - 1, idx), ?st)"
    using ty Charset assms(5,6) set_type_u_state(2) [OF assms(1,2)] by (simp add: compile_object_def meta_type_backslash)
  then show ?thesis
    using ty Charset assms(1,2) same_before_update(1) [of j idx st] by (auto simp: re_static_ok_def)
qed

lemma tok_text_facts:
  assumes "tok_ok t"
  shows "tok_text t \<noteq> []" "last (tok_text t) \<noteq> 0" "hd (tok_text t) \<noteq> 0"
  using assms by (cases t; auto simp: meta_type_def escape_type_def split: if_splits)+

lemma obj_is_used: "tok_ok t \<Longrightarrow> obj_is b t p \<Longrightarrow> re_type p \<noteq> UNUSED"
  by (cases t) (auto simp: meta_type_def escape_type_def split: if_splits)

lemma compile_loop_toks:
  assumes "re_static_ok st" "list_all tok_ok ts" "j + length ts < MAX_REGEXP_OBJECTS"
    "idx + sum_list (map ccl_size ts) \<le> MAX_CHAR_CLASS_LEN"
    "pattern = pre @ toks_text ts @ post" "i = length pre" "post = [] \<or> j + length ts + 1 = MAX_REGEXP_OBJECTS"
  shows "\<exists>st'. compile_loop pattern i j idx st = Some (True, st') \<and> re_static_ok st' \<and> same_before j idx st st' \<and>
    list_all2 (obj_is (ccl_buf st')) ts (take (length ts) (drop j (re_compiled st'))) \<and>
    re_type (re_compiled st' ! (j + length ts)) = UNUSED"
  using assms
proof (induction ts arbitrary: st i j idx pre)
  case Nil
  let ?st = "st\<lparr>re_compiled := (re_compiled st)[j := (re_compiled st ! j)\<lparr>re_type := UNUSED\<rparr>]\<rparr>"
  have "\<not> (char_at pattern i \<noteq> 0 \<and> j + 1 < MAX_REGEXP_OBJECTS)"
    using Nil.prems(5-7) by (auto simp: char_at_def)
  then have "compile_loop pattern i j idx st = Some (True, ?st)"
    using Nil.prems(1,3) by (subst compile_loop.simps) (auto simp: set_type_def re_static_ok_def)
  then show ?case
    using Nil.prems(1,3) same_before_update(1) [of j idx st] by (auto simp: re_static_ok_def)
next
  case (Cons t ts)
  have j: "j < MAX_REGEXP_OBJECTS" using Cons.prems(3) by simp
  obtain st1 where 1: "compile_object pattern i j idx st = Some (Some (i + length (tok_text t) - 1, idx + ccl_size t), st1)"
    "re_static_ok st1" "same_before j idx st st1"
    "\<And>b. take (idx + ccl_size t) b = take (idx + ccl_size t) (ccl_buf st1) \<Longrightarrow> length b = MAX_CHAR_CLASS_LEN \<Longrightarrow>
       obj_is b t (re_compiled st1 ! j)"
    using compile_object_tok [OF Cons.prems(1) j, of t idx pattern pre "toks_text ts @ post" i] Cons.prems by auto
  have t: "tok_text t \<noteq> []" "last (tok_text t) \<noteq> 0" "hd (tok_text t) \<noteq> 0"
    using tok_text_facts Cons.prems(2) by auto
  have len: "i + length (tok_text t) - 1 + 1 = length (pre @ tok_text t)"
    using t(1) Cons.prems(6) by (cases "tok_text t") auto
  obtain st' where 2: "compile_loop pattern (i + length (tok_text t) - 1 + 1) (j + 1) (idx + ccl_size t) st1 = Some (True, st')"
    "re_static_ok st'" "same_before (j + 1) (idx + ccl_size t) st1 st'"
    "list_all2 (obj_is (ccl_buf st')) ts (take (length ts) (drop (j + 1) (re_compiled st')))"
    "re_type (re_compiled st' ! (j + 1 + length ts)) = UNUSED"
    using Cons.IH [of st1 "j + 1" "idx + ccl_size t" "pre @ tok_text t", OF 1(2) _ _ _ _ len] Cons.prems by auto
  obtain ys y where ys: "tok_text t = ys @ [y]"
    using t(1) by (cases "tok_text t" rule: rev_cases) auto
  have "char_at pattern (i + length (tok_text t) - 1) = last (tok_text t)" "char_at pattern i = hd (tok_text t)"
    using Cons.prems(5,6) ys by (cases ys; simp add: char_at_def nth_append)+
  then have "compile_loop pattern i j idx st = Some (True, st')"
    using 1(1) 2(1) t Cons.prems(3) by (subst compile_loop.simps) simp
  moreover have "same_before j idx st st'"
    using 1(3) same_before_mono [OF 2(3), of j idx] same_before_trans by auto
  moreover have "re_compiled st' ! j = re_compiled st1 ! j"
    using 2(3) j unfolding same_before_def by (metis less_add_one nth_take)
  moreover have "obj_is (ccl_buf st') t (re_compiled st1 ! j)"
    using 1(4) [of "ccl_buf st'"] 2(2,3) by (simp add: same_before_def re_static_ok_def)
  moreover have "drop j (re_compiled st') = re_compiled st' ! j # drop (j + 1) (re_compiled st')"
    using 2(2) j by (simp add: Cons_nth_drop_Suc re_static_ok_def)
  ultimately show ?case
    using 2 by auto
qed

lemma takeWhile_take:
  assumes "\<forall>x \<in> set (take n xs). P x" "n < length xs" "\<not> P (xs ! n)"
  shows "takeWhile P xs = take n xs"
proof (rule takeWhile_eq_take_P_nth)
  fix i assume "i < n"
  then show "P (xs ! i)"
    using assms(1,2) nth_mem [of i "take n xs"] by simp
qed (use assms in auto)

lemma compiled_tokens:
  assumes "re_static_ok st" "list_all tok_ok ts" "length ts < MAX_REGEXP_OBJECTS" "1 + sum_list (map ccl_size ts) \<le> MAX_CHAR_CLASS_LEN"
    "post = [] \<or> length ts + 1 = MAX_REGEXP_OBJECTS"
  shows "\<exists>st'. re_compile (toks_text ts @ post) st = Some (True, st') \<and> re_static_ok st' \<and>
    list_all2 (obj_is (ccl_buf st')) ts (re_pattern st')"
proof -
  obtain st' where st': "compile_loop (toks_text ts @ post) 0 0 1 st = Some (True, st')" "re_static_ok st'"
    "list_all2 (obj_is (ccl_buf st')) ts (take (length ts) (re_compiled st'))" "re_type (re_compiled st' ! length ts) = UNUSED"
    using compile_loop_toks [OF assms(1,2), of 0 1 "toks_text ts @ post" "[]" post 0] assms by auto
  have "\<forall>p \<in> set (take (length ts) (re_compiled st')). re_type p \<noteq> UNUSED"
    using st'(3) assms(2) obj_is_used unfolding list_all2_conv_all_nth list_all_length
    by (auto simp: in_set_conv_nth; metis)
  then have "re_pattern st' = take (length ts) (re_compiled st')"
    using st'(2,4) assms(3) unfolding re_pattern_def by (intro takeWhile_take) (auto simp: re_static_ok_def)
  then show ?thesis
    using st' by (auto simp: re_compile_def)
qed

text \<open>
  C30. Compiling the text of a sequence of at most 29 tokens, whose classes fit into the class buffer, gives exactly the
  objects of those tokens, whatever an earlier compilation left in the arrays.
\<close>

theorem re_compile_roundtrip:
  assumes "re_static_ok st" "list_all tok_ok ts" "length ts < MAX_REGEXP_OBJECTS" "1 + sum_list (map ccl_size ts) \<le> MAX_CHAR_CLASS_LEN"
  shows "\<exists>st'. re_compile (toks_text ts) st = Some (True, st') \<and> re_static_ok st' \<and>
    list_all2 (obj_is (ccl_buf st')) ts (re_pattern st')"
  using compiled_tokens [OF assms, of "[]"] by simp

text \<open>The pattern \<^verbatim>\<open>^[a-c\d]+x$\<close>.\<close>

definition sample_toks :: "re_tok list" where
  "sample_toks = [Meta 0x5E, Class False [Range 0x61 0x63, Escape 0x64], Meta 0x2B, Lit 0x78, Meta 0x24]"

lemma re_static_init_ok: "re_static_ok re_static_init"
  by (simp add: re_static_ok_def re_static_init_def MAX_REGEXP_OBJECTS_def MAX_CHAR_CLASS_LEN_def)

theorem re_compile_roundtrip_witness:
  "\<exists>st'. re_compile [0x5E, 0x5B, 0x61, 0x2D, 0x63, 0x5C, 0x64, 0x5D, 0x2B, 0x78, 0x24] re_static_init = Some (True, st') \<and>
     map re_type (re_pattern st') = [BEGIN, CHAR_CLASS, PLUS, CHAR_LIT, END]"
proof -
  have "toks_text sample_toks = [0x5E, 0x5B, 0x61, 0x2D, 0x63, 0x5C, 0x64, 0x5D, 0x2B, 0x78, 0x24]"
    by (simp add: sample_toks_def meta_type_def)
  moreover have "list_all tok_ok sample_toks" "length sample_toks < MAX_REGEXP_OBJECTS"
    "1 + sum_list (map ccl_size sample_toks) \<le> MAX_CHAR_CLASS_LEN"
    by (simp_all add: sample_toks_def meta_type_def MAX_REGEXP_OBJECTS_def MAX_CHAR_CLASS_LEN_def word_sle_eq)
  ultimately show ?thesis
    using re_compile_roundtrip [OF re_static_init_ok, of sample_toks]
    by (auto simp: sample_toks_def list_all2_Cons1 meta_type_def)
qed

text \<open>
  After 29 tokens \<^verbatim>\<open>re_compile\<close> ignores the rest of the pattern, whatever it is, and still reports success: the result is that
  of the 29 tokens alone.
\<close>

theorem re_compile_truncates:
  assumes "re_static_ok st" "list_all tok_ok ts" "length ts = 29" "1 + sum_list (map ccl_size ts) \<le> MAX_CHAR_CLASS_LEN"
  shows "\<exists>st'. re_compile (toks_text ts @ rest) st = Some (True, st') \<and> list_all2 (obj_is (ccl_buf st')) ts (re_pattern st')"
  using compiled_tokens [OF assms(1,2) _ assms(4), of rest] assms(3) by (auto simp: MAX_REGEXP_OBJECTS_def)

lemma concat_replicate_single: "concat (replicate n [x]) = replicate n x"
  by (induction n) auto

theorem re_compile_truncates_witness:
  "\<exists>st'. re_compile (replicate 29 0x61 @ [0x5B, 0x62]) re_static_init = Some (True, st') \<and> length (re_pattern st') = 29"
proof -
  have "toks_text (replicate 29 (Lit 0x61)) = replicate 29 0x61"
    by (simp add: toks_text_def meta_type_def concat_replicate_single)
  then show ?thesis
    using re_compile_truncates [OF re_static_init_ok, of "replicate 29 (Lit 0x61)" "[0x5B, 0x62]"]
    by (auto simp: list_all_length MAX_CHAR_CLASS_LEN_def sum_list_replicate dest: list_all2_lengthD)
qed

section \<open>What the objects match\<close>

text \<open>The characters that a token other than an anchor or a quantifier stands for.\<close>

fun tok_char :: "re_tok \<Rightarrow> byte \<Rightarrow> bool" where
  "tok_char (Meta c) x \<longleftrightarrow> True"
| "tok_char (Charset c) x \<longleftrightarrow> matchmetachar x c"
| "tok_char (Lit c) x \<longleftrightarrow> x = c \<and> c < 0x80"
| "tok_char (Class neg its) x \<longleftrightarrow> (\<exists>it \<in> set its. in_item x it) \<noteq> neg"

lemma sint_byte_small: "a < 0x80 \<Longrightarrow> sint (a :: byte) = uint a"
  by (simp add: sint_uint signed_take_bit_int_eq_self_iff word_less_def) (rule order_trans [OF _ uint_ge_0], simp)

lemma uint_eq_sint_iff: "uint (a :: byte) = sint (b :: byte) \<longleftrightarrow> b = a \<and> a < 0x80" (is "?L \<longleftrightarrow> ?R")
proof
  assume eq: ?L
  have "sint b < 128"
    using signed_take_bit_int_less_exp [of 7 "uint b"] by (simp add: sint_uint)
  then have "uint b = uint a" "uint a < 128"
    using eq uint_sint [of b] uint_ge_0 [of a] by (simp_all add: take_bit_int_eq_self)
  then show ?R
    by (simp add: word_uint_eq_iff word_less_def)
qed (simp add: sint_byte_small)

text \<open>
  The object of a token matches exactly the characters of that token, for every character but the minus sign in a class.
  A literal character of 128 or more matches nothing, not even itself: the object's character
  is unsigned and that of the text is signed.
\<close>

theorem matchone_token:
  assumes "obj_is b t p" "tok_ok t" "\<forall>c. t = Meta c \<longrightarrow> c = 0x2E" "x \<noteq> 0" "x \<noteq> 0x2D"
  shows "matchone low b p x \<longleftrightarrow> tok_char t x"
proof (cases t)
  case (Meta d)
  then show ?thesis
    using assms by (simp add: matchone_def meta_type_def matchdot_def)
next
  case (Charset d)
  then show ?thesis
    using assms(1,2) by (auto simp: matchone_def escape_type_def matchmetachar_def split: if_splits)
next
  case (Lit d)
  then show ?thesis
    using assms(1) by (simp add: matchone_def uint_eq_sint_iff)
next
  case (Class neg its)
  then show ?thesis
    using assms matchcharclass_correct [of b _ its x] by (auto simp: matchone_def)
qed

theorem matchone_token_witness:
  "matchone (\<lambda>_. 0) [0, 0x61, 0x2D, 0x63, 0] \<lparr>re_type = INV_CHAR_CLASS, re_u = U_ccl 1\<rparr> 0x78 \<longleftrightarrow>
   tok_char (Class True [Range 0x61 0x63]) 0x78"
  by (rule matchone_token) (simp_all add: word_sle_eq char_at_def)

section \<open>Concrete runs\<close>

text \<open>
  \<^verbatim>\<open>*matchlength\<close> can be too large: searching \<^verbatim>\<open>ab*c\<close> in \<^verbatim>\<open>adabc\<close> reports a match of 4 characters at position 2, where only 3
  characters are left. A failed attempt that has matched plain objects before a quantifier does not
  take its count back.
\<close>

theorem re_match_length_overcounted:
  "map_option fst (re_match low [0x61, 0x62, 0x2A, 0x63] [0x61, 0x64, 0x61, 0x62, 0x63] re_static_init) = Some (2, 4) \<and>
   \<not> (\<exists>u. matches_prefix one ps (drop 2 [0x61, 0x64, 0x61, 0x62, 0x63]) u \<and> int (length u) = 4)"
proof
  show "map_option fst (re_match low [0x61, 0x62, 0x2A, 0x63] [0x61, 0x64, 0x61, 0x62, 0x63] re_static_init) = Some (2, 4)"
    by code_simp
  have "int (length u) \<le> 3" if "matches_prefix one ps [0x61, 0x62, 0x63] u" for u
    using that by (auto simp: matches_prefix_def matches_items_def dest!: arg_cong [of _ _ length])
  then show "\<not> (\<exists>u. matches_prefix one ps (drop 2 [0x61, 0x64, 0x61, 0x62, 0x63]) u \<and> int (length u) = 4)"
    by fastforce
qed

text \<open>
  An escaped minus sign in a class is not a minus sign: \<^verbatim>\<open>[\-z]\<close> matches \<^verbatim>\<open>b\<close>, because backslash, minus and z are read as a
  range, and \<^verbatim>\<open>[a-z\-]\<close> does not match a minus sign, because the scan gives up at the one of the range.
\<close>

theorem re_class_escaped_minus:
  "map_option (fst \<circ> fst) (re_match low [0x5B, 0x5C, 0x2D, 0x7A, 0x5D] [0x62] re_static_init) = Some 0 \<and>
   map_option (fst \<circ> fst) (re_match low [0x5B, 0x61, 0x2D, 0x7A, 0x5C, 0x2D, 0x5D] [0x2D] re_static_init) = Some (- 1)"
  by (rule conjI; code_simp)

text \<open>
  A pattern that ends with a backslash is accepted, and its last object is whatever an earlier pattern left there:
  \<^verbatim>\<open>a\\<close> matches one character of \<^verbatim>\<open>aaa\<close> when it is the first pattern compiled, and three after \<^verbatim>\<open>x*\<close>.
\<close>

theorem re_compile_trailing_backslash:
  "map_option fst (re_match low [0x61, 0x5C] [0x61, 0x61, 0x61] re_static_init) = Some (0, 1) \<and>
   map_option fst (Option.bind (re_compile [0x78, 0x2A] re_static_init)
     (\<lambda>(_, st). re_match low [0x61, 0x5C] [0x61, 0x61, 0x61] st)) = Some (0, 3)"
  by (rule conjI; code_simp)

end
