(* ===== verification/Syslinux_Adv.thy ===== *)
theory Syslinux_Adv
  imports Rufus_Prelude
begin

text \<open>
  The auxiliary data vector of \<^verbatim>\<open>src/syslinux/libinstaller/setadv.c\<close>: two copies of a sector with a checksum, and in
  each a sequence of tagged items. The buffer is an argument of every function, as in the code;
  \<^verbatim>\<open>syslinux_setadv\<close> works on \<^verbatim>\<open>syslinux_adv\<close>, which is its state.
\<close>

section \<open>The code\<close>

definition ADV_SIZE :: nat where "ADV_SIZE = 512"

definition ADV_LEN :: nat where "ADV_LEN = ADV_SIZE - 3 * 4"

definition ADV_END :: byte where "ADV_END = 0"

definition ADV_MAGIC1 :: u32 where "ADV_MAGIC1 = 0x5a2d2fa5"

definition ADV_MAGIC2 :: u32 where "ADV_MAGIC2 = 0xa3041767"

definition ADV_MAGIC3 :: u32 where "ADV_MAGIC3 = 0xdd28bf64"

definition get_32 :: "bytes \<Rightarrow> nat \<Rightarrow> u32" where
  "get_32 b i = le_word (slice i 4 b)"

definition set_32 :: "nat \<Rightarrow> u32 \<Rightarrow> bytes \<Rightarrow> bytes" where
  "set_32 i v b = memcpy_to i (le_bytes 4 v) b"

text \<open>The loop indices \<^verbatim>\<open>i = from; i < ADV_SIZE - 4; i += 4\<close>.\<close>

definition adv_offsets :: "nat \<Rightarrow> nat list" where
  "adv_offsets from = map (\<lambda>k. from + 4 * k) [0..<(ADV_SIZE - 4 - from + 3) div 4]"

definition cleanup_adv :: "bytes \<Rightarrow> bytes" where
  "cleanup_adv advbuf =
     (let b = set_32 0 ADV_MAGIC1 advbuf;
          csum = fold (\<lambda>i c. c - get_32 b i) (adv_offsets 8) ADV_MAGIC2;
          b = set_32 4 csum b;
          b = set_32 (ADV_SIZE - 4) ADV_MAGIC3 b
      in memcpy_to ADV_SIZE (take ADV_SIZE b) b)"

text \<open>
  The loop over the items of the working copy: the copy, the position and the space that is left. \<open>None\<close>
  is a loop that does not end.
\<close>

partial_function (option) adv_walk :: "u32 \<Rightarrow> bytes \<Rightarrow> nat \<Rightarrow> nat \<Rightarrow> (bytes \<times> nat \<times> nat) option" where
  [code]: "adv_walk tag b p left =
     (if left \<ge> 2 then
        let ptag = b ! p; plen = unat (b ! (p + 1)) + 2
        in if ptag = ADV_END then Some (b, p, left)
           else if ucast ptag = tag then
             if plen \<ge> left then Some (b, p, left)
             else adv_walk tag (memcpy_to p (slice (p + plen) (left - plen) b) b) p left
           else if plen > left then Some (b, p, left)
           else adv_walk tag b (p + plen) (left - plen)
      else Some (b, p, left))"

datatype adv_result = Adv_ok | Adv_EINVAL | Adv_ENOSPC

definition syslinux_setadv :: "u32 \<Rightarrow> bytes \<Rightarrow> bytes \<Rightarrow> (adv_result \<times> bytes) option" where
  "syslinux_setadv tag data adv =
     (if tag - 1 > 254 then Some (Adv_EINVAL, adv)
      else if length data > 255 then Some (Adv_ENOSPC, adv)
      else (case adv_walk tag (slice (2 * 4) ADV_LEN adv) 0 ADV_LEN of
              None \<Rightarrow> None
            | Some (b, p, left) \<Rightarrow>
                if data \<noteq> [] \<and> left < length data + 2 then Some (Adv_ENOSPC, adv)
                else let item = (if data \<noteq> [] then ucast tag # of_nat (length data) # data else []);
                         b = memcpy_to p item b;
                         b = memcpy_to (p + length item) (replicate (left - length item) 0) b
                     in Some (Adv_ok, cleanup_adv (memcpy_to (2 * 4) b adv))))"

definition syslinux_reset_adv :: "bytes \<Rightarrow> bytes" where
  "syslinux_reset_adv advbuf = cleanup_adv (memcpy_to (2 * 4) (replicate ADV_LEN 0) advbuf)"

definition adv_consistent :: "bytes \<Rightarrow> bool" where
  "adv_consistent p =
     (if get_32 p 0 \<noteq> ADV_MAGIC1 \<or> get_32 p (ADV_SIZE - 4) \<noteq> ADV_MAGIC3 then False
      else fold (\<lambda>i c. c + get_32 p i) (adv_offsets 4) 0 = ADV_MAGIC2)"

text \<open>The returned number and the buffer.\<close>

definition syslinux_validate_adv :: "bytes \<Rightarrow> int \<times> bytes" where
  "syslinux_validate_adv advbuf =
     (if adv_consistent advbuf then (0, memcpy_to ADV_SIZE (take ADV_SIZE advbuf) advbuf)
      else if adv_consistent (drop ADV_SIZE advbuf) then (0, memcpy_to 0 (slice ADV_SIZE ADV_SIZE advbuf) advbuf)
      else (- 1, syslinux_reset_adv advbuf))"

section \<open>Checksums\<close>

lemmas adv_sizes = ADV_SIZE_def ADV_LEN_def

lemma adv_offsets_4: "adv_offsets 4 = 4 # adv_offsets 8"
proof -
  have "[0..<126] = 0 # map Suc [0..<125]"
    by (simp add: map_Suc_upt upt_conv_Cons)
  then show ?thesis
    by (simp add: adv_offsets_def ADV_SIZE_def)
qed

lemma adv_offsets_bounds: "i \<in> set (adv_offsets 8) \<Longrightarrow> 8 \<le> i \<and> i + 4 \<le> 508"
  by (auto simp: adv_offsets_def ADV_SIZE_def)

lemma get_32_set_32_same: "i + 4 \<le> length b \<Longrightarrow> get_32 (set_32 i v b) i = v"
  by (simp add: get_32_def set_32_def slice_memcpy_to_same)

lemma get_32_set_32_other:
  "i + 4 \<le> length b \<Longrightarrow> j + 4 \<le> length b \<Longrightarrow> i + 4 \<le> j \<or> j + 4 \<le> i \<Longrightarrow> get_32 (set_32 i v b) j = get_32 b j"
  unfolding get_32_def set_32_def by (subst slice_memcpy_to_other) auto

lemma length_set_32 [simp]: "i + 4 \<le> length b \<Longrightarrow> length (set_32 i v b) = length b"
  by (simp add: set_32_def)

lemma fold_minus: "fold (\<lambda>i c. c - f i) xs (a :: u32) = a - sum_list (map f xs)"
  by (induction xs arbitrary: a) (auto simp: algebra_simps)

lemma fold_plus: "fold (\<lambda>i c. c + f i) xs (a :: u32) = a + sum_list (map f xs)"
  by (induction xs arbitrary: a) (auto simp: algebra_simps)

lemma get_32_take: "i + 4 \<le> n \<Longrightarrow> get_32 (take n b) i = get_32 b i"
  by (simp add: get_32_def slice_take)

text \<open>Both copies are the same consistent sector.\<close>

definition adv_valid :: "bytes \<Rightarrow> bool" where
  "adv_valid b \<longleftrightarrow> length b = 2 * ADV_SIZE \<and> adv_consistent b \<and> drop ADV_SIZE b = take ADV_SIZE b"

lemma adv_consistent_take: "adv_consistent (take ADV_SIZE b) = adv_consistent b"
proof -
  have "sum_list (map (get_32 (take 512 b)) (adv_offsets 8)) = sum_list (map (get_32 b) (adv_offsets 8))"
    by (rule arg_cong [of _ _ sum_list]) (auto simp: get_32_take dest!: adv_offsets_bounds)
  then show ?thesis
    by (simp add: adv_consistent_def fold_plus adv_offsets_4 get_32_take ADV_SIZE_def)
qed

lemma cleanup_adv_valid:
  assumes "length b = 2 * ADV_SIZE"
  shows "adv_valid (cleanup_adv b)" "slice 8 ADV_LEN (cleanup_adv b) = slice 8 ADV_LEN b"
proof -
  have len: "length b = 1024" using assms by (simp add: ADV_SIZE_def)
  define b1 where "b1 = set_32 0 ADV_MAGIC1 b"
  define csum where "csum = ADV_MAGIC2 - sum_list (map (get_32 b1) (adv_offsets 8))"
  define b3 where "b3 = set_32 508 ADV_MAGIC3 (set_32 4 csum b1)"
  have code: "cleanup_adv b = memcpy_to 512 (take 512 b3) b3"
    by (simp add: cleanup_adv_def Let_def fold_minus b1_def csum_def b3_def ADV_SIZE_def)
  have len3: "length b3 = 1024"
    using len by (simp add: b3_def b1_def)
  then have copy: "cleanup_adv b = take 512 b3 @ take 512 b3"
    unfolding code by (simp add: memcpy_to_def)
  have sum: "sum_list (map (get_32 b3) (adv_offsets 8)) = sum_list (map (get_32 b1) (adv_offsets 8))"
    using len by (intro arg_cong [of _ _ sum_list]) (auto simp: b3_def b1_def get_32_set_32_other dest!: adv_offsets_bounds)
  have "get_32 b3 0 = ADV_MAGIC1" "get_32 b3 508 = ADV_MAGIC3" "get_32 b3 4 = csum"
    using len by (simp_all add: b3_def b1_def get_32_set_32_same get_32_set_32_other)
  then have "adv_consistent b3"
    by (simp add: adv_consistent_def fold_plus adv_offsets_4 ADV_SIZE_def sum csum_def)
  moreover have "take 512 (cleanup_adv b) = take 512 b3"
    using copy len3 by simp
  ultimately show "adv_valid (cleanup_adv b)"
    using copy len3 adv_consistent_take [of b3] adv_consistent_take [of "cleanup_adv b"]
    by (simp add: adv_valid_def ADV_SIZE_def)
  have "slice 8 500 (cleanup_adv b) = slice 8 500 b3"
    using copy len3 by (simp add: slice_append_left slice_take)
  also have "\<dots> = slice 8 500 b"
    using len unfolding b3_def b1_def set_32_def by (subst slice_memcpy_to_other; simp)+
  finally show "slice 8 ADV_LEN (cleanup_adv b) = slice 8 ADV_LEN b"
    by (simp add: adv_sizes)
qed

text \<open>
  Validation: afterwards both copies are the same consistent sector. If the first copy was consistent its items are
  kept; else, if the second one was, its items are restored; else the vector is empty and -1 is returned.
\<close>

theorem syslinux_validate_adv_correct:
  assumes "length b = 2 * ADV_SIZE"
  shows "adv_valid (snd (syslinux_validate_adv b)) \<and>
    (if adv_consistent b then fst (syslinux_validate_adv b) = 0 \<and> take ADV_SIZE (snd (syslinux_validate_adv b)) = take ADV_SIZE b
     else if adv_consistent (drop ADV_SIZE b)
     then fst (syslinux_validate_adv b) = 0 \<and> take ADV_SIZE (snd (syslinux_validate_adv b)) = drop ADV_SIZE b
     else fst (syslinux_validate_adv b) = - 1 \<and> slice 8 ADV_LEN (snd (syslinux_validate_adv b)) = replicate ADV_LEN 0)"
proof -
  have len: "length b = 1024" using assms by (simp add: ADV_SIZE_def)
  consider (first) "adv_consistent b" | (second) "\<not> adv_consistent b" "adv_consistent (drop ADV_SIZE b)"
    | (none) "\<not> adv_consistent b" "\<not> adv_consistent (drop ADV_SIZE b)" by blast
  then show ?thesis
  proof cases
    case first
    have "snd (syslinux_validate_adv b) = take 512 b @ take 512 b"
      using first len by (simp add: syslinux_validate_adv_def memcpy_to_def ADV_SIZE_def)
    then show ?thesis
      using first len adv_consistent_take [of b] adv_consistent_take [of "take 512 b @ take 512 b"]
      by (simp add: adv_valid_def ADV_SIZE_def syslinux_validate_adv_def)
  next
    case second
    have "snd (syslinux_validate_adv b) = drop 512 b @ drop 512 b"
      using second len by (simp add: syslinux_validate_adv_def memcpy_to_def ADV_SIZE_def slice_def)
    then show ?thesis
      using second len adv_consistent_take [of "drop 512 b @ drop 512 b"]
      by (simp add: adv_valid_def ADV_SIZE_def syslinux_validate_adv_def)
  next
    case none
    let ?b = "memcpy_to 8 (replicate 500 0) b"
    have "length ?b = 2 * ADV_SIZE"
      using len by (simp add: ADV_SIZE_def)
    then show ?thesis
      using none len cleanup_adv_valid [of ?b]
      by (simp add: syslinux_validate_adv_def syslinux_reset_adv_def slice_memcpy_to_same adv_sizes)
  qed
qed

theorem syslinux_validate_adv_correct_witness: "adv_valid (snd (syslinux_validate_adv (replicate 1024 0)))"
  using syslinux_validate_adv_correct [of "replicate 1024 0"] by (simp add: ADV_SIZE_def)

section \<open>Items\<close>

type_synonym adv_item = "byte \<times> bytes"

text \<open>The bytes of an item and of a sequence of items.\<close>

definition item_bytes :: "adv_item \<Rightarrow> bytes" where
  "item_bytes e = fst e # of_nat (length (snd e)) # snd e"

definition items_bytes :: "adv_item list \<Rightarrow> bytes" where
  "items_bytes es = concat (map item_bytes es)"

lemma items_bytes_simps [simp]:
  "items_bytes [] = []" "items_bytes (e # es) = item_bytes e @ items_bytes es" "items_bytes (xs @ ys) = items_bytes xs @ items_bytes ys"
  by (simp_all add: items_bytes_def)

lemma length_item_bytes [simp]: "length (item_bytes e) = length (snd e) + 2"
  by (simp add: item_bytes_def)

definition adv_item_ok :: "adv_item \<Rightarrow> bool" where
  "adv_item_ok e \<longleftrightarrow> fst e \<noteq> 0 \<and> length (snd e) \<le> 255"

lemma item_len: "adv_item_ok e \<Longrightarrow> unat (of_nat (length (snd e)) :: byte) = length (snd e)"
  by (simp add: adv_item_ok_def unat_of_nat take_bit_nat_eq_self)

lemma item_at:
  assumes "adv_item_ok e" "b = A @ item_bytes e @ R" "p = length A"
  shows "b ! p = fst e" "unat (b ! (p + 1)) = length (snd e)"
  using assms item_len [OF assms(1)] by (simp_all add: item_bytes_def nth_append)

lemma walk_skip:
  assumes "adv_item_ok e" "ucast (fst e) \<noteq> tag" "b = A @ item_bytes e @ R"
  shows "adv_walk tag b (length A) (length (item_bytes e @ R)) = adv_walk tag b (length (A @ item_bytes e)) (length R)"
  using item_at [OF assms(1,3) refl] assms(1,2)
  by (subst adv_walk.simps) (simp add: Let_def ADV_END_def adv_item_ok_def add.commute add.left_commute)

lemma walk_skip_all:
  assumes "list_all adv_item_ok es" "\<forall>e \<in> set es. ucast (fst e) \<noteq> tag" "b = A @ items_bytes es @ R"
  shows "adv_walk tag b (length A) (length (items_bytes es @ R)) = adv_walk tag b (length (A @ items_bytes es)) (length R)"
  using assms
proof (induction es arbitrary: A)
  case (Cons e es)
  then show ?case
    using walk_skip [of e tag b A "items_bytes es @ R"] Cons.IH [of "A @ item_bytes e"] by simp
qed simp

lemma walk_stop:
  assumes "b = A @ R" "length R < 2 \<or> hd R = 0"
  shows "adv_walk tag b (length A) (length R) = Some (b, length A, length R)"
  using assms by (cases R) (subst adv_walk.simps, auto simp: Let_def ADV_END_def nth_append)+

lemma unat_ucast_byte: "unat (ucast a :: u32) = unat (a :: byte)"
  using unsigned_less [of a, where 'a = nat] by (simp add: unsigned_ucast_eq take_bit_nat_eq_self)

lemma ucast_byte_inj [simp]: "(ucast a :: u32) = ucast b \<longleftrightarrow> a = (b :: byte)"
  by (simp add: word_unat_eq_iff unat_ucast_byte)

lemma ucast_byte_roundtrip [simp]: "ucast (ucast a :: u32) = (a :: byte)"
  using unsigned_less [of a, where 'a = nat]
  by (simp add: word_unat_eq_iff unsigned_ucast_eq take_bit_nat_eq_self take_bit_word_eq_self)

text \<open>The position after the walk: all other items, and the space for the new one.\<close>

lemma adv_walk_items:
  assumes es: "list_all adv_item_ok es" "distinct (map fst es)" and b: "b = items_bytes es @ replicate k 0"
    and slack: "k = 0 \<Longrightarrow> tag \<in> fst ` set es \<Longrightarrow> fst (last es) = tag"
  shows "\<exists>b' R. adv_walk (ucast tag) b 0 (length b) = Some (b', length (items_bytes (filter (\<lambda>e. fst e \<noteq> tag) es)), length R) \<and>
    b' = items_bytes (filter (\<lambda>e. fst e \<noteq> tag) es) @ R \<and> length b' = length b"
proof (cases "tag \<in> fst ` set es")
  case False
  then have "filter (\<lambda>e. fst e \<noteq> tag) es = es" "\<forall>e \<in> set es. ucast (fst e) \<noteq> (ucast tag :: u32)"
    by (auto simp: filter_id_conv image_iff)
  then show ?thesis
    using walk_skip_all [OF es(1), of "ucast tag" b "[]" "replicate k 0"]
      walk_stop [of b "items_bytes es" "replicate k 0" "ucast tag"] b by (cases k) auto
next
  case True
  then obtain e1 d e2 where split: "es = e1 @ (tag, d) # e2"
    by (metis (no_types) imageE prod.collapse split_list)
  have tag: "tag \<notin> fst ` set e1" "tag \<notin> fst ` set e2"
    using es(2) by (auto simp: split)
  then have others: "\<forall>e \<in> set e1. ucast (fst e) \<noteq> (ucast tag :: u32)" "\<forall>e \<in> set e2. ucast (fst e) \<noteq> (ucast tag :: u32)"
    by auto
  have filt: "filter (\<lambda>e. fst e \<noteq> tag) es = e1 @ e2"
    using tag by (force simp: split filter_id_conv image_iff intro!: arg_cong2 [of _ _ _ _ append])
  have ok: "list_all adv_item_ok e1" "list_all adv_item_ok e2" "adv_item_ok (tag, d)"
    using es(1) by (simp_all add: split)
  let ?A = "items_bytes e1" and ?item = "item_bytes (tag, d)" and ?E = "items_bytes e2 @ replicate k 0"
  have b1: "b = ?A @ ?item @ ?E"
    by (simp add: b split)
  have skip1: "adv_walk (ucast tag) b 0 (length b) = adv_walk (ucast tag) b (length ?A) (length (?item @ ?E))"
    using walk_skip_all [OF ok(1) others(1), of b "[]" "?item @ ?E"] b1 by simp
  note at = item_at [OF ok(3) b1 refl]
  show ?thesis
  proof (cases "?E = []")
    case True
    then have "adv_walk (ucast tag) b (length ?A) (length (?item @ ?E)) = Some (b, length ?A, length (?item @ ?E))"
      using at ok(3) by (subst adv_walk.simps) (simp add: Let_def ADV_END_def adv_item_ok_def)
    moreover have "e2 = []"
      using True by (cases e2) (auto simp: item_bytes_def)
    ultimately show ?thesis
      using skip1 filt b1 by auto
  next
    case False
    have "k \<noteq> 0"
      using False slack tag(2) split by (cases e2 rule: rev_cases) (auto simp: image_iff)
    then have hd: "hd (replicate k 0 @ J) = (0::byte)" for J
      by (cases k) auto
    define J where "J = drop (length ?E) (?item @ ?E)"
    have J: "length J = length d + 2"
      by (simp add: J_def)
    have "memcpy_to (length ?A) (slice (length ?A + (length d + 2)) (length ?E) b) b = ?A @ ?E @ J"
      unfolding b1 by (simp add: memcpy_to_def slice_def J_def)
    then have move: "adv_walk (ucast tag) b (length ?A) (length (?item @ ?E)) =
        adv_walk (ucast tag) (?A @ ?E @ J) (length ?A) (length (?item @ ?E))"
      using at ok(3) False by (subst adv_walk.simps) (auto simp: Let_def ADV_END_def adv_item_ok_def)
    have len: "length (?item @ ?E) = length (items_bytes e2 @ replicate k 0 @ J)"
      using J by simp
    have "adv_walk (ucast tag) (?A @ ?E @ J) (length ?A) (length (?item @ ?E)) =
        Some (?A @ ?E @ J, length (?A @ items_bytes e2), length (replicate k 0 @ J))"
      unfolding len
      using walk_skip_all [OF ok(2) others(2), of "?A @ ?E @ J" ?A "replicate k 0 @ J"]
        walk_stop [of "?A @ ?E @ J" "?A @ items_bytes e2" "replicate k 0 @ J" "ucast tag"] hd
      by simp
    then show ?thesis
      using skip1 move filt b1 J by (intro exI [of _ "?A @ ?E @ J"] exI [of _ "replicate k 0 @ J"]) simp
  qed
qed


text \<open>The vector holds the items \<open>es\<close>.\<close>

definition adv_holds :: "adv_item list \<Rightarrow> bytes \<Rightarrow> bool" where
  "adv_holds es adv \<longleftrightarrow> length adv = 2 * ADV_SIZE \<and> list_all adv_item_ok es \<and> distinct (map fst es) \<and>
     length (items_bytes es) \<le> ADV_LEN \<and> slice 8 ADV_LEN adv = items_bytes es @ replicate (ADV_LEN - length (items_bytes es)) 0"

text \<open>The items after \<^verbatim>\<open>tag\<close> is set to \<open>data\<close>; no data removes it.\<close>

definition set_item :: "byte \<Rightarrow> bytes \<Rightarrow> adv_item list \<Rightarrow> adv_item list" where
  "set_item tag data es = filter (\<lambda>e. fst e \<noteq> tag) es @ (if data = [] then [] else [(tag, data)])"

lemma map_of_set_item: "map_of (set_item tag data es) =
    (if data = [] then (map_of es)(tag := None) else (map_of es)(tag \<mapsto> data))"
proof -
  have "map_of (filter (\<lambda>e. fst e \<noteq> tag) es) = (map_of es)(tag := None)"
    by (induction es) auto
  then show ?thesis
    by (auto simp: set_item_def map_add_def fun_eq_iff split: option.splits)
qed

lemma set_item_ok:
  assumes "list_all adv_item_ok es" "distinct (map fst es)" "tag \<noteq> 0" "length data \<le> 255"
  shows "list_all adv_item_ok (set_item tag data es)" "distinct (map fst (set_item tag data es))"
  using assms by (auto simp: set_item_def adv_item_ok_def list_all_iff distinct_map_filter)

text \<open>The end of \<^verbatim>\<open>syslinux_setadv\<close>, from the position that the walk found.\<close>

definition data_bytes :: "byte \<Rightarrow> bytes \<Rightarrow> bytes" where
  "data_bytes tag data = (if data = [] then [] else item_bytes (tag, data))"

lemma tag_in_range:
  assumes "tag \<noteq> (0 :: byte)"
  shows "\<not> (ucast tag :: u32) - 1 > 254"
proof -
  have "(ucast tag :: u32) \<noteq> 0"
    using assms ucast_byte_inj [of tag 0] by simp
  then have "unat ((ucast tag :: u32) - 1) = unat tag - 1"
    using unat_minus_one [of "ucast tag :: u32"] by (simp add: unat_ucast_byte)
  then show ?thesis
    using unsigned_less [of tag, where 'a = nat] by (simp add: word_less_nat_alt not_less)
qed

lemma setadv_commit:
  assumes "adv_walk (ucast tag) (slice 8 ADV_LEN adv) 0 ADV_LEN = Some (E @ R, length E, length R)"
    and "length (E @ R) = ADV_LEN" "length adv = 2 * ADV_SIZE" "tag \<noteq> 0" "length data \<le> 255"
  shows "if length (data_bytes tag data) \<le> length R
    then \<exists>adv'. syslinux_setadv (ucast tag) data adv = Some (Adv_ok, adv') \<and> adv_valid adv' \<and>
      slice 8 ADV_LEN adv' = (E @ data_bytes tag data) @ replicate (ADV_LEN - length (E @ data_bytes tag data)) 0
    else syslinux_setadv (ucast tag) data adv = Some (Adv_ENOSPC, adv)"
proof (cases "length (data_bytes tag data) \<le> length R")
  case False
  then show ?thesis
    using assms tag_in_range [OF assms(4)] by (auto simp: syslinux_setadv_def data_bytes_def)
next
  case True
  let ?item = "data_bytes tag data" and ?n = "length R - length (data_bytes tag data)"
  let ?b = "E @ ?item @ replicate ?n 0"
  have "memcpy_to (length E + length ?item) (replicate ?n 0) (memcpy_to (length E) ?item (E @ R)) = ?b"
    using True by (simp add: memcpy_to_def)
  then have code: "syslinux_setadv (ucast tag) data adv = Some (Adv_ok, cleanup_adv (memcpy_to 8 ?b adv))"
    using True assms tag_in_range [OF assms(4)]
    by (auto simp: syslinux_setadv_def Let_def data_bytes_def item_bytes_def)
  have blen: "length ?b = ADV_LEN"
    using assms(2) True by simp
  then have b: "slice 8 ADV_LEN (memcpy_to 8 ?b adv) = ?b" "length (memcpy_to 8 ?b adv) = 2 * ADV_SIZE"
    using assms(3) by (simp_all add: slice_memcpy_to_same adv_sizes)
  have "adv_valid (cleanup_adv (memcpy_to 8 ?b adv))" "slice 8 ADV_LEN (cleanup_adv (memcpy_to 8 ?b adv)) = ?b"
    using cleanup_adv_valid [OF b(2)] b(1) by metis+
  moreover have "?n = ADV_LEN - length (E @ ?item)"
    using blen by simp
  ultimately show ?thesis
    using code True by simp
qed

text \<open>
  C8. \<^verbatim>\<open>syslinux_setadv\<close> implements a finite map from tags to data. On a vector that holds the items \<open>es\<close>, where the area is
  not completely full or the tag is not in front of another item, it returns; it refuses the new
  item exactly when the items do not fit into the area, leaving the vector as it is; else the vector
  holds the items with the tag set (removed for no data), all other items in their order, and both copies
  are the same consistent sector.
\<close>

theorem syslinux_setadv_correct:
  assumes holds: "adv_holds es adv" and tag: "tag \<noteq> 0" "length data \<le> 255"
    and slack: "length (items_bytes es) < ADV_LEN \<or> tag \<notin> fst ` set es \<or> fst (last es) = tag"
  shows "if length (items_bytes (set_item tag data es)) \<le> ADV_LEN
    then \<exists>adv'. syslinux_setadv (ucast tag) data adv = Some (Adv_ok, adv') \<and> adv_holds (set_item tag data es) adv' \<and>
      adv_valid adv' \<and> map_of (set_item tag data es) = (map_of es)(tag := if data = [] then None else Some data)
    else syslinux_setadv (ucast tag) data adv = Some (Adv_ENOSPC, adv)"
proof -
  let ?es = "filter (\<lambda>e. fst e \<noteq> tag) es"
  have area: "slice 8 ADV_LEN adv = items_bytes es @ replicate (ADV_LEN - length (items_bytes es)) 0"
    and es: "list_all adv_item_ok es" "distinct (map fst es)" and len: "length (items_bytes es) \<le> ADV_LEN" "length adv = 2 * ADV_SIZE"
    using holds by (simp_all add: adv_holds_def)
  obtain R where walk: "adv_walk (ucast tag) (slice 8 ADV_LEN adv) 0 ADV_LEN =
      Some (items_bytes ?es @ R, length (items_bytes ?es), length R)" "length (items_bytes ?es @ R) = ADV_LEN"
    using adv_walk_items [OF es area, of tag] slack len(1) by (auto simp: area)
  have item: "items_bytes (set_item tag data es) = items_bytes ?es @ data_bytes tag data"
    by (simp add: set_item_def data_bytes_def)
  have fit: "length (items_bytes (set_item tag data es)) \<le> ADV_LEN \<longleftrightarrow> length (data_bytes tag data) \<le> length R"
    using walk(2) by (auto simp: item)
  show ?thesis
    unfolding fit
    using setadv_commit [OF walk len(2) tag] set_item_ok [OF es tag] fit
    by (auto simp: adv_holds_def adv_valid_def map_of_set_item item)
qed

text \<open>A vector with items, whatever its checksum is.\<close>

definition adv_of :: "adv_item list \<Rightarrow> bytes" where
  "adv_of es = replicate 8 0 @ items_bytes es @ replicate (516 + (500 - length (items_bytes es))) 0"

lemma adv_of_holds:
  assumes "list_all adv_item_ok es" "distinct (map fst es)" "length (items_bytes es) \<le> 500"
  shows "adv_holds es (adv_of es)"
  using assms by (auto simp: adv_holds_def adv_of_def adv_sizes slice_def min_def)

theorem syslinux_setadv_correct_witness:
  "\<exists>adv'. syslinux_setadv 2 [0x78] (adv_of [(2, [0x61, 0x62]), (1, [0x63])]) = Some (Adv_ok, adv') \<and>
     adv_holds [(1, [0x63]), (2, [0x78])] adv' \<and> adv_valid adv'"
proof -
  have "adv_holds [(2, [0x61, 0x62]), (1, [0x63])] (adv_of [(2, [0x61, 0x62]), (1, [0x63])])"
    by (rule adv_of_holds) (simp_all add: adv_item_ok_def)
  then show ?thesis
    using syslinux_setadv_correct [of "[(2, [0x61, 0x62]), (1, [0x63])]" _ 2 "[0x78]"]
    by (simp add: adv_sizes set_item_def) blast
qed

section \<open>A full area\<close>

text \<open>
  When the area is full, setting a tag that has another item after it can make up an item. The walk moves the later items
  over the deleted one but does not shorten the area, so the old end of it is read as items again:
  here a tag 5 appears that nobody has set.
\<close>

theorem syslinux_setadv_phantom_item:
  assumes "adv_holds [(1, replicate 250 5), (2, replicate 246 0)] adv"
  shows "\<exists>adv'. syslinux_setadv 1 [9] adv = Some (Adv_ok, adv') \<and>
    adv_holds [(2, replicate 246 0), (5, [5, 5, 2, 246, 0]), (1, [9])] adv'"
proof -
  let ?i1 = "item_bytes (1, replicate 250 5)" and ?i2 = "item_bytes (2, replicate 246 0)" and ?i5 = "item_bytes (5, [5, 5, 2, 246, 0])"
  let ?E = "items_bytes [(2, replicate 246 0), (5, [5, 5, 2, 246, 0])]" and ?R = "replicate 245 0"
  have b: "slice 8 500 adv = [] @ ?i1 @ ?i2" "length adv = 1024"
    using assms by (simp_all add: adv_holds_def adv_sizes)
  have "drop 248 (?i1 @ ?i2) = ?i5 @ ?R"
    by (simp add: item_bytes_def) (simp add: eval_nat_numeral)
  then have move: "memcpy_to 0 (slice 252 248 (?i1 @ ?i2)) (?i1 @ ?i2) = ?E @ ?R"
    by (simp add: memcpy_to_def slice_def)
  have at: "adv_item_ok (1, replicate 250 5)" "(?i1 @ ?i2) ! 0 = 1" "unat ((?i1 @ ?i2) ! 1) = 250"
    using item_at [of "(1, replicate 250 5)" "?i1 @ ?i2" "[]" ?i2 0] by (simp_all add: adv_item_ok_def)
  have "adv_walk 1 (?i1 @ ?i2) 0 500 = adv_walk 1 (?E @ ?R) 0 500"
    using at move by (subst adv_walk.simps) (simp add: Let_def ADV_END_def)
  also have "\<dots> = Some (?E @ ?R, length ?E, length ?R)"
    using walk_skip_all [of "[(2, replicate 246 0), (5, [5, 5, 2, 246, 0])]" 1 "?E @ ?R" "[]" ?R]
      walk_stop [of "?E @ ?R" ?E ?R 1] by (simp add: adv_item_ok_def)
  finally have "adv_walk (ucast (1::byte)) (slice 8 ADV_LEN adv) 0 ADV_LEN = Some (?E @ ?R, length ?E, length ?R)"
    using b by (simp add: adv_sizes)
  from setadv_commit [OF this, of "[9]"] b show ?thesis
    by (auto simp: adv_sizes data_bytes_def adv_holds_def adv_valid_def adv_item_ok_def)
qed

theorem syslinux_setadv_phantom_item_witness:
  "\<exists>adv'. syslinux_setadv 1 [9] (adv_of [(1, replicate 250 5), (2, replicate 246 0)]) = Some (Adv_ok, adv') \<and>
    adv_holds [(2, replicate 246 0), (5, [5, 5, 2, 246, 0]), (1, [9])] adv'"
  by (rule syslinux_setadv_phantom_item, rule adv_of_holds) (simp_all add: adv_item_ok_def)

lemma adv_walk_ones: "adv_walk 1 (replicate 500 1) 0 500 \<noteq> Some y"
proof
  assume y: "adv_walk 1 (replicate 500 1) 0 500 = Some y"
  have "(1::u32) = 1 \<longrightarrow> replicate 500 1 = replicate 500 (1::byte) \<longrightarrow> (0::nat) = 0 \<longrightarrow> (500::nat) = 500 \<longrightarrow> False"
  proof (rule adv_walk.raw_induct [of "\<lambda>tag b p left y. tag = 1 \<longrightarrow> b = replicate 500 1 \<longrightarrow> p = 0 \<longrightarrow> left = 500 \<longrightarrow> False", OF _ y])
    fix f tag b p left y
    assume ih: "\<And>tag b p left y. f tag b p left = Some y \<Longrightarrow> tag = 1 \<longrightarrow> b = replicate 500 1 \<longrightarrow> p = 0 \<longrightarrow> left = 500 \<longrightarrow> False"
      and body: "(if left \<ge> 2 then
        let ptag = b ! p; plen = unat (b ! (p + 1)) + 2
        in if ptag = ADV_END then Some (b, p, left)
           else if ucast ptag = tag then
             if plen \<ge> left then Some (b, p, left)
             else f tag (memcpy_to p (slice (p + plen) (left - plen) b) b) p left
           else if plen > left then Some (b, p, left)
           else f tag b (p + plen) (left - plen)
      else Some (b, p, left)) = Some y"
    show "tag = 1 \<longrightarrow> b = replicate 500 1 \<longrightarrow> p = 0 \<longrightarrow> left = 500 \<longrightarrow> False"
    proof (intro impI)
      assume a: "tag = 1" "b = replicate 500 1" "p = 0" "left = 500"
      have "memcpy_to 0 (slice 3 497 (replicate 500 1)) (replicate 500 1) = replicate 500 (1::byte)"
        by (simp add: memcpy_to_def slice_def flip: replicate_add)
      then have "f 1 (replicate 500 1) 0 500 = Some y"
        using body a by (simp add: Let_def ADV_END_def flip: numeral_3_eq_3)
      then show False
        using ih by blast
    qed
  qed
  then show False by simp
qed

text \<open>
  \<^verbatim>\<open>syslinux_setadv\<close> need not return: in an area filled with bytes 1, deleting tag 1 moves the same bytes onto themselves
  forever.
\<close>

theorem syslinux_setadv_diverges:
  assumes "slice 8 ADV_LEN adv = replicate ADV_LEN 1" "length data \<le> 255"
  shows "syslinux_setadv 1 data adv = None"
  using assms adv_walk_ones by (auto simp: syslinux_setadv_def adv_sizes split: option.splits)

theorem syslinux_setadv_diverges_witness: "syslinux_setadv 1 [] (replicate 1024 1) = None"
  by (rule syslinux_setadv_diverges) (simp_all add: slice_def adv_sizes)

end
