(* ===== verification/Syslinux_Patch.thy ===== *)
theory Syslinux_Patch
  imports Syslinux_Adv "HOL-Library.Monad_Syntax"
begin

text \<open>
  \<^verbatim>\<open>src/syslinux/libinstaller/syslxmod.c\<close>: the sector extents of \<^verbatim>\<open>ldlinux.sys\<close> and the patching of the boot sector and of the
  boot image. The two images are byte lists; \<open>None\<close> is an access outside of them. The sector size is
  \<open>2 ^ sh\<close>, and the boot image holds at least a patch area.
\<close>

section \<open>The code\<close>

type_synonym extent = "u64 \<times> u16"

text \<open>The loop of \<^verbatim>\<open>generate_extents\<close>: the extents that it stores, in order.\<close>

fun extent_loop :: "u32 \<Rightarrow> u64 list \<Rightarrow> u32 \<Rightarrow> u32 \<Rightarrow> u64 \<Rightarrow> u32 \<Rightarrow> extent list" where
  "extent_loop SECTOR_SIZE [] addr base lba len = (if len \<noteq> 0 then [(lba, ucast len)] else [])"
| "extent_loop SECTOR_SIZE (sect # sectp) addr base lba len =
     (let xbytes = (len + 1) * SECTOR_SIZE in
      if len \<noteq> 0 \<and> sect = lba + ucast len \<and> xbytes < 65536 \<and> ((addr XOR (base + xbytes - 1)) AND 0xffff0000) = 0
      then extent_loop SECTOR_SIZE sectp (addr + SECTOR_SIZE) base lba (len + 1)
      else (if len \<noteq> 0 then [(lba, ucast len)] else []) @
           extent_loop SECTOR_SIZE sectp (addr + SECTOR_SIZE) addr sect 1)"

definition extent_bytes :: "extent \<Rightarrow> bytes" where
  "extent_bytes e = le_bytes 8 (fst e) @ le_bytes 2 (snd e)"

definition put_bytes :: "nat \<Rightarrow> bytes \<Rightarrow> bytes \<Rightarrow> bytes option" where
  "put_bytes off x m = (if off + length x \<le> length m then Some (memcpy_to off x m) else None)"

definition generate_extents :: "nat \<Rightarrow> nat \<Rightarrow> nat \<Rightarrow> u64 list \<Rightarrow> bytes \<Rightarrow> bytes option" where
  "generate_extents sh ex nptrs sectp img =
     do { img \<leftarrow> put_bytes ex (replicate (nptrs * 10) 0) img;
          put_bytes ex (concat (map extent_bytes (extent_loop (2 ^ sh) sectp 0x8000 0x8000 0 0))) img }"

definition get_16_sl :: "bytes \<Rightarrow> nat \<Rightarrow> nat option" where
  "get_16_sl m i = map_option (\<lambda>b. unat (le_word b :: u16)) (mem_read m i 2)"

definition LDLINUX_MAGIC :: u32 where "LDLINUX_MAGIC = 0x3eb202fe"

text \<open>The dwords of the image, and the search for the patch area.\<close>

definition dword_sum :: "nat \<Rightarrow> bytes \<Rightarrow> u32" where
  "dword_sum dw img = sum_list (map (\<lambda>i. get_32 img (4 * i)) [0..<dw])"

definition find_patch_area :: "bytes \<Rightarrow> nat option" where
  "find_patch_area img =
     map_option ((*) 4) (List.find (\<lambda>i. get_32 img (4 * i) = LDLINUX_MAGIC) [0..<(length img - 24) div 4 + 1])"

text \<open>A path of the image: \<open>Inl\<close> is a field that is too short for it.\<close>

definition poke_path :: "nat \<Rightarrow> nat \<Rightarrow> bytes option \<Rightarrow> bytes \<Rightarrow> (bytes + bytes) option" where
  "poke_path off_field len_field path img =
     (case path of
        None \<Rightarrow> Some (Inr img)
      | Some s \<Rightarrow>
          do { n \<leftarrow> get_16_sl img len_field;
               if n < length s + 1 then Some (Inl img)
               else do { off \<leftarrow> get_16_sl img off_field; map_option Inr (put_bytes off (s @ [0]) img) } })"

definition patch_checksum :: "nat \<Rightarrow> bytes \<Rightarrow> bytes option" where
  "patch_checksum pa img =
     do { img \<leftarrow> put_bytes (pa + 16) (le_bytes 4 (0 :: u32)) img;
          let csum = fold (\<lambda>i c. c - get_32 img (4 * i)) [0..<length img div 4] LDLINUX_MAGIC;
          put_bytes (pa + 16) (le_bytes 4 csum) img }"

text \<open>
  \<^verbatim>\<open>syslinux_patch\<close>: the returned number, the boot sector and the image. \<open>patch_totals\<close> and \<open>patch_sectors\<close> are the parts up to
  the extents and up to the paths.
\<close>

definition patch_boot_sector :: "nat \<Rightarrow> u64 \<Rightarrow> bool \<Rightarrow> bytes \<Rightarrow> bytes \<Rightarrow> bytes option" where
  "patch_boot_sector epa sect raid_mode img sbs =
     do { p0 \<leftarrow> get_16_sl img (epa + 14);
          sbs \<leftarrow> put_bytes p0 (le_bytes 4 (ucast sect :: u32)) sbs;
          p1 \<leftarrow> get_16_sl img (epa + 16);
          sbs \<leftarrow> put_bytes p1 (le_bytes 4 (ucast (drop_bit 32 sect) :: u32)) sbs;
          if raid_mode then do { p \<leftarrow> get_16_sl img (epa + 18); put_bytes p (le_bytes 2 (0x18CD :: u16)) sbs }
          else Some sbs }"

definition patch_totals :: "nat \<Rightarrow> nat \<Rightarrow> bool \<Rightarrow> bytes \<Rightarrow> bytes option" where
  "patch_totals pa nsect stupid img =
     do { img \<leftarrow> put_bytes (pa + 8) (le_bytes 2 (of_nat (nsect - 2) :: u16)) img;
          img \<leftarrow> put_bytes (pa + 10) (le_bytes 2 (2 :: u16)) img;
          img \<leftarrow> put_bytes (pa + 12) (le_bytes 4 (of_nat (length img div 4) :: u32)) img;
          if stupid then put_bytes (pa + 20) (le_bytes 2 (1 :: u16)) img else Some img }"

definition patch_sectors :: "nat \<Rightarrow> nat \<Rightarrow> nat \<Rightarrow> u64 list \<Rightarrow> bytes \<Rightarrow> bytes option" where
  "patch_sectors sh epa nsect sectp img =
     do { ex \<leftarrow> get_16_sl img (epa + 10);
          nptrs \<leftarrow> get_16_sl img (epa + 12);
          img \<leftarrow> generate_extents sh ex nptrs (take (nsect - 3) sectp) img;
          advptrs \<leftarrow> get_16_sl img epa;
          img \<leftarrow> put_bytes advptrs (le_bytes 8 (sectp ! (nsect - 3))) img;
          put_bytes (advptrs + 8) (le_bytes 8 (sectp ! (nsect - 2))) img }"

definition syslinux_patch ::
    "nat \<Rightarrow> u64 list \<Rightarrow> bool \<Rightarrow> bool \<Rightarrow> bytes option \<Rightarrow> bytes option \<Rightarrow> bytes \<Rightarrow> bytes \<Rightarrow> (int \<times> bytes \<times> bytes) option" where
  "syslinux_patch sh sectp stupid raid_mode subdir subvol sbs img =
     (let nsect = (length img + 2 ^ sh - 1) div 2 ^ sh + 2 in
      if length sectp < nsect then Some (- 1, sbs, img)
      else (case find_patch_area img of
              None \<Rightarrow> Some (- 1, sbs, img)
            | Some pa \<Rightarrow>
                do { epa \<leftarrow> get_16_sl img (pa + 22);
                     sbs \<leftarrow> patch_boot_sector epa (hd sectp) raid_mode img sbs;
                     img \<leftarrow> patch_totals pa nsect stupid img;
                     img \<leftarrow> patch_sectors sh epa nsect (tl sectp) img;
                     r \<leftarrow> poke_path (epa + 2) (epa + 4) subdir img;
                     (case r of
                        Inl img \<Rightarrow> Some (- 1, sbs, img)
                      | Inr img \<Rightarrow>
                          do { r \<leftarrow> poke_path (epa + 6) (epa + 8) subvol img;
                               (case r of
                                  Inl img \<Rightarrow> Some (- 1, sbs, img)
                                | Inr img \<Rightarrow>
                                    do { img \<leftarrow> patch_checksum pa img;
                                         Some (int (length img div 4 * 4), sbs, img) }) }) }))"

section \<open>The checksum\<close>

lemma put_bytes_length: "put_bytes off x m = Some m' \<Longrightarrow> length m' = length m"
  by (auto simp: put_bytes_def split: if_splits)

lemma sum_list_update_one:
  fixes f g :: "nat \<Rightarrow> u32"
  assumes "k < n" "\<And>i. i < n \<Longrightarrow> i \<noteq> k \<Longrightarrow> f i = g i"
  shows "sum_list (map f [0..<n]) = sum_list (map g [0..<n]) - g k + f k"
  using assms
proof (induction n)
  case (Suc n)
  show ?case
  proof (cases "k = n")
    case True
    then have "sum_list (map f [0..<n]) = sum_list (map g [0..<n])"
      using Suc.prems by (intro arg_cong [of _ _ sum_list]) auto
    then show ?thesis
      using True by simp
  next
    case False
    then show ?thesis
      using Suc by (simp add: algebra_simps)
  qed
qed simp

lemma patch_checksum_sum:
  assumes "patch_checksum (4 * k) img = Some img'" "k + 4 < length img div 4"
  shows "dword_sum (length img' div 4) img' = LDLINUX_MAGIC" "length img' = length img"
proof -
  define m where "m = set_32 (4 * (k + 4)) 0 img"
  define csum where "csum = LDLINUX_MAGIC - dword_sum (length img div 4) m"
  have fit: "4 * (k + 4) + 4 \<le> length img"
    using assms(2) by presburger
  have len: "length m = length img"
    using fit by (simp add: m_def)
  have img': "img' = set_32 (4 * (k + 4)) csum m"
    using assms(1) fit len
    by (simp add: patch_checksum_def put_bytes_def Let_def fold_minus csum_def dword_sum_def set_32_def m_def
        algebra_simps split: if_splits)
  then show length: "length img' = length img"
    using fit len by simp
  have "get_32 img' (4 * i) = get_32 m (4 * i)" if "i < length img div 4" "i \<noteq> k + 4" for i
    using that fit len unfolding img' by (intro get_32_set_32_other) auto
  then have "dword_sum (length img div 4) img' = dword_sum (length img div 4) m - get_32 m (4 * (k + 4)) + get_32 img' (4 * (k + 4))"
    unfolding dword_sum_def using assms(2) by (intro sum_list_update_one) auto
  moreover have "get_32 m (4 * (k + 4)) = 0" "get_32 img' (4 * (k + 4)) = csum"
    using fit len by (simp_all add: m_def img' get_32_set_32_same)
  ultimately show "dword_sum (length img' div 4) img' = LDLINUX_MAGIC"
    by (simp add: csum_def length)
qed


lemma find_patch_area_Some:
  assumes "find_patch_area img = Some pa" "24 \<le> length img"
  obtains k where "pa = 4 * k" "k + 4 < length img div 4" "get_32 img pa = LDLINUX_MAGIC"
proof -
  obtain k where k: "pa = 4 * k" "List.find (\<lambda>i. get_32 img (4 * i) = LDLINUX_MAGIC) [0..<(length img - 24) div 4 + 1] = Some k"
    using assms(1) by (auto simp: find_patch_area_def)
  then have "k < (length img - 24) div 4 + 1" "get_32 img (4 * k) = LDLINUX_MAGIC"
    by (auto simp: find_Some_iff simp del: upt_Suc)
  moreover from this have "k + 4 < length img div 4"
    using assms(2) by presburger
  ultimately show thesis
    using k that by blast
qed

lemma generate_extents_length: "generate_extents sh ex n s m = Some m' \<Longrightarrow> length m' = length m"
  by (auto simp: generate_extents_def bind_eq_Some_conv dest!: put_bytes_length)

lemma patch_lengths:
  "patch_totals pa n st m = Some m' \<Longrightarrow> length m' = length m"
  "patch_sectors sh epa n s m = Some m' \<Longrightarrow> length m' = length m"
  "poke_path a b p m = Some (Inr m') \<Longrightarrow> length m' = length m"
  by (auto simp: patch_totals_def patch_sectors_def poke_path_def bind_eq_Some_conv split: if_splits option.splits
      dest!: put_bytes_length generate_extents_length)

lemma case_sum_eq_Some: "(case r of Inl a \<Rightarrow> f a | Inr b \<Rightarrow> g b) = Some z \<longleftrightarrow>
    (\<exists>a. r = Inl a \<and> f a = Some z) \<or> (\<exists>b. r = Inr b \<and> g b = Some z)"
  by (cases r) auto

text \<open>
  C31. When \<^verbatim>\<open>syslinux_patch\<close> succeeds, the complete dwords of the patched image add up to the magic number, which is what
  the boot loader checks; the size of the image is unchanged and the returned number is that of the
  bytes in complete dwords.
\<close>

theorem syslinux_patch_checksum:
  assumes "syslinux_patch sh sectp stupid raid subdir subvol sbs img = Some (n, sbs', img')" "n \<noteq> - 1" "24 \<le> length img"
  shows "dword_sum (length img div 4) img' = LDLINUX_MAGIC \<and> length img' = length img \<and> n = int (length img div 4 * 4)"
proof -
  obtain pa epa m1 m2 m3 m4 where pa: "find_patch_area img = Some pa"
    and m: "patch_totals pa ((length img + 2 ^ sh - 1) div 2 ^ sh + 2) stupid img = Some m1"
      "patch_sectors sh epa ((length img + 2 ^ sh - 1) div 2 ^ sh + 2) (tl sectp) m1 = Some m2"
      "poke_path (epa + 2) (epa + 4) subdir m2 = Some (Inr m3)" "poke_path (epa + 6) (epa + 8) subvol m3 = Some (Inr m4)"
      "patch_checksum pa m4 = Some img'" "n = int (length img' div 4 * 4)"
    using assms(1,2) by (auto simp: syslinux_patch_def Let_def bind_eq_Some_conv case_sum_eq_Some split: if_splits option.splits)
  obtain k where k: "pa = 4 * k" "k + 4 < length img div 4"
    by (rule find_patch_area_Some [OF pa assms(3)])
  have len: "length m4 = length img"
    using m(1-4) by (auto dest!: patch_lengths)
  show ?thesis
    using patch_checksum_sum [of k m4 img'] m(5,6) k len by auto
qed

text \<open>An image of 80 bytes: the patch area, the extended patch area at 24, one extent at 44 and the pointers at 56.\<close>

definition sample_image :: bytes where
  "sample_image = [0xFE, 0x02, 0xB2, 0x3E] @ replicate 18 0 @ [24, 0] @
     [56, 0, 0, 0, 0, 0, 0, 0, 0, 0, 44, 0, 1, 0, 0, 0, 4, 0, 0, 0] @ replicate 36 0"

theorem syslinux_patch_checksum_witness:
  "\<exists>sbs' img'. syslinux_patch 9 [5, 6, 7] False False None None (replicate 8 0) sample_image = Some (80, sbs', img') \<and>
     dword_sum 20 img' = LDLINUX_MAGIC"
proof -
  have "map_option fst (syslinux_patch 9 [5, 6, 7] False False None None (replicate 8 0) sample_image) = Some 80"
    by code_simp
  then obtain sbs' img' where r: "syslinux_patch 9 [5, 6, 7] False False None None (replicate 8 0) sample_image = Some (80, sbs', img')"
    by (auto simp: map_option_eq_Some)
  have "length sample_image = 80"
    by (simp add: sample_image_def)
  then show ?thesis
    using syslinux_patch_checksum [OF r] r by simp
qed

section \<open>Extents\<close>

text \<open>The sectors that a list of extents stands for.\<close>

definition run_sectors :: "u64 \<Rightarrow> nat \<Rightarrow> u64 list" where
  "run_sectors lba n = map (\<lambda>i. lba + of_nat i) [0..<n]"

definition extent_sectors :: "extent list \<Rightarrow> u64 list" where
  "extent_sectors es = concat (map (\<lambda>(lba, len). run_sectors lba (unat len)) es)"

lemma extent_sectors_simps [simp]:
  "extent_sectors [] = []" "extent_sectors ((lba, len) # es) = run_sectors lba (unat len) @ extent_sectors es"
  by (simp_all add: extent_sectors_def)

lemma unat_len_ucast: "unat (len :: u32) < 65536 \<Longrightarrow> unat (ucast len :: u16) = unat len"
  by (simp add: unsigned_ucast_eq take_bit_nat_eq_self)

lemma le_times_power: "(n::nat) \<le> n * 2 ^ sh"
  by simp

lemma run_sectors_Suc: "run_sectors lba (Suc n) = run_sectors lba n @ [lba + of_nat n]"
  by (simp add: run_sectors_def)

lemma xbytes_unat:
  assumes "sh < 16" "unat (len :: u32) * 2 ^ sh < 65536"
  shows "unat (len + 1) = unat len + 1" "unat ((len + 1) * 2 ^ sh) = (unat len + 1) * 2 ^ sh"
proof -
  have n: "unat len < 65536"
    using assms(2) le_times_power [of "unat len" sh] by linarith
  then show 1: "unat (len + 1) = unat len + 1"
    by (simp add: unat_word_ariths)
  have p: "(2::nat) ^ sh \<le> 2 ^ 15"
    using assms(1) by (intro power_increasing) auto
  then have "unat (of_nat (2 ^ sh) :: u32) = 2 ^ sh"
    by (simp only: unat_of_nat) (simp add: take_bit_nat_eq_self)
  then have "unat (2 ^ sh :: u32) = 2 ^ sh"
    by simp
  then show "unat ((len + 1) * 2 ^ sh) = (unat len + 1) * 2 ^ sh"
    using 1 assms(2) p by (simp add: unat_word_ariths(2))
qed

lemma extent_loop_cover:
  assumes "sh < 16" "unat len * 2 ^ sh < 65536"
  shows "extent_sectors (extent_loop (2 ^ sh) sectp addr base lba len) = run_sectors lba (unat len) @ sectp \<and>
    (\<forall>e \<in> set (extent_loop (2 ^ sh) sectp addr base lba len). 0 < unat (snd e) \<and> unat (snd e) * 2 ^ sh < 65536)"
  using assms(2)
proof (induction sectp arbitrary: addr base lba len)
  case Nil
  have "unat len < 65536"
    using Nil le_times_power [of "unat len" sh] by linarith
  then show ?case
    using Nil by (auto simp: unat_len_ucast run_sectors_def unat_gt_0)
next
  case (Cons sect sectp)
  have len: "unat (ucast len :: u16) = unat len"
    using Cons.prems le_times_power [of "unat len" sh] by (intro unat_len_ucast) linarith
  have one: "unat (1::u32) * 2 ^ sh < 65536"
    using assms(1) power_strict_increasing [of sh 16 "2::nat"] by simp
  let ?cond = "len \<noteq> 0 \<and> sect = lba + ucast len \<and> (len + 1) * 2 ^ sh < 65536 \<and> ((addr XOR (base + (len + 1) * 2 ^ sh - 1)) AND 0xffff0000) = 0"
  show ?case
  proof (cases ?cond)
    case True
    then have code: "extent_loop (2 ^ sh) (sect # sectp) addr base lba len = extent_loop (2 ^ sh) sectp (addr + 2 ^ sh) base lba (len + 1)"
      by (simp add: Let_def)
    have "unat (len + 1) * 2 ^ sh < 65536"
      using True xbytes_unat [OF assms(1) Cons.prems] by (simp add: word_less_nat_alt)
    moreover have "sect = lba + of_nat (unat len)"
      using True by simp
    ultimately show ?thesis
      unfolding code using Cons.IH [of "len + 1" "addr + 2 ^ sh" base lba] xbytes_unat(1) [OF assms(1) Cons.prems]
      by (simp add: run_sectors_Suc)
  next
    case False
    then have code: "extent_loop (2 ^ sh) (sect # sectp) addr base lba len =
        (if len \<noteq> 0 then [(lba, ucast len)] else []) @ extent_loop (2 ^ sh) sectp (addr + 2 ^ sh) addr sect 1"
      by (auto simp: Let_def)
    have "len \<noteq> 0 \<Longrightarrow> 0 < unat len"
      by (simp add: unat_gt_0)
    then show ?thesis
      unfolding code using Cons.IH [OF one, of "addr + 2 ^ sh" addr sect] Cons.prems len
      by (auto simp: run_sectors_def)
  qed
qed

text \<open>
  The extents of \<^verbatim>\<open>generate_extents\<close> cover exactly the given sectors, in order, and each is a non-empty run of less than
  64 KiB, for every sector size below 64 KiB.
\<close>

theorem extents_cover_sectors:
  assumes "sh < 16"
  shows "extent_sectors (extent_loop (2 ^ sh) sectp 0x8000 0x8000 0 0) = sectp \<and>
    (\<forall>e \<in> set (extent_loop (2 ^ sh) sectp 0x8000 0x8000 0 0). 0 < unat (snd e) \<and> unat (snd e) * 2 ^ sh < 65536)"
  using extent_loop_cover [OF assms, of 0 sectp "0x8000" "0x8000" 0] by (simp add: run_sectors_def)

theorem extents_cover_sectors_witness:
  "extent_sectors (extent_loop (2 ^ 9) [100, 101, 7] 0x8000 0x8000 0 0) = [100, 101, 7]"
  using extents_cover_sectors [of 9 "[100, 101, 7]"] by simp

text \<open>
  The test against a 64 KiB boundary compares the first with the last byte of the new sector, so it never ends an extent:
  a contiguous run loaded from 0x8000 is one extent although it crosses the boundary at 0x10000.
\<close>

theorem extent_crosses_64k:
  "extent_loop 512 (run_sectors 1000 100) 0x8000 0x8000 0 0 = [(1000, 100)] \<and>
   (0x8000 :: nat) < 0x10000 \<and> (0x10000 :: nat) < 0x8000 + 100 * 512"
  by (simp add: run_sectors_def, code_simp)

end
