(* ===== verification/Fat32_Layout.thy ===== *)
theory Fat32_Layout
  imports Rufus_Prelude
begin

text \<open>
  \<^verbatim>\<open>src/format_fat32.c\<close>: the layout that \<^verbatim>\<open>FormatLargeFAT32\<close> computes for a volume and the sectors that it writes. What the
  system reports (sector size, partition length, geometry, time) is an argument. The numbers are natural
  numbers with the wrap-around of the 32-bit variables written out. The model ends before the boot code
  and the label are set.
\<close>

section \<open>The code\<close>

definition dword :: "nat \<Rightarrow> nat" where "dword x = x mod 2 ^ 32"

definition dword_sub :: "nat \<Rightarrow> nat \<Rightarrow> nat" where "dword_sub a b = (dword a + 2 ^ 32 - dword b) mod 2 ^ 32"

record systemtime =
  st_year :: u16
  st_month :: u16
  st_day :: u16
  st_hour :: u16
  st_minute :: u16
  st_second :: u16
  st_milliseconds :: u16

definition GetVolumeID :: "systemtime \<Rightarrow> u32" where
  "GetVolumeID s =
     (let lo = st_day s + push_bit 8 (st_month s);
          tmp = (st_milliseconds s div 10) + push_bit 8 (st_second s);
          lo = lo + tmp;
          hi = st_minute s + push_bit 8 (st_hour s);
          hi = hi + st_year s
      in ucast lo + push_bit 16 (ucast hi))"

definition GetFATSizeSectors :: "nat \<Rightarrow> nat \<Rightarrow> nat \<Rightarrow> nat \<Rightarrow> nat \<Rightarrow> nat" where
  "GetFATSizeSectors DskSize ReservedSecCnt SecPerClus NumFATs BytesPerSect =
     (let Numerator = dword_sub DskSize ReservedSecCnt + 2 * SecPerClus;
          Denominator = SecPerClus * BytesPerSect div 4 + NumFATs
      in dword (Numerator div Denominator + 1))"

definition KB :: nat where "KB = 1024"

definition MB :: nat where "MB = 1024 * KB"

definition GB :: nat where "GB = 1024 * MB"

definition TB :: nat where "TB = 1024 * GB"

definition default_cluster_size :: "nat \<Rightarrow> nat" where
  "default_cluster_size len =
     (if len < 64 * MB then 512 else if len < 128 * MB then 1 * KB else if len < 256 * MB then 2 * KB
      else if len < 8 * GB then 4 * KB else if len < 16 * GB then 8 * KB else if len < 32 * GB then 16 * KB
      else if len < 2 * TB then 32 * KB else 64 * KB)"

datatype format_error = Invalid_parameter | Too_small | Too_big | Too_many_clusters | Too_few_clusters | Fat_too_small

record fat32_layout =
  ly_total :: nat
  ly_spc :: nat
  ly_fat_size :: nat
  ly_reserved :: nat
  ly_user :: nat
  ly_clusters :: nat

text \<open>The computation of the layout, from the checks of the disk size to the last sanity check.\<close>

definition fat32_layout_of :: "nat \<Rightarrow> nat \<Rightarrow> nat \<Rightarrow> format_error + fat32_layout" where
  "fat32_layout_of BytesPerSect len ClusterSize =
     (let qTotalSectors = len div BytesPerSect in
      if qTotalSectors < 65536 then Inl Too_small
      else if qTotalSectors \<ge> 0xffffffff then Inl Too_big
      else
        let ClusterSize = (if ClusterSize = 0 then default_cluster_size len else ClusterSize);
            NumFATs = 2;
            SectorsPerCluster = ClusterSize div BytesPerSect;
            TotalSectors = dword qTotalSectors;
            FatSize = GetFATSizeSectors TotalSectors 0 (SectorsPerCluster mod 256) NumFATs BytesPerSect;
            SystemAreaSize = dword (32 + NumFATs * FatSize);
            AlignSectors = MB div BytesPerSect;
            SystemAreaSize = dword (dword (SystemAreaSize + AlignSectors - 1) div AlignSectors * AlignSectors);
            ReservedSectCount = dword_sub SystemAreaSize (NumFATs * FatSize);
            UserAreaSize = dword_sub (dword_sub TotalSectors ReservedSectCount) (NumFATs * FatSize);
            ClusterCount = UserAreaSize div SectorsPerCluster
        in if ClusterCount > 0x0FFFFFFF then Inl Too_many_clusters
           else if ClusterCount < 65536 then Inl Too_few_clusters
           else if (ClusterCount * 4 + (BytesPerSect - 1)) div BytesPerSect > FatSize then Inl Fat_too_small
           else Inr \<lparr>ly_total = TotalSectors, ly_spc = SectorsPerCluster, ly_fat_size = FatSize,
             ly_reserved = ReservedSectCount, ly_user = UserAreaSize, ly_clusters = ClusterCount\<rparr>)"

text \<open>What the system reports of the volume.\<close>

record volume =
  vo_bytes_per_sector :: nat
  vo_length :: nat
  vo_sectors_per_track :: u16
  vo_heads :: u16
  vo_hidden :: u32
  vo_time :: systemtime

definition fat32_boot_sector :: "volume \<Rightarrow> fat32_layout \<Rightarrow> bytes" where
  "fat32_boot_sector vo ly =
     [0xEB, 0x58, 0x90] @ [0x4D, 0x53, 0x57, 0x49, 0x4E, 0x34, 0x2E, 0x31] @
     le_bytes 2 (of_nat (vo_bytes_per_sector vo) :: u16) @ [of_nat (ly_spc ly)] @
     le_bytes 2 (of_nat (ly_reserved ly) :: u16) @ [2] @ [0, 0] @ [0, 0] @ [0xF8] @ [0, 0] @
     le_bytes 2 (vo_sectors_per_track vo) @ le_bytes 2 (vo_heads vo) @ le_bytes 4 (vo_hidden vo) @
     le_bytes 4 (of_nat (ly_total ly) :: u32) @ le_bytes 4 (of_nat (ly_fat_size ly) :: u32) @ [0, 0] @ [0, 0] @
     le_bytes 4 (2 :: u32) @ le_bytes 2 (1 :: u16) @ le_bytes 2 (6 :: u16) @ replicate 12 0 @ [0x80, 0, 0x29] @
     le_bytes 4 (GetVolumeID (vo_time vo)) @
     [0x4E, 0x4F, 0x20, 0x4E, 0x41, 0x4D, 0x45, 0x20, 0x20, 0x20, 0x20] @
     [0x46, 0x41, 0x54, 0x33, 0x32, 0x20, 0x20, 0x20] @ replicate 420 0 @ [0x55, 0xAA] @
     (if vo_bytes_per_sector vo = 512 then [] else replicate (vo_bytes_per_sector vo - 514) 0 @ [0x55, 0xAA])"

definition fat32_fsinfo :: "volume \<Rightarrow> fat32_layout \<Rightarrow> bytes" where
  "fat32_fsinfo vo ly =
     le_bytes 4 (0x41615252 :: u32) @ replicate 480 0 @ le_bytes 4 (0x61417272 :: u32) @
     le_bytes 4 (of_nat (ly_user ly div ly_spc ly) - 1 :: u32) @ le_bytes 4 (3 :: u32) @ replicate 12 0 @
     le_bytes 4 (0xaa550000 :: u32) @ replicate (vo_bytes_per_sector vo - 512) 0"

definition fat32_first_fat :: "volume \<Rightarrow> bytes" where
  "fat32_first_fat vo =
     le_bytes 4 (0x0ffffff8 :: u32) @ le_bytes 4 (0x0fffffff :: u32) @ le_bytes 4 (0x0fffffff :: u32) @
     replicate (vo_bytes_per_sector vo - 12) 0"

text \<open>The writes, as sector numbers and data: the bursts of zeros, the boot sectors, the first sectors of the FATs.\<close>

definition zero_bursts :: "nat \<Rightarrow> nat \<Rightarrow> (nat \<times> bytes) list" where
  "zero_bursts BytesPerSect SystemAreaSize =
     map (\<lambda>k. (128 * k, replicate (128 * BytesPerSect) 0)) [0..<(SystemAreaSize + 128 - 1 + 127) div 128]"

definition FormatLargeFAT32 :: "string \<Rightarrow> volume \<Rightarrow> nat \<Rightarrow> format_error + (nat \<times> bytes) list" where
  "FormatLargeFAT32 FSName vo ClusterSize =
     (if take 3 FSName \<noteq> ''FAT'' then Inl Invalid_parameter
      else (case fat32_layout_of (vo_bytes_per_sector vo) (vo_length vo) ClusterSize of
              Inl e \<Rightarrow> Inl e
            | Inr ly \<Rightarrow>
                let boot = fat32_boot_sector vo ly; info = fat32_fsinfo vo ly; fat = fat32_first_fat vo
                in Inr (zero_bursts (vo_bytes_per_sector vo) (ly_reserved ly + 2 * ly_fat_size ly + ly_spc ly) @
                        [(0, boot), (1, info), (6, boot), (7, info)] @
                        [(ly_reserved ly, fat), (ly_reserved ly + ly_fat_size ly, fat)])))"

section \<open>The layout\<close>

text \<open>A volume with a supported sector size and a cluster size of up to 128 sectors.\<close>

definition params_ok :: "nat \<Rightarrow> nat \<Rightarrow> nat \<Rightarrow> nat \<Rightarrow> nat \<Rightarrow> bool" where
  "params_ok sh i bps len cluster \<longleftrightarrow> 9 \<le> sh \<and> sh \<le> 12 \<and> i \<le> 7 \<and> bps = 2 ^ sh \<and>
     (if cluster = 0 then default_cluster_size len else cluster) = 2 ^ i * bps"

lemma dword_small [simp]: "x < 2 ^ 32 \<Longrightarrow> dword x = x"
  by (simp add: dword_def)

lemma dword_sub_small: "b \<le> a \<Longrightarrow> a < 2 ^ 32 \<Longrightarrow> dword_sub a b = a - b"
  using mod_add_self2 [of "a - b" "2 ^ 32"] by (simp add: dword_sub_def dword_def)

text \<open>The size of a FAT: enough for the clusters that remain, whatever is reserved.\<close>

lemma fat_size_enough:
  fixes T :: nat
  assumes "0 < spc" "f = (T + 2 * spc) div (spc * bps div 4 + 2) + 1" "4 dvd bps" "r + 2 * f \<le> T"
  shows "((T - r - 2 * f) div spc + 2) * 4 \<le> f * bps"
proof -
  obtain q where q: "bps = 4 * q" using assms(3) by blast
  have "T + 2 * spc < f * (spc * q + 2)"
    using assms(2) q dividend_less_div_times [of "spc * q + 2" "T + 2 * spc"] by simp
  then have "T - 2 * f + 2 * spc < f * q * spc"
    using assms(4) by (simp add: algebra_simps)
  moreover define k where "k = (T - r - 2 * f) div spc"
  have "k * spc \<le> T - r - 2 * f"
    by (simp add: k_def)
  then have "(k + 2) * spc \<le> T - 2 * f + 2 * spc"
    unfolding add_mult_distrib by linarith
  ultimately have "((T - r - 2 * f) div spc + 2) * spc < f * q * spc"
    unfolding k_def [symmetric] by linarith
  then have "(T - r - 2 * f) div spc + 2 < f * q"
    by (simp only: mult_less_cancel2)
  then show ?thesis
    using q by simp
qed


lemma round_up:
  fixes A :: nat
  assumes "0 < A"
  shows "S \<le> (S + A - 1) div A * A" "(S + A - 1) div A * A < S + A"
  using div_mult_mod_eq [of "S + A - 1" A] mod_less_divisor [OF assms, of "S + A - 1"] assms by linarith+

text \<open>The numbers of the layout without wrap-around.\<close>

definition fat_size_of :: "nat \<Rightarrow> nat \<Rightarrow> nat \<Rightarrow> nat" where
  "fat_size_of T spc bps = (T + 2 * spc) div (spc * bps div 4 + 2) + 1"

definition system_size_of :: "nat \<Rightarrow> nat \<Rightarrow> nat" where
  "system_size_of f bps = (32 + 2 * f + MB div bps - 1) div (MB div bps) * (MB div bps)"

lemma align_sectors:
  assumes "9 \<le> sh" "sh \<le> 12"
  shows "MB div 2 ^ sh = 2 ^ (20 - sh)" "MB div 2 ^ sh \<le> 2048"
proof -
  show eq: "MB div 2 ^ sh = 2 ^ (20 - sh)"
    using assms(2) by (simp add: MB_def KB_def power_diff flip: power_add)
  have "(2::nat) ^ (20 - sh) \<le> 2 ^ 11"
    using assms(1) by (intro power_increasing) auto
  then show "MB div 2 ^ sh \<le> 2048"
    by (simp add: eq)
qed

lemma layout_bounds:
  assumes "9 \<le> sh" "sh \<le> 12" "i \<le> 7" "65536 \<le> T" "T < 0xffffffff"
  defines "f \<equiv> fat_size_of T (2 ^ i) (2 ^ sh)"
  shows "32 + 2 * f \<le> system_size_of f (2 ^ sh)" "system_size_of f (2 ^ sh) < 2 * f + 32 + 2048"
    "2 * f + 32 + 2048 \<le> T" "0 < f"
proof -
  have "0 < MB div 2 ^ sh"
    by (simp add: align_sectors(1) [OF assms(1,2)])
  then show "32 + 2 * f \<le> system_size_of f (2 ^ sh)" "system_size_of f (2 ^ sh) < 2 * f + 32 + 2048"
    using round_up [of "MB div 2 ^ sh" "32 + 2 * f"] align_sectors(2) [OF assms(1,2)] by (simp_all add: system_size_of_def)
  have i: "(2::nat) ^ i \<le> 2 ^ 7"
    using assms(3) by (intro power_increasing) auto
  have "2 ^ 9 \<le> (2::nat) ^ i * 2 ^ sh"
    using assms(1) by (subst power_add [symmetric], intro power_increasing) auto
  then have D: "130 \<le> 2 ^ i * 2 ^ sh div 4 + (2::nat)"
    by simp
  have "(T + 2 * 2 ^ i) div (2 ^ i * 2 ^ sh div 4 + 2) \<le> (T + 2 * 2 ^ i) div 130"
    by (rule div_le_mono2 [OF _ D]) simp
  also have "\<dots> \<le> (T + 256) div 130"
    using i by (intro div_le_mono) simp
  finally have "f \<le> (T + 256) div 130 + 1"
    unfolding f_def fat_size_of_def by simp
  then have "130 * f \<le> T + 386"
    using div_times_less_eq_dividend [of "T + 256" 130] by linarith
  then show "2 * f + 32 + 2048 \<le> T"
    using assms(4) by linarith
  show "0 < f"
    by (simp add: f_def fat_size_of_def)
qed

lemma fat32_layout_eq:
  assumes "params_ok sh i bps len cluster" "T = len div bps" "65536 \<le> T" "T < 0xffffffff"
    "f = fat_size_of T (2 ^ i) bps" "sys = system_size_of f bps" "n = (T - sys) div 2 ^ i"
  shows "fat32_layout_of bps len cluster =
    (if n > 0x0FFFFFFF then Inl Too_many_clusters else if n < 65536 then Inl Too_few_clusters
     else if (n * 4 + (bps - 1)) div bps > f then Inl Fat_too_small
     else Inr \<lparr>ly_total = T, ly_spc = 2 ^ i, ly_fat_size = f, ly_reserved = sys - 2 * f, ly_user = T - sys, ly_clusters = n\<rparr>)"
proof -
  have p: "9 \<le> sh" "sh \<le> 12" "i \<le> 7" "bps = 2 ^ sh" "(if cluster = 0 then default_cluster_size len else cluster) = 2 ^ i * bps"
    using assms(1) by (auto simp: params_ok_def)
  note b = layout_bounds [OF p(1-3) assms(3,4), folded p(4), folded assms(5), folded assms(6)]
  have spc: "2 ^ i * bps div bps = 2 ^ i" "(2::nat) ^ i mod 256 = 2 ^ i"
    using p(3,4) power_increasing [of i 7 "2::nat"] by simp_all
  have fat: "GetFATSizeSectors T 0 (2 ^ i) 2 bps = f"
    using b assms(4,5) by (simp add: GetFATSizeSectors_def dword_sub_small fat_size_of_def Let_def)
  have T: "(T < 65536) = False" "(0xffffffff \<le> T) = False" "dword T = T"
    using assms(3,4) by auto
  have sys: "dword (dword (dword (32 + 2 * f) + MB div bps - 1) div (MB div bps) * (MB div bps)) = sys"
  proof -
    have "MB div bps \<le> 2 ^ 11"
      using align_sectors(2) [OF p(1,2)] p(4) by simp
    then have "dword (32 + 2 * f) = 32 + 2 * f" "dword (32 + 2 * f + MB div bps - 1) = 32 + 2 * f + MB div bps - 1" "dword sys = sys"
      using b assms(4) by (simp_all add: dword_def)
    then show ?thesis
      using assms(6) by (simp add: system_size_of_def)
  qed
  have sub: "dword_sub sys (2 * f) = sys - 2 * f" "dword_sub (dword_sub T (sys - 2 * f)) (2 * f) = T - sys"
    using b assms(4) by (simp_all add: dword_sub_small)
  show ?thesis
    unfolding fat32_layout_of_def p(5) assms(2) [symmetric]
    by (simp only: Let_def T spc fat sys sub assms(7) [symmetric] if_False)
qed


lemma fat_needed_le:
  fixes bps :: nat
  assumes "(n + 2) * 4 \<le> f * bps" "0 < bps"
  shows "(n * 4 + (bps - 1)) div bps \<le> f"
proof -
  have "n * 4 + 8 \<le> f * bps" "bps - 1 < bps"
    using assms by simp_all
  then have "n * 4 + (bps - 1) < f * bps + bps"
    by linarith
  then have "n * 4 + (bps - 1) < Suc f * bps"
    by simp
  then have "(n * 4 + (bps - 1)) div bps < Suc f"
    by (rule less_mult_imp_div_less)
  then show ?thesis
    by simp
qed

lemma layout_size_errors:
  "len div bps < 65536 \<Longrightarrow> fat32_layout_of bps len cluster = Inl Too_small"
  "\<not> len div bps < 65536 \<Longrightarrow> len div bps \<ge> 0xffffffff \<Longrightarrow> fat32_layout_of bps len cluster = Inl Too_big"
  unfolding fat32_layout_of_def Let_def by (rule if_P, assumption) (rule trans [OF if_not_P if_P], assumption+)

text \<open>The layout of every accepted volume.\<close>

lemma layout_ok:
  assumes "params_ok sh i bps len cluster"
  shows "case fat32_layout_of bps len cluster of
      Inl e \<Rightarrow> e \<noteq> Fat_too_small
    | Inr ly \<Rightarrow>
        ly_total ly = len div bps \<and> ly_spc ly = 2 ^ i \<and> 32 \<le> ly_reserved ly \<and> ly_reserved ly < 65536 \<and>
        (ly_reserved ly + 2 * ly_fat_size ly) mod (MB div bps) = 0 \<and>
        ly_reserved ly + 2 * ly_fat_size ly + ly_clusters ly * ly_spc ly \<le> ly_total ly \<and>
        ly_total ly < ly_reserved ly + 2 * ly_fat_size ly + (ly_clusters ly + 1) * ly_spc ly \<and>
        65536 \<le> ly_clusters ly \<and> ly_clusters ly \<le> 0x0FFFFFFF \<and> (ly_clusters ly + 2) * 4 \<le> ly_fat_size ly * bps"
proof (cases "65536 \<le> len div bps \<and> len div bps < 0xffffffff")
  case False
  then have "fat32_layout_of bps len cluster \<in> {Inl Too_small, Inl Too_big}"
    using layout_size_errors [of len bps cluster] by (cases "len div bps < 65536") simp_all
  then show ?thesis by auto
next
  case True
  define T f sys n where "T = len div bps" and "f = fat_size_of T (2 ^ i) bps" and "sys = system_size_of f bps"
    and "n = (T - sys) div 2 ^ i"
  have T: "65536 \<le> T" "T < 0xffffffff" using True by (simp_all add: T_def)
  note eq = fat32_layout_eq [OF assms T_def T f_def sys_def n_def]
  have p: "9 \<le> sh" "sh \<le> 12" "i \<le> 7" "bps = 2 ^ sh"
    using assms by (auto simp: params_ok_def)
  note b = layout_bounds [OF p(1-3) T, folded p(4), folded f_def, folded sys_def]
  have "4 dvd bps"
    using p(1,4) le_imp_power_dvd [of 2 sh "2::nat"] by simp
  moreover have r: "sys - 2 * f + 2 * f \<le> T" "T - (sys - 2 * f) - 2 * f = T - sys"
    using b by linarith+
  ultimately have enough: "(n + 2) * 4 \<le> f * bps"
    using fat_size_enough [OF _ f_def [unfolded fat_size_of_def] _ r(1)] unfolding r(2) n_def by simp
  have small: "\<not> (n * 4 + (bps - 1)) div bps > f"
    using fat_needed_le [OF enough] p(4) by simp
  have sum: "sys - 2 * f + 2 * f = sys" "32 \<le> sys - 2 * f" "sys - 2 * f < 65536" "sys \<le> T"
    using b by linarith+
  have "n * 2 ^ i \<le> T - sys" "T - sys < n * 2 ^ i + 2 ^ i"
    using dividend_less_div_times [of "2 ^ i" "T - sys"] by (simp_all add: n_def)
  then have fill: "sys + n * 2 ^ i \<le> T" "T < sys + (n + 1) * 2 ^ i"
    using sum(4) unfolding add_mult_distrib by linarith+
  have align: "sys mod (MB div bps) = 0"
    by (simp add: sys_def system_size_of_def)
  show ?thesis
  proof (cases "n > 0x0FFFFFFF \<or> n < 65536")
    case True
    then show ?thesis
      unfolding eq by auto
  next
    case False
    then have layout: "fat32_layout_of bps len cluster = Inr \<lparr>ly_total = T, ly_spc = 2 ^ i, ly_fat_size = f, ly_reserved = sys - 2 * f,
        ly_user = T - sys, ly_clusters = n\<rparr>"
      unfolding eq if_not_P [OF small] by simp
    show ?thesis
      unfolding layout sum.case fat32_layout.simps T_def [symmetric] sum(1)
      using False sum(2,3) fill align enough by (intro conjI) (simp_all only: not_less de_Morgan_disj)
  qed
qed

text \<open>
  C28. For a sector size of 512 to 4096 bytes and a cluster of 1 to 128 sectors, no 32-bit computation of the layout wraps
  around. An accepted layout has at least 32 reserved sectors, as many as its 16-bit field holds; it
  starts the data area on a 1 MiB boundary; reserved sectors, FATs and clusters fit into the volume,
  less than one cluster being left over; and each FAT has an entry for every cluster, those two
  included that do not exist. So the last check of the code never fails.
\<close>

theorem fat32_layout_correct:
  assumes "params_ok sh i bps len cluster"
  shows "case fat32_layout_of bps len cluster of
      Inl e \<Rightarrow> e \<noteq> Fat_too_small
    | Inr ly \<Rightarrow>
        ly_total ly = len div bps \<and> ly_spc ly = 2 ^ i \<and> 32 \<le> ly_reserved ly \<and> ly_reserved ly < 65536 \<and>
        (ly_reserved ly + 2 * ly_fat_size ly) mod (MB div bps) = 0 \<and>
        ly_reserved ly + 2 * ly_fat_size ly + ly_clusters ly * ly_spc ly \<le> ly_total ly \<and>
        ly_total ly < ly_reserved ly + 2 * ly_fat_size ly + (ly_clusters ly + 1) * ly_spc ly \<and>
        65536 \<le> ly_clusters ly \<and> ly_clusters ly \<le> 0x0FFFFFFF \<and> (ly_clusters ly + 2) * 4 \<le> ly_fat_size ly * bps"
  using layout_ok [OF assms] .

lemmas layout_eval = params_ok_def default_cluster_size_def GB_def MB_def KB_def fat_size_of_def system_size_of_def

theorem fat32_layout_correct_witness:
  "\<exists>ly. fat32_layout_of 512 (4 * GB) 0 = Inr ly \<and> (ly_clusters ly + 2) * 4 \<le> ly_fat_size ly * 512"
proof -
  have p: "params_ok 9 3 512 (4 * GB) 0"
    by (simp add: layout_eval)
  then have "\<exists>ly. fat32_layout_of 512 (4 * GB) 0 = Inr ly"
    using fat32_layout_eq [of 9 3 512 "4 * GB" 0 8388608 8177 18432 1046272] by (simp add: layout_eval)
  then show ?thesis
    using fat32_layout_correct [OF p] by auto
qed

text \<open>
  The default cluster size need not give a volume that the function accepts: a partition of exactly 256 MiB (and one of
  64 MiB) is refused with too few clusters, while the next smaller cluster size is accepted.
\<close>

theorem default_cluster_size_refused:
  "fat32_layout_of 512 (64 * MB) 0 = Inl Too_few_clusters \<and>
   fat32_layout_of 512 (256 * MB) 0 = Inl Too_few_clusters \<and> (\<exists>ly. fat32_layout_of 512 (256 * MB) 2048 = Inr ly)"
proof (intro conjI)
  show "fat32_layout_of 512 (64 * MB) 0 = Inl Too_few_clusters"
    using fat32_layout_eq [of 9 1 512 "64 * MB" 0 131072 509 2048 64512] by (simp add: layout_eval)
  show "fat32_layout_of 512 (256 * MB) 0 = Inl Too_few_clusters"
    using fat32_layout_eq [of 9 3 512 "256 * MB" 0 524288 512 2048 65280] by (simp add: layout_eval)
  show "\<exists>ly. fat32_layout_of 512 (256 * MB) 2048 = Inr ly"
    using fat32_layout_eq [of 9 2 512 "256 * MB" 2048 524288 1021 4096 130048] by (simp add: layout_eval)
qed

text \<open>
  The limit on the number of clusters is too high for 28-bit entries: the function accepts a volume whose last cluster
  has the number 2 to the power 28.
\<close>

theorem fat32_cluster_limit_too_high:
  "\<exists>ly. fat32_layout_of 512 139587485184 512 = Inr ly \<and> ly_clusters ly + 1 = 2 ^ 28"
  using fat32_layout_eq [of 9 0 512 "139587485184" 512 272631807 2097168 4196352 268435455] by (simp add: layout_eval)

end
