(* ===== verification/Fat32_Format.thy ===== *)
theory Fat32_Format
  imports Fat32_Layout Libfat_Open
begin

text \<open>
  The formatter and the FAT reader together: what \<^verbatim>\<open>FormatLargeFAT32\<close> writes is a volume that \<^verbatim>\<open>libfat_open\<close> accepts, with the geometry
  of the layout and an empty root directory.
\<close>

section \<open>The volume after the writes\<close>

text \<open>A volume maps sector numbers to sectors.\<close>

definition apply_write :: "nat \<Rightarrow> nat \<times> bytes \<Rightarrow> (nat \<Rightarrow> bytes) \<Rightarrow> nat \<Rightarrow> bytes" where
  "apply_write bps w d n =
     (if fst w \<le> n \<and> n < fst w + length (snd w) div bps then slice ((n - fst w) * bps) bps (snd w) else d n)"

definition disk_after :: "nat \<Rightarrow> (nat \<times> bytes) list \<Rightarrow> (nat \<Rightarrow> bytes) \<Rightarrow> nat \<Rightarrow> bytes" where
  "disk_after bps ws d = fold (apply_write bps) ws d"

definition volume_reader :: "nat \<Rightarrow> (nat \<Rightarrow> bytes) \<Rightarrow> reader" where
  "volume_reader tot d n = (if n < tot then Some (d n) else None)"

lemma disk_after_simps [simp]:
  "disk_after bps [] d = d" "disk_after bps (w # ws) d = disk_after bps ws (apply_write bps w d)"
  "disk_after bps (vs @ ws) d = disk_after bps ws (disk_after bps vs d)"
  by (simp_all add: disk_after_def)

lemma apply_write_sector: "length x = bps \<Longrightarrow> 0 < bps \<Longrightarrow> apply_write bps (s, x) d n = (if n = s then x else d n)"
  by (auto simp: apply_write_def slice_def)

lemma slice_replicate: "i + n \<le> m \<Longrightarrow> slice i n (replicate m x) = replicate n x"
  by (simp add: slice_def)

lemma disk_after_zeros:
  assumes "0 < bps"
  shows "disk_after bps (map (\<lambda>k. (128 * k, replicate (128 * bps) 0)) [0..<m]) d n =
    (if n < 128 * m then replicate bps 0 else d n)"
proof (induction m)
  case (Suc m)
  have "(n - 128 * m) * bps + bps \<le> 128 * bps" if "128 * m \<le> n" "n < 128 * m + 128"
  proof -
    have "(n - 128 * m + 1) * bps \<le> 128 * bps"
      using that by (intro mult_le_mono1) simp
    then show ?thesis by simp
  qed
  then show ?case
    using Suc assms by (auto simp: apply_write_def slice_replicate)
qed simp

lemma zero_bursts_after:
  assumes "0 < bps" "n < sys"
  shows "disk_after bps (zero_bursts bps sys) d n = replicate bps 0"
proof -
  have "n < 128 * ((sys + 128 - 1 + 127) div 128)"
    using assms(2) dividend_less_div_times [of 128 "sys + 128 - 1 + 127"] by simp
  then show ?thesis
    using disk_after_zeros [OF assms(1)] by (simp add: zero_bursts_def)
qed

section \<open>The boot sector\<close>

lemma read_le_bytes:
  "unat (le_word (le_bytes 2 (w :: u16)) :: u16) = unat w" "unat (le_word (le_bytes 4 (v :: u32)) :: u32) = unat v"
  by simp_all

lemma length_boot_sector: "512 \<le> vo_bytes_per_sector vo \<Longrightarrow> vo_bytes_per_sector vo \<noteq> 513 \<Longrightarrow>
    length (fat32_boot_sector vo ly) = vo_bytes_per_sector vo"
  by (simp add: fat32_boot_sector_def; arith)

lemma boot_sector_slices:
  "slice 11 2 (fat32_boot_sector vo ly) = le_bytes 2 (of_nat (vo_bytes_per_sector vo) :: u16)"
  "fat32_boot_sector vo ly ! 13 = of_nat (ly_spc ly)"
  "slice 14 2 (fat32_boot_sector vo ly) = le_bytes 2 (of_nat (ly_reserved ly) :: u16)"
  "fat32_boot_sector vo ly ! 16 = 2"
  "slice 17 2 (fat32_boot_sector vo ly) = [0, 0]"
  "slice 19 2 (fat32_boot_sector vo ly) = [0, 0]"
  "slice 22 2 (fat32_boot_sector vo ly) = [0, 0]"
  "slice 32 4 (fat32_boot_sector vo ly) = le_bytes 4 (of_nat (ly_total ly) :: u32)"
  "slice 36 4 (fat32_boot_sector vo ly) = le_bytes 4 (of_nat (ly_fat_size ly) :: u32)"
  "slice 44 4 (fat32_boot_sector vo ly) = le_bytes 4 (2 :: u32)"
  by (simp_all add: fat32_boot_sector_def slice_def nth_append)


section \<open>Opening the volume\<close>

lemma find_power: "i \<le> 7 \<Longrightarrow> List.find (\<lambda>k. 2 ^ k mod 256 = (2::nat) ^ i) [0..<9] = Some i"
proof -
  assume "i \<le> 7"
  then have "i \<in> {0, 1, 2, 3, 4, 5, 6, 7}" by auto
  then show ?thesis by (auto simp: upt_rec)
qed

text \<open>What the proofs need of an accepted layout.\<close>

definition layout_good :: "nat \<Rightarrow> nat \<Rightarrow> fat32_layout \<Rightarrow> bool" where
  "layout_good i bps ly \<longleftrightarrow> ly_spc ly = 2 ^ i \<and> 32 \<le> ly_reserved ly \<and> ly_reserved ly < 65536 \<and> 0 < ly_fat_size ly \<and>
     ly_reserved ly + 2 * ly_fat_size ly + 65536 * 2 ^ i \<le> ly_total ly \<and> ly_total ly < 2 ^ 32 \<and> 65536 \<le> ly_clusters ly \<and>
     (ly_total ly - (ly_reserved ly + 2 * ly_fat_size ly)) div 2 ^ i = ly_clusters ly \<and>
     (ly_clusters ly + 2) * 4 \<le> ly_fat_size ly * bps"

lemma layout_total: "fat32_layout_of bps len cluster = Inr ly \<Longrightarrow> len div bps < 2 ^ 32"
  using layout_size_errors [of len bps cluster] by (cases "len div bps < 65536") (force simp: not_le)+

lemma layout_accepted:
  assumes "params_ok sh i bps len cluster" "fat32_layout_of bps len cluster = Inr ly"
  shows "layout_good i bps ly"
proof -
  let ?sys = "ly_reserved ly + 2 * ly_fat_size ly"
  have spc: "ly_spc ly = 2 ^ i"
    using layout_ok [OF assms(1)] unfolding assms(2) by simp
  have ok: "ly_total ly = len div bps" "ly_spc ly = 2 ^ i" "32 \<le> ly_reserved ly" "ly_reserved ly < 65536"
    "?sys + ly_clusters ly * 2 ^ i \<le> ly_total ly" "ly_total ly < ?sys + (ly_clusters ly + 1) * 2 ^ i"
    "65536 \<le> ly_clusters ly" "(ly_clusters ly + 2) * 4 \<le> ly_fat_size ly * bps"
    using layout_ok [OF assms(1)] unfolding assms(2) sum.case spc by blast+
  have "(ly_total ly - ?sys) div 2 ^ i = ly_clusters ly"
    using ok(5,6) by (intro div_nat_eqI) (simp_all add: algebra_simps)
  moreover have "65536 * 2 ^ i \<le> ly_clusters ly * 2 ^ i"
    using ok(7) by (rule mult_le_mono1)
  moreover have "0 < ly_fat_size ly"
    using ok(8) by (cases "ly_fat_size ly") simp_all
  ultimately show ?thesis
    using ok layout_total [OF assms(2)] unfolding layout_good_def by linarith
qed

lemma unat_of_nat_small: "x < 2 ^ LENGTH('a) \<Longrightarrow> unat (of_nat x :: 'a::len word) = x"
  by (simp add: unat_of_nat take_bit_nat_eq_self)

lemma len_simps: "(2::nat) ^ LENGTH(8) = 256" "(2::nat) ^ LENGTH(16) = 65536" "(2::nat) ^ LENGTH(32) = 2 ^ 32"
  by simp_all

lemma sectors_needed_le:
  assumes "x \<le> k * m" "0 < (m::nat)"
  shows "\<not> (x + m - 1) div m > k"
proof -
  have "x + m - 1 < k * m + m"
    using assms by linarith
  then have "x + m - 1 < Suc k * m"
    by simp
  then show ?thesis
    using less_mult_imp_div_less [of "x + m - 1" "Suc k" m] by linarith
qed

lemma boot_sector_fields:
  assumes "layout_good i (vo_bytes_per_sector vo) ly" "i \<le> 7" "vo_bytes_per_sector vo = 2 ^ sh" "sh \<le> 12"
  defines "bs \<equiv> fat32_boot_sector vo ly"
  shows "read16 bs 11 = 2 ^ sh" "read8 bs 13 = 2 ^ i" "read16 bs 14 = ly_reserved ly" "read8 bs 16 = 2" "read16 bs 17 = 0"
    "read16 bs 19 = 0" "read16 bs 22 = 0" "read32 bs 32 = ly_total ly" "read32 bs 36 = ly_fat_size ly"
    "sint (le_word (slice 44 4 bs) :: u32) = 2"
proof -
  note good = assms(1) [unfolded layout_good_def]
  have "(2::nat) ^ sh \<le> 2 ^ 12" "(2::nat) ^ i \<le> 2 ^ 7"
    using assms(2,4) by (intro power_increasing; simp)+
  then have less: "(2::nat) ^ sh < 65536" "(2::nat) ^ i < 256" by simp_all
  have lens: "ly_reserved ly < 65536" "ly_total ly < 2 ^ 32" "ly_fat_size ly < 2 ^ 32" "ly_spc ly = 2 ^ i"
    using good by linarith+
  show "read16 bs 11 = 2 ^ sh" "read16 bs 14 = ly_reserved ly" "read32 bs 32 = ly_total ly"
    "read32 bs 36 = ly_fat_size ly" "read8 bs 13 = 2 ^ i"
    unfolding bs_def read16_def read32_def read8_def boot_sector_slices read_le_bytes lens(4) assms(3)
    by (rule unat_of_nat_small; use lens less in \<open>simp only: len_simps\<close>)+
  show "read8 bs 16 = 2" "read16 bs 17 = 0" "read16 bs 19 = 0" "read16 bs 22 = 0" "sint (le_word (slice 44 4 bs) :: u32) = 2"
    unfolding bs_def read16_def read8_def boot_sector_slices by simp_all
qed

lemma open_formatted:
  assumes "layout_good i (vo_bytes_per_sector vo) ly" "i \<le> 7" "vo_bytes_per_sector vo = 2 ^ sh" "sh \<le> 12"
    and "rd 0 = Some (fat32_boot_sector vo ly)" "ly_clusters ly \<le> 0xffffff4"
  shows "libfat_open sh rd = Some \<lparr>ff_type = FAT28, ff_clustsize = 2 ^ i, ff_clustshift = i,
    ff_endcluster = int (ly_clusters ly + 2), ff_rootcluster = 2, ff_fat = ly_reserved ly,
    ff_rootdir = ly_reserved ly + ly_fat_size ly * 2, ff_data = ly_reserved ly + ly_fat_size ly * 2, ff_end = ly_total ly,
    ff_sectors = [(0, fat32_boot_sector vo ly)]\<rparr>"
proof -
  note good = assms(1) [unfolded layout_good_def]
  have clusters: "(ly_total ly - (ly_reserved ly + ly_fat_size ly * 2)) div 2 ^ i = ly_clusters ly"
    using good by (simp add: mult.commute)
  have small: "\<not> ((ly_clusters ly + 2) * 4 + 2 ^ sh - 1) div 2 ^ sh > ly_fat_size ly"
    using good assms(3) by (intro sectors_needed_le) simp_all
  have type: "\<not> ly_clusters ly > 0xffffff4" "\<not> ly_clusters ly \<le> 0xff4" "\<not> ly_clusters ly \<le> 0xfff4"
    "\<not> ly_total ly \<le> ly_reserved ly + ly_fat_size ly * 2"
    using good assms(6) zero_less_power [of "2::nat" i] by linarith+
  have pad: "(0 * 32 + (2 ^ sh - 1)) div 2 ^ sh = (0::nat)"
    by simp
  show ?thesis
    unfolding libfat_open_def assms(5) option.case boot_sector_fields [OF assms(1-4)] find_power [OF assms(2)] Let_def pad
    by (simp only: clusters type small fat_type.case if_False if_True not_True_eq_False add_0_right simp_thms)
qed

section \<open>The formatted volume\<close>

text \<open>The sectors that the writes after the bursts reach.\<close>

lemma formatted_sectors:
  fixes d :: "nat \<Rightarrow> bytes"
  assumes "layout_good i (vo_bytes_per_sector vo) ly" "512 \<le> vo_bytes_per_sector vo" "vo_bytes_per_sector vo \<noteq> 513"
    and "fat32_layout_of (vo_bytes_per_sector vo) (vo_length vo) cluster = Inr ly"
    and "FormatLargeFAT32 FSName vo cluster = Inr ws"
  defines "disk \<equiv> disk_after (vo_bytes_per_sector vo) ws d"
  shows "disk 0 = fat32_boot_sector vo ly"
    "disk (ly_reserved ly + 2 * ly_fat_size ly) = replicate (vo_bytes_per_sector vo) 0"
    "disk (ly_reserved ly) = fat32_first_fat vo" "disk (ly_reserved ly + ly_fat_size ly) = fat32_first_fat vo"
proof -
  let ?b = "vo_bytes_per_sector vo" and ?sys = "ly_reserved ly + 2 * ly_fat_size ly"
  have lens: "length (fat32_boot_sector vo ly) = ?b" "length (fat32_fsinfo vo ly) = ?b" "length (fat32_first_fat vo) = ?b" "0 < ?b"
    using length_boot_sector [OF assms(2,3)] assms(2) by (simp_all add: fat32_fsinfo_def fat32_first_fat_def)
  have pos: "32 \<le> ly_reserved ly" "0 < ly_fat_size ly" "0 < ly_spc ly"
    using assms(1) by (auto simp: layout_good_def)
  have "ws = zero_bursts ?b (?sys + ly_spc ly) @
      [(0, fat32_boot_sector vo ly), (1, fat32_fsinfo vo ly), (6, fat32_boot_sector vo ly), (7, fat32_fsinfo vo ly)] @
      [(ly_reserved ly, fat32_first_fat vo), (ly_reserved ly + ly_fat_size ly, fat32_first_fat vo)]"
    using assms(4,5) by (auto simp: FormatLargeFAT32_def Let_def split: if_splits)
  then have disk: "disk n = (if n = ly_reserved ly + ly_fat_size ly then fat32_first_fat vo
      else if n = ly_reserved ly then fat32_first_fat vo else if n = 7 then fat32_fsinfo vo ly
      else if n = 6 then fat32_boot_sector vo ly else if n = 1 then fat32_fsinfo vo ly
      else if n = 0 then fat32_boot_sector vo ly else disk_after ?b (zero_bursts ?b (?sys + ly_spc ly)) d n)" for n
    by (simp add: disk_def apply_write_sector lens)
  have "disk_after ?b (zero_bursts ?b (?sys + ly_spc ly)) d ?sys = replicate ?b 0"
    using lens(4) pos(3) by (intro zero_bursts_after) simp_all
  then show "disk 0 = fat32_boot_sector vo ly" "disk ?sys = replicate ?b 0"
    "disk (ly_reserved ly) = fat32_first_fat vo" "disk (ly_reserved ly + ly_fat_size ly) = fat32_first_fat vo"
    using pos by (simp_all add: disk)
qed

text \<open>Every write lies inside the volume.\<close>

lemma writes_inside:
  assumes "layout_good i (vo_bytes_per_sector vo) ly" "512 \<le> vo_bytes_per_sector vo" "vo_bytes_per_sector vo \<noteq> 513"
    and "i \<le> 7" "fat32_layout_of (vo_bytes_per_sector vo) (vo_length vo) cluster = Inr ly"
    and "FormatLargeFAT32 FSName vo cluster = Inr ws" "(s, x) \<in> set ws"
  shows "s + length x div vo_bytes_per_sector vo \<le> ly_total ly"
proof -
  let ?b = "vo_bytes_per_sector vo" and ?sys = "ly_reserved ly + 2 * ly_fat_size ly"
  have lens: "length (fat32_boot_sector vo ly) = ?b" "length (fat32_fsinfo vo ly) = ?b" "length (fat32_first_fat vo) = ?b" "0 < ?b"
    using length_boot_sector [OF assms(2,3)] assms(2) by (simp_all add: fat32_fsinfo_def fat32_first_fat_def)
  have room: "?sys + 65536 * ly_spc ly \<le> ly_total ly" "0 < ly_spc ly" "32 \<le> ly_reserved ly" "0 < ly_fat_size ly"
    using assms(1) by (auto simp: layout_good_def)
  have "128 * k + 128 \<le> ly_total ly" if "k < (?sys + ly_spc ly + 128 - 1 + 127) div 128" for k
  proof -
    have "128 * Suc k \<le> 128 * ((?sys + ly_spc ly + 254) div 128)"
      using that by (intro mult_le_mono2) (simp add: Suc_le_eq ac_simps)
    also have "\<dots> \<le> ?sys + ly_spc ly + 254"
      by (rule times_div_less_eq_dividend)
    finally show ?thesis
      using room by simp
  qed
  moreover have "x = fat32_boot_sector vo ly \<and> s \<in> {0, 6} \<or> x = fat32_fsinfo vo ly \<and> s \<in> {1, 7} \<or>
      x = fat32_first_fat vo \<and> s \<in> {ly_reserved ly, ly_reserved ly + ly_fat_size ly} \<or>
      (s, x) \<in> set (zero_bursts ?b (?sys + ly_spc ly))"
    using assms(5-7) by (auto simp: FormatLargeFAT32_def Let_def split: if_splits)
  ultimately show ?thesis
    using room lens by (auto simp: zero_bursts_def)
qed

text \<open>The search of a directory that starts with zeros.\<close>

lemma scan_zeros:
  assumes "length name = 11" "name \<noteq> replicate 11 0" "32 \<le> n" "0 < k"
  shows "scan_sector name (replicate n 0) 0 k = Inl (- 2, None)"
proof -
  obtain m where "k = Suc m"
    using assms(4) gr0_conv_Suc by blast
  moreover have "slice 0 32 (replicate n 0) = replicate 32 (0 :: byte)" "take 11 (replicate 32 (0 :: byte)) = replicate 11 0"
    using assms(3) by (simp_all add: slice_0_take take_replicate min_absorb1)
  ultimately show ?thesis
    using not_sym [OF assms(2)] by (simp only: scan_sector.simps Let_def if_False nth_replicate) simp
qed

lemma search_empty:
  assumes "libfat_clustertosector fs c = Some s" "s \<noteq> 0" "map_of (ff_sectors fs) s = None" "rd s = Some (replicate n 0)"
    and "length name = 11" "name \<noteq> replicate 11 0" "32 \<le> n" "32 \<le> (2::nat) ^ sh"
  shows "\<exists>fs'. libfat_searchdir sh rd fs c name = Some ((- 2, None), fs')"
proof -
  have "scan_sector name (replicate n 0) 0 (2 ^ sh div 32) = Inl (- 2, None)"
    using assms by (intro scan_zeros) (simp_all add: div_greater_zero_iff)
  then show ?thesis
    unfolding libfat_searchdir_def assms(1)
    by (subst searchdir_loop.simps) (simp add: assms(2-4) libfat_get_sector_def)
qed

text \<open>
  C6. The formatter and the reader agree. The writes of \<^verbatim>\<open>FormatLargeFAT32\<close> stay inside the volume, and afterwards
  \<^verbatim>\<open>libfat_open\<close> accepts it, as a FAT32 system with the cluster size, FAT, data area and number of clusters of
  the computed layout and root directory cluster 2, provided that there are no more clusters than FAT32
  allows. Searching the root directory for any name reports that it does not exist.
\<close>

theorem formatted_volume_opens:
  fixes d :: "nat \<Rightarrow> bytes"
  assumes "params_ok sh i (vo_bytes_per_sector vo) (vo_length vo) cluster"
    and "fat32_layout_of (vo_bytes_per_sector vo) (vo_length vo) cluster = Inr ly" "ly_clusters ly \<le> 0xffffff4"
    and "FormatLargeFAT32 FSName vo cluster = Inr ws"
  defines "rd \<equiv> volume_reader (ly_total ly) (disk_after (vo_bytes_per_sector vo) ws d)"
  shows "(\<forall>(s, x) \<in> set ws. s + length x div vo_bytes_per_sector vo \<le> ly_total ly) \<and>
    (\<exists>fs. libfat_open sh rd = Some fs \<and> ff_type fs = FAT28 \<and> ff_clustsize fs = ly_spc ly \<and> ff_fat fs = ly_reserved ly \<and>
      ff_data fs = ly_reserved ly + 2 * ly_fat_size ly \<and> ff_end fs = ly_total ly \<and>
      ff_endcluster fs = int (ly_clusters ly + 2) \<and> ff_rootcluster fs = 2 \<and>
      (\<forall>name. length name = 11 \<and> name \<noteq> replicate 11 0 \<longrightarrow> (\<exists>fs'. libfat_searchdir sh rd fs 0 name = Some ((- 2, None), fs'))))"
proof -
  let ?b = "vo_bytes_per_sector vo" and ?sys = "ly_reserved ly + 2 * ly_fat_size ly"
  have p: "9 \<le> sh" "sh \<le> 12" "i \<le> 7" "?b = 2 ^ sh"
    using assms(1) by (auto simp: params_ok_def)
  have "2 ^ 9 \<le> (2::nat) ^ sh"
    using p(1) by (intro power_increasing) simp_all
  then have b: "512 \<le> ?b" "?b \<noteq> 513" "32 \<le> (2::nat) ^ sh"
    using p(1,4) by (auto dest: arg_cong [of _ _ even])
  note good = layout_accepted [OF assms(1,2)]
  note g = good [unfolded layout_good_def]
  note disk = formatted_sectors [OF good b(1,2) assms(2,4), of d]
  have inside: "0 < ly_total ly" "?sys < ly_total ly" "0 < ?sys"
    using g zero_less_power [of "2::nat" i] by linarith+
  then have rd: "rd 0 = Some (fat32_boot_sector vo ly)" "rd ?sys = Some (replicate ?b 0)"
    by (simp_all add: rd_def volume_reader_def disk)
  obtain fs where fs: "libfat_open sh rd = Some fs" "ff_type fs = FAT28" "ff_clustsize fs = ly_spc ly" "ff_clustshift fs = i"
    "ff_fat fs = ly_reserved ly" "ff_data fs = ?sys" "ff_end fs = ly_total ly" "ff_endcluster fs = int (ly_clusters ly + 2)"
    "ff_rootcluster fs = 2" "ff_sectors fs = [(0, fat32_boot_sector vo ly)]"
    using open_formatted [of i vo ly sh rd] good p rd(1) assms(3) g by (simp add: mult.commute)
  have "libfat_clustertosector fs 0 = Some ?sys"
    using fs g by (simp add: libfat_clustertosector_def)
  then have "\<exists>fs'. libfat_searchdir sh rd fs 0 name = Some ((- 2, None), fs')" if "length name = 11" "name \<noteq> replicate 11 0" for name
    using search_empty [of fs 0 ?sys rd ?b name sh] that rd(2) inside(3) b(1,3) fs(10) by simp
  moreover have "\<forall>(s, x) \<in> set ws. s + length x div ?b \<le> ly_total ly"
    using writes_inside [OF good b(1,2) p(3) assms(2,4)] by auto
  ultimately show ?thesis
    using fs by blast
qed

definition stick :: volume where
  "stick = \<lparr>vo_bytes_per_sector = 512, vo_length = 4 * GB, vo_sectors_per_track = 63, vo_heads = 255, vo_hidden = 2048,
     vo_time = \<lparr>st_year = 2024, st_month = 2, st_day = 29, st_hour = 12, st_minute = 0, st_second = 0, st_milliseconds = 0\<rparr>\<rparr>"

theorem formatted_volume_opens_witness:
  "\<exists>ws fs. FormatLargeFAT32 ''FAT32'' stick 0 = Inr ws \<and>
     libfat_open 9 (volume_reader 8388608 (disk_after 512 ws (\<lambda>_. replicate 512 0xFF))) = Some fs \<and>
     ff_endcluster fs = 1046274"
proof -
  have stick: "vo_bytes_per_sector stick = 512" "vo_length stick = 4 * GB"
    by (simp_all add: stick_def)
  have p: "params_ok 9 3 (vo_bytes_per_sector stick) (vo_length stick) 0"
    by (simp add: stick layout_eval)
  have ly: "fat32_layout_of 512 (4 * GB) 0 = Inr \<lparr>ly_total = 8388608, ly_spc = 8, ly_fat_size = 8177, ly_reserved = 2078,
      ly_user = 8370176, ly_clusters = 1046272\<rparr>"
    using fat32_layout_eq [of 9 3 512 "4 * GB" 0 8388608 8177 18432 1046272] by (simp add: layout_eval)
  then obtain ws where ws: "FormatLargeFAT32 ''FAT32'' stick 0 = Inr ws"
    by (simp add: FormatLargeFAT32_def stick Let_def)
  show ?thesis
    using formatted_volume_opens [OF p ly [folded stick] _ ws, of "\<lambda>_. replicate 512 0xFF"] ws by (auto simp: stick)
qed

end
