(* ===== verification/Bad_Block_List.thy ===== *)
theory Bad_Block_List
  imports Rufus_Prelude
begin

text \<open>
  The list of bad blocks of \<^verbatim>\<open>src/badblocks.c\<close>: a growing sorted array with insertion and binary search. Block numbers are
  natural numbers: a test refuses drives of more than 1 PB, so they are far below \<open>2 ^ 64\<close>, and so are the
  counters.
\<close>

section \<open>The code\<close>

record bb_struct_u64_list =
  bb_num :: nat
  bb_size :: nat
  bb_array :: "nat list"

text \<open>\<^verbatim>\<open>make_u64_list\<close> without initial contents; \<open>mem\<close> says whether an array of that size can be allocated.\<close>

definition make_u64_list :: "(nat \<Rightarrow> bool) \<Rightarrow> nat \<Rightarrow> bb_struct_u64_list option" where
  "make_u64_list mem n =
     (let n = (if n \<noteq> 0 then n else 10)
      in if mem n then Some \<lparr>bb_num = 0, bb_size = n, bb_array = replicate n 0\<rparr> else None)"

text \<open>The reallocation of \<^verbatim>\<open>bb_u64_list_add\<close>.\<close>

definition bb_grow :: "(nat \<Rightarrow> bool) \<Rightarrow> bb_struct_u64_list \<Rightarrow> bb_struct_u64_list option" where
  "bb_grow mem bb =
     (if bb_num bb \<ge> bb_size bb
      then if mem (bb_size bb + 100)
        then Some (bb\<lparr>bb_size := bb_size bb + 100, bb_array := bb_array bb @ replicate 100 0\<rparr>) else None
      else Some bb)"

text \<open>The loop that moves the entries from \<open>j\<close> on by one place, from \<open>i\<close> down.\<close>

fun bb_shift :: "nat \<Rightarrow> nat \<Rightarrow> nat list \<Rightarrow> nat list" where
  "bb_shift j i xs = (if i > j then bb_shift j (i - 1) (xs[i := xs ! (i - 1)]) else xs)"

declare bb_shift.simps [simp del]

text \<open>The result is \<open>False\<close> for \<^verbatim>\<open>BB_ET_NO_MEMORY\<close>.\<close>

definition bb_u64_list_add :: "(nat \<Rightarrow> bool) \<Rightarrow> bb_struct_u64_list \<Rightarrow> nat \<Rightarrow> bool \<times> bb_struct_u64_list" where
  "bb_u64_list_add mem bb0 blk =
     (case bb_grow mem bb0 of
        None \<Rightarrow> (False, bb0)
      | Some bb \<Rightarrow>
          let num = bb_num bb; xs = bb_array bb
          in if num \<noteq> 0 \<and> xs ! (num - 1) = blk then (True, bb)
             else if num = 0 \<or> xs ! (num - 1) < blk then (True, bb\<lparr>bb_array := xs[num := blk], bb_num := num + 1\<rparr>)
             else (case List.find (\<lambda>i. xs ! i \<ge> blk) [0..<num] of
                     Some i \<Rightarrow>
                       if xs ! i = blk then (True, bb)
                       else (True, bb\<lparr>bb_array := (bb_shift i num xs)[i := blk], bb_num := num + 1\<rparr>)
                   | None \<Rightarrow> (True, bb\<lparr>bb_array := (bb_shift num num xs)[num := blk], bb_num := num + 1\<rparr>)))"

function bb_search :: "nat list \<Rightarrow> nat \<Rightarrow> nat \<Rightarrow> nat \<Rightarrow> int" where
  "bb_search xs blk low high =
     (if low < high then
        let mid = (low + high) div 2
        in if mid = low \<or> mid = high then - 1
           else if blk = xs ! mid then int mid
           else if blk < xs ! mid then bb_search xs blk low mid
           else bb_search xs blk mid high
      else - 1)"
  by pat_completeness auto
termination
  by (relation "measure (\<lambda>(xs, blk, low, high). high - low)") auto

declare bb_search.simps [simp del]

definition bb_u64_list_find :: "bb_struct_u64_list \<Rightarrow> nat \<Rightarrow> int" where
  "bb_u64_list_find bb blk =
     (if bb_num bb = 0 then - 1
      else let low = 0; high = bb_num bb - 1
        in if blk = bb_array bb ! low then int low
           else if blk = bb_array bb ! high then int high
           else bb_search (bb_array bb) blk low high)"

definition bb_u64_list_test :: "bb_struct_u64_list \<Rightarrow> nat \<Rightarrow> bool" where
  "bb_u64_list_test bb blk = (\<not> bb_u64_list_find bb blk < 0)"

section \<open>A sorted array\<close>

definition bb_blocks :: "bb_struct_u64_list \<Rightarrow> nat list" where
  "bb_blocks bb = take (bb_num bb) (bb_array bb)"

definition bb_inv :: "bb_struct_u64_list \<Rightarrow> bool" where
  "bb_inv bb \<longleftrightarrow> bb_num bb \<le> bb_size bb \<and> length (bb_array bb) = bb_size bb \<and> sorted_wrt (<) (bb_blocks bb)"

lemma bb_blocks_nth: "bb_inv bb \<Longrightarrow> i < bb_num bb \<Longrightarrow> bb_blocks bb ! i = bb_array bb ! i"
  by (simp add: bb_blocks_def)

lemma length_bb_blocks: "bb_inv bb \<Longrightarrow> length (bb_blocks bb) = bb_num bb"
  by (simp add: bb_blocks_def bb_inv_def)

text \<open>Entries in order: the test below is the only use of the order by the search.\<close>

lemma bb_sorted:
  assumes "bb_inv bb" "i < j" "j < bb_num bb"
  shows "bb_array bb ! i < bb_array bb ! j"
  using assms sorted_wrt_nth_less [of "(<)" "bb_blocks bb" i j] bb_blocks_nth [OF assms(1)] length_bb_blocks [OF assms(1)]
  by (simp add: bb_inv_def)

lemma bb_search_sound: "bb_search xs blk low high = int i \<Longrightarrow> low < i \<and> i < high \<and> xs ! i = blk"
proof (induction xs blk low high rule: bb_search.induct)
  case (1 xs blk low high)
  then show ?case
    by (subst (asm) (2) bb_search.simps) (fastforce simp: Let_def split: if_splits)
qed

lemma bb_search_range: "bb_search xs blk low high = - 1 \<or> (\<exists>i. bb_search xs blk low high = int i)"
proof (induction xs blk low high rule: bb_search.induct)
  case (1 xs blk low high)
  then show ?case
    by (subst (1 2) bb_search.simps) (auto simp: Let_def)
qed

lemma bb_search_complete:
  assumes "\<And>i j. low \<le> i \<Longrightarrow> i < j \<Longrightarrow> j \<le> high \<Longrightarrow> xs ! i < (xs ! j :: nat)" "low < k" "k < high" "xs ! k = blk"
  shows "bb_search xs blk low high = int k"
  using assms
proof (induction xs blk low high rule: bb_search.induct)
  case (1 xs blk low high)
  define mid where "mid = (low + high) div 2"
  have mid: "low < mid" "mid < high" using "1.prems"(2,3) by (auto simp: mid_def)
  note sorted = "1.prems"(1)
  consider "k = mid" | "k < mid" "blk < xs ! mid" | "mid < k" "xs ! mid < blk"
    using sorted [of k mid] sorted [of mid k] "1.prems"(2-4) mid by (metis less_imp_le linorder_neqE_nat)
  then show ?case
  proof cases
    case 1
    then show ?thesis
      using "1.prems"(4) mid by (subst bb_search.simps) (simp add: Let_def mid_def [symmetric])
  next
    case 2
    then have "bb_search xs blk low mid = int k"
      using "1.IH"(1) [OF _ mid_def] "1.prems"(2-4) mid sorted by simp
    then show ?thesis
      using 2 mid by (subst bb_search.simps) (simp add: Let_def mid_def [symmetric])
  next
    case 3
    then have "bb_search xs blk mid high = int k"
      using "1.IH"(2) [OF _ mid_def] "1.prems"(2-4) mid sorted by simp
    then show ?thesis
      using 3 mid by (subst bb_search.simps) (simp add: Let_def mid_def [symmetric])
  qed
qed

text \<open>The search finds the index of a block, and \<^verbatim>\<open>-1\<close> when it is not in the list.\<close>

lemma bb_u64_list_find_Some:
  assumes "bb_inv bb" "i < bb_num bb" "bb_array bb ! i = blk"
  shows "bb_u64_list_find bb blk = int i"
proof -
  have ne: "bb_array bb ! i \<noteq> bb_array bb ! j" if "j < bb_num bb" "j \<noteq> i" for j
    using bb_sorted [OF assms(1), of i j] bb_sorted [OF assms(1), of j i] that assms(2) by (metis linorder_neqE_nat less_irrefl)
  consider "i = 0" | "0 < i" "i = bb_num bb - 1" | "0 < i" "i < bb_num bb - 1"
    using assms(2) by linarith
  then show ?thesis
  proof cases
    case 3
    have "bb_search (bb_array bb) blk 0 (bb_num bb - 1) = int i"
      using 3 assms by (intro bb_search_complete) (auto intro: bb_sorted)
    moreover have "blk \<noteq> bb_array bb ! 0" "blk \<noteq> bb_array bb ! (bb_num bb - 1)"
      using ne [of 0] ne [of "bb_num bb - 1"] 3 assms(3) by auto
    ultimately show ?thesis
      using assms(2) by (auto simp: bb_u64_list_find_def Let_def)
  qed (use assms ne [of 0] in \<open>auto simp: bb_u64_list_find_def Let_def\<close>)
qed

lemma bb_u64_list_find_None:
  assumes "bb_inv bb" "\<forall>i < bb_num bb. bb_array bb ! i \<noteq> blk"
  shows "bb_u64_list_find bb blk = - 1"
proof -
  have "bb_search (bb_array bb) blk 0 (bb_num bb - 1) = - 1"
    using bb_search_range [of "bb_array bb" blk 0 "bb_num bb - 1"] bb_search_sound [of "bb_array bb" blk 0 "bb_num bb - 1"]
      assms(2) by (metis Suc_leI diff_le_self less_le_trans)
  moreover have "bb_num bb = 0 \<or> blk \<noteq> bb_array bb ! 0 \<and> blk \<noteq> bb_array bb ! (bb_num bb - 1)"
    using assms(2) by (cases "bb_num bb") auto
  ultimately show ?thesis
    by (auto simp: bb_u64_list_find_def Let_def)
qed

lemma bb_blocks_iff: "bb_inv bb \<Longrightarrow> blk \<in> set (bb_blocks bb) \<longleftrightarrow> (\<exists>i < bb_num bb. bb_array bb ! i = blk)"
  by (metis bb_blocks_nth in_set_conv_nth length_bb_blocks)

lemma bb_u64_list_test_iff: "bb_inv bb \<Longrightarrow> bb_u64_list_test bb blk \<longleftrightarrow> blk \<in> set (bb_blocks bb)"
  using bb_u64_list_find_Some [of bb _ blk] bb_u64_list_find_None [of bb blk]
  unfolding bb_u64_list_test_def bb_blocks_iff by fastforce

section \<open>Insertion\<close>

lemma bb_shift_spec:
  assumes "j \<le> i" "i < length xs"
  shows "bb_shift j i xs = take j xs @ [xs ! j] @ slice j (i - j) xs @ drop (i + 1) xs"
  using assms
proof (induction "i - j" arbitrary: i xs)
  case 0
  then show ?case
    by (subst bb_shift.simps) (simp add: slice_def Cons_nth_drop_Suc)
next
  case (Suc n)
  define ys where "ys = xs[i := xs ! (i - 1)]"
  have less: "j < i" using Suc.hyps(2) by linarith
  then have "bb_shift j i xs = bb_shift j (i - 1) ys"
    by (subst bb_shift.simps) (simp add: ys_def)
  also have "\<dots> = take j ys @ [ys ! j] @ slice j (i - 1 - j) ys @ drop i ys"
    using Suc.hyps Suc.prems Suc.hyps(1) [of "i - 1" ys] by (simp add: ys_def)
  also have "\<dots> = take j xs @ [xs ! j] @ slice j (i - 1 - j) xs @ xs ! (i - 1) # drop (i + 1) xs"
  proof -
    have "take j ys = take j xs" "ys ! j = xs ! j" "slice j (i - 1 - j) ys = slice j (i - 1 - j) xs"
      using less Suc.prems by (simp_all add: ys_def slice_def drop_update_swap)
    moreover have "drop i ys = xs ! (i - 1) # drop (i + 1) xs"
      using Suc.prems by (simp add: ys_def drop_update_swap Cons_nth_drop_Suc [symmetric])
    ultimately show ?thesis by simp
  qed
  also have "slice j (i - 1 - j) xs @ xs ! (i - 1) # drop (i + 1) xs = slice j (i - j) xs @ drop (i + 1) xs"
    using less Suc.prems take_Suc_conv_app_nth [of "i - 1 - j" "drop j xs"] by (simp add: slice_def Suc_diff_Suc)
  finally show ?case .
qed

lemma sorted_insert:
  assumes "sorted_wrt (<) xs" "i < length xs" "blk < xs ! i" "\<And>k. k < i \<Longrightarrow> xs ! k < (blk :: nat)"
  shows "sorted_wrt (<) (take i xs @ blk # drop i xs)" "set (take i xs @ blk # drop i xs) = insert blk (set xs)"
proof -
  have "x < blk" if "x \<in> set (take i xs)" for x
    using that assms(2,4) by (auto simp: in_set_conv_nth)
  moreover have "blk < x" if x: "x \<in> set (drop i xs)" for x
  proof -
    obtain k where "k < length xs - i" "x = xs ! (i + k)"
      using x by (auto simp: in_set_conv_nth)
    then show ?thesis
      using assms(3) sorted_wrt_nth_less [OF assms(1), of i "i + k"] by (cases k) (auto intro: less_trans)
  qed
  moreover have "sorted_wrt (<) (take i xs)" "sorted_wrt (<) (drop i xs)"
    using assms(1) by (simp_all add: sorted_wrt_take sorted_wrt_drop)
  ultimately show "sorted_wrt (<) (take i xs @ blk # drop i xs)"
    by (fastforce simp: sorted_wrt_append)
  show "set (take i xs @ blk # drop i xs) = insert blk (set xs)"
    using set_append [of "take i xs" "drop i xs"] by auto
qed

text \<open>What an addition does to the entries: nothing, or an insertion at place \<open>i\<close>.\<close>

lemma bb_array_insert:
  assumes "length xs = sz" "num < sz" "i < num"
  shows "take (num + 1) ((bb_shift i num xs)[i := blk]) = take i xs @ blk # slice i (num - i) xs"
    "length ((bb_shift i num xs)[i := blk]) = sz"
proof -
  have eq: "(bb_shift i num xs)[i := blk] = take i xs @ blk # slice i (num - i) xs @ drop (num + 1) xs"
    using assms by (simp add: bb_shift_spec list_update_append)
  show "take (num + 1) ((bb_shift i num xs)[i := blk]) = take i xs @ blk # slice i (num - i) xs"
    using assms unfolding eq by (simp add: take_Cons' Suc_diff_le)
  show "length ((bb_shift i num xs)[i := blk]) = sz"
    using assms unfolding eq by simp
qed

lemma bb_grow_inv:
  assumes "bb_inv bb" "bb_grow mem bb = Some bb'"
  shows "bb_inv bb'" "bb_blocks bb' = bb_blocks bb" "bb_num bb' = bb_num bb" "bb_num bb' < bb_size bb'"
  using assms by (auto simp: bb_grow_def bb_inv_def bb_blocks_def split: if_splits)

lemma bb_append:
  assumes "bb_inv bb" "bb_num bb < bb_size bb" "\<forall>i < bb_num bb. bb_array bb ! i < blk"
  shows "bb_inv (bb\<lparr>bb_array := (bb_array bb)[bb_num bb := blk], bb_num := bb_num bb + 1\<rparr>)"
    "bb_blocks (bb\<lparr>bb_array := (bb_array bb)[bb_num bb := blk], bb_num := bb_num bb + 1\<rparr>) = bb_blocks bb @ [blk]"
proof -
  have "length (bb_array bb) = bb_size bb"
    using assms(1) by (simp add: bb_inv_def)
  then show eq: "bb_blocks (bb\<lparr>bb_array := (bb_array bb)[bb_num bb := blk], bb_num := bb_num bb + 1\<rparr>) = bb_blocks bb @ [blk]"
    using assms(2) by (simp add: bb_blocks_def take_Suc_conv_app_nth)
  have "\<forall>x \<in> set (bb_blocks bb). x < blk"
    using assms(1,3) by (auto simp: bb_blocks_iff)
  then show "bb_inv (bb\<lparr>bb_array := (bb_array bb)[bb_num bb := blk], bb_num := bb_num bb + 1\<rparr>)"
    using assms(1,2) unfolding bb_inv_def eq by (simp add: sorted_wrt_append)
qed

lemma bb_insert:
  assumes "bb_inv bb" "bb_num bb < bb_size bb" "i < bb_num bb" "blk < bb_array bb ! i" "\<forall>k < i. bb_array bb ! k < blk"
  defines "bb' \<equiv> bb\<lparr>bb_array := (bb_shift i (bb_num bb) (bb_array bb))[i := blk], bb_num := bb_num bb + 1\<rparr>"
  shows "bb_inv bb'" "set (bb_blocks bb') = insert blk (set (bb_blocks bb))"
proof -
  let ?xs = "bb_blocks bb"
  have len: "length (bb_array bb) = bb_size bb" "length ?xs = bb_num bb" "sorted_wrt (<) ?xs"
    using assms(1) length_bb_blocks [OF assms(1)] by (simp_all add: bb_inv_def)
  have eq: "bb_blocks bb' = take i ?xs @ blk # drop i ?xs"
    using bb_array_insert(1) [OF len(1) assms(2,3)] assms(3) by (simp add: bb'_def bb_blocks_def slice_def drop_take)
  have ins: "i < length ?xs" "blk < ?xs ! i" "\<And>k. k < i \<Longrightarrow> ?xs ! k < blk"
    using assms(3-5) len(2) by (simp_all add: bb_blocks_nth [OF assms(1)])
  then show "bb_inv bb'"
    using sorted_insert(1) [OF len(3) ins] bb_array_insert(2) [OF len(1) assms(2,3)] assms(2)
    unfolding bb_inv_def eq by (simp add: bb'_def)
  show "set (bb_blocks bb') = insert blk (set ?xs)"
    unfolding eq by (rule sorted_insert(2) [OF len(3) ins])
qed

text \<open>
  Adding a block to the list. It fails only when no memory is left, and then changes nothing; otherwise
  the entries stay sorted without duplicates and the block is one of them.
\<close>

lemma bb_u64_list_add_spec:
  assumes "bb_inv bb"
  shows "case bb_u64_list_add mem bb blk of (ok, bb') \<Rightarrow> bb_inv bb' \<and> (ok \<longleftrightarrow> bb_grow mem bb \<noteq> None) \<and>
    set (bb_blocks bb') = (if ok then insert blk (set (bb_blocks bb)) else set (bb_blocks bb))"
proof (cases "bb_grow mem bb")
  case None
  then show ?thesis using assms by (simp add: bb_u64_list_add_def)
next
  case (Some g)
  note g = bb_grow_inv [OF assms Some]
  let ?n = "bb_num g" and ?xs = "bb_array g"
  note code = bb_u64_list_add_def [of mem bb blk, unfolded Some option.case Let_def]
  consider "?n \<noteq> 0" "?xs ! (?n - 1) = blk" | "?n = 0 \<or> ?xs ! (?n - 1) < blk" | "?n \<noteq> 0" "blk < ?xs ! (?n - 1)"
    by linarith
  then show ?thesis
  proof cases
    case 1
    then have "blk \<in> set (bb_blocks g)"
      using g(1) by (auto simp: bb_blocks_iff intro: exI [of _ "?n - 1"])
    then show ?thesis
      using 1 g Some by (auto simp: code insert_absorb)
  next
    case 2
    have "?xs ! i < blk" if "i < ?n" for i
    proof -
      have "i = ?n - 1 \<or> i < ?n - 1"
        using that by linarith
      then show ?thesis
        using bb_sorted [OF g(1), of i "?n - 1"] that 2 by auto
    qed
    then show ?thesis
      using 2 bb_append [OF g(1,4)] g Some by (auto simp: code)
  next
    case 3
    then have "\<exists>i < ?n. ?xs ! i \<ge> blk"
      by (intro exI [of _ "?n - 1"]) auto
    then obtain i where i: "List.find (\<lambda>i. ?xs ! i \<ge> blk) [0..<?n] = Some i" "i < ?n" "?xs ! i \<ge> blk" "\<forall>k < i. ?xs ! k < blk"
      by (cases "List.find (\<lambda>i. ?xs ! i \<ge> blk) [0..<?n]") (auto simp: find_None_iff find_Some_iff not_le)
    show ?thesis
    proof (cases "?xs ! i = blk")
      case True
      then have "blk \<in> set (bb_blocks g)"
        using g(1) i(2) by (auto simp: bb_blocks_iff)
      then show ?thesis
        using 3 True i(1) g Some by (auto simp: code insert_absorb)
    next
      case False
      then show ?thesis
        using 3 i(1) bb_insert [OF g(1,4) i(2) _ i(4)] i(3) g Some by (auto simp: code)
    qed
  qed
qed

section \<open>The interface\<close>

text \<open>
  What the block test needs of the list: a set of blocks with a membership test and an insertion that may
  run out of memory. \<open>note_block\<close> is the use that the test makes of it: a block that is not yet known is added,
  and the result says whether it was.
\<close>

locale block_set =
  fixes ok :: "'s \<Rightarrow> bool"
    and elems :: "'s \<Rightarrow> nat list"
    and member :: "'s \<Rightarrow> nat \<Rightarrow> bool"
    and add :: "'s \<Rightarrow> nat \<Rightarrow> bool \<times> 's"
  assumes elems_sorted: "ok s \<Longrightarrow> sorted_wrt (<) (elems s)"
    and member_iff: "ok s \<Longrightarrow> member s b \<longleftrightarrow> b \<in> set (elems s)"
    and add_spec: "ok s \<Longrightarrow> add s b = (r, s') \<Longrightarrow> ok s' \<and> set (elems s') = (if r then insert b (set (elems s)) else set (elems s))"
begin

definition note_block :: "'s \<Rightarrow> nat \<Rightarrow> bool \<times> 's" where
  "note_block s b = (if member s b then (False, s) else add s b)"

lemma note_block_ok:
  assumes "ok s" "note_block s b = (r, s')"
  shows "ok s'" "set (elems s') = (if r then insert b (set (elems s)) else set (elems s))"
    "length (elems s') = length (elems s) + (if r then 1 else 0)" "r \<Longrightarrow> b \<notin> set (elems s)"
proof -
  have s': "ok s' \<and> set (elems s') = (if r then insert b (set (elems s)) else set (elems s)) \<and> (r \<longrightarrow> b \<notin> set (elems s))"
    using assms add_spec [OF assms(1)] member_iff [OF assms(1)] by (auto simp: note_block_def split: if_splits)
  then show "ok s'" "set (elems s') = (if r then insert b (set (elems s)) else set (elems s))" "r \<Longrightarrow> b \<notin> set (elems s)"
    by simp_all
  have "length (elems t) = card (set (elems t))" if "ok t" for t
    using strict_sorted_imp_sorted elems_sorted [OF that] by (metis distinct_card strict_sorted_iff)
  then show "length (elems s') = length (elems s) + (if r then 1 else 0)"
    using s' assms(1) by simp
qed

end

interpretation bb: block_set bb_inv bb_blocks bb_u64_list_test "bb_u64_list_add mem" for mem
proof
  fix bb b r bb' assume "bb_inv bb" "bb_u64_list_add mem bb b = (r, bb')"
  then show "bb_inv bb' \<and> set (bb_blocks bb') = (if r then insert b (set (bb_blocks bb)) else set (bb_blocks bb))"
    using bb_u64_list_add_spec [of bb mem b] by simp
qed (simp_all add: bb_inv_def bb_u64_list_test_iff)

lemma make_u64_list_ok: "make_u64_list mem n = Some bb \<Longrightarrow> bb_inv bb \<and> bb_blocks bb = []"
  by (auto simp: make_u64_list_def bb_inv_def bb_blocks_def Let_def split: if_splits)

fun bb_add_all :: "(nat \<Rightarrow> bool) \<Rightarrow> nat list \<Rightarrow> bb_struct_u64_list \<Rightarrow> nat set \<times> bb_struct_u64_list" where
  "bb_add_all mem [] bb = ({}, bb)"
| "bb_add_all mem (b # bs) bb =
     (case bb_u64_list_add mem bb b of
        (ok, bb) \<Rightarrow> (case bb_add_all mem bs bb of (added, bb) \<Rightarrow> (if ok then insert b added else added, bb)))"

lemma bb_add_all_spec:
  "bb_inv bb \<Longrightarrow> bb_add_all mem bs bb = (added, bb') \<Longrightarrow> bb_inv bb' \<and> set (bb_blocks bb') = set (bb_blocks bb) \<union> added"
proof (induction bs arbitrary: bb added)
  case (Cons b bs)
  obtain ok bb1 where 1: "bb_u64_list_add mem bb b = (ok, bb1)" by fastforce
  obtain added' bb2 where 2: "bb_add_all mem bs bb1 = (added', bb2)" by fastforce
  show ?case
    using Cons.prems 1 2 bb.add_spec [OF Cons.prems(1) 1] Cons.IH [of bb1 added'] by (auto split: if_splits)
qed simp

text \<open>
  The bad block list implements a set of blocks. After any sequence of \<^verbatim>\<open>bb_u64_list_add\<close> calls on a new list the array is
  sorted without duplicates and holds exactly the blocks whose addition succeeded; \<^verbatim>\<open>bb_u64_list_find\<close> returns the
  index of each of them, and -1 for every other block.
\<close>

theorem bad_block_list_correct:
  assumes "make_u64_list mem n = Some bb" "bb_add_all mem bs bb = (added, bb')"
  shows "bb_num bb' \<le> length (bb_array bb') \<and> take (bb_num bb') (bb_array bb') = sorted_list_of_set added \<and>
    (\<forall>blk. (if blk \<in> added then \<exists>i < bb_num bb'. bb_u64_list_find bb' blk = int i \<and> bb_array bb' ! i = blk
            else bb_u64_list_find bb' blk = - 1))"
proof -
  have inv: "bb_inv bb'" and added: "set (bb_blocks bb') = added"
    using bb_add_all_spec [OF _ assms(2)] make_u64_list_ok [OF assms(1)] by auto
  have "sorted_list_of_set added = bb_blocks bb'"
    using bb.elems_sorted [OF inv] added by (metis sorted_list_of_set.idem_if_sorted_distinct strict_sorted_iff)
  moreover have "if blk \<in> added then \<exists>i < bb_num bb'. bb_u64_list_find bb' blk = int i \<and> bb_array bb' ! i = blk
      else bb_u64_list_find bb' blk = - 1" for blk
    using bb_u64_list_find_Some [OF inv, of _ blk] bb_u64_list_find_None [OF inv, of blk] bb_blocks_iff [OF inv, of blk] added
    by auto
  ultimately show ?thesis
    using inv by (simp add: bb_inv_def bb_blocks_def)
qed

theorem bad_block_list_correct_witness:
  "\<exists>bb'. bb_add_all (\<lambda>_. True) [7, 3, 7, 5] \<lparr>bb_num = 0, bb_size = 2, bb_array = [0, 0]\<rparr> = ({3, 5, 7}, bb') \<and>
     take (bb_num bb') (bb_array bb') = sorted_list_of_set {3, 5, 7}"
proof -
  let ?bb = "\<lparr>bb_num = 3, bb_size = 102, bb_array = [3, 5, 7] @ replicate 99 0\<rparr>"
  have make: "make_u64_list (\<lambda>_. True) 2 = Some \<lparr>bb_num = 0, bb_size = 2, bb_array = [0, 0]\<rparr>"
    by code_simp
  have add: "bb_add_all (\<lambda>_. True) [7, 3, 7, 5] \<lparr>bb_num = 0, bb_size = 2, bb_array = [0, 0]\<rparr> = ({3, 5, 7}, ?bb)"
    by code_simp
  show ?thesis
    using bad_block_list_correct [OF make add] add by (intro exI [of _ ?bb] conjI) (assumption, elim conjE)
qed

end
