(* ===== verification/Bad_Blocks.thy ===== *)
theory Bad_Blocks
  imports Bad_Block_List "HOL-Library.While_Combinator"
begin

text \<open>
  The bad block test of \<^verbatim>\<open>src/badblocks.c\<close>: patterns are written to a drive and read back. What \<^verbatim>\<open>write_sectors\<close> and
  \<^verbatim>\<open>read_sectors\<close> do on the drive under test is an argument, so that the drive may fail in any way; so are
  allocation and \<^verbatim>\<open>rand\<close>. The model is that of the Linux build: there is no timer that could set \<^verbatim>\<open>cancel_ops\<close>
  from outside. \<^verbatim>\<open>bb_iter\<close> is never set by the program, so the iteration over the list is left out.
\<close>

section \<open>The code\<close>

datatype error_types = READ_ERROR | WRITE_ERROR | CORRUPTION_ERROR

text \<open>
  What stays the same during a test. \<open>te_mem\<close> says whether memory can be allocated, for a list of that many blocks or a buffer of that many bytes.
\<close>

record 'd test_env =
  te_write :: "nat \<Rightarrow> nat \<Rightarrow> bytes \<Rightarrow> 'd \<Rightarrow> int \<times> 'd"
  te_read :: "nat \<Rightarrow> nat \<Rightarrow> 'd \<Rightarrow> int \<times> bytes \<times> 'd"
  te_mem :: "nat \<Rightarrow> bool"
  te_random :: "nat \<Rightarrow> byte"
  last_block :: nat
  block_size :: nat
  first_block :: nat
  blocks_at_once :: nat
  detect_fakes :: bool
  id_offset :: nat

text \<open>The variables. \<open>None\<close> is \<^verbatim>\<open>~0\<close> in \<^verbatim>\<open>recover_block\<close>; \<open>stopped\<close> is \<^verbatim>\<open>goto out\<close>.\<close>

record 'd test_state =
  ts_dev :: 'd
  bb_list :: bb_struct_u64_list
  num_read_errors :: nat
  num_write_errors :: nat
  num_corruption_errors :: nat
  bb_count :: nat
  currently_testing :: nat
  tryout :: nat
  recover_block :: "nat option"
  buffer :: bytes
  read_buffer :: bytes
  cancel_ops :: bool
  stopped :: bool

definition max_bb :: nat where "max_bb = 256"

definition PB :: int where "PB = 1125899906842624"

subsection \<open>Reporting\<close>

text \<open>\<^verbatim>\<open>bb_output\<close>: the returned number and the new state.\<close>

definition bb_output :: "'d test_env \<Rightarrow> nat \<Rightarrow> error_types \<Rightarrow> 'd test_state \<Rightarrow> nat \<times> 'd test_state" where
  "bb_output env bad error_type st =
     (if bb_u64_list_test (bb_list st) bad then (0, st)
      else (case bb_u64_list_add (te_mem env) (bb_list st) bad of
              (False, bb) \<Rightarrow> (0, st\<lparr>bb_list := bb\<rparr>)
            | (True, bb) \<Rightarrow>
                (1, (case error_type of
                       READ_ERROR \<Rightarrow> st\<lparr>bb_list := bb, num_read_errors := num_read_errors st + 1\<rparr>
                     | WRITE_ERROR \<Rightarrow> st\<lparr>bb_list := bb, num_write_errors := num_write_errors st + 1\<rparr>
                     | CORRUPTION_ERROR \<Rightarrow> st\<lparr>bb_list := bb, num_corruption_errors := num_corruption_errors st + 1\<rparr>))))"

text \<open>\<^verbatim>\<open>bb_count += bb_output(bad, error_type)\<close>\<close>

definition count_bad :: "'d test_env \<Rightarrow> nat \<Rightarrow> error_types \<Rightarrow> 'd test_state \<Rightarrow> 'd test_state" where
  "count_bad env bad error_type st = (case bb_output env bad error_type st of (n, st) \<Rightarrow> st\<lparr>bb_count := bb_count st + n\<rparr>)"

subsection \<open>Patterns\<close>

text \<open>The bytes of a pattern, least significant first: as many as the pattern has.\<close>

fun pattern_bytes :: "nat \<Rightarrow> u32 \<Rightarrow> bytes" where
  "pattern_bytes 0 p = []"
| "pattern_bytes (Suc k) p = (if p = 0 then [] else ucast p # pattern_bytes k (drop_bit 8 p))"

fun fill_loop :: "bytes \<Rightarrow> nat \<Rightarrow> nat \<Rightarrow> nat \<Rightarrow> bytes" where
  "fill_loop bpattern nb i 0 = []"
| "fill_loop bpattern nb i (Suc n) = bpattern ! i # fill_loop bpattern nb (if i = 0 then nb else i - 1) n"

definition pattern_fill :: "(nat \<Rightarrow> byte) \<Rightarrow> u32 \<Rightarrow> nat \<Rightarrow> bytes" where
  "pattern_fill random p n =
     (if p = - 1 then map random [0..<n]
      else let bp = pattern_bytes 4 p; nb = length bp - 1
        in fill_loop (if bp = [] then [0] else bp) nb nb n)"

definition test_patterns :: "u32 list list" where
  "test_patterns = [[0x55, 0x00, 0x00, 0x00], [0x55, 0xaa, 0x00, 0x00], [0x00, 0xff, 0x55, 0xaa],
     [0x00, 0xff, 0x33, 0xcc], [0x00, 0xff, 0x1c71c7, 0xe38e38]]"

text \<open>The block numbers that are put into the buffer on the first pass.\<close>

definition put_ids :: "'d test_env \<Rightarrow> nat \<Rightarrow> bytes \<Rightarrow> bytes" where
  "put_ids env cur buf =
     fold (\<lambda>i. memcpy_to (id_offset env + i * block_size env) (le_bytes 8 (of_nat (cur + i) :: u64))) [0..<blocks_at_once env] buf"

subsection \<open>The two loops\<close>

definition blocks_got :: "'d test_env \<Rightarrow> int \<Rightarrow> nat" where
  "blocks_got env ret = nat ret div block_size env"

text \<open>The start of an iteration: the size of the next access, and the buffer.\<close>

definition next_access :: "'d test_env \<Rightarrow> nat \<Rightarrow> 'd test_state \<Rightarrow> 'd test_state" where
  "next_access env pat_idx st =
     (let st = (if currently_testing st + tryout st > last_block env
                then st\<lparr>tryout := last_block env - currently_testing st\<rparr> else st)
      in if detect_fakes env \<and> pat_idx = 0 then st\<lparr>buffer := put_ids env (currently_testing st) (buffer st)\<rparr> else st)"

text \<open>The end of an access: a single block that failed is reported, and the position and the size of the next
  access are updated.\<close>

definition after_access :: "'d test_env \<Rightarrow> error_types \<Rightarrow> nat \<Rightarrow> 'd test_state \<Rightarrow> 'd test_state" where
  "after_access env error_type got st =
     (let st = (if got = 0 \<and> tryout st = 1
                then count_bad env (currently_testing st) error_type (st\<lparr>currently_testing := currently_testing st + 1\<rparr>) else st);
          st = st\<lparr>currently_testing := currently_testing st + got\<rparr>
      in if got \<noteq> tryout st
         then st\<lparr>tryout := 1, recover_block := (case recover_block st of
                None \<Rightarrow> Some (currently_testing st - got + blocks_at_once env) | Some r \<Rightarrow> Some r)\<rparr>
         else if recover_block st = Some (currently_testing st)
         then st\<lparr>tryout := blocks_at_once env, recover_block := None\<rparr>
         else st)"

definition too_many :: "'d test_state \<Rightarrow> 'd test_state" where
  "too_many st = st\<lparr>cancel_ops := True, stopped := True\<rparr>"

definition write_body :: "'d test_env \<Rightarrow> nat \<Rightarrow> 'd test_state \<Rightarrow> 'd test_state" where
  "write_body env pat_idx st =
     (if bb_count st \<ge> max_bb then too_many st
      else let st = next_access env pat_idx st
        in case te_write env (currently_testing st) (tryout st) (take (tryout st * block_size env) (buffer st)) (ts_dev st) of
             (ret, d) \<Rightarrow> after_access env WRITE_ERROR (blocks_got env ret) (st\<lparr>ts_dev := d\<rparr>))"

fun compare_loop :: "'d test_env \<Rightarrow> nat \<Rightarrow> nat list \<Rightarrow> 'd test_state \<Rightarrow> 'd test_state" where
  "compare_loop env got [] st = st"
| "compare_loop env got (i # is) st =
     (if slice (i * block_size env) (block_size env) (read_buffer st) \<noteq> slice (i * block_size env) (block_size env) (buffer st)
      then if \<not> int (currently_testing st * block_size env) < PB then st\<lparr>stopped := True\<rparr>
        else compare_loop env got is (count_bad env (currently_testing st + i - got) CORRUPTION_ERROR st)
      else compare_loop env got is st)"

definition read_body :: "'d test_env \<Rightarrow> nat \<Rightarrow> 'd test_state \<Rightarrow> 'd test_state" where
  "read_body env pat_idx st =
     (if bb_count st \<ge> max_bb then too_many st
      else let st = next_access env pat_idx st; try = tryout st
        in case te_read env (currently_testing st) try (ts_dev st) of
             (ret, data, d) \<Rightarrow>
               let got = blocks_got env ret;
                   st = after_access env READ_ERROR got (st\<lparr>ts_dev := d, read_buffer := memcpy_to 0 data (read_buffer st)\<rparr>)
               in if got \<noteq> try then st else compare_loop env got [0..<got] st)"

definition rw_loop :: "'d test_env \<Rightarrow> ('d test_state \<Rightarrow> 'd test_state) \<Rightarrow> 'd test_state \<Rightarrow> 'd test_state option" where
  "rw_loop env body st = while_option (\<lambda>st. currently_testing st < last_block env \<and> \<not> stopped st) body st"

definition start_loop :: "'d test_env \<Rightarrow> 'd test_state \<Rightarrow> 'd test_state" where
  "start_loop env st = st\<lparr>currently_testing := first_block env, tryout := blocks_at_once env\<rparr>"

definition test_pass :: "'d test_env \<Rightarrow> u32 \<Rightarrow> nat \<Rightarrow> 'd test_state \<Rightarrow> 'd test_state option" where
  "test_pass env p pat_idx st =
     (if stopped st then Some st
      else let st = st\<lparr>buffer := pattern_fill (te_random env) p (blocks_at_once env * block_size env)\<rparr>
        in case rw_loop env (write_body env pat_idx) (start_loop env st) of
             None \<Rightarrow> None
           | Some st \<Rightarrow> if stopped st then Some st else rw_loop env (read_body env pat_idx) (start_loop env st))"

fun test_passes :: "'d test_env \<Rightarrow> u32 list \<Rightarrow> nat \<Rightarrow> 'd test_state \<Rightarrow> 'd test_state option" where
  "test_passes env [] pat_idx st = Some st"
| "test_passes env (p # ps) pat_idx st =
     (case test_pass env p pat_idx st of None \<Rightarrow> None | Some st \<Rightarrow> test_passes env ps (pat_idx + 1) st)"

text \<open>\<^verbatim>\<open>test_rw\<close>. The buffers that it allocates, if it can, are in the state.\<close>

definition test_rw :: "'d test_env \<Rightarrow> int \<Rightarrow> int \<Rightarrow> 'd test_state \<Rightarrow> 'd test_state option" where
  "test_rw env pattern_type nb_passes st =
     (if pattern_type < 0 \<or> pattern_type \<ge> 5 then Some (st\<lparr>cancel_ops := True\<rparr>)
      else if nb_passes < 1 \<or> nb_passes > 4 then Some (st\<lparr>cancel_ops := True\<rparr>)
      else if int (first_block env * block_size env) > PB \<or> int (last_block env * block_size env) > PB then Some (st\<lparr>cancel_ops := True\<rparr>)
      else if \<not> te_mem env (2 * blocks_at_once env * block_size env) then Some (st\<lparr>cancel_ops := True\<rparr>)
      else test_passes env (take (nat nb_passes) (test_patterns ! nat pattern_type)) 0 st)"

definition BADBLOCK_BLOCK_SIZE :: nat where "BADBLOCK_BLOCK_SIZE = 512 * 1024"

definition BB_BLOCKS_AT_ONCE :: nat where "BB_BLOCKS_AT_ONCE = 64"

record badblocks_report =
  rep_bb_count :: nat
  rep_read_errors :: nat
  rep_write_errors :: nat
  rep_corruption_errors :: nat

text \<open>
  \<^verbatim>\<open>BadBlocks\<close> on a drive: \<open>rnd\<close> is what \<^verbatim>\<open>rand\<close> returned for the offset of the block numbers, \<open>buf\<close> is the buffer as it was
  allocated. The outer \<open>None\<close> is a test that does not end.
\<close>

definition initial_state :: "bb_struct_u64_list \<Rightarrow> bytes \<Rightarrow> 'd \<Rightarrow> 'd test_state" where
  "initial_state bb rbuf d =
     \<lparr>ts_dev = d, bb_list = bb, num_read_errors = 0, num_write_errors = 0, num_corruption_errors = 0, bb_count = 0,
      currently_testing = 0, tryout = 0, recover_block = None, buffer = [], read_buffer = rbuf, cancel_ops = False, stopped = False\<rparr>"

definition BadBlocks ::
    "(nat \<Rightarrow> nat \<Rightarrow> bytes \<Rightarrow> 'd \<Rightarrow> int \<times> 'd) \<Rightarrow> (nat \<Rightarrow> nat \<Rightarrow> 'd \<Rightarrow> int \<times> bytes \<times> 'd) \<Rightarrow> (nat \<Rightarrow> bool) \<Rightarrow> (nat \<Rightarrow> byte) \<Rightarrow>
     bool \<Rightarrow> nat \<Rightarrow> nat \<Rightarrow> bytes \<Rightarrow> nat \<Rightarrow> int \<Rightarrow> int \<Rightarrow> 'd \<Rightarrow> (bool \<times> badblocks_report \<times> 'd) option" where
  "BadBlocks wr rd mem random fakes rnd rand_max rbuf disk_size nb_passes flash_type d =
     (let env = \<lparr>te_write = wr, te_read = rd, te_mem = mem, te_random = random, last_block = disk_size div BADBLOCK_BLOCK_SIZE,
            block_size = BADBLOCK_BLOCK_SIZE, first_block = 0, blocks_at_once = BB_BLOCKS_AT_ONCE, detect_fakes = fakes,
            id_offset = rnd * (BADBLOCK_BLOCK_SIZE - 8) div rand_max\<rparr>
      in case make_u64_list mem 0 of
           None \<Rightarrow> Some (False, \<lparr>rep_bb_count = 0, rep_read_errors = 0, rep_write_errors = 0, rep_corruption_errors = 0\<rparr>, d)
         | Some bb \<Rightarrow>
             (case test_rw env flash_type nb_passes (initial_state bb rbuf d) of
                None \<Rightarrow> None
              | Some st \<Rightarrow>
                  Some (\<not> (cancel_ops st \<and> bb_count st = 0),
                    \<lparr>rep_bb_count = bb_count st, rep_read_errors = num_read_errors st,
                     rep_write_errors = num_write_errors st, rep_corruption_errors = num_corruption_errors st\<rparr>, ts_dev st)))"

section \<open>Every drive\<close>

text \<open>The list and the counters agree, and only blocks of the tested range are reported.\<close>

definition report_inv :: "'d test_env \<Rightarrow> 'd test_state \<Rightarrow> bool" where
  "report_inv env st \<longleftrightarrow> bb_inv (bb_list st) \<and> bb_count st = length (bb_blocks (bb_list st)) \<and>
     bb_count st = num_read_errors st + num_write_errors st + num_corruption_errors st \<and>
     (\<forall>b \<in> set (bb_blocks (bb_list st)). first_block env \<le> b \<and> b < last_block env)"

definition reported :: "'d test_state \<Rightarrow> nat set" where
  "reported st = set (bb_blocks (bb_list st))"

lemma bb_output_note:
  "bb_output env bad e st = (case bb.note_block (te_mem env) (bb_list st) bad of
     (False, bb) \<Rightarrow> (0, st\<lparr>bb_list := bb\<rparr>)
   | (True, bb) \<Rightarrow> (1, (case e of
       READ_ERROR \<Rightarrow> st\<lparr>bb_list := bb, num_read_errors := num_read_errors st + 1\<rparr>
     | WRITE_ERROR \<Rightarrow> st\<lparr>bb_list := bb, num_write_errors := num_write_errors st + 1\<rparr>
     | CORRUPTION_ERROR \<Rightarrow> st\<lparr>bb_list := bb, num_corruption_errors := num_corruption_errors st + 1\<rparr>)))"
  by (auto simp: bb_output_def bb.note_block_def split: prod.splits bool.splits)

lemma count_bad_frame [frame_simps]:
  "ts_dev (count_bad env b e st) = ts_dev st" "currently_testing (count_bad env b e st) = currently_testing st"
  "tryout (count_bad env b e st) = tryout st" "recover_block (count_bad env b e st) = recover_block st"
  "buffer (count_bad env b e st) = buffer st" "read_buffer (count_bad env b e st) = read_buffer st"
  "cancel_ops (count_bad env b e st) = cancel_ops st" "stopped (count_bad env b e st) = stopped st"
  by (auto simp: count_bad_def bb_output_note split: prod.splits bool.splits error_types.splits)

lemma count_bad_inv:
  assumes "report_inv env st" "first_block env \<le> b" "b < last_block env"
  shows "report_inv env (count_bad env b e st)" "bb_count (count_bad env b e st) \<le> bb_count st + 1"
    "reported st \<subseteq> reported (count_bad env b e st)" "reported (count_bad env b e st) \<subseteq> insert b (reported st)"
proof -
  obtain r bb where n: "bb.note_block (te_mem env) (bb_list st) b = (r, bb)" by fastforce
  note noted = bb.note_block_ok [OF _ n]
  have "bb_inv (bb_list st)" using assms(1) by (simp add: report_inv_def)
  then have "report_inv env (count_bad env b e st) \<and> bb_count (count_bad env b e st) \<le> bb_count st + 1 \<and>
      reported st \<subseteq> reported (count_bad env b e st) \<and> reported (count_bad env b e st) \<subseteq> insert b (reported st)"
    using assms noted n by (cases r; cases e) (auto simp: count_bad_def bb_output_note report_inv_def reported_def)
  then show "report_inv env (count_bad env b e st)" "bb_count (count_bad env b e st) \<le> bb_count st + 1"
    "reported st \<subseteq> reported (count_bad env b e st)" "reported (count_bad env b e st) \<subseteq> insert b (reported st)"
    by blast+
qed

lemma compare_loop_frame [frame_simps]:
  "ts_dev (compare_loop env got is st) = ts_dev st" "currently_testing (compare_loop env got is st) = currently_testing st"
  "tryout (compare_loop env got is st) = tryout st" "recover_block (compare_loop env got is st) = recover_block st"
  "buffer (compare_loop env got is st) = buffer st" "read_buffer (compare_loop env got is st) = read_buffer st"
  "cancel_ops (compare_loop env got is st) = cancel_ops st"
  by (induction env got "is" st rule: compare_loop.induct) (simp_all add: frame_simps)

lemma compare_loop_inv:
  assumes "report_inv env st" "\<forall>i \<in> set is. i < got" "first_block env + got \<le> currently_testing st"
    "currently_testing st \<le> last_block env"
  shows "report_inv env (compare_loop env got is st) \<and> bb_count (compare_loop env got is st) \<le> bb_count st + length is"
  using assms
proof (induction env got "is" st rule: compare_loop.induct)
  case (2 env got i "is" st)
  have "report_inv env (count_bad env (currently_testing st + i - got) CORRUPTION_ERROR st)"
    "bb_count (count_bad env (currently_testing st + i - got) CORRUPTION_ERROR st) \<le> bb_count st + 1"
    using count_bad_inv [of env st "currently_testing st + i - got" CORRUPTION_ERROR] "2.prems" by auto
  moreover have "report_inv env (st\<lparr>stopped := True\<rparr>)"
    using "2.prems"(1) by (simp add: report_inv_def)
  ultimately show ?case
    using 2 by (auto simp: frame_simps)
qed simp

text \<open>One access, whatever the drive answers: what is reported, and that the test makes progress.\<close>

definition loop_inv :: "'d test_env \<Rightarrow> 'd test_state \<Rightarrow> bool" where
  "loop_inv env st \<longleftrightarrow> report_inv env st \<and> 0 < tryout st \<and> tryout st \<le> blocks_at_once env \<and>
     first_block env \<le> currently_testing st \<and> bb_count st < max_bb + blocks_at_once env"

definition loop_measure :: "'d test_env \<Rightarrow> 'd test_state \<Rightarrow> nat" where
  "loop_measure env st = (if stopped st then 0
     else 1 + (last_block env - currently_testing st) * (blocks_at_once env + 1) + tryout st)"

lemma next_access_simps [frame_simps]:
  "ts_dev (next_access env k st) = ts_dev st" "bb_list (next_access env k st) = bb_list st"
  "num_read_errors (next_access env k st) = num_read_errors st" "num_write_errors (next_access env k st) = num_write_errors st"
  "num_corruption_errors (next_access env k st) = num_corruption_errors st" "bb_count (next_access env k st) = bb_count st"
  "currently_testing (next_access env k st) = currently_testing st"
  "tryout (next_access env k st) = min (tryout st) (last_block env - currently_testing st)"
  "recover_block (next_access env k st) = recover_block st" "read_buffer (next_access env k st) = read_buffer st"
  "cancel_ops (next_access env k st) = cancel_ops st" "stopped (next_access env k st) = stopped st"
  by (auto simp: next_access_def Let_def)

lemma after_access_frame [frame_simps]:
  "ts_dev (after_access env e got st) = ts_dev st" "buffer (after_access env e got st) = buffer st"
  "read_buffer (after_access env e got st) = read_buffer st" "cancel_ops (after_access env e got st) = cancel_ops st"
  "stopped (after_access env e got st) = stopped st"
  by (auto simp: after_access_def Let_def frame_simps)

lemma after_access_position [frame_simps]:
  "currently_testing (after_access env e got st) = currently_testing st + (if got = 0 \<and> tryout st = 1 then 1 else got)"
  "tryout (after_access env e got st) =
     (if got \<noteq> tryout st then 1 else if recover_block st = Some (currently_testing st + got) then blocks_at_once env else tryout st)"
  by (auto simp: after_access_def Let_def frame_simps)

lemma after_access_report:
  "bb_list (after_access env e got st) = (if got = 0 \<and> tryout st = 1 then bb_list (count_bad env (currently_testing st) e st) else bb_list st)"
  "bb_count (after_access env e got st) = (if got = 0 \<and> tryout st = 1 then bb_count (count_bad env (currently_testing st) e st) else bb_count st)"
  "report_inv env st \<Longrightarrow> first_block env \<le> currently_testing st \<Longrightarrow> currently_testing st < last_block env \<Longrightarrow>
   report_inv env (after_access env e got st)"
proof -
  have move: "count_bad env b e (st\<lparr>currently_testing := x\<rparr>) = (count_bad env b e st)\<lparr>currently_testing := x\<rparr>" for b x
    by (auto simp: count_bad_def bb_output_note split: prod.splits bool.splits error_types.splits)
  show "bb_list (after_access env e got st) = (if got = 0 \<and> tryout st = 1 then bb_list (count_bad env (currently_testing st) e st) else bb_list st)"
    "bb_count (after_access env e got st) = (if got = 0 \<and> tryout st = 1 then bb_count (count_bad env (currently_testing st) e st) else bb_count st)"
    by (auto simp: after_access_def Let_def move frame_simps)
  assume "report_inv env st" "first_block env \<le> currently_testing st" "currently_testing st < last_block env"
  then have "report_inv env (count_bad env (currently_testing st) e st)"
    by (rule count_bad_inv)
  then show "report_inv env (after_access env e got st)"
    using \<open>report_inv env st\<close> by (auto simp: after_access_def Let_def move frame_simps report_inv_def)
qed

lemma progress_measure:
  fixes L :: nat
  assumes "c < c'" "c < L" "t' \<le> B"
  shows "(L - c') * (B + 1) + t' < (L - c) * (B + 1)"
proof -
  have "(L - c') * (B + 1) + (B + 1) \<le> (L - c) * (B + 1)"
    using assms(1,2) mult_le_mono1 [of "L - c' + 1" "L - c" "B + 1"] by (simp add: algebra_simps)
  then show ?thesis
    using assms(3) by linarith
qed

lemma after_access_inv:
  assumes "loop_inv env st" "currently_testing st < last_block env" "\<not> stopped st" "bb_count st < max_bb"
    "tryout st \<le> tryout st0" "currently_testing st0 = currently_testing st" "\<not> stopped st0" "st' = after_access env e got st"
  shows "loop_inv env st'" "loop_measure env st' < loop_measure env st0"
    "got = tryout st \<Longrightarrow> currently_testing st' = currently_testing st + got \<and> bb_count st' = bb_count st"
proof -
  note l = assms(1) [unfolded loop_inv_def]
  have "bb_count st' \<le> bb_count st + 1"
    using l count_bad_inv(2) [of env st "currently_testing st" e] assms(2) by (simp add: assms(8) after_access_report)
  then show "loop_inv env st'"
    using l after_access_report(3) [of env st e got] assms(2,4)
    by (auto simp: loop_inv_def assms(8) frame_simps)
  show "got = tryout st \<Longrightarrow> currently_testing st' = currently_testing st + got \<and> bb_count st' = bb_count st"
    using l by (simp add: assms(8) frame_simps after_access_report)
  have t: "tryout st' \<le> blocks_at_once env"
    using l by (auto simp: assms(8) frame_simps)
  show "loop_measure env st' < loop_measure env st0"
  proof (cases "got = 0 \<and> tryout st \<noteq> 1")
    case True
    then have "currently_testing st' = currently_testing st" "tryout st' = 1" "1 < tryout st"
      using l by (auto simp: assms(8) frame_simps)
    then show ?thesis
      using assms(3,5-7) by (simp add: loop_measure_def assms(8) frame_simps)
  next
    case False
    then have "currently_testing st < currently_testing st'"
      by (auto simp: assms(8) frame_simps)
    then show ?thesis
      using progress_measure [OF _ assms(2) t, of "currently_testing st'"] assms(3,6,7)
      by (simp add: loop_measure_def assms(8) frame_simps)
  qed
qed

text \<open>Both bodies keep the invariant and come closer to the end.\<close>

definition body_ok :: "'d test_env \<Rightarrow> ('d test_state \<Rightarrow> 'd test_state) \<Rightarrow> bool" where
  "body_ok env body \<longleftrightarrow> (\<forall>st. loop_inv env st \<and> currently_testing st < last_block env \<and> \<not> stopped st \<longrightarrow>
     loop_inv env (body st) \<and> loop_measure env (body st) < loop_measure env st)"

lemma too_many_ok:
  assumes "loop_inv env st" "\<not> stopped st"
  shows "loop_inv env (too_many st) \<and> loop_measure env (too_many st) < loop_measure env st"
  using assms by (simp add: too_many_def loop_inv_def loop_measure_def report_inv_def)

lemma loop_inv_next:
  assumes "loop_inv env st" "currently_testing st < last_block env"
  shows "loop_inv env (next_access env k st)"
  using assms by (auto simp: loop_inv_def report_inv_def frame_simps)

lemma loop_inv_dev: "loop_inv env (st\<lparr>ts_dev := d, read_buffer := x\<rparr>) = loop_inv env st" "loop_inv env (st\<lparr>ts_dev := d\<rparr>) = loop_inv env st"
  by (simp_all add: loop_inv_def report_inv_def)

lemma write_body_ok: "body_ok env (write_body env k)"
  unfolding body_ok_def
proof (intro allI impI, elim conjE)
  fix st assume st: "loop_inv env st" "currently_testing st < last_block env" "\<not> stopped st"
  show "loop_inv env (write_body env k st) \<and> loop_measure env (write_body env k st) < loop_measure env st"
  proof (cases "bb_count st \<ge> max_bb")
    case True
    then show ?thesis using too_many_ok [OF st(1,3)] by (simp add: write_body_def)
  next
    case False
    define s1 where "s1 = next_access env k st"
    obtain ret d where io: "te_write env (currently_testing s1) (tryout s1) (take (tryout s1 * block_size env) (buffer s1)) (ts_dev s1) = (ret, d)"
      by fastforce
    define s2 where "s2 = s1\<lparr>ts_dev := d\<rparr>"
    have code: "write_body env k st = after_access env WRITE_ERROR (blocks_got env ret) s2"
      using False io by (simp add: write_body_def s1_def [symmetric] s2_def Let_def)
    have s2: "loop_inv env s2" "currently_testing s2 = currently_testing st" "\<not> stopped s2" "tryout s2 \<le> tryout st" "bb_count s2 = bb_count st"
      using loop_inv_next [OF st(1,2), of k] st(2,3) by (simp_all add: s2_def loop_inv_dev s1_def frame_simps)
    show ?thesis
      using after_access_inv(1,2) [OF s2(1) _ s2(3) _ s2(4) s2(2) [symmetric] st(3) code, unfolded s2(2,5)] st(2) False by simp
  qed
qed

lemma read_body_ok: "body_ok env (read_body env k)"
  unfolding body_ok_def
proof (intro allI impI, elim conjE)
  fix st assume st: "loop_inv env st" "currently_testing st < last_block env" "\<not> stopped st"
  show "loop_inv env (read_body env k st) \<and> loop_measure env (read_body env k st) < loop_measure env st"
  proof (cases "bb_count st \<ge> max_bb")
    case True
    then show ?thesis using too_many_ok [OF st(1,3)] by (simp add: read_body_def)
  next
    case False
    define s1 where "s1 = next_access env k st"
    obtain ret data d where io: "te_read env (currently_testing s1) (tryout s1) (ts_dev s1) = (ret, data, d)"
      by (metis prod_cases3)
    define s2 where "s2 = s1\<lparr>ts_dev := d, read_buffer := memcpy_to 0 data (read_buffer s1)\<rparr>"
    define got where "got = blocks_got env ret"
    define s3 where "s3 = after_access env READ_ERROR got s2"
    have code: "read_body env k st = (if got \<noteq> tryout s1 then s3 else compare_loop env got [0..<got] s3)"
      using False io by (simp add: read_body_def s1_def [symmetric] s2_def [symmetric] s3_def got_def Let_def)
    have s2: "loop_inv env s2" "currently_testing s2 = currently_testing st" "tryout s2 = tryout s1" "\<not> stopped s2"
      "tryout s2 \<le> tryout st" "bb_count s2 = bb_count st" "currently_testing s2 + tryout s2 \<le> last_block env"
      using loop_inv_next [OF st(1,2), of k] st(2,3) by (simp_all add: s2_def loop_inv_dev s1_def frame_simps)
    note s3 = after_access_inv [OF s2(1) _ s2(4) _ s2(5) s2(2) [symmetric] st(3) s3_def, unfolded s2(2,6)]
    have run: "\<not> stopped s3"
      using s2(4) by (simp add: s3_def frame_simps)
    have "loop_inv env (compare_loop env got [0..<got] s3) \<and> loop_measure env (compare_loop env got [0..<got] s3) \<le> loop_measure env s3"
      if "got = tryout s2"
    proof -
      have pos: "currently_testing s3 = currently_testing st + got" "bb_count s3 = bb_count st"
        using s3(3) that st(2) False s2 by simp_all
      have "report_inv env (compare_loop env got [0..<got] s3) \<and> bb_count (compare_loop env got [0..<got] s3) \<le> bb_count s3 + length [0..<got]"
        using s3(1) st(1,2) False s2(2,7) pos that by (intro compare_loop_inv) (auto simp: loop_inv_def)
      then show ?thesis
        using s3(1) st(2) False pos that s2(1) run by (auto simp: loop_inv_def loop_measure_def frame_simps)
    qed
    then show ?thesis
      using s3(1,2) st(2) False s2(3) by (auto simp: code)
  qed
qed

text \<open>A loop with such a body ends, and keeps every property that the body keeps.\<close>

lemma rw_loop_rule:
  assumes "body_ok env body" "loop_inv env st" "Q st"
    and "\<And>st. loop_inv env st \<Longrightarrow> Q st \<Longrightarrow> currently_testing st < last_block env \<Longrightarrow> \<not> stopped st \<Longrightarrow> Q (body st)"
  obtains t where "rw_loop env body st = Some t" "loop_inv env t" "Q t" "stopped t \<or> last_block env \<le> currently_testing t"
proof -
  let ?b = "\<lambda>st. currently_testing st < last_block env \<and> \<not> stopped st"
  have step: "loop_inv env (body s) \<and> loop_measure env (body s) < loop_measure env s" if "loop_inv env s" "?b s" for s
    using assms(1) that by (auto simp: body_ok_def)
  then obtain t where t: "while_option ?b body st = Some t"
    using measure_while_option_Some [of "loop_inv env" ?b body "loop_measure env" st] assms(2) by blast
  have "loop_inv env t \<and> Q t"
    by (rule while_option_rule [where P = "\<lambda>s. loop_inv env s \<and> Q s", OF _ t]) (use step assms in auto)
  moreover have "\<not> ?b t"
    using while_option_stop [OF t] .
  ultimately show thesis
    using that [of t] t by (auto simp: rw_loop_def)
qed

lemma loop_inv_start: "loop_inv env st \<Longrightarrow> loop_inv env (start_loop env st)"
  by (auto simp: loop_inv_def report_inv_def start_loop_def)

text \<open>Between the loops: as \<^const>\<open>loop_inv\<close>, but for the variables that a loop sets first.\<close>

definition run_inv :: "'d test_env \<Rightarrow> 'd test_state \<Rightarrow> bool" where
  "run_inv env st \<longleftrightarrow> report_inv env st \<and> bb_count st < max_bb + blocks_at_once env"

lemma run_inv_start: "run_inv env st \<Longrightarrow> 0 < blocks_at_once env \<Longrightarrow> loop_inv env (start_loop env (st\<lparr>buffer := b\<rparr>))"
  "run_inv env st \<Longrightarrow> 0 < blocks_at_once env \<Longrightarrow> loop_inv env (start_loop env st)"
  by (simp_all add: run_inv_def loop_inv_def report_inv_def start_loop_def)

lemma loop_inv_run: "loop_inv env st \<Longrightarrow> run_inv env st"
  by (simp add: run_inv_def loop_inv_def)

text \<open>
  A pass: its write loop establishes \<open>W\<close> and its read loop \<open>R\<close>, unless the test stops.
\<close>

lemma test_pass_rule:
  assumes "run_inv env st" "0 < blocks_at_once env" "\<not> stopped st"
    and "Q (start_loop env (st\<lparr>buffer := pattern_fill (te_random env) p (blocks_at_once env * block_size env)\<rparr>))"
    and "\<And>st. loop_inv env st \<Longrightarrow> Q st \<Longrightarrow> currently_testing st < last_block env \<Longrightarrow> \<not> stopped st \<Longrightarrow> Q (write_body env k st)"
    and "\<And>st. loop_inv env st \<Longrightarrow> Q st \<Longrightarrow> \<not> stopped st \<Longrightarrow> last_block env \<le> currently_testing st \<Longrightarrow> R (start_loop env st)"
    and "\<And>st. loop_inv env st \<Longrightarrow> R st \<Longrightarrow> currently_testing st < last_block env \<Longrightarrow> \<not> stopped st \<Longrightarrow> R (read_body env k st)"
  obtains t where "test_pass env p k st = Some t" "run_inv env t"
    "stopped t \<and> Q t \<or> R t \<and> (stopped t \<or> last_block env \<le> currently_testing t)"
proof -
  let ?st = "start_loop env (st\<lparr>buffer := pattern_fill (te_random env) p (blocks_at_once env * block_size env)\<rparr>)"
  obtain t where t: "rw_loop env (write_body env k) ?st = Some t" "loop_inv env t" "Q t" "stopped t \<or> last_block env \<le> currently_testing t"
    by (rule rw_loop_rule [of env "write_body env k" ?st Q, OF write_body_ok run_inv_start(1) [OF assms(1,2)] assms(4)]) (use assms(5) in auto)
  show thesis
  proof (cases "stopped t")
    case True
    then show thesis
      using that [of t] t assms(3) loop_inv_run [OF t(2)] by (simp add: test_pass_def)
  next
    case False
    then have "R (start_loop env t)" "loop_inv env (start_loop env t)"
      using assms(6) t loop_inv_start by auto
    then obtain u where "rw_loop env (read_body env k) (start_loop env t) = Some u" "loop_inv env u" "R u"
      "stopped u \<or> last_block env \<le> currently_testing u" "run_inv env u"
      using loop_inv_run rw_loop_rule [OF read_body_ok, of env "start_loop env t" R k] assms(7) by metis
    then show thesis
      using that [of u] t False assms(3) by (simp add: test_pass_def)
  qed
qed

lemma test_passes_run:
  assumes "run_inv env st" "0 < blocks_at_once env"
  shows "\<exists>t. test_passes env ps k st = Some t \<and> run_inv env t"
  using assms(1)
proof (induction ps arbitrary: k st)
  case (Cons p ps)
  have "\<exists>t. test_pass env p k st = Some t \<and> run_inv env t"
  proof (cases "stopped st")
    case True
    then show ?thesis using Cons.prems by (simp add: test_pass_def)
  next
    case False
    then show ?thesis
      using test_pass_rule [OF Cons.prems assms(2) False, of "\<lambda>_. True" p k "\<lambda>_. True"] by metis
  qed
  then show ?case
    using Cons.IH by fastforce
qed simp

lemma initial_run:
  assumes "make_u64_list mem n = Some bb"
  shows "run_inv env (initial_state bb rbuf d)"
  using make_u64_list_ok [OF assms] by (simp add: run_inv_def report_inv_def initial_state_def max_bb_def)

text \<open>
  C14. Whatever the drive does, the test ends. The list of bad blocks is then sorted and without duplicates, it
  holds only blocks of the tested range, the returned number is its length and the sum of the three error
  counters, and it is less than the threshold of 256 plus one access.
\<close>

theorem test_rw_ends:
  assumes "make_u64_list mem n = Some bb" "0 < blocks_at_once env"
  shows "\<exists>st. test_rw env pattern_type nb_passes (initial_state bb rbuf d) = Some st \<and>
    (let blocks = take (bb_num (bb_list st)) (bb_array (bb_list st)) in
     sorted_wrt (<) blocks \<and> (\<forall>b \<in> set blocks. first_block env \<le> b \<and> b < last_block env) \<and> bb_count st = length blocks) \<and>
    bb_count st = num_read_errors st + num_write_errors st + num_corruption_errors st \<and> bb_count st < 256 + blocks_at_once env"
proof -
  have "run_inv env (initial_state bb rbuf d\<lparr>cancel_ops := True\<rparr>)"
    using initial_run [OF assms(1), of env rbuf d] by (simp add: run_inv_def report_inv_def)
  then have "\<exists>st. test_rw env pattern_type nb_passes (initial_state bb rbuf d) = Some st \<and> run_inv env st"
    using test_passes_run [OF initial_run [OF assms(1)] assms(2)] by (auto simp: test_rw_def)
  then obtain st where "test_rw env pattern_type nb_passes (initial_state bb rbuf d) = Some st" "run_inv env st"
    by blast
  then show ?thesis
    by (auto simp: run_inv_def report_inv_def bb_inv_def bb_blocks_def max_bb_def Let_def)
qed

text \<open>A drive that refuses everything.\<close>

definition dead_env :: "unit test_env" where
  "dead_env = \<lparr>te_write = \<lambda>_ _ _ d. (- 1, d), te_read = \<lambda>_ _ d. (- 1, [], d), te_mem = \<lambda>_. True, te_random = \<lambda>_. 0,
     last_block = 3, block_size = 1, first_block = 0, blocks_at_once = 2, detect_fakes = False, id_offset = 0\<rparr>"

theorem test_rw_ends_witness:
  "\<exists>st. test_rw dead_env 0 1 (initial_state \<lparr>bb_num = 0, bb_size = 2, bb_array = [0, 0]\<rparr> [0, 0] ()) = Some st \<and> bb_count st < 256 + 2"
proof -
  have "make_u64_list (\<lambda>_. True) 2 = Some \<lparr>bb_num = 0, bb_size = 2, bb_array = [0, 0]\<rparr>"
    by code_simp
  from test_rw_ends [OF this, of dead_env 0 1 "[0, 0]" "()"] show ?thesis
    by (auto simp: dead_env_def)
qed

section \<open>Blocks that are not compared\<close>

text \<open>
  A read that stops in the middle of an access is not looked at: the blocks that it did deliver are skipped, no matter
  what they hold, because the comparison is only made when all blocks arrived.
\<close>

theorem partial_read_not_compared:
  assumes "bb_count st < max_bb" "s = next_access env k st" "te_read env (currently_testing s) (tryout s) (ts_dev s) = (ret, data, d)"
    "0 < blocks_got env ret" "blocks_got env ret < tryout s"
  shows "bb_list (read_body env k st) = bb_list st \<and> bb_count (read_body env k st) = bb_count st \<and>
    currently_testing (read_body env k st) = currently_testing st + blocks_got env ret"
proof -
  have code: "read_body env k st = after_access env READ_ERROR (blocks_got env ret) (s\<lparr>ts_dev := d, read_buffer := memcpy_to 0 data (read_buffer s)\<rparr>)"
    using assms by (simp add: read_body_def Let_def)
  show ?thesis
    unfolding code using assms(2,4) by (simp add: after_access_report frame_simps)
qed

text \<open>A drive of two blocks. Block 0 always reads as zero and block 1 cannot be read.\<close>

definition corrupt_env :: "unit test_env" where
  "corrupt_env = dead_env\<lparr>te_write := \<lambda>_ n _ d. (int n, d), te_read := \<lambda>b n d. (if b = 0 then 1 else - 1, [0], d), last_block := 2\<rparr>"

theorem partial_read_not_compared_witness:
  "map_option (\<lambda>st. take (bb_num (bb_list st)) (bb_array (bb_list st)))
     (test_rw corrupt_env 0 1 (initial_state \<lparr>bb_num = 0, bb_size = 2, bb_array = [0, 0]\<rparr> [0, 0] ())) = Some [1] \<and>
   (let st = start_loop corrupt_env (initial_state \<lparr>bb_num = 0, bb_size = 2, bb_array = [0, 0]\<rparr> [0, 0] ()) in
    currently_testing (read_body corrupt_env 0 st) = 1 \<and> bb_count (read_body corrupt_env 0 st) = 0)"
proof
  show "map_option (\<lambda>st. take (bb_num (bb_list st)) (bb_array (bb_list st)))
     (test_rw corrupt_env 0 1 (initial_state \<lparr>bb_num = 0, bb_size = 2, bb_array = [0, 0]\<rparr> [0, 0] ())) = Some [1]"
    by code_simp
  show "let st = start_loop corrupt_env (initial_state \<lparr>bb_num = 0, bb_size = 2, bb_array = [0, 0]\<rparr> [0, 0] ()) in
    currently_testing (read_body corrupt_env 0 st) = 1 \<and> bb_count (read_body corrupt_env 0 st) = 0"
    using partial_read_not_compared [of "start_loop corrupt_env (initial_state \<lparr>bb_num = 0, bb_size = 2, bb_array = [0, 0]\<rparr> [0, 0] ())"
      _ corrupt_env 0 1 "[0]" "()"]
    by (simp add: start_loop_def initial_state_def corrupt_env_def dead_env_def max_bb_def next_access_def blocks_got_def)
qed

end
