(* ===== verification/Bad_Blocks_Media.thy ===== *)
theory Bad_Blocks_Media
  imports Bad_Blocks
begin

text \<open>
  The bad block test on a model of the medium: which blocks of a drive with unreadable or unwritable blocks are
  reported, that a drive which stores several blocks in the same place is found out, and a case in which good
  blocks are reported.
\<close>

section \<open>The medium\<close>

text \<open>
  Block \<open>b\<close> is stored in \<open>place b\<close>; blocks in \<open>wbad\<close> and \<open>rbad\<close> cannot be written and read. An access stops at the first such block.
\<close>

definition good_run :: "(nat \<Rightarrow> bool) \<Rightarrow> nat \<Rightarrow> nat \<Rightarrow> nat" where
  "good_run bad start n = length (takeWhile (\<lambda>b. \<not> bad b) [start..<start + n])"

definition media_write :: "nat \<Rightarrow> (nat \<Rightarrow> nat) \<Rightarrow> (nat \<Rightarrow> bool) \<Rightarrow> nat \<Rightarrow> nat \<Rightarrow> bytes \<Rightarrow> (nat \<Rightarrow> bytes) \<Rightarrow> int \<times> (nat \<Rightarrow> bytes)" where
  "media_write bs place wbad start n buf d =
     (let k = good_run wbad start n
      in (int (k * bs), fold (\<lambda>i d. d(place (start + i) := slice (i * bs) bs buf)) [0..<k] d))"

definition media_read :: "nat \<Rightarrow> (nat \<Rightarrow> nat) \<Rightarrow> (nat \<Rightarrow> bool) \<Rightarrow> nat \<Rightarrow> nat \<Rightarrow> (nat \<Rightarrow> bytes) \<Rightarrow> int \<times> bytes \<times> (nat \<Rightarrow> bytes)" where
  "media_read bs place rbad start n d =
     (let k = good_run rbad start n in (int (k * bs), concat (map (\<lambda>i. d (place (start + i))) [0..<k]), d))"

definition media_env :: "(nat \<Rightarrow> nat) \<Rightarrow> (nat \<Rightarrow> bool) \<Rightarrow> (nat \<Rightarrow> bool) \<Rightarrow> (nat \<Rightarrow> bytes) test_env \<Rightarrow> bool" where
  "media_env place wbad rbad env \<longleftrightarrow>
     te_write env = media_write (block_size env) place wbad \<and> te_read env = media_read (block_size env) place rbad \<and>
     (\<forall>n. te_mem env n) \<and> 0 < blocks_at_once env \<and> id_offset env + 8 \<le> block_size env \<and>
     first_block env \<le> last_block env \<and> int (last_block env * block_size env) < PB"

lemma good_run_le: "good_run bad start n \<le> n"
  by (metis add_diff_cancel_left' good_run_def length_takeWhile_le length_upt)

lemma good_run_good: "i < good_run bad start n \<Longrightarrow> \<not> bad (start + i)"
proof -
  assume i: "i < good_run bad start n"
  then have "takeWhile (\<lambda>b. \<not> bad b) [start..<start + n] ! i \<in> set (takeWhile (\<lambda>b. \<not> bad b) [start..<start + n])"
    by (intro nth_mem) (simp add: good_run_def)
  then have "\<not> bad (takeWhile (\<lambda>b. \<not> bad b) [start..<start + n] ! i)"
    by (auto dest: set_takeWhileD)
  then show ?thesis
    using i good_run_le [of bad start n] by (simp add: takeWhile_nth good_run_def)
qed

lemma good_run_stops: "good_run bad start n < n \<Longrightarrow> bad (start + good_run bad start n)"
  using nth_length_takeWhile [of "\<lambda>b. \<not> bad b" "[start..<start + n]"] by (simp add: good_run_def)

section \<open>The buffer\<close>

text \<open>The contents of block \<open>b\<close> in pass \<open>k\<close> for a pattern of one byte, \<open>c\<close>.\<close>

definition block_data :: "'d test_env \<Rightarrow> byte \<Rightarrow> nat \<Rightarrow> nat \<Rightarrow> bytes" where
  "block_data env c k b =
     (let x = replicate (block_size env) c
      in if detect_fakes env \<and> k = 0 then memcpy_to (id_offset env) (le_bytes 8 (of_nat b :: u64)) x else x)"

definition id_byte :: "'d test_env \<Rightarrow> nat \<Rightarrow> bool" where
  "id_byte env j \<longleftrightarrow> id_offset env \<le> j mod block_size env \<and> j mod block_size env < id_offset env + 8"

definition buffer_ok :: "'d test_env \<Rightarrow> byte \<Rightarrow> nat \<Rightarrow> bytes \<Rightarrow> bool" where
  "buffer_ok env c k buf \<longleftrightarrow> length buf = blocks_at_once env * block_size env \<and>
     (\<forall>j < length buf. \<not> (detect_fakes env \<and> k = 0 \<and> id_byte env j) \<longrightarrow> buf ! j = c)"

lemma in_window:
  fixes bs :: nat
  assumes "off + 8 \<le> bs"
  shows "off + m * bs \<le> j \<and> j < off + m * bs + 8 \<longleftrightarrow> j div bs = m \<and> off \<le> j mod bs \<and> j mod bs < off + 8"
proof
  assume "off + m * bs \<le> j \<and> j < off + m * bs + 8"
  then obtain r where r: "j = m * bs + r" "off \<le> r" "r < off + 8"
    by (metis add.commute add.left_commute le_Suc_ex nat_add_left_cancel_less le_add1)
  then show "j div bs = m \<and> off \<le> j mod bs \<and> j mod bs < off + 8"
    using assms by simp
next
  assume "j div bs = m \<and> off \<le> j mod bs \<and> j mod bs < off + 8"
  moreover have "j = j div bs * bs + j mod bs" by simp
  ultimately show "off + m * bs \<le> j \<and> j < off + m * bs + 8"
    by (metis add.assoc add.commute add_le_cancel_left nat_add_left_cancel_less)
qed

lemma put_ids_nth:
  fixes env :: "'d test_env" and cur :: nat
  assumes "id_offset env + 8 \<le> block_size env" "length buf = blocks_at_once env * block_size env" "m \<le> blocks_at_once env"
  defines "f \<equiv> (\<lambda>i. memcpy_to (id_offset env + i * block_size env) (le_bytes 8 (of_nat (cur + i) :: u64)))"
  shows "length (fold f [0..<m] buf) = length buf \<and> (\<forall>j < length buf. fold f [0..<m] buf ! j =
    (if j div block_size env < m \<and> id_byte env j
     then le_bytes 8 (of_nat (cur + j div block_size env) :: u64) ! (j mod block_size env - id_offset env) else buf ! j))"
  using assms(3)
proof (induction m)
  case (Suc m)
  let ?bs = "block_size env" and ?off = "id_offset env"
  let ?b = "fold f [0..<m] buf"
  have ih: "length ?b = length buf" "\<And>j. j < length buf \<Longrightarrow> ?b ! j =
      (if j div ?bs < m \<and> id_byte env j then le_bytes 8 (of_nat (cur + j div ?bs) :: u64) ! (j mod ?bs - ?off) else buf ! j)"
    using Suc by auto
  have "Suc m * ?bs \<le> blocks_at_once env * ?bs"
    using Suc.prems by (rule mult_le_mono1)
  then have fits: "?off + m * ?bs + 8 \<le> length ?b"
    using assms(1,2) ih(1) by simp
  have eq: "fold f [0..<Suc m] buf = memcpy_to (?off + m * ?bs) (le_bytes 8 (of_nat (cur + m) :: u64)) ?b"
    by (simp add: f_def)
  show ?case
  proof (intro conjI allI impI)
    show "length (fold f [0..<Suc m] buf) = length buf"
      unfolding eq using fits ih(1) by simp
    fix j assume j: "j < length buf"
    have nth: "fold f [0..<Suc m] buf ! j = (if ?off + m * ?bs \<le> j \<and> j < ?off + m * ?bs + 8
        then le_bytes 8 (of_nat (cur + m) :: u64) ! (j - (?off + m * ?bs)) else ?b ! j)"
      unfolding eq using fits ih(1) j by (simp add: memcpy_to_nth)
    have w: "?off + m * ?bs \<le> j \<and> j < ?off + m * ?bs + 8 \<longleftrightarrow> j div ?bs = m \<and> id_byte env j"
      using in_window [OF assms(1)] by (simp add: id_byte_def)
    have off: "j - (?off + m * ?bs) = j mod ?bs - ?off" if "j div ?bs = m"
    proof -
      have "j = m * ?bs + j mod ?bs"
        using that div_mult_mod_eq [of j ?bs] by simp
      then show ?thesis by linarith
    qed
    show "fold f [0..<Suc m] buf ! j = (if j div ?bs < Suc m \<and> id_byte env j
        then le_bytes 8 (of_nat (cur + j div ?bs) :: u64) ! (j mod ?bs - ?off) else buf ! j)"
      unfolding nth w using ih(2) [OF j] off by (auto simp: less_Suc_eq)
  qed
qed simp

lemma length_block_data: "id_offset env + 8 \<le> block_size env \<Longrightarrow> length (block_data env c k b) = block_size env"
  by (simp add: block_data_def Let_def)

lemma block_data_nth:
  assumes "id_offset env + 8 \<le> block_size env" "j < block_size env"
  shows "block_data env c k b ! j = (if detect_fakes env \<and> k = 0 \<and> id_byte env j
    then le_bytes 8 (of_nat b :: u64) ! (j - id_offset env) else c)"
  using assms by (auto simp: block_data_def id_byte_def Let_def memcpy_to_nth)

text \<open>After the start of an iteration, the buffer holds the contents of the blocks from \<open>currently_testing\<close> on.\<close>

lemma next_access_buffer:
  assumes "id_offset env + 8 \<le> block_size env" "buffer_ok env c k (buffer st)"
  shows "buffer_ok env c k (buffer (next_access env k st))"
    "i < blocks_at_once env \<Longrightarrow> slice (i * block_size env) (block_size env) (buffer (next_access env k st)) =
       block_data env c k (currently_testing st + i)"
proof -
  let ?bs = "block_size env" and ?buf = "buffer (next_access env k st)"
  have buf: "?buf = (if detect_fakes env \<and> k = 0 then put_ids env (currently_testing st) (buffer st) else buffer st)"
    by (simp add: next_access_def Let_def)
  note ok = assms(2) [unfolded buffer_ok_def]
  have nth: "length ?buf = length (buffer st) \<and> (\<forall>j < length (buffer st). ?buf ! j = (if detect_fakes env \<and> k = 0 \<and> id_byte env j
      then le_bytes 8 (of_nat (currently_testing st + j div ?bs) :: u64) ! (j mod ?bs - id_offset env) else buffer st ! j))"
  proof (cases "detect_fakes env \<and> k = 0")
    case True
    have "j div ?bs < blocks_at_once env" if "j < length (buffer st)" for j
      using that ok assms(1) by (metis less_mult_imp_div_less)
    then show ?thesis
      using put_ids_nth [OF assms(1) conjunct1 [OF ok] order_refl, of "currently_testing st"] True
      unfolding buf by (simp add: put_ids_def del: of_nat_add)
  qed (auto simp: buf)
  then show "buffer_ok env c k ?buf"
    using ok by (auto simp: buffer_ok_def)
  assume i: "i < blocks_at_once env"
  then have "Suc i * ?bs \<le> blocks_at_once env * ?bs"
    by (intro mult_le_mono1) simp
  then have fits: "i * ?bs + ?bs \<le> length (buffer st)"
    using ok by simp
  show "slice (i * ?bs) ?bs ?buf = block_data env c k (currently_testing st + i)"
  proof (rule nth_equalityI)
    show len: "length (slice (i * ?bs) ?bs ?buf) = length (block_data env c k (currently_testing st + i))"
      using fits nth by (simp add: length_block_data [OF assms(1)])
    fix j assume "j < length (slice (i * ?bs) ?bs ?buf)"
    then have j: "j < ?bs" using len by (simp add: length_block_data [OF assms(1)])
    have div: "(i * ?bs + j) div ?bs = i" "(i * ?bs + j) mod ?bs = j"
      using j by simp_all
    then have "id_byte env (i * ?bs + j) \<longleftrightarrow> id_byte env j"
      using j by (simp add: id_byte_def)
    then show "slice (i * ?bs) ?bs ?buf ! j = block_data env c k (currently_testing st + i) ! j"
      using j fits nth ok by (simp add: slice_nth block_data_nth [OF assms(1)] div)
  qed
qed

lemma block_data_inj:
  assumes "detect_fakes env" "id_offset env + 8 \<le> block_size env" "b < 2 ^ 64" "b' < 2 ^ 64" "block_data env c 0 b = block_data env c 0 b'"
  shows "b = b'"
proof -
  have "slice (id_offset env) 8 (block_data env c 0 x) = le_bytes 8 (of_nat x :: u64)" for x
    using assms(1,2) by (simp add: block_data_def slice_memcpy_to_same)
  then have "le_word (le_bytes 8 (of_nat b :: u64)) = (le_word (le_bytes 8 (of_nat b' :: u64)) :: u64)"
    using assms(5) by metis
  then have "(of_nat b :: u64) = of_nat b'"
    by simp
  moreover have "unat (of_nat x :: u64) = x" if "x < 2 ^ 64" for x
    using that by (simp add: unat_of_nat take_bit_nat_eq_self)
  ultimately show ?thesis
    using assms(3,4) by metis
qed

text \<open>A pattern of one byte fills the buffer with that byte.\<close>

lemma fill_loop_one: "fill_loop [c] 0 0 n = replicate n c"
  by (induction n) auto

lemma pattern_fill_byte:
  assumes "p < 256"
  shows "pattern_fill rnd p n = replicate n (ucast p)"
proof -
  have "drop_bit 8 p = 0"
    using assms by (simp add: drop_bit_eq_div word_less_nat_alt word_arith_nat_div flip: unat_div) (simp add: unsigned_eq_0_iff)?
  then show ?thesis
    using assms by (auto simp: pattern_fill_def Let_def numeral_eq_Suc fill_loop_one)
qed

section \<open>Accesses\<close>

lemma fold_upd:
  fixes g :: "nat \<Rightarrow> bytes" and h :: "nat \<Rightarrow> nat"
  defines "F \<equiv> \<lambda>k d. fold (\<lambda>i d. d(h i := g i)) [0..<k] d"
  shows "(\<exists>i < k. h i = x) \<Longrightarrow> \<exists>i < k. h i = x \<and> (\<forall>j < k. h j = x \<longrightarrow> j \<le> i) \<and> F k d x = g i"
    "\<not> (\<exists>i < k. h i = x) \<Longrightarrow> F k d x = d x"
proof (induction k)
  case (Suc k)
  {
    case 1
    show ?case
    proof (cases "h k = x")
      case True
      then show ?thesis by (intro exI [of _ k]) (auto simp: F_def)
    next
      case False
      then obtain i where "i < k" "h i = x" "\<forall>j < k. h j = x \<longrightarrow> j \<le> i" "F k d x = g i"
        using Suc.IH(1) 1 less_Suc_eq by metis
      then show ?thesis
        using False by (intro exI [of _ i]) (auto simp: F_def less_Suc_eq)
    qed
  next
    case 2
    then show ?case
      using Suc.IH(2) by (auto simp: F_def)
  }
qed (simp_all add: F_def)

text \<open>
  The blocks of \<open>G\<close> have been written in ascending order: each place holds the contents of the last block that is stored there.
\<close>

definition stored :: "'d test_env \<Rightarrow> byte \<Rightarrow> nat \<Rightarrow> (nat \<Rightarrow> nat) \<Rightarrow> nat set \<Rightarrow> (nat \<Rightarrow> bytes) \<Rightarrow> bool" where
  "stored env c k place G d \<longleftrightarrow>
     (\<forall>b \<in> G. \<exists>b' \<in> G. place b' = place b \<and> d (place b) = block_data env c k b' \<and> (\<forall>x \<in> G. place x = place b \<longrightarrow> x \<le> b'))"

lemma stored_write:
  assumes "stored env c k place G d" "\<forall>b \<in> G. b < start" "\<forall>i < n. g i = block_data env c k (start + i)"
  shows "stored env c k place (G \<union> {start..<start + n}) (fold (\<lambda>i d. d(place (start + i) := g i)) [0..<n] d)"
  unfolding stored_def
proof
  fix b assume b: "b \<in> G \<union> {start..<start + n}"
  let ?d = "fold (\<lambda>i d. d(place (start + i) := g i)) [0..<n] d"
  show "\<exists>b' \<in> G \<union> {start..<start + n}. place b' = place b \<and> ?d (place b) = block_data env c k b' \<and>
      (\<forall>x \<in> G \<union> {start..<start + n}. place x = place b \<longrightarrow> x \<le> b')"
  proof (cases "\<exists>i < n. place (start + i) = place b")
    case True
    then obtain i where i: "i < n" "place (start + i) = place b" "\<forall>j < n. place (start + j) = place b \<longrightarrow> j \<le> i" "?d (place b) = g i"
      using fold_upd(1) [of n "\<lambda>i. place (start + i)" "place b" g d] by blast
    have "x \<le> start + i" if "x \<in> G \<union> {start..<start + n}" "place x = place b" for x
    proof (cases "x < start")
      case False
      then have "x - start < n" "start + (x - start) = x"
        using that(1) assms(2) by auto
      then show ?thesis
        using i(3) that(2) by (metis add_le_cancel_left)
    qed simp
    then show ?thesis
      using i assms(3) by (intro bexI [of _ "start + i"]) auto
  next
    case False
    then have "b \<in> G"
      using b by (auto dest: spec [of _ "b - start"])
    then obtain b' where "b' \<in> G" "place b' = place b" "d (place b) = block_data env c k b'" "\<forall>x \<in> G. place x = place b \<longrightarrow> x \<le> b'"
      using assms(1) by (auto simp: stored_def)
    moreover have "?d (place b) = d (place b)"
      using False fold_upd(2) [of n "\<lambda>i. place (start + i)" "place b" g d] by blast
    moreover have "place x \<noteq> place b" if "x \<in> {start..<start + n}" for x
      using False that by (metis atLeastLessThan_iff le_add_diff_inverse nat_add_left_cancel_less)
    ultimately show ?thesis
      by (intro bexI [of _ b']) auto
  qed
qed

lemma slice_concat:
  assumes "\<forall>i < n. length (f i) = bs" "i < n"
  shows "slice (i * bs) bs (concat (map f [0..<n]) @ ys) = f i"
proof -
  have len: "length (concat (map f [0..<m])) = m * bs" if "m \<le> n" for m
    using that assms(1) by (induction m) (auto simp: add.commute)
  have "[0..<n] = [0..<i] @ i # [Suc i..<n]"
    using assms(2) upt_add_eq_append [of 0 i "n - i"] upt_conv_Cons [of i n] by simp
  then have "concat (map f [0..<n]) @ ys = concat (map f [0..<i]) @ f i @ (concat (map f [Suc i..<n]) @ ys)"
    by simp
  then show ?thesis
    using len [of i] assms by (simp add: slice_append_right slice_append_left)
qed

lemma count_bad_reported:
  assumes "report_inv env st" "\<forall>n. te_mem env n"
  shows "reported (count_bad env b e st) = insert b (reported st)"
proof -
  obtain r bb where n: "bb.note_block (te_mem env) (bb_list st) b = (r, bb)" by fastforce
  have inv: "bb_inv (bb_list st)" using assms(1) by (simp add: report_inv_def)
  have "r \<or> b \<in> set (bb_blocks (bb_list st))"
    using n bb_u64_list_add_spec [OF inv, of "te_mem env" b] bb_u64_list_test_iff [OF inv, of b] assms(2)
    by (auto simp: bb.note_block_def bb_grow_def split: if_splits prod.splits)
  then show ?thesis
    using bb.note_block_ok(2) [OF inv n] n
    by (cases r; cases e) (auto simp: count_bad_def bb_output_note reported_def)
qed

text \<open>The comparison reports exactly the blocks that differ.\<close>

lemma compare_loop_reported:
  assumes "report_inv env st" "\<forall>n. te_mem env n" "\<forall>i \<in> set is. i < got" "first_block env + got \<le> currently_testing st"
    "currently_testing st \<le> last_block env" "int (last_block env * block_size env) < PB"
  shows "reported (compare_loop env got is st) = reported st \<union> (\<lambda>i. currently_testing st + i - got) `
      {i \<in> set is. slice (i * block_size env) (block_size env) (read_buffer st) \<noteq> slice (i * block_size env) (block_size env) (buffer st)} \<and>
    (stopped (compare_loop env got is st) = stopped st)"
  using assms
proof (induction env got "is" st rule: compare_loop.induct)
  case (2 env got i "is" st)
  let ?s = "count_bad env (currently_testing st + i - got) CORRUPTION_ERROR st"
  have "currently_testing st * block_size env \<le> last_block env * block_size env"
    using "2.prems"(5) by (rule mult_le_mono1)
  then have pb: "int (currently_testing st * block_size env) < PB"
    using "2.prems"(6) by linarith
  have "report_inv env ?s"
    using count_bad_inv(1) [of env st "currently_testing st + i - got"] "2.prems" by auto
  then show ?case
    using 2 pb count_bad_reported [OF "2.prems"(1,2)] by (auto simp: frame_simps)
qed simp

section \<open>The loops on a medium\<close>

abbreviation tested :: "'d test_env \<Rightarrow> nat \<Rightarrow> (nat \<Rightarrow> bool) \<Rightarrow> nat set" where
  "tested env hi P \<equiv> {b. first_block env \<le> b \<and> b < hi \<and> P b}"

definition write_inv ::
    "(nat \<Rightarrow> bytes) test_env \<Rightarrow> byte \<Rightarrow> nat \<Rightarrow> (nat \<Rightarrow> nat) \<Rightarrow> (nat \<Rightarrow> bool) \<Rightarrow> nat set \<Rightarrow> (nat \<Rightarrow> bytes) test_state \<Rightarrow> bool" where
  "write_inv env c k place wbad R0 st \<longleftrightarrow>
     reported st = R0 \<union> tested env (currently_testing st) wbad \<and>
     stored env c k place (tested env (currently_testing st) (\<lambda>b. \<not> wbad b)) (ts_dev st) \<and>
     (\<forall>x. length (ts_dev st x) = block_size env) \<and> buffer_ok env c k (buffer st) \<and>
     currently_testing st \<le> last_block env \<and> (stopped st \<longrightarrow> bb_count st \<ge> max_bb)"

lemma shift_image: "(\<lambda>i. c + n + i - n) ` {i. i < n \<and> P (c + i)} = {b. c \<le> b \<and> b < c + n \<and> P (b::nat)}"
proof (intro set_eqI iffI)
  fix b assume "b \<in> {b. c \<le> b \<and> b < c + n \<and> P b}"
  then show "b \<in> (\<lambda>i. c + n + i - n) ` {i. i < n \<and> P (c + i)}"
    by (intro image_eqI [of _ _ "b - c"]) auto
qed auto

lemma merge_reported:
  assumes "R \<union> A \<subseteq> X" "X \<subseteq> R \<union> A \<union> B" "Y = X \<union> A'" "A \<subseteq> A'" "Z = Y \<union> C" "B' = B \<union> C"
  shows "R \<union> A' \<subseteq> Z" "Z \<subseteq> R \<union> A' \<union> B'" "B \<subseteq> X \<Longrightarrow> B' \<subseteq> Z"
  using assms by blast+

lemma tested_mono: "a \<le> b \<Longrightarrow> tested env a P \<subseteq> tested env b P"
  by auto

lemma tested_split: "first_block env \<le> a \<Longrightarrow> tested env (a + n) P = tested env a P \<union> {b. a \<le> b \<and> b < a + n \<and> P b}"
  by auto

lemma tested_step:
  assumes "first_block env \<le> cur" "\<forall>b \<in> {cur..<cur + n}. P b"
  shows "tested env (cur + n) P = tested env cur P \<union> {cur..<cur + n}" "tested env (cur + n) (\<lambda>b. \<not> P b) = tested env cur (\<lambda>b. \<not> P b)"
  using assms by auto

text \<open>The state after an access that delivered \<open>n\<close> blocks and stopped at a block of \<open>bad\<close>, or at the end.\<close>

lemma access_reported:
  assumes "loop_inv env st" "\<forall>n. te_mem env n" "0 < tryout st" "n = good_run bad (currently_testing st) (tryout st)"
    "reported st = R0 \<union> tested env (currently_testing st) bad" "st' = after_access env e n st"
  shows "reported st' = R0 \<union> tested env (currently_testing st') bad"
    "tested env (currently_testing st') (\<lambda>b. \<not> bad b) = tested env (currently_testing st) (\<lambda>b. \<not> bad b) \<union> {currently_testing st..<currently_testing st + n}"
    "currently_testing st' \<le> currently_testing st + tryout st"
proof -
  let ?c = "currently_testing st"
  have first: "first_block env \<le> ?c" "report_inv env st"
    using assms(1) by (simp_all add: loop_inv_def)
  have "reported st' = R0 \<union> tested env (currently_testing st') bad \<and>
    tested env (currently_testing st') (\<lambda>b. \<not> bad b) = tested env ?c (\<lambda>b. \<not> bad b) \<union> {?c..<?c + n}"
  proof (cases "n = 0 \<and> tryout st = 1")
    case True
    then have "bad ?c"
      using good_run_stops [of bad ?c "tryout st"] assms(4) by auto
    moreover have "reported st' = insert ?c (reported st)"
      using True count_bad_reported [OF first(2) assms(2)] by (simp add: assms(6) reported_def after_access_report)
    moreover have "currently_testing st' = ?c + 1"
      using True by (simp add: assms(6) frame_simps)
    ultimately show ?thesis
      using tested_step [OF first(1), of 1 bad] True assms(5) by auto
  next
    case False
    then have "currently_testing st' = ?c + n" "reported st' = reported st"
      by (auto simp: assms(6) frame_simps reported_def after_access_report)
    moreover have "\<forall>b \<in> {?c..<?c + n}. \<not> bad b"
      using good_run_good [of _ bad ?c "tryout st"] assms(4)
      by (metis atLeastLessThan_iff le_add_diff_inverse nat_add_left_cancel_less)
    ultimately show ?thesis
      using tested_step [OF first(1), of n "\<lambda>b. \<not> bad b"] assms(5) by simp
  qed
  then show "reported st' = R0 \<union> tested env (currently_testing st') bad"
    "tested env (currently_testing st') (\<lambda>b. \<not> bad b) = tested env ?c (\<lambda>b. \<not> bad b) \<union> {?c..<?c + n}"
    by auto
  show "currently_testing st' \<le> ?c + tryout st"
    using good_run_le [of bad ?c "tryout st"] assms(3,4) by (auto simp: assms(6) frame_simps)
qed

lemma write_body_media:
  assumes "media_env place wbad rbad env" "loop_inv env st" "write_inv env c k place wbad R0 st"
    "currently_testing st < last_block env" "\<not> stopped st"
  shows "write_inv env c k place wbad R0 (write_body env k st)"
proof (cases "bb_count st \<ge> max_bb")
  case True
  then show ?thesis
    using assms(3) by (simp add: write_body_def too_many_def write_inv_def reported_def)
next
  case False
  note m = assms(1) [unfolded media_env_def] and w = assms(3) [unfolded write_inv_def]
  define s1 where "s1 = next_access env k st"
  define n where "n = good_run wbad (currently_testing st) (tryout s1)"
  define g where "g = (\<lambda>i. slice (i * block_size env) (block_size env) (take (tryout s1 * block_size env) (buffer s1)))"
  define d where "d = fold (\<lambda>i d. d(place (currently_testing st + i) := g i)) [0..<n] (ts_dev st)"
  define s2 where "s2 = s1\<lparr>ts_dev := d\<rparr>"
  have t: "0 < tryout s1" "tryout s1 \<le> blocks_at_once env" "currently_testing st + tryout s1 \<le> last_block env" "0 < block_size env"
    using assms(2,4) m by (auto simp: s1_def loop_inv_def frame_simps)
  have n: "n \<le> tryout s1"
    using good_run_le by (simp add: n_def)
  have "blocks_got env (int (n * block_size env)) = n"
    using t(4) by (simp add: blocks_got_def del: of_nat_mult)
  then have code: "write_body env k st = after_access env WRITE_ERROR n s2"
    using False m by (simp add: write_body_def s1_def [symmetric] Let_def media_write_def s2_def d_def n_def g_def del: of_nat_mult)
      (simp add: s1_def frame_simps del: of_nat_mult)
  have s2: "loop_inv env s2" "currently_testing s2 = currently_testing st" "tryout s2 = tryout s1" "reported s2 = reported st"
      "\<not> stopped s2" "buffer s2 = buffer s1" "ts_dev s2 = d"
    using loop_inv_next [OF assms(2,4), of k] assms(5) by (simp_all add: s2_def loop_inv_dev s1_def frame_simps reported_def)
  note after = access_reported [OF s2(1), of n wbad R0 "write_body env k st" WRITE_ERROR, unfolded s2(2-4), OF _ _ _ _ code]
  have g: "g i = block_data env c k (currently_testing st + i)" if "i < n" for i
  proof -
    have "Suc i * block_size env \<le> tryout s1 * block_size env"
      using that n by (intro mult_le_mono1) simp
    then have "g i = slice (i * block_size env) (block_size env) (buffer s1)"
      by (simp add: g_def slice_take)
    then show ?thesis
      using next_access_buffer(2) [of env c k st i] m w that n t(2) by (simp add: s1_def)
  qed
  have "length (d x) = block_size env" for x
  proof (cases "\<exists>i < n. place (currently_testing st + i) = x")
    case True
    then show ?thesis
      using fold_upd(1) [of n "\<lambda>i. place (currently_testing st + i)" x g "ts_dev st"] g length_block_data m by (force simp: d_def)
  next
    case False
    then show ?thesis
      using fold_upd(2) [of n "\<lambda>i. place (currently_testing st + i)" x g "ts_dev st"] w by (simp add: d_def)
  qed
  moreover have "stored env c k place (tested env (currently_testing st) (\<lambda>b. \<not> wbad b) \<union> {currently_testing st..<currently_testing st + n}) d"
    using stored_write [of env c k place _ "ts_dev st" "currently_testing st" n g] w g by (auto simp: d_def)
  moreover have "buffer_ok env c k (buffer s1)"
    using next_access_buffer(1) [of env c k st] m w by (simp add: s1_def)
  ultimately show ?thesis
    using after m w t n_def s2 assms(5) unfolding write_inv_def by (simp add: code frame_simps)
qed

text \<open>
  While reading: the blocks of \<open>R1\<close> and the unreadable ones are reported; others only when their contents differ. All
  that differ are reported when every block can be read.
\<close>

definition read_inv ::
    "(nat \<Rightarrow> bytes) test_env \<Rightarrow> byte \<Rightarrow> nat \<Rightarrow> (nat \<Rightarrow> nat) \<Rightarrow> (nat \<Rightarrow> bool) \<Rightarrow> nat set \<Rightarrow> (nat \<Rightarrow> bytes) \<Rightarrow>
     (nat \<Rightarrow> bytes) test_state \<Rightarrow> bool" where
  "read_inv env c k place rbad R1 D st \<longleftrightarrow>
     (let cur = currently_testing st; differ = tested env cur (\<lambda>b. D (place b) \<noteq> block_data env c k b) in
      ts_dev st = D \<and> buffer_ok env c k (buffer st) \<and> cur \<le> last_block env \<and> (stopped st \<longrightarrow> bb_count st \<ge> max_bb) \<and>
      R1 \<union> tested env cur rbad \<subseteq> reported st \<and> reported st \<subseteq> R1 \<union> tested env cur rbad \<union> differ \<and>
      ((\<forall>b. \<not> rbad b) \<longrightarrow> differ \<subseteq> reported st))"

lemma read_body_media:
  assumes "media_env place wbad rbad env" "loop_inv env st" "read_inv env c k place rbad R1 D st" "\<forall>x. length (D x) = block_size env"
    "currently_testing st < last_block env" "\<not> stopped st"
  shows "read_inv env c k place rbad R1 D (read_body env k st)"
proof (cases "bb_count st \<ge> max_bb")
  case True
  then show ?thesis
    using assms(3) by (simp add: read_body_def too_many_def read_inv_def reported_def Let_def)
next
  case False
  let ?c = "currently_testing st" and ?bs = "block_size env"
  note m = assms(1) [unfolded media_env_def] and r = assms(3) [unfolded read_inv_def Let_def]
  define s1 where "s1 = next_access env k st"
  define n where "n = good_run rbad ?c (tryout s1)"
  define data where "data = concat (map (\<lambda>i. D (place (?c + i))) [0..<n])"
  define s2 where "s2 = s1\<lparr>ts_dev := D, read_buffer := memcpy_to 0 data (read_buffer s1)\<rparr>"
  define s3 where "s3 = after_access env READ_ERROR n s2"
  have t: "0 < tryout s1" "tryout s1 \<le> blocks_at_once env" "?c + tryout s1 \<le> last_block env" "0 < ?bs"
    using assms(2,5) m by (auto simp: s1_def loop_inv_def frame_simps)
  have n: "n \<le> tryout s1"
    using good_run_le by (simp add: n_def)
  have got: "blocks_got env (int (x * ?bs)) = x" for x
    using t(4) by (simp add: blocks_got_def del: of_nat_mult)
  have "te_read env (currently_testing s1) (tryout s1) (ts_dev s1) = (int (n * ?bs), data, D)"
    using m r by (simp add: media_read_def n_def data_def s1_def frame_simps Let_def del: of_nat_mult)
  then have code: "read_body env k st = (if n \<noteq> tryout s1 then s3 else compare_loop env n [0..<n] s3)"
    using False by (simp add: read_body_def s1_def [symmetric] got Let_def s3_def s2_def del: of_nat_mult)
  have s2: "loop_inv env s2" "currently_testing s2 = ?c" "tryout s2 = tryout s1" "reported s2 = reported st" "\<not> stopped s2"
    "buffer s2 = buffer s1" "ts_dev s2 = D"
    using loop_inv_next [OF assms(2,5), of k] assms(6) by (simp_all add: s2_def loop_inv_dev s1_def frame_simps reported_def)
  have "reported st = reported st \<union> tested env ?c rbad"
    using r by blast
  note after = access_reported [OF s2(1), of n rbad "reported st" s3 READ_ERROR, unfolded s2(2-4), OF _ t(1) n_def this s3_def]
  have s3: "loop_inv env s3" "buffer s3 = buffer s1" "read_buffer s3 = data @ drop (length data) (read_buffer s1)" "ts_dev s3 = D" "\<not> stopped s3"
    using after_access_inv(1) [OF s2(1) _ s2(5) _ _ _ _ s3_def, of s2] assms(5) s2 False
    by (simp_all add: s3_def frame_simps) (simp_all add: s2_def memcpy_to_def s1_def frame_simps)
  have buf: "buffer_ok env c k (buffer s1)"
    using next_access_buffer(1) [of env c k st] m r by (simp add: s1_def)
  show ?thesis
  proof (cases "n = tryout s1")
    case stop: False
    then have "\<not> (\<forall>b. \<not> rbad b)"
      using good_run_stops [of rbad ?c "tryout s1"] n by (auto simp: n_def)
    moreover have "?c \<le> currently_testing s3"
      by (simp add: s3_def s2 frame_simps)
    ultimately show ?thesis
    proof -
      assume bad: "\<not> (\<forall>b. \<not> rbad b)" and le: "?c \<le> currently_testing s3"
      have rep: "reported s3 = reported st \<union> tested env (currently_testing s3) rbad" "currently_testing s3 \<le> last_block env"
        using after m t(3) by auto
      have "reported s3 \<subseteq> R1 \<union> tested env (currently_testing s3) rbad \<union>
          tested env (currently_testing s3) (\<lambda>b. D (place b) \<noteq> block_data env c k b)"
        using rep(1) r tested_mono [OF le, of env rbad] tested_mono [OF le, of env "\<lambda>b. D (place b) \<noteq> block_data env c k b"] by blast
      moreover have "R1 \<union> tested env (currently_testing s3) rbad \<subseteq> reported s3"
        using rep(1) r by blast
      ultimately show ?thesis
        using stop bad rep(2) s3 buf by (simp only: code read_inv_def Let_def if_True not_False_eq_True simp_thms)
    qed
  next
    case True
    have pos: "currently_testing s3 = ?c + n" "0 < n"
      using True t(1) s2 by (simp_all add: s3_def frame_simps)
    have diff: "{i \<in> set [0..<n]. slice (i * ?bs) ?bs (read_buffer s3) \<noteq> slice (i * ?bs) ?bs (buffer s3)} =
        {i. i < n \<and> D (place (?c + i)) \<noteq> block_data env c k (?c + i)}"
      using slice_concat [of n "\<lambda>i. D (place (?c + i))" ?bs] next_access_buffer(2) [of env c k st] assms(4) m r True t(2)
      by (auto simp: s3 data_def s1_def)
    have "reported (compare_loop env n [0..<n] s3) = reported s3 \<union> (\<lambda>i. currently_testing s3 + i - n) `
        {i. i < n \<and> D (place (?c + i)) \<noteq> block_data env c k (?c + i)} \<and> stopped (compare_loop env n [0..<n] s3) = stopped s3"
      unfolding diff [symmetric] using s3(1) m t(3) True pos assms(2) by (intro compare_loop_reported) (auto simp: loop_inv_def)
    moreover have "(\<lambda>i. currently_testing s3 + i - n) ` {i. i < n \<and> D (place (?c + i)) \<noteq> block_data env c k (?c + i)} =
        {b. ?c \<le> b \<and> b < ?c + n \<and> D (place b) \<noteq> block_data env c k b}"
      unfolding pos by (rule shift_image)
    ultimately have cmp: "reported (compare_loop env n [0..<n] s3) = reported s3 \<union>
        {b. ?c \<le> b \<and> b < ?c + n \<and> D (place b) \<noteq> block_data env c k b}" "\<not> stopped (compare_loop env n [0..<n] s3)"
      using s3(5) by simp_all
    have "first_block env \<le> ?c"
      using assms(2) by (simp add: loop_inv_def)
    note split = tested_split [OF this, of n]
    have rep: "reported s3 = reported st \<union> tested env (?c + n) rbad"
      using after m pos by auto
    let ?diff = "\<lambda>b. D (place b) \<noteq> block_data env c k b" and ?st = "compare_loop env n [0..<n] s3"
    have old: "R1 \<union> tested env ?c rbad \<subseteq> reported st" "reported st \<subseteq> R1 \<union> tested env ?c rbad \<union> tested env ?c ?diff"
      "(\<forall>b. \<not> rbad b) \<Longrightarrow> tested env ?c ?diff \<subseteq> reported st"
      using r by simp_all
    note new = merge_reported [OF old(1,2) rep tested_mono cmp(1) split [of ?diff]]
    have "R1 \<union> tested env (?c + n) rbad \<subseteq> reported ?st" "reported ?st \<subseteq> R1 \<union> tested env (?c + n) rbad \<union> tested env (?c + n) ?diff"
      by (rule new(1), simp, rule new(2), simp)
    moreover have "tested env (?c + n) ?diff \<subseteq> reported ?st" if "\<forall>b. \<not> rbad b"
      by (rule new(3) [OF _ old(3) [OF that]]) simp
    moreover have "buffer_ok env c k (buffer ?st)" "ts_dev ?st = D" "currently_testing ?st = ?c + n" "?c + n \<le> last_block env"
      using s3 buf pos True t(3) by (simp_all add: frame_simps)
    ultimately show ?thesis
      using True cmp(2) by (simp add: code read_inv_def Let_def)
  qed
qed

section \<open>A pass on a medium\<close>

abbreviation test_range :: "'d test_env \<Rightarrow> nat set" where
  "test_range env \<equiv> {first_block env..<last_block env}"

text \<open>What one pass, or several, add to the reported blocks.\<close>

definition media_result ::
    "(nat \<Rightarrow> nat) \<Rightarrow> (nat \<Rightarrow> bool) \<Rightarrow> (nat \<Rightarrow> bool) \<Rightarrow> (nat \<Rightarrow> bytes) test_env \<Rightarrow> bool \<Rightarrow>
     (nat \<Rightarrow> bytes) test_state \<Rightarrow> (nat \<Rightarrow> bytes) test_state \<Rightarrow> bool" where
  "media_result place wbad rbad env fakes st t \<longleftrightarrow>
     run_inv env t \<and> (\<forall>x. length (ts_dev t x) = block_size env) \<and> (stopped t \<longrightarrow> bb_count t \<ge> max_bb) \<and> reported st \<subseteq> reported t \<and>
     (inj_on place (test_range env) \<longrightarrow> reported t \<subseteq> reported st \<union> {b \<in> test_range env. wbad b \<or> rbad b}) \<and>
     (\<not> stopped t \<longrightarrow> {b \<in> test_range env. wbad b \<or> rbad b} \<subseteq> reported t) \<and>
     (\<not> stopped t \<and> fakes \<and> (\<forall>b. \<not> wbad b \<and> \<not> rbad b) \<longrightarrow>
        (\<forall>b \<in> test_range env. \<forall>b' \<in> test_range env. b < b' \<and> place b = place b' \<longrightarrow> b \<in> reported t))"

lemma media_resultI:
  assumes "run_inv env t" "\<forall>x. length (ts_dev t x) = block_size env" "stopped t \<Longrightarrow> bb_count t \<ge> max_bb" "reported st \<subseteq> reported t"
    "inj_on place (test_range env) \<Longrightarrow> reported t \<subseteq> reported st \<union> {b \<in> test_range env. wbad b \<or> rbad b}"
    "\<not> stopped t \<Longrightarrow> {b \<in> test_range env. wbad b \<or> rbad b} \<subseteq> reported t"
    "\<And>b b'. \<not> stopped t \<Longrightarrow> fakes \<Longrightarrow> \<forall>b. \<not> wbad b \<and> \<not> rbad b \<Longrightarrow> b \<in> test_range env \<Longrightarrow> b' \<in> test_range env \<Longrightarrow>
       b < b' \<Longrightarrow> place b = place b' \<Longrightarrow> b \<in> reported t"
  shows "media_result place wbad rbad env fakes st t"
  unfolding media_result_def by (intro conjI impI ballI) (use assms in simp_all)

lemma media_resultD:
  assumes "media_result place wbad rbad env fakes st t"
  shows "run_inv env t" "\<forall>x. length (ts_dev t x) = block_size env" "stopped t \<Longrightarrow> bb_count t \<ge> max_bb" "reported st \<subseteq> reported t"
    "inj_on place (test_range env) \<Longrightarrow> reported t \<subseteq> reported st \<union> {b \<in> test_range env. wbad b \<or> rbad b}"
    "\<not> stopped t \<Longrightarrow> {b \<in> test_range env. wbad b \<or> rbad b} \<subseteq> reported t"
    "\<not> stopped t \<Longrightarrow> fakes \<Longrightarrow> \<forall>b. \<not> wbad b \<and> \<not> rbad b \<Longrightarrow> b \<in> test_range env \<Longrightarrow> b' \<in> test_range env \<Longrightarrow>
       b < b' \<Longrightarrow> place b = place b' \<Longrightarrow> b \<in> reported t"
  using assms unfolding media_result_def by (simp_all only: simp_thms)

lemma written_inv_start:
  assumes "media_env place wbad rbad env" "p < 256" "\<forall>x. length (ts_dev st x) = block_size env" "stopped st \<longrightarrow> bb_count st \<ge> max_bb"
  shows "write_inv env (ucast p) k place wbad (reported st)
    (start_loop env (st\<lparr>buffer := pattern_fill (te_random env) p (blocks_at_once env * block_size env)\<rparr>))"
  using assms by (auto simp: write_inv_def start_loop_def reported_def stored_def buffer_ok_def pattern_fill_byte media_env_def)

text \<open>A block whose contents differ was not written, or shares its place with a later block.\<close>

lemma differ_cases:
  assumes "stored env c k place (tested env (last_block env) (\<lambda>b. \<not> wbad b)) D" "b \<in> test_range env"
    "D (place b) \<noteq> block_data env c k b"
  shows "wbad b \<or> (\<exists>b' \<in> test_range env. b' \<noteq> b \<and> place b' = place b)"
  using assms by (force simp: stored_def)

lemma differ_alias:
  assumes "stored env c 0 place (tested env (last_block env) (\<lambda>b. \<not> wbad b)) D" "\<forall>b. \<not> wbad b" "detect_fakes env"
    "id_offset env + 8 \<le> block_size env" "last_block env \<le> 2 ^ 64"
    "b \<in> test_range env" "b' \<in> test_range env" "b < b'" "place b = place b'"
  shows "D (place b) \<noteq> block_data env c 0 b"
proof
  assume eq: "D (place b) = block_data env c 0 b"
  obtain x where x: "x \<in> test_range env" "D (place b) = block_data env c 0 x" "b' \<le> x"
    using assms(1,2,6,7,9) by (force simp: stored_def)
  then have "b = x"
    using eq assms(3-6) by (intro block_data_inj [of env b x c]) auto
  then show False
    using x(3) assms(8) by simp
qed

lemma media_pass:
  assumes "media_env place wbad rbad env" "p < 256" "run_inv env st" "\<not> stopped st"
    "\<forall>x. length (ts_dev st x) = block_size env" "last_block env \<le> 2 ^ 64"
  obtains t where "test_pass env p k st = Some t" "media_result place wbad rbad env (k = 0 \<and> detect_fakes env) st t"
proof -
  note m = assms(1) [unfolded media_env_def]
  let ?c = "ucast p :: byte" and ?W = "tested env (last_block env) wbad"
  let ?R = "\<lambda>s. \<exists>D. stored env ?c k place (tested env (last_block env) (\<lambda>b. \<not> wbad b)) D \<and> (\<forall>x. length (D x) = block_size env) \<and>
      read_inv env ?c k place rbad (reported st \<union> ?W) D s"
  have start: "?R (start_loop env s)" if "write_inv env ?c k place wbad (reported st) s" "\<not> stopped s" "last_block env \<le> currently_testing s" for s
  proof -
    have "currently_testing s = last_block env"
      using that by (simp add: write_inv_def)
    then show ?thesis
      using that m by (intro exI [of _ "ts_dev s"]) (auto simp: write_inv_def read_inv_def start_loop_def reported_def Let_def)
  qed
  obtain t where t: "test_pass env p k st = Some t" "run_inv env t"
    "stopped t \<and> write_inv env ?c k place wbad (reported st) t \<or> ?R t \<and> (stopped t \<or> last_block env \<le> currently_testing t)"
    by (rule test_pass_rule [OF assms(3) _ assms(4), of "write_inv env ?c k place wbad (reported st)" p k ?R])
      (use m start written_inv_start [OF assms(1,2,5)] assms(4) write_body_media [OF assms(1)] read_body_media [OF assms(1)] in blast)+
  show thesis
  proof (cases "stopped t \<and> write_inv env ?c k place wbad (reported st) t")
    case True
    then have "currently_testing t \<le> last_block env"
      by (simp add: write_inv_def)
    then have "tested env (currently_testing t) wbad \<subseteq> {b \<in> test_range env. wbad b \<or> rbad b}"
      by auto
    then have "media_result place wbad rbad env (k = 0 \<and> detect_fakes env) st t"
      using True t(2) by (intro media_resultI) (simp_all add: write_inv_def le_supI2)
    then show thesis
      by (rule that [OF t(1)])
  next
    case False
    then obtain D where D: "stored env ?c k place (tested env (last_block env) (\<lambda>b. \<not> wbad b)) D" "\<forall>x. length (D x) = block_size env"
      "read_inv env ?c k place rbad (reported st \<union> ?W) D t" "stopped t \<or> last_block env \<le> currently_testing t"
      using t(3) by blast
    note r = D(3) [unfolded read_inv_def Let_def]
    have inj: "reported t \<subseteq> reported st \<union> {b \<in> test_range env. wbad b \<or> rbad b}" if "inj_on place (test_range env)"
    proof
      fix b assume b: "b \<in> reported t"
      then consider "b \<in> reported st" | "b \<in> ?W" | "b \<in> tested env (currently_testing t) rbad"
        | "b \<in> tested env (currently_testing t) (\<lambda>b. D (place b) \<noteq> block_data env ?c k b)"
        using r by blast
      then show "b \<in> reported st \<union> {b \<in> test_range env. wbad b \<or> rbad b}"
      proof cases
        case 4
        then have "b \<in> test_range env" "wbad b"
          using r differ_cases [OF D(1), of b] that by (auto simp: inj_on_def)
        then show ?thesis by simp
      qed (use r in auto)
    qed
    have all: "{b \<in> test_range env. wbad b \<or> rbad b} \<subseteq> reported t" if "\<not> stopped t"
    proof -
      have "currently_testing t = last_block env" using that D(4) r by simp
      then show ?thesis using r by auto
    qed
    have aliased: "b \<in> reported t"
      if "\<not> stopped t" "k = 0" "detect_fakes env" "\<forall>b. \<not> wbad b \<and> \<not> rbad b" "b \<in> test_range env" "b' \<in> test_range env" "b < b'" "place b = place b'" for b b'
    proof -
      have "D (place b) \<noteq> block_data env ?c k b" "currently_testing t = last_block env"
        using differ_alias [of env ?c place wbad D b b'] D(1,4) r that m assms(6) by simp_all
      then have "b \<in> tested env (currently_testing t) (\<lambda>b. D (place b) \<noteq> block_data env ?c k b)"
        using that(5) by simp
      then show ?thesis using r that(4) by blast
    qed
    have "media_result place wbad rbad env (k = 0 \<and> detect_fakes env) st t"
      by (rule media_resultI) (use t(2) r D(2) inj all aliased in simp_all)
    then show thesis
      by (rule that [OF t(1)])
  qed
qed

section \<open>The whole test\<close>

text \<open>The last field of \<^const>\<open>media_result\<close> only concerns the first pass; later passes keep what it reported.\<close>

lemma media_result_trans:
  assumes "media_result place wbad rbad env fakes st t" "media_result place wbad rbad env f t u" "stopped t \<longrightarrow> u = t"
  shows "media_result place wbad rbad env fakes st u"
proof (cases "stopped t")
  case True
  then show ?thesis using assms(1,3) by simp
next
  case False
  note a = media_resultD [OF assms(1)] and b = media_resultD [OF assms(2)]
  show ?thesis
    by (rule media_resultI [OF b(1-3) subset_trans [OF a(4) b(4)]])
      (use subset_trans [OF b(5) Un_mono [OF a(5) order_refl]] b(6) a(7) False b(4) in \<open>auto simp: Un_assoc\<close>)
qed

lemma test_passes_stopped: "stopped st \<Longrightarrow> test_passes env ps k st = Some st"
  by (induction ps arbitrary: k) (auto simp: test_pass_def)


subsection \<open>Later passes with any pattern\<close>

text \<open>
  On a drive without I/O errors every access but the last has full size, so a pattern of any length lies in the same
  way in each block when it is written and when it is read.
\<close>

lemma good_run_all: "good_run (\<lambda>_. False) start n = n"
  using takeWhile_eq_all_conv [of "\<lambda>_. True" "[start..<start + n]"] by (simp add: good_run_def del: takeWhile_eq_all_conv)

definition base_block :: "'d test_env \<Rightarrow> bytes \<Rightarrow> nat \<Rightarrow> bytes" where
  "base_block env buf b = slice ((b - first_block env) mod blocks_at_once env * block_size env) (block_size env) buf"

definition full_access :: "'d test_env \<Rightarrow> bytes \<Rightarrow> 'd test_state \<Rightarrow> bool" where
  "full_access env buf st \<longleftrightarrow> buffer st = buf \<and> currently_testing st \<le> last_block env \<and> (stopped st \<longrightarrow> bb_count st \<ge> max_bb) \<and>
     (currently_testing st < last_block env \<longrightarrow> tryout st = blocks_at_once env \<and> blocks_at_once env dvd currently_testing st - first_block env)"

definition clean_write_inv ::
    "(nat \<Rightarrow> nat) \<Rightarrow> (nat \<Rightarrow> bytes) test_env \<Rightarrow> bytes \<Rightarrow> nat set \<Rightarrow> (nat \<Rightarrow> bytes) test_state \<Rightarrow> bool" where
  "clean_write_inv place env buf R0 st \<longleftrightarrow> full_access env buf st \<and> reported st = R0 \<and> (\<forall>x. length (ts_dev st x) = block_size env) \<and>
     (inj_on place (test_range env) \<longrightarrow>
        (\<forall>b. first_block env \<le> b \<and> b < currently_testing st \<longrightarrow> ts_dev st (place b) = base_block env buf b))"

definition clean_read_inv ::
    "(nat \<Rightarrow> nat) \<Rightarrow> (nat \<Rightarrow> bytes) test_env \<Rightarrow> bytes \<Rightarrow> nat set \<Rightarrow> (nat \<Rightarrow> bytes) test_state \<Rightarrow> bool" where
  "clean_read_inv place env buf R0 st \<longleftrightarrow> full_access env buf st \<and> R0 \<subseteq> reported st \<and> (\<forall>x. length (ts_dev st x) = block_size env) \<and>
     (inj_on place (test_range env) \<longrightarrow> reported st = R0 \<and> (\<forall>b \<in> test_range env. ts_dev st (place b) = base_block env buf b))"

lemma base_block_slice:
  assumes "first_block env \<le> cur" "blocks_at_once env dvd cur - first_block env" "i < blocks_at_once env"
  shows "slice (i * block_size env) (block_size env) buf = base_block env buf (cur + i)"
proof -
  obtain q where "cur - first_block env = blocks_at_once env * q" using assms(2) by (auto elim: dvdE)
  then have "cur + i - first_block env = blocks_at_once env * q + i" using assms(1) by simp
  then show ?thesis using assms(3) by (simp add: base_block_def)
qed

lemma clean_access:
  assumes "loop_inv env st" "full_access env buf st" "currently_testing st < last_block env" "0 < k" "bb_count st < max_bb"
    "s = next_access env k st" "s' = after_access env e (tryout s) (s\<lparr>ts_dev := d, read_buffer := rb\<rparr>)"
  shows "full_access env buf s'" "reported s' = reported st" "currently_testing s' = currently_testing st + tryout s"
    "0 < tryout s" "tryout s \<le> blocks_at_once env" "currently_testing st + tryout s \<le> last_block env" "buffer s = buf" "stopped s' = stopped st"
proof -
  note f = assms(2) [unfolded full_access_def]
  have t: "tryout s = min (blocks_at_once env) (last_block env - currently_testing st)"
    using f assms(3) by (simp add: assms(6) frame_simps)
  have first: "first_block env \<le> currently_testing st" "0 < blocks_at_once env" using assms(1) by (auto simp: loop_inv_def)
  then show pos: "0 < tryout s" using t assms(3) by simp
  show "tryout s \<le> blocks_at_once env" "currently_testing st + tryout s \<le> last_block env" using t assms(3) by auto
  show buf: "buffer s = buf" using f assms(4) by (simp add: assms(6) next_access_def Let_def)
  show cur: "currently_testing s' = currently_testing st + tryout s"
    using pos by (simp add: assms(7) frame_simps) (simp add: assms(6) frame_simps)
  show "reported s' = reported st"
    using pos by (simp add: assms(7) reported_def after_access_report) (simp add: assms(6) frame_simps)
  show stop: "stopped s' = stopped st" by (simp add: assms(7) frame_simps) (simp add: assms(6) frame_simps)
  have st': "buffer s' = buf" "\<not> stopped s'" "tryout s = blocks_at_once env \<Longrightarrow> tryout s' = blocks_at_once env"
    using buf f assms(5) stop by (auto simp: assms(7) frame_simps)
  show "full_access env buf s'"
  proof (cases "tryout s = blocks_at_once env")
    case True
    have "currently_testing st + tryout s - first_block env = currently_testing st - first_block env + tryout s" using first by simp
    then have "blocks_at_once env dvd currently_testing st + tryout s - first_block env" using f assms(3) True by simp
    then show ?thesis using st' cur t True assms(3) by (auto simp: full_access_def)
  next
    case False
    then have "currently_testing s' = last_block env" using cur t assms(3) by (simp add: min_def split: if_splits)
    then show ?thesis using st' by (simp add: full_access_def)
  qed
qed

lemma clean_write_body:
  assumes "media_env place (\<lambda>_. False) rbad env" "loop_inv env st" "clean_write_inv place env buf R0 st"
    "currently_testing st < last_block env" "0 < k" "length buf = blocks_at_once env * block_size env"
  shows "clean_write_inv place env buf R0 (write_body env k st)"
proof (cases "bb_count st \<ge> max_bb")
  case True
  then show ?thesis
    using assms(3) by (simp add: write_body_def too_many_def clean_write_inv_def full_access_def reported_def)
next
  case False
  let ?bs = "block_size env" and ?c = "currently_testing st"
  note m = assms(1) [unfolded media_env_def] and w = assms(3) [unfolded clean_write_inv_def]
  define s where "s = next_access env k st"
  define g where "g = (\<lambda>i. slice (i * ?bs) ?bs (take (tryout s * ?bs) (buffer s)))"
  define d where "d = fold (\<lambda>i d. d(place (?c + i) := g i)) [0..<tryout s] (ts_dev st)"
  have "?bs \<noteq> 0" using m by linarith
  then have "blocks_got env (int (tryout s * ?bs)) = tryout s" by (simp add: blocks_got_def del: of_nat_mult)
  then have code: "write_body env k st = after_access env WRITE_ERROR (tryout s) (s\<lparr>ts_dev := d, read_buffer := read_buffer s\<rparr>)"
    using False m by (simp add: write_body_def s_def [symmetric] Let_def media_write_def good_run_all d_def g_def del: of_nat_mult)
      (simp add: s_def frame_simps del: of_nat_mult)
  note a = clean_access [OF assms(2) conjunct1 [OF w] assms(4,5) _ s_def code]
  have first: "first_block env \<le> ?c" "blocks_at_once env dvd ?c - first_block env"
    using assms(2,4) w by (auto simp: loop_inv_def full_access_def)
  have fits: "i * ?bs + ?bs \<le> tryout s * ?bs \<and> tryout s * ?bs \<le> length buf" if "i < tryout s" for i
    using that a(5) False mult_le_mono1 [of "Suc i" "tryout s" ?bs] mult_le_mono1 [of "tryout s" "blocks_at_once env" ?bs] assms(6) by simp
  have g: "g i = base_block env buf (?c + i)" "length (g i) = ?bs" if "i < tryout s" for i
  proof -
    have "g i = slice (i * ?bs) ?bs buf" using fits [OF that] a(7) False by (simp add: g_def slice_take)
    then show "g i = base_block env buf (?c + i)" using base_block_slice [OF first, of i buf] a(5) False that by simp
    show "length (g i) = ?bs" unfolding \<open>g i = slice (i * ?bs) ?bs buf\<close> length_slice using fits [OF that] by linarith
  qed
  have d: "length (d x) = ?bs" for x
    using fold_upd [of "tryout s" "\<lambda>i. place (?c + i)" x g "ts_dev st"] w g(2) by (cases "\<exists>i < tryout s. place (?c + i) = x") (auto simp: d_def)
  have upto: "?c + tryout s \<le> last_block env" using a(6) False by simp
  have inj: "?c + i = b" if "inj_on place (test_range env)" "first_block env \<le> b" "b < ?c + tryout s" "i < tryout s" "place (?c + i) = place b" for b i
    by (rule inj_onD [OF that(1,5)]) (use that(2-4) first(1) upto in simp_all)
  have "d (place b) = base_block env buf b" if b: "inj_on place (test_range env)" "first_block env \<le> b" "b < ?c + tryout s" for b
  proof (cases "\<exists>i < tryout s. place (?c + i) = place b")
    case True
    then obtain i where i: "i < tryout s" "place (?c + i) = place b" "d (place b) = g i"
      using fold_upd(1) [of "tryout s" "\<lambda>i. place (?c + i)" "place b" g "ts_dev st"] by (auto simp: d_def)
    then show ?thesis using inj [OF b i(1,2)] g(1) [OF i(1)] by simp
  next
    case None: False
    then have "\<not> ?c \<le> b" using b(3) by (auto dest: spec [of _ "b - ?c"])
    then have "ts_dev st (place b) = base_block env buf b" using w b by simp
    then show ?thesis using None fold_upd(2) [of "tryout s" "\<lambda>i. place (?c + i)" "place b" g "ts_dev st"] by (simp add: d_def)
  qed
  moreover have "ts_dev (write_body env k st) = d" by (simp add: code frame_simps)
  ultimately show ?thesis
    using a(1-3) w d False unfolding clean_write_inv_def by simp
qed

lemma clean_read_body:
  assumes "media_env place wbad (\<lambda>_. False) env" "loop_inv env st" "clean_read_inv place env buf R0 st"
    "currently_testing st < last_block env" "0 < k"
  shows "clean_read_inv place env buf R0 (read_body env k st)"
proof (cases "bb_count st \<ge> max_bb")
  case True
  then show ?thesis
    using assms(3) by (simp add: read_body_def too_many_def clean_read_inv_def full_access_def reported_def)
next
  case False
  let ?bs = "block_size env" and ?c = "currently_testing st" and ?D = "ts_dev st"
  note m = assms(1) [unfolded media_env_def] and r = assms(3) [unfolded clean_read_inv_def]
  define s where "s = next_access env k st"
  define n where "n = tryout s"
  define data where "data = concat (map (\<lambda>i. ?D (place (?c + i))) [0..<n])"
  define s3 where "s3 = after_access env READ_ERROR (tryout s) (s\<lparr>ts_dev := ?D, read_buffer := memcpy_to 0 data (read_buffer s)\<rparr>)"
  note a = clean_access [OF assms(2) conjunct1 [OF r] assms(4,5) _ s_def s3_def]
  have "?bs \<noteq> 0" using m by linarith
  then have got: "blocks_got env (int (n * ?bs)) = n" by (simp add: blocks_got_def del: of_nat_mult)
  have "te_read env (currently_testing s) n (ts_dev s) = (int (n * ?bs), data, ?D)"
    using m by (simp add: media_read_def data_def s_def frame_simps Let_def good_run_all del: of_nat_mult)
  then have code: "read_body env k st = compare_loop env n [0..<n] s3"
    using False by (simp add: read_body_def s_def [symmetric] got [unfolded n_def] Let_def s3_def n_def del: of_nat_mult)
  have first: "first_block env \<le> ?c" "blocks_at_once env dvd ?c - first_block env"
    using assms(2,4) r by (auto simp: loop_inv_def full_access_def)
  have s3: "read_buffer s3 = data @ drop (length data) (read_buffer s)" "buffer s3 = buf" "ts_dev s3 = ?D" "\<not> stopped st"
    using a(1) r False by (auto simp: full_access_def s3_def frame_simps memcpy_to_def)
  have "report_inv env s3"
    unfolding s3_def using assms(2,4) by (intro after_access_report(3)) (auto simp: loop_inv_def report_inv_def s_def frame_simps)
  then have cmp: "reported (compare_loop env n [0..<n] s3) = reported s3 \<union> (\<lambda>i. currently_testing s3 + i - n) `
      {i \<in> set [0..<n]. slice (i * ?bs) ?bs (read_buffer s3) \<noteq> slice (i * ?bs) ?bs (buffer s3)} \<and>
    stopped (compare_loop env n [0..<n] s3) = stopped s3"
    using m a(3,6) first(1) False by (intro compare_loop_reported) (auto simp: n_def)
  have same: "slice (i * ?bs) ?bs (read_buffer s3) = slice (i * ?bs) ?bs (buffer s3)" if "inj_on place (test_range env)" "i < n" for i
  proof -
    have "slice (i * ?bs) ?bs (read_buffer s3) = ?D (place (?c + i))"
      using slice_concat [of n "\<lambda>i. ?D (place (?c + i))" ?bs i] r that(2) by (simp add: s3(1) data_def)
    also have "\<dots> = base_block env buf (?c + i)" using r that first(1) a(6) False by (auto simp: n_def)
    finally show ?thesis using base_block_slice [OF first, of i buf] that(2) a(5) False by (simp add: s3(2) n_def)
  qed
  have "full_access env buf (read_body env k st)"
    using a(1,8) False cmp s3(4) by (auto simp: full_access_def code frame_simps)
  moreover have "reported (read_body env k st) = R0" if "inj_on place (test_range env)"
    using cmp same [OF that] a(2) False r that by (auto simp: code)
  moreover have "R0 \<subseteq> reported (read_body env k st)"
    using cmp a(2) False r by (auto simp: code)
  ultimately show ?thesis
    using r s3(3) unfolding clean_read_inv_def by (simp add: code frame_simps)
qed

lemma length_pattern_fill: "length (pattern_fill rnd p n) = n"
proof -
  have "length (fill_loop bp nb i m) = m" for bp nb i m by (induction m arbitrary: i) auto
  then show ?thesis by (simp add: pattern_fill_def Let_def)
qed

lemma clean_pass:
  assumes "media_env place (\<lambda>_. False) (\<lambda>_. False) env" "run_inv env st" "\<not> stopped st" "0 < k"
    "\<forall>x. length (ts_dev st x) = block_size env"
  obtains t where "test_pass env p k st = Some t" "media_result place (\<lambda>_. False) (\<lambda>_. False) env False st t"
proof -
  note m = assms(1) [unfolded media_env_def]
  define buf where "buf = pattern_fill (te_random env) p (blocks_at_once env * block_size env)"
  let ?Q = "clean_write_inv place env buf (reported st)" and ?R = "clean_read_inv place env buf (reported st)"
  have len: "length buf = blocks_at_once env * block_size env" by (simp add: buf_def length_pattern_fill)
  have start: "?Q (start_loop env (st\<lparr>buffer := buf\<rparr>))"
    using m assms(3,5) by (auto simp: clean_write_inv_def full_access_def start_loop_def reported_def)
  have next_loop: "?R (start_loop env s)" if "?Q s" "\<not> stopped s" "last_block env \<le> currently_testing s" for s
    using that m by (auto simp: clean_write_inv_def clean_read_inv_def full_access_def start_loop_def reported_def)
  obtain t where t: "test_pass env p k st = Some t" "run_inv env t" "?Q t \<or> ?R t"
    by (rule test_pass_rule [OF assms(2) _ assms(3), of ?Q p k ?R])
      (use m start next_loop clean_write_body [OF assms(1) _ _ _ assms(4) len] clean_read_body [OF assms(1) _ _ _ assms(4)] in \<open>auto simp: buf_def\<close>)
  have "media_result place (\<lambda>_. False) (\<lambda>_. False) env False st t"
    by (rule media_resultI) (use t(2,3) in \<open>auto simp: clean_write_inv_def clean_read_inv_def full_access_def\<close>)
  then show thesis by (rule that [OF t(1)])
qed

lemma media_result_refl:
  "run_inv env st \<Longrightarrow> \<forall>x. length (ts_dev st x) = block_size env \<Longrightarrow> \<not> stopped st \<Longrightarrow>
   media_result place (\<lambda>_. False) (\<lambda>_. False) env False st st"
  by (rule media_resultI) auto

lemma clean_passes:
  assumes "media_env place (\<lambda>_. False) (\<lambda>_. False) env" "run_inv env st" "\<not> stopped st" "0 < k"
    "\<forall>x. length (ts_dev st x) = block_size env"
  shows "\<exists>t. test_passes env ps k st = Some t \<and> media_result place (\<lambda>_. False) (\<lambda>_. False) env False st t"
  using assms(2-5)
proof (induction ps arbitrary: k st)
  case Nil
  then show ?case by (auto intro: media_result_refl)
next
  case (Cons p ps)
  obtain t where t: "test_pass env p k st = Some t" "media_result place (\<lambda>_. False) (\<lambda>_. False) env False st t"
    by (rule clean_pass [OF assms(1) Cons.prems])
  show ?case
  proof (cases "stopped t")
    case True
    then show ?thesis using t test_passes_stopped [of t env ps] by simp
  next
    case False
    note r = media_resultD [OF t(2)]
    obtain u where u: "test_passes env ps (k + 1) t = Some u" "media_result place (\<lambda>_. False) (\<lambda>_. False) env False t u"
      using Cons.IH [OF r(1) False _ r(2), of "k + 1"] by auto
    then show ?thesis using t media_result_trans [OF t(2) u(2)] False by auto
  qed
qed

subsection \<open>All passes\<close>

lemma byte_patterns:
  assumes "0 \<le> pt" "pt < 5" "1 \<le> np" "np \<le> 4"
  shows "\<exists>p ps. take (nat np) (test_patterns ! nat pt) = p # ps \<and> p < 256"
    "pt < 4 \<or> np \<le> 2 \<Longrightarrow> \<forall>p \<in> set (take (nat np) (test_patterns ! nat pt)). p < 256"
proof -
  have pt: "nat pt \<in> {0, 1, 2, 3, 4}" and np: "nat np \<in> {1, 2, 3, 4}" using assms by auto
  then show "\<exists>p ps. take (nat np) (test_patterns ! nat pt) = p # ps \<and> p < 256"
    by (auto simp: test_patterns_def)
  assume "pt < 4 \<or> np \<le> 2"
  then have "nat pt \<in> {0, 1, 2, 3} \<or> nat np \<in> {1, 2}" using pt np by auto
  then show "\<forall>p \<in> set (take (nat np) (test_patterns ! nat pt)). p < 256"
    using pt np by (auto simp: test_patterns_def)
qed

lemma media_env_size:
  assumes "media_env place wbad rbad env"
  shows "last_block env \<le> 2 ^ 64" "\<not> int (first_block env * block_size env) > PB" "\<not> int (last_block env * block_size env) > PB" "te_mem env n"
proof -
  note m = assms [unfolded media_env_def]
  have bs: "1 \<le> block_size env" using m by linarith
  have "last_block env \<le> last_block env * block_size env" "first_block env * block_size env \<le> last_block env * block_size env"
    using bs m by (auto intro: mult_le_mono1)
  then have "int (last_block env) < PB" "int (first_block env * block_size env) < PB" using m by linarith+
  then show "last_block env \<le> 2 ^ 64" "\<not> int (first_block env * block_size env) > PB" "\<not> int (last_block env * block_size env) > PB" "te_mem env n"
    using m by (simp_all add: PB_def)
qed


lemma test_rw_clean:
  assumes "media_env place (\<lambda>_. False) (\<lambda>_. False) env" "make_u64_list mem n = Some bb" "\<forall>x. length (d x) = block_size env"
    "0 \<le> pt" "pt < 5" "1 \<le> np" "np \<le> 4"
  shows "\<exists>t. test_rw env pt np (initial_state bb rbuf d) = Some t \<and>
    media_result place (\<lambda>_. False) (\<lambda>_. False) env (detect_fakes env) (initial_state bb rbuf d) t \<and> reported (initial_state bb rbuf d) = {}"
proof -
  note m = assms(1) [unfolded media_env_def]
  let ?st = "initial_state bb rbuf d" and ?none = "\<lambda>_ :: nat. False"
  have st: "\<not> stopped ?st" "\<forall>x. length (ts_dev ?st x) = block_size env" "reported ?st = {}"
    using assms(3) make_u64_list_ok [OF assms(2)] by (simp_all add: initial_state_def reported_def)
  obtain p ps where p: "take (nat np) (test_patterns ! nat pt) = p # ps" "p < 256"
    using byte_patterns(1) [OF assms(4-7)] by blast
  have code: "test_rw env pt np ?st = test_passes env (p # ps) 0 ?st" "last_block env \<le> 2 ^ 64"
    using media_env_size [OF assms(1)] p(1) assms(4-7) by (simp_all add: test_rw_def)
  obtain t where t: "test_pass env p 0 ?st = Some t" "media_result place ?none ?none env (0 = (0 :: nat) \<and> detect_fakes env) ?st t"
    using media_pass [OF assms(1) p(2) initial_run [OF assms(2)] st(1,2) code(2), of 0] by metis
  show ?thesis
  proof (cases "stopped t")
    case True
    then show ?thesis using t code test_passes_stopped [of t env ps] st(3) by simp
  next
    case False
    note r = media_resultD [OF t(2)]
    obtain u where u: "test_passes env ps 1 t = Some u" "media_result place ?none ?none env False t u"
      using clean_passes [OF assms(1) r(1) False _ r(2), of 1 ps] by auto
    then show ?thesis using t code media_result_trans [OF t(2) u(2)] False st(3) by simp
  qed
qed


text \<open>
  C2. Fake drives are found out. On a drive without I/O errors that stores block \<open>b\<close> in \<open>place b\<close>, \<^verbatim>\<open>BadBlocks\<close> with the detection
  of fakes reports no bad block exactly if no two blocks share a place, so a drive that pretends to be
  larger than it is never passes, whatever the random offset of the block numbers, the number of passes and the flash type are.
  Without I/O errors this includes TLC: its first pattern, which carries the block numbers, is a single byte, and the
  three-byte patterns of the later passes are read back in accesses of the same size as they were written.
\<close>

theorem BadBlocks_detects_fakes:
  assumes "rnd \<le> rand_max" "0 < rand_max" "disk_size < 2 ^ 50" "\<forall>x. length (d x) = BADBLOCK_BLOCK_SIZE" "0 \<le> flash_type" "flash_type < 5"
    "1 \<le> nb_passes" "nb_passes \<le> 4"
  shows "\<exists>ok rep d'. BadBlocks (media_write BADBLOCK_BLOCK_SIZE place (\<lambda>_. False)) (media_read BADBLOCK_BLOCK_SIZE place (\<lambda>_. False))
      (\<lambda>_. True) random True rnd rand_max rbuf disk_size nb_passes flash_type d = Some (ok, rep, d') \<and>
    (rep_bb_count rep = 0 \<longleftrightarrow> inj_on place {0..<disk_size div BADBLOCK_BLOCK_SIZE})"
proof -
  let ?bs = "BADBLOCK_BLOCK_SIZE"
  define env where "env = \<lparr>te_write = media_write ?bs place (\<lambda>_. False), te_read = media_read ?bs place (\<lambda>_. False), te_mem = \<lambda>_. True,
    te_random = random, last_block = disk_size div ?bs, block_size = ?bs, first_block = 0, blocks_at_once = BB_BLOCKS_AT_ONCE,
    detect_fakes = True, id_offset = rnd * (?bs - 8) div rand_max\<rparr>"
  have bs: "8 \<le> ?bs" by (simp add: BADBLOCK_BLOCK_SIZE_def)
  have "rnd * (?bs - 8) div rand_max \<le> rand_max * (?bs - 8) div rand_max"
    using assms(1) by (intro div_le_mono mult_le_mono1)
  then have "rnd * (?bs - 8) div rand_max + 8 \<le> ?bs"
    using assms(2) bs by simp
  moreover have "int (disk_size div ?bs * ?bs) < PB"
  proof -
    have "disk_size div ?bs * ?bs < 2 ^ 50"
      by (rule le_less_trans [OF div_times_less_eq_dividend assms(3)])
    then have "disk_size div ?bs * ?bs < 1125899906842624"
      by simp
    then show ?thesis
      unfolding PB_def by linarith
  qed
  ultimately have m: "media_env place (\<lambda>_. False) (\<lambda>_. False) env"
    by (simp add: media_env_def env_def BB_BLOCKS_AT_ONCE_def del: of_nat_mult)
  obtain bb where bb: "make_u64_list (\<lambda>_. True) 0 = Some bb"
    by (simp add: make_u64_list_def)
  have fields: "first_block env = 0" "last_block env = disk_size div ?bs" "detect_fakes env" "block_size env = ?bs"
    by (simp_all add: env_def)
  obtain st where st: "test_rw env flash_type nb_passes (initial_state bb rbuf d) = Some st"
    "media_result place (\<lambda>_. False) (\<lambda>_. False) env (detect_fakes env) (initial_state bb rbuf d) st" "reported (initial_state bb rbuf d) = {}"
    using test_rw_clean [OF m bb _ assms(5-8), of d rbuf] assms(4) fields(4) by auto
  note r = media_resultD [OF st(2), unfolded st(3) fields]
  have count: "bb_count st = 0 \<longleftrightarrow> reported st = {}"
    using r(1) by (simp add: run_inv_def report_inv_def reported_def)
  have "reported st = {} \<longleftrightarrow> inj_on place {0..<disk_size div ?bs}"
  proof
    assume none: "reported st = {}"
    then have run: "\<not> stopped st"
      using r(3) count by (auto simp: max_bb_def)
    show "inj_on place {0..<disk_size div ?bs}"
    proof (rule linorder_inj_onI)
      fix b b' assume "b < b'" "b \<in> {0..<disk_size div ?bs}" "b' \<in> {0..<disk_size div ?bs}"
      then show "place b \<noteq> place b'"
        using r(7) [OF run, of b b'] none fields(3) by auto
    qed auto
  qed (use r(5) in auto)
  then have "rep_bb_count \<lparr>rep_bb_count = bb_count st, rep_read_errors = num_read_errors st, rep_write_errors = num_write_errors st,
      rep_corruption_errors = num_corruption_errors st\<rparr> = 0 \<longleftrightarrow> inj_on place {0..<disk_size div ?bs}"
    using count by simp
  then show ?thesis
    using st(1) bb unfolding BadBlocks_def env_def [symmetric] Let_def by auto
qed

text \<open>A drive of four blocks, of which block 1 cannot be read.\<close>

definition flaw_env :: "nat \<Rightarrow> nat \<Rightarrow> (nat \<Rightarrow> bytes) test_env" where
  "flaw_env bs n = \<lparr>te_write = media_write bs id (\<lambda>_. False), te_read = media_read bs id (\<lambda>b. b = 1), te_mem = \<lambda>_. True,
     te_random = \<lambda>_. 0, last_block = 4, block_size = bs, first_block = 0, blocks_at_once = n, detect_fakes = False, id_offset = 0\<rparr>"


theorem BadBlocks_detects_fakes_witness:
  "\<exists>ok rep d'. BadBlocks (media_write BADBLOCK_BLOCK_SIZE (\<lambda>b. b mod 3) (\<lambda>_. False)) (media_read BADBLOCK_BLOCK_SIZE (\<lambda>b. b mod 3) (\<lambda>_. False))
      (\<lambda>_. True) (\<lambda>_. 0) True 5 32767 [] (4 * BADBLOCK_BLOCK_SIZE) 4 4 (\<lambda>_. replicate BADBLOCK_BLOCK_SIZE 0) = Some (ok, rep, d') \<and>
    rep_bb_count rep \<noteq> 0"
proof -
  have bs: "BADBLOCK_BLOCK_SIZE = 524288"
    by (simp add: BADBLOCK_BLOCK_SIZE_def)
  have "\<not> inj_on (\<lambda>b. b mod 3) {0..<4 * BADBLOCK_BLOCK_SIZE div BADBLOCK_BLOCK_SIZE}"
    using inj_onD [of "\<lambda>b. b mod 3" "{0..<4 * BADBLOCK_BLOCK_SIZE div BADBLOCK_BLOCK_SIZE}" 0 3] by (auto simp: bs)
  then show ?thesis
    using BadBlocks_detects_fakes [of 5 32767 "4 * BADBLOCK_BLOCK_SIZE" "\<lambda>_. replicate BADBLOCK_BLOCK_SIZE 0" 4 4 "\<lambda>b. b mod 3" "\<lambda>_. 0" "[]"]
    by (simp add: bs)
qed

section \<open>Patterns of three bytes\<close>

text \<open>
  From the third pass of the TLC type on, whose patterns have three bytes, the test reports good blocks after an error. On a drive of four blocks that keeps everything
  that is written to it, but whose block 1 cannot be read, block 2 is reported as corrupt too: four blocks are
  written in one access, with the pattern running on from block to block, but after the read error blocks
  are read one by one and compared with the start of the pattern. As with the real block size, the size of a
  block is not a multiple of three bytes here.
\<close>

theorem three_byte_pattern_misreports:
  "map_option (\<lambda>st. (take (bb_num (bb_list st)) (bb_array (bb_list st)), num_read_errors st, num_corruption_errors st))
     (test_rw (flaw_env 2 4) 4 3 (initial_state \<lparr>bb_num = 0, bb_size = 2, bb_array = [0, 0]\<rparr> [0, 0, 0, 0, 0, 0, 0, 0] (\<lambda>_. [0, 0]))) =
   Some ([1, 2], 1, 1) \<and>
   BADBLOCK_BLOCK_SIZE mod 3 = 2"
proof
  show "BADBLOCK_BLOCK_SIZE mod 3 = 2"
    by (simp add: BADBLOCK_BLOCK_SIZE_def)
qed code_simp

end
