(* ===== verification/Pe_Image.thy ===== *)
theory Pe_Image
  imports Hash "HOL-Library.Monad_Syntax" "HOL-Library.Multiset"
begin

text \<open>
  The Authenticode digest of EFI executables in \<^verbatim>\<open>src/common/hash.c\<close>: the ordered list of disjoint
  regions (\<^verbatim>\<open>efi_image_region_add\<close>), the PE parser that fills it (\<^verbatim>\<open>efi_image_parse\<close>) and
  \<^verbatim>\<open>PE256Buffer\<close>. Addresses are offsets from the start of the image; the header fields are read at
  the offsets of the structures of \<^verbatim>\<open>src/linux_specific/mini_winnt.h\<close>. A result \<open>None\<close> of a routine
  that reads the image stands for a read past its end, which the code does not check for.
\<close>

section \<open>Regions\<close>

record image_region =
  rg_data :: nat
  rg_size :: u32

record efi_image_regions =
  rgs_max :: nat
  rgs_num :: nat
  rgs_reg :: "image_region list"

definition region_end :: "image_region \<Rightarrow> nat" where
  "region_end r = rg_data r + unat (rg_size r)"

text \<open>\<^verbatim>\<open>calloc\<close> of a list for \<open>n\<close> regions.\<close>

definition new_regions :: "nat \<Rightarrow> efi_image_regions" where
  "new_regions n = \<lparr>rgs_max = n, rgs_num = 0, rgs_reg = replicate n \<lparr>rg_data = 0, rg_size = 0\<rparr>\<rparr>"

text \<open>\<^verbatim>\<open>for (j = regs->num - 1; j >= i; j--) memcpy(&regs->reg[j + 1], &regs->reg[j], ...)\<close>\<close>

definition shift_regions :: "nat \<Rightarrow> nat \<Rightarrow> image_region list \<Rightarrow> image_region list" where
  "shift_regions i n rs = fold (\<lambda>j rs. rs[j + 1 := rs ! j]) (rev [i..<n]) rs"

text \<open>
  The loop over the registered regions: the index at which the new region goes and the list with
  room made for it, or \<open>None\<close> when it overlaps a registered one.
\<close>

function region_loop :: "efi_image_regions \<Rightarrow> nat \<Rightarrow> nat \<Rightarrow> bool \<Rightarrow> nat \<Rightarrow> (nat \<times> image_region list) option" where
  "region_loop regs start end nocheck i =
     (if rgs_num regs \<le> i then Some (i, rgs_reg regs)
      else let reg = rgs_reg regs ! i in
        if nocheck then region_loop regs start end nocheck (i + 1)
        else if region_end reg \<le> start then region_loop regs start end nocheck (i + 1)
        else if end \<le> rg_data reg then Some (i, shift_regions i (rgs_num regs) (rgs_reg regs))
        else None)"
  by pat_completeness auto
termination
  by (relation "measure (\<lambda>(regs, start, end, nocheck, i). rgs_num regs - i)") auto

declare region_loop.simps [simp del]

definition efi_image_region_add ::
    "efi_image_regions \<Rightarrow> nat \<Rightarrow> nat \<Rightarrow> bool \<Rightarrow> bool \<times> efi_image_regions" where
  "efi_image_region_add regs start end nocheck =
     (if rgs_max regs \<le> rgs_num regs then (False, regs)
      else if end < start then (False, regs)
      else case region_loop regs start end nocheck 0 of
             None \<Rightarrow> (False, regs)
           | Some (i, rs) \<Rightarrow>
               (True, regs\<lparr>rgs_reg := rs[i := \<lparr>rg_data = start, rg_size = of_nat (end - start)\<rparr>],
                           rgs_num := rgs_num regs + 1\<rparr>))"

section \<open>The PE parser\<close>

definition get16 :: "bytes \<Rightarrow> nat \<Rightarrow> u16 option" where
  "get16 mem off = map_option le_word (mem_read mem off 2)"

definition get32 :: "bytes \<Rightarrow> nat \<Rightarrow> u32 option" where
  "get32 mem off = map_option le_word (mem_read mem off 4)"

text \<open>The fields of \<^verbatim>\<open>IMAGE_SECTION_HEADER\<close> that the parser uses.\<close>

record pe_section =
  VirtualAddress :: u32
  SizeOfRawData :: u32
  PointerToRawData :: u32

definition cmp_pe_section :: "pe_section \<Rightarrow> pe_section \<Rightarrow> int" where
  "cmp_pe_section s1 s2 =
     (if VirtualAddress s1 < VirtualAddress s2 then - 1
      else if VirtualAddress s1 = VirtualAddress s2 then 0 else 1)"

definition get_section :: "bytes \<Rightarrow> nat \<Rightarrow> pe_section option" where
  "get_section efi off = do {
     va \<leftarrow> get32 efi (off + 12);
     sz \<leftarrow> get32 efi (off + 16);
     ptr \<leftarrow> get32 efi (off + 20);
     Some \<lparr>VirtualAddress = va, SizeOfRawData = sz, PointerToRawData = ptr\<rparr> }"

fun get_sections :: "bytes \<Rightarrow> nat \<Rightarrow> nat \<Rightarrow> pe_section list option" where
  "get_sections efi off 0 = Some []"
| "get_sections efi off (Suc n) = do {
     s \<leftarrow> get_section efi off;
     ss \<leftarrow> get_sections efi (off + 40) n;
     Some (s # ss) }"

text \<open>
  Step 1, the headers, with the offsets of \<^verbatim>\<open>NumberOfRvaAndSizes\<close> and \<^verbatim>\<open>DataDirectory\<close> in the optional
  header at \<open>opt\<close> (the two cases of the code differ in nothing else): the regions, \<^verbatim>\<open>authsz\<close>,
  \<^verbatim>\<open>bytes_hashed\<close> and \<^verbatim>\<open>align\<close>. \<^verbatim>\<open>CheckSum\<close> is at 64, \<^verbatim>\<open>Subsystem\<close> at 68, \<^verbatim>\<open>ctidx\<close> is 4.
\<close>

definition efi_image_headers ::
    "bytes \<Rightarrow> nat \<Rightarrow> nat \<Rightarrow> nat \<Rightarrow> efi_image_regions \<Rightarrow> (efi_image_regions \<times> u32 \<times> nat \<times> u32) option" where
  "efi_image_headers efi opt rvas dir regs = do {
     let regs = snd (efi_image_region_add regs 0 (opt + 64) False);
     nrva \<leftarrow> get32 efi (opt + rvas);
     hdrs \<leftarrow> get32 efi (opt + 60);
     align \<leftarrow> get32 efi (opt + 36);
     let ct = opt + dir + 8 * 4;
     if nrva \<le> 4 then
       Some (snd (efi_image_region_add regs (opt + 68) (unat hdrs) False), 0, unat hdrs, align)
     else do {
       authsz \<leftarrow> get32 efi (ct + 4);
       let regs = snd (efi_image_region_add regs (opt + 68) ct False);
       let regs = snd (efi_image_region_add regs (ct + 8) (unat hdrs) False);
       Some (regs, authsz, unat hdrs, align) } }"

text \<open>Step 2, one section: \<^verbatim>\<open>size\<close> and \<^verbatim>\<open>align\<close> are \<^verbatim>\<open>uint32_t\<close>, so the rounding wraps.\<close>

definition align_up :: "u32 \<Rightarrow> u32 \<Rightarrow> u32" where
  "align_up align n = (n + align - 1) AND NOT (align - 1)"

definition efi_section_step ::
    "u32 \<Rightarrow> pe_section \<Rightarrow> efi_image_regions \<times> nat \<Rightarrow> efi_image_regions \<times> nat" where
  "efi_section_step align s = (\<lambda>(regs, bytes_hashed).
     if SizeOfRawData s = 0 then (regs, bytes_hashed)
     else let sz = align_up align (SizeOfRawData s); p = unat (PointerToRawData s)
          in (snd (efi_image_region_add regs p (p + unat sz) False), bytes_hashed + unat sz))"

text \<open>Step 2 on all sections and step 3, the data after them that is not the certificate table.\<close>

definition efi_image_data ::
    "nat \<Rightarrow> u32 \<Rightarrow> u32 \<Rightarrow> pe_section list \<Rightarrow> efi_image_regions \<times> nat \<Rightarrow> efi_image_regions" where
  "efi_image_data len align authsz sections st =
     (let (regs, bytes_hashed) = fold (efi_section_step align) sections st
      in if bytes_hashed + unat authsz < len
         then snd (efi_image_region_add regs bytes_hashed (len - unat authsz) False)
         else regs)"

text \<open>
  \<^verbatim>\<open>efi_image_parse\<close>, with \<^verbatim>\<open>qsort\<close> as an argument: C leaves open how it orders sections with the same
  address. The inner \<open>None\<close> is the return value \<^verbatim>\<open>FALSE\<close>.
\<close>

definition efi_image_parse ::
    "((pe_section \<Rightarrow> pe_section \<Rightarrow> int) \<Rightarrow> pe_section list \<Rightarrow> pe_section list) \<Rightarrow>
     bytes \<Rightarrow> nat \<Rightarrow> efi_image_regions option option" where
  "efi_image_parse qsort efi len =
     (if len < 0x80 then Some None
      else do {
        lfanew \<leftarrow> get32 efi 0x3c;
        let nt = unat lfanew;
        if len - 0x40 < nt then Some None
        else do {
          nsec \<leftarrow> get16 efi (nt + 6);
          let regs = new_regions (3 + unat nsec + 1);
          let opt = nt + 24;
          magic \<leftarrow> get16 efi opt;
          if magic \<noteq> 0x20b \<and> magic \<noteq> 0x10b then Some None
          else do {
            (regs, authsz, hashed, align) \<leftarrow>
              (if magic = 0x20b then efi_image_headers efi opt 108 112 regs
               else efi_image_headers efi opt 92 96 regs);
            optsz \<leftarrow> get16 efi (nt + 20);
            sections \<leftarrow> get_sections efi (opt + unat optsz) (unat nsec);
            Some (Some (efi_image_data len align authsz (qsort cmp_pe_section sections) (regs, hashed))) } } })"

fun hash_regions :: "bytes \<Rightarrow> image_region list \<Rightarrow> hash_context \<Rightarrow> hash_context option" where
  "hash_regions mem [] ctx = Some ctx"
| "hash_regions mem (r # rs) ctx = do {
     ctx \<leftarrow> sha256_write ctx (drop (rg_data r) mem) (unat (rg_size r));
     hash_regions mem rs ctx }"

text \<open>\<^verbatim>\<open>PE256Buffer\<close> on a non-null buffer and a non-null place for the digest.\<close>

definition PE256Buffer ::
    "((pe_section \<Rightarrow> pe_section \<Rightarrow> int) \<Rightarrow> pe_section list \<Rightarrow> pe_section list) \<Rightarrow>
     bytes \<Rightarrow> nat \<Rightarrow> hash_result" where
  "PE256Buffer qsort mem len =
     (if len = 0 \<or> len < 1024 \<or> 64 * 1048576 < len then HashFalse
      else case efi_image_parse qsort mem len of
             None \<Rightarrow> HashOverread
           | Some None \<Rightarrow> HashFalse
           | Some (Some regs) \<Rightarrow>
               (case hash_regions mem (take (rgs_num regs) (rgs_reg regs)) (sha256_init zero_context) of
                  None \<Rightarrow> HashOverread
                | Some ctx \<Rightarrow> HashTrue (take SHA256_HASHSIZE (buf (sha256_final ctx)))))"

section \<open>The region list is sorted and disjoint\<close>

definition used_regions :: "efi_image_regions \<Rightarrow> image_region list" where
  "used_regions regs = take (rgs_num regs) (rgs_reg regs)"

definition regions_ok :: "efi_image_regions \<Rightarrow> bool" where
  "regions_ok regs \<longleftrightarrow> length (rgs_reg regs) = rgs_max regs \<and> rgs_num regs \<le> rgs_max regs \<and>
     sorted_wrt (\<lambda>a b. region_end a \<le> rg_data b) (used_regions regs)"

lemma regions_ok_new [simp]: "regions_ok (new_regions n)"
  by (simp add: regions_ok_def used_regions_def new_regions_def)

lemma length_shift_regions [simp]: "length (shift_regions i n rs) = length rs"
  unfolding shift_regions_def
  by (rule fold_invariant [where P = "\<lambda>rs'. length rs' = length rs" and Q = "\<lambda>_. True"]) simp_all

lemma shift_regions_nth:
  assumes "n < length rs" "k < length rs"
  shows "shift_regions i n rs ! k = (if i < k \<and> k \<le> n then rs ! (k - 1) else rs ! k)"
  using assms
proof (induction n arbitrary: rs)
  case 0
  then show ?case by (simp add: shift_regions_def)
next
  case (Suc n)
  show ?case
  proof (cases "i \<le> n")
    case True
    then have "shift_regions i (Suc n) rs = shift_regions i n (rs[n + 1 := rs ! n])"
      by (simp add: shift_regions_def)
    then show ?thesis
      using Suc True by (auto simp: nth_list_update)
  next
    case False
    then show ?thesis by (auto simp: shift_regions_def)
  qed
qed

lemma insert_region:
  assumes "i \<le> n" "n < length rs"
  shows "take (n + 1) ((shift_regions i n rs)[i := x]) = take i (take n rs) @ x # drop i (take n rs)"
proof (rule nth_equalityI)
  fix k assume "k < length (take (n + 1) ((shift_regions i n rs)[i := x]))"
  then show "take (n + 1) ((shift_regions i n rs)[i := x]) ! k = (take i (take n rs) @ x # drop i (take n rs)) ! k"
    using assms by (auto simp: shift_regions_nth nth_append nth_Cons' nth_list_update)
qed (use assms in simp)

lemma region_loop_nocheck: "i \<le> rgs_num regs \<Longrightarrow> region_loop regs s e True i = Some (rgs_num regs, rgs_reg regs)"
proof (induction regs s e True i rule: region_loop.induct)
  case (1 regs s e i)
  then show ?case
    by (subst region_loop.simps) (auto simp: Let_def)
qed

lemma region_loop_Some:
  assumes "region_loop regs s e False i = Some (k, rs)" "i \<le> rgs_num regs"
  shows "i \<le> k \<and> k \<le> rgs_num regs \<and> rs = shift_regions k (rgs_num regs) (rgs_reg regs) \<and>
    (\<forall>j. i \<le> j \<and> j < k \<longrightarrow> region_end (rgs_reg regs ! j) \<le> s) \<and>
    (k < rgs_num regs \<longrightarrow> e \<le> rg_data (rgs_reg regs ! k))"
  using assms
proof (induction regs s e False i rule: region_loop.induct)
  case (1 regs s e i)
  show ?case
  proof (cases "i < rgs_num regs \<and> region_end (rgs_reg regs ! i) \<le> s")
    case True
    then have "region_loop regs s e False (i + 1) = Some (k, rs)"
      using "1.prems" by (simp add: region_loop.simps [of _ _ _ _ i] Let_def)
    with True 1 have ih: "i + 1 \<le> k \<and> k \<le> rgs_num regs \<and> rs = shift_regions k (rgs_num regs) (rgs_reg regs) \<and>
        (\<forall>j. i + 1 \<le> j \<and> j < k \<longrightarrow> region_end (rgs_reg regs ! j) \<le> s) \<and>
        (k < rgs_num regs \<longrightarrow> e \<le> rg_data (rgs_reg regs ! k))"
      by simp
    moreover have "region_end (rgs_reg regs ! j) \<le> s" if "i \<le> j" "j < k" for j
      using ih True that by (cases "j = i") auto
    ultimately show ?thesis by simp
  next
    case False
    then show ?thesis
      using "1.prems"
      by (auto simp: region_loop.simps [of _ _ _ _ i] Let_def shift_regions_def split: if_splits)
  qed
qed

lemma region_loop_None:
  assumes "region_loop regs s e False i = None"
  shows "\<exists>j<rgs_num regs. s < region_end (rgs_reg regs ! j) \<and> rg_data (rgs_reg regs ! j) < e"
  using assms
proof (induction regs s e False i rule: region_loop.induct)
  case (1 regs s e i)
  then show ?case
    by (subst (asm) (2) region_loop.simps) (auto simp: Let_def not_le split: if_splits)
qed

definition region_of :: "nat \<Rightarrow> nat \<Rightarrow> image_region" where
  "region_of s e = \<lparr>rg_data = s, rg_size = of_nat (e - s)\<rparr>"

lemma region_of_end: "s \<le> e \<Longrightarrow> region_end (region_of s e) \<le> e"
  using unat_of_nat [of "e - s", where 'a = 32] by (simp add: region_end_def region_of_def)

lemma region_of_data [simp]: "rg_data (region_of s e) = s"
  by (simp add: region_of_def)

lemma used_regions_nth: "j < rgs_num regs \<Longrightarrow> used_regions regs ! j = rgs_reg regs ! j"
  by (simp add: used_regions_def)

lemma length_used_regions: "regions_ok regs \<Longrightarrow> length (used_regions regs) = rgs_num regs"
  by (simp add: regions_ok_def used_regions_def)

text \<open>Where a successful addition puts the new region.\<close>

lemma region_add_True:
  assumes "regions_ok regs" "efi_image_region_add regs s e False = (True, regs')"
  shows "s \<le> e \<and> rgs_num regs < rgs_max regs \<and> rgs_max regs' = rgs_max regs \<and>
    rgs_num regs' = rgs_num regs + 1 \<and> length (rgs_reg regs') = rgs_max regs'"
  using assms region_loop_Some [of regs s e 0]
  by (auto simp: efi_image_region_add_def regions_ok_def split: if_splits option.splits)

lemma region_add_position:
  assumes "regions_ok regs" "efi_image_region_add regs s e False = (True, regs')"
  shows "\<exists>pre post. used_regions regs = pre @ post \<and> used_regions regs' = pre @ region_of s e # post \<and>
    (\<forall>a \<in> set pre. region_end a \<le> s) \<and> (\<forall>b \<in> set post. e \<le> rg_data b)"
proof -
  let ?u = "used_regions regs"
  from assms(2) obtain k rs where k: "region_loop regs s e False 0 = Some (k, rs)" "rgs_num regs < rgs_max regs"
    "regs' = regs\<lparr>rgs_reg := rs[k := region_of s e], rgs_num := rgs_num regs + 1\<rparr>"
    by (auto simp: efi_image_region_add_def region_of_def split: if_splits option.splits)
  note l = region_loop_Some [OF k(1)]
  have u': "used_regions regs' = take k ?u @ region_of s e # drop k ?u"
    using l k assms(1) insert_region [of k "rgs_num regs" "rgs_reg regs" "region_of s e"]
    by (simp add: used_regions_def regions_ok_def)
  have before: "\<forall>a \<in> set (take k ?u). region_end a \<le> s"
    using l by (auto simp: in_set_conv_nth used_regions_def)
  have after: "e \<le> rg_data b" if "b \<in> set (drop k ?u)" for b
  proof -
    obtain j where j: "b = ?u ! (k + j)" "k + j < length ?u"
      using \<open>b \<in> set (drop k ?u)\<close> by (auto simp: in_set_conv_nth)
    then have "e \<le> rg_data (?u ! k)"
      using l length_used_regions [OF assms(1)] by (simp add: used_regions_nth)
    also have "\<dots> \<le> rg_data (?u ! (k + j))"
      using sorted_wrt_nth_less [of "\<lambda>a b. region_end a \<le> rg_data b" ?u k "k + j"] j assms(1)
      by (cases "j = 0") (auto simp: region_end_def regions_ok_def)
    finally show ?thesis
      using j by simp
  qed
  show ?thesis
    using u' before after by (intro exI [of _ "take k ?u"] exI [of _ "drop k ?u"]) simp
qed

lemma region_add_False: "efi_image_region_add regs s e b = (False, regs') \<Longrightarrow> regs' = regs"
  by (auto simp: efi_image_region_add_def split: option.splits if_splits)

lemma region_add_refused:
  assumes "efi_image_region_add regs s e False = (False, regs')" "regions_ok regs"
    "rgs_num regs < rgs_max regs" "s \<le> e"
  shows "\<exists>r \<in> set (used_regions regs). s < region_end r \<and> rg_data r < e"
proof -
  have "region_loop regs s e False 0 = None"
    using assms by (auto simp: efi_image_region_add_def split: option.splits)
  then obtain j where "j < rgs_num regs" "s < region_end (rgs_reg regs ! j)" "rg_data (rgs_reg regs ! j) < e"
    using region_loop_None by blast
  then show ?thesis
    using assms(2) nth_mem [of j "used_regions regs"]
    by (auto simp: used_regions_nth length_used_regions)
qed

lemma region_add_ok:
  assumes "regions_ok regs"
  shows "regions_ok (snd (efi_image_region_add regs s e False))"
proof (cases "efi_image_region_add regs s e False")
  case (Pair b regs')
  show ?thesis
  proof (cases b)
    case True
    then have add: "efi_image_region_add regs s e False = (True, regs')"
      using Pair by simp
    obtain pre post where "used_regions regs = pre @ post" "used_regions regs' = pre @ region_of s e # post"
      "\<forall>a \<in> set pre. region_end a \<le> s" "\<forall>b \<in> set post. e \<le> rg_data b"
      using region_add_position [OF assms add] by blast
    moreover have "s \<le> e"
      using region_add_True [OF assms add] by simp
    ultimately have "sorted_wrt (\<lambda>a b. region_end a \<le> rg_data b) (used_regions regs')"
      using assms order_trans [OF region_of_end [of s e]] by (simp add: regions_ok_def sorted_wrt_append)
    then show ?thesis
      using region_add_True [OF assms add] add by (simp add: regions_ok_def)
  next
    case False
    then have "efi_image_region_add regs s e False = (False, regs')"
      using Pair by simp
    then show ?thesis
      using assms region_add_False [of regs s e False regs'] by simp
  qed
qed

text \<open>
  C23. \<^verbatim>\<open>efi_image_region_add\<close> on a sorted list of disjoint regions: it succeeds exactly when there is room,
  the region is not reversed and it overlaps no registered region; it then adds that region and keeps
  the others, and the list stays sorted and disjoint. When it fails the list is unchanged.
\<close>

theorem efi_image_region_add_correct:
  assumes "regions_ok regs" "efi_image_region_add regs s e False = (b, regs')"
  shows "regions_ok regs' \<and>
    (b \<longleftrightarrow> rgs_num regs < rgs_max regs \<and> s \<le> e \<and>
       (\<forall>r \<in> set (used_regions regs). region_end r \<le> s \<or> e \<le> rg_data r)) \<and>
    (if b then mset (used_regions regs') = add_mset (region_of s e) (mset (used_regions regs))
     else regs' = regs)"
proof (cases b)
  case True
  then have add: "efi_image_region_add regs s e False = (True, regs')"
    using assms(2) by simp
  obtain pre post where "used_regions regs = pre @ post"
    "used_regions regs' = pre @ region_of s e # post"
    "\<forall>a \<in> set pre. region_end a \<le> s" "\<forall>b \<in> set post. e \<le> rg_data b"
    using region_add_position [OF assms(1) add] by blast
  moreover have "s \<le> e" "rgs_num regs < rgs_max regs" "regions_ok regs'"
    using region_add_True [OF assms(1) add] region_add_ok [OF assms(1), of s e] add by simp_all
  ultimately show ?thesis
    using True by (simp add: ball_Un)
next
  case False
  then have refused: "efi_image_region_add regs s e False = (False, regs')"
    using assms(2) by simp
  have "\<not> (rgs_num regs < rgs_max regs \<and> s \<le> e \<and>
      (\<forall>r \<in> set (used_regions regs). region_end r \<le> s \<or> e \<le> rg_data r))"
    using region_add_refused [OF refused assms(1)] by (meson not_le)
  then show ?thesis
    using False assms(1) region_add_False [OF refused] by simp
qed

theorem efi_image_region_add_correct_witness:
  "regions_ok (snd (efi_image_region_add (snd (efi_image_region_add (new_regions 4) 10 20 False)) 0 10 False)) \<and>
   \<not> fst (efi_image_region_add (snd (efi_image_region_add (new_regions 4) 10 20 False)) 19 30 False)"
proof -
  let ?r = "snd (efi_image_region_add (new_regions 4) 10 20 False)"
  have one: "regions_ok ?r \<and> used_regions ?r = [region_of 10 20]"
    by (simp add: efi_image_region_add_def new_regions_def region_loop.simps regions_ok_def used_regions_def
        region_of_def numeral_eq_Suc)
  show ?thesis
    using efi_image_region_add_correct [OF _ prod.collapse [symmetric], of ?r 0 10]
      efi_image_region_add_correct [OF _ prod.collapse [symmetric], of ?r 19 30] one
    by (simp add: region_end_def region_of_def)
qed

section \<open>What PE256Buffer hashes\<close>

lemma efi_image_headers_ok:
  assumes "efi_image_headers efi opt rvas dir regs = Some (regs', x)" "regions_ok regs"
  shows "regions_ok regs'"
  using assms by (auto simp: efi_image_headers_def Let_def bind_eq_Some_conv region_add_ok split: if_splits)

lemma efi_section_steps_ok:
  "regions_ok (fst rh) \<Longrightarrow> regions_ok (fst (fold (efi_section_step align) ss rh))"
  by (induction ss arbitrary: rh)
    (auto simp: efi_section_step_def Let_def region_add_ok split: prod.splits)

lemma efi_image_data_ok: "regions_ok (fst rh) \<Longrightarrow> regions_ok (efi_image_data len align authsz ss rh)"
  using efi_section_steps_ok [of rh align ss]
  by (auto simp: efi_image_data_def region_add_ok split: prod.splits)

lemma efi_image_parse_ok:
  assumes "efi_image_parse q efi len = Some (Some regs)"
  shows "regions_ok regs"
  using assms
  by (auto simp: efi_image_parse_def Let_def bind_eq_Some_conv split: if_splits
      intro!: efi_image_data_ok dest!: efi_image_headers_ok)

definition region_bytes :: "bytes \<Rightarrow> image_region list \<Rightarrow> bytes" where
  "region_bytes mem rs = concat (map (\<lambda>r. slice (rg_data r) (unat (rg_size r)) mem) rs)"

lemma region_bytes_Cons:
  "region_bytes mem (r # rs) = slice (rg_data r) (unat (rg_size r)) mem @ region_bytes mem rs"
  by (simp add: region_bytes_def)

lemma hash_regions_represents:
  assumes "sha256_represents msg ctx" "\<forall>r \<in> set rs. region_end r \<le> length mem"
  shows "\<exists>ctx'. hash_regions mem rs ctx = Some ctx' \<and> sha256_represents (msg @ region_bytes mem rs) ctx'"
  using assms
proof (induction rs arbitrary: msg ctx)
  case Nil
  then show ?case by (simp add: region_bytes_def)
next
  case (Cons r rs)
  then have "unat (rg_size r) \<le> length (drop (rg_data r) mem)"
    by (auto simp: region_end_def)
  from sha256.write_represents [OF Cons.prems(1) this] obtain ctx' where
    "sha256_write ctx (drop (rg_data r) mem) (unat (rg_size r)) = Some ctx'"
    "sha256_represents (msg @ slice (rg_data r) (unat (rg_size r)) mem) ctx'"
    by (auto simp: slice_def)
  then show ?case
    using Cons.IH [of "msg @ slice (rg_data r) (unat (rg_size r)) mem" ctx'] Cons.prems(2)
    by (simp add: region_bytes_Cons)
qed

lemma region_bytes_bound:
  assumes "sorted_wrt (\<lambda>a b. region_end a \<le> rg_data b) rs" "\<forall>r \<in> set rs. region_end r \<le> n"
  shows "length (region_bytes mem rs) \<le> n"
  using assms
proof (induction rs arbitrary: n rule: rev_induct)
  case Nil
  then show ?case by (simp add: region_bytes_def)
next
  case (snoc r rs)
  then have "length (region_bytes mem rs) \<le> rg_data r"
    by (simp add: sorted_wrt_append)
  then show ?case
    using snoc.prems(2) by (auto simp: region_bytes_def region_end_def)
qed

lemma PE256Buffer_regions:
  assumes "efi_image_parse qsort mem (length mem) = Some (Some regs)"
    and "1024 \<le> length mem" "length mem \<le> 64 * 1048576"
    and "\<forall>r \<in> set (used_regions regs). region_end r \<le> length mem"
  shows "PE256Buffer qsort mem (length mem) = HashTrue (fips_sha256 (region_bytes mem (used_regions regs))) \<and>
    sorted_wrt (\<lambda>a b. region_end a \<le> rg_data b) (used_regions regs)"
proof -
  have sorted: "sorted_wrt (\<lambda>a b. region_end a \<le> rg_data b) (used_regions regs)"
    using efi_image_parse_ok [OF assms(1)] by (simp add: regions_ok_def)
  obtain ctx where ctx: "hash_regions mem (used_regions regs) (sha256_init zero_context) = Some ctx"
    "sha256_represents (region_bytes mem (used_regions regs)) ctx"
    using hash_regions_represents [OF sha256.init_represents assms(4)] by auto
  have "length (region_bytes mem (used_regions regs)) < 2 ^ 64"
    using region_bytes_bound [OF sorted assms(4), of mem] assms(3) by simp
  then show ?thesis
    using sha256.final_digest [OF ctx(2)] ctx(1) assms sorted
    by (auto simp: PE256Buffer_def used_regions_def)
qed

text \<open>
  C11. For a PE image whose parsed regions lie inside the buffer, \<^verbatim>\<open>PE256Buffer\<close> returns the SHA-256 digest of
  the concatenation of those regions, and they are sorted and disjoint.
\<close>

theorem PE256Buffer_digest:
  assumes "efi_image_parse qsort mem (length mem) = Some (Some regs)"
    and "1024 \<le> length mem" "length mem \<le> 64 * 1048576"
    and "\<forall>r \<in> set (used_regions regs). region_end r \<le> length mem"
  shows "PE256Buffer qsort mem (length mem) = HashTrue (fips_sha256 (region_bytes mem (used_regions regs))) \<and>
    sorted_wrt (\<lambda>a b. region_end a \<le> rg_data b) (used_regions regs)"
  using PE256Buffer_regions [OF assms] .

lemma hash_regions_overread:
  assumes "r \<in> set rs" "rg_size r \<noteq> 0" "length mem < region_end r"
  shows "hash_regions mem rs ctx = None"
  using assms(1)
proof (induction rs arbitrary: ctx)
  case Nil
  then show ?case by simp
next
  case (Cons q rs)
  have "0 < unat (rg_size r)"
    using assms(2) by (simp add: unat_gt_0)
  then have "sha256_write ctx (drop (rg_data r) mem) (unat (rg_size r)) = None"
    unfolding sha256_write_def using assms(3) by (intro md_write_overread) (auto simp: region_end_def)
  then show ?case
    using Cons by (auto split: bind_splits)
qed

text \<open>
  \<^verbatim>\<open>efi_image_parse\<close> takes section and header sizes from the image without comparing them with its
  length: when a region it returns ends after the buffer, \<^verbatim>\<open>PE256Buffer\<close> reads past the buffer.
\<close>

theorem PE256Buffer_overread:
  assumes "efi_image_parse qsort mem (length mem) = Some (Some regs)"
    and "1024 \<le> length mem" "length mem \<le> 64 * 1048576"
    and "r \<in> set (used_regions regs)" "rg_size r \<noteq> 0" "length mem < region_end r"
  shows "PE256Buffer qsort mem (length mem) = HashOverread"
  using assms hash_regions_overread [OF assms(4-6), of "sha256_init zero_context"]
  by (auto simp: PE256Buffer_def used_regions_def)

text \<open>
  A 64-bit image of 1024 bytes with one section, and the high byte of \<^verbatim>\<open>SizeOfHeaders\<close> as a parameter.
\<close>

definition sample_pe :: "byte \<Rightarrow> bytes" where
  "sample_pe hdrs = (replicate 1024 0)[0x3c := 64, 70 := 1, 84 := 240, 88 := 0x0b, 89 := 2, 125 := 2,
     149 := hdrs, 196 := 16, 341 := 0x10, 345 := 1, 349 := 2]"

lemma length_sample_pe [simp]: "length (sample_pe h) = 1024"
  by (simp add: sample_pe_def)

lemma sample_pe_good: "efi_image_parse (\<lambda>_ x. x) (sample_pe 2) 1024 = Some (Some \<lparr>rgs_max = 5, rgs_num = 4,
   rgs_reg = [region_of 0 152, region_of 156 232, region_of 240 512, region_of 512 1024, region_of 0 0]\<rparr>)"
  by code_simp

lemma sample_pe_bad: "efi_image_parse (\<lambda>_ x. x) (sample_pe 8) 1024 = Some (Some \<lparr>rgs_max = 5, rgs_num = 3,
   rgs_reg = [region_of 0 152, region_of 156 232, region_of 240 2048, region_of 0 0, region_of 0 0]\<rparr>)"
  by code_simp

theorem PE256Buffer_digest_witness:
  "PE256Buffer (\<lambda>_ x. x) (sample_pe 2) (length (sample_pe 2)) = HashTrue (fips_sha256 (region_bytes (sample_pe 2)
     [region_of 0 152, region_of 156 232, region_of 240 512, region_of 512 1024]))"
  using PE256Buffer_digest [of "\<lambda>_ x. x" "sample_pe 2"] sample_pe_good
  by (simp add: used_regions_def region_end_def region_of_def)

theorem PE256Buffer_overread_witness:
  "PE256Buffer (\<lambda>_ x. x) (sample_pe 8) (length (sample_pe 8)) = HashOverread"
  using PE256Buffer_overread [of "\<lambda>_ x. x" "sample_pe 8" _ "region_of 240 2048"] sample_pe_bad
  by (simp add: used_regions_def region_end_def region_of_def)

end
