(* ===== verification/Pe_Parser.thy ===== *)
theory Pe_Parser
  imports Pe_Image
begin

text \<open>
  The PE functions of \<^verbatim>\<open>src/parser.c\<close>. A pointer into the image is its offset; in the result of a function the inner \<open>None\<close> is
  \<^verbatim>\<open>NULL\<close> and the outer \<open>None\<close> a read behind the end of the image. The functions compute the place of the section table from the sizes
  of the header structures, 248 and 264 bytes, and not from \<^verbatim>\<open>SizeOfOptionalHeader\<close>. \<^verbatim>\<open>wchar_t\<close> has two bytes, which the build asks for.
\<close>

section \<open>The code\<close>

subsection \<open>Headers\<close>

text \<open>The tests of both signatures, with which all these functions start, and the offset of \<^verbatim>\<open>pe_header\<close>.\<close>

definition pe_headers :: "bytes \<Rightarrow> nat option option" where
  "pe_headers mem = do {
     e_magic \<leftarrow> get16 mem 0;
     if e_magic \<noteq> 0x5A4D then Some None
     else do {
       e_lfanew \<leftarrow> get32 mem 0x3C;
       sig \<leftarrow> get32 mem (unat e_lfanew);
       Some (if sig \<noteq> 0x4550 then None else Some (unat e_lfanew)) } }"

definition GetPeArch :: "bytes \<Rightarrow> u16 option" where
  "GetPeArch mem = do {
     h \<leftarrow> pe_headers mem;
     case h of None \<Rightarrow> Some 0 | Some nt \<Rightarrow> get16 mem (nt + 4) }"

text \<open>Whether the machine has a 32-bit header: \<^verbatim>\<open>IMAGE_FILE_MACHINE_I386\<close> or \<^verbatim>\<open>IMAGE_FILE_MACHINE_ARM\<close>.\<close>

definition pe_is_32 :: "bytes \<Rightarrow> nat \<Rightarrow> bool option" where
  "pe_is_32 mem nt = do { machine \<leftarrow> get16 mem (nt + 4); Some (machine = 0x14C \<or> machine = 0x1C0) }"

text \<open>\<^verbatim>\<open>section_header\<close> and \<^verbatim>\<open>nb_sections\<close>.\<close>

definition section_table :: "bytes \<Rightarrow> nat \<Rightarrow> (nat \<times> nat) option" where
  "section_table mem nt = do {
     m32 \<leftarrow> pe_is_32 mem nt;
     nb_sections \<leftarrow> get16 mem (nt + 6);
     Some (nt + (if m32 then 248 else 264), unat nb_sections) }"

text \<open>\<^verbatim>\<open>OptionalHeader.DataDirectory[i]\<close>: \<^verbatim>\<open>VirtualAddress\<close> and \<^verbatim>\<open>Size\<close>.\<close>

definition data_directory :: "bytes \<Rightarrow> nat \<Rightarrow> nat \<Rightarrow> (u32 \<times> u32) option" where
  "data_directory mem nt i = do {
     m32 \<leftarrow> pe_is_32 mem nt;
     let dir = nt + (if m32 then 120 else 136) + 8 * i;
     va \<leftarrow> get32 mem dir;
     sz \<leftarrow> get32 mem (dir + 4);
     Some (va, sz) }"

subsection \<open>Sections\<close>

text \<open>\<^verbatim>\<open>static_strcpy(section_name, name)\<close>.\<close>

definition section_name :: "bytes \<Rightarrow> bytes" where
  "section_name name = take 7 name @ replicate (8 - length (take 7 name)) 0"

text \<open>The loop over the sections from number \<open>i\<close> on: the offset of the contents and \<^verbatim>\<open>*len\<close>.\<close>

fun find_section :: "bytes \<Rightarrow> nat \<Rightarrow> bytes \<Rightarrow> nat \<Rightarrow> nat \<Rightarrow> (nat \<times> u32) option option" where
  "find_section mem hdr nm i 0 = Some None"
| "find_section mem hdr nm i (Suc left) = do {
     n \<leftarrow> mem_read mem (hdr + 40 * i) 8;
     if n = nm then do {
       len \<leftarrow> get32 mem (hdr + 16);
       ptr \<leftarrow> get32 mem (hdr + 40 * i + 20);
       Some (Some (unat ptr, len)) }
     else find_section mem hdr nm (i + 1) left }"

definition GetPeSection :: "bytes \<Rightarrow> bytes \<Rightarrow> (nat \<times> u32) option option" where
  "GetPeSection mem name = do {
     h \<leftarrow> pe_headers mem;
     case h of None \<Rightarrow> Some None
     | Some nt \<Rightarrow> do { (hdr, nb_sections) \<leftarrow> section_table mem nt; find_section mem hdr (section_name name) 0 nb_sections } }"

fun find_rva :: "bytes \<Rightarrow> nat \<Rightarrow> u32 \<Rightarrow> nat \<Rightarrow> nat \<Rightarrow> nat option option" where
  "find_rva mem hdr rva i 0 = Some None"
| "find_rva mem hdr rva i (Suc left) = do {
     va \<leftarrow> get32 mem (hdr + 40 * i + 12);
     sz \<leftarrow> get32 mem (hdr + 40 * i + 8);
     if va \<le> rva \<and> rva < va + sz then do {
       ptr \<leftarrow> get32 mem (hdr + 40 * i + 20);
       Some (Some (unat (ptr + (rva - va)))) }
     else find_rva mem hdr rva (i + 1) left }"

definition RvaToPhysical :: "bytes \<Rightarrow> u32 \<Rightarrow> nat option option" where
  "RvaToPhysical mem rva = do {
     h \<leftarrow> pe_headers mem;
     case h of None \<Rightarrow> Some None
     | Some nt \<Rightarrow> do { (hdr, nb_sections) \<leftarrow> section_table mem nt; find_rva mem hdr rva 0 nb_sections } }"

subsection \<open>Resources\<close>

text \<open>The static variable \<^verbatim>\<open>FoundResourceRva\<close> and \<^verbatim>\<open>*len\<close>.\<close>

record resource_state =
  FoundResourceRva :: bool
  rsrc_len :: u32

text \<open>The bytes of a wide string, and the test of the name of entry \<open>i\<close>.\<close>

definition wide :: "u16 list \<Rightarrow> bytes" where
  "wide name = concat (map (le_bytes 2) name)"

definition resource_name_matches :: "bytes \<Rightarrow> u16 list \<Rightarrow> nat \<Rightarrow> nat \<Rightarrow> bool option" where
  "resource_name_matches mem name root entry = do {
     NameOffset \<leftarrow> get32 mem entry;
     let dir_string = root + unat (NameOffset AND 0x7FFFFFFF);
     len \<leftarrow> get16 mem dir_string;
     if unat len \<noteq> length name then Some False
     else do { s \<leftarrow> mem_read mem (dir_string + 2) (length name); Some (take (length name) (wide name) = s) } }"

text \<open>The loop over the entries of a directory; \<open>rec\<close> is the call for a subdirectory.\<close>

fun resource_loop ::
    "(nat \<Rightarrow> resource_state \<Rightarrow> (u32 \<times> resource_state) option) \<Rightarrow> bytes \<Rightarrow> u16 list \<Rightarrow> nat \<Rightarrow> nat \<Rightarrow> nat \<Rightarrow> nat list \<Rightarrow>
     resource_state \<Rightarrow> (u32 \<times> resource_state) option" where
  "resource_loop rec mem name root dir_entry named [] st = Some (0, st)"
| "resource_loop rec mem name root dir_entry named (i # is) st = do {
     ok \<leftarrow> (if \<not> FoundResourceRva st \<and> i < named then resource_name_matches mem name root (dir_entry + 8 * i) else Some True);
     let st' = (if \<not> FoundResourceRva st \<and> i < named \<and> ok then st\<lparr>FoundResourceRva := True\<rparr> else st);
     if \<not> ok then resource_loop rec mem name root dir_entry named is st
     else do {
       off \<leftarrow> get32 mem (dir_entry + 8 * i + 4);
       if off AND 0x80000000 \<noteq> 0 then do {
         (rva, st'') \<leftarrow> rec (root + unat (off AND 0x7FFFFFFF)) st';
         if rva \<noteq> 0 then Some (rva, st'') else resource_loop rec mem name root dir_entry named is st'' }
       else if FoundResourceRva st' then do {
         len \<leftarrow> get32 mem (root + unat off + 4);
         rva \<leftarrow> get32 mem (root + unat off);
         Some (rva, st'\<lparr>rsrc_len := len\<rparr>) }
       else resource_loop rec mem name root dir_entry named is st' } }"

text \<open>
  \<^verbatim>\<open>FindResourceRva\<close>, with \<^verbatim>\<open>root\<close> and \<^verbatim>\<open>dir\<close> other than \<^verbatim>\<open>NULL\<close>. The first argument is the number of calls that the stack has room for: the
  result is also \<open>None\<close> when the calls nest deeper.
\<close>

primrec find_resource ::
    "nat \<Rightarrow> bytes \<Rightarrow> u16 list \<Rightarrow> nat \<Rightarrow> nat \<Rightarrow> resource_state \<Rightarrow> (u32 \<times> resource_state) option" where
  "find_resource 0 mem name root dir st = None"
| "find_resource (Suc depth) mem name root dir st = do {
     let st = (if root = dir then st\<lparr>FoundResourceRva := False\<rparr> else st);
     named \<leftarrow> get16 mem (dir + 12);
     ids \<leftarrow> get16 mem (dir + 14);
     resource_loop (find_resource depth mem name root) mem name root (dir + 16) (unat named) [0..<unat named + unat ids] st }"

text \<open>The call from the root.\<close>

definition FindResourceRva :: "nat \<Rightarrow> bytes \<Rightarrow> u16 list \<Rightarrow> nat option \<Rightarrow> resource_state \<Rightarrow> (u32 \<times> resource_state) option" where
  "FindResourceRva depth mem name root st =
     (case root of None \<Rightarrow> Some (0, st) | Some root \<Rightarrow> find_resource depth mem name root root st)"

subsection \<open>Signature\<close>

definition GetPeSignatureData :: "bytes \<Rightarrow> nat option option" where
  "GetPeSignatureData mem = do {
     h \<leftarrow> pe_headers mem;
     case h of None \<Rightarrow> Some None
     | Some nt \<Rightarrow> do {
         (va, sz) \<leftarrow> data_directory mem nt 4;
         if va = 0 \<or> sz = 0 then Some None
         else do {
           dwLength \<leftarrow> get32 mem (unat va);
           if dwLength = 0 then Some None
           else do {
             wCertificateType \<leftarrow> get16 mem (unat va + 6);
             Some (if wCertificateType \<noteq> 2 then None else Some (unat va)) } } } }"

section \<open>The section table\<close>

text \<open>A section header with the fields that these functions read, and all the headers of an image.\<close>

record section_header = pe_section +
  Name :: bytes
  VirtualSize :: u32

definition section_at :: "bytes \<Rightarrow> nat \<Rightarrow> nat \<Rightarrow> section_header option" where
  "section_at mem hdr i = do {
     n \<leftarrow> mem_read mem (hdr + 40 * i) 8;
     vs \<leftarrow> get32 mem (hdr + 40 * i + 8);
     va \<leftarrow> get32 mem (hdr + 40 * i + 12);
     sz \<leftarrow> get32 mem (hdr + 40 * i + 16);
     ptr \<leftarrow> get32 mem (hdr + 40 * i + 20);
     Some \<lparr>VirtualAddress = va, SizeOfRawData = sz, PointerToRawData = ptr, Name = n, VirtualSize = vs\<rparr> }"

fun sections_from :: "bytes \<Rightarrow> nat \<Rightarrow> nat \<Rightarrow> nat \<Rightarrow> section_header list option" where
  "sections_from mem hdr i 0 = Some []"
| "sections_from mem hdr i (Suc left) = do {
     s \<leftarrow> section_at mem hdr i;
     ss \<leftarrow> sections_from mem hdr (i + 1) left;
     Some (s # ss) }"

definition pe_sections :: "bytes \<Rightarrow> section_header list option" where
  "pe_sections mem = do {
     h \<leftarrow> pe_headers mem;
     nt \<leftarrow> h;
     (hdr, n) \<leftarrow> section_table mem nt;
     sections_from mem hdr 0 n }"

lemma pe_sectionsE:
  assumes "pe_sections mem = Some ss"
  obtains nt hdr n where "pe_headers mem = Some (Some nt)" "section_table mem nt = Some (hdr, n)" "sections_from mem hdr 0 n = Some ss"
  using assms by (auto simp: pe_sections_def bind_eq_Some_conv)

lemma section_atD:
  assumes "section_at mem hdr i = Some s"
  shows "mem_read mem (hdr + 40 * i) 8 = Some (Name s)" "get32 mem (hdr + 40 * i + 8) = Some (VirtualSize s)"
    "get32 mem (hdr + 40 * i + 12) = Some (VirtualAddress s)" "get32 mem (hdr + 40 * i + 16) = Some (SizeOfRawData s)"
    "get32 mem (hdr + 40 * i + 20) = Some (PointerToRawData s)"
  using assms by (auto simp: section_at_def bind_eq_Some_conv)

lemma sections_from_SucE:
  assumes "sections_from mem hdr i (Suc n) = Some ss"
  obtains s ss' where "section_at mem hdr i = Some s" "sections_from mem hdr (i + 1) n = Some ss'" "ss = s # ss'"
  using assms by (auto simp: bind_eq_Some_conv)

lemma find_section_sections:
  assumes "sections_from mem hdr i n = Some ss" "n = 0 \<or> get32 mem (hdr + 16) = Some len"
  shows "find_section mem hdr nm i n = Some (map_option (\<lambda>s. (unat (PointerToRawData s), len)) (List.find (\<lambda>s. Name s = nm) ss))"
  using assms
proof (induction n arbitrary: i ss)
  case (Suc n)
  obtain s ss' where s: "section_at mem hdr i = Some s" "sections_from mem hdr (i + 1) n = Some ss'" "ss = s # ss'"
    using sections_from_SucE [OF Suc.prems(1)] .
  show ?case using Suc.IH [OF s(2)] Suc.prems(2) section_atD [OF s(1)] s(3) by simp
qed simp

lemma find_rva_sections:
  assumes "sections_from mem hdr i n = Some ss"
  shows "find_rva mem hdr rva i n = Some (map_option (\<lambda>s. unat (PointerToRawData s + (rva - VirtualAddress s)))
    (List.find (\<lambda>s. VirtualAddress s \<le> rva \<and> rva < VirtualAddress s + VirtualSize s) ss))"
  using assms
proof (induction n arbitrary: i ss)
  case (Suc n)
  obtain s ss' where s: "section_at mem hdr i = Some s" "sections_from mem hdr (i + 1) n = Some ss'" "ss = s # ss'"
    using sections_from_SucE [OF Suc.prems] .
  show ?case using Suc.IH [OF s(2)] section_atD [OF s(1)] s(3) by simp
qed simp

lemma GetPeSection_sections:
  assumes "pe_sections mem = Some ss"
  shows "GetPeSection mem name =
    Some (map_option (\<lambda>s. (unat (PointerToRawData s), SizeOfRawData (hd ss))) (List.find (\<lambda>s. Name s = section_name name) ss))"
proof -
  obtain nt hdr n where n: "pe_headers mem = Some (Some nt)" "section_table mem nt = Some (hdr, n)" "sections_from mem hdr 0 n = Some ss"
    using pe_sectionsE [OF assms] .
  have "n = 0 \<or> get32 mem (hdr + 16) = Some (SizeOfRawData (hd ss))"
  proof (cases n)
    case (Suc m)
    then obtain s ss' where "section_at mem hdr 0 = Some s" "ss = s # ss'"
      using n(3) sections_from_SucE by blast
    then show ?thesis using section_atD(4) [of mem hdr 0 s] by simp
  qed simp
  from find_section_sections [OF n(3) this] show ?thesis
    using n by (simp add: GetPeSection_def)
qed

text \<open>
  \<^verbatim>\<open>GetPeSection\<close> on an image with a complete section table finds the first section with the name, padded with zeros, and answers
  \<^verbatim>\<open>NULL\<close> if there is none. The length it reports is the size of the first section of the image, whatever section it has found.
\<close>

theorem GetPeSection_correct:
  assumes "pe_sections mem = Some ss"
  shows "GetPeSection mem name =
    Some (map_option (\<lambda>s. (unat (PointerToRawData s), SizeOfRawData (hd ss))) (List.find (\<lambda>s. Name s = section_name name) ss))"
  using GetPeSection_sections [OF assms] .

text \<open>The addresses that a section occupies in memory, and when a table of sections is well-formed.\<close>

definition section_addresses :: "section_header \<Rightarrow> nat set" where
  "section_addresses s = {unat (VirtualAddress s)..<unat (VirtualAddress s) + unat (VirtualSize s)}"

definition sections_ok :: "section_header list \<Rightarrow> bool" where
  "sections_ok ss \<longleftrightarrow> (\<forall>s \<in> set ss. unat (VirtualAddress s) + unat (VirtualSize s) < 2 ^ 32) \<and>
     (\<forall>i < length ss. \<forall>j < length ss. i \<noteq> j \<longrightarrow> section_addresses (ss ! i) \<inter> section_addresses (ss ! j) = {})"

lemma in_section_iff:
  assumes "unat (VirtualAddress s) + unat (VirtualSize s) < 2 ^ 32"
  shows "VirtualAddress s \<le> rva \<and> rva < VirtualAddress s + VirtualSize s \<longleftrightarrow> unat rva \<in> section_addresses s"
proof -
  have "unat (VirtualAddress s + VirtualSize s) = unat (VirtualAddress s) + unat (VirtualSize s)"
    using assms by (intro unat_add_lem [THEN iffD1]) simp
  then show ?thesis by (auto simp: section_addresses_def word_le_nat_alt word_less_nat_alt)
qed

lemma sections_ok_unique:
  assumes ok: "sections_ok ss" and "s \<in> set ss" "t \<in> set ss" and a: "a \<in> section_addresses s" "a \<in> section_addresses t"
  shows "s = t"
proof -
  obtain i j where ij: "i < length ss" "j < length ss" "s = ss ! i" "t = ss ! j"
    using assms(2,3) by (auto simp: in_set_conv_nth)
  have "i \<noteq> j \<longrightarrow> section_addresses (ss ! i) \<inter> section_addresses (ss ! j) = {}"
    using ok ij(1,2) unfolding sections_ok_def by blast
  then show ?thesis using a ij by auto
qed

lemma find_unique:
  assumes "x \<in> set xs" "P x" "\<And>y. y \<in> set xs \<Longrightarrow> P y \<Longrightarrow> y = x"
  shows "List.find P xs = Some x"
proof (cases "List.find P xs")
  case None
  then show ?thesis using assms(1,2) by (auto simp: find_None_iff)
next
  case (Some y)
  then have "y \<in> set xs" "P y" by (auto simp: find_Some_iff)
  then show ?thesis using Some assms(3) by simp
qed

text \<open>
  \<^verbatim>\<open>RvaToPhysical\<close> on sections that do not overlap in memory: an address in no section gives \<^verbatim>\<open>NULL\<close>, and the byte \<open>k\<close> of a section is found at
  offset \<open>k\<close> of its contents in the file.
\<close>

theorem RvaToPhysical_correct:
  assumes "pe_sections mem = Some ss" "sections_ok ss"
  shows "((\<forall>s \<in> set ss. unat rva \<notin> section_addresses s) \<longrightarrow> RvaToPhysical mem rva = Some None) \<and>
    (\<forall>s \<in> set ss. \<forall>k. unat rva = unat (VirtualAddress s) + k \<and> k < unat (VirtualSize s) \<and> unat (PointerToRawData s) + k < 2 ^ 32 \<longrightarrow>
       RvaToPhysical mem rva = Some (Some (unat (PointerToRawData s) + k)))"
proof -
  let ?P = "\<lambda>s. VirtualAddress s \<le> rva \<and> rva < VirtualAddress s + VirtualSize s"
  obtain nt hdr n where n: "pe_headers mem = Some (Some nt)" "section_table mem nt = Some (hdr, n)" "sections_from mem hdr 0 n = Some ss"
    using pe_sectionsE [OF assms(1)] .
  have found: "RvaToPhysical mem rva = Some (map_option (\<lambda>s. unat (PointerToRawData s + (rva - VirtualAddress s))) (List.find ?P ss))"
    using find_rva_sections [OF n(3)] n by (simp add: RvaToPhysical_def)
  have P: "?P s \<longleftrightarrow> unat rva \<in> section_addresses s" if "s \<in> set ss" for s
    using in_section_iff that assms(2) by (simp add: sections_ok_def)
  show ?thesis
  proof (intro conjI impI ballI allI)
    assume "\<forall>s \<in> set ss. unat rva \<notin> section_addresses s"
    then have "List.find ?P ss = None" using P by (auto simp: find_None_iff)
    then show "RvaToPhysical mem rva = Some None" using found by simp
  next
    fix s k assume s: "s \<in> set ss" and k: "unat rva = unat (VirtualAddress s) + k \<and> k < unat (VirtualSize s) \<and> unat (PointerToRawData s) + k < 2 ^ 32"
    then have at: "unat rva \<in> section_addresses s" by (simp add: section_addresses_def)
    have "List.find ?P ss = Some s"
    proof (rule find_unique [OF s])
      show "?P s" using P [OF s] at by (rule iffD2)
    next
      fix y assume y: "y \<in> set ss" "?P y"
      show "y = s" by (rule sections_ok_unique [OF assms(2) y(1) s P [OF y(1), THEN iffD1, OF y(2)] at])
    qed
    moreover have "rva - VirtualAddress s = of_nat k"
    proof -
      have "rva = of_nat (unat rva)" by simp
      also have "\<dots> = VirtualAddress s + of_nat k" using k by simp
      finally show ?thesis by simp
    qed
    moreover have "unat (PointerToRawData s + of_nat k) = unat (PointerToRawData s) + k"
      using k unat_add_lem [of "PointerToRawData s" "of_nat k"] by (simp add: unsigned_of_nat take_bit_nat_eq_self)
    ultimately show "RvaToPhysical mem rva = Some (Some (unat (PointerToRawData s) + k))" using found by simp
  qed
qed

section \<open>A sample\<close>

text \<open>Reading single bytes.\<close>

lemma get_nth:
  "off + 2 \<le> length mem \<Longrightarrow> get16 mem off = Some (le_word [mem ! off, mem ! (off + 1)])"
  "off + 4 \<le> length mem \<Longrightarrow> get32 mem off = Some (le_word [mem ! off, mem ! (off + 1), mem ! (off + 2), mem ! (off + 3)])"
  by (simp_all add: get16_def get32_def numeral_eq_Suc slice_Cons slice_Zero)

lemma mem_read_8:
  "off + 8 \<le> length mem \<Longrightarrow> mem_read mem off 8 = Some [mem ! off, mem ! (off + 1), mem ! (off + 2), mem ! (off + 3),
     mem ! (off + 4), mem ! (off + 5), mem ! (off + 6), mem ! (off + 7)]"
  by (simp add: numeral_eq_Suc slice_Cons slice_Zero)

text \<open>A 64-bit image of 1024 bytes with one section, called \<^verbatim>\<open>.sbat\<close>.\<close>

definition dot_sbat :: bytes where
  "dot_sbat = [0x2E, 0x73, 0x62, 0x61, 0x74]"

definition sample_pe_image :: bytes where
  "sample_pe_image = (sample_pe 2)[0 := 0x4D, 1 := 0x5A, 64 := 0x50, 65 := 0x45, 68 := 0x64, 69 := 0x86,
     328 := 0x2E, 329 := 0x73, 330 := 0x62, 331 := 0x61, 332 := 0x74, 337 := 1]"

definition sample_section :: section_header where
  "sample_section = \<lparr>VirtualAddress = 0x1000, SizeOfRawData = 0x100, PointerToRawData = 0x200, Name = section_name dot_sbat, VirtualSize = 0x100\<rparr>"

lemma length_sample_pe_image: "length sample_pe_image = 1024"
  by (simp add: sample_pe_image_def)

lemma section_name_sbat: "section_name dot_sbat = [0x2E, 0x73, 0x62, 0x61, 0x74, 0, 0, 0]"
  by code_simp

lemma sample_pe_image_sections: "pe_sections sample_pe_image = Some [sample_section]"
  by (simp add: length_sample_pe_image get_nth mem_read_8 pe_sections_def pe_headers_def section_table_def pe_is_32_def section_at_def sample_section_def section_name_sbat
      sample_pe_image_def sample_pe_def del: mem_read_Some)

theorem GetPeSection_correct_witness: "GetPeSection sample_pe_image dot_sbat = Some (Some (512, 0x100))"
  using GetPeSection_correct [OF sample_pe_image_sections, of dot_sbat] by (simp add: sample_section_def)

theorem RvaToPhysical_correct_witness:
  "RvaToPhysical sample_pe_image 0x1080 = Some (Some 640) \<and> RvaToPhysical sample_pe_image 0x1100 = Some None"
proof -
  have "sections_ok [sample_section]" by (simp add: sections_ok_def sample_section_def)
  note correct = RvaToPhysical_correct [OF sample_pe_image_sections this]
  show ?thesis
    using correct [of "0x1080"] correct [of "0x1100"] by (auto simp: sample_section_def section_addresses_def)
qed

end
