(* ===== verification/Pe_Resources.thy ===== *)
theory Pe_Resources
  imports Pe_Parser
begin

text \<open>
  What \<^verbatim>\<open>FindResourceRva\<close> of \<^verbatim>\<open>src/parser.c\<close> finds: a specification on resource trees, the layout of a tree in the image, and the refinement.
\<close>

section \<open>The resource tree\<close>

text \<open>
  A resource is data, with its address and size, or a directory of resources, the first of which have the given names. \<open>leaf\<close> is its
  first data.
\<close>

datatype resource = Data u32 u32 | Directory "u16 list list" "resource list"

fun leaf :: "resource \<Rightarrow> u32 \<times> u32" where
  "leaf (Data rva len) = (rva, len)"
| "leaf (Directory ns []) = (0, 0)"
| "leaf (Directory ns (r # rs)) = leaf r"

text \<open>No directory is empty and no data is at address 0.\<close>

fun resource_ok :: "resource \<Rightarrow> bool" where
  "resource_ok (Data rva len) \<longleftrightarrow> rva \<noteq> 0"
| "resource_ok (Directory ns rs) \<longleftrightarrow> rs \<noteq> [] \<and> length ns \<le> length rs \<and> list_all resource_ok rs"

fun height :: "resource \<Rightarrow> nat" where
  "height (Data rva len) = 0"
| "height (Directory ns rs) = Suc (Max (set (0 # map height rs)))"

text \<open>The names that the code takes for \<open>name\<close>.\<close>

definition same_name :: "u16 list \<Rightarrow> u16 list \<Rightarrow> bool" where
  "same_name name n \<longleftrightarrow> length n = length name \<and> take (length name) (wide name) = take (length name) (wide n)"

text \<open>
  The data looked for: in a directory, the first data of the first entry with that name; if there is none, the first found in the entries
  without a name, in their order.
\<close>

fun look :: "u16 list \<Rightarrow> resource \<Rightarrow> (u32 \<times> u32) option" and
  look_entries :: "u16 list \<Rightarrow> u16 list list \<Rightarrow> resource list \<Rightarrow> (u32 \<times> u32) option" where
  "look name (Data rva len) = None"
| "look name (Directory ns rs) = look_entries name ns rs"
| "look_entries name ns [] = None"
| "look_entries name (n # ns) (r # rs) = (if same_name name n then Some (leaf r) else look_entries name ns rs)"
| "look_entries name [] (r # rs) = (case look name r of Some x \<Rightarrow> Some x | None \<Rightarrow> look_entries name [] rs)"

text \<open>How a resource is stored in the image: \<open>w\<close> is the second word of its entry, and \<open>e\<close> the place of the entries.\<close>

definition name_stored :: "bytes \<Rightarrow> nat \<Rightarrow> nat \<Rightarrow> u16 list \<Rightarrow> bool" where
  "name_stored mem root e n \<longleftrightarrow> (case get32 mem e of
     None \<Rightarrow> False
   | Some w \<Rightarrow> let s = root + unat (w AND 0x7FFFFFFF)
       in int (length n) < 65536 \<and> get16 mem s = Some (of_nat (length n)) \<and> mem_read mem (s + 2) (2 * length n) = Some (wide n))"

fun names_stored :: "bytes \<Rightarrow> nat \<Rightarrow> nat \<Rightarrow> u16 list list \<Rightarrow> bool" where
  "names_stored mem root e [] \<longleftrightarrow> True"
| "names_stored mem root e (n # ns) \<longleftrightarrow> name_stored mem root e n \<and> names_stored mem root (e + 8) ns"

definition counts_stored :: "bytes \<Rightarrow> nat \<Rightarrow> nat \<Rightarrow> nat \<Rightarrow> bool" where
  "counts_stored mem dir k n \<longleftrightarrow> int k < 65536 \<and> int (n - k) < 65536 \<and> get16 mem (dir + 12) = Some (of_nat k) \<and> get16 mem (dir + 14) = Some (of_nat (n - k))"

fun res_stored :: "bytes \<Rightarrow> nat \<Rightarrow> u32 \<Rightarrow> resource \<Rightarrow> bool" and
  stored_dir :: "bytes \<Rightarrow> nat \<Rightarrow> nat \<Rightarrow> resource \<Rightarrow> bool" and
  stored_entries :: "bytes \<Rightarrow> nat \<Rightarrow> nat \<Rightarrow> resource list \<Rightarrow> bool" where
  "res_stored mem root w (Data rva len) \<longleftrightarrow>
     w AND 0x80000000 = 0 \<and> get32 mem (root + unat w) = Some rva \<and> get32 mem (root + unat w + 4) = Some len"
| "res_stored mem root w (Directory ns rs) \<longleftrightarrow> w AND 0x80000000 \<noteq> 0 \<and> w AND 0x7FFFFFFF \<noteq> 0 \<and>
     (let dir = root + unat (w AND 0x7FFFFFFF)
      in counts_stored mem dir (length ns) (length rs) \<and> names_stored mem root (dir + 16) ns \<and> stored_entries mem root (dir + 16) rs)"
| "stored_dir mem root dir (Data rva len) \<longleftrightarrow> False"
| "stored_dir mem root dir (Directory ns rs) \<longleftrightarrow>
     counts_stored mem dir (length ns) (length rs) \<and> names_stored mem root (dir + 16) ns \<and> stored_entries mem root (dir + 16) rs"
| "stored_entries mem root e [] \<longleftrightarrow> True"
| "stored_entries mem root e (r # rs) \<longleftrightarrow>
     (case get32 mem (e + 4) of None \<Rightarrow> False | Some w \<Rightarrow> res_stored mem root w r) \<and> stored_entries mem root (e + 8) rs"

section \<open>Search\<close>

lemma stored_Directory:
  "res_stored mem root w (Directory ns rs) \<longleftrightarrow> w AND 0x80000000 \<noteq> 0 \<and> w AND 0x7FFFFFFF \<noteq> 0 \<and>
     stored_dir mem root (root + unat (w AND 0x7FFFFFFF)) (Directory ns rs)"
  by (simp add: Let_def)

declare res_stored.simps(2) [simp del] stored_Directory [simp]

lemma leaf_ok: "resource_ok r \<Longrightarrow> fst (leaf r) \<noteq> 0"
  by (induction r rule: leaf.induct) auto

lemma length_wide [simp]: "length (wide n) = 2 * length n"
  by (induction n) (auto simp: wide_def)

lemma resource_name_stored:
  assumes "name_stored mem root e n"
  shows "resource_name_matches mem name root e = Some (same_name name n)"
proof -
  obtain w where w: "get32 mem e = Some w" and n: "length n < 65536"
    and g: "get16 mem (root + unat (w AND 0x7FFFFFFF)) = Some (of_nat (length n))"
    and m: "mem_read mem (root + unat (w AND 0x7FFFFFFF) + 2) (2 * length n) = Some (wide n)"
    using assms by (auto simp: name_stored_def Let_def split: option.splits)
  have "unat (of_nat (length n) :: u16) = length n"
    using n by (simp add: unsigned_of_nat take_bit_nat_eq_self)
  moreover have "mem_read mem (root + unat (w AND 0x7FFFFFFF) + 2) (length n) = Some (take (length n) (wide n))"
    using mem_read_SomeD [OF m] by (auto simp: mem_read_def slice_def min_def)
  ultimately show ?thesis
    using w g by (auto simp: resource_name_matches_def same_name_def Let_def)
qed

lemma height_entry: "r \<in> set rs \<Longrightarrow> height r < height (Directory ns rs)"
  by (auto simp: less_Suc_eq_le)

lemma counts_storedD:
  assumes "counts_stored mem dir k n"
  shows "\<exists>a b. get16 mem (dir + 12) = Some a \<and> get16 mem (dir + 14) = Some b \<and> unat a = k \<and> unat b = n - k"
  using assms by (auto simp: counts_stored_def unsigned_of_nat take_bit_nat_eq_self)

text \<open>Once the name has been found, the first data is the result.\<close>

lemma find_resource_found:
  assumes "resource_ok r" "stored_dir mem root dir r" "height r \<le> depth" "dir \<noteq> root" "FoundResourceRva st"
  shows "find_resource depth mem name root dir st = Some (fst (leaf r), st\<lparr>rsrc_len := snd (leaf r)\<rparr>)"
  using assms
proof (induction depth arbitrary: r dir)
  case 0
  then show ?case by (cases r) simp_all
next
  case (Suc depth)
  obtain ns t ts where r: "r = Directory ns (t # ts)"
    using Suc.prems(1,2) by (cases r rule: leaf.cases) auto
  obtain a b where ab: "get16 mem (dir + 12) = Some a" "get16 mem (dir + 14) = Some b" "unat a = length ns" "unat b = length (t # ts) - length ns"
    using Suc.prems(2) r counts_storedD [of mem dir "length ns" "length (t # ts)"] by auto
  obtain w where w: "get32 mem (dir + 16 + 4) = Some w" "res_stored mem root w t"
    using Suc.prems(2) r by (auto split: option.splits)
  have t: "resource_ok t" "height t \<le> depth" "length ns \<le> length (t # ts)"
    using Suc.prems(1,3) r height_entry [of t "t # ts" ns] by auto
  have upt: "[0..<unat a + unat b] = 0 # [1..<unat a + unat b]"
    using ab t(3) upt_conv_Cons [of 0 "unat a + unat b"] by (simp del: upt_Suc)
  show ?case
  proof (cases t)
    case (Data rva len)
    then show ?thesis using w ab upt r Suc.prems(4,5) by (simp add: add_ac)
  next
    case (Directory ms us)
    have "find_resource depth mem name root (root + unat (w AND 0x7FFFFFFF)) st = Some (fst (leaf t), st\<lparr>rsrc_len := snd (leaf t)\<rparr>)"
      using Suc.IH [OF t(1) _ t(2)] w(2) Directory Suc.prems(5) by (auto simp: unat_eq_zero)
    then show ?thesis using w ab upt r Suc.prems(4,5) Directory leaf_ok [OF t(1)] by (simp add: add_ac)
  qed
qed


text \<open>The result of a search that starts with the name not found.\<close>

definition search_result :: "resource_state \<Rightarrow> (u32 \<times> u32) option \<Rightarrow> u32 \<times> resource_state" where
  "search_result st found =
     (case found of None \<Rightarrow> (0, st) | Some (rva, len) \<Rightarrow> (rva, \<lparr>FoundResourceRva = True, rsrc_len = len\<rparr>))"

lemma found_state: "st\<lparr>FoundResourceRva := True, rsrc_len := l\<rparr> = \<lparr>FoundResourceRva = True, rsrc_len = l\<rparr>"
  by simp

text \<open>The entry that has the name.\<close>

lemma resource_loop_hit:
  assumes "resource_ok r" "height r \<le> depth" "get32 mem (e + 8 * i + 4) = Some w" "res_stored mem root w r"
    and "\<not> FoundResourceRva st" "i < named" "resource_name_matches mem name root (e + 8 * i) = Some True"
  shows "resource_loop (find_resource depth mem name root) mem name root e named (i # is) st = Some (search_result st (Some (leaf r)))"
proof (cases r)
  case (Data rva len)
  then show ?thesis using assms by (simp add: search_result_def)
next
  case (Directory ns rs)
  have "find_resource depth mem name root (root + unat (w AND 0x7FFFFFFF)) (st\<lparr>FoundResourceRva := True\<rparr>) =
      Some (fst (leaf r), st\<lparr>FoundResourceRva := True, rsrc_len := snd (leaf r)\<rparr>)"
    using find_resource_found [OF assms(1) _ assms(2), of mem root _ "st\<lparr>FoundResourceRva := True\<rparr>"] assms(4) Directory
    by (auto simp: unat_eq_zero)
  then show ?thesis
    using assms(3-7) Directory leaf_ok [OF assms(1)] by (simp add: search_result_def found_state split: prod.split)
qed

lemma look_ok:
  "resource_ok r \<Longrightarrow> look name r = Some x \<Longrightarrow> fst x \<noteq> 0"
  "list_all resource_ok rs \<Longrightarrow> look_entries name ns rs = Some x \<Longrightarrow> fst x \<noteq> 0"
  by (induction name r and name ns rs rule: look_look_entries.induct) (auto simp: leaf_ok split: if_splits option.splits)

lemma resource_loop_look:
  assumes IH: "\<And>r w. r \<in> set rs \<Longrightarrow> res_stored mem root w r \<Longrightarrow> w AND 0x80000000 \<noteq> 0 \<Longrightarrow>
      find_resource depth mem name root (root + unat (w AND 0x7FFFFFFF)) st = Some (search_result st (look name r))"
    and "stored_entries mem root (e + 8 * i) rs" "names_stored mem root (e + 8 * i) ns" "length ns = named - i" "length ns \<le> length rs"
    and "list_all resource_ok rs" "\<forall>r \<in> set rs. height r \<le> depth" "\<not> FoundResourceRva st"
  shows "resource_loop (find_resource depth mem name root) mem name root e named [i..<i + length rs] st =
    Some (search_result st (look_entries name ns rs))"
  using assms
proof (induction rs arbitrary: ns i)
  case Nil
  then show ?case by (simp add: search_result_def)
next
  case (Cons r rs)
  have upt: "[i..<i + length (r # rs)] = i # [Suc i..<Suc i + length rs]"
    using upt_conv_Cons [of i "i + length (r # rs)"] by (simp del: upt_Suc)
  have step: "e + 8 * i + 8 = e + 8 * Suc i"
    by simp
  obtain w where w: "get32 mem (e + 8 * i + 4) = Some w" "res_stored mem root w r"
    using Cons.prems(2) by (auto split: option.splits)
  have rest: "stored_entries mem root (e + 8 * Suc i) rs" "list_all resource_ok rs" "\<forall>r \<in> set rs. height r \<le> depth"
    using Cons.prems(2,6,7) by (simp_all add: add_ac)
  have IH': "find_resource depth mem name root (root + unat (v AND 0x7FFFFFFF)) st = Some (search_result st (look name t))"
    if "t \<in> set rs" "res_stored mem root v t" "v AND 0x80000000 \<noteq> 0" for t v
    using Cons.prems(1) that by simp
  show ?case
  proof (cases ns)
    case (Cons n ns')
    then have ns: "i < named" "resource_name_matches mem name root (e + 8 * i) = Some (same_name name n)"
        "names_stored mem root (e + 8 * Suc i) ns'" "length ns' = named - Suc i" "length ns' \<le> length rs"
      using Cons.prems(3,4,5) resource_name_stored by (auto simp: add_ac)
    show ?thesis
    proof (cases "same_name name n")
      case True
      then show ?thesis
        using resource_loop_hit [OF _ _ w Cons.prems(8) ns(1)] ns(2) Cons.prems(6,7) upt \<open>ns = n # ns'\<close> by (simp del: upt_Suc)
    next
      case False
      then show ?thesis
        using Cons.IH [OF IH' rest(1) ns(3-5) rest(2,3) Cons.prems(8)] ns(1,2) Cons.prems(8) upt \<open>ns = n # ns'\<close>
        by (simp del: upt_Suc)
    qed
  next
    case Nil
    then have named: "\<not> i < named" "length [] = named - Suc i"
      using Cons.prems(4) by auto
    note tail = Cons.IH [OF IH' rest(1) _ named(2) _ rest(2,3) Cons.prems(8)]
    show ?thesis
    proof (cases r)
      case (Data rva len)
      then show ?thesis using tail w named Nil upt Cons.prems(8) by (simp del: upt_Suc)
    next
      case (Directory ms us)
      have w': "w AND 0x80000000 \<noteq> 0" using w Directory by simp
      have rec: "find_resource depth mem name root (root + unat (w AND 0x7FFFFFFF)) st = Some (search_result st (look name r))"
        using Cons.prems(1) w w' by simp
      show ?thesis
      proof (cases "look name r")
        case None
        then show ?thesis using tail rec w(1) w' named Nil upt Cons.prems(8) by (simp add: search_result_def del: upt_Suc)
      next
        case (Some x)
        then have "fst x \<noteq> 0" using look_ok(1) [of r name x] Cons.prems(6) by simp
        then show ?thesis
          using Some rec w(1) w' named(1) Nil upt Cons.prems(8) by (cases x) (simp add: search_result_def del: upt_Suc)
      qed
    qed
  qed
qed


lemma find_resource_look:
  assumes "resource_ok r" "stored_dir mem root dir r" "height r \<le> depth" "dir = root \<or> \<not> FoundResourceRva st"
  shows "find_resource depth mem name root dir st = Some (search_result (st\<lparr>FoundResourceRva := False\<rparr>) (look name r))"
  using assms
proof (induction depth arbitrary: r dir st)
  case 0
  then show ?case by (cases r) simp_all
next
  case (Suc depth)
  obtain ns rs where r: "r = Directory ns rs" using Suc.prems(2) by (cases r) auto
  let ?st = "st\<lparr>FoundResourceRva := False\<rparr>"
  obtain a b where ab: "get16 mem (dir + 12) = Some a" "get16 mem (dir + 14) = Some b" "unat a = length ns" "unat b = length rs - length ns"
    using Suc.prems(2) r counts_storedD [of mem dir "length ns" "length rs"] by auto
  have ok: "length ns \<le> length rs" "list_all resource_ok rs" "\<forall>t \<in> set rs. height t \<le> depth"
    using Suc.prems(1,3) r height_entry [of _ rs ns] by fastforce+
  have IH: "find_resource depth mem name root (root + unat (w AND 0x7FFFFFFF)) ?st = Some (search_result ?st (look name t))"
    if "t \<in> set rs" "res_stored mem root w t" "w AND 0x80000000 \<noteq> 0" for t w
  proof -
    have "resource_ok t" "height t \<le> depth" using that(1) ok(2,3) by (auto simp: list_all_iff)
    moreover have "stored_dir mem root (root + unat (w AND 0x7FFFFFFF)) t" using that(2,3) by (cases t) auto
    ultimately show ?thesis using Suc.IH [of t "root + unat (w AND 0x7FFFFFFF)" ?st] by simp
  qed
  have st: "(if root = dir then ?st else st) = ?st"
    using Suc.prems(4) by (cases st) auto
  have "resource_loop (find_resource depth mem name root) mem name root (dir + 16) (length ns) [0..<0 + length rs] ?st =
      Some (search_result ?st (look_entries name ns rs))"
    using resource_loop_look [where rs = rs and e = "dir + 16" and i = 0 and ns = ns and named = "length ns", OF IH] Suc.prems(2) r ok by simp
  then show ?case using ab ok(1) r st by simp
qed

text \<open>A tree does not depend on its place in the image.\<close>

lemma mem_read_embed: "mem_read src off n = Some xs \<Longrightarrow> mem_read (pre @ src @ post) (length pre + off) n = Some xs"
  by (auto simp: mem_read_def slice_def split: if_splits)

lemma get_embed:
  "get16 src off = Some v \<Longrightarrow> get16 (pre @ src @ post) (length pre + off) = Some v"
  "get32 src off = Some w \<Longrightarrow> get32 (pre @ src @ post) (length pre + off) = Some w"
  by (auto simp: get16_def get32_def mem_read_embed)

lemma name_stored_embed:
  assumes "name_stored src root e n"
  shows "name_stored (pre @ src @ post) (length pre + root) (length pre + e) n"
proof -
  obtain w where w: "get32 src e = Some w" "int (length n) < 65536"
    and g: "get16 src (root + unat (w AND 0x7FFFFFFF)) = Some (of_nat (length n))"
    and m: "mem_read src (root + unat (w AND 0x7FFFFFFF) + 2) (2 * length n) = Some (wide n)"
    using assms by (auto simp: name_stored_def Let_def split: option.splits)
  show ?thesis
    using get_embed(2) [OF w(1), of pre post] w(2) get_embed(1) [OF g, of pre post] mem_read_embed [OF m, of pre post]
    by (simp add: name_stored_def Let_def add.assoc)
qed

lemma names_stored_embed: "names_stored src root e ns \<Longrightarrow> names_stored (pre @ src @ post) (length pre + root) (length pre + e) ns"
  by (induction ns arbitrary: e) (auto simp: add.assoc name_stored_embed)

lemma counts_stored_embed: "counts_stored src dir k n \<Longrightarrow> counts_stored (pre @ src @ post) (length pre + dir) k n"
  by (simp add: counts_stored_def add.assoc get_embed)

lemma stored_embed:
  "res_stored src root w r \<Longrightarrow> res_stored (pre @ src @ post) (length pre + root) w r"
  "stored_dir src root dir r \<Longrightarrow> stored_dir (pre @ src @ post) (length pre + root) (length pre + dir) r"
  "stored_entries src root e rs \<Longrightarrow> stored_entries (pre @ src @ post) (length pre + root) (length pre + e) rs"
proof (induction src root w r and src root dir r and src root e rs rule: res_stored_stored_dir_stored_entries.induct)
  case (6 mem root e r rs)
  then obtain w where "get32 mem (e + 4) = Some w" "res_stored mem root w r" "stored_entries mem root (e + 8) rs"
    by (auto split: option.splits)
  then show ?case using 6 get_embed(2) [of mem "e + 4" w pre post] by (simp add: add.assoc)
qed (auto simp: add.assoc get_embed names_stored_embed counts_stored_embed Let_def)

text \<open>
  C34. \<^verbatim>\<open>FindResourceRva\<close> on a tree of resources stored in the image: if no directory is empty, no data is at address 0, and the stack
  has room for as many calls as the tree is high, it ends within the image and returns the data looked for, with its size, or 0 if there is none. The
  static flag it finds does not matter.
\<close>

theorem FindResourceRva_correct:
  assumes "resource_ok r" "stored_dir mem root root r" "height r \<le> depth"
  shows "map_option (\<lambda>(rva, st). (rva, rsrc_len st)) (FindResourceRva depth mem name (Some root) st) =
    Some (case look name r of None \<Rightarrow> (0, rsrc_len st) | Some (rva, len) \<Rightarrow> (rva, len))"
  using find_resource_look [OF assms, of st name] by (simp add: FindResourceRva_def search_result_def split: option.split prod.split)

text \<open>A tree with one type, one resource of it, named A, and its data of four bytes.\<close>

definition sample_resources :: bytes where
  "sample_resources = replicate 14 0 @ [1, 0] @ [10, 0, 0, 0, 24, 0, 0, 0x80] @
     replicate 12 0 @ [1, 0, 0, 0] @ [56, 0, 0, 0x80, 48, 0, 0, 0] @ [0x80, 0x10, 0, 0, 4, 0, 0, 0] @ [1, 0, 0x41, 0]"

abbreviation "sample_tree \<equiv> Directory [] [Directory [[0x41]] [Data 0x1080 4]]"

lemma sample_resources_tree: "stored_dir sample_resources 0 0 sample_tree"
  by code_simp

theorem FindResourceRva_correct_witness:
  "map_option (\<lambda>(rva, st). (rva, rsrc_len st)) (FindResourceRva 5 sample_resources [0x41] (Some 0) \<lparr>FoundResourceRva = True, rsrc_len = 0\<rparr>) =
     Some (0x1080, 4)"
proof -
  have "resource_ok sample_tree" "height sample_tree \<le> 5" by simp_all
  then show ?thesis
    using FindResourceRva_correct [OF _ sample_resources_tree, of 5 "[0x41]" "\<lparr>FoundResourceRva = True, rsrc_len = 0\<rparr>"]
    by (simp add: same_name_def)
qed

text \<open>
  A directory that contains itself: if the first entry of the root directory has no name and refers to the root, \<^verbatim>\<open>FindResourceRva\<close> calls itself
  without end, however many calls the stack has room for.
\<close>

theorem FindResourceRva_cycle:
  assumes "get16 mem (root + 12) = Some 0" "get16 mem (root + 14) = Some n" "n \<noteq> 0" "get32 mem (root + 20) = Some 0x80000000"
  shows "FindResourceRva depth mem name (Some root) st = None"
proof -
  have "[0..<unat n] = 0 # [1..<unat n]"
    using assms(3) upt_conv_Cons [of 0 "unat n"] by (simp add: unat_gt_0)
  moreover have "(0x80000000 :: u32) AND 0x80000000 \<noteq> 0" "(0x80000000 :: u32) AND 0x7FFFFFFF = 0"
    by code_simp+
  ultimately have "find_resource depth mem name root root st = None" for st
    using assms by (induction depth arbitrary: st) (simp_all add: add_ac Let_def del: and_numerals)
  then show ?thesis by (simp add: FindResourceRva_def)
qed

theorem FindResourceRva_cycle_witness:
  "FindResourceRva 1000 (replicate 14 0 @ [1, 0] @ [10, 0, 0, 0, 0, 0, 0, 0x80]) [0x41] (Some 0) \<lparr>FoundResourceRva = False, rsrc_len = 0\<rparr> = None"
proof -
  let ?m = "replicate 14 0 @ [1, 0] @ [10, 0, 0, 0, 0, 0, 0, 0x80] :: bytes"
  have "get16 ?m (0 + 12) = Some 0" "get16 ?m (0 + 14) = Some 1" "get32 ?m (0 + 20) = Some 0x80000000" by code_simp+
  then show ?thesis by (rule FindResourceRva_cycle [OF _ _ one_neq_zero])
qed

lemma take_wide: "take (2 * k) (wide n) = wide (take k n)"
proof (induction n arbitrary: k)
  case (Cons c n)
  then show ?case by (cases k) (simp_all add: wide_def)
qed (simp add: wide_def)

lemma wide_inject: "wide n = wide m \<longleftrightarrow> n = m"
proof (induction n arbitrary: m)
  case (Cons c n)
  have "le_bytes 2 c = le_bytes 2 d \<longleftrightarrow> c = d" for d :: u16
  proof
    assume "le_bytes 2 c = le_bytes 2 d"
    then have "(le_word (le_bytes 2 c) :: u16) = le_word (le_bytes 2 d)" by (rule arg_cong)
    then show "c = d" by simp
  qed simp
  moreover have "le_bytes 2 d \<noteq> []" for d :: u16
    by (simp add: numeral_2_eq_2)
  ultimately show ?case using Cons by (cases m) (auto simp: wide_def)
next
  case Nil
  show ?case by (cases m) (simp_all add: wide_def numeral_2_eq_2)
qed

text \<open>
  The names that \<^verbatim>\<open>FindResourceRva\<close> takes for the one it looks for: the length has to agree, but since the comparison is over as many bytes as the
  name has characters, only the first half of the characters has to.
\<close>

theorem resource_name_half:
  assumes "name_stored mem root e n" "length name = 2 * k"
  shows "resource_name_matches mem name root e = Some (length n = 2 * k \<and> take k n = take k name)"
  using resource_name_stored [OF assms(1), of name] assms(2) by (auto simp: same_name_def take_wide wide_inject)

theorem resource_name_half_witness:
  "resource_name_matches ([8, 0, 0, 0, 0, 0, 0, 0] @ [2, 0] @ wide [0x41, 0x43]) [0x41, 0x42] 0 0 = Some True"
proof -
  have "name_stored ([8, 0, 0, 0, 0, 0, 0, 0] @ [2, 0] @ wide [0x41, 0x43]) 0 0 [0x41, 0x43]" by code_simp
  from resource_name_half [OF this, of "[0x41, 0x42]" 1] show ?thesis by simp
qed

end
