(* ===== verification/C_Strings.thy ===== *)
theory C_Strings
  imports Rufus_Prelude
begin

text \<open>
  What the models use of the C library on strings: \<^verbatim>\<open>strtoul\<close> and \<^verbatim>\<open>atoi\<close>, decimal notation as their inverse, and comparison without regard to the case of the
  letters of ASCII. A string is the list of its characters
  without the terminating zero; \<^verbatim>\<open>long\<close> has 64 bits.
\<close>

section \<open>Numbers\<close>

definition digit_value :: "byte \<Rightarrow> nat option" where
  "digit_value c =
     (if 0x30 \<le> c \<and> c \<le> 0x39 then Some (unat c - 0x30)
      else if 0x41 \<le> c \<and> c \<le> 0x5A then Some (unat c - 0x37)
      else if 0x61 \<le> c \<and> c \<le> 0x7A then Some (unat c - 0x57) else None)"

fun digits_value :: "nat \<Rightarrow> nat \<Rightarrow> bytes \<Rightarrow> nat" where
  "digits_value base acc [] = acc"
| "digits_value base acc (c # cs) =
     (case digit_value c of
        Some d \<Rightarrow> if d < base then digits_value base (acc * base + d) cs else acc
      | None \<Rightarrow> acc)"

definition skip_space :: "bytes \<Rightarrow> bytes" where
  "skip_space = dropWhile (\<lambda>c. c = 0x20 \<or> 0x09 \<le> c \<and> c \<le> 0x0D)"

text \<open>The sign and the digits of \<^verbatim>\<open>strtol\<close> and \<^verbatim>\<open>strtoul\<close>: the value without its sign, and the sign.\<close>

definition has_digit :: "nat \<Rightarrow> byte \<Rightarrow> bool" where
  "has_digit base c = (case digit_value c of None \<Rightarrow> False | Some d \<Rightarrow> d < base)"

definition number_text :: "nat \<Rightarrow> bytes \<Rightarrow> bool \<times> bytes" where
  "number_text base s =
     (let s = skip_space s; neg = (take 1 s = [0x2D]);
          s = (if take 1 s = [0x2D] \<or> take 1 s = [0x2B] then drop 1 s else s);
          s = (if base = 16 \<and> length s \<ge> 3 \<and> s ! 0 = 0x30 \<and> (s ! 1 = 0x78 \<or> s ! 1 = 0x58) \<and> has_digit 16 (s ! 2) then drop 2 s else s)
      in (neg, s))"

definition scan_number :: "nat \<Rightarrow> bytes \<Rightarrow> nat \<times> bool" where
  "scan_number base s = (case number_text base s of (neg, t) \<Rightarrow> (digits_value base 0 t, neg))"

text \<open>What \<^verbatim>\<open>*endptr\<close> points to.\<close>

definition number_end :: "nat \<Rightarrow> bytes \<Rightarrow> bytes" where
  "number_end base s = (case number_text base s of (neg, t) \<Rightarrow>
     if t \<noteq> [] \<and> has_digit base (hd t) then dropWhile (has_digit base) t else s)"

definition strtoul :: "nat \<Rightarrow> bytes \<Rightarrow> u64" where
  "strtoul base s =
     (case scan_number base s of
        (v, neg) \<Rightarrow> if int v \<ge> 18446744073709551616 then - 1 else if neg then - of_nat v else of_nat v)"

definition atoi :: "bytes \<Rightarrow> u32" where
  "atoi s =
     (case scan_number 10 s of
        (v, neg) \<Rightarrow>
          let n = (if neg then - int v else int v)
          in of_int (if n > 9223372036854775807 then 9223372036854775807
                     else if n < - 9223372036854775808 then - 9223372036854775808 else n))"

section \<open>Decimal numbers\<close>

fun decimal :: "nat \<Rightarrow> bytes" where
  "decimal n = (if n < 10 then [of_nat (0x30 + n)] else decimal (n div 10) @ [of_nat (0x30 + n mod 10)])"

declare decimal.simps [simp del]

lemma digit_value_decimal: "n < 10 \<Longrightarrow> digit_value (of_nat (0x30 + n)) = Some n"
proof -
  assume "n < 10"
  then have "n \<in> {0, 1, 2, 3, 4, 5, 6, 7, 8, 9}" by auto
  then show ?thesis by (elim insertE) (simp_all add: digit_value_def)
qed

definition is_digit :: "byte \<Rightarrow> bool" where
  "is_digit c \<longleftrightarrow> 0x30 \<le> c \<and> c \<le> 0x39"

lemma is_digit_of_nat: "n < 10 \<Longrightarrow> is_digit (of_nat (0x30 + n))"
proof -
  assume "n < 10"
  then have "n \<in> {0, 1, 2, 3, 4, 5, 6, 7, 8, 9}" by auto
  then show ?thesis by (elim insertE) (simp_all add: is_digit_def)
qed

lemma decimal_digits: "\<forall>c \<in> set (decimal n). is_digit c" and decimal_not_Nil: "decimal n \<noteq> []"
  by (induction n rule: decimal.induct; subst decimal.simps; use is_digit_of_nat in auto)+

lemma digits_value_append:
  "\<forall>c \<in> set xs. \<exists>d < base. digit_value c = Some d \<Longrightarrow> digits_value base acc (xs @ ys) = digits_value base (digits_value base acc xs) ys"
  by (induction xs arbitrary: acc) auto

lemma is_digit_value: "is_digit c \<Longrightarrow> \<exists>d < 10. digit_value c = Some d"
  by (auto simp: is_digit_def digit_value_def word_le_nat_alt)

lemma digits_value_decimal: "digits_value 10 0 (decimal n) = n"
proof (induction n rule: decimal.induct)
  case (1 n)
  show ?case
  proof (cases "n < 10")
    case True
    then show ?thesis using digit_value_decimal [OF True] by (subst decimal.simps) simp
  next
    case False
    have "digits_value 10 0 (decimal n) = digits_value 10 (digits_value 10 0 (decimal (n div 10))) [of_nat (0x30 + n mod 10)]"
      using False decimal_digits is_digit_value by (subst decimal.simps) (simp add: digits_value_append del: of_nat_add)
    then show ?thesis
      using 1 False digit_value_decimal [of "n mod 10"] by (simp del: of_nat_add)
  qed
qed

lemma is_digit_not: "is_digit c \<Longrightarrow> c \<noteq> 0x2C \<and> c \<noteq> 0x0A \<and> c \<noteq> 0 \<and> c \<noteq> 0x2D \<and> c \<noteq> 0x2B \<and> c \<noteq> 0x20 \<and> c \<noteq> 0x78 \<and> c \<noteq> 0x58 \<and>
    \<not> (0x09 \<le> c \<and> c \<le> 0x0D)"
  by (auto simp: is_digit_def word_le_nat_alt)

lemma scan_decimal: "scan_number 10 (decimal n) = (n, False)"
proof -
  obtain c cs where c: "decimal n = c # cs" "is_digit c"
    using decimal_not_Nil [of n] decimal_digits [of n] by (cases "decimal n") auto
  then have "skip_space (decimal n) = decimal n"
    using is_digit_not [OF c(2)] by (auto simp add: skip_space_def)
  then show ?thesis
    using is_digit_not [OF c(2)] c(1) digits_value_decimal [of n] by (simp add: scan_number_def number_text_def)
qed

lemma strtoul_decimal: "n < 2 ^ 32 \<Longrightarrow> strtoul 10 (decimal n) = of_nat n"
  by (simp add: strtoul_def scan_decimal)

lemma atoi_decimal: "n < 2 ^ 31 \<Longrightarrow> atoi (decimal n) = of_nat n"
  by (simp add: atoi_def scan_decimal)

lemma decimal_no_hex: "take 2 (decimal n) \<noteq> [0x30, 0x78]"
proof
  assume "take 2 (decimal n) = [0x30, 0x78]"
  then have "0x78 \<in> set (decimal n)"
    by (metis in_set_takeD list.set_intros(1,2))
  then show False
    using decimal_digits [of n] by (auto simp: is_digit_def word_le_nat_alt)
qed

lemma takeWhile_stop: "\<forall>x \<in> set xs. P x \<Longrightarrow> \<not> P y \<Longrightarrow> takeWhile P (xs @ y # ys) = xs"
  "\<forall>x \<in> set xs. P x \<Longrightarrow> \<not> P y \<Longrightarrow> dropWhile P (xs @ y # ys) = y # ys"
  by (induction xs) auto

text \<open>A number followed by something that is not a digit.\<close>

lemma number_text_digits: "is_digit c \<Longrightarrow> number_text 10 (c # s) = (False, c # s)"
  using is_digit_not [of c] by (auto simp: number_text_def skip_space_def)

lemma has_digit_10: "has_digit 10 c \<longleftrightarrow> is_digit c"
  using is_digit_value [of c] by (auto simp: has_digit_def digit_value_def is_digit_def word_le_nat_alt word_less_nat_alt)

lemma digits_value_stop: "rest = [] \<or> \<not> has_digit base (hd rest) \<Longrightarrow> digits_value base acc rest = acc"
  by (cases rest) (auto simp: has_digit_def split: option.splits)

lemma decimal_append:
  assumes "rest = [] \<or> \<not> is_digit (hd rest)"
  shows "scan_number 10 (decimal n @ rest) = (n, False)" "number_end 10 (decimal n @ rest) = rest"
proof -
  obtain c cs where c: "decimal n = c # cs" "is_digit c"
    using decimal_not_Nil [of n] decimal_digits [of n] by (cases "decimal n") auto
  have all: "\<forall>x \<in> set (decimal n). has_digit 10 x" using decimal_digits [of n] by (simp add: has_digit_10)
  have stop: "rest = [] \<or> \<not> has_digit 10 (hd rest)" using assms by (simp add: has_digit_10)
  have text': "number_text 10 (decimal n @ rest) = (False, decimal n @ rest)"
    using number_text_digits [OF c(2)] c(1) by simp
  have "\<forall>x \<in> set (decimal n). \<exists>d < 10. digit_value x = Some d" using decimal_digits [of n] is_digit_value by blast
  then show "scan_number 10 (decimal n @ rest) = (n, False)"
    using digits_value_append [of "decimal n" 10 0 rest] digits_value_stop [OF stop] digits_value_decimal [of n] text'
    by (simp add: scan_number_def)
  have "dropWhile (has_digit 10) (decimal n @ rest) = rest"
    using all stop by (cases rest) (simp_all add: takeWhile_stop(2))
  then show "number_end 10 (decimal n @ rest) = rest"
    using text' c all by (simp add: number_end_def)
qed

lemma strtoul_decimal_append:
  assumes "n < 2 ^ 64" "rest = [] \<or> \<not> is_digit (hd rest)"
  shows "strtoul 10 (decimal n @ rest) = of_nat n"
  using assms(1) decimal_append(1) [OF assms(2), of n] by (simp add: strtoul_def)

section \<open>Comparison\<close>

definition lower_byte :: "byte \<Rightarrow> byte" where
  "lower_byte c = (if 0x41 \<le> c \<and> c \<le> 0x5A then c + 0x20 else c)"

text \<open>Whether \<^verbatim>\<open>_stricmp(s, t)\<close> and \<^verbatim>\<open>_strnicmp(s, t, strlen(t))\<close> are zero.\<close>

definition stricmp :: "bytes \<Rightarrow> bytes \<Rightarrow> bool" where
  "stricmp s t \<longleftrightarrow> map lower_byte s = map lower_byte t"

definition strnicmp :: "bytes \<Rightarrow> bytes \<Rightarrow> bool" where
  "strnicmp s t \<longleftrightarrow> map lower_byte (take (length t) s) = map lower_byte t"

end
