(* ===== verification/Sbat.thy ===== *)
theory Sbat
  imports C_Strings "HOL-Library.Monad_Syntax"
begin

text \<open>
  SBAT revocation: \<^verbatim>\<open>GetSbatEntries\<close> of \<^verbatim>\<open>src/parser.c\<close>, which parses a list of minimum versions, and the loop of
  \<^verbatim>\<open>IsRevokedBySbat\<close> in \<^verbatim>\<open>src/common/hash.c\<close>, which compares them with the \<^verbatim>\<open>.sbat\<close> section of a boot loader. A C string is the
  list of its characters. \<^verbatim>\<open>long\<close> has 64 bits.
\<close>

section \<open>The code\<close>

subsection \<open>The list of minimum versions\<close>

record sbat_entry =
  product :: bytes
  version :: u32

definition field_end :: "byte \<Rightarrow> bool" where
  "field_end c \<longleftrightarrow> c = 0x2C \<or> c = 0x0A"

lemma sbat_comment_shorter: "s \<noteq> [] \<Longrightarrow> hd s = 0x23 \<Longrightarrow> length (dropWhile (\<lambda>c. c \<noteq> 0x0A) s) < length (s :: bytes)"
  by (cases s) (auto intro: le_imp_less_Suc length_dropWhile_le)

text \<open>One line with an entry: the product, the version and the rest of the string, or \<open>None\<close> if it has no version.\<close>

definition sbat_level_entry :: "bytes \<Rightarrow> (bytes \<times> u32 \<times> bytes) option" where
  "sbat_level_entry s =
     (let name = takeWhile (\<lambda>c. \<not> field_end c) s; s = dropWhile (\<lambda>c. \<not> field_end c) s
      in if s = [] \<or> hd s = 0x0A then None
         else
           let s = tl s; version_str = takeWhile (\<lambda>c. \<not> field_end c) s; s = dropWhile (\<lambda>c. \<not> field_end c) s;
               eol = (s = [] \<or> hd s = 0x0A);
               s = tl s;
               v = ucast (if take 2 version_str = [0x30, 0x78] then strtoul 16 version_str else strtoul 10 version_str);
               s = (if \<not> eol then dropWhile (\<lambda>c. c \<noteq> 0x0A) s else s)
           in Some (name, v, s))"

lemma sbat_entry_shorter:
  assumes "sbat_level_entry s = Some (p, v, r)"
  shows "length r < length s"
proof -
  let ?s1 = "dropWhile (\<lambda>c. \<not> field_end c) s"
  let ?s2 = "dropWhile (\<lambda>c. \<not> field_end c) (tl ?s1)"
  have "?s1 \<noteq> []" "r = tl ?s2 \<or> r = dropWhile (\<lambda>c. c \<noteq> 0x0A) (tl ?s2)"
    using assms unfolding sbat_level_entry_def Let_def by (auto split: if_splits)
  moreover have "length (dropWhile P (tl xs)) \<le> length xs" "length (tl xs) \<le> length xs" for P and xs :: bytes
    using length_dropWhile_le [of P "tl xs"] by simp_all
  ultimately have "length r \<le> length ?s2"
    by metis
  also have "\<dots> \<le> length (tl ?s1)"
    by (rule length_dropWhile_le)
  also have "\<dots> < length ?s1"
    using \<open>?s1 \<noteq> []\<close> by simp
  also have "\<dots> \<le> length s"
    by (rule length_dropWhile_le)
  finally show ?thesis .
qed

text \<open>
  The loop over \<^verbatim>\<open>sbatlevel\<close>, from the rest of the string. The result is the entries with a product: those with a
  version, and possibly one more whose version is 0, which the loop left behind. When it meets a line without
  a version it stops, and the product of that entry is all of the rest.
\<close>

function sbat_level_loop :: "bytes \<Rightarrow> sbat_entry list \<Rightarrow> bytes option \<Rightarrow> sbat_entry list" where
  "sbat_level_loop s entries stale =
     (if s = [] then entries @ (case stale of None \<Rightarrow> [] | Some p \<Rightarrow> [\<lparr>product = p, version = 0\<rparr>])
      else if hd s = 0x0A then sbat_level_loop (tl s) entries stale
      else if hd s = 0x23 then sbat_level_loop (dropWhile (\<lambda>c. c \<noteq> 0x0A) s) entries stale
      else (case sbat_level_entry s of
              None \<Rightarrow> entries @ [\<lparr>product = s, version = 0\<rparr>]
            | Some (name, v, r) \<Rightarrow>
                if v \<noteq> 0 then sbat_level_loop r (entries @ [\<lparr>product = name, version = v\<rparr>]) None
                else sbat_level_loop r entries (Some name)))"
  by pat_completeness auto
termination
  by (relation "measure (\<lambda>(s, entries, stale). length s)") (auto intro: sbat_entry_shorter sbat_comment_shorter)

declare sbat_level_loop.simps [simp del]

text \<open>The entries of the table that the function allocates.\<close>

definition sbat_table_size :: "bytes \<Rightarrow> nat" where
  "sbat_table_size sbatlevel = count_list sbatlevel 0x0A + 2"

definition GetSbatEntries :: "bytes \<Rightarrow> sbat_entry list option" where
  "GetSbatEntries sbatlevel = (if 0x0A \<in> set sbatlevel then Some (sbat_level_loop sbatlevel [] None) else None)"

subsection \<open>The section of a boot loader\<close>

text \<open>The C string at \<open>off\<close>, and the first position from \<open>i\<close> on whose character satisfies \<open>P\<close>. \<open>None\<close> is the end of the memory.\<close>

definition cstr :: "bytes \<Rightarrow> nat \<Rightarrow> bytes" where
  "cstr mem off = takeWhile (\<lambda>c. c \<noteq> 0) (drop off mem)"

definition skip_to :: "(byte \<Rightarrow> bool) \<Rightarrow> bytes \<Rightarrow> nat \<Rightarrow> nat option" where
  "skip_to P mem i = List.find (\<lambda>j. P (mem ! j)) [i..<length mem]"

lemma skip_to_ge: "skip_to P mem i = Some j \<Longrightarrow> i \<le> j \<and> j < length mem"
  by (auto simp: skip_to_def find_Some_iff)

definition stop_char :: "byte \<Rightarrow> bool" where
  "stop_char c \<longleftrightarrow> c = 0x2C \<or> c = 0 \<or> c = 0x0A"

text \<open>
  The loop of \<^verbatim>\<open>IsRevokedBySbat\<close> over the memory of the image, with \<open>i\<close> the position of \<^verbatim>\<open>sbat[i]\<close>. It writes zeros into the image. \<open>None\<close> is
  a read past the end of the image.
\<close>

function sbat_loop :: "sbat_entry list \<Rightarrow> bytes \<Rightarrow> nat \<Rightarrow> (bool \<times> bytes) option" where
  "sbat_loop entries mem i =
     (if length mem \<le> i then None
      else if mem ! i = 0 then Some (False, mem)
      else case skip_to (\<lambda>c. c \<noteq> 0x0A) mem i of
        None \<Rightarrow> None
      | Some p \<Rightarrow>
          if mem ! p = 0 then Some (False, mem)
          else (case skip_to stop_char mem p of
            None \<Rightarrow> None
          | Some e \<Rightarrow>
              if mem ! e \<noteq> 0x2C then Some (False, mem)
              else (case skip_to stop_char (mem[e := 0]) (e + 1) of
                None \<Rightarrow> None
              | Some v \<Rightarrow>
                  let mem' = mem[e := 0, v := 0]; ver = atoi (cstr mem' (e + 1))
                  in case skip_to (\<lambda>c. c = 0 \<or> c = 0x0A) mem' (v + 1) of
                    None \<Rightarrow> None
                  | Some k \<Rightarrow>
                      if ver = 0 then sbat_loop entries mem' k
                      else if list_ex (\<lambda>en. cstr mem' p = product en \<and> ver < version en) entries then Some (True, mem')
                      else sbat_loop entries mem' k)))"
  by pat_completeness auto
termination
  by (relation "measure (\<lambda>(entries, mem, i). length mem - i)") (auto dest!: skip_to_ge)

declare sbat_loop.simps [simp del]

section \<open>The list of minimum versions\<close>

text \<open>A line of the list, and its text.\<close>

datatype level_line = Blank | Comment bytes | Entry bytes nat "bytes option"

fun level_text :: "level_line \<Rightarrow> bytes" where
  "level_text Blank = []"
| "level_text (Comment c) = 0x23 # c"
| "level_text (Entry p v r) = p @ 0x2C # decimal v @ (case r of None \<Rightarrow> [] | Some x \<Rightarrow> 0x2C # x)"

fun level_ok :: "level_line \<Rightarrow> bool" where
  "level_ok Blank \<longleftrightarrow> True"
| "level_ok (Comment c) \<longleftrightarrow> 0x0A \<notin> set c"
| "level_ok (Entry p v r) \<longleftrightarrow> (\<forall>c \<in> set p. \<not> field_end c) \<and> take 1 p \<noteq> [0x23] \<and> 0 < v \<and> v < 2 ^ 32 \<and>
     (case r of None \<Rightarrow> True | Some x \<Rightarrow> 0x0A \<notin> set x)"

fun level_entries :: "level_line \<Rightarrow> sbat_entry list" where
  "level_entries (Entry p v r) = [\<lparr>product = p, version = of_nat v\<rparr>]"
| "level_entries _ = []"

lemma field_end_simps [simp]: "field_end 0x2C" "field_end 0x0A" "is_digit c \<Longrightarrow> \<not> field_end c"
  using is_digit_not by (auto simp: field_end_def)

lemma sbat_level_entry_line:
  assumes "level_ok (Entry p v r)"
  shows "sbat_level_entry (level_text (Entry p v r) @ 0x0A # s) =
    Some (p, of_nat v, (case r of None \<Rightarrow> s | Some _ \<Rightarrow> 0x0A # s))"
proof -
  have p: "\<forall>c \<in> set p. \<not> field_end c" and v: "\<forall>c \<in> set (decimal v). \<not> field_end c" "v < 2 ^ 32"
    using assms decimal_digits [of v] by auto
  have num: "(ucast (strtoul 10 (decimal v)) :: u32) = of_nat v"
    using strtoul_decimal [OF v(2)] v(2) take_bit_nat_eq_self [of v 64]
    by (simp add: unsigned_of_nat)
  show ?thesis
  proof (cases r)
    case None
    then show ?thesis
      using takeWhile_stop [OF p, of "0x2C" "decimal v @ 0x0A # s"] takeWhile_stop [OF v(1), of "0x0A" s] num
      by (simp add: sbat_level_entry_def Let_def decimal_no_hex)
  next
    case (Some x)
    then have x: "\<forall>c \<in> set x. c \<noteq> 0x0A" using assms by auto
    show ?thesis
      using takeWhile_stop [OF p, of "0x2C" "decimal v @ 0x2C # x @ 0x0A # s"] takeWhile_stop [OF v(1), of "0x2C" "x @ 0x0A # s"] num
        takeWhile_stop(2) [OF x, of "0x0A" s] Some
      by (simp add: sbat_level_entry_def Let_def decimal_no_hex)
  qed
qed


abbreviation level_string :: "level_line list \<Rightarrow> bytes" where
  "level_string ls \<equiv> concat (map (\<lambda>l. level_text l @ [0x0A]) ls)"

lemma sbat_level_loop_Nil: "sbat_level_loop [] es None = es"
  by (simp add: sbat_level_loop.simps)

lemma sbat_level_loop_newline: "sbat_level_loop (0x0A # s) es stale = sbat_level_loop s es stale"
  by (subst sbat_level_loop.simps) simp

lemma sbat_level_loop_line:
  assumes "level_ok l"
  shows "sbat_level_loop (level_text l @ 0x0A # s) es None = sbat_level_loop s (es @ level_entries l) None"
proof (cases l)
  case Blank
  then show ?thesis by (simp add: sbat_level_loop_newline)
next
  case (Comment c)
  then have c: "\<forall>x \<in> set c. x \<noteq> 0x0A" using assms by auto
  have "dropWhile (\<lambda>c. c \<noteq> 0x0A) (0x23 # c @ 0x0A # s) = 0x0A # s"
    using takeWhile_stop(2) [OF c, of "0x0A" s] by simp
  then have "sbat_level_loop (0x23 # c @ 0x0A # s) es None = sbat_level_loop (0x0A # s) es None"
    by (subst sbat_level_loop.simps) simp
  then show ?thesis using Comment by (simp add: sbat_level_loop_newline)
next
  case (Entry p v r)
  have v: "(of_nat v :: u32) \<noteq> 0"
    using assms Entry nat_dvd_not_less [of v "2 ^ 32"] by (simp add: word_of_nat_eq_0_iff)
  have "level_text l @ 0x0A # s \<noteq> []" "hd (level_text l @ 0x0A # s) \<noteq> 0x0A" "hd (level_text l @ 0x0A # s) \<noteq> 0x23"
    using assms Entry by (cases p; auto simp: field_end_def)+
  then have "sbat_level_loop (level_text l @ 0x0A # s) es None =
      sbat_level_loop (case r of None \<Rightarrow> s | Some _ \<Rightarrow> 0x0A # s) (es @ [\<lparr>product = p, version = of_nat v\<rparr>]) None"
    using sbat_level_entry_line [of p v r s] assms Entry v by (subst sbat_level_loop.simps) simp
  then show ?thesis using Entry by (simp add: sbat_level_loop_newline split: option.splits)
qed

lemma sbat_level_loop_lines:
  "\<forall>l \<in> set ls. level_ok l \<Longrightarrow> sbat_level_loop (level_string ls) es None = es @ concat (map level_entries ls)"
  by (induction ls arbitrary: es) (simp_all add: sbat_level_loop_Nil sbat_level_loop_line)

text \<open>
  C35. Round trip of the list of minimum versions: a list of blank lines, comments and entries with a decimal version
  between 1 and \<open>2\<^sup>32 - 1\<close>, whatever follows the version, is parsed into exactly its entries, in their order.
\<close>

theorem GetSbatEntries_roundtrip:
  assumes "ls \<noteq> []" "\<forall>l \<in> set ls. level_ok l"
  shows "GetSbatEntries (level_string ls) = Some (concat (map level_entries ls))"
proof -
  have "0x0A \<in> set (level_string ls)" using assms(1) by (cases ls) auto
  then show ?thesis using sbat_level_loop_lines [OF assms(2), of "[]"] by (simp add: GetSbatEntries_def)
qed

theorem GetSbatEntries_roundtrip_witness:
  "GetSbatEntries (level_string [Comment [0x41], Entry [0x73, 0x68] 4 None, Blank, Entry [0x67] 12 (Some [0x31])]) =
     Some [\<lparr>product = [0x73, 0x68], version = 4\<rparr>, \<lparr>product = [0x67], version = 12\<rparr>]"
  using GetSbatEntries_roundtrip [of "[Comment [0x41], Entry [0x73, 0x68] 4 None, Blank, Entry [0x67] 12 (Some [0x31])]"]
  by (simp add: field_end_def)


section \<open>The size of the table\<close>

text \<open>A bound on the entries that the rest \<open>s\<close> of the list can still add.\<close>

definition lines_left :: "bytes \<Rightarrow> nat" where
  "lines_left s = (if s = [] then 0 else if hd s = 0x0A then count_list s 0x0A else count_list s 0x0A + 1)"

lemma lines_left_le: "lines_left s \<le> count_list s 0x0A + 1"
  by (simp add: lines_left_def)

lemma count_dropWhile_le: "count_list (dropWhile P s) c \<le> count_list s c"
  by (induction s) auto

lemma count_dropWhile_other: "\<not> P c \<Longrightarrow> count_list (dropWhile P s) c = count_list s c"
  by (induction s) auto

lemma count_tl_newline: "s \<noteq> [] \<Longrightarrow> hd s = c \<Longrightarrow> count_list s c = count_list (tl s) c + 1"
  by (cases s) auto

lemma lines_left_skip: "lines_left (dropWhile (\<lambda>c. c \<noteq> 0x0A) s) \<le> count_list s 0x0A"
  using hd_dropWhile [of "\<lambda>c. c \<noteq> 0x0A" s] count_dropWhile_le [of "\<lambda>c. c \<noteq> 0x0A" s "0x0A"] by (auto simp: lines_left_def)

lemma count_tl_le: "count_list (tl s) c \<le> count_list s c"
  by (cases s) auto

lemma sbat_level_entry_lines:
  assumes "sbat_level_entry s = Some (p, v, r)"
  shows "lines_left r \<le> count_list s 0x0A"
proof -
  let ?d = "dropWhile (\<lambda>c. \<not> field_end c)"
  let ?s2 = "?d (tl (?d s))"
  have le: "count_list ?s2 0x0A \<le> count_list s 0x0A"
    by (rule order_trans [OF count_dropWhile_le order_trans [OF count_tl_le count_dropWhile_le]])
  have "r = (if \<not> (?s2 = [] \<or> hd ?s2 = 0x0A) then dropWhile (\<lambda>c. c \<noteq> 0x0A) (tl ?s2) else tl ?s2)"
    using assms unfolding sbat_level_entry_def Let_def by (simp only: option.inject prod.inject option.distinct split: if_split_asm)
  then consider "r = []" | "?s2 \<noteq> []" "hd ?s2 = 0x0A" "r = tl ?s2" | "r = dropWhile (\<lambda>c. c \<noteq> 0x0A) (tl ?s2)"
    by (cases "?s2 = []") (simp_all split: if_splits)
  then show ?thesis
  proof cases
    case 1
    then show ?thesis by (simp add: lines_left_def)
  next
    case 2
    then show ?thesis using count_tl_newline [of ?s2 "0x0A"] lines_left_le [of r] le by simp
  next
    case 3
    then have "lines_left r \<le> count_list (tl ?s2) 0x0A" by (simp add: lines_left_skip)
    also have "\<dots> \<le> count_list ?s2 0x0A" by (rule count_tl_le)
    finally show ?thesis using le by simp
  qed
qed

text \<open>An induction on the loop with one case per branch.\<close>

lemma sbat_level_loop_induct [case_names Nil Newline Comment Stop Zero Entry]:
  assumes "\<And>es stale. P [] es stale (es @ (case stale of None \<Rightarrow> [] | Some p \<Rightarrow> [\<lparr>product = p, version = 0\<rparr>]))"
    and "\<And>s es stale R. P s es stale R \<Longrightarrow> P (0x0A # s) es stale R"
    and "\<And>s es stale R. P (dropWhile (\<lambda>c. c \<noteq> 0x0A) s) es stale R \<Longrightarrow> P (0x23 # s) es stale R"
    and "\<And>s es stale. s \<noteq> [] \<Longrightarrow> hd s \<noteq> 0x0A \<Longrightarrow> sbat_level_entry s = None \<Longrightarrow> P s es stale (es @ [\<lparr>product = s, version = 0\<rparr>])"
    and "\<And>s es stale name r R. s \<noteq> [] \<Longrightarrow> hd s \<noteq> 0x0A \<Longrightarrow> sbat_level_entry s = Some (name, 0, r) \<Longrightarrow>
      P r es (Some name) R \<Longrightarrow> P s es stale R"
    and "\<And>s es stale name v r R. s \<noteq> [] \<Longrightarrow> hd s \<noteq> 0x0A \<Longrightarrow> sbat_level_entry s = Some (name, v, r) \<Longrightarrow> v \<noteq> 0 \<Longrightarrow>
      P r (es @ [\<lparr>product = name, version = v\<rparr>]) None R \<Longrightarrow> P s es stale R"
  shows "P s es stale (sbat_level_loop s es stale)"
proof (induction s es stale rule: sbat_level_loop.induct)
  case (1 s es stale)
  consider "s = []" | t where "s = 0x0A # t" | t where "s = 0x23 # t" | "s \<noteq> []" "hd s \<noteq> 0x0A" "hd s \<noteq> 0x23"
    by (cases s) auto
  then show ?case
  proof cases
    case 1
    then show ?thesis using assms(1) by (simp add: sbat_level_loop.simps)
  next
    case (2 t)
    then show ?thesis using assms(2) "1.IH"(1) by (subst sbat_level_loop.simps) simp
  next
    case (3 t)
    then show ?thesis using assms(3) "1.IH"(2) by (subst sbat_level_loop.simps) simp
  next
    case 4
    show ?thesis
    proof (cases "sbat_level_entry s")
      case None
      then show ?thesis using assms(4) 4 by (subst sbat_level_loop.simps) simp
    next
      case (Some t)
      obtain name v r where t: "t = (name, v, r)" by (cases t)
      note ih = "1.IH"(3,4) [OF 4 Some t [symmetric] refl]
      show ?thesis
      proof (cases "v = 0")
        case True
        then show ?thesis using assms(5) [of s name r es _ stale] ih(2) 4 Some t by (subst sbat_level_loop.simps) simp
      next
        case False
        then show ?thesis using assms(6) [of s name v r es _ stale] ih(1) 4 Some t by (subst sbat_level_loop.simps) simp
      qed
    qed
  qed
qed

lemma sbat_level_loop_bound:
  "length (sbat_level_loop s es stale) \<le> length es + max (lines_left s) (if stale = None then 0 else 1)"
proof (induction s es stale rule: sbat_level_loop_induct)
  case (Nil es stale)
  then show ?case by (simp split: option.split)
next
  case (Newline s es stale R)
  then show ?case using lines_left_le [of s] by (simp add: lines_left_def [of "0x0A # s"] split: if_splits)
next
  case (Comment s es stale R)
  then show ?case using lines_left_skip [of s] by (simp add: lines_left_def [of "0x23 # s"] split: if_splits)
next
  case (Stop s es stale)
  then show ?case by (simp add: lines_left_def)
next
  case (Zero s es stale name r R)
  then show ?case using sbat_level_entry_lines [OF Zero(3)] by (simp add: lines_left_def [of s])
next
  case (Entry s es stale name v r R)
  then show ?case using sbat_level_entry_lines [OF Entry(3)] by (simp add: lines_left_def [of s])
qed

lemma sbat_level_loop_versions:
  "(\<forall>e \<in> set es. version e \<noteq> 0) \<longrightarrow> (\<forall>e \<in> set (butlast (sbat_level_loop s es stale)). version e \<noteq> 0)"
  by (induction s es stale rule: sbat_level_loop_induct) (auto split: option.splits dest: in_set_butlastD)

text \<open>
  The table that \<^verbatim>\<open>GetSbatEntries\<close> allocates, two entries more than the list has line ends, has room for every entry
  it writes and for the one without a product that ends it, for any list at all. Every entry but possibly
  the last has a version other than 0.
\<close>

theorem GetSbatEntries_table:
  assumes "GetSbatEntries sbatlevel = Some es"
  shows "length es < sbat_table_size sbatlevel \<and> (\<forall>e \<in> set (butlast es). version e \<noteq> 0)"
proof -
  have es: "es = sbat_level_loop sbatlevel [] None"
    using assms by (simp add: GetSbatEntries_def split: if_splits)
  have "length es < sbat_table_size sbatlevel"
    using sbat_level_loop_bound [of sbatlevel "[]" None] lines_left_le [of sbatlevel] es by (simp add: sbat_table_size_def)
  moreover have "\<forall>e \<in> set (butlast es). version e \<noteq> 0"
    using sbat_level_loop_versions [of "[]" sbatlevel None] es by simp
  ultimately show ?thesis ..
qed


theorem GetSbatEntries_table_witness:
  "length [\<lparr>product = [0x73], version = 4\<rparr>, \<lparr>product = [0x67, 0x0A], version = 0\<rparr>] < sbat_table_size [0x73, 0x2C, 0x34, 0x0A, 0x67, 0x0A]"
proof -
  have "GetSbatEntries [0x73, 0x2C, 0x34, 0x0A, 0x67, 0x0A] =
      Some [\<lparr>product = [0x73], version = 4\<rparr>, \<lparr>product = [0x67, 0x0A], version = 0\<rparr>]"
    by code_simp
  from GetSbatEntries_table [OF this] show ?thesis ..
qed

section \<open>The section of a boot loader\<close>

text \<open>A line of the \<^verbatim>\<open>.sbat\<close> section: product, version and the other fields, and when it is revoked.\<close>

type_synonym sbat_line = "bytes \<times> nat \<times> bytes"

definition plain :: "byte \<Rightarrow> bool" where
  "plain c \<longleftrightarrow> c \<noteq> 0 \<and> c \<noteq> 0x0A"

definition line_ok :: "sbat_line \<Rightarrow> bool" where
  "line_ok l = (case l of (p, v, r) \<Rightarrow> (\<forall>c \<in> set p. \<not> stop_char c) \<and> v < 2 ^ 31 \<and> (\<forall>c \<in> set r. plain c))"

definition line_text :: "sbat_line \<Rightarrow> bytes" where
  "line_text l = (case l of (p, v, r) \<Rightarrow> p @ 0x2C # decimal v @ 0x2C # r @ [0x0A])"

definition line_done :: "sbat_line \<Rightarrow> bytes" where
  "line_done l = (case l of (p, v, r) \<Rightarrow> p @ 0 # decimal v @ 0 # r)"

definition revoked_line :: "sbat_entry list \<Rightarrow> sbat_line \<Rightarrow> bool" where
  "revoked_line entries l = (case l of (p, v, r) \<Rightarrow> 0 < v \<and> (\<exists>en \<in> set entries. product en = p \<and> v < unat (version en)))"

lemma skip_to_stop:
  assumes "\<forall>x \<in> set xs. \<not> P x" "P y" "i = length pre"
  shows "skip_to P (pre @ xs @ y # ys) i = Some (length pre + length xs)"
proof -
  let ?m = "pre @ xs @ y # ys"
  have "length xs < length [i..<length ?m] \<and> P (?m ! ([i..<length ?m] ! length xs)) \<and>
      length pre + length xs = [i..<length ?m] ! length xs \<and> (\<forall>j < length xs. \<not> P (?m ! ([i..<length ?m] ! j)))"
    using assms by (simp add: nth_append)
  then show ?thesis
    unfolding skip_to_def find_Some_iff by (rule exI)
qed

lemma cstr_prefix: "\<forall>x \<in> set xs. x \<noteq> 0 \<Longrightarrow> i = length pre \<Longrightarrow> cstr (pre @ xs @ 0 # ys) i = xs"
  by (simp add: cstr_def takeWhile_stop)

lemma stop_char_simps [simp]: "stop_char 0x2C" "stop_char 0" "stop_char 0x0A"
  by (simp_all add: stop_char_def)

lemma plain_simps [simp]: "\<not> plain 0" "\<not> plain 0x0A"
  by (simp_all add: plain_def)


text \<open>The two fields that the loop reads of a line, after \<open>n\<close> line ends; \<open>t\<close> is the character that ends the version.\<close>

lemma sbat_loop_fields:
  fixes n :: nat
  defines "nl \<equiv> replicate n (0x0A :: byte)"
  assumes p: "\<forall>c \<in> set p. \<not> stop_char c" and v: "v < 2 ^ 31" and t: "stop_char t"
  shows "sbat_loop entries (pre @ nl @ p @ 0x2C # decimal v @ t # rest) (length pre) =
    (let mem = pre @ nl @ p @ 0 # decimal v @ 0 # rest
     in case skip_to (\<lambda>c. c = 0 \<or> c = 0x0A) mem (length pre + n + length p + 1 + length (decimal v) + 1) of
          None \<Rightarrow> None
        | Some k \<Rightarrow> if revoked_line entries (p, v, r) then Some (True, mem) else sbat_loop entries mem k)"
proof -
  let ?mem = "pre @ nl @ p @ 0x2C # decimal v @ t # rest"
  let ?mem' = "pre @ nl @ p @ 0 # decimal v @ 0 # rest"
  let ?p = "length pre + n"
  let ?e = "?p + length p"
  let ?v = "?e + 1 + length (decimal v)"
  have dv: "\<forall>c \<in> set (decimal v). \<not> stop_char c" and dz: "\<forall>c \<in> set (decimal v). c \<noteq> 0" and pz: "\<forall>c \<in> set p. c \<noteq> 0"
    using decimal_digits [of v] is_digit_not p by (auto simp: stop_char_def)
  have first: "?mem ! length pre \<noteq> 0" "length pre < length ?mem"
    using pz by (cases n; cases p; simp add: nl_def nth_append)+
  obtain y ys where y: "p @ 0x2C # decimal v @ t # rest = y # ys" "y \<noteq> 0x0A" "y \<noteq> 0"
    using p by (cases p) (auto simp: stop_char_def)
  have skip1: "skip_to (\<lambda>c. c \<noteq> 0x0A) ?mem (length pre) = Some ?p"
    using skip_to_stop [of nl "\<lambda>c. c \<noteq> 0x0A" y "length pre" pre ys] y by (simp add: nl_def)
  have at_p: "?mem ! ?p \<noteq> 0"
    using y by (simp add: nl_def nth_append)
  have skip2: "skip_to stop_char ?mem ?p = Some ?e"
    using skip_to_stop [OF p, of "0x2C" ?p "pre @ nl"] by (simp add: nl_def)
  have at_e: "?mem ! ?e = 0x2C" and upd_e: "?mem[?e := 0] = pre @ nl @ p @ 0 # decimal v @ t # rest"
    by (simp_all add: nl_def nth_append list_update_append)
  have skip3: "skip_to stop_char (?mem[?e := 0]) (?e + 1) = Some ?v"
    using skip_to_stop [OF dv t, of "?e + 1" "pre @ nl @ p @ [0]"] unfolding upd_e by (simp add: nl_def)
  have upd_v: "?mem[?e := 0, ?v := 0] = ?mem'"
    unfolding upd_e by (simp add: nl_def list_update_append)
  have str_v: "cstr ?mem' (?e + 1) = decimal v"
    using cstr_prefix [OF dz, of "?e + 1" "pre @ nl @ p @ [0]"] by (simp add: nl_def)
  have str_p: "cstr ?mem' ?p = p"
    using cstr_prefix [OF pz, of ?p "pre @ nl"] by (simp add: nl_def)
  have num: "atoi (decimal v) = of_nat v" "unat (of_nat v :: u32) = v" "(of_nat v :: u32) = 0 \<longleftrightarrow> v = 0"
    using atoi_decimal [OF v] v nat_dvd_not_less [of v "2 ^ 32"] by (auto simp: unsigned_of_nat take_bit_nat_eq_self word_of_nat_eq_0_iff)
  have rev: "revoked_line entries (p, v, r) \<longleftrightarrow> v \<noteq> 0 \<and> list_ex (\<lambda>en. p = product en \<and> of_nat v < version en) entries"
    using num(2) by (auto simp: revoked_line_def list_ex_iff word_less_nat_alt)
  show ?thesis
    using first skip1 at_p skip2 at_e skip3 num rev upd_v str_v str_p
    by (subst sbat_loop.simps) (simp add: Let_def split: option.split)
qed


lemma sbat_loop_line:
  assumes "\<forall>c \<in> set p. \<not> stop_char c" "v < 2 ^ 31" "stop_char t" and r: "\<forall>c \<in> set r. plain c" "\<not> plain e"
  shows "sbat_loop entries (pre @ replicate n 0x0A @ p @ 0x2C # decimal v @ t # r @ e # post) (length pre) =
    (let mem = pre @ replicate n 0x0A @ p @ 0 # decimal v @ 0 # r @ e # post
     in if revoked_line entries (p, v, r) then Some (True, mem)
        else sbat_loop entries mem (length pre + n + length p + 1 + length (decimal v) + 1 + length r))"
  using sbat_loop_fields [OF assms(1-3), of entries pre n "r @ e # post" r] r
    skip_to_stop [of r "\<lambda>c. c = 0 \<or> c = 0x0A" e "length pre + n + length p + 1 + length (decimal v) + 1"
      "pre @ replicate n 0x0A @ p @ 0 # decimal v @ [0]" post]
  by (simp add: plain_def add_ac Let_def)

lemma sbat_loop_end: "sbat_loop entries (pre @ replicate n 0x0A @ 0 # post) (length pre) = Some (False, pre @ replicate n 0x0A @ 0 # post)"
proof (cases n)
  case 0
  then show ?thesis by (subst sbat_loop.simps) simp
next
  case (Suc m)
  have "skip_to (\<lambda>c. c \<noteq> 0x0A) (pre @ replicate n 0x0A @ 0 # post) (length pre) = Some (length pre + n)"
    using skip_to_stop [of "replicate n 0x0A" "\<lambda>c. c \<noteq> 0x0A" 0 "length pre" pre post] by simp
  then show ?thesis using Suc by (subst sbat_loop.simps) (simp add: nth_append)
qed

lemma sbat_loop_lines:
  "\<forall>l \<in> set ls. line_ok l \<Longrightarrow>
   \<exists>mem. sbat_loop entries (pre @ replicate n 0x0A @ concat (map line_text ls) @ 0 # post) (length pre) =
     Some (\<exists>l \<in> set ls. revoked_line entries l, mem)"
proof (induction ls arbitrary: pre n)
  case Nil
  then show ?case using sbat_loop_end [of entries pre n post] by simp
next
  case (Cons l ls)
  obtain p v r where l: "l = (p, v, r)" by (cases l)
  let ?pre = "pre @ replicate n 0x0A @ p @ 0 # decimal v @ 0 # r"
  have ok: "\<forall>c \<in> set p. \<not> stop_char c" "v < 2 ^ 31" "\<forall>c \<in> set r. plain c"
    using Cons.prems l by (auto simp: line_ok_def)
  obtain mem where "sbat_loop entries (?pre @ replicate 1 0x0A @ concat (map line_text ls) @ 0 # post) (length ?pre) =
      Some (\<exists>l \<in> set ls. revoked_line entries l, mem)"
    using Cons.IH [of ?pre 1] Cons.prems by auto
  then show ?case
    using sbat_loop_line [OF ok(1,2) stop_char_simps(1) ok(3) plain_simps(2), of entries pre n "concat (map line_text ls) @ 0 # post"] l
    by (cases "revoked_line entries l") (auto simp: line_text_def [of "(p, v, r)"] Let_def add_ac)
qed


text \<open>
  C32. The loop of \<^verbatim>\<open>IsRevokedBySbat\<close>. On a section of lines with three fields or more, followed by a zero, it never leaves
  the image, whatever surrounds the section, and it answers that the boot loader is revoked exactly if some line has a version other
  than 0 below the minimum version of an entry of the list for its product.
\<close>

theorem sbat_loop_correct:
  assumes "\<forall>l \<in> set ls. line_ok l"
  shows "map_option fst (sbat_loop entries (pre @ concat (map line_text ls) @ 0 # post) (length pre)) =
    Some (\<exists>(p, v, r) \<in> set ls. 0 < v \<and> (\<exists>en \<in> set entries. product en = p \<and> v < unat (version en)))"
proof -
  obtain mem where "sbat_loop entries (pre @ concat (map line_text ls) @ 0 # post) (length pre) = Some (\<exists>l \<in> set ls. revoked_line entries l, mem)"
    using sbat_loop_lines [OF assms, of entries pre 0 post] by auto
  then show ?thesis
    by (simp add: revoked_line_def)
qed

theorem sbat_loop_correct_witness:
  "map_option fst (sbat_loop [\<lparr>product = [0x73], version = 4\<rparr>]
     ([0x4D] @ concat (map line_text [([0x67], 7, []), ([0x73], 3, [0x41])]) @ 0 # [0x01]) 1) = Some True"
  using sbat_loop_correct [of "[([0x67], 7, []), ([0x73], 3, [0x41])]" "[\<lparr>product = [0x73], version = 4\<rparr>]" "[0x4D]" "[0x01]"]
  by (simp add: line_ok_def plain_def stop_char_def)

text \<open>
  A line with only two fields: the loop replaces the character after the version by a zero and goes on behind it to the
  next end of a line. So the line after it is never looked at; and if such a line is the last of the section and ends with
  the image, the loop reads behind the end of the image.
\<close>

theorem sbat_loop_two_fields:
  assumes p: "\<forall>c \<in> set p. \<not> stop_char c" and v: "v < 2 ^ 31" and l: "line_ok l" and "\<not> revoked_line entries (p, v, [])"
  shows "map_option fst (sbat_loop entries (pre @ p @ 0x2C # decimal v @ 0x0A # line_text l @ 0 # post) (length pre)) = Some False \<and>
    sbat_loop entries (pre @ p @ 0x2C # decimal v @ [0]) (length pre) = None"
proof
  obtain p2 v2 r2 where l2: "l = (p2, v2, r2)" by (cases l)
  let ?r = "p2 @ 0x2C # decimal v2 @ 0x2C # r2"
  let ?pre = "pre @ p @ 0 # decimal v @ 0 # ?r"
  have r: "\<forall>c \<in> set ?r. plain c"
    using l l2 decimal_digits [of v2] is_digit_not by (auto simp: line_ok_def plain_def stop_char_def)
  have end': "sbat_loop entries (?pre @ replicate 1 0x0A @ 0 # post) (length ?pre) = Some (False, ?pre @ replicate 1 0x0A @ 0 # post)"
    by (rule sbat_loop_end)
  have "revoked_line entries (p, v, ?r) = revoked_line entries (p, v, [])"
    by (simp add: revoked_line_def)
  then show "map_option fst (sbat_loop entries (pre @ p @ 0x2C # decimal v @ 0x0A # line_text l @ 0 # post) (length pre)) = Some False"
    using sbat_loop_line [OF p v stop_char_simps(3) r plain_simps(2), of entries pre 0 "0 # post"] end' assms(4) l2
    by (simp add: line_text_def Let_def add_ac)
next
  let ?mem = "pre @ p @ 0x2C # decimal v @ [0]"
  show "sbat_loop entries ?mem (length pre) = None"
    using sbat_loop_fields [OF p v stop_char_simps(2), of entries pre 0 "[]" "[]"]
    by (simp add: Let_def skip_to_def)
qed

theorem sbat_loop_two_fields_witness:
  "map_option fst (sbat_loop [\<lparr>product = [0x73], version = 4\<rparr>] ([0x4D] @ [0x67] @ 0x2C # decimal 3 @ 0x0A # line_text ([0x73], 1, []) @ 0 # [])
     1) = Some False"
  using sbat_loop_two_fields [of "[0x67]" 3 "([0x73], 1, [])" "[\<lparr>product = [0x73], version = 4\<rparr>]" "[0x4D]" "[]"]
  by (simp add: line_ok_def revoked_line_def stop_char_def)

end
