(* ===== verification/Revocation.thy ===== *)
theory Revocation
  imports Pe_Resources Sbat
begin

text \<open>
  The revocation tests of \<^verbatim>\<open>src/common/hash.c\<close>: \<^verbatim>\<open>IsRevokedBySbat\<close>, \<^verbatim>\<open>IsRevokedBySvn\<close>, \<^verbatim>\<open>IsRevokedByCert\<close>, \<^verbatim>\<open>IsSignedBySecureBootAuthority\<close> and
  \<^verbatim>\<open>IsBootloaderRevoked\<close>. The outer \<open>None\<close> is a read behind the end of the image, or a stack without room. The lists of
  revoked hashes and certificates are data of the program and arguments here; their lengths are multiples of the length of a hash.
\<close>

section \<open>The code\<close>

text \<open>The global variables: the lists of hashes and certificates and the expert mode.\<close>

record revocation_env =
  pe256dbx :: bytes
  pe256ssp :: bytes
  pe256ssp_size :: u32
  certdbx :: bytes
  expert_mode :: bool

text \<open>A list that is used when no other could be downloaded.\<close>

definition db_sbat_level_txt :: bytes where
  "db_sbat_level_txt =
     map of_char ''sbat,1,2024010900'' @ [0x0A] @ map of_char ''shim,4'' @ [0x0A] @ map of_char ''grub,3'' @ [0x0A] @
     map of_char ''grub.debian,4'' @ [0x0A] @ map of_char ''BOOTMGRSECURITYVERSIONNUMBER,0x30000''"

text \<open>The loop that compares a hash of \<open>n\<close> bytes with those of a list.\<close>

definition in_hash_list :: "nat \<Rightarrow> bytes \<Rightarrow> bytes \<Rightarrow> bool" where
  "in_hash_list n db hash \<longleftrightarrow> list_ex (\<lambda>i. slice (n * i) n db = hash) [0..<length db div n]"

definition IsRevokedBySbat :: "sbat_entry list option \<Rightarrow> bytes \<Rightarrow> nat \<Rightarrow> (bool \<times> bytes) option" where
  "IsRevokedBySbat sbat_entries mem len =
     (case sbat_entries of None \<Rightarrow> Some (False, mem)
      | Some entries \<Rightarrow> do {
          sbat \<leftarrow> GetPeSection mem [0x2E, 0x73, 0x62, 0x61, 0x74];
          case sbat of None \<Rightarrow> Some (False, mem)
          | Some (off, sbat_len) \<Rightarrow> if len \<le> off then Some (False, mem) else sbat_loop entries mem off })"

definition is_upper :: "byte \<Rightarrow> bool" where
  "is_upper c \<longleftrightarrow> 0x41 \<le> c \<and> c \<le> 0x5A"

text \<open>The loop of \<^verbatim>\<open>IsRevokedBySvn\<close>.\<close>

fun svn_loop :: "nat \<Rightarrow> bytes \<Rightarrow> sbat_entry list \<Rightarrow> resource_state \<Rightarrow> bool option" where
  "svn_loop depth mem [] st = Some False"
| "svn_loop depth mem (e # es) st =
     (if \<not> list_all is_upper (product e) then svn_loop depth mem es st
      else do {
        e_lfanew \<leftarrow> get32 mem 0x3C;
        (va, sz) \<leftarrow> data_directory mem (unat e_lfanew) 2;
        root \<leftarrow> RvaToPhysical mem va;
        (rsrc_rva, st) \<leftarrow> FindResourceRva depth mem (map ucast (product e)) root st;
        if rsrc_rva \<noteq> 0 \<and> rsrc_len st = 4 then do {
          svn_ver \<leftarrow> RvaToPhysical mem rsrc_rva;
          case svn_ver of None \<Rightarrow> svn_loop depth mem es st
          | Some p \<Rightarrow> do {
              v \<leftarrow> get32 mem p;
              if v < version e then Some True else svn_loop depth mem es st } }
        else svn_loop depth mem es st })"

definition IsRevokedBySvn :: "nat \<Rightarrow> sbat_entry list option \<Rightarrow> bytes \<Rightarrow> resource_state \<Rightarrow> bool option" where
  "IsRevokedBySvn depth sbat_entries mem st =
     (case sbat_entries of None \<Rightarrow> Some False | Some entries \<Rightarrow> svn_loop depth mem entries st)"

text \<open>
  \<^verbatim>\<open>GetIssuerCertificateInfo\<close>, as far as it is not calls of the Windows API: those are the argument \<open>issuer\<close>, whose result
  is the number returned and, if they got so far, the thumbprint. \<open>info\<close> is the thumbprint in \<^verbatim>\<open>info\<close> before the call.
\<close>

definition GetIssuerCertificateInfo :: "(bytes \<Rightarrow> nat \<Rightarrow> int \<times> bytes option) \<Rightarrow> bytes \<Rightarrow> nat option \<Rightarrow> bytes \<Rightarrow> (int \<times> bytes) option" where
  "GetIssuerCertificateInfo issuer mem cert info =
     (case cert of None \<Rightarrow> Some (0, info)
      | Some off \<Rightarrow> do {
          dwLength \<leftarrow> get32 mem off;
          if dwLength = 0 then Some (0, info)
          else case issuer mem off of (r, thumbprint) \<Rightarrow> Some (r, case thumbprint of None \<Rightarrow> info | Some t \<Rightarrow> t) })"

definition IsRevokedByCert :: "revocation_env \<Rightarrow> bytes \<Rightarrow> bool" where
  "IsRevokedByCert env thumbprint \<longleftrightarrow> expert_mode env \<and> in_hash_list SHA1_HASHSIZE (certdbx env) thumbprint"

definition IsSignedBySecureBootAuthority ::
    "(bytes \<Rightarrow> nat \<Rightarrow> int \<times> bytes option) \<Rightarrow> bytes \<Rightarrow> bytes \<Rightarrow> bytes \<Rightarrow> nat \<Rightarrow> bool option" where
  "IsSignedBySecureBootAuthority issuer info certauth mem len =
     (if len < 0x100 then Some False
      else do {
        cert \<leftarrow> GetPeSignatureData mem;
        (r, info) \<leftarrow> GetIssuerCertificateInfo issuer mem cert info;
        Some (r = 2 \<and> in_hash_list SHA1_HASHSIZE certauth info) })"

text \<open>
  \<^verbatim>\<open>IsBootloaderRevoked\<close> on a buffer other than \<^verbatim>\<open>NULL\<close>: the result, the list of minimum versions and the image, in which the
  test by SBAT has written zeros.
\<close>

definition IsBootloaderRevoked ::
    "((pe_section \<Rightarrow> pe_section \<Rightarrow> int) \<Rightarrow> pe_section list \<Rightarrow> pe_section list) \<Rightarrow> (bytes \<Rightarrow> nat \<Rightarrow> int \<times> bytes option) \<Rightarrow> nat \<Rightarrow>
     revocation_env \<Rightarrow> bytes \<Rightarrow> resource_state \<Rightarrow> sbat_entry list option \<Rightarrow> bytes \<Rightarrow> nat \<Rightarrow> (int \<times> sbat_entry list option \<times> bytes) option" where
  "IsBootloaderRevoked qsort issuer depth env info st sbat_entries mem len =
     (let entries = (case sbat_entries of None \<Rightarrow> GetSbatEntries db_sbat_level_txt | Some es \<Rightarrow> Some es)
      in if len < 0x100 then Some (- 2, entries, mem)
         else do {
           e_magic \<leftarrow> get16 mem 0;
           if e_magic \<noteq> 0x5A4D then Some (- 2, entries, mem)
           else do {
             e_lfanew \<leftarrow> get32 mem 0x3C;
             sig \<leftarrow> get32 mem (unat e_lfanew);
             if sig \<noteq> 0x4550 then Some (- 2, entries, mem)
             else do {
               cert \<leftarrow> GetPeSignatureData mem;
               (r, info) \<leftarrow> GetIssuerCertificateInfo issuer mem cert info;
               case PE256Buffer qsort mem len of
                 HashOverread \<Rightarrow> None
               | HashFalse \<Rightarrow> Some (- 1, entries, mem)
               | HashTrue hash \<Rightarrow>
                   if in_hash_list SHA256_HASHSIZE (pe256dbx env) hash then Some (1, entries, mem)
                   else if in_hash_list SHA256_HASHSIZE (take (unat (pe256ssp_size env * of_nat SHA256_HASHSIZE)) (pe256ssp env)) hash
                   then Some (2, entries, mem)
                   else do {
                     (sbat, mem) \<leftarrow> IsRevokedBySbat entries mem len;
                     if sbat then Some (3, entries, mem)
                     else do {
                       svn \<leftarrow> IsRevokedBySvn depth entries mem st;
                       Some (if svn then 4 else if IsRevokedByCert env info then 5 else 0, entries, mem) } } } } })"

section \<open>The embedded list\<close>

definition embedded_entries :: "sbat_entry list" where
  "embedded_entries =
     [\<lparr>product = map of_char ''sbat'', version = 1\<rparr>, \<lparr>product = map of_char ''shim'', version = 4\<rparr>,
      \<lparr>product = map of_char ''grub'', version = 3\<rparr>, \<lparr>product = map of_char ''grub.debian'', version = 4\<rparr>,
      \<lparr>product = map of_char ''BOOTMGRSECURITYVERSIONNUMBER'', version = 0x30000\<rparr>]"

lemma embedded_list: "GetSbatEntries db_sbat_level_txt = Some embedded_entries"
  by (simp add: embedded_entries_def GetSbatEntries_def db_sbat_level_txt_def sbat_level_loop.simps sbat_level_entry_def Let_def field_end_def strtoul_def
      scan_number_def number_text_def has_digit_def skip_space_def digit_value_def of_char_def)

section \<open>Revocation by SBAT\<close>

lemma pe_headersD:
  assumes "pe_headers mem = Some (Some nt)"
  shows "get16 mem 0 = Some 0x5A4D \<and> (\<exists>w. get32 mem 0x3C = Some w \<and> unat w = nt) \<and> get32 mem nt = Some 0x4550"
  using assms by (auto simp: pe_headers_def bind_eq_Some_conv split: if_splits)

lemma GetPeSignatureData_readable: "GetPeSignatureData mem = Some (Some off) \<Longrightarrow> \<exists>n. get32 mem off = Some n"
  by (auto simp: GetPeSignatureData_def bind_eq_Some_conv split: option.splits if_splits)

lemma issuer_total:
  assumes "GetPeSignatureData mem = Some cert"
  shows "\<exists>r t. GetIssuerCertificateInfo issuer mem cert info = Some (r, t)"
  using assms GetPeSignatureData_readable [of mem]
  by (cases cert) (force simp: GetIssuerCertificateInfo_def split: prod.split)+

lemma IsRevokedBySbat_lines:
  assumes "pe_sections mem = Some ss" "List.find (\<lambda>s. Name s = section_name dot_sbat) ss = Some s"
    and at: "drop (unat (PointerToRawData s)) mem = concat (map line_text ls) @ 0 # post" and "\<forall>l \<in> set ls. line_ok l"
  shows "\<exists>m. IsRevokedBySbat (Some entries) mem (length mem) = Some (\<exists>l \<in> set ls. revoked_line entries l, m)"
proof -
  let ?off = "unat (PointerToRawData s)"
  have lt: "?off < length mem"
  proof (rule ccontr)
    assume "\<not> ?off < length mem"
    then have "drop ?off mem = []" by simp
    then show False using at by simp
  qed
  have eq: "take ?off mem @ replicate 0 0x0A @ concat (map line_text ls) @ 0 # post = mem" and len: "length (take ?off mem) = ?off"
    using lt by (simp_all add: at [symmetric])
  obtain m where "sbat_loop entries mem ?off = Some (\<exists>l \<in> set ls. revoked_line entries l, m)"
    using sbat_loop_lines [OF assms(4), of entries "take ?off mem" 0 post] unfolding eq len by blast
  moreover have "GetPeSection mem dot_sbat = Some (Some (?off, SizeOfRawData (hd ss)))"
    using GetPeSection_sections [OF assms(1)] assms(2) by simp
  ultimately show ?thesis using lt by (simp add: IsRevokedBySbat_def dot_sbat_def)
qed

text \<open>
  C7. The way from an image to the answer, when no list of minimum versions could be downloaded. The image has 1 KiB to 64 MiB, the parser finds the regions to hash, they lie
  inside the image, and the \<^verbatim>\<open>.sbat\<close> section consists of lines with three fields or more (a line of two fields can hide the next one, see \<open>sbat_loop_two_fields\<close>). It is
  answered to be revoked if one of the lines is for shim before 4, grub before 3 or Debian's grub before 4, the version being positive (a version of 0 is skipped by the code): with 1 if the SHA-256 digest of the regions is in the list of the program, else with 2 if it is in the list of Microsoft,
  else with 3.
\<close>

theorem IsBootloaderRevoked_sbat:
  assumes "pe_sections mem = Some ss" "List.find (\<lambda>s. Name s = section_name dot_sbat) ss = Some s"
    and "drop (unat (PointerToRawData s)) mem = concat (map line_text ls) @ 0 # post" and "\<forall>l \<in> set ls. line_ok l"
    and "GetPeSignatureData mem = Some cert"
    and pe: "efi_image_parse qsort mem (length mem) = Some (Some regs)" "1024 \<le> length mem" "length mem \<le> 64 * 1048576"
      "\<forall>r \<in> set (used_regions regs). region_end r \<le> length mem"
    and h: "h = fips_sha256 (region_bytes mem (used_regions regs))"
    and l: "(p, v, r) \<in> set ls" "0 < v"
      "p = map of_char ''shim'' \<and> v < 4 \<or> p = map of_char ''grub'' \<and> v < 3 \<or> p = map of_char ''grub.debian'' \<and> v < 4"
  shows "map_option fst (IsBootloaderRevoked qsort issuer depth env info st None mem (length mem)) =
    Some (if in_hash_list SHA256_HASHSIZE (pe256dbx env) h then 1
      else if in_hash_list SHA256_HASHSIZE (take (unat (pe256ssp_size env * of_nat SHA256_HASHSIZE)) (pe256ssp env)) h then 2 else 3)"
proof -
  have "revoked_line embedded_entries (p, v, r)"
    using l(2,3) by (auto simp: embedded_entries_def revoked_line_def of_char_def)
  with l(1) have any: "(\<exists>l \<in> set ls. revoked_line embedded_entries l) = True" by blast
  obtain m where sbat: "IsRevokedBySbat (Some embedded_entries) mem (length mem) = Some (True, m)"
    using IsRevokedBySbat_lines [OF assms(1-4), of embedded_entries] unfolding any by blast
  obtain nt where nt: "pe_headers mem = Some (Some nt)"
    using pe_sectionsE [OF assms(1)] by blast
  obtain w where w: "get16 mem 0 = Some 0x5A4D" "get32 mem 0x3C = Some w" "get32 mem (unat w) = Some 0x4550"
    using pe_headersD [OF nt] by blast
  obtain a t where "GetIssuerCertificateInfo issuer mem cert info = Some (a, t)"
    using issuer_total [OF assms(5)] by blast
  moreover have "PE256Buffer qsort mem (length mem) = HashTrue h"
    using PE256Buffer_regions [OF pe] h by simp
  moreover have "\<not> length mem < 0x100" using pe(2) by simp
  ultimately show ?thesis
    using w assms(5) sbat by (simp add: IsBootloaderRevoked_def embedded_list Let_def)
qed

definition sample_revoked :: bytes where
  "sample_revoked = memcpy_to 512 [0x73, 0x68, 0x69, 0x6D, 0x2C, 0x33, 0x2C, 0x31, 0x0A] sample_pe_image"

text \<open>What the samples are evaluated with: the parts of the headers, read byte by byte.\<close>

lemmas sample_reads = get_nth mem_read_8 memcpy_to_nth length_sample_pe_image pe_headers_def section_table_def pe_is_32_def section_at_def
  data_directory_def sample_pe_image_def sample_pe_def

lemma line_text_sample: "concat (map line_text [(map of_char ''shim'', 3, [0x31])]) = [0x73, 0x68, 0x69, 0x6D, 0x2C, 0x33, 0x2C, 0x31, 0x0A]"
  by code_simp

lemma length_sample_revoked: "length sample_revoked = 1024"
  by (simp add: sample_revoked_def length_sample_pe_image)

lemma sample_revoked_sections: "pe_sections sample_revoked = Some [sample_section]"
  by (simp add: pe_sections_def sample_reads length_sample_revoked sample_revoked_def sample_section_def section_name_sbat
      del: mem_read_Some)

lemma sample_revoked_unsigned: "GetPeSignatureData sample_revoked = Some None"
  by (simp add: GetPeSignatureData_def sample_reads length_sample_revoked sample_revoked_def)

lemma sample_revoked_text: "drop 512 sample_revoked = concat (map line_text [(map of_char ''shim'', 3, [0x31])]) @ 0 # replicate 502 0"
proof -
  have "drop 521 sample_pe_image = replicate 503 0" "replicate 503 0 = (0 :: byte) # replicate 502 0"
    using replicate_Suc [of 502 "0 :: byte"] by (simp_all add: sample_pe_image_def sample_pe_def)
  then show ?thesis by (simp only: line_text_sample) (simp add: sample_revoked_def memcpy_to_def length_sample_pe_image)
qed

abbreviation "sample_regions \<equiv> \<lparr>rgs_max = 5, rgs_num = 4,
     rgs_reg = [region_of 0 152, region_of 156 232, region_of 240 512, region_of 512 1024, region_of 0 0]\<rparr>"

lemma sample_revoked_regions: "efi_image_parse (\<lambda>_ x. x) sample_revoked 1024 = Some (Some sample_regions)"
  by code_simp

theorem IsBootloaderRevoked_sbat_witness:
  "map_option fst (IsBootloaderRevoked (\<lambda>_ x. x) (\<lambda>_ _. (0, None)) 10
     \<lparr>pe256dbx = [], pe256ssp = [], pe256ssp_size = 0, certdbx = [], expert_mode = False\<rparr> [] \<lparr>FoundResourceRva = False, rsrc_len = 0\<rparr> None
     sample_revoked (length sample_revoked)) = Some 3"
proof -
  let ?p = "map of_char ''shim'' :: bytes"
  have "List.find (\<lambda>s. Name s = section_name dot_sbat) [sample_section] = Some sample_section" "unat (PointerToRawData sample_section) = 512"
    by (simp_all add: sample_section_def)
  moreover have "\<forall>l \<in> set [(?p, 3, [0x31])]. line_ok l"
    by (simp add: line_ok_def plain_def stop_char_def of_char_def)
  moreover have "efi_image_parse (\<lambda>_ x. x) sample_revoked (length sample_revoked) = Some (Some sample_regions)"
    "1024 \<le> length sample_revoked" "length sample_revoked \<le> 64 * 1048576"
    using sample_revoked_regions length_sample_revoked by simp_all
  moreover have "\<forall>r \<in> set (used_regions sample_regions). region_end r \<le> length sample_revoked"
    by (simp add: used_regions_def region_end_def region_of_def length_sample_revoked)
  ultimately show ?thesis
    using IsBootloaderRevoked_sbat [OF sample_revoked_sections _ _ _ sample_revoked_unsigned, of sample_section "[(?p, 3, [0x31])]" "replicate 502 0"
        "\<lambda>_ x. x" sample_regions _ ?p 3 "[0x31]" "\<lambda>_ _. (0, None)" 10
        "\<lparr>pe256dbx = [], pe256ssp = [], pe256ssp_size = 0, certdbx = [], expert_mode = False\<rparr>" "[]" "\<lparr>FoundResourceRva = False, rsrc_len = 0\<rparr>", OF _ _ _ _ _ _ _ refl]
      sample_revoked_text
    by (simp add: in_hash_list_def)
qed

text \<open>
  The offset of the PE header is not compared with the length of the buffer: an image that starts with the DOS signature and whose header
  offset points behind its end makes \<^verbatim>\<open>IsBootloaderRevoked\<close> read there.
\<close>

theorem IsBootloaderRevoked_overread:
  assumes "0x100 \<le> length mem" "get16 mem 0 = Some 0x5A4D" "get32 mem 0x3C = Some w" "length mem < unat w + 4"
  shows "IsBootloaderRevoked qsort issuer depth env info st entries mem (length mem) = None"
proof -
  have "get32 mem (unat w) = None" using assms(4) by (simp add: get32_def)
  then show ?thesis using assms(1-3) by (simp add: IsBootloaderRevoked_def Let_def)
qed

theorem IsBootloaderRevoked_overread_witness:
  "IsBootloaderRevoked (\<lambda>_ x. x) (\<lambda>_ _. (0, None)) 10
     \<lparr>pe256dbx = [], pe256ssp = [], pe256ssp_size = 0, certdbx = [], expert_mode = False\<rparr> [] \<lparr>FoundResourceRva = False, rsrc_len = 0\<rparr> None
     (sample_pe_image[0x3D := 4]) 1024 = None"
proof -
  have "get16 (sample_pe_image[0x3D := 4]) 0 = Some 0x5A4D" "get32 (sample_pe_image[0x3D := 4]) 0x3C = Some 0x440"
    by (simp_all add: sample_reads)
  then show ?thesis using IsBootloaderRevoked_overread [of "sample_pe_image[0x3D := 4]" "0x440"] by (simp add: sample_pe_image_def)
qed

section \<open>Revocation by SVN\<close>

text \<open>The version number that an image with the resources \<open>r\<close> has under the name \<open>name\<close>.\<close>

definition svn_version :: "bytes \<Rightarrow> resource \<Rightarrow> bytes \<Rightarrow> u32 option" where
  "svn_version mem r name = do {
     (rva, len) \<leftarrow> look (map ucast name) r;
     if len \<noteq> 4 then None else do { p \<leftarrow> RvaToPhysical mem rva; q \<leftarrow> p; get32 mem q } }"

text \<open>The number under the name \<open>name\<close>, if the image maps its address into the file, is within the file.\<close>

definition svn_readable :: "bytes \<Rightarrow> resource \<Rightarrow> bytes \<Rightarrow> bool" where
  "svn_readable mem r name \<longleftrightarrow> (case look (map ucast name) r of None \<Rightarrow> True
     | Some (rva, len) \<Rightarrow> len = 4 \<longrightarrow> (case RvaToPhysical mem rva of Some (Some q) \<Rightarrow> q + 4 \<le> length mem | _ \<Rightarrow> True))"

lemma RvaToPhysical_total: "pe_sections mem = Some ss \<Longrightarrow> \<exists>p. RvaToPhysical mem rva = Some p"
  by (elim pe_sectionsE) (simp add: RvaToPhysical_def find_rva_sections)

lemma svn_loop_entries:
  assumes img: "pe_sections mem = Some ss" "pe_headers mem = Some (Some nt)" "data_directory mem nt 2 = Some (va, sz)"
      "RvaToPhysical mem va = Some (Some root)" and tree: "resource_ok r" "stored_dir mem root root r" "height r \<le> depth"
    and "\<forall>e \<in> set entries. list_all is_upper (product e) \<longrightarrow> svn_readable mem r (product e)"
  shows "svn_loop depth mem entries st =
    Some (\<exists>e \<in> set entries. list_all is_upper (product e) \<and> (\<exists>v. svn_version mem r (product e) = Some v \<and> v < version e))"
  using assms(8)
proof (induction entries arbitrary: st)
  case (Cons e es)
  show ?case
  proof (cases "list_all is_upper (product e)")
    case True
    let ?name = "map ucast (product e) :: u16 list"
    obtain w where w: "get32 mem 0x3C = Some w" "unat w = nt" using pe_headersD [OF img(2)] by blast
    have find: "FindResourceRva depth mem ?name (Some root) st = Some (search_result (st\<lparr>FoundResourceRva := False\<rparr>) (look ?name r))"
      using find_resource_look [OF tree, of st ?name] by (simp add: FindResourceRva_def)
    note IH = Cons.IH [of "snd (search_result (st\<lparr>FoundResourceRva := False\<rparr>) (look ?name r))"]
    show ?thesis
    proof (cases "look ?name r")
      case None
      then show ?thesis
        using True Cons w img find by (simp add: search_result_def svn_version_def)
    next
      case (Some x)
      obtain rva len where x: "x = (rva, len)" by (cases x)
      have rva: "rva \<noteq> 0" using look_ok(1) [OF tree(1) Some] x by simp
      obtain p where p: "RvaToPhysical mem rva = Some p" using RvaToPhysical_total [OF img(1)] by blast
      show ?thesis
      proof (cases "len = 4 \<and> p \<noteq> None")
        case False
        then show ?thesis
          using True Cons w img find Some x rva p by (auto simp: search_result_def svn_version_def)
      next
        case read: True
        then obtain q where q: "p = Some q" by auto
        obtain v where v: "get32 mem q = Some v"
          using Cons.prems True Some x read p q by (auto simp: svn_readable_def get32_def)
        then show ?thesis
          using True Cons w img find Some x rva p q read by (auto simp: search_result_def svn_version_def)
      qed
    qed
  qed (use Cons in simp)
qed simp

text \<open>
  C33. \<^verbatim>\<open>IsRevokedBySvn\<close> on an image with a complete section table and a tree of resources, whose directories are not empty and which fits the stack: the answer is yes exactly
  if for some entry of the list with only upper case letters, the search of \<^verbatim>\<open>FindResourceRva\<close> reaches a resource with the name of the entry, this has four bytes, and they hold a
  number below the minimum version. The search is the one of the code (\<^const>\<open>look\<close>): names are compared as the code compares them, by their length and the first half of their
  bytes only (\<^const>\<open>same_name\<close>, and \<open>resource_name_half\<close> for two names that it confuses), the first resource of such a name decides, and named entries with other names are not
  searched.
\<close>

theorem IsRevokedBySvn_correct:
  assumes "pe_sections mem = Some ss" "pe_headers mem = Some (Some nt)" "data_directory mem nt 2 = Some (va, sz)"
      "RvaToPhysical mem va = Some (Some root)" and "resource_ok r" "stored_dir mem root root r" "height r \<le> depth"
    and "\<forall>e \<in> set entries. list_all is_upper (product e) \<longrightarrow> svn_readable mem r (product e)"
  shows "IsRevokedBySvn depth (Some entries) mem st =
    Some (\<exists>e \<in> set entries. list_all is_upper (product e) \<and> (\<exists>v. svn_version mem r (product e) = Some v \<and> v < version e))"
  using svn_loop_entries [OF assms] by (simp add: IsRevokedBySvn_def)

definition sample_svn :: bytes where
  "sample_svn = memcpy_to 640 [2, 0, 0, 0] (memcpy_to 512 sample_resources (sample_pe_image[217 := 0x10]))"

lemma length_sample_svn: "length sample_svn = 1024"
  by (simp add: sample_svn_def sample_resources_def length_sample_pe_image)

lemmas sample_svn_reads = sample_reads length_sample_svn sample_svn_def sample_resources_def

lemma sample_svn_headers: "pe_headers sample_svn = Some (Some 64)"
  by (simp add: sample_svn_reads)

lemma sample_svn_sections: "pe_sections sample_svn = Some [sample_section]"
  by (simp add: pe_sections_def sample_svn_headers) (simp add: sample_svn_reads sample_section_def section_name_sbat del: mem_read_Some)

lemma sample_svn_directory: "data_directory sample_svn 64 2 = Some (0x1000, 0)"
  by (simp add: sample_svn_reads)

lemma sample_svn_rva: "RvaToPhysical sample_svn 0x1000 = Some (Some 512)" "RvaToPhysical sample_svn 0x1080 = Some (Some 640)"
  using sample_svn_sections
  by (elim pe_sectionsE; simp add: RvaToPhysical_def find_rva_sections sample_section_def)+

lemma sample_svn_number: "get32 sample_svn 640 = Some 2"
  by (simp add: sample_svn_reads)

lemma sample_svn_tree: "stored_dir sample_svn 512 512 sample_tree"
proof -
  let ?img = "sample_pe_image[217 := 0x10]" and ?n = "512 + length sample_resources"
  have len: "length ?img = 1024" "length sample_resources = 60" by (simp_all add: sample_pe_image_def sample_resources_def)
  then have eq: "sample_svn = take 512 ?img @ sample_resources @ (take (640 - ?n) (drop ?n ?img) @ [2, 0, 0, 0] @ drop 644 ?img)"
    by (simp add: sample_svn_def memcpy_to_def take_drop)
  have l: "length (take 512 ?img) = 512" using len by simp
  show ?thesis
    using stored_embed(2) [OF sample_resources_tree, of "take 512 ?img"] unfolding eq l add_0_right .
qed

theorem IsRevokedBySvn_correct_witness:
  "IsRevokedBySvn 5 (Some [\<lparr>product = [0x41], version = 3\<rparr>]) sample_svn \<lparr>FoundResourceRva = True, rsrc_len = 0\<rparr> = Some True"
proof -
  have look: "look [0x41] sample_tree = Some (0x1080, 4)" by (simp add: same_name_def)
  have "svn_readable sample_svn sample_tree [0x41]" "svn_version sample_svn sample_tree [0x41] = Some 2"
    using look sample_svn_rva(2) sample_svn_number by (simp_all add: length_sample_svn svn_readable_def svn_version_def)
  then show ?thesis
    using IsRevokedBySvn_correct [OF sample_svn_sections sample_svn_headers sample_svn_directory sample_svn_rva(1) _ sample_svn_tree, of 5 "[\<lparr>product = [0x41], version = 3\<rparr>]"]
    by (simp add: is_upper_def)
qed

end
