(* ===== verification/Asn1.thy ===== *)
theory Asn1
  imports C_Strings "HOL-Library.Monad_Syntax"
begin

text \<open>
  \<^verbatim>\<open>get_data_from_asn1\<close> of \<^verbatim>\<open>src/parser.c\<close>, which looks up data by an object identifier in an ASN.1 structure, and \<^verbatim>\<open>oid_from_str\<close>, which encodes the
  identifier. A buffer is a range of a memory, and a pointer into it an index of the memory; the outer \<open>None\<close> is a read behind the memory.
  \<^verbatim>\<open>unsigned long\<close> has 64 bits.
\<close>

section \<open>The code\<close>

subsection \<open>Search\<close>

text \<open>
  The length field at \<open>p\<close> of a buffer that ends at \<open>e\<close>: the length and the position of the contents, or the inner \<open>None\<close> for an error. In the
  comparison with the rest of the buffer, \<^verbatim>\<open>buf_len - pos\<close> wraps around if the position is behind the end; the difference is then greater than any length.
\<close>

definition asn1_length :: "bytes \<Rightarrow> bool \<Rightarrow> byte \<Rightarrow> nat \<Rightarrow> nat \<Rightarrow> (nat \<times> nat) option option" where
  "asn1_length mem is_universal_tag tag e p =
     (if is_universal_tag \<and> tag = 0x05 then Some (Some (0, p + 1))
      else if length mem \<le> p then None
      else
        let b = mem ! p; len_len = (if b AND 0x80 \<noteq> 0 then unat (b AND 0x7F) else 0)
        in if len_len > 2 then Some None
           else do {
             bs \<leftarrow> mem_read mem (p + 1) len_len;
             let len = (if b AND 0x80 \<noteq> 0 then foldl (\<lambda>l x. l * 256 + unat x) 0 bs else unat b);
             let q = p + 1 + len_len;
             Some (if q \<le> e \<and> len > e - q then None else Some (len, q)) })"

lemma asn1_length_gt: "asn1_length mem u tag e (Suc p) = Some (Some (len, q)) \<Longrightarrow> p < q"
  by (auto simp: asn1_length_def Let_def bind_eq_Some_conv split: if_splits)

text \<open>The loop, at \<open>p\<close> of a buffer that ends at \<open>e\<close>: the result, \<^verbatim>\<open>*data\<close> with \<^verbatim>\<open>*data_len\<close>, and \<^verbatim>\<open>*matched\<close>.\<close>

function asn1_scan :: "bytes \<Rightarrow> bytes \<Rightarrow> byte \<Rightarrow> nat \<Rightarrow> nat \<Rightarrow> bool \<Rightarrow> (bool \<times> (nat \<times> nat) option \<times> bool) option" where
  "asn1_scan mem oid asn1_type e p matched =
     (if e \<le> p then Some (True, None, matched)
      else if length mem \<le> p then None
      else
        let b = mem ! p; is_sequence = (b AND 0x20 \<noteq> 0); is_universal_tag = (b AND 0xC0 = 0); tag = b AND 0x1F
        in if tag = 0x1F then Some (False, None, matched)
           else case asn1_length mem is_universal_tag tag e (p + 1) of
             None \<Rightarrow> None
           | Some None \<Rightarrow> Some (False, None, matched)
           | Some (Some (len, q)) \<Rightarrow>
               if len = 0 then asn1_scan mem oid asn1_type e q matched
               else if is_sequence then
                 (case asn1_scan mem oid asn1_type (q + len) q matched of
                    None \<Rightarrow> None
                  | Some (ok, data, m) \<Rightarrow>
                      if \<not> ok then Some (False, data, m)
                      else if data \<noteq> None then Some (True, data, m)
                      else asn1_scan mem oid asn1_type e (q + len) m)
               else if is_universal_tag \<and> \<not> matched \<and> tag = 0x06 \<and> len = length oid \<and> length mem < q + len then None
               else if is_universal_tag \<and> \<not> matched \<and> tag = 0x06 \<and> len = length oid \<and> slice q len mem = oid
               then asn1_scan mem oid asn1_type e (q + len) True
               else if is_universal_tag \<and> matched \<and> tag = asn1_type then Some (True, Some (q, len), matched)
               else asn1_scan mem oid asn1_type e (q + len) matched)"
  by pat_completeness auto
termination
  by (relation "measure (\<lambda>(mem, oid, asn1_type, e, p, matched). length mem - p)") (auto dest!: asn1_length_gt)

declare asn1_scan.simps [simp del]

subsection \<open>Object identifiers\<close>

text \<open>\<^verbatim>\<open>make_flagged_int\<close>: the bytes that it appends.\<close>

fun flagged_loop :: "nat list \<Rightarrow> bool \<Rightarrow> u64 \<Rightarrow> bytes" where
  "flagged_loop [] more value = [ucast value]"
| "flagged_loop (shift # shifts) more value =
     (if more \<or> push_bit shift 1 \<le> value
      then (0x80 OR ucast (drop_bit shift value)) # flagged_loop shifts True (value - push_bit shift (drop_bit shift value))
      else flagged_loop shifts more value)"

definition make_flagged_int :: "u64 \<Rightarrow> bytes" where
  "make_flagged_int value = flagged_loop [28, 21, 14, 7] False value"

text \<open>The bytes that arc number \<open>arcno\<close> adds.\<close>

definition oid_arc :: "nat \<Rightarrow> u64 \<Rightarrow> u64 \<Rightarrow> bytes" where
  "oid_arc arcno val1 val =
     (if arcno = 1 then []
      else if arcno = 2 \<and> val1 < 2 then [ucast (val1 * 40 + val)]
      else if arcno = 2 then make_flagged_int (val + 80)
      else make_flagged_int val)"

text \<open>The loop of \<^verbatim>\<open>oid_from_str\<close>: the bytes written, the number of arcs, and whether it ended with \<^verbatim>\<open>goto err\<close>.\<close>

lemma number_end_le: "length (number_end base s) \<le> length s"
proof -
  have "length (snd (number_text base s)) \<le> length s"
    using length_dropWhile_le [of _ s] by (auto simp: number_text_def skip_space_def Let_def intro: le_trans [OF diff_le_self])
  then show ?thesis
    using length_dropWhile_le [of "has_digit base" "snd (number_text base s)"] by (auto simp: number_end_def split: prod.splits)
qed

lemma number_end_less: "number_end base s \<noteq> [] \<Longrightarrow> length (number_end base s) - Suc 0 < length s"
  using number_end_le [of base s] length_greater_0_conv [of "number_end base s"] by (simp del: length_greater_0_conv)

function oid_loop :: "bytes \<Rightarrow> nat \<Rightarrow> u64 \<Rightarrow> bytes \<Rightarrow> bytes \<times> nat \<times> bool" where
  "oid_loop s arcno val1 oid =
     (let arcno = arcno + 1; val = strtoul 10 s; endp = number_end 10 s
      in if s = [] \<or> \<not> is_digit (hd s) \<or> \<not> (endp = [] \<or> hd endp = 0x2E) then (oid, arcno, True)
         else if arcno = 1 \<and> 2 < val then (oid, arcno, False)
         else if arcno = 2 \<and> val1 < 2 \<and> 39 < val then (oid, arcno, True)
         else
           let oid = oid @ oid_arc arcno val1 val; val1 = (if arcno = 1 then val else val1)
           in if endp \<noteq> [] then oid_loop (tl endp) arcno val1 oid else (oid, arcno, False))"
  by pat_completeness auto
termination
  by (relation "measure (\<lambda>(s, arcno, val1, oid). length s)") (auto intro: number_end_less)

declare oid_loop.simps [simp del]

definition oid_from_str :: "bytes \<Rightarrow> bytes option" where
  "oid_from_str oid_str =
     (if oid_str = [] then None
      else case oid_loop oid_str 0 0 [] of
        (oid, arcno, err) \<Rightarrow> if err \<or> arcno = 1 \<or> length oid < 2 \<or> length oid > 254 then None else Some oid)"

text \<open>
  \<^verbatim>\<open>get_data_from_asn1\<close> for the buffer of \<open>buf_len\<close> bytes at the start of the memory: the position and length of the data, or the inner \<open>None\<close>
  for \<^verbatim>\<open>NULL\<close>. An identifier that is \<^verbatim>\<open>NULL\<close> or empty is \<open>[]\<close>.
\<close>

definition get_data_from_asn1 :: "bytes \<Rightarrow> nat \<Rightarrow> bytes \<Rightarrow> byte \<Rightarrow> (nat \<times> nat) option option" where
  "get_data_from_asn1 mem buf_len oid_str asn1_type =
     (if 65536 \<le> buf_len then Some None
      else case (if oid_str = [] then Some [] else oid_from_str oid_str) of
        None \<Rightarrow> Some None
      | Some oid \<Rightarrow> map_option (\<lambda>(ok, data, m). data) (asn1_scan mem oid asn1_type buf_len 0 (oid_str = [])))"

section \<open>Structures\<close>

text \<open>An ASN.1 structure with the first byte of each element, its encoding, and the elements that the code can read.\<close>

datatype asn1 = Primitive byte bytes | Constructed byte "asn1 list"

definition enc_len :: "nat \<Rightarrow> bytes" where
  "enc_len n = (if n < 128 then [of_nat n] else if n < 256 then [0x81, of_nat n] else [0x82, of_nat (n div 256), of_nat (n mod 256)])"

fun encode :: "asn1 \<Rightarrow> bytes" where
  "encode (Primitive t c) = t # enc_len (length c) @ c"
| "encode (Constructed t xs) = t # enc_len (length (concat (map encode xs))) @ concat (map encode xs)"

definition null_tag :: "byte \<Rightarrow> bool" where
  "null_tag t \<longleftrightarrow> t AND 0xC0 = 0 \<and> t AND 0x1F = 5"

fun asn1_ok :: "asn1 \<Rightarrow> bool" where
  "asn1_ok (Primitive t c) \<longleftrightarrow> t AND 0x20 = 0 \<and> t AND 0x1F \<noteq> 0x1F \<and> (null_tag t \<longrightarrow> c = []) \<and> length c < 65536"
| "asn1_ok (Constructed t xs) \<longleftrightarrow> t AND 0x20 \<noteq> 0 \<and> t AND 0x1F \<noteq> 0x1F \<and> \<not> null_tag t \<and> length (concat (map encode xs)) < 65536 \<and> list_all asn1_ok xs"

text \<open>
  The search: the contents of the first universal element of the type that follows the identifier, in the order of the encoding, and whether the identifier
  was found.
\<close>

fun search :: "bytes \<Rightarrow> byte \<Rightarrow> bool \<Rightarrow> asn1 list \<Rightarrow> bytes option \<times> bool" where
  "search oid asn1_type m [] = (None, m)"
| "search oid asn1_type m (Primitive t c # xs) =
     (if t AND 0xC0 = 0 \<and> c \<noteq> [] \<and> \<not> m \<and> t AND 0x1F = 6 \<and> c = oid then search oid asn1_type True xs
      else if t AND 0xC0 = 0 \<and> c \<noteq> [] \<and> m \<and> t AND 0x1F = asn1_type then (Some c, m)
      else search oid asn1_type m xs)"
| "search oid asn1_type m (Constructed t ys # xs) =
     (case search oid asn1_type m ys of (Some c, m) \<Rightarrow> (Some c, m) | (None, m) \<Rightarrow> search oid asn1_type m xs)"

lemma byte_of_nat: "n < 256 \<Longrightarrow> unat (of_nat n :: byte) = n"
  by (simp add: unsigned_of_nat take_bit_nat_eq_self)

lemma low_byte: "n < 128 \<Longrightarrow> (of_nat n :: byte) AND 0x80 = 0"
proof -
  assume n: "n < 128"
  have "bit (unat (of_nat n :: byte)) 7 \<longleftrightarrow> bit (of_nat n :: byte) 7"
    by (simp add: bit_unsigned_iff)
  then have "\<not> bit (of_nat n :: byte) 7"
    using n byte_of_nat [of n] by (simp add: bit_iff_odd [of n])
  then show ?thesis
    using and_exp_eq_0_iff_not_bit [of "of_nat n :: byte" 7] by simp
qed

lemma length_enc_len: "n < 65536 \<Longrightarrow> enc_len n \<noteq> []"
  by (simp add: enc_len_def)

lemma drop_eq_append:
  assumes "drop p xs = ys @ zs" "p \<le> length xs"
  shows "slice p (length ys) xs = ys" "p + length ys \<le> length xs" "drop (p + length ys) xs = zs"
proof -
  show "slice p (length ys) xs = ys" using assms(1) by (simp add: slice_def)
  have "length (drop p xs) = length ys + length zs" using assms(1) by simp
  then show "p + length ys \<le> length xs" using assms(2) by simp
  show "drop (p + length ys) xs = zs" using assms(1) by (metis add.commute append_eq_conv_conj drop_drop)
qed

text \<open>The length field of an element.\<close>

lemma asn1_length_encoded:
  assumes at: "drop p mem = enc_len n @ rest" and n: "n < 65536" and e: "p + length (enc_len n) + n \<le> e" and "\<not> (u \<and> tag = 5) \<or> n = 0"
  shows "asn1_length mem u tag e p = Some (Some (n, p + length (enc_len n)))"
proof -
  have p: "p < length mem" using at n length_enc_len [of n] by (metis append_is_Nil_conv drop_eq_Nil linorder_not_less)
  note pieces = drop_eq_append [OF at less_imp_le [OF p]]
  have nth: "mem ! (p + i) = enc_len n ! i" if "i < length (enc_len n)" for i
    using that at p by (metis less_imp_le_nat nth_append nth_drop)
  consider "u \<and> tag = 5" "n = 0" | "\<not> (u \<and> tag = 5)" "n < 128" | "\<not> (u \<and> tag = 5)" "128 \<le> n" "n < 256" | "\<not> (u \<and> tag = 5)" "256 \<le> n"
    using assms(4) by linarith
  then show ?thesis
  proof cases
    case 1
    then show ?thesis by (simp add: asn1_length_def enc_len_def)
  next
    case 2
    then show ?thesis
      using p e nth [of 0] low_byte [of n] byte_of_nat [of n] by (auto simp: asn1_length_def enc_len_def slice_Zero)
  next
    case 3
    have "mem_read mem (p + 1) 1 = Some [of_nat n]"
      using pieces(2) 3 nth [of 1] by (simp add: enc_len_def slice_Cons slice_Zero)
    then show ?thesis
      using p e nth [of 0] byte_of_nat [of n] 3 by (simp add: asn1_length_def enc_len_def Let_def)
  next
    case 4
    have "mem_read mem (p + 1) 2 = Some [of_nat (n div 256), of_nat (n mod 256)]"
      using pieces(2) 4 nth [of 1] nth [of 2] by (simp add: enc_len_def numeral_2_eq_2 slice_Cons slice_Zero)
    then show ?thesis
      using p e nth [of 0] byte_of_nat [of "n div 256"] byte_of_nat [of "n mod 256"] n 4 by (simp add: asn1_length_def enc_len_def Let_def)
  qed
qed


lemma asn1_scan_end: "e \<le> p \<Longrightarrow> asn1_scan mem oid ty e p m = Some (True, None, m)"
  by (subst asn1_scan.simps) simp

text \<open>One element: its contents are at \<open>q\<close>.\<close>

lemma asn1_scan_element:
  assumes at: "drop p mem = t # enc_len (length c) @ c @ rest" and ok: "t AND 0x1F \<noteq> 0x1F" "length c < 65536" "null_tag t \<longrightarrow> c = []"
    and q: "q = p + 1 + length (enc_len (length c))" "q + length c \<le> e"
  shows "asn1_scan mem oid ty e p m =
    (if c = [] then asn1_scan mem oid ty e q m
     else if t AND 0x20 \<noteq> 0 then
       (case asn1_scan mem oid ty (q + length c) q m of
          None \<Rightarrow> None
        | Some (ok, data, m) \<Rightarrow> if \<not> ok then Some (False, data, m) else if data \<noteq> None then Some (True, data, m)
            else asn1_scan mem oid ty e (q + length c) m)
     else if t AND 0xC0 = 0 \<and> \<not> m \<and> t AND 0x1F = 6 \<and> c = oid then asn1_scan mem oid ty e (q + length c) True
     else if t AND 0xC0 = 0 \<and> m \<and> t AND 0x1F = ty then Some (True, Some (q, length c), m)
     else asn1_scan mem oid ty e (q + length c) m)"
    and "slice q (length c) mem = c" "drop q mem = c @ rest" "drop (q + length c) mem = rest"
proof -
  have p: "p < length mem" using at by (metis drop_eq_Nil linorder_not_less list.distinct(1))
  have t: "mem ! p = t" using at p by (metis Cons_nth_drop_Suc list.inject)
  have at1: "drop (Suc p) mem = enc_len (length c) @ c @ rest" using at by (metis drop_Suc drop_tl list.sel(3) tl_drop)
  note len = drop_eq_append [OF at1]
  have qm: "q \<le> length mem" and dq: "drop q mem = c @ rest" using len p q(1) by auto
  show d: "drop q mem = c @ rest" by (rule dq)
  note cont = drop_eq_append [OF dq qm]
  show sl: "slice q (length c) mem = c" and "drop (q + length c) mem = rest" by (rule cont)+
  have l: "asn1_length mem (t AND 0xC0 = 0) (t AND 0x1F) e (Suc p) = Some (Some (length c, q))"
    using asn1_length_encoded [OF at1 ok(2)] q ok(3) by (auto simp: null_tag_def)
  have eq: "(length c = length oid \<and> c = oid) \<longleftrightarrow> c = oid" and room: "\<not> length mem < q + length c"
    using cont(2) by auto
  have "\<not> e \<le> p" using q by simp
  then show "asn1_scan mem oid ty e p m =
    (if c = [] then asn1_scan mem oid ty e q m
     else if t AND 0x20 \<noteq> 0 then
       (case asn1_scan mem oid ty (q + length c) q m of
          None \<Rightarrow> None
        | Some (ok, data, m) \<Rightarrow> if \<not> ok then Some (False, data, m) else if data \<noteq> None then Some (True, data, m)
            else asn1_scan mem oid ty e (q + length c) m)
     else if t AND 0xC0 = 0 \<and> \<not> m \<and> t AND 0x1F = 6 \<and> c = oid then asn1_scan mem oid ty e (q + length c) True
     else if t AND 0xC0 = 0 \<and> m \<and> t AND 0x1F = ty then Some (True, Some (q, length c), m)
     else asn1_scan mem oid ty e (q + length c) m)"
    using p t l ok(1) by (subst asn1_scan.simps) (simp add: Let_def sl eq room)
qed


text \<open>The data found is the contents \<open>r\<close> of an element.\<close>

definition found :: "bytes \<Rightarrow> nat \<Rightarrow> (nat \<times> nat) option \<Rightarrow> bytes option \<Rightarrow> bool" where
  "found mem e d r \<longleftrightarrow> (case r of None \<Rightarrow> d = None
     | Some c \<Rightarrow> \<exists>q. d = Some (q, length c) \<and> slice q (length c) mem = c \<and> q + length c \<le> e)"

lemma asn1_scan_encoded:
  assumes "list_all asn1_ok xs" "drop p mem = concat (map encode xs) @ rest" "e = p + length (concat (map encode xs))"
  shows "\<exists>d. asn1_scan mem oid ty e p m = Some (True, d, snd (search oid ty m xs)) \<and> found mem e d (fst (search oid ty m xs))"
  using assms
proof (induction oid ty m xs arbitrary: p e rest rule: search.induct)
  case (1 oid ty m)
  then show ?case by (subst asn1_scan.simps) (simp add: found_def)
next
  case (2 oid ty m t c xs)
  let ?q = "p + 1 + length (enc_len (length c))"
  have at: "drop p mem = t # enc_len (length c) @ c @ concat (map encode xs) @ rest" using "2.prems"(2) by simp
  have ok: "t AND 0x20 = 0" "t AND 0x1F \<noteq> 0x1F" "length c < 65536" "null_tag t \<longrightarrow> c = []" "list_all asn1_ok xs"
    using "2.prems"(1) by auto
  have e: "?q + length c \<le> e" "e = ?q + length c + length (concat (map encode xs))" using "2.prems"(3) by auto
  note el = asn1_scan_element [OF at ok(2-4) refl e(1)]
  consider (oid) "t AND 0xC0 = 0 \<and> c \<noteq> [] \<and> \<not> m \<and> t AND 0x1F = 6 \<and> c = oid"
    | (hit) "\<not> (t AND 0xC0 = 0 \<and> c \<noteq> [] \<and> \<not> m \<and> t AND 0x1F = 6 \<and> c = oid)" "t AND 0xC0 = 0 \<and> c \<noteq> [] \<and> m \<and> t AND 0x1F = ty"
    | (skip) "\<not> (t AND 0xC0 = 0 \<and> c \<noteq> [] \<and> \<not> m \<and> t AND 0x1F = 6 \<and> c = oid)" "\<not> (t AND 0xC0 = 0 \<and> c \<noteq> [] \<and> m \<and> t AND 0x1F = ty)"
    by blast
  then show ?case
  proof cases
    case oid
    then have "asn1_scan mem oid ty e p m = asn1_scan mem oid ty e (?q + length c) True" unfolding el(1) [of oid ty m] using ok(1) by auto
    then show ?thesis using "2.IH"(1) [OF oid ok(5) el(4) e(2)] oid by auto
  next
    case hit
    then have "asn1_scan mem oid ty e p m = Some (True, Some (?q, length c), m)" unfolding el(1) [of oid ty m] using ok(1) by auto
    then show ?thesis using hit el(2) e(1) by (simp add: found_def)
  next
    case skip
    have "asn1_scan mem oid ty e p m = asn1_scan mem oid ty e (?q + length c) m"
      unfolding el(1) [of oid ty m] using ok(1) skip by (cases "c = []") auto
    then show ?thesis using "2.IH"(2) [OF skip ok(5) el(4) e(2)] skip by auto
  qed
next
  case (3 oid ty m t ys xs)
  let ?c = "concat (map encode ys)"
  let ?q = "p + 1 + length (enc_len (length ?c))"
  have at: "drop p mem = t # enc_len (length ?c) @ ?c @ concat (map encode xs) @ rest" using "3.prems"(2) by simp
  have ok: "t AND 0x20 \<noteq> 0" "t AND 0x1F \<noteq> 0x1F" "length ?c < 65536" "null_tag t \<longrightarrow> ?c = []" "list_all asn1_ok ys" "list_all asn1_ok xs"
    using "3.prems"(1) by auto
  have e: "?q + length ?c \<le> e" "e = ?q + length ?c + length (concat (map encode xs))" using "3.prems"(3) by auto
  note el = asn1_scan_element [OF at ok(2-4) refl e(1)]
  obtain d where d: "asn1_scan mem oid ty (?q + length ?c) ?q m = Some (True, d, snd (search oid ty m ys))"
      "found mem (?q + length ?c) d (fst (search oid ty m ys))"
    using "3.IH"(1) [OF ok(5) el(3) refl] by blast
  obtain r m' where s: "search oid ty m ys = (r, m')" by fastforce
  have rec: "asn1_scan mem oid ty (?q + length ?c) ?q m = Some (True, d, m')" using d(1) s by simp
  have step: "asn1_scan mem oid ty e p m = (if d \<noteq> None then Some (True, d, m') else asn1_scan mem oid ty e (?q + length ?c) m')"
  proof (cases "?c = []")
    case True
    then have "d = None \<and> m' = m" using rec asn1_scan_end [of ?q ?q mem oid ty m] unfolding True by simp
    then show ?thesis unfolding el(1) [of oid ty m] True by simp
  next
    case False
    then show ?thesis unfolding el(1) [of oid ty m] rec using ok(1) by (simp del: concat_eq_Nil_conv)
  qed
  show ?case
  proof (cases r)
    case None
    then have "d = None" using d(2) s by (simp add: found_def)
    then show ?thesis using step "3.IH"(2) [OF s [symmetric] None ok(6) el(4) e(2)] s None by simp
  next
    case (Some c)
    then have "d \<noteq> None" "found mem e d r" using d(2) s e(1) by (auto simp: found_def)
    then show ?thesis using step s Some by simp
  qed
qed

section \<open>Object identifiers\<close>

text \<open>The encoding of a number with seven bits in each byte, and that of an identifier.\<close>

fun base128 :: "nat \<Rightarrow> nat list" where
  "base128 n = (if n < 128 then [n] else base128 (n div 128) @ [n mod 128])"

declare base128.simps [simp del]

definition sub_identifier :: "nat \<Rightarrow> bytes" where
  "sub_identifier n = map (\<lambda>d. of_nat (d + 128)) (butlast (base128 n)) @ [of_nat (last (base128 n))]"

text \<open>The arcs of an encoded identifier: \<open>acc\<close> is the part of a number that was read.\<close>

fun sub_identifiers :: "nat \<Rightarrow> bytes \<Rightarrow> nat list" where
  "sub_identifiers acc [] = []"
| "sub_identifiers acc (b # bs) =
     (if 128 \<le> unat b then sub_identifiers (acc * 128 + (unat b - 128)) bs else (acc * 128 + unat b) # sub_identifiers 0 bs)"

definition oid_arcs :: "bytes \<Rightarrow> nat list" where
  "oid_arcs bs = (case sub_identifiers 0 bs of [] \<Rightarrow> [] | n # ns \<Rightarrow> (if n < 80 then [n div 40, n mod 40] else [2, n - 80]) @ ns)"

lemma base128_digits: "\<forall>d \<in> set (base128 n). d < 128" and base128_not_Nil: "base128 n \<noteq> []"
  by (induction n rule: base128.induct; subst base128.simps; simp)+

lemma sub_identifiers_flagged:
  "\<forall>d \<in> set ds. d < 128 \<Longrightarrow> sub_identifiers acc (map (\<lambda>d. of_nat (d + 128)) ds @ bs) = sub_identifiers (foldl (\<lambda>a d. a * 128 + d) acc ds) bs"
proof (induction ds arbitrary: acc)
  case (Cons d ds)
  then have "unat (of_nat (d + 128) :: byte) = d + 128" using byte_of_nat [of "d + 128"] by simp
  then show ?case using Cons by (simp del: of_nat_add)
qed simp

lemma base128_value: "foldl (\<lambda>a d. a * 128 + d) 0 (base128 n) = n"
proof (induction n rule: base128.induct)
  case (1 n)
  show ?case by (subst base128.simps) (use 1 in simp)
qed

lemma sub_identifiers_sub_identifier: "sub_identifiers 0 (sub_identifier n @ bs) = n # sub_identifiers 0 bs"
proof -
  have l: "last (base128 n) < 128" using base128_digits [of n] base128_not_Nil [of n] by simp
  have "\<forall>d \<in> set (butlast (base128 n)). d < 128" using base128_digits [of n] by (auto dest: in_set_butlastD)
  moreover have "foldl (\<lambda>a d. a * 128 + d) 0 (butlast (base128 n)) * 128 + last (base128 n) = n"
  proof -
    have "foldl (\<lambda>a d. a * 128 + d) 0 (butlast (base128 n) @ [last (base128 n)]) = n"
      using base128_value [of n] append_butlast_last_id [OF base128_not_Nil [of n]] by simp
    then show ?thesis by (simp only: foldl_append foldl_Cons foldl_Nil)
  qed
  ultimately show ?thesis
    using sub_identifiers_flagged [of "butlast (base128 n)" 0 "of_nat (last (base128 n)) # bs"] l byte_of_nat [of "last (base128 n)"]
    by (simp add: sub_identifier_def)
qed

text \<open>The \<open>k + 1\<close> last digits of a number.\<close>

fun digits128 :: "nat \<Rightarrow> nat \<Rightarrow> nat list" where
  "digits128 0 n = [n]"
| "digits128 (Suc k) n = digits128 k (n div 128) @ [n mod 128]"

lemma digits128_not_Nil: "digits128 k n \<noteq> []"
  by (cases k) simp_all

lemma base128_digits128: "n < 128 \<Longrightarrow> base128 n = digits128 0 n" "128 ^ Suc k \<le> n \<Longrightarrow> n < 128 ^ Suc (Suc k) \<Longrightarrow> base128 n = digits128 (Suc k) n"
proof -
  show "n < 128 \<Longrightarrow> base128 n = digits128 0 n" by (simp add: base128.simps)
  show "128 ^ Suc k \<le> n \<Longrightarrow> n < 128 ^ Suc (Suc k) \<Longrightarrow> base128 n = digits128 (Suc k) n"
  proof (induction k arbitrary: n)
    case 0
    then have "n div 128 < 128" by (simp add: div_less_iff_less_mult)
    then show ?case using 0 by (subst base128.simps) (simp add: base128.simps [of "n div 128"])
  next
    case (Suc k)
    have "128 ^ Suc k \<le> n div 128" "n div 128 < 128 ^ Suc (Suc k)"
      using Suc.prems by (simp_all add: less_eq_div_iff_mult_less_eq div_less_iff_less_mult mult.commute)
    moreover have "128 \<le> n" using Suc.prems(1) self_le_power [of "128 :: nat" "Suc (Suc k)"] by linarith
    ultimately show ?case using Suc.IH [of "n div 128"] by (subst base128.simps) simp
  qed
qed

lemma digits128_first: "digits128 (Suc k) n = n div 128 ^ Suc k # digits128 k (n mod 128 ^ Suc k)"
proof (induction k arbitrary: n)
  case (Suc k)
  have "n mod (128 * 128 ^ Suc k) = 128 * (n div 128 mod 128 ^ Suc k) + n mod 128" by (rule mod_mult2_eq)
  then have "n mod 128 ^ Suc (Suc k) div 128 = n div 128 mod 128 ^ Suc k" "n mod 128 ^ Suc (Suc k) mod 128 = n mod 128" by simp_all
  moreover have "n div 128 div 128 div 128 ^ k = n div 16384 div 128 ^ k" using div_mult2_eq [of n 128 128] by simp
  ultimately show ?case using Suc [of "n div 128"] by (simp add: div_mult2_eq)
qed simp

lemma flag_bit: "d < 128 \<Longrightarrow> (0x80 :: byte) OR of_nat d = of_nat (d + 128)"
  using low_byte [of d] disjunctive_add_eq_or [of "0x80 :: byte" "of_nat d"] by (simp add: and.commute add.commute)

lemma drop_bit_digit:
  fixes v :: u64
  assumes "unat v < 2 ^ (s + 7)"
  shows "(0x80 OR ucast (drop_bit s v) :: byte) = of_nat (unat v div 2 ^ s + 128)"
proof -
  have lt: "unat v div 2 ^ s < 128" using assms by (simp add: div_less_iff_less_mult power_add mult.commute)
  have "(ucast (drop_bit s v) :: byte) = of_nat (unat (drop_bit s v))"
    by simp
  also have "\<dots> = of_nat (unat v div 2 ^ s)"
    using unat_drop_bit_eq [of s v] drop_bit_eq_div [of s "unat v"] by (simp only:)
  finally show ?thesis using flag_bit [OF lt] by simp
qed

lemma take_bit_rest:
  fixes v :: u64
  shows "unat (v - push_bit s (drop_bit s v)) = unat v mod 2 ^ s"
proof -
  have "v - push_bit s (drop_bit s v) = take_bit s v" using bits_ident [of s v] by (simp add: algebra_simps)
  moreover have "unat (take_bit s v) = take_bit s (unat v)" by (simp add: unsigned_take_bit_eq)
  ultimately show ?thesis using take_bit_eq_mod [of s "unat v"] by simp
qed

definition flagged :: "nat list \<Rightarrow> bytes" where
  "flagged ds = map (\<lambda>d. of_nat (d + 128)) (butlast ds) @ [of_nat (last ds)]"

fun shifts :: "nat \<Rightarrow> nat list" where
  "shifts 0 = []"
| "shifts (Suc k) = 7 * Suc k # shifts k"

lemma flagged_loop_more: "unat v < 128 ^ Suc k \<Longrightarrow> flagged_loop (shifts k) True v = flagged (digits128 k (unat v))"
proof (induction k arbitrary: v)
  case 0
  then show ?case by (simp add: flagged_def)
next
  case (Suc k)
  let ?s = "7 * Suc k" and ?w = "v - push_bit (7 * Suc k) (drop_bit (7 * Suc k) v)"
  have p: "(2 :: nat) ^ ?s = 128 ^ Suc k" using power_mult [of "2 :: nat" 7 "Suc k"] by simp
  have w: "unat ?w = unat v mod 128 ^ Suc k" using take_bit_rest [of v ?s] p by simp
  have "unat v < 2 ^ (?s + 7)" using Suc.prems p by (simp add: power_add mult.commute)
  note d = drop_bit_digit [OF this]
  have "flagged_loop (shifts k) True ?w = flagged (digits128 k (unat v mod 128 ^ Suc k))"
    using Suc.IH [of ?w] w by simp
  then show ?case
    unfolding digits128_first [of k "unat v"] using d p digits128_not_Nil [of k] by (simp add: flagged_def del: of_nat_add digits128.simps)
qed

lemma unat_two_power: "m < 64 \<Longrightarrow> unat ((2 :: u64) ^ m) = 2 ^ m"
proof -
  assume "m < 64"
  then have "take_bit 64 ((2 :: nat) ^ m) = 2 ^ m" by (intro take_bit_nat_eq_self power_strict_increasing) simp_all
  then have "unat (of_nat (2 ^ m) :: u64) = 2 ^ m" by (simp add: unsigned_of_nat del: of_nat_power)
  then show ?thesis by simp
qed

lemma flagged_loop_start:
  "k \<le> 4 \<Longrightarrow> unat v < 128 ^ Suc k \<Longrightarrow> flagged_loop (shifts k) False v = sub_identifier (unat v)"
proof (induction k)
  case 0
  then show ?case using base128_digits128(1) [of "unat v"] by (simp add: sub_identifier_def)
next
  case (Suc k)
  have p: "(2 :: nat) ^ (7 * Suc k) = 128 ^ Suc k" using power_mult [of "2 :: nat" 7 "Suc k"] by simp
  have s: "7 * Suc k < 64" using Suc.prems(1) by simp
  have "unat (push_bit (7 * Suc k) 1 :: u64) = 128 ^ Suc k"
    using unat_two_power [OF s] p by (simp add: push_bit_eq_mult)
  then have le: "push_bit (7 * Suc k) 1 \<le> v \<longleftrightarrow> 128 ^ Suc k \<le> unat v" by (simp add: word_le_nat_alt)
  show ?case
  proof (cases "128 ^ Suc k \<le> unat v")
    case True
    then have "flagged_loop (shifts (Suc k)) False v = flagged_loop (shifts (Suc k)) True v" using le by simp
    also have "\<dots> = sub_identifier (unat v)"
      using flagged_loop_more [of v "Suc k"] base128_digits128(2) [OF True] Suc.prems(2) by (simp add: sub_identifier_def flagged_def)
    finally show ?thesis .
  next
    case False
    then show ?thesis using le Suc.IH Suc.prems(1) by simp
  qed
qed

lemma make_flagged_int_base128: "unat v < 2 ^ 35 \<Longrightarrow> make_flagged_int v = sub_identifier (unat v)"
proof -
  have "shifts 4 = [28, 21, 14, 7]" by (simp add: numeral_eq_Suc)
  moreover assume "unat v < 2 ^ 35"
  ultimately show ?thesis using flagged_loop_start [of 4 v] by (simp add: make_flagged_int_def)
qed

text \<open>An identifier in dotted notation.\<close>

fun dotted :: "nat list \<Rightarrow> bytes" where
  "dotted [] = []"
| "dotted [a] = decimal a"
| "dotted (a # as) = decimal a @ 0x2E # dotted as"

text \<open>The number at the start of an identifier.\<close>

lemma dotted_Cons: "dotted (a # as) = decimal a @ (if as = [] then [] else 0x2E # dotted as)"
  by (cases as) simp_all

lemma dotted_number:
  assumes "a < 2 ^ 64"
  shows "strtoul 10 (dotted (a # as)) = of_nat a" "number_end 10 (dotted (a # as)) = (if as = [] then [] else 0x2E # dotted as)"
    "dotted (a # as) \<noteq> []" "is_digit (hd (dotted (a # as)))"
proof -
  let ?r = "if as = [] then [] else 0x2E # dotted as"
  have stop: "?r = [] \<or> \<not> is_digit (hd ?r)" by (simp add: is_digit_def)
  show "strtoul 10 (dotted (a # as)) = of_nat a" "number_end 10 (dotted (a # as)) = ?r"
    unfolding dotted_Cons by (rule strtoul_decimal_append [OF assms stop], rule decimal_append(2) [OF stop])
  show "dotted (a # as) \<noteq> []" "is_digit (hd (dotted (a # as)))"
    unfolding dotted_Cons using decimal_not_Nil [of a] decimal_digits [of a] by (cases "decimal a"; simp)+
qed

lemma unat_arc: "n < 2 ^ 35 \<Longrightarrow> unat (of_nat n :: u64) = n"
  by (simp add: unsigned_of_nat take_bit_nat_eq_self)

lemma oid_loop_rest:
  "\<forall>c \<in> set cs. c < 2 ^ 35 \<Longrightarrow> c < 2 ^ 35 \<Longrightarrow> 2 \<le> arcno \<Longrightarrow>
   oid_loop (dotted (c # cs)) arcno val1 oid = (oid @ concat (map sub_identifier (c # cs)), arcno + Suc (length cs), False)"
proof (induction cs arbitrary: c arcno oid)
  case Nil
  have c: "c < 2 ^ 64" using Nil by simp
  show ?case using dotted_number [OF c, of "[]"] make_flagged_int_base128 [of "of_nat c"] unat_arc [OF Nil(2)] Nil
    by (subst oid_loop.simps) (simp add: Let_def oid_arc_def)
next
  case (Cons b cs)
  have c: "c < 2 ^ 64" using Cons.prems by simp
  have "oid_loop (dotted (c # b # cs)) arcno val1 oid = oid_loop (dotted (b # cs)) (arcno + 1) val1 (oid @ sub_identifier c)"
    using dotted_number [OF c, of "b # cs"] make_flagged_int_base128 [of "of_nat c"] unat_arc [OF Cons.prems(2)] Cons.prems
    by (subst oid_loop.simps) (simp add: Let_def oid_arc_def)
  then show ?case using Cons.IH [of b "arcno + 1" "oid @ sub_identifier c"] Cons.prems by simp
qed

definition oid_encoding :: "nat list \<Rightarrow> bytes" where
  "oid_encoding arcs = concat (map sub_identifier ((40 * arcs ! 0 + arcs ! 1) # drop 2 arcs))"

definition arcs_ok :: "nat list \<Rightarrow> bool" where
  "arcs_ok arcs \<longleftrightarrow> 2 \<le> length arcs \<and> arcs ! 0 \<le> 2 \<and> (arcs ! 0 < 2 \<longrightarrow> arcs ! 1 < 40) \<and> 80 + arcs ! 1 < 2 ^ 35 \<and> (\<forall>c \<in> set arcs. c < 2 ^ 35)"

lemma sub_identifiers_concat: "sub_identifiers 0 (concat (map sub_identifier ns)) = ns"
  by (induction ns) (simp_all add: sub_identifiers_sub_identifier)

lemma oid_arcs_encoding:
  assumes "arcs_ok arcs"
  shows "oid_arcs (oid_encoding arcs) = arcs"
proof -
  obtain a b cs where arcs: "arcs = a # b # cs" using assms by (cases arcs; cases "tl arcs") (auto simp: arcs_ok_def)
  have "sub_identifiers 0 (oid_encoding arcs) = (40 * a + b) # cs"
    unfolding oid_encoding_def sub_identifiers_concat arcs by simp
  moreover have "a = 0 \<or> a = 1 \<or> a = 2" "a < 2 \<longrightarrow> b < 40" using assms arcs by (auto simp: arcs_ok_def)
  ultimately show ?thesis using arcs by (auto simp: oid_arcs_def)
qed

lemma sub_identifier_small: "n < 128 \<Longrightarrow> sub_identifier n = [of_nat n]"
  by (simp add: sub_identifier_def base128.simps)

text \<open>The first two arcs.\<close>

lemma first_two_encoding:
  assumes "a \<le> 2" "a < 2 \<longrightarrow> b < 40" "80 + b < 2 ^ 35"
  shows "(if (of_nat a :: u64) < 2 then [ucast (of_nat a * 40 + of_nat b :: u64)] else make_flagged_int (of_nat b + 80)) = sub_identifier (40 * a + b)"
proof (cases "a < 2")
  case True
  then have lt: "40 * a + b < 128" using assms(2) by auto
  have "(of_nat a :: u64) < 2" using True unat_arc [of a] by (simp add: word_less_nat_alt)
  moreover have "ucast (of_nat a * 40 + of_nat b :: u64) = (of_nat (40 * a + b) :: byte)"
  proof -
    have "unat (of_nat a * 40 + of_nat b :: u64) = 40 * a + b"
      using unat_arc [of "40 * a + b"] lt by (simp add: mult.commute)
    then show ?thesis by (metis of_nat_unat)
  qed
  ultimately show ?thesis using sub_identifier_small [OF lt] by simp
next
  case False
  then have a: "a = 2" using assms(1) by simp
  have "unat (of_nat b + 80 :: u64) = 80 + b" using unat_arc [of "80 + b"] assms(3) by (simp add: add.commute)
  then show ?thesis using make_flagged_int_base128 [of "of_nat b + 80"] assms(3) a by simp
qed

lemma oid_loop_second:
  assumes "a \<le> 2" "a < 2 \<longrightarrow> b < 40" "80 + b < 2 ^ 35"
  shows "oid_loop (dotted (b # cs)) 1 (of_nat a) [] =
    (if cs = [] then (sub_identifier (40 * a + b), 2, False) else oid_loop (dotted cs) 2 (of_nat a) (sub_identifier (40 * a + b)))"
proof -
  have b: "b < 2 ^ 64" using assms(3) by simp
  have "\<not> ((of_nat a :: u64) < 2 \<and> 39 < (of_nat b :: u64))"
    using assms unat_arc [of a] unat_arc [of b] by (auto simp: word_less_nat_alt)
  then show ?thesis
    using dotted_number [OF b, of cs] first_two_encoding [OF assms] by (subst oid_loop.simps) (simp add: Let_def oid_arc_def numeral_2_eq_2 split: if_splits)
qed

lemma oid_loop_dotted:
  assumes "arcs_ok (a # b # cs)"
  shows "oid_loop (dotted (a # b # cs)) 0 0 [] = (oid_encoding (a # b # cs), 2 + length cs, False)"
proof -
  have ab: "a \<le> 2" "a < 2 \<longrightarrow> b < 40" "80 + b < 2 ^ 35" and cs: "\<forall>c \<in> set cs. c < 2 ^ 35"
    using assms by (auto simp: arcs_ok_def)
  have a: "a < 2 ^ 64" "\<not> 2 < (of_nat a :: u64)" using ab(1) unat_arc [of a] by (auto simp: word_less_nat_alt)
  have one: "oid_loop (dotted (a # b # cs)) 0 0 [] = oid_loop (dotted (b # cs)) 1 (of_nat a) []"
    using dotted_number [OF a(1), of "b # cs"] a(2) by (subst oid_loop.simps) (simp add: Let_def oid_arc_def)
  show ?thesis
  proof (cases cs)
    case Nil
    then show ?thesis unfolding one oid_loop_second [OF ab] by (simp add: oid_encoding_def)
  next
    case (Cons c cs')
    then show ?thesis unfolding one oid_loop_second [OF ab]
      using oid_loop_rest [of cs' c 2 "of_nat a" "sub_identifier (40 * a + b)"] cs by (simp add: oid_encoding_def)
  qed
qed

text \<open>
  C37. Round trip of object identifiers: \<^verbatim>\<open>oid_from_str\<close> turns the dotted notation of an identifier into an encoding from which its arcs can be read back, by
  the rules of X.690, provided the encoding has from 2 to 254 bytes; otherwise it refuses.
\<close>

theorem oid_from_str_roundtrip:
  assumes "arcs_ok arcs"
  shows "oid_from_str (dotted arcs) = (if 2 \<le> length (oid_encoding arcs) \<and> length (oid_encoding arcs) \<le> 254 then Some (oid_encoding arcs) else None) \<and>
    oid_arcs (oid_encoding arcs) = arcs"
proof -
  obtain a b cs where arcs: "arcs = a # b # cs" using assms by (cases arcs; cases "tl arcs") (auto simp: arcs_ok_def)
  have "dotted arcs \<noteq> []" using decimal_not_Nil [of a] by (simp add: arcs)
  then show ?thesis
    using oid_loop_dotted [of a b cs] assms arcs oid_arcs_encoding [OF assms] by (auto simp: oid_from_str_def)
qed

theorem oid_from_str_roundtrip_witness:
  "oid_from_str (dotted [1, 2, 840, 113549, 1]) = Some [0x2A, 0x86, 0x48, 0x86, 0xF7, 0x0D, 0x01] \<and>
   oid_arcs [0x2A, 0x86, 0x48, 0x86, 0xF7, 0x0D, 0x01] = [1, 2, 840, 113549, 1]"
proof -
  have "oid_encoding [1, 2, 840, 113549, 1] = [0x2A, 0x86, 0x48, 0x86, 0xF7, 0x0D, 0x01]"
    by (simp add: oid_encoding_def sub_identifier_def base128.simps)
  then show ?thesis using oid_from_str_roundtrip [of "[1, 2, 840, 113549, 1]"] by (simp add: arcs_ok_def)
qed

section \<open>The buffer of an object identifier\<close>

lemma length_base128: "n < 128 ^ Suc k \<Longrightarrow> length (base128 n) \<le> Suc k"
proof (induction k arbitrary: n)
  case 0
  then show ?case by (simp add: base128.simps)
next
  case (Suc k)
  then have "n div 128 < 128 ^ Suc k" by (simp add: div_less_iff_less_mult mult.commute)
  then show ?case using Suc.IH [of "n div 128"] by (subst base128.simps) simp
qed

lemma length_flagged_loop: "length (flagged_loop ss more v) \<le> Suc (length ss)"
  by (induction ss more v rule: flagged_loop.induct) auto

lemma length_make_flagged_int:
  assumes "0 < d" "5 \<le> d \<or> unat v < 128 ^ d"
  shows "length (make_flagged_int v) \<le> d"
proof (cases "5 \<le> d")
  case True
  then show ?thesis using length_flagged_loop [of "[28, 21, 14, 7]" False v] by (simp add: make_flagged_int_def)
next
  case False
  then have "(128 :: nat) ^ d \<le> 128 ^ 4" by (intro power_increasing) simp_all
  then have "unat v < 2 ^ 35" using assms(2) False by simp
  then have "length (make_flagged_int v) = length (base128 (unat v))"
    using base128_not_Nil [of "unat v"] by (simp add: make_flagged_int_base128 sub_identifier_def)
  then show ?thesis using length_base128 [of "unat v" "d - 1"] assms False by simp
qed

text \<open>A number with \<open>d\<close> digits at the start of a string.\<close>

lemma digits_value_less: "digits_value 10 acc s < (acc + 1) * 10 ^ length (takeWhile is_digit s)"
proof (induction s arbitrary: acc)
  case (Cons c s)
  show ?case
  proof (cases "is_digit c")
    case True
    then obtain d where d: "d < 10" "digit_value c = Some d" using is_digit_value by blast
    have "digits_value 10 (acc * 10 + d) s < (acc * 10 + d + 1) * 10 ^ length (takeWhile is_digit s)" by (rule Cons.IH)
    also have "\<dots> \<le> (acc + 1) * 10 * 10 ^ length (takeWhile is_digit s)" using d(1) by (intro mult_right_mono) simp_all
    finally show ?thesis using d True by (simp add: algebra_simps)
  next
    case False
    then show ?thesis using digits_value_stop [of "c # s" 10 acc] by (simp add: has_digit_10)
  qed
qed simp

lemma leading_number:
  assumes "s \<noteq> []" "is_digit (hd s)"
  obtains d where "0 < d" "length s = d + length (number_end 10 s)" "5 \<le> d \<or> unat (strtoul 10 s) < 10 ^ d"
proof -
  let ?d = "length (takeWhile is_digit s)"
  obtain c t where s: "s = c # t" "is_digit c" using assms by (cases s) auto
  have eq: "has_digit 10 = is_digit" by (rule ext) (rule has_digit_10)
  have nt: "number_text 10 s = (False, s)" using number_text_digits [OF s(2)] s(1) by simp
  then have "number_end 10 s = dropWhile is_digit s" using assms by (simp add: number_end_def eq)
  then have len: "length s = ?d + length (number_end 10 s)" by (metis length_append takeWhile_dropWhile_id)
  have "5 \<le> ?d \<or> unat (strtoul 10 s) < 10 ^ ?d"
  proof (cases "5 \<le> ?d")
    case False
    let ?v = "digits_value 10 0 s"
    have v: "?v < 10 ^ ?d" using digits_value_less [of 0 s] by simp
    also have "(10 :: nat) ^ ?d \<le> 10 ^ 5" using False by (intro power_increasing) simp_all
    finally have "?v < 100000" by simp
    then have "strtoul 10 s = of_nat ?v" "unat (of_nat ?v :: u64) = ?v"
      using nt by (simp_all add: strtoul_def scan_number_def unsigned_of_nat take_bit_nat_eq_self)
    then show ?thesis using v by simp
  qed simp
  then show thesis using that [of ?d] len s by simp
qed

lemma two_arcs_bound: "0 < d \<Longrightarrow> unat (v :: u64) < 10 ^ d \<Longrightarrow> d < 5 \<Longrightarrow> unat v < 128 ^ d \<and> unat (v + 80) < 128 ^ d"
proof -
  assume d: "0 < d" "unat v < 10 ^ d" "d < 5"
  then have "d \<in> {1, 2, 3, 4}" by auto
  then have "10 ^ d + 80 \<le> (128 :: nat) ^ d" by auto
  moreover have "unat (v + 80) \<le> unat v + 80" by (simp add: unat_word_ariths(1))
  ultimately show ?thesis using d(2) by auto
qed

lemma oid_loop_length: "length (fst (oid_loop s arcno val1 oid)) \<le> length oid + length s"
proof (induction s arcno val1 oid rule: oid_loop.induct)
  case (1 s arcno val1 oid)
  let ?n = "arcno + 1" and ?v = "strtoul 10 s" and ?e = "number_end 10 s"
  show ?case
  proof (cases "s = [] \<or> \<not> is_digit (hd s) \<or> \<not> (?e = [] \<or> hd ?e = 0x2E)")
    case True
    then show ?thesis by (subst oid_loop.simps) (simp add: Let_def)
  next
    case num: False
    then obtain d where d: "0 < d" "length s = d + length ?e" "5 \<le> d \<or> unat ?v < 10 ^ d" using leading_number [of s] by blast
    have arc: "length (oid_arc ?n val1 ?v) \<le> d"
      using d(1,3) length_make_flagged_int [of d ?v] length_make_flagged_int [of d "?v + 80"] two_arcs_bound [of d ?v]
      by (cases "5 \<le> d") (auto simp: oid_arc_def)
    show ?thesis
    proof (cases "?n = 1 \<and> 2 < ?v \<or> ?n = 2 \<and> val1 < 2 \<and> 39 < ?v")
      case True
      then show ?thesis using num by (subst oid_loop.simps) (auto simp: Let_def)
    next
      case False
      have step: "oid_loop s arcno val1 oid = (if ?e \<noteq> [] then oid_loop (tl ?e) ?n (if ?n = 1 then ?v else val1) (oid @ oid_arc ?n val1 ?v)
          else (oid @ oid_arc ?n val1 ?v, ?n, False))"
        using num False by (subst oid_loop.simps) (auto simp: Let_def)
      show ?thesis
      proof (cases "?e = []")
        case True
        then show ?thesis using step arc d(2) by simp
      next
        case more: False
        have "length (fst (oid_loop (tl ?e) ?n (if ?n = 1 then ?v else val1) (oid @ oid_arc ?n val1 ?v))) \<le> length (oid @ oid_arc ?n val1 ?v) + length (tl ?e)"
          using "1.IH" [OF refl refl refl num] False more by auto
        then show ?thesis using step more arc d(2) by simp
      qed
    qed
  qed
qed

text \<open>
  The buffer that \<^verbatim>\<open>oid_from_str\<close> allocates, three bytes more than the string has characters, is never overrun, whatever the string is.
\<close>

theorem oid_from_str_fits: "length (fst (oid_loop oid_str 0 0 [])) < 1 + length oid_str + 2"
  using oid_loop_length [of oid_str 0 0 "[]"] by simp

section \<open>Lookup\<close>

text \<open>
  C18. \<^verbatim>\<open>get_data_from_asn1\<close> on a complete structure of less than 64 KiB reads only the structure and returns the contents of the first universal element of the
  type that comes after the identifier in the encoding, at any depth, or \<^verbatim>\<open>NULL\<close> if there is none.
\<close>

theorem get_data_from_asn1_correct:
  assumes "list_all asn1_ok xs" "buf = concat (map encode xs)" "length buf < 65536"
    and "if oid_str = [] then oid = [] else oid_from_str oid_str = Some oid"
  shows "\<exists>d. get_data_from_asn1 (buf @ rest) (length buf) oid_str ty = Some d \<and>
    (case fst (search oid ty (oid_str = []) xs) of None \<Rightarrow> d = None
     | Some c \<Rightarrow> \<exists>q. d = Some (q, length c) \<and> slice q (length c) (buf @ rest) = c \<and> q + length c \<le> length buf)"
proof -
  obtain d where "asn1_scan (buf @ rest) oid ty (length buf) 0 (oid_str = []) = Some (True, d, snd (search oid ty (oid_str = []) xs))"
      "found (buf @ rest) (length buf) d (fst (search oid ty (oid_str = []) xs))"
    using asn1_scan_encoded [OF assms(1), of 0 "buf @ rest" rest "length buf" oid ty "oid_str = []"] assms(2) by auto
  then show ?thesis using assms(3,4) by (auto simp: get_data_from_asn1_def found_def)
qed

theorem get_data_from_asn1_correct_witness:
  "\<exists>q. get_data_from_asn1 ([0x30, 0x09, 0x06, 0x03, 0x2A, 0x03, 0x04, 0x04, 0x02, 0x41, 0x42] @ [0x01]) 11 (dotted [1, 2, 3, 4]) 0x04 = Some (Some (q, 2)) \<and>
     slice q 2 ([0x30, 0x09, 0x06, 0x03, 0x2A, 0x03, 0x04, 0x04, 0x02, 0x41, 0x42] @ [0x01]) = [0x41, 0x42 :: byte]"
proof -
  let ?xs = "[Constructed 0x30 [Primitive 0x06 [0x2A, 0x03, 0x04], Primitive 0x04 [0x41, 0x42]]]"
  let ?buf = "[0x30, 0x09, 0x06, 0x03, 0x2A, 0x03, 0x04, 0x04, 0x02, 0x41, 0x42] :: bytes"
  let ?o = "dotted [1, 2, 3, 4]" and ?c = "[0x41, 0x42] :: bytes"
  have ok: "list_all asn1_ok ?xs" "?buf = concat (map encode ?xs)" "length ?buf < 65536"
    by (simp_all add: enc_len_def null_tag_def)
  have "oid_encoding [1, 2, 3, 4] = [0x2A, 0x03, 0x04]"
    by (simp add: oid_encoding_def sub_identifier_def base128.simps)
  then have o: "oid_from_str ?o = Some [0x2A, 0x03, 0x04]" "(?o = []) = False"
    using oid_loop_dotted [of 1 2 "[3, 4]"] decimal_not_Nil [of 1] by (auto simp: oid_from_str_def arcs_ok_def)
  then have "if ?o = [] then [0x2A, 0x03, 0x04] = ([] :: bytes) else oid_from_str ?o = Some [0x2A, 0x03, 0x04]" by (simp only: if_False)
  note lookup = get_data_from_asn1_correct [OF ok this, of "[0x01]" "0x04"]
  have "fst (search [0x2A, 0x03, 0x04] 0x04 False ?xs) = Some ?c" by simp
  then obtain q where "get_data_from_asn1 (?buf @ [0x01]) (length ?buf) ?o 0x04 = Some (Some (q, length ?c))" "slice q (length ?c) (?buf @ [0x01]) = ?c"
    using lookup unfolding o(2) by (simp only: option.case) blast
  moreover have "length ?buf = 11" "length ?c = 2" by simp_all
  ultimately show ?thesis by metis
qed

text \<open>
  Truncated structures are not refused. The bytes of the length field are read without a comparison with the end of the buffer; if they lie behind it, the
  rest of the buffer, computed as an unsigned difference, comes out huge and any length passes. So a buffer of one byte makes the function read behind it, and from a buffer of two bytes it
  returns data that is not in the buffer.
\<close>

theorem asn1_length_unchecked:
  "get_data_from_asn1 [0x04] 1 [] 0x04 = None \<and> get_data_from_asn1 ([0x04, 0x82] @ [0, 1, x] @ rest) 2 [] 0x04 = Some (Some (4, 1))"
proof
  have "asn1_length [0x04] True 0x04 1 1 = None" by (simp add: asn1_length_def)
  then have "asn1_scan [0x04] [] 0x04 1 0 True = None" by (subst asn1_scan.simps) simp
  then show "get_data_from_asn1 [0x04] 1 [] 0x04 = None" by (simp add: get_data_from_asn1_def)
  let ?mem = "[0x04, 0x82] @ [0, 1, x] @ rest"
  have "mem_read ?mem 2 2 = Some [0, 1]" by (simp add: slice_def)
  then have "asn1_length ?mem True 0x04 2 1 = Some (Some (1, 4))" by (simp add: asn1_length_def Let_def slice_def)
  then have "asn1_scan ?mem [] 0x04 2 0 True = Some (True, Some (4, 1), True)" by (subst asn1_scan.simps) simp
  then show "get_data_from_asn1 ?mem 2 [] 0x04 = Some (Some (4, 1))" by (simp add: get_data_from_asn1_def)
qed

end
