(* ===== verification/Text_Tokens.thy ===== *)
theory Text_Tokens
  imports C_Strings
begin

text \<open>
  Lines of configuration files in \<^verbatim>\<open>src/parser.c\<close>: \<^verbatim>\<open>get_token_data_line\<close>, which returns the data of a line with a given token, and how the callers cut a file
  into lines. A wide string is the list of its 16 bit characters before the terminating zero. \<^verbatim>\<open>get_token_data_line\<close> returns a pointer into the line, in which it has
  stored a zero behind the data; the model returns that string, and \<open>None\<close> for \<^verbatim>\<open>NULL\<close>. The C locale is in force, in which \<^verbatim>\<open>_wcsnicmp\<close> folds the case of the
  letters of ASCII.
\<close>

section \<open>The code\<close>

type_synonym wstring = "u16 list"

definition is_wspace :: "u16 \<Rightarrow> bool" where
  "is_wspace c \<longleftrightarrow> c = 0x20 \<or> c = 0x09"

definition skip_wspace :: "wstring \<Rightarrow> wstring" where
  "skip_wspace = dropWhile is_wspace"

definition wlower :: "u16 \<Rightarrow> u16" where
  "wlower c = (if 0x41 \<le> c \<and> c \<le> 0x5A then c + 0x20 else c)"

text \<open>Whether \<^verbatim>\<open>_wcsnicmp(s, t, wcslen(t))\<close> is zero.\<close>

definition begins_with :: "wstring \<Rightarrow> wstring \<Rightarrow> bool" where
  "begins_with s t \<longleftrightarrow> map wlower (take (length t) s) = map wlower t"

definition is_eol :: "u16 \<Rightarrow> bool" where
  "is_eol c \<longleftrightarrow> c = 0x0D \<or> c = 0x0A"

definition skip_char :: "u16 \<Rightarrow> wstring \<Rightarrow> wstring" where
  "skip_char c s = (if s \<noteq> [] \<and> hd s = c then tl s else s)"

text \<open>The data behind the separator, which \<open>xml\<close> tells to be \<^verbatim>\<open>'>'\<close> rather than \<^verbatim>\<open>'='\<close>.\<close>

definition token_data :: "bool \<Rightarrow> wstring \<Rightarrow> wstring option" where
  "token_data xml s =
     (let s = skip_wspace s;
          quoteth = (s \<noteq> [] \<and> hd s = 0x22);
          s = skip_char 0x22 s;
          d = takeWhile (\<lambda>c. c \<noteq> 0x22 \<and> c \<noteq> 0x3C \<or> c = 0x22 \<and> \<not> quoteth \<or> c = 0x3C \<and> \<not> xml) s;
          d = rev (dropWhile is_eol (rev d))
      in if d = [] then None else Some d)"

definition get_token_data_line :: "wstring \<Rightarrow> wstring \<Rightarrow> wstring option" where
  "get_token_data_line wtoken wline =
     (let s = skip_wspace (skip_char 0x3C (skip_wspace wline))
      in if wline = [] \<or> \<not> begins_with s wtoken then None
         else case skip_wspace (drop (length wtoken) s) of
                [] \<Rightarrow> None
              | c # r \<Rightarrow> if c = 0x3E then token_data True r else if c = 0x3D then token_data False r else None)"

section \<open>The grammar of a line\<close>

text \<open>
  What the comment of \<^verbatim>\<open>get_token_data_line\<close> describes: spaces, possibly an opening angle bracket, the token in any case, an equal sign or a closing angle bracket,
  and the data, possibly in quotes. The data end at the end of the line, at the closing quote, or at the next tag.
\<close>

definition data_end :: "bool \<Rightarrow> bool \<Rightarrow> u16 \<Rightarrow> bool" where
  "data_end quoted xml c \<longleftrightarrow> quoted \<and> c = 0x22 \<or> xml \<and> c = 0x3C"

definition starts_data :: "bool \<Rightarrow> wstring \<Rightarrow> bool" where
  "starts_data quoted s \<longleftrightarrow> quoted \<or> s = [] \<or> \<not> is_wspace (hd s) \<and> hd s \<noteq> 0x22"

inductive token_line :: "wstring \<Rightarrow> wstring \<Rightarrow> wstring \<Rightarrow> bool" where
  "\<lbrakk>\<forall>c \<in> set (sp1 @ sp2 @ sp3 @ sp4). is_wspace c; lt = [] \<and> sp2 = [] \<or> lt = [0x3C];
    map wlower tok' = map wlower tok;
    quote = (if quoted then [0x22] else []); starts_data quoted d;
    \<forall>c \<in> set (d @ eol). \<not> data_end quoted (sep = 0x3E) c; \<forall>c \<in> set eol. is_eol c;
    d \<noteq> []; \<not> is_eol (last d); tail = [] \<or> data_end quoted (sep = 0x3E) (hd tail); sep = 0x3D \<or> sep = 0x3E\<rbrakk>
   \<Longrightarrow> token_line tok d (sp1 @ lt @ sp2 @ tok' @ sp3 @ sep # sp4 @ quote @ d @ eol @ tail)"

lemma wlower_other: "wlower x = wlower y \<Longrightarrow> x \<in> {0x20, 0x09, 0x3C, 0x3B, 0x5B} \<Longrightarrow> y = x"
  by (auto simp: wlower_def word_le_nat_alt unat_word_ariths word_unat_eq_iff split: if_splits)

lemma is_wspace_other [simp]: "\<not> is_wspace 0x22" "\<not> is_wspace 0x3C" "\<not> is_wspace 0x3D" "\<not> is_wspace 0x3E"
  by (simp_all add: is_wspace_def)

lemma skip_wspace_append [simp]: "\<forall>c \<in> set sp. is_wspace c \<Longrightarrow> skip_wspace (sp @ s) = skip_wspace s"
  by (induction sp) (auto simp: skip_wspace_def)

lemma skip_wspace_id: "s = [] \<or> \<not> is_wspace (hd s) \<Longrightarrow> skip_wspace s = s"
  by (cases s) (auto simp: skip_wspace_def)

lemma skip_wspaceE:
  obtains sp where "s = sp @ skip_wspace s" "\<forall>c \<in> set sp. is_wspace c" "skip_wspace s = [] \<or> \<not> is_wspace (hd (skip_wspace s))"
  using takeWhile_dropWhile_id [of is_wspace s] set_takeWhileD [of _ is_wspace s] hd_dropWhile [of is_wspace s]
  unfolding skip_wspace_def by metis

lemma strip_eol:
  assumes "\<forall>c \<in> set eol. is_eol c" "d \<noteq> []" "\<not> is_eol (last d)"
  shows "rev (dropWhile is_eol (rev (d @ eol))) = d"
proof -
  have "dropWhile is_eol (rev eol @ rev d) = rev d"
    using assms by (subst dropWhile_append2) (auto simp: hd_rev dropWhile_eq_self_iff)
  then show ?thesis by simp
qed

lemma strip_eolE:
  obtains eol where "s = rev (dropWhile is_eol (rev s)) @ eol" "\<forall>c \<in> set eol. is_eol c"
    "rev (dropWhile is_eol (rev s)) = [] \<or> \<not> is_eol (last (rev (dropWhile is_eol (rev s))))"
proof -
  have "s = rev (dropWhile is_eol (rev s)) @ rev (takeWhile is_eol (rev s))"
    by (metis rev_append rev_rev_ident takeWhile_dropWhile_id)
  moreover have "\<forall>c \<in> set (rev (takeWhile is_eol (rev s))). is_eol c"
    using set_takeWhileD by fastforce
  moreover have "rev (dropWhile is_eol (rev s)) = [] \<or> \<not> is_eol (last (rev (dropWhile is_eol (rev s))))"
    using hd_dropWhile [of is_eol "rev s"] by (auto simp: last_rev)
  ultimately show thesis using that by blast
qed

text \<open>The data of a line that follows the grammar.\<close>

lemma takeWhile_end: "\<forall>c \<in> set xs. P c \<Longrightarrow> ys = [] \<or> \<not> P (hd ys) \<Longrightarrow> takeWhile P (xs @ ys) = xs"
  by (cases ys) (simp_all add: takeWhile_stop(1))

lemma token_data_form:
  assumes sp: "\<forall>c \<in> set sp. is_wspace c" and q: "starts_data quoted d" "d \<noteq> []" "\<not> is_eol (last d)"
    and body: "\<forall>c \<in> set (d @ eol). \<not> data_end quoted xml c" "\<forall>c \<in> set eol. is_eol c"
    and tail: "tail = [] \<or> data_end quoted xml (hd tail)"
  shows "token_data xml (sp @ (if quoted then [0x22] else []) @ d @ eol @ tail) = Some d"
proof -
  define s where "s = (if quoted then [0x22] else []) @ d @ eol @ tail"
  have skip: "skip_wspace (sp @ s) = s"
    using sp q(1,2) by (cases quoted) (simp_all add: skip_wspace_id s_def starts_data_def)
  have quote: "(s \<noteq> [] \<and> hd s = 0x22) = quoted" "skip_char 0x22 s = d @ eol @ tail"
    using q(1,2) by (auto simp: s_def starts_data_def skip_char_def)
  have "takeWhile (\<lambda>c. c \<noteq> 0x22 \<and> c \<noteq> 0x3C \<or> c = 0x22 \<and> \<not> quoted \<or> c = 0x3C \<and> \<not> xml) ((d @ eol) @ tail) = d @ eol"
    using body(1) tail by (intro takeWhile_end) (auto simp: data_end_def)
  then show ?thesis
    using strip_eol [OF body(2) q(2,3)] q(2) unfolding token_data_def Let_def s_def [symmetric] skip quote by simp
qed

lemma token_dataE:
  assumes "token_data xml s = Some d"
  obtains sp quoted eol tail where
    "s = sp @ (if quoted then [0x22] else []) @ d @ eol @ tail" "\<forall>c \<in> set sp. is_wspace c" "starts_data quoted d"
    "\<forall>c \<in> set (d @ eol). \<not> data_end quoted xml c" "\<forall>c \<in> set eol. is_eol c" "d \<noteq> []" "\<not> is_eol (last d)"
    "tail = [] \<or> data_end quoted xml (hd tail)"
proof -
  obtain sp where sp: "s = sp @ skip_wspace s" "\<forall>c \<in> set sp. is_wspace c"
    "skip_wspace s = [] \<or> \<not> is_wspace (hd (skip_wspace s))"
    by (rule skip_wspaceE)
  define t where "t = skip_wspace s"
  define quoted where "quoted = (t \<noteq> [] \<and> hd t = 0x22)"
  define P :: "u16 \<Rightarrow> bool" where "P = (\<lambda>c. c \<noteq> 0x22 \<and> c \<noteq> 0x3C \<or> c = 0x22 \<and> \<not> quoted \<or> c = 0x3C \<and> \<not> xml)"
  define u where "u = skip_char 0x22 t"
  have P: "P c \<longleftrightarrow> \<not> data_end quoted xml c" for c
    by (auto simp: P_def data_end_def)
  have d: "d = rev (dropWhile is_eol (rev (takeWhile P u)))" "d \<noteq> []"
    using assms by (auto simp: token_data_def Let_def t_def quoted_def P_def u_def split: if_splits)
  obtain eol where eol: "takeWhile P u = d @ eol" "\<forall>c \<in> set eol. is_eol c" "\<not> is_eol (last d)"
    using strip_eolE [of "takeWhile P u"] d by metis
  have t: "t = (if quoted then [0x22] else []) @ u"
    by (cases t) (auto simp: quoted_def u_def skip_char_def)
  have u: "u = d @ eol @ dropWhile P u" using eol(1) takeWhile_dropWhile_id [of P u] by simp
  have "starts_data quoted d"
  proof (cases quoted)
    case False
    then have "hd t = hd d" "t \<noteq> []" using t d(2) by (simp, subst u, simp) (use False t d(2) u in auto)
    then show ?thesis using False sp(3) by (simp add: starts_data_def quoted_def t_def)
  qed (simp add: starts_data_def)
  moreover have "dropWhile P u = [] \<or> data_end quoted xml (hd (dropWhile P u))"
    using hd_dropWhile [of P u] P by blast
  moreover have "\<forall>c \<in> set (d @ eol). \<not> data_end quoted xml c"
    using eol(1) set_takeWhileD [of _ P u] P by metis
  moreover have "s = sp @ (if quoted then [0x22] else []) @ d @ eol @ dropWhile P u"
    using sp(1) arg_cong2 [OF t refl, of "\<lambda>x y. sp @ x"] u unfolding t_def [symmetric] by (simp only:)
  ultimately show thesis using that [of sp quoted eol "dropWhile P u"] sp(2) eol d(2) by blast
qed

lemma get_token_data_lineE:
  assumes g: "get_token_data_line tok line = Some d"
  shows "token_line tok d line"
proof -
  obtain sp1 where sp1: "line = sp1 @ skip_wspace line" "\<forall>c \<in> set sp1. is_wspace c" by (rule skip_wspaceE)
  define a where "a = skip_char 0x3C (skip_wspace line)"
  obtain sp2 where sp2: "a = sp2 @ skip_wspace a" "\<forall>c \<in> set sp2. is_wspace c" by (rule skip_wspaceE)
  define lt :: wstring where "lt = (if skip_wspace line \<noteq> [] \<and> hd (skip_wspace line) = 0x3C then [0x3C] else [])"
  have lt: "skip_wspace line = lt @ a" by (cases "skip_wspace line") (auto simp: lt_def a_def skip_char_def)
  have lt2: "lt = [] \<and> sp2 = [] \<or> lt = [0x3C]"
  proof (cases "lt = []")
    case True
    then have "a = skip_wspace line" using lt by simp
    then have "skip_wspace a = a" by (simp add: skip_wspace_def dropWhile_idem)
    then show ?thesis using True sp2(1) by simp
  qed (simp add: lt_def split: if_splits)
  define b where "b = skip_wspace a"
  define rest where "rest = drop (length tok) b"
  obtain sp3 where sp3: "rest = sp3 @ skip_wspace rest" "\<forall>c \<in> set sp3. is_wspace c" by (rule skip_wspaceE)
  from g obtain c r where c: "begins_with b tok" "skip_wspace rest = c # r" "c = 0x3D \<or> c = 0x3E" "token_data (c = 0x3E) r = Some d"
    by (auto simp: get_token_data_line_def Let_def a_def b_def rest_def split: if_splits list.splits)
  obtain sp4 quoted eol tail where r:
    "r = sp4 @ (if quoted then [0x22] else []) @ d @ eol @ tail" "\<forall>c \<in> set sp4. is_wspace c" "starts_data quoted d"
    "\<forall>x \<in> set (d @ eol). \<not> data_end quoted (c = 0x3E) x" "\<forall>c \<in> set eol. is_eol c" "d \<noteq> []" "\<not> is_eol (last d)"
    "tail = [] \<or> data_end quoted (c = 0x3E) (hd tail)"
    using token_dataE [OF c(4)] by metis
  have line: "line = sp1 @ lt @ sp2 @ take (length tok) b @ sp3 @ c # sp4 @ (if quoted then [0x22] else []) @ d @ eol @ tail"
    using sp1(1) lt sp2(1) sp3(1) c(2) r(1) append_take_drop_id [of "length tok" b]
    by (metis append.assoc append_Cons b_def rest_def)
  show ?thesis
    unfolding line
    by (rule token_line.intros [where quoted = quoted])
      (use sp1(2) sp2(2) sp3(2) r lt2 c(1,3) in \<open>auto simp: begins_with_def\<close>)
qed

lemma get_token_data_line_form:
  assumes "token_line tok d line" "tok \<noteq> []" "\<not> is_wspace (hd tok)" "hd tok \<noteq> 0x3C"
  shows "get_token_data_line tok line = Some d"
  using assms
proof (induction rule: token_line.induct)
  case (1 sp1 sp2 sp3 sp4 lt tok' tok quote quoted d eol sep tail)
  define rest where "rest = sp3 @ sep # sp4 @ quote @ d @ eol @ tail"
  have len: "length tok' = length tok" using 1(3) by (metis length_map)
  obtain x y where xy: "wlower x = wlower y" "hd tok' = x" "hd tok = y" "tok' \<noteq> []"
    using 1(3,12) by (cases tok; cases tok') auto
  have x: "\<not> is_wspace x" "x \<noteq> 0x3C"
    using xy 1(13,14) wlower_other [of x y] by (auto simp: is_wspace_def)
  have tok': "skip_wspace (tok' @ rest) = tok' @ rest" using x(1) xy(2,4) by (simp add: skip_wspace_id)
  have "skip_wspace (sp1 @ lt @ sp2 @ tok' @ rest) = lt @ sp2 @ tok' @ rest"
    using 1(1,2) tok' by (auto simp: skip_wspace_id)
  moreover have "skip_char 0x3C (lt @ sp2 @ tok' @ rest) = sp2 @ tok' @ rest"
    using 1(2) x(2) xy(2,4) by (auto simp: skip_char_def)
  moreover have "skip_wspace (sp2 @ tok' @ rest) = tok' @ rest" using 1(1) tok' by simp
  moreover have "skip_wspace rest = sep # sp4 @ quote @ d @ eol @ tail"
    using 1(1,11) by (auto simp: rest_def skip_wspace_id)
  moreover have "token_data (sep = 0x3E) (sp4 @ quote @ d @ eol @ tail) = Some d"
    using 1 token_data_form [of sp4 quoted d eol "sep = 0x3E" tail] by simp
  ultimately show ?case
    using 1(3,11) xy(4) len by (auto simp: get_token_data_line_def Let_def begins_with_def rest_def [symmetric])
qed

text \<open>
  C36. \<^verbatim>\<open>get_token_data_line\<close> parses exactly the documented form. For a token that begins neither with a space nor with an angle bracket, the data returned for a
  line are the data of the grammar, and \<^verbatim>\<open>NULL\<close> is returned for a line that the grammar does not derive, with whatever data.
\<close>

theorem get_token_data_line_exact:
  assumes "tok \<noteq> []" "\<not> is_wspace (hd tok)" "hd tok \<noteq> 0x3C"
  shows "get_token_data_line tok line = Some d \<longleftrightarrow> token_line tok d line"
  using assms get_token_data_lineE get_token_data_line_form by blast

theorem get_token_data_line_exact_witness:
  "token_line (map of_char ''label'') (map of_char ''My disk'') (map of_char '' Label = \"My disk\" ; '')"
  using get_token_data_line_exact [of "map of_char ''label''" "map of_char '' Label = \"My disk\" ; ''" "map of_char ''My disk''"]
  by (simp add: get_token_data_line_def token_data_def begins_with_def skip_wspace_def skip_char_def is_wspace_def is_eol_def wlower_def of_char_def)

end
