(* ===== verification/Update_Data.thy ===== *)
theory Update_Data
  imports Text_Tokens
begin

text \<open>
  The update check of \<^verbatim>\<open>src/parser.c\<close>: \<^verbatim>\<open>get_token_data_buffer\<close>, which returns the data of a token in a buffer, and \<^verbatim>\<open>parse_update\<close>, which reads the
  description of a release that has been downloaded, and does not trust it. The conversions \<^verbatim>\<open>utf8_to_wchar\<close> and \<^verbatim>\<open>wchar_to_utf8\<close>, which call Windows, are
  arguments. A buffer is a list of bytes with its terminating zero; the other byte strings are without it.
\<close>

section \<open>The code\<close>

subsection \<open>Tokens in a buffer\<close>

text \<open>A line ends at a line feed or carriage return that is not between braces; what follows it, unless the buffer ends first.\<close>

fun curly_line :: "u32 \<Rightarrow> wstring \<Rightarrow> wstring \<times> wstring option" where
  "curly_line curly_count [] = ([], None)"
| "curly_line curly_count (c # s) =
     (if curly_count = 0 \<and> (c = 0x0A \<or> c = 0x0D) then ([], Some s)
      else case curly_line (if c = 0x7B then curly_count + 1 else if c = 0x7D then curly_count - 1 else curly_count) s of
             (l, rest) \<Rightarrow> (c # l, rest))"

lemma curly_line_shorter: "curly_line k s = (l, Some rest) \<Longrightarrow> length rest < length s"
  by (induction k s arbitrary: l rule: curly_line.induct) (auto split: if_splits prod.splits)

function buffer_loop :: "wstring \<Rightarrow> u32 \<Rightarrow> u32 \<Rightarrow> wstring option \<Rightarrow> wstring \<Rightarrow> wstring option" where
  "buffer_loop wtoken n j wdata s =
     (if j = n then wdata
      else case curly_line 0 s of
             (wline, rest) \<Rightarrow>
               let wdata = get_token_data_line wtoken wline;
                   j = (if wdata \<noteq> None then j + 1 else j)
               in case rest of None \<Rightarrow> wdata | Some s' \<Rightarrow> buffer_loop wtoken n j wdata s')"
  by pat_completeness auto
termination by (relation "measure (\<lambda>(wtoken, n, j, wdata, s). length s)") (auto intro: curly_line_shorter [OF sym])

declare buffer_loop.simps [simp del]

definition get_token_data_buffer ::
    "(bytes \<Rightarrow> wstring option) \<Rightarrow> (wstring \<Rightarrow> bytes option) \<Rightarrow> bytes \<Rightarrow> u32 \<Rightarrow> bytes \<Rightarrow> bytes option" where
  "get_token_data_buffer utf8_to_wchar wchar_to_utf8 token n buffer =
     (if length buffer \<le> 4 \<or> length buffer > 65536 \<or> last buffer \<noteq> 0 then None
      else case (utf8_to_wchar (takeWhile (\<lambda>c. c \<noteq> 0) buffer), utf8_to_wchar token) of
             (Some wbuffer, Some wtoken) \<Rightarrow>
               (case buffer_loop wtoken n 0 None wbuffer of None \<Rightarrow> None | Some wdata \<Rightarrow> wchar_to_utf8 wdata)
           | _ \<Rightarrow> None)"

fun newline_escapes :: "bytes \<Rightarrow> bytes" where
  "newline_escapes (a # b # s) =
     (if a = 0x5C \<and> b = 0x6E then 0x0D # 0x0A # newline_escapes s else a # newline_escapes (b # s))"
| "newline_escapes s = s"

definition get_sanitized_token_data_buffer ::
    "(bytes \<Rightarrow> wstring option) \<Rightarrow> (wstring \<Rightarrow> bytes option) \<Rightarrow> bytes \<Rightarrow> u32 \<Rightarrow> bytes \<Rightarrow> bytes option" where
  "get_sanitized_token_data_buffer utf8_to_wchar wchar_to_utf8 token n buffer =
     map_option newline_escapes (get_token_data_buffer utf8_to_wchar wchar_to_utf8 token n buffer)"

subsection \<open>The description of a release\<close>

record rufus_update =
  update_version :: "u16 list"
  platform_min :: "u32 list"
  download_url :: "bytes option"
  release_notes :: "bytes option"

definition allowed_rtf_chars :: bytes where
  "allowed_rtf_chars = map of_char ''abcdefghijklmnopqrstuvwxyz|~-_:*'' @ [0x27]"

definition allowed_std_chars :: bytes where
  "allowed_std_chars = [0x0D, 0x0A] @ map of_char '' ABCDEFGHIJKLMNOPQRSTUVWXYZ0123456789!'' @ [0x22] @ map of_char ''$%^&+=<>(){}[].,;#@/?''"

text \<open>\<^verbatim>\<open>strchr\<close>, which also finds the terminating zero.\<close>

definition strchr :: "bytes \<Rightarrow> byte \<Rightarrow> bool" where
  "strchr s c \<longleftrightarrow> c = 0 \<or> c \<in> set s"

fun sanitize_update :: "bytes \<Rightarrow> bytes" where
  "sanitize_update [] = []"
| "sanitize_update (c # s) =
     (if c = 0x5C then if strchr allowed_rtf_chars (if s = [] then 0 else hd s) then c else 0x20
      else if \<not> strchr allowed_rtf_chars c \<and> \<not> strchr allowed_std_chars c then 0x20 else c) # sanitize_update s"

text \<open>The tokens that \<^verbatim>\<open>strtok\<close> returns with the delimiter \<^verbatim>\<open>"."\<close>.\<close>

fun dot_tokens :: "bytes \<Rightarrow> bytes \<Rightarrow> bytes list" where
  "dot_tokens acc [] = (if acc = [] then [] else [acc])"
| "dot_tokens acc (c # s) =
     (if c = 0x2E then (if acc = [] then [] else [acc]) @ dot_tokens [] s else dot_tokens (acc @ [c]) s)"

definition GetArchName :: "u16 \<Rightarrow> bytes" where
  "GetArchName uArch =
     (if uArch = 0x8664 then map of_char ''x64'' else if uArch = 0x014C then map of_char ''x86''
      else if uArch = 0xAA64 then map of_char ''ARM64'' else if uArch = 0x01C0 then map of_char ''ARM32''
      else map of_char ''Unknown'')"

text \<open>The numbers of a version, stored over those that are there.\<close>

definition version_numbers :: "bytes option \<Rightarrow> u32 list \<Rightarrow> u32 list" where
  "version_numbers data old =
     (case data of
        None \<Rightarrow> old
      | Some s \<Rightarrow> let ns = map atoi (take (length old) (dot_tokens [] s)) in ns @ drop (length ns) old)"

definition parse_update ::
    "(bytes \<Rightarrow> wstring option) \<Rightarrow> (wstring \<Rightarrow> bytes option) \<Rightarrow> u16 \<Rightarrow> bytes \<Rightarrow> rufus_update \<Rightarrow> rufus_update" where
  "parse_update utf8_to_wchar wchar_to_utf8 arch buf update =
     (if length buf < 2 \<or> length buf > 65536 \<or> last buf \<noteq> 0 \<or> buf ! (length buf - 2) = 0x5C then update
      else
        let buf = sanitize_update (takeWhile (\<lambda>c. c \<noteq> 0) buf) @ [0];
            get = (\<lambda>token. get_sanitized_token_data_buffer utf8_to_wchar wchar_to_utf8 token 1 buf);
            download_url_name = map lower_byte (take 23 (map of_char ''download_url_'' @ GetArchName arch));
            url = (case get download_url_name of None \<Rightarrow> get (map of_char ''download_url'') | Some u \<Rightarrow> Some u)
        in \<lparr>update_version = map ucast (version_numbers (get (map of_char ''version'')) [0, 0, 0]),
            platform_min = version_numbers (get (map of_char ''platform_min'')) [5, 2],
            download_url = url,
            release_notes = get (map of_char ''release_notes'')\<rparr>)"

section \<open>What the strings of an update can contain\<close>

text \<open>The conversions between UTF-8 and UTF-16 keep the characters of ASCII.\<close>

definition ascii_conversions :: "(bytes \<Rightarrow> wstring option) \<Rightarrow> (wstring \<Rightarrow> bytes option) \<Rightarrow> bool" where
  "ascii_conversions utf8_to_wchar wchar_to_utf8 \<longleftrightarrow>
     (\<forall>s. (\<forall>c \<in> set s. 0 < c \<and> c < 0x80) \<longrightarrow> utf8_to_wchar s = Some (map ucast s)) \<and>
     (\<forall>w. (\<forall>c \<in> set w. 0 < c \<and> c < 0x80) \<longrightarrow> wchar_to_utf8 w = Some (map ucast w))"

definition update_char :: "byte \<Rightarrow> bool" where
  "update_char c \<longleftrightarrow> c \<in> set allowed_rtf_chars \<or> c \<in> set allowed_std_chars \<or> c = 0x5C"

definition update_ok :: "rufus_update \<Rightarrow> bool" where
  "update_ok u \<longleftrightarrow> length (update_version u) = 3 \<and> length (platform_min u) = 2 \<and>
     (\<forall>s. download_url u = Some s \<or> release_notes u = Some s \<longrightarrow> (\<forall>c \<in> set s. update_char c))"

lemma update_char_ascii: "update_char c \<Longrightarrow> 0 < c \<and> c < 0x80"
proof -
  have "\<forall>c \<in> set allowed_rtf_chars \<union> set allowed_std_chars \<union> {0x5C}. 0 < c \<and> c < 0x80"
    by (simp add: allowed_rtf_chars_def allowed_std_chars_def of_char_def)
  then show "update_char c \<Longrightarrow> 0 < c \<and> c < 0x80" by (auto simp: update_char_def)
qed

lemma update_char_simps [simp]: "update_char 0x20" "update_char 0x0D" "update_char 0x0A" "update_char 0x5C"
  by (simp_all add: update_char_def allowed_std_chars_def of_char_def)

lemma sanitize_update_chars: "0 \<notin> set s \<Longrightarrow> c \<in> set (sanitize_update s) \<Longrightarrow> update_char c"
  using update_char_simps(1) unfolding update_char_def by (induction s) (auto simp: strchr_def split: if_splits)

lemma length_sanitize_update [simp]: "length (sanitize_update s) = length s"
  by (induction s) simp_all

lemma newline_escapes_chars: "c \<in> set (newline_escapes s) \<Longrightarrow> c \<in> set s \<union> {0x0D, 0x0A}"
  by (induction s rule: newline_escapes.induct) (auto split: if_splits)

lemma get_token_data_line_chars: "get_token_data_line tok line = Some d \<Longrightarrow> set d \<subseteq> set line"
  by (drule get_token_data_lineE, induction rule: token_line.induct) auto

lemma curly_line_chars: "curly_line k s = (l, rest) \<Longrightarrow> set l \<subseteq> set s \<and> (\<forall>r. rest = Some r \<longrightarrow> set r \<subseteq> set s)"
  by (induction k s arbitrary: l rule: curly_line.induct) (fastforce split: if_splits prod.splits)+

lemma buffer_loop_chars:
  "\<forall>d. wdata = Some d \<longrightarrow> set d \<subseteq> A \<Longrightarrow> set s \<subseteq> A \<Longrightarrow> buffer_loop wtoken n j wdata s = Some d \<Longrightarrow> set d \<subseteq> A"
proof (induction wtoken n j wdata s rule: buffer_loop.induct)
  case (1 wtoken n j wdata s)
  obtain wline rest where l: "curly_line 0 s = (wline, rest)" by fastforce
  have sub: "set wline \<subseteq> A" "\<And>r. rest = Some r \<Longrightarrow> set r \<subseteq> A" using curly_line_chars [OF l] 1(3) by auto
  have data: "\<forall>d. get_token_data_line wtoken wline = Some d \<longrightarrow> set d \<subseteq> A" using get_token_data_line_chars sub(1) by blast
  show ?case
  proof (cases "j = n")
    case False
    then show ?thesis
      using 1(4) l data sub(2) 1(1) [OF False l [symmetric] refl refl]
      by (cases rest) (auto simp: buffer_loop.simps [of wtoken n j] Let_def)
  next
    case True
    then show ?thesis using 1(2,4) by (subst (asm) buffer_loop.simps) simp
  qed
qed

lemma unat_widen: "unat (ucast (b :: byte) :: u16) = unat b"
  using unsigned_less [of b, where 'a = nat] by (simp add: unsigned_ucast_eq take_bit_nat_eq_self unsigned_take_bit_eq)

lemma ucast_widen [simp]: "ucast (ucast (b :: byte) :: u16) = b"
  using unsigned_less [of b, where 'a = nat] by (simp add: word_unat_eq_iff unsigned_ucast_eq take_bit_nat_eq_self take_bit_word_eq_self)

lemma get_sanitized_chars:
  assumes conv: "ascii_conversions utf8_to_wchar wchar_to_utf8" and s: "\<forall>c \<in> set s. update_char c"
    and get: "get_sanitized_token_data_buffer utf8_to_wchar wchar_to_utf8 token n (s @ [0]) = Some d" and c: "c \<in> set d"
  shows "update_char c"
proof -
  have ascii: "\<forall>c \<in> set s. 0 < c \<and> c < 0x80" using s update_char_ascii by blast
  then have "takeWhile (\<lambda>c. c \<noteq> 0) (s @ [0]) = s" by (intro takeWhile_stop) auto
  then obtain wtoken w d' where w: "buffer_loop wtoken n 0 None (map ucast s) = Some w" "wchar_to_utf8 w = Some d'" "d = newline_escapes d'"
    using get conv ascii
    by (auto simp: get_sanitized_token_data_buffer_def get_token_data_buffer_def ascii_conversions_def split: if_splits option.splits)
  have sub: "set w \<subseteq> ucast ` set s" using buffer_loop_chars [OF _ _ w(1), of "ucast ` set s"] by simp
  have "\<forall>c \<in> set w. 0 < c \<and> c < 0x80"
  proof
    fix c assume "c \<in> set w"
    then obtain b where "c = ucast b" "b \<in> set s" using sub by auto
    then show "0 < c \<and> c < 0x80" using ascii by (auto simp: word_less_nat_alt unat_widen)
  qed
  then have "d' = map ucast w" using w(2) conv by (auto simp: ascii_conversions_def)
  then have "set d' \<subseteq> set s" using sub by (auto simp: ucast_widen)
  then show ?thesis using newline_escapes_chars [of c d'] c w(3) s by auto
qed

lemma length_version_numbers [simp]: "length (version_numbers data old) = length old"
  by (auto simp: version_numbers_def Let_def split: option.split)

text \<open>
  C17. Whatever has been downloaded, \<^verbatim>\<open>parse_update\<close> keeps the type of an update: three and two version numbers, and an address and release notes that consist of the
  characters the code allows, all of them ASCII, and backslashes.
\<close>

theorem parse_update_type:
  assumes "ascii_conversions utf8_to_wchar wchar_to_utf8" "update_ok update"
  shows "update_ok (parse_update utf8_to_wchar wchar_to_utf8 arch buf update)"
proof (cases "length buf < 2 \<or> length buf > 65536 \<or> last buf \<noteq> 0 \<or> buf ! (length buf - 2) = 0x5C")
  case False
  define s where "s = sanitize_update (takeWhile (\<lambda>c. c \<noteq> 0) buf)"
  have "0 \<notin> set (takeWhile (\<lambda>c. c \<noteq> 0) buf)" by (auto dest: set_takeWhileD)
  then have "\<forall>c \<in> set s. update_char c" using sanitize_update_chars by (auto simp: s_def)
  note chars = get_sanitized_chars [OF assms(1) this]
  show ?thesis
    unfolding update_ok_def parse_update_def Let_def s_def [symmetric] using False chars
    by (auto split: option.splits)
qed (use assms(2) in \<open>auto simp: parse_update_def\<close>)

definition no_update :: rufus_update where
  "no_update = \<lparr>update_version = [0, 0, 0], platform_min = [5, 2], download_url = None, release_notes = None\<rparr>"

lemma plain_conversions: "ascii_conversions (\<lambda>s. Some (map ucast s)) (\<lambda>w. Some (map ucast w))"
  by (simp add: ascii_conversions_def)

theorem parse_update_type_witness:
  "update_ok (parse_update (\<lambda>s. Some (map ucast s)) (\<lambda>w. Some (map ucast w)) 0x8664 (map of_char ''download_url=`http://x`'' @ [0]) no_update)"
  by (rule parse_update_type [OF plain_conversions]) (simp add: update_ok_def no_update_def)

section \<open>Reading a release\<close>

text \<open>Text that the sanitization keeps: the allowed characters, and backslashes that begin a sequence of the rich text format.\<close>

fun rtf_clean :: "bytes \<Rightarrow> bool" where
  "rtf_clean [] = True"
| "rtf_clean (c # s) =
     ((if c = 0x5C then s \<noteq> [] \<and> hd s \<in> set allowed_rtf_chars else c \<in> set allowed_rtf_chars \<or> c \<in> set allowed_std_chars) \<and> rtf_clean s)"

lemma rtf_clean_append: "rtf_clean a \<Longrightarrow> rtf_clean b \<Longrightarrow> rtf_clean (a @ b)"
  by (induction a) auto

lemma rtf_clean_chars: "rtf_clean s \<Longrightarrow> \<forall>c \<in> set s. update_char c"
  by (induction s) (auto simp: update_char_def split: if_splits)

lemma sanitize_update_clean: "rtf_clean s \<Longrightarrow> sanitize_update s = s"
  by (induction s) (auto simp: strchr_def)

lemma backslash_not_allowed: "0x5C \<notin> set allowed_rtf_chars" "0 \<notin> set allowed_rtf_chars" "0x20 \<in> set allowed_std_chars"
  by (simp_all add: allowed_rtf_chars_def allowed_std_chars_def of_char_def)

lemma rtf_clean_sanitize: "0 \<notin> set s \<Longrightarrow> s = [] \<or> last s \<noteq> 0x5C \<Longrightarrow> rtf_clean (sanitize_update s)"
proof (induction s)
  case (Cons c s)
  then show ?case
    using backslash_not_allowed by (cases s) (auto simp: strchr_def split: if_splits)
qed simp

text \<open>
  The check for a backslash before the terminating zero looks at the end of the buffer, and the sanitization stops at the first zero: a backslash before an earlier zero
  is kept, since \<^verbatim>\<open>strchr\<close> finds the zero that follows it.
\<close>

lemma backslash_before_zero_kept:
  "sanitize_update (takeWhile (\<lambda>c. c \<noteq> 0) [0x61, 0x5C, 0, 0x61, 0]) = [0x61, 0x5C]" "\<not> rtf_clean [0x61, 0x5C]"
  by (simp_all add: strchr_def allowed_rtf_chars_def)

text \<open>A value in one line, or in several lines between braces.\<close>

fun closes :: "nat \<Rightarrow> bytes \<Rightarrow> bool" where
  "closes k [] \<longleftrightarrow> k = 0"
| "closes k (c # s) \<longleftrightarrow>
     \<not> (k = 0 \<and> (c = 0x0A \<or> c = 0x0D)) \<and>
     (if c = 0x7B then closes (k + 1) s else if c = 0x7D then 0 < k \<and> closes (k - 1) s else closes k s)"

definition brace_free :: "bytes \<Rightarrow> bool" where
  "brace_free s \<longleftrightarrow> set s \<inter> {0x0A, 0x0D, 0x7B, 0x7D} = {}"

lemma closes_brace_free: "brace_free a \<Longrightarrow> closes 0 b \<Longrightarrow> closes 0 (a @ b)"
  by (induction a) (auto simp: brace_free_def)

lemma widen_eq:
  "ucast (c :: byte) = (0x0A :: u16) \<longleftrightarrow> c = 0x0A" "ucast c = (0x0D :: u16) \<longleftrightarrow> c = 0x0D" "ucast c = (0x7B :: u16) \<longleftrightarrow> c = 0x7B"
  "ucast c = (0x7D :: u16) \<longleftrightarrow> c = 0x7D" "ucast c = (0x20 :: u16) \<longleftrightarrow> c = 0x20" "ucast c = (0x09 :: u16) \<longleftrightarrow> c = 0x09"
  "ucast c = (0x22 :: u16) \<longleftrightarrow> c = 0x22"
  by (auto simp: word_unat_eq_iff unat_widen)

lemma curly_line_closes:
  "closes k l \<Longrightarrow> k + length l < 2 ^ 32 \<Longrightarrow> curly_line (of_nat k) (map ucast l @ 0x0A # s) = (map ucast l, Some s)"
proof (induction k l rule: closes.induct)
  case (2 k c l)
  define k' where "k' = (if c = 0x7B then k + 1 else if c = 0x7D then k - 1 else k)"
  have open0: "(of_nat k :: u32) = 0 \<longleftrightarrow> k = 0"
    using 2(5) by (simp add: word_unat_eq_iff unsigned_of_nat take_bit_nat_eq_self)
  have "curly_line (of_nat k') (map ucast l @ 0x0A # s) = (map ucast l, Some s)"
  proof (cases "c = 0x7B \<or> c = 0x7D")
    case True
    then show ?thesis using 2(1,2,4,5) by (auto simp: k'_def simp del: of_nat_add of_nat_Suc)
  next
    case False
    then show ?thesis using 2(3,4,5) by (simp add: k'_def)
  qed
  moreover have "(if c = 0x7B then of_nat k + 1 else if c = 0x7D then of_nat k - 1 else of_nat k) = (of_nat k' :: u32)"
    using 2(4) by (auto simp: k'_def of_nat_diff)
  moreover have "\<not> (k = 0 \<and> (c = 0x0A \<or> c = 0x0D))" using 2(4) by simp
  ultimately show ?case by (auto simp: widen_eq open0 split: if_splits)
qed simp

lemma buffer_loop_line:
  assumes "closes 0 l" "length l < 2 ^ 32"
  shows "buffer_loop tok 1 0 None (map ucast l @ 0x0A # s) =
    (case get_token_data_line tok (map ucast l) of None \<Rightarrow> buffer_loop tok 1 0 None s | Some d \<Rightarrow> Some d)"
  using curly_line_closes [OF assms(1), of s] assms(2)
  by (subst buffer_loop.simps) (auto simp: Let_def buffer_loop.simps [of tok 1 1] split: option.split)

lemma buffer_loop_Nil: "buffer_loop tok 1 0 None [] = None"
  by (simp add: buffer_loop.simps get_token_data_line_def)

subsection \<open>A release\<close>

definition field_text :: "bytes \<Rightarrow> bytes \<Rightarrow> bytes" where
  "field_text name v = name @ [0x20, 0x3D, 0x20] @ v"

definition value_ok :: "bytes \<Rightarrow> bool" where
  "value_ok v \<longleftrightarrow> v \<noteq> [] \<and> rtf_clean v \<and> closes 0 v \<and> hd v \<notin> {0x20, 0x22} \<and> last v \<notin> {0x0A, 0x0D}"

definition dotted_version :: "nat list \<Rightarrow> bytes" where
  "dotted_version ns = tl (concat (map (\<lambda>n. 0x2E # decimal n) ns))"

definition release_fields :: "nat list \<Rightarrow> nat list \<Rightarrow> bytes \<Rightarrow> bytes \<Rightarrow> bytes list" where
  "release_fields ver plat url notes =
     [field_text (map of_char ''version'') (dotted_version ver), field_text (map of_char ''platform_min'') (dotted_version plat),
      field_text (map of_char ''download_url'') url, field_text (map of_char ''release_notes'') notes]"

definition release_text :: "nat list \<Rightarrow> nat list \<Rightarrow> bytes \<Rightarrow> bytes \<Rightarrow> bytes" where
  "release_text ver plat url notes = concat (map (\<lambda>l. l @ [0x0A]) (release_fields ver plat url notes))"

lemma field_hit:
  assumes "value_ok v" "name \<noteq> []" "hd name \<notin> {0x20, 0x09, 0x3C}"
  shows "get_token_data_line (map ucast name) (map ucast (field_text name v)) = Some (map ucast v)"
proof (rule get_token_data_line_form)
  have v: "hd v \<noteq> 0x09"
  proof
    assume "hd v = 0x09"
    then have "update_char 0x09" using assms(1) rtf_clean_chars by (metis hd_in_set value_ok_def)
    then show False by (simp add: update_char_def allowed_rtf_chars_def allowed_std_chars_def of_char_def)
  qed
  show "token_line (map ucast name) (map ucast v) (map ucast (field_text name v))"
    using token_line.intros [of "[]" "[]" "[0x20]" "[0x20]" "[]" "map ucast name" "map ucast name" "[]" False "map ucast v" "[]" "0x3D" "[]"]
      assms(1) v by (auto simp: field_text_def value_ok_def is_wspace_def starts_data_def data_end_def is_eol_def hd_map last_map widen_eq)
  show "\<not> is_wspace (hd (map ucast name))" "hd (map ucast name) \<noteq> (0x3C :: u16)"
    using assms(2,3) by (auto simp: hd_map is_wspace_def widen_eq word_unat_eq_iff unat_widen)
qed (use assms(2) in simp)

lemma field_miss:
  assumes "begins_with (map ucast (field_text name v)) tok = False" "name \<noteq> []" "hd name \<notin> {0x20, 0x09, 0x3C}"
  shows "get_token_data_line tok (map ucast (field_text name v)) = None"
proof -
  have "\<not> is_wspace (hd (map ucast (field_text name v)))" "hd (map ucast (field_text name v)) \<noteq> (0x3C :: u16)"
    using assms(2,3) by (auto simp: field_text_def is_wspace_def hd_append hd_map word_unat_eq_iff unat_widen)
  then have "skip_wspace (map ucast (field_text name v)) = map ucast (field_text name v)"
    "skip_char 0x3C (map ucast (field_text name v)) = map ucast (field_text name v)"
    by (simp_all add: skip_wspace_id skip_char_def)
  then show ?thesis using assms(1) by (simp add: get_token_data_line_def)
qed

text \<open>The first field with a name, among fields that do not begin with it.\<close>

lemma buffer_loop_fields:
  assumes "\<forall>l \<in> set ls. closes 0 l \<and> length l < 2 ^ 32 \<and> get_token_data_line tok (map ucast l) = None"
  shows "buffer_loop tok 1 0 None (map ucast (concat (map (\<lambda>l. l @ [0x0A]) ls) @ s)) = buffer_loop tok 1 0 None (map ucast s)"
  using assms
proof (induction ls)
  case (Cons l ls)
  then show ?case using buffer_loop_line [of l tok "map ucast (concat (map (\<lambda>l. l @ [0x0A]) ls) @ s)"] by simp
qed simp

lemma buffer_loop_hit:
  assumes "closes 0 l" "length l < 2 ^ 32" "get_token_data_line tok (map ucast l) = Some d"
  shows "buffer_loop tok 1 0 None (map ucast (l @ 0x0A # s)) = Some d"
  using buffer_loop_line [OF assms(1,2), of tok "map ucast s"] assms(3) by simp

lemma newline_escapes_id: "0x5C \<notin> set s \<Longrightarrow> newline_escapes s = s"
  by (induction s rule: newline_escapes.induct) auto

lemma dot_tokens_last: "0x2E \<notin> set s \<Longrightarrow> acc @ s \<noteq> [] \<Longrightarrow> dot_tokens acc s = [acc @ s]"
  by (induction s arbitrary: acc) auto

lemma dot_tokens_Cons: "0x2E \<notin> set s \<Longrightarrow> acc @ s \<noteq> [] \<Longrightarrow> dot_tokens acc (s @ 0x2E # t) = (acc @ s) # dot_tokens [] t"
  by (induction s arbitrary: acc) auto

lemma decimal_no_dot: "0x2E \<notin> set (decimal n)" "0x5C \<notin> set (decimal n)"
  using decimal_digits [of n] by (auto simp: is_digit_def word_le_nat_alt)

lemma dotted_version_simps:
  "dotted_version [n] = decimal n" "dotted_version (n # m # ns) = decimal n @ 0x2E # dotted_version (m # ns)"
  by (simp_all add: dotted_version_def)

lemma dot_tokens_version: "ns \<noteq> [] \<Longrightarrow> dot_tokens [] (dotted_version ns) = map decimal ns"
proof (induction ns)
  case (Cons n ns)
  then show ?case
    using decimal_no_dot(1) [of n] decimal_not_Nil [of n]
    by (cases ns) (simp_all add: dotted_version_simps dot_tokens_last dot_tokens_Cons)
qed simp

lemma version_numbers_version:
  assumes "length ns = length old" "ns \<noteq> []" "\<forall>n \<in> set ns. n < 2 ^ 31"
  shows "version_numbers (Some (dotted_version ns)) old = map of_nat ns"
  using assms by (simp add: version_numbers_def Let_def dot_tokens_version atoi_decimal)

lemma narrow_of_nat: "n < 2 ^ 16 \<Longrightarrow> ucast (of_nat n :: u32) = (of_nat n :: u16)"
  by (simp add: word_unat_eq_iff unsigned_ucast_eq unsigned_of_nat take_bit_nat_eq_self)

lemma digit_allowed: "is_digit c \<Longrightarrow> c \<in> set allowed_std_chars"
proof -
  assume "is_digit c"
  then have "unat c - 48 < 10" "48 \<le> unat c" by (auto simp: is_digit_def word_le_nat_alt)
  then obtain n where n: "n < 10" "unat c = 48 + n" by (metis le_add_diff_inverse)
  then have "c = of_nat (48 + n)" by (metis ucast_id of_nat_unat)
  moreover have "n \<in> {0, 1, 2, 3, 4, 5, 6, 7, 8, 9}" using n(1) by auto
  ultimately show ?thesis by (elim insertE) (simp_all add: allowed_std_chars_def of_char_def)
qed

lemma value_ok_version: "ns \<noteq> [] \<Longrightarrow> value_ok (dotted_version ns) \<and> 0x5C \<notin> set (dotted_version ns)"
proof -
  assume ns: "ns \<noteq> []"
  have chars: "\<forall>c \<in> set (dotted_version ns). is_digit c \<or> c = 0x2E"
    using ns decimal_digits by (induction ns rule: induct_list012) (auto simp: dotted_version_simps)
  have ne: "dotted_version ns \<noteq> []"
    using ns decimal_not_Nil by (induction ns rule: induct_list012) (auto simp: dotted_version_simps)
  have dot: "0x2E \<in> set allowed_std_chars" by (simp add: allowed_std_chars_def of_char_def)
  have clean: "rtf_clean s" if "\<forall>c \<in> set s. is_digit c \<or> c = 0x2E" for s
    using that dot digit_allowed by (induction s) (auto simp: is_digit_def word_le_nat_alt)
  have "brace_free (dotted_version ns)" using chars by (auto simp: brace_free_def is_digit_def word_le_nat_alt)
  then have "closes 0 (dotted_version ns)" using closes_brace_free [of _ "[]"] by simp
  moreover have "hd (dotted_version ns) \<notin> {0x20, 0x22}" "last (dotted_version ns) \<notin> {0x0A, 0x0D}"
    using chars hd_in_set [OF ne] last_in_set [OF ne] by (auto simp: is_digit_def word_le_nat_alt)
  moreover have "0x5C \<notin> set (dotted_version ns)" using chars by (auto simp: is_digit_def word_le_nat_alt)
  ultimately show ?thesis using clean [OF chars] ne by (simp add: value_ok_def)
qed

text \<open>The sanitized data of a field, given what the loop over the lines finds.\<close>

lemma get_field:
  assumes conv: "ascii_conversions utf8_to_wchar wchar_to_utf8" and s: "rtf_clean s" "length s < 65536" "4 \<le> length s"
    and tok: "\<forall>c \<in> set tok. 0 < c \<and> c < 0x80"
    and loop: "buffer_loop (map ucast tok) 1 0 None (map ucast s) = map_option (map ucast) v" "\<forall>d. v = Some d \<longrightarrow> rtf_clean d"
  shows "get_sanitized_token_data_buffer utf8_to_wchar wchar_to_utf8 tok 1 (s @ [0]) = map_option newline_escapes v"
proof -
  have ascii: "\<forall>c \<in> set s. 0 < c \<and> c < 0x80" using rtf_clean_chars [OF s(1)] update_char_ascii by blast
  then have s0: "takeWhile (\<lambda>c. c \<noteq> 0) (s @ [0]) = s" by (intro takeWhile_stop) auto
  have "wchar_to_utf8 (map ucast d) = Some d" if "v = Some d" for d
  proof -
    have "\<forall>c \<in> set d. 0 < c \<and> c < 0x80" using rtf_clean_chars update_char_ascii loop(2) that by blast
    then have "\<forall>c \<in> set (map ucast d). 0 < c \<and> c < (0x80 :: u16)" by (auto simp: word_less_nat_alt unat_widen)
    then show ?thesis using conv by (simp add: ascii_conversions_def o_def)
  qed
  then show ?thesis
    using conv ascii tok s s0 loop(1)
    by (cases v) (simp_all add: get_sanitized_token_data_buffer_def get_token_data_buffer_def ascii_conversions_def)
qed

lemma begins_with_hd: "tok \<noteq> [] \<Longrightarrow> wlower (hd s) \<noteq> wlower (hd tok) \<Longrightarrow> s \<noteq> [] \<Longrightarrow> begins_with s tok = False"
  by (cases s; cases tok) (auto simp: begins_with_def)

lemma field_closes: "brace_free name \<Longrightarrow> value_ok v \<Longrightarrow> closes 0 (field_text name v)"
  using closes_brace_free [of "name @ [0x20, 0x3D, 0x20]" v] by (simp add: field_text_def brace_free_def value_ok_def)

lemma rtf_clean_field: "rtf_clean name \<Longrightarrow> value_ok v \<Longrightarrow> rtf_clean (field_text name v @ [0x0A])"
  by (simp add: field_text_def value_ok_def rtf_clean_append allowed_std_chars_def of_char_def)

lemma field_names:
  "brace_free (map of_char ''version'') \<and> rtf_clean (map of_char ''version'')" "brace_free (map of_char ''platform_min'') \<and> rtf_clean (map of_char ''platform_min'')"
  "brace_free (map of_char ''download_url'') \<and> rtf_clean (map of_char ''download_url'')" "brace_free (map of_char ''release_notes'') \<and> rtf_clean (map of_char ''release_notes'')"
  by (simp_all add: brace_free_def allowed_rtf_chars_def of_char_def)

lemma arch_token:
  obtains r where "map lower_byte (take 23 (map of_char ''download_url_'' @ GetArchName arch)) = map of_char ''download_url_'' @ r"
    "\<forall>c \<in> set r. 0 < c \<and> c < 0x80"
proof
  show "map lower_byte (take 23 (map of_char ''download_url_'' @ GetArchName arch)) =
      map of_char ''download_url_'' @ map lower_byte (take 10 (GetArchName arch))"
    by (simp add: of_char_def lower_byte_def)
  show "\<forall>c \<in> set (map lower_byte (take 10 (GetArchName arch))). 0 < c \<and> c < 0x80"
    by (simp add: GetArchName_def of_char_def lower_byte_def)
qed

text \<open>The fields of a release: what the loop finds under each name, and nothing under the name for an architecture.\<close>

lemma release_misses:
  defines "miss \<equiv> \<lambda>tok name :: bytes. \<forall>v. get_token_data_line (map ucast (tok :: bytes)) (map ucast (field_text name v)) = None"
  shows "miss (map of_char ''platform_min'') (map of_char ''version'')"
    "miss (map of_char ''release_notes'') (map of_char ''version'')" "miss (map of_char ''release_notes'') (map of_char ''platform_min'')"
    "miss (map of_char ''release_notes'') (map of_char ''download_url'')"
    "miss (map of_char ''download_url'') (map of_char ''version'')" "miss (map of_char ''download_url'') (map of_char ''platform_min'')"
    "miss (map of_char ''download_url_'' @ r) (map of_char ''version'')" "miss (map of_char ''download_url_'' @ r) (map of_char ''platform_min'')"
    "miss (map of_char ''download_url_'' @ r) (map of_char ''release_notes'')" "miss (map of_char ''download_url_'' @ r) (map of_char ''download_url'')"
  unfolding miss_def
  by (rule allI, rule field_miss; simp add: field_text_def begins_with_def of_char_def wlower_def)+

lemma release_get:
  assumes "\<forall>l \<in> set pre. closes 0 l \<and> length l < 2 ^ 32 \<and> get_token_data_line tok (map ucast l) = None"
    "closes 0 l" "length l < 2 ^ 32" "get_token_data_line tok (map ucast l) = Some d"
  shows "buffer_loop tok 1 0 None (map ucast (concat (map (\<lambda>l. l @ [0x0A]) (pre @ l # post)))) = Some d"
  using buffer_loop_fields [OF assms(1), of "concat (map (\<lambda>l. l @ [0x0A]) (l # post))"]
    buffer_loop_hit [OF assms(2-4), of "concat (map (\<lambda>l. l @ [0x0A]) post)"] by simp

lemma release_none:
  assumes "\<forall>l \<in> set ls. closes 0 l \<and> length l < 2 ^ 32 \<and> get_token_data_line tok (map ucast l) = None"
  shows "buffer_loop tok 1 0 None (map ucast (concat (map (\<lambda>l. l @ [0x0A]) ls))) = None"
  using buffer_loop_fields [OF assms, of "[]"] buffer_loop_Nil by simp

definition release_ok :: "nat list \<Rightarrow> nat list \<Rightarrow> bytes \<Rightarrow> bytes \<Rightarrow> bool" where
  "release_ok ver plat url notes \<longleftrightarrow>
     length ver = 3 \<and> (\<forall>n \<in> set ver. n < 2 ^ 16) \<and> length plat = 2 \<and> (\<forall>n \<in> set plat. n < 2 ^ 31) \<and> value_ok url \<and> value_ok notes \<and>
     length (release_text ver plat url notes) < 65536"

lemma release_fields_ok:
  assumes "release_ok ver plat url notes"
  shows "\<forall>l \<in> set (release_fields ver plat url notes). closes 0 l \<and> length l < 2 ^ 32"
    "rtf_clean (release_text ver plat url notes)" "value_ok (dotted_version ver)" "value_ok (dotted_version plat)"
    "4 \<le> length (release_text ver plat url notes)"
proof -
  show v: "value_ok (dotted_version ver)" "value_ok (dotted_version plat)"
    using assms value_ok_version [of ver] value_ok_version [of plat] by (cases ver; cases plat; simp add: release_ok_def)+
  have v2: "value_ok url" "value_ok notes" using assms by (simp_all add: release_ok_def)
  show "rtf_clean (release_text ver plat url notes)"
    using v v2 field_names rtf_clean_field by (simp add: release_text_def release_fields_def rtf_clean_append del: append_assoc)
  have "length l \<le> length (release_text ver plat url notes)" if "l \<in> set (release_fields ver plat url notes)" for l
    using that by (auto simp: release_text_def release_fields_def)
  moreover have "length (release_text ver plat url notes) < 2 ^ 32" using assms by (simp add: release_ok_def)
  moreover have "closes 0 l" if "l \<in> set (release_fields ver plat url notes)" for l
    using that v v2 field_names unfolding release_fields_def set_simps by (elim insertE emptyE) (simp_all only: field_closes)
  ultimately show "\<forall>l \<in> set (release_fields ver plat url notes). closes 0 l \<and> length l < 2 ^ 32"
    by (metis order.strict_trans1)
  show "4 \<le> length (release_text ver plat url notes)" by (simp add: release_text_def release_fields_def field_text_def)
qed

lemma release_lookups:
  assumes "release_ok ver plat url notes"
  defines "looked \<equiv> \<lambda>tok :: bytes. buffer_loop (map ucast tok) 1 0 None (map ucast (release_text ver plat url notes))"
  shows "looked (map of_char ''version'') = Some (map ucast (dotted_version ver))"
    "looked (map of_char ''platform_min'') = Some (map ucast (dotted_version plat))"
    "looked (map of_char ''download_url'') = Some (map ucast url)" "looked (map of_char ''release_notes'') = Some (map ucast notes)"
    "looked (map of_char ''download_url_'' @ r) = None"
proof -
  define f where "f = release_fields ver plat url notes"
  note ok = release_fields_ok [OF assms(1)]
  have v: "value_ok url" "value_ok notes" using assms(1) by (simp_all add: release_ok_def)
  have pre: "\<forall>l \<in> set (take n f). closes 0 l \<and> length l < 2 ^ 32" for n using ok(1) by (auto simp: f_def dest: in_set_takeD)
  have f4: "length f = 4" by (simp add: f_def release_fields_def)
  have split: "f = take n f @ f ! n # drop (Suc n) f" if "n < 4" for n using that f4 by (simp add: id_take_nth_drop)
  have get: "looked tok = Some (map ucast v)"
    if "n < 4" "f ! n = field_text tok v" "value_ok v" "tok \<noteq> []" "hd tok \<notin> {0x20, 0x09, 0x3C}"
      "\<forall>l \<in> set (take n f). get_token_data_line (map ucast tok) (map ucast l) = None" for n tok v
  proof -
    have "closes 0 (f ! n)" "length (f ! n) < 2 ^ 32" using ok(1) that(1) f4 unfolding f_def by (metis nth_mem)+
    then have "buffer_loop (map ucast tok) 1 0 None (map ucast (concat (map (\<lambda>l. l @ [0x0A]) (take n f @ f ! n # drop (Suc n) f)))) = Some (map ucast v)"
      using pre [of n] that field_hit [OF that(3-5)] by (intro release_get) auto
    then show ?thesis using split [OF that(1)] by (simp add: looked_def release_text_def flip: f_def)
  qed
  show "looked (map of_char ''version'') = Some (map ucast (dotted_version ver))"
    by (rule get [of 0]) (use ok(3) in \<open>simp_all add: f_def release_fields_def of_char_def\<close>)
  show "looked (map of_char ''platform_min'') = Some (map ucast (dotted_version plat))"
    by (rule get [of 1]) (use ok(4) release_misses(1) in \<open>simp_all add: f_def release_fields_def of_char_def\<close>)
  show "looked (map of_char ''download_url'') = Some (map ucast url)"
    by (rule get [of 2]) (use v(1) release_misses(5,6) in \<open>simp_all add: f_def release_fields_def of_char_def\<close>)
  show "looked (map of_char ''release_notes'') = Some (map ucast notes)"
    by (rule get [of 3]) (use v(2) release_misses(2-4) in \<open>simp_all add: f_def release_fields_def of_char_def\<close>)
  have "\<forall>l \<in> set f. get_token_data_line (map ucast (map of_char ''download_url_'' @ r)) (map ucast l) = None"
    unfolding f_def release_fields_def using release_misses(7-10) [of r] by (simp del: map_append list.map)
  then show "looked (map of_char ''download_url_'' @ r) = None"
    unfolding looked_def release_text_def by (intro release_none) (use ok(1) in \<open>auto simp: f_def\<close>)
qed

text \<open>
  C16. Reading a published release. The description has a line each for the version, the minimal platform, the address and the release notes, which may extend over several
  lines between braces; the numbers are in decimal notation, the texts use the allowed characters, and the whole fits 64 KB. Then \<^verbatim>\<open>parse_update\<close> stores just these
  values, whatever the architecture and the update before; in the texts, \<^verbatim>\<open>\n\<close> stands for the end of a line.
\<close>

theorem parse_update_release:
  assumes "ascii_conversions utf8_to_wchar wchar_to_utf8" "release_ok ver plat url notes"
  shows "parse_update utf8_to_wchar wchar_to_utf8 arch (release_text ver plat url notes @ [0]) update =
    \<lparr>update_version = map of_nat ver, platform_min = map of_nat plat,
     download_url = Some (newline_escapes url), release_notes = Some (newline_escapes notes)\<rparr>"
proof -
  define s where "s = release_text ver plat url notes"
  note ok = release_fields_ok [OF assms(2)] and looked = release_lookups [OF assms(2)]
  have len: "length s < 65536" "4 \<le> length s" using assms(2) ok(5) by (simp_all add: release_ok_def s_def)
  have "\<forall>c \<in> set s. c \<noteq> 0" using rtf_clean_chars [OF ok(2)] update_char_ascii by (fastforce simp: s_def)
  then have s0: "takeWhile (\<lambda>c. c \<noteq> 0) (s @ [0]) = s" by (intro takeWhile_stop) auto
  have nl: "(s @ [0]) ! (length (s @ [0]) - 2) = 0x0A"
    using len(2) by (simp add: s_def release_text_def release_fields_def nth_append)
  define get where "get = (\<lambda>token. get_sanitized_token_data_buffer utf8_to_wchar wchar_to_utf8 token 1 (s @ [0]))"
  have get_app: "get_sanitized_token_data_buffer utf8_to_wchar wchar_to_utf8 token 1 (s @ [0]) = get token" for token
    by (simp add: get_def)
  have field: "get tok = map_option newline_escapes v"
    if "\<forall>c \<in> set tok. 0 < c \<and> c < 0x80" "buffer_loop (map ucast tok) 1 0 None (map ucast s) = map_option (map ucast) v"
      "\<forall>d. v = Some d \<longrightarrow> value_ok d" for tok v
    unfolding get_def using that len ok(2) by (intro get_field [OF assms(1)]) (auto simp: s_def value_ok_def)
  have v: "value_ok url" "value_ok notes" using assms(2) by (simp_all add: release_ok_def)
  have "get (map of_char ''version'') = Some (newline_escapes (dotted_version ver))"
    using field [of "map of_char ''version''" "Some (dotted_version ver)"] looked(1) ok(3) by (simp add: s_def of_char_def)
  moreover have "get (map of_char ''platform_min'') = Some (newline_escapes (dotted_version plat))"
    using field [of "map of_char ''platform_min''" "Some (dotted_version plat)"] looked(2) ok(4) by (simp add: s_def of_char_def)
  moreover have "get (map of_char ''download_url'') = Some (newline_escapes url)"
    using field [of "map of_char ''download_url''" "Some url"] looked(3) v(1) by (simp add: s_def of_char_def)
  moreover have "get (map of_char ''release_notes'') = Some (newline_escapes notes)"
    using field [of "map of_char ''release_notes''" "Some notes"] looked(4) v(2) by (simp add: s_def of_char_def)
  moreover have "get (map lower_byte (take 23 (map of_char ''download_url_'' @ GetArchName arch))) = None"
  proof -
    obtain r where r: "map lower_byte (take 23 (map of_char ''download_url_'' @ GetArchName arch)) = map of_char ''download_url_'' @ r"
      "\<forall>c \<in> set r. 0 < c \<and> c < 0x80" by (rule arch_token)
    have "\<forall>c \<in> set (map of_char ''download_url_''). 0 < c \<and> c < (0x80 :: byte)" by (simp add: of_char_def)
    then show ?thesis
      unfolding r(1) using field [of "map of_char ''download_url_'' @ r" None] looked(5) [of r] r(2) by (auto simp: s_def simp del: map_append list.map)
  qed
  moreover have "ver \<noteq> []" "plat \<noteq> []" "length ver = 3" "length plat = 2" using assms(2) by (auto simp: release_ok_def)
  moreover have "\<forall>n \<in> set ver. n < 2 ^ 31" "\<forall>n \<in> set plat. n < 2 ^ 31" using assms(2) by (auto simp: release_ok_def)
  moreover have "newline_escapes (dotted_version ver) = dotted_version ver" "newline_escapes (dotted_version plat) = dotted_version plat"
    using value_ok_version calculation(6,7) by (simp_all add: newline_escapes_id)
  moreover have "map ucast (map of_nat ver :: u32 list) = (map of_nat ver :: u16 list)"
    using assms(2) by (auto simp: release_ok_def narrow_of_nat)
  moreover have guard: "(length (s @ [0]) < 2 \<or> length (s @ [0]) > 65536 \<or> last (s @ [0]) \<noteq> 0 \<or> (s @ [0]) ! (length (s @ [0]) - 2) = 0x5C) = False"
    unfolding nl using len by auto
  ultimately show ?thesis
    unfolding s_def [symmetric] parse_update_def Let_def s0 sanitize_update_clean [OF ok(2), folded s_def] get_app guard
    using version_numbers_version [of ver "[0, 0, 0]"] version_numbers_version [of plat "[5, 2]"] by simp
qed

theorem parse_update_release_witness:
  "parse_update (\<lambda>s. Some (map ucast s)) (\<lambda>w. Some (map ucast w)) 0x8664
     (release_text [4, 5, 2180] [6, 1] (map of_char ''https://rufus.ie'') (map of_char ''{fixes'' @ [0x0A] @ map of_char ''bugs}'') @ [0]) no_update =
    \<lparr>update_version = [4, 5, 2180], platform_min = [6, 1],
     download_url = Some (map of_char ''https://rufus.ie''), release_notes = Some (map of_char ''{fixes'' @ [0x0A] @ map of_char ''bugs}'')\<rparr>"
proof -
  have "value_ok (map of_char ''https://rufus.ie'')" "value_ok (map of_char ''{fixes'' @ [0x0A] @ map of_char ''bugs}'')"
    by (simp_all add: value_ok_def of_char_def allowed_rtf_chars_def allowed_std_chars_def)
  moreover have "length (release_text [4, 5, 2180] [6, 1] (map of_char ''https://rufus.ie'') (map of_char ''{fixes'' @ [0x0A] @ map of_char ''bugs}'')) < 65536"
    by (simp add: release_text_def release_fields_def field_text_def dotted_version_def decimal.simps)
  ultimately have "release_ok [4, 5, 2180] [6, 1] (map of_char ''https://rufus.ie'') (map of_char ''{fixes'' @ [0x0A] @ map of_char ''bugs}'')"
    by (simp add: release_ok_def)
  from parse_update_release [OF plain_conversions this, of "0x8664" no_update]
  show ?thesis by (simp add: newline_escapes_id of_char_def)
qed

section \<open>Corner cases of the buffer search\<close>

text \<open>
  If the last line of the buffer has the token, its data are returned even where there are fewer occurrences than asked for; and a closing brace without an opening one makes
  the counter wrap around, so that the following lines are not seen.
\<close>

lemma missing_occurrence_returned:
  "get_token_data_buffer (\<lambda>s. Some (map ucast s)) (\<lambda>w. Some (map ucast w)) (map of_char ''a'') 2 (map of_char ''a=10'' @ [0]) = Some (map of_char ''10'')"
  by (simp add: get_token_data_buffer_def buffer_loop.simps get_token_data_line_def token_data_def begins_with_def skip_wspace_def skip_char_def
      is_wspace_def is_eol_def wlower_def of_char_def)

lemma unbalanced_brace_hides_lines:
  "curly_line 0 (map of_char ''}'' @ [0x0A] @ map of_char ''a=10'') = (map of_char ''}'' @ [0x0A] @ map of_char ''a=10'', None)"
  by (simp add: of_char_def)

end
