(* ===== verification/Text_Files.thy ===== *)
theory Text_Files
  imports Text_Tokens
begin

text \<open>
  The functions of \<^verbatim>\<open>src/parser.c\<close> that read and rewrite configuration files: \<^verbatim>\<open>get_token_data_file_indexed\<close>, \<^verbatim>\<open>set_token_data_file\<close>, \<^verbatim>\<open>insert_section_data\<close>
  and \<^verbatim>\<open>replace_in_token_data\<close>. They open a file as text, so the C library decodes it, and write a temporary file in the encoding they have found, which they then copy
  over the original. Each takes the contents of the original and returns whether it was rewritten and the contents afterwards. The conversions \<^verbatim>\<open>utf8_to_wchar\<close> and \<^verbatim>\<open>wchar_to_utf8\<close>, which call Windows, and the encoder of the C library are arguments;
  the text of a file is what its decoder delivers. Pointers that are \<^verbatim>\<open>NULL\<close> are not modelled, nor are failing writes, which the code does not detect.
\<close>

section \<open>The code\<close>

subsection \<open>Lines\<close>

text \<open>The lines that \<^verbatim>\<open>fgetws\<close> reads into a buffer of 1024 characters, each up to its first zero.\<close>

definition fgetws_length :: "wstring \<Rightarrow> nat" where
  "fgetws_length s = min 1023 (length (takeWhile (\<lambda>c. c \<noteq> 0x0A) s) + 1)"

function file_lines :: "wstring \<Rightarrow> wstring list" where
  "file_lines s =
     (if s = [] then []
      else takeWhile (\<lambda>c. c \<noteq> 0) (take (fgetws_length s) s) # file_lines (drop (fgetws_length s) s))"
  by pat_completeness auto
termination by (relation "measure length") (auto simp: fgetws_length_def)

declare file_lines.simps [simp del]

fun nth_data :: "wstring \<Rightarrow> int \<Rightarrow> int \<Rightarrow> wstring list \<Rightarrow> wstring option" where
  "nth_data wtoken index i [] = None"
| "nth_data wtoken index i (buf # ls) =
     (case get_token_data_line wtoken buf of
        None \<Rightarrow> nth_data wtoken index i ls
      | Some wdata \<Rightarrow> if i + 1 = index then Some wdata else nth_data wtoken index (i + 1) ls)"

definition get_token_data_file_indexed ::
    "(bytes \<Rightarrow> wstring option) \<Rightarrow> (wstring \<Rightarrow> bytes option) \<Rightarrow> wstring option \<Rightarrow> bytes \<Rightarrow> bytes \<Rightarrow> int \<Rightarrow> bytes option" where
  "get_token_data_file_indexed utf8_to_wchar wchar_to_utf8 file token filename index =
     (if filename = [] \<or> token = [] then None
      else case (utf8_to_wchar filename, utf8_to_wchar token, file) of
             (Some _, Some wtoken, Some t) \<Rightarrow>
               (case nth_data wtoken index 0 (file_lines t) of None \<Rightarrow> None | Some wdata \<Rightarrow> wchar_to_utf8 wdata)
           | _ \<Rightarrow> None)"

subsection \<open>Rewriting a file\<close>

text \<open>
  What the functions meet outside: the source file, if it can be opened, as the first character that \<^verbatim>\<open>fread\<close> delivers and the text; whether the temporary name can
  be allocated, the temporary file created, and both files opened again for the copy.
\<close>

record text_io =
  in_file :: "(u16 option \<times> wstring) option"
  tmp_name :: bool
  tmp_open :: bool
  back_in :: bool
  back_out :: bool

definition out_mode :: "u16 \<Rightarrow> nat" where
  "out_mode bom = (if bom = 0xFEFF then 2 else if bom = 0xBBEF then 1 else 0)"

definition copy_units :: "bool \<Rightarrow> nat \<Rightarrow> bytes \<Rightarrow> bytes" where
  "copy_units dos2unix sz bs = concat (filter (\<lambda>tmp. \<not> dos2unix \<or> hd tmp \<noteq> 0x0D) (chunks sz bs))"

text \<open>
  The end of the functions: the temporary file is opened for reading and the original for writing, which empties it, before either of the two is looked at. The last
  argument of \<^verbatim>\<open>copy_back\<close> and of the functions below is the contents of the original, which they return as they leave it.
\<close>

definition copy_back :: "text_io \<Rightarrow> bool \<Rightarrow> nat \<Rightarrow> bytes \<Rightarrow> bytes \<Rightarrow> bool \<times> bytes" where
  "copy_back io dos2unix mode tmp orig =
     (let orig = (if back_out io then [] else orig)
      in if back_in io \<and> back_out io then (True, orig @ copy_units dos2unix (if mode = 2 then 2 else 1) tmp)
         else (False, orig))"

text \<open>The loop over the lines: what \<open>f\<close> writes for each, and whether it has matched one.\<close>

fun edit_lines :: "(wstring \<Rightarrow> wstring \<times> bool) \<Rightarrow> wstring list \<Rightarrow> wstring \<times> bool" where
  "edit_lines f [] = ([], False)"
| "edit_lines f (buf # ls) =
     (let (out, ret) = f buf; (out', ret') = edit_lines f ls in (out @ out', ret \<or> ret'))"

definition set_token_line :: "wstring \<Rightarrow> wstring \<Rightarrow> wstring \<Rightarrow> wstring \<times> bool" where
  "set_token_line wtoken wdata buf =
     (let s = skip_wspace buf
      in if s \<noteq> [] \<and> (hd s = 0x3B \<or> hd s = 0x5B) then (buf, False)
         else if \<not> begins_with s wtoken then (buf, False)
         else case skip_wspace (drop (length wtoken) s) of
                [] \<Rightarrow> (buf, False)
              | c # r \<Rightarrow>
                  if c \<noteq> 0x3D then (buf, False)
                  else (take (length buf - length (skip_wspace r)) buf @ wdata @ [0x0A], True))"

definition set_token_data_file ::
    "text_io \<Rightarrow> (bytes \<Rightarrow> wstring option) \<Rightarrow> (nat \<Rightarrow> wstring \<Rightarrow> bytes) \<Rightarrow> bytes \<Rightarrow> bytes \<Rightarrow> bytes \<Rightarrow> bytes \<Rightarrow> bool \<times> bytes" where
  "set_token_data_file io utf8_to_wchar enc token data filename orig =
     (if filename = [] \<or> token = [] \<or> data = [] then (False, orig)
      else case (utf8_to_wchar filename, utf8_to_wchar token, utf8_to_wchar data, in_file io) of
             (Some _, Some wtoken, Some wdata, Some (bom, t)) \<Rightarrow>
               if \<not> tmp_name io \<or> \<not> tmp_open io then (False, orig)
               else
                 let mode = (case bom of None \<Rightarrow> 0 | Some b \<Rightarrow> out_mode b);
                     (out, ret) = edit_lines (set_token_line wtoken wdata) (file_lines t);
                     out = (if ret then out else out @ wtoken @ [0x20, 0x3D, 0x20] @ wdata @ [0x0A])
                 in copy_back io False mode (enc mode out) orig
           | _ \<Rightarrow> (False, orig))"

definition insert_section_line :: "wstring \<Rightarrow> wstring \<Rightarrow> wstring \<Rightarrow> wstring \<times> bool" where
  "insert_section_line wsection wdata buf =
     (if begins_with (skip_wspace buf) wsection then (buf @ wdata @ [0x0A], True) else (buf, False))"

definition insert_section_data ::
    "text_io \<Rightarrow> (bytes \<Rightarrow> wstring option) \<Rightarrow> (nat \<Rightarrow> wstring \<Rightarrow> bytes) \<Rightarrow> bytes \<Rightarrow> bytes \<Rightarrow> bytes \<Rightarrow> bool \<Rightarrow> bytes \<Rightarrow> bool \<times> bytes" where
  "insert_section_data io utf8_to_wchar enc filename section data dos2unix orig =
     (if filename = [] \<or> section = [] \<or> data = [] then (False, orig)
      else case (utf8_to_wchar filename, utf8_to_wchar section, utf8_to_wchar data, in_file io) of
             (Some _, Some wsection, Some wdata, Some (Some bom, t)) \<Rightarrow>
               if \<not> tmp_name io \<or> \<not> tmp_open io then (False, orig)
               else (case edit_lines (insert_section_line wsection wdata) (file_lines t) of
                       (out, True) \<Rightarrow> copy_back io dos2unix (out_mode bom) (enc (out_mode bom) out) orig
                     | (out, False) \<Rightarrow> (False, orig))
           | _ \<Rightarrow> (False, orig))"

text \<open>\<^verbatim>\<open>wcsstr\<close>: the index of the first occurrence of \<open>t\<close> in \<open>s\<close>.\<close>

fun wcsstr :: "wstring \<Rightarrow> wstring \<Rightarrow> nat option" where
  "wcsstr [] t = (if t = [] then Some 0 else None)"
| "wcsstr (c # s) t = (if take (length t) (c # s) = t then Some 0 else map_option Suc (wcsstr s t))"

text \<open>At most \<open>n\<close> occurrences of \<open>wsrc\<close> replaced: what is written, and whether there was one.\<close>

fun replace_occurrences :: "nat \<Rightarrow> wstring \<Rightarrow> wstring \<Rightarrow> wstring \<Rightarrow> wstring \<times> bool" where
  "replace_occurrences 0 wsrc wrep s = (s, False)"
| "replace_occurrences (Suc n) wsrc wrep s =
     (case wcsstr s wsrc of
        None \<Rightarrow> (s, False)
      | Some k \<Rightarrow> (take k s @ wrep @ fst (replace_occurrences n wsrc wrep (drop (k + length wsrc) s)), True))"

definition MAX_OCCURRENCES :: nat where
  "MAX_OCCURRENCES = 4"

definition replace_token_line :: "wstring \<Rightarrow> wstring \<Rightarrow> wstring \<Rightarrow> wstring \<Rightarrow> wstring \<times> bool" where
  "replace_token_line wtoken wsrc wrep buf =
     (let s = skip_wspace buf; r = drop (length wtoken) s; d = skip_wspace r
      in if \<not> begins_with s wtoken \<or> length d = length r then (buf, False)
         else let (out, ret) = replace_occurrences MAX_OCCURRENCES wsrc wrep d
              in (take (length buf - length d) buf @ out, ret))"

definition replace_in_token_data ::
    "text_io \<Rightarrow> (bytes \<Rightarrow> wstring option) \<Rightarrow> (nat \<Rightarrow> wstring \<Rightarrow> bytes) \<Rightarrow> bytes \<Rightarrow> bytes \<Rightarrow> bytes \<Rightarrow> bytes \<Rightarrow> bool \<Rightarrow> bytes \<Rightarrow> bool \<times> bytes" where
  "replace_in_token_data io utf8_to_wchar enc filename token src rep dos2unix orig =
     (if filename = [] \<or> token = [] \<or> src = [] \<or> src = rep then (False, orig)
      else case (utf8_to_wchar filename, utf8_to_wchar token, utf8_to_wchar src, utf8_to_wchar rep, in_file io) of
             (Some _, Some wtoken, Some wsrc, Some wrep, Some (Some bom, t)) \<Rightarrow>
               if \<not> tmp_name io \<or> \<not> tmp_open io then (False, orig)
               else (case edit_lines (replace_token_line wtoken wsrc wrep) (file_lines t) of
                       (out, True) \<Rightarrow> copy_back io dos2unix (out_mode bom) (enc (out_mode bom) out) orig
                     | (out, False) \<Rightarrow> (False, orig))
           | _ \<Rightarrow> (False, orig))"

section \<open>Text files\<close>

text \<open>A text of short lines, each ended by a line feed.\<close>

definition unlines :: "wstring list \<Rightarrow> wstring" where
  "unlines ls = concat (map (\<lambda>l. l @ [0x0A]) ls)"

definition short_line :: "wstring \<Rightarrow> bool" where
  "short_line l \<longleftrightarrow> length l < 1023 \<and> 0 \<notin> set l \<and> 0x0A \<notin> set l"

lemma unlines_simps [simp]: "unlines [] = []" "unlines (l # ls) = l @ 0x0A # unlines ls" "unlines (ls @ ls') = unlines ls @ unlines ls'"
  by (simp_all add: unlines_def)

lemma file_lines_Nil [simp]: "file_lines [] = []"
  by (simp add: file_lines.simps)

lemma file_lines_line: "short_line l \<Longrightarrow> file_lines (l @ 0x0A # s) = (l @ [0x0A]) # file_lines s"
proof -
  assume l: "short_line l"
  have "takeWhile (\<lambda>c. c \<noteq> 0x0A) (l @ 0x0A # s) = l" using l by (intro takeWhile_stop) (auto simp: short_line_def)
  then have n: "fgetws_length (l @ 0x0A # s) = length l + 1" using l by (simp add: fgetws_length_def short_line_def)
  have "takeWhile (\<lambda>c. c \<noteq> 0) (l @ [0x0A]) = l @ [0x0A]" using l by (auto simp: short_line_def takeWhile_eq_all_conv)
  then show ?thesis using n by (subst file_lines.simps) simp
qed

lemma file_lines_unlines: "\<forall>l \<in> set ls. short_line l \<Longrightarrow> file_lines (unlines ls) = map (\<lambda>l. l @ [0x0A]) ls"
  by (induction ls) (simp_all add: file_lines_line)

lemma edit_lines_map:
  "edit_lines f ls = (concat (map (\<lambda>l. fst (f l)) ls), list_ex (\<lambda>l. snd (f l)) ls)"
  by (induction ls) (auto split: prod.splits)

lemma nth_data_first:
  assumes "\<forall>l \<in> set ls. get_token_data_line wtoken l = None \<or> get_token_data_line wtoken l = Some d"
    "\<exists>l \<in> set ls. get_token_data_line wtoken l \<noteq> None"
  shows "nth_data wtoken 1 0 ls = Some d"
  using assms by (induction ls) (auto split: option.splits)

subsection \<open>What \<^verbatim>\<open>set_token_data_file\<close> writes\<close>

definition data_ok :: "wstring \<Rightarrow> bool" where
  "data_ok d \<longleftrightarrow> d \<noteq> [] \<and> starts_data False d \<and> 0 \<notin> set d \<and> 0x0A \<notin> set d \<and> last d \<noteq> 0x0D"

definition token_ok :: "wstring \<Rightarrow> bool" where
  "token_ok tok \<longleftrightarrow> tok \<noteq> [] \<and> \<not> is_wspace (hd tok) \<and> hd tok \<notin> {0x3C, 0x3B, 0x5B} \<and> 0 \<notin> set tok \<and> 0x0A \<notin> set tok"

lemma data_ok_line:
  assumes "data_ok d" "token_ok tok" "map wlower tok' = map wlower tok" "\<forall>c \<in> set (sp1 @ sp3 @ sp4). is_wspace c"
  shows "get_token_data_line tok (sp1 @ tok' @ sp3 @ 0x3D # sp4 @ d @ [0x0A]) = Some d"
proof (rule get_token_data_line_form)
  show "token_line tok d (sp1 @ tok' @ sp3 @ 0x3D # sp4 @ d @ [0x0A])"
    using token_line.intros [of sp1 "[]" sp3 sp4 "[]" tok' tok "[]" False d "[0x0A]" "0x3D" "[]"] assms
    by (cases "last d = 0x0A") (auto simp: data_ok_def is_eol_def data_end_def dest: last_in_set)
qed (use assms(2) in \<open>auto simp: token_ok_def\<close>)

text \<open>A line that is set: it is cut behind the separator and the spaces that follow it.\<close>

lemma set_token_line_found:
  assumes "set_token_line tok d (l @ [0x0A]) = (out, True)" "data_ok d" "token_ok tok" "short_line l" "length l + length d < 1023"
  obtains l' where "out = l' @ [0x0A]" "short_line l'" "get_token_data_line tok (l' @ [0x0A]) = Some d" "set l' \<subseteq> set l \<union> set d"
proof -
  define buf where "buf = l @ [0x0A]"
  define s where "s = skip_wspace buf"
  obtain sp1 where sp1: "buf = sp1 @ s" "\<forall>c \<in> set sp1. is_wspace c"
    unfolding s_def by (rule skip_wspaceE)
  define rest where "rest = drop (length tok) s"
  obtain r where r: "begins_with s tok" "skip_wspace rest = 0x3D # r" "out = take (length buf - length (skip_wspace r)) buf @ d @ [0x0A]"
    using assms(1) by (auto simp: set_token_line_def Let_def buf_def s_def rest_def split: if_splits list.splits)
  obtain sp3 where sp3: "rest = sp3 @ 0x3D # r" "\<forall>c \<in> set sp3. is_wspace c"
    using skip_wspaceE [of rest] r(2) by metis
  define q where "q = skip_wspace r"
  obtain sp4 where sp4: "r = sp4 @ q" "\<forall>c \<in> set sp4. is_wspace c"
    unfolding q_def by (rule skip_wspaceE)
  define pre where "pre = sp1 @ take (length tok) s @ sp3 @ 0x3D # sp4"
  have buf: "buf = pre @ q"
    using sp1(1) sp3(1) sp4(1) append_take_drop_id [of "length tok" s] by (simp add: pre_def rest_def [symmetric])
  have "q \<noteq> []"
  proof
    assume "q = []"
    then have "last pre = 0x0A" using buf last_snoc [of l "0x0A"] by (simp add: buf_def)
    then show False using sp4(2) by (cases sp4 rule: rev_cases) (auto simp: pre_def is_wspace_def)
  qed
  then have l: "l = pre @ butlast q"
    using buf by (metis buf_def butlast_append butlast_snoc)
  have out: "out = (pre @ d) @ [0x0A]" using r(3) buf by (simp flip: q_def)
  moreover have "short_line (pre @ d)" using l assms(2,4,5) by (auto simp: short_line_def data_ok_def)
  moreover have "get_token_data_line tok ((pre @ d) @ [0x0A]) = Some d"
    using data_ok_line [OF assms(2,3), of "take (length tok) s" sp1 sp3 sp4] r(1) sp1(2) sp3(2) sp4(2)
    by (simp add: pre_def begins_with_def ball_Un)
  ultimately show thesis using that l by auto
qed

lemma set_token_line_kept:
  assumes "\<not> snd (set_token_line tok d (l @ [0x0A]))" "token_ok tok" "0x3C \<notin> set l" "0x3E \<notin> set l"
  shows "set_token_line tok d (l @ [0x0A]) = (l @ [0x0A], False)" "get_token_data_line tok (l @ [0x0A]) = None"
proof -
  show "set_token_line tok d (l @ [0x0A]) = (l @ [0x0A], False)"
    using assms(1) by (auto simp: set_token_line_def Let_def split: if_splits list.splits)
  define s where "s = skip_wspace (l @ [0x0A])"
  have sub: "set s \<subseteq> set (l @ [0x0A])" unfolding s_def skip_wspace_def by (meson set_dropWhileD subsetI)
  have "skip_char 0x3C s = s" using sub assms(3) by (cases s) (auto simp: skip_char_def)
  moreover have "skip_wspace s = s" by (simp add: s_def skip_wspace_def dropWhile_idem)
  moreover have "hd s \<notin> {0x3B, 0x5B}" if "begins_with s tok"
  proof
    assume hd: "hd s \<in> {0x3B, 0x5B}"
    have "s \<noteq> []" "wlower (hd s) = wlower (hd tok)"
      using that assms(2) by (cases s; cases tok; auto simp: begins_with_def token_ok_def)+
    then have "hd tok = hd s" using wlower_other [of "hd s" "hd tok"] hd by auto
    then show False using hd assms(2) by (auto simp: token_ok_def)
  qed
  moreover have "hd (skip_wspace (drop (length tok) s)) \<noteq> 0x3E" if "skip_wspace (drop (length tok) s) \<noteq> []"
  proof -
    have "hd (skip_wspace (drop (length tok) s)) \<in> set s"
      using hd_in_set [OF that] unfolding skip_wspace_def by (meson in_set_dropD set_dropWhileD)
    then show ?thesis using sub assms(4) by auto
  qed
  ultimately show "get_token_data_line tok (l @ [0x0A]) = None"
    using assms(1) by (auto simp: get_token_data_line_def set_token_line_def Let_def simp flip: s_def split: if_splits list.splits)
qed

text \<open>The text after the token has been set.\<close>

definition set_text :: "wstring \<Rightarrow> wstring \<Rightarrow> wstring \<Rightarrow> wstring" where
  "set_text wtoken wdata t =
     (case edit_lines (set_token_line wtoken wdata) (file_lines t) of
        (out, ret) \<Rightarrow> if ret then out else out @ wtoken @ [0x20, 0x3D, 0x20] @ wdata @ [0x0A])"

definition short_lines :: "nat \<Rightarrow> wstring list \<Rightarrow> bool" where
  "short_lines n ls \<longleftrightarrow> (\<forall>l \<in> set ls. short_line l \<and> length l + n < 1023 \<and> 0x3C \<notin> set l \<and> 0x3E \<notin> set l)"

lemma set_lines:
  assumes "short_lines (length d) ls" "token_ok tok" "data_ok d"
  obtains ls' where "edit_lines (set_token_line tok d) (map (\<lambda>l. l @ [0x0A]) ls) =
      (unlines ls', \<exists>l \<in> set ls'. get_token_data_line tok (l @ [0x0A]) \<noteq> None)"
    "\<forall>l \<in> set ls'. short_line l \<and> get_token_data_line tok (l @ [0x0A]) \<in> {None, Some d}" "set (unlines ls') \<subseteq> set (unlines ls) \<union> set d"
  using assms(1)
proof (induction ls arbitrary: thesis)
  case Nil
  show ?case by (rule Nil(1) [of "[]"]) auto
next
  case (Cons l ls)
  then obtain ls' where ls': "edit_lines (set_token_line tok d) (map (\<lambda>l. l @ [0x0A]) ls) =
      (unlines ls', \<exists>l \<in> set ls'. get_token_data_line tok (l @ [0x0A]) \<noteq> None)"
    "\<forall>l \<in> set ls'. short_line l \<and> get_token_data_line tok (l @ [0x0A]) \<in> {None, Some d}" "set (unlines ls') \<subseteq> set (unlines ls) \<union> set d"
    by (auto simp: short_lines_def)
  have l: "short_line l" "length l + length d < 1023" "0x3C \<notin> set l" "0x3E \<notin> set l" using Cons(3) by (auto simp: short_lines_def)
  show ?case
  proof (cases "snd (set_token_line tok d (l @ [0x0A]))")
    case True
    then obtain l' where "set_token_line tok d (l @ [0x0A]) = (l' @ [0x0A], True)" "short_line l'"
      "get_token_data_line tok (l' @ [0x0A]) = Some d" "set l' \<subseteq> set l \<union> set d"
      using set_token_line_found [OF _ assms(3,2) l(1,2), of "fst (set_token_line tok d (l @ [0x0A]))"] by (metis prod.collapse)
    then show ?thesis using ls' by (intro Cons(2) [of "l' # ls'"]) auto
  next
    case False
    then show ?thesis
      using ls' set_token_line_kept [OF False assms(2) l(3,4)] l(1) by (intro Cons(2) [of "l # ls'"]) auto
  qed
qed

lemma set_text_get:
  assumes "short_lines (length d) ls" "token_ok tok" "data_ok d" "length tok + length d < 1020"
  shows "nth_data tok 1 0 (file_lines (set_text tok d (unlines ls))) = Some d"
    "set (set_text tok d (unlines ls)) \<subseteq> set (unlines ls) \<union> set d \<union> set tok \<union> {0x20, 0x3D, 0x0A}"
proof -
  have fl: "file_lines (unlines ls) = map (\<lambda>l. l @ [0x0A]) ls"
    using assms(1) by (intro file_lines_unlines) (simp add: short_lines_def)
  obtain ls' where ls': "edit_lines (set_token_line tok d) (map (\<lambda>l. l @ [0x0A]) ls) =
      (unlines ls', \<exists>l \<in> set ls'. get_token_data_line tok (l @ [0x0A]) \<noteq> None)"
    "\<forall>l \<in> set ls'. short_line l \<and> get_token_data_line tok (l @ [0x0A]) \<in> {None, Some d}" "set (unlines ls') \<subseteq> set (unlines ls) \<union> set d"
    by (rule set_lines [OF assms(1-3)])
  define new where "new = tok @ [0x20, 0x3D, 0x20] @ d"
  define ls'' where "ls'' = (if \<exists>l \<in> set ls'. get_token_data_line tok (l @ [0x0A]) \<noteq> None then ls' else ls' @ [new])"
  have out: "set_text tok d (unlines ls) = unlines ls''" by (simp add: set_text_def fl ls'(1) ls''_def new_def)
  then show "set (set_text tok d (unlines ls)) \<subseteq> set (unlines ls) \<union> set d \<union> set tok \<union> {0x20, 0x3D, 0x0A}"
    using ls'(3) by (auto simp: ls''_def new_def)
  have new: "short_line new" "get_token_data_line tok (new @ [0x0A]) = Some d"
    using assms(2-4) data_ok_line [OF assms(3,2), of tok "[]" "[0x20]" "[0x20]"]
    by (auto simp: new_def short_line_def token_ok_def data_ok_def is_wspace_def)
  have "\<forall>l \<in> set ls''. short_line l" using ls'(2) new(1) by (simp add: ls''_def)
  then have "file_lines (unlines ls'') = map (\<lambda>l. l @ [0x0A]) ls''" by (rule file_lines_unlines)
  moreover have "\<forall>l \<in> set ls''. get_token_data_line tok (l @ [0x0A]) \<in> {None, Some d}"
    using ls'(2) new(2) by (simp add: ls''_def)
  moreover have "\<exists>l \<in> set ls''. get_token_data_line tok (l @ [0x0A]) \<noteq> None"
    using new(2) by (cases "\<exists>l \<in> set ls'. get_token_data_line tok (l @ [0x0A]) \<noteq> None") (auto simp: ls''_def)
  ultimately show "nth_data tok 1 0 (file_lines (set_text tok d (unlines ls))) = Some d"
    unfolding out by (intro nth_data_first) auto
qed

subsection \<open>Encodings\<close>

text \<open>
  An encoder and a decoder of text files: the decoder returns the text that was encoded, if the encoding of the mode can represent its characters, and UTF-16 files have
  an even number of bytes.
\<close>

definition text_codec :: "(nat \<Rightarrow> wstring \<Rightarrow> bytes) \<Rightarrow> (bytes \<Rightarrow> wstring) \<Rightarrow> (nat \<Rightarrow> u16 \<Rightarrow> bool) \<Rightarrow> bool" where
  "text_codec enc dec representable \<longleftrightarrow>
     (\<forall>m t. (\<forall>c \<in> set t. representable m c) \<longrightarrow> dec (enc m t) = t) \<and> (\<forall>t. even (length (enc 2 t)))"

lemma concat_chunks: "0 < n \<Longrightarrow> n dvd length xs \<Longrightarrow> concat (chunks n xs) = xs"
proof (induction n xs rule: chunks.induct)
  case (1 n xs)
  show ?case
  proof (cases "n \<le> length xs")
    case True
    then have "n dvd length (drop n xs)" using 1(3) by (simp add: dvd_diff_nat)
    then show ?thesis using 1(1) 1(2) True chunks_cons [of n xs] by simp
  next
    case False
    then have "xs = []" using 1(2,3) by (metis dvd_imp_le length_greater_0_conv)
    then show ?thesis using False by simp
  qed
qed

lemma copy_units_id: "0 < n \<Longrightarrow> n dvd length bs \<Longrightarrow> copy_units False n bs = bs"
  by (simp add: copy_units_def concat_chunks)

text \<open>
  C15. Setting a token and reading it back. The file consists of lines that end with a line feed and fit the buffer with the new data, without angle brackets; the token
  begins with none of space, tab, \<^verbatim>\<open><\<close>, \<^verbatim>\<open>;\<close> and \<^verbatim>\<open>[\<close>; the data are one line that begins neither with a space nor with a quote. If the files can be opened
  and the encoding can represent the text, \<^verbatim>\<open>set_token_data_file\<close> rewrites the file, and the first occurrence of the token in the new file, as
  \<^verbatim>\<open>get_token_data_file_indexed\<close> finds it, has the data that were set, whether the token was there before or not. A last line without a line feed is a case outside: the token is then lost (\<open>appended_token_lost\<close> below).
\<close>

theorem set_token_data_file_roundtrip:
  assumes io: "in_file io = Some (bom, unlines ls)" "tmp_name io" "tmp_open io" "back_in io" "back_out io"
    and conv: "filename \<noteq> []" "token \<noteq> []" "data \<noteq> []" "utf8_to_wchar filename \<noteq> None"
      "utf8_to_wchar token = Some wtoken" "utf8_to_wchar data = Some wdata" "wchar_to_utf8 wdata = Some data"
    and ok: "short_lines (length wdata) ls" "token_ok wtoken" "data_ok wdata" "length wtoken + length wdata < 1020"
    and codec: "text_codec enc dec representable"
      "\<forall>m. \<forall>c \<in> set (unlines ls) \<union> set wdata \<union> set wtoken \<union> {0x20, 0x3D, 0x0A}. representable m c"
  shows "\<exists>bs. set_token_data_file io utf8_to_wchar enc token data filename orig = (True, bs) \<and>
    get_token_data_file_indexed utf8_to_wchar wchar_to_utf8 (Some (dec bs)) token filename 1 = Some data"
proof -
  define mode where "mode = (case bom of None \<Rightarrow> 0 | Some b \<Rightarrow> out_mode b)"
  define bs where "bs = enc mode (set_text wtoken wdata (unlines ls))"
  have "(if mode = 2 then 2 else 1) dvd length bs" using codec(1) by (simp add: bs_def text_codec_def)
  then have "copy_units False (if mode = 2 then 2 else 1) bs = bs" by (intro copy_units_id) auto
  then have "set_token_data_file io utf8_to_wchar enc token data filename orig = (True, bs)"
    using io conv by (auto simp: set_token_data_file_def copy_back_def Let_def bs_def mode_def set_text_def split: option.splits prod.splits)
  moreover have "\<forall>c \<in> set (set_text wtoken wdata (unlines ls)). representable mode c"
    using codec(2) set_text_get(2) [OF ok] by blast
  then have "dec bs = set_text wtoken wdata (unlines ls)" using codec(1) by (simp add: bs_def text_codec_def)
  ultimately show ?thesis
    using conv set_text_get(1) [OF ok] by (auto simp: get_token_data_file_indexed_def split: option.splits)
qed

text \<open>The encoder of the C library for UTF-16 files, which also ends the lines as DOS does, and its decoder.\<close>

definition utf16_text :: "wstring \<Rightarrow> bytes" where
  "utf16_text t = concat (map (le_bytes 2) (0xFEFF # concat (map (\<lambda>c. if c = 0x0A then [0x0D, 0x0A] else [c]) t)))"

fun join_crlf :: "wstring \<Rightarrow> wstring" where
  "join_crlf (a # b # s) = (if a = 0x0D \<and> b = 0x0A then 0x0A # join_crlf s else a # join_crlf (b # s))"
| "join_crlf s = s"

definition text_utf16 :: "bytes \<Rightarrow> wstring" where
  "text_utf16 bs = join_crlf (skip_char 0xFEFF (map le_word (chunks 2 bs)))"

lemma join_crlf_lines: "0x0D \<notin> set t \<Longrightarrow> join_crlf (concat (map (\<lambda>c. if c = 0x0A then [0x0D, 0x0A] else [c]) t)) = t"
proof (induction t)
  case (Cons c t)
  then show ?case
    by (cases "concat (map (\<lambda>c. if c = 0x0A then [0x0D, 0x0A] else [c]) t)") (auto simp del: concat_eq_Nil_conv)
qed simp

lemma chunks_words: "chunks 2 (concat (map (le_bytes 2) (ws :: wstring))) = map (le_bytes 2) ws"
  by (induction ws) (simp_all add: chunks_cons)

lemma utf16_codec: "text_codec (\<lambda>m. utf16_text) text_utf16 (\<lambda>m c. c \<noteq> 0x0D)"
proof -
  have "text_utf16 (utf16_text t) = t" if "0x0D \<notin> set t" for t
    using that unfolding text_utf16_def utf16_text_def chunks_words
    by (simp add: o_def skip_char_def join_crlf_lines del: map_concat)
  moreover have "even (length (utf16_text t))" for t
    by (simp add: utf16_text_def length_concat o_def sum_list_triv)
  ultimately show ?thesis by (auto simp: text_codec_def)
qed

definition autorun_io :: text_io where
  "autorun_io = \<lparr>in_file = Some (Some 0xFEFF, unlines [map of_char ''[autorun]'', map of_char ''Label = old'']),
     tmp_name = True, tmp_open = True, back_in = True, back_out = True\<rparr>"

theorem set_token_data_file_roundtrip_witness:
  "\<exists>bs. set_token_data_file autorun_io (\<lambda>s. Some (map ucast s)) (\<lambda>m. utf16_text) (map of_char ''label'') (map of_char ''USB'') [0x66] [] =
     (True, bs) \<and>
     get_token_data_file_indexed (\<lambda>s. Some (map ucast s)) (\<lambda>w. Some (map ucast w)) (Some (text_utf16 bs)) (map of_char ''label'') [0x66] 1 =
       Some (map of_char ''USB'')"
proof (rule set_token_data_file_roundtrip [where wtoken = "map of_char ''label''" and wdata = "map of_char ''USB''"])
  show "in_file autorun_io = Some (Some 0xFEFF, unlines [map of_char ''[autorun]'', map of_char ''Label = old''])"
    by (simp add: autorun_io_def)
  show "text_codec (\<lambda>m. utf16_text) text_utf16 (\<lambda>m c. c \<noteq> 0x0D)" by (rule utf16_codec)
qed (simp_all add: autorun_io_def of_char_def short_lines_def short_line_def token_ok_def data_ok_def starts_data_def is_wspace_def)

section \<open>Insertion and replacement\<close>

text \<open>
  \<^verbatim>\<open>insert_section_data\<close> on a file of lines that end with a line feed. Every line that begins, behind spaces, with the section is followed by the new data in a line
  of its own, and no other line changes; if there is no such line, the function returns \<^verbatim>\<open>NULL\<close> and leaves the file alone.
\<close>

theorem insert_section_data_correct:
  assumes "in_file io = Some (Some bom, unlines ls)" "tmp_name io" "tmp_open io" "back_in io" "back_out io"
    and "filename \<noteq> []" "section \<noteq> []" "data \<noteq> []" "utf8_to_wchar filename \<noteq> None"
    and "utf8_to_wchar section = Some wsection" "utf8_to_wchar data = Some wdata"
    and "\<forall>l \<in> set ls. short_line l"
  shows "insert_section_data io utf8_to_wchar enc filename section data dos2unix orig =
    (if \<exists>l \<in> set ls. begins_with (skip_wspace (l @ [0x0A])) wsection
     then (True, copy_units dos2unix (if out_mode bom = 2 then 2 else 1) (enc (out_mode bom)
       (unlines (concat (map (\<lambda>l. if begins_with (skip_wspace (l @ [0x0A])) wsection then [l, wdata] else [l]) ls)))))
     else (False, orig))"
proof -
  have "edit_lines (insert_section_line wsection wdata) (map (\<lambda>l. l @ [0x0A]) ls) =
      (unlines (concat (map (\<lambda>l. if begins_with (skip_wspace (l @ [0x0A])) wsection then [l, wdata] else [l]) ls)),
       \<exists>l \<in> set ls. begins_with (skip_wspace (l @ [0x0A])) wsection)"
    by (induction ls) (auto simp: insert_section_line_def)
  then show ?thesis
    using assms file_lines_unlines [of ls]
    by (auto simp: insert_section_data_def copy_back_def split: option.splits bool.splits)
qed

theorem insert_section_data_correct_witness:
  "insert_section_data autorun_io (\<lambda>s. Some (map ucast s)) (\<lambda>m. utf16_text) [0x66] (map of_char ''[autorun]'') (map of_char ''x=1'') False [] =
    (True, utf16_text (unlines [map of_char ''[autorun]'', map of_char ''x=1'', map of_char ''Label = old'']))"
proof -
  have "even (length (utf16_text t))" for t using utf16_codec by (auto simp: text_codec_def)
  moreover have "out_mode 0xFEFF = 2" by (simp add: out_mode_def)
  ultimately show ?thesis
    by (subst insert_section_data_correct [of _ "0xFEFF" "[map of_char ''[autorun]'', map of_char ''Label = old'']" _ _ _ _
          "map of_char ''[autorun]''" "map of_char ''x=1''"])
      (simp_all add: copy_units_id, simp_all add: autorun_io_def of_char_def short_line_def begins_with_def skip_wspace_def is_wspace_def wlower_def)
qed

subsection \<open>Replacement of all occurrences\<close>

function replace_all :: "wstring \<Rightarrow> wstring \<Rightarrow> wstring \<Rightarrow> wstring" where
  "replace_all src rep s =
     (if src = [] \<or> s = [] then s
      else if take (length src) s = src then rep @ replace_all src rep (drop (length src) s)
      else hd s # replace_all src rep (tl s))"
  by pat_completeness auto
termination by (relation "measure (\<lambda>(src, rep, s). length s)") auto

function count_occurrences :: "wstring \<Rightarrow> wstring \<Rightarrow> nat" where
  "count_occurrences src s =
     (if src = [] \<or> s = [] then 0
      else if take (length src) s = src then Suc (count_occurrences src (drop (length src) s))
      else count_occurrences src (tl s))"
  by pat_completeness auto
termination by (relation "measure (\<lambda>(src, s). length s)") auto

declare replace_all.simps [simp del] count_occurrences.simps [simp del]

lemma replace_all_Nil [simp]: "replace_all src rep [] = []" "count_occurrences src [] = 0"
  by (simp_all add: replace_all.simps count_occurrences.simps)

lemmas occurrences_Cons = replace_all.simps [of src rep "c # s"] count_occurrences.simps [of src "c # s"] for src rep c s

lemma wcsstr_None:
  assumes "src \<noteq> []" "wcsstr s src = None"
  shows "replace_all src rep s = s" "count_occurrences src s = 0"
  using assms by (induction s) (auto simp: occurrences_Cons split: if_splits)

lemma wcsstr_Some:
  assumes "src \<noteq> []" "wcsstr s src = Some k"
  shows "replace_all src rep s = take k s @ rep @ replace_all src rep (drop (k + length src) s)"
    "count_occurrences src s = Suc (count_occurrences src (drop (k + length src) s))"
  using assms by (induction s arbitrary: k) (auto simp: occurrences_Cons split: if_splits)

lemma replace_occurrences_all:
  "src \<noteq> [] \<Longrightarrow> count_occurrences src s \<le> n \<Longrightarrow>
   replace_occurrences n src rep s = (replace_all src rep s, 0 < count_occurrences src s)"
proof (induction n arbitrary: s)
  case 0
  then show ?case using wcsstr_Some(2) [of src s] by (cases "wcsstr s src") (auto simp: wcsstr_None)
next
  case (Suc n)
  show ?case
  proof (cases "wcsstr s src")
    case (Some k)
    then show ?thesis using Suc wcsstr_Some [OF Suc(2) Some] by simp
  qed (use wcsstr_None [OF Suc(2)] in auto)
qed

text \<open>
  \<^verbatim>\<open>replace_in_token_data\<close> on a line that begins with the token: every occurrence of the string is replaced in what follows the token and at least one space, if there
  are at most \<^verbatim>\<open>MAX_OCCURRENCES\<close> of them, and the line counts as changed if there is one.
\<close>

theorem replace_token_line_correct:
  assumes "src \<noteq> []" "tok \<noteq> []" "\<not> is_wspace (hd tok)" "map wlower tok' = map wlower tok"
    "\<forall>c \<in> set (sp @ sp'). is_wspace c" "sp' \<noteq> []" "d = [] \<or> \<not> is_wspace (hd d)" "count_occurrences src d \<le> 4"
  shows "replace_token_line tok src rep (sp @ tok' @ sp' @ d) = (sp @ tok' @ sp' @ replace_all src rep d, 0 < count_occurrences src d)"
proof -
  obtain x y where xy: "wlower x = wlower y" "hd tok' = x" "hd tok = y" "tok' \<noteq> []"
    using assms(2,4) by (cases tok; cases tok') auto
  then have "\<not> is_wspace (hd tok')" using assms(3) wlower_other [of x y] by (auto simp: is_wspace_def)
  then have "skip_wspace (sp @ tok' @ sp' @ d) = tok' @ sp' @ d"
    using assms(5) xy(4) by (simp add: skip_wspace_id ball_Un)
  moreover have "length tok' = length tok" using assms(4) by (metis length_map)
  moreover have "skip_wspace (sp' @ d) = d" using assms(5,7) by (simp add: skip_wspace_id ball_Un)
  ultimately show ?thesis
    using assms(4,6) replace_occurrences_all [OF assms(1,8), of rep]
    by (simp add: replace_token_line_def Let_def begins_with_def MAX_OCCURRENCES_def)
qed

theorem replace_token_line_correct_witness:
  "replace_token_line (map of_char ''append'') (map of_char ''old'') (map of_char ''new'') (map of_char '' APPEND label=old'') =
    (map of_char '' APPEND label=new'', True)"
proof -
  have d: "replace_all (map of_char ''old'') (map of_char ''new'') (map of_char ''label=old'') = map of_char ''label=new''"
    "count_occurrences (map of_char ''old'') (map of_char ''label=old'') = 1"
    by (simp_all add: of_char_def occurrences_Cons)
  have "replace_token_line (map of_char ''append'') (map of_char ''old'') (map of_char ''new'')
      ([0x20] @ map of_char ''APPEND'' @ [0x20] @ map of_char ''label=old'') =
    ([0x20] @ map of_char ''APPEND'' @ [0x20] @ map of_char ''label=new'', True)"
    using d by (subst replace_token_line_correct) (simp_all add: of_char_def is_wspace_def wlower_def)
  then show ?thesis by (simp add: of_char_def)
qed

subsection \<open>Replacement in a file\<close>

text \<open>
  The lines of a configuration file as the function sees them: a line with the token, in any case, behind white space and followed by white space and the options; or
  another line. Both end with a line feed, which is not part of them here.
\<close>

datatype cfg_line = Entry wstring wstring wstring wstring | Other wstring

fun cfg_text :: "cfg_line \<Rightarrow> wstring" where
  "cfg_text (Entry sp tok sp' opts) = sp @ tok @ sp' @ opts"
| "cfg_text (Other l) = l"

fun cfg_line_ok :: "wstring \<Rightarrow> wstring \<Rightarrow> cfg_line \<Rightarrow> bool" where
  "cfg_line_ok wtoken wsrc (Entry sp tok sp' opts) \<longleftrightarrow>
     (\<forall>c \<in> set (sp @ sp'). is_wspace c) \<and> map wlower tok = map wlower wtoken \<and> sp' \<noteq> [] \<and> (opts = [] \<or> \<not> is_wspace (hd opts)) \<and>
     count_occurrences wsrc opts \<le> MAX_OCCURRENCES"
| "cfg_line_ok wtoken wsrc (Other l) \<longleftrightarrow>
     \<not> (\<exists>sp tok c r. l = sp @ tok @ c # r \<and> (\<forall>x \<in> set sp. is_wspace x) \<and> map wlower tok = map wlower wtoken \<and> is_wspace c)"

fun cfg_replace :: "wstring \<Rightarrow> wstring \<Rightarrow> cfg_line \<Rightarrow> cfg_line" where
  "cfg_replace wsrc wrep (Entry sp tok sp' opts) = Entry sp tok sp' (replace_all wsrc wrep opts)"
| "cfg_replace wsrc wrep (Other l) = Other l"

fun cfg_occurs :: "wstring \<Rightarrow> cfg_line \<Rightarrow> bool" where
  "cfg_occurs wsrc (Entry sp tok sp' opts) \<longleftrightarrow> 0 < count_occurrences wsrc opts"
| "cfg_occurs wsrc (Other l) \<longleftrightarrow> False"

lemma take_snoc_eq: "x \<notin> set src \<Longrightarrow> take (length src) (s @ [x]) = src \<longleftrightarrow> take (length src) s = src"
proof -
  assume x: "x \<notin> set src"
  have "take (length src) (s @ [x]) \<noteq> src" if "length s < length src"
    using x that by (metis Suc_leI in_set_conv_decomp length_append_singleton take_all)
  moreover have "take (length src) s \<noteq> src" if "length s < length src" using that by (metis length_take less_irrefl min.strict_order_iff min.commute)
  ultimately show ?thesis by (cases "length s < length src") auto
qed

lemma replace_all_snoc:
  assumes "src \<noteq> []" "x \<notin> set src"
  shows "replace_all src rep (s @ [x]) = replace_all src rep s @ [x]" "count_occurrences src (s @ [x]) = count_occurrences src s"
proof -
  have "replace_all src rep (s @ [x]) = replace_all src rep s @ [x] \<and> count_occurrences src (s @ [x]) = count_occurrences src s"
  proof (induction s rule: length_induct)
    case (1 s)
    note t = take_snoc_eq [OF assms(2), of s]
    show ?case
    proof (cases "take (length src) s = src")
      case True
      then have s: "s \<noteq> []" "length src \<le> length s" using assms(1) by (auto simp: take_all_iff intro: ccontr)
      then have "drop (length src) (s @ [x]) = drop (length src) s @ [x]" by simp
      moreover have "length (drop (length src) s) < length s" using s assms(1) by simp
      ultimately show ?thesis
        using True t s(1) assms(1) 1 by (subst (1 2) replace_all.simps, subst (1 2) count_occurrences.simps) simp
    next
      case no: False
      show ?thesis
      proof (cases s)
        case Nil
        then show ?thesis using no t assms by (simp add: occurrences_Cons)
      next
        case (Cons c s')
        then show ?thesis using no t assms(1) 1 by (simp add: occurrences_Cons)
      qed
    qed
  qed
  then show "replace_all src rep (s @ [x]) = replace_all src rep s @ [x]" "count_occurrences src (s @ [x]) = count_occurrences src s" by auto
qed

lemma replace_token_line_other:
  assumes "cfg_line_ok wtoken wsrc (Other l)" "wtoken \<noteq> []" "0x0A \<notin> set wtoken"
  shows "replace_token_line wtoken wsrc wrep (l @ [0x0A]) = (l @ [0x0A], False)"
proof -
  define s where "s = skip_wspace (l @ [0x0A])"
  define r where "r = drop (length wtoken) s"
  obtain sp where sp: "l @ [0x0A] = sp @ s" "\<forall>c \<in> set sp. is_wspace c" unfolding s_def by (rule skip_wspaceE)
  have "length (skip_wspace r) = length r" if "begins_with s wtoken"
  proof (rule ccontr)
    assume "length (skip_wspace r) \<noteq> length r"
    then obtain c r' where r: "r = c # r'" "is_wspace c" by (cases r) (auto simp: skip_wspace_def split: if_splits)
    then have "l @ [0x0A] = sp @ take (length wtoken) s @ c # r'" using sp(1) append_take_drop_id [of "length wtoken" s] by (simp add: r_def)
    moreover have "c \<noteq> 0x0A" using r(2) by (auto simp: is_wspace_def)
    ultimately have "l = sp @ take (length wtoken) s @ c # butlast r'" by (cases r' rule: rev_cases) auto
    then show False using assms(1) that sp(2) r(2) by (auto simp: begins_with_def)
  qed
  then show ?thesis unfolding replace_token_line_def Let_def s_def [symmetric] r_def [symmetric] by auto
qed

lemma replace_token_line_cfg:
  assumes "cfg_line_ok wtoken wsrc l" "wtoken \<noteq> []" "\<not> is_wspace (hd wtoken)" "0x0A \<notin> set wtoken" "wsrc \<noteq> []" "0x0A \<notin> set wsrc"
  shows "replace_token_line wtoken wsrc wrep (cfg_text l @ [0x0A]) = (cfg_text (cfg_replace wsrc wrep l) @ [0x0A], cfg_occurs wsrc l)"
proof (cases l)
  case (Entry sp tok sp' opts)
  have "\<not> is_wspace 0x0A" by (simp add: is_wspace_def)
  then have "replace_token_line wtoken wsrc wrep (sp @ tok @ sp' @ opts @ [0x0A]) =
      (sp @ tok @ sp' @ replace_all wsrc wrep (opts @ [0x0A]), 0 < count_occurrences wsrc (opts @ [0x0A]))"
    using assms Entry replace_all_snoc(2) [OF assms(5,6), of opts]
    by (intro replace_token_line_correct) (auto simp: MAX_OCCURRENCES_def hd_append)
  then show ?thesis using replace_all_snoc [OF assms(5,6)] Entry by simp
next
  case (Other x)
  then show ?thesis using replace_token_line_other [of wtoken wsrc x] assms by simp
qed

lemma replace_lines_cfg:
  assumes "\<forall>l \<in> set ls. cfg_line_ok wtoken wsrc l" "wtoken \<noteq> []" "\<not> is_wspace (hd wtoken)" "0x0A \<notin> set wtoken" "wsrc \<noteq> []" "0x0A \<notin> set wsrc"
  shows "edit_lines (replace_token_line wtoken wsrc wrep) (map (\<lambda>l. cfg_text l @ [0x0A]) ls) =
    (unlines (map (\<lambda>l. cfg_text (cfg_replace wsrc wrep l)) ls), \<exists>l \<in> set ls. cfg_occurs wsrc l)"
  using assms(1) replace_token_line_cfg [OF _ assms(2-6)] by (induction ls) auto

text \<open>
  C39. \<^verbatim>\<open>replace_in_token_data\<close> on a configuration file whose lines end with a line feed and fit the buffer. If the string occurs behind the token in no line, the function
  returns \<^verbatim>\<open>NULL\<close> and leaves the file alone. Otherwise every occurrence is replaced in the lines with the token, at most \<^verbatim>\<open>MAX_OCCURRENCES\<close> in each, all other text is as
  before, and the file is rewritten in the encoding it had, without carriage returns if that is wanted. Failures: if the original cannot be opened for writing, the function returns
  \<^verbatim>\<open>NULL\<close> and leaves it alone; if the temporary file cannot be opened again, it returns \<^verbatim>\<open>NULL\<close> and the original is empty, although the message says that it has been left unmodified.
\<close>

theorem replace_in_token_data_correct:
  assumes "in_file io = Some (Some bom, unlines (map cfg_text ls))" "tmp_name io" "tmp_open io"
    and "filename \<noteq> []" "utf8_to_wchar filename \<noteq> None" "token \<noteq> []" "utf8_to_wchar token = Some wtoken"
    and "src \<noteq> []" "src \<noteq> rep" "utf8_to_wchar src = Some wsrc" "utf8_to_wchar rep = Some wrep"
    and "wtoken \<noteq> []" "\<not> is_wspace (hd wtoken)" "0x0A \<notin> set wtoken" "wsrc \<noteq> []" "0x0A \<notin> set wsrc"
    and "\<forall>l \<in> set ls. short_line (cfg_text l) \<and> cfg_line_ok wtoken wsrc l"
  shows "replace_in_token_data io utf8_to_wchar enc filename token src rep dos2unix orig =
    (if \<not> (\<exists>l \<in> set ls. cfg_occurs wsrc l) \<or> \<not> back_out io then (False, orig)
     else if \<not> back_in io then (False, [])
     else (True, copy_units dos2unix (if out_mode bom = 2 then 2 else 1)
             (enc (out_mode bom) (unlines (map (\<lambda>l. cfg_text (cfg_replace wsrc wrep l)) ls)))))"
proof -
  have "file_lines (unlines (map cfg_text ls)) = map (\<lambda>l. cfg_text l @ [0x0A]) ls"
    using assms(17) by (subst file_lines_unlines) auto
  then have "edit_lines (replace_token_line wtoken wsrc wrep) (file_lines (unlines (map cfg_text ls))) =
      (unlines (map (\<lambda>l. cfg_text (cfg_replace wsrc wrep l)) ls), \<exists>l \<in> set ls. cfg_occurs wsrc l)"
    using replace_lines_cfg [OF _ assms(12-16), of ls wrep] assms(17) by simp
  then show ?thesis
    using assms(1-11) by (cases "\<exists>l \<in> set ls. cfg_occurs wsrc l") (auto simp: replace_in_token_data_def copy_back_def)
qed

definition menu_lines :: "cfg_line list" where
  "menu_lines = [Other (map of_char ''label live''), Entry [0x20] (map of_char ''APPEND'') [0x20] (map of_char ''root=OLD'')]"

definition menu_io :: "bool \<Rightarrow> text_io" where
  "menu_io reopen =
     \<lparr>in_file = Some (Some 0xFEFF, unlines (map cfg_text menu_lines)), tmp_name = True, tmp_open = True, back_in = reopen, back_out = True\<rparr>"

theorem replace_in_token_data_correct_witness:
  "replace_in_token_data (menu_io True) (\<lambda>s. Some (map ucast s)) (\<lambda>m. utf16_text) [0x66] (map of_char ''append'') (map of_char ''OLD'')
     (map of_char ''NEW'') False [0x61] = (True, utf16_text (unlines [map of_char ''label live'', map of_char '' APPEND root=NEW''])) \<and>
   replace_in_token_data (menu_io False) (\<lambda>s. Some (map ucast s)) (\<lambda>m. utf16_text) [0x66] (map of_char ''append'') (map of_char ''OLD'')
     (map of_char ''NEW'') False [0x61] = (False, [])"
proof -
  have d: "replace_all (map of_char ''OLD'') (map of_char ''NEW'') (map of_char ''root=OLD'') = map of_char ''root=NEW''"
    "count_occurrences (map of_char ''OLD'') (map of_char ''root=OLD'') = 1"
    by (simp_all add: of_char_def occurrences_Cons)
  have "cfg_line_ok (map of_char ''append'') (map of_char ''OLD'') (Other (map of_char ''label live''))"
  proof (simp only: cfg_line_ok.simps, rule notI, elim exE conjE)
    fix sp tok :: wstring and c r
    assume l: "map of_char ''label live'' = sp @ tok @ c # r" "\<forall>x \<in> set sp. is_wspace x" "map wlower tok = map wlower (map of_char ''append'')"
    then show False by (cases sp; cases tok) (auto simp: of_char_def is_wspace_def wlower_def)
  qed
  then have ok: "\<forall>l \<in> set menu_lines. short_line (cfg_text l) \<and> cfg_line_ok (map of_char ''append'') (map of_char ''OLD'') l"
    using d(2) by (auto simp: menu_lines_def short_line_def of_char_def is_wspace_def wlower_def MAX_OCCURRENCES_def)
  have "even (length (utf16_text t))" for t using utf16_codec by (auto simp: text_codec_def)
  moreover have "out_mode 0xFEFF = 2" by (simp add: out_mode_def)
  moreover have "\<exists>l \<in> set menu_lines. cfg_occurs (map of_char ''OLD'') l" using d(2) by (simp add: menu_lines_def)
  moreover have "map (\<lambda>l. cfg_text (cfg_replace (map of_char ''OLD'') (map of_char ''NEW'') l)) menu_lines =
      [map of_char ''label live'', map of_char '' APPEND root=NEW'']"
    using d(1) by (simp add: menu_lines_def)
  moreover have "replace_in_token_data (menu_io reopen) (\<lambda>s. Some (map ucast s)) (\<lambda>m. utf16_text) [0x66] (map of_char ''append'') (map of_char ''OLD'')
      (map of_char ''NEW'') False [0x61] =
     (if \<not> (\<exists>l \<in> set menu_lines. cfg_occurs (map of_char ''OLD'') l) \<or> \<not> back_out (menu_io reopen) then (False, [0x61])
      else if \<not> back_in (menu_io reopen) then (False, [])
      else (True, copy_units False (if out_mode 0xFEFF = 2 then 2 else 1)
        (utf16_text (unlines (map (\<lambda>l. cfg_text (cfg_replace (map of_char ''OLD'') (map of_char ''NEW'') l)) menu_lines)))))" for reopen
    by (rule replace_in_token_data_correct [where wtoken = "map of_char ''append''"])
      (use ok in \<open>simp_all add: menu_io_def\<close>, simp_all add: of_char_def is_wspace_def)
  ultimately show ?thesis by (simp add: copy_units_id menu_io_def)
qed

section \<open>Failures\<close>

text \<open>A call that returns \<^verbatim>\<open>NULL\<close> leaves the file alone, unless the temporary file cannot be opened again.\<close>

lemma copy_back_failure: "copy_back io dos2unix mode tmp orig = (False, orig') \<Longrightarrow> back_in io \<Longrightarrow> orig' = orig"
  by (auto simp: copy_back_def Let_def split: if_splits)

lemma replace_failure:
  assumes "replace_in_token_data io utf8_to_wchar enc filename token src rep dos2unix orig = (False, orig')" "back_in io"
  shows "orig' = orig"
  using assms by (auto simp: replace_in_token_data_def Let_def split: if_splits option.splits prod.splits bool.splits dest: copy_back_failure)

text \<open>A token that is appended to a text whose last line has no line feed becomes part of that line.\<close>

lemma appended_token_lost:
  "set_text (map of_char ''b'') (map of_char ''2'') (map of_char ''a=1'') = map of_char ''a=1b = 2'' @ [0x0A]"
  "get_token_data_line (map of_char ''b'') (map of_char ''a=1b = 2'' @ [0x0A]) = None"
  by (simp_all add: set_text_def file_lines.simps fgetws_length_def set_token_line_def get_token_data_line_def begins_with_def skip_wspace_def
      is_wspace_def skip_char_def wlower_def of_char_def)

text \<open>The removal of carriage returns from a UTF-16 file also removes other characters, such as U+010D.\<close>

lemma dos2unix_loses_character: "copy_units True 2 (utf16_text [0x010D]) = utf16_text []"
proof -
  have t: "utf16_text [0x010D] = [0xFF, 0xFE, 0x0D, 0x01]" "utf16_text [] = [0xFF, 0xFE]"
    by code_simp+
  have "chunks 2 [0xFF, 0xFE, 0x0D, 0x01 :: byte] = [[0xFF, 0xFE], [0x0D, 0x01]]"
    by (simp add: chunks_cons)
  then show ?thesis by (simp add: copy_units_def t)
qed

end
