(* ===== verification/Labels.thy ===== *)
theory Labels
  imports Rufus_Prelude
begin

text \<open>
  String helpers of \<^verbatim>\<open>src/parser.c\<close>: \<^verbatim>\<open>replace_char\<close>, \<^verbatim>\<open>remove_substr\<close>, and \<^verbatim>\<open>sanitize_label\<close>, which turns the label of an image or the version of GRUB into the
  name under which a boot loader is looked up. A string is the list of its characters before the terminating zero; allocations succeed.
\<close>

section \<open>The code\<close>

fun replace_loop :: "byte \<Rightarrow> bytes \<Rightarrow> bytes \<Rightarrow> bytes \<Rightarrow> bytes" where
  "replace_loop c rep [] res = res"
| "replace_loop c rep (x # src) res = replace_loop c rep src (res @ (if x = c then rep else [x]))"

text \<open>The new string, and the size of the memory that is allocated for it.\<close>

definition replace_char :: "bytes \<Rightarrow> byte \<Rightarrow> bytes \<Rightarrow> bytes \<times> nat" where
  "replace_char src c rep =
     (replace_loop c rep src [], length src + length (filter (\<lambda>x. x = c) src) * length rep + 1)"

text \<open>
  The loop of \<^verbatim>\<open>remove_substr\<close>, which may not end: \<open>None\<close> is a run that does not return. It also copies the terminating zero of \<open>src\<close>.
\<close>

partial_function (option) remove_loop :: "bytes \<Rightarrow> bytes \<Rightarrow> nat \<Rightarrow> bytes \<Rightarrow> bytes option" where
  "remove_loop src sub i res =
     (if length src < i then Some res
      else if i \<le> length src - length sub \<and> slice i (length sub) src = sub then remove_loop src sub (i + length sub) res
      else remove_loop src sub (i + 1) (res @ [(src @ [0]) ! i]))"

text \<open>The outer \<open>None\<close> is a run that does not return, the inner one \<^verbatim>\<open>NULL\<close>.\<close>

definition remove_substr :: "bytes \<Rightarrow> bytes \<Rightarrow> bytes option option" where
  "remove_substr src sub =
     (if length sub > length src then Some None
      else map_option (\<lambda>res. Some (takeWhile (\<lambda>c. c \<noteq> 0) res)) (remove_loop src sub 0 []))"

definition label_char :: "byte \<Rightarrow> byte" where
  "label_char b =
     (let c = (if 0x41 \<le> b \<and> b \<le> 0x5A then b + 0x20 else b)
      in if (sint c < 0x30 \<and> c \<noteq> 0x2E) \<or> (sint c > 0x39 \<and> sint c < 0x61) \<or> sint c > 0x7A then 0x2D else c)"

text \<open>\<^verbatim>\<open>memmove(label, &label[i], len - i)\<close> leaves the end of the string where it was.\<close>

definition remove_leading :: "bytes \<Rightarrow> bytes" where
  "remove_leading label =
     (let i = length (takeWhile (\<lambda>c. c = 0x2D) label)
      in if i \<noteq> 0 then memcpy_to 0 (drop i label) label else label)"

definition remove_trailing :: "bytes \<Rightarrow> bytes" where
  "remove_trailing label = take 1 label @ rev (dropWhile (\<lambda>c. c = 0x2D) (rev (drop 1 label)))"

function remove_duplicates :: "nat \<Rightarrow> bytes \<Rightarrow> bytes" where
  "remove_duplicates i label =
     (if length label \<ge> 2 \<and> i < length label - 2 then
        if label ! i = 0x2D \<and> label ! (i + 1) = 0x2D then remove_duplicates i (take (i + 1) label @ drop (i + 2) label)
        else remove_duplicates (i + 1) label
      else label)"
  by pat_completeness auto
termination by (relation "measure (\<lambda>(i, label). 2 * length label - i)") auto

declare remove_duplicates.simps [simp del]

definition label_suffixes :: "bytes list" where
  "label_suffixes = map (map of_char)
     [''-i386'', ''-i686'', ''-amd64'', ''-x86-64'', ''.x86-64'', ''-x64'', ''-armhf'', ''-arm64'', ''-aarch64'', ''-32-bit'', ''-64-bit'',
      ''-32bit'', ''-64bit'', ''-intel'', ''-cd'', ''-dvd'', ''-standard'', ''-live'', ''-install'', ''-server'', ''-net'', ''-desktop'', ''-lts'',
      ''-studio'', ''-baseos'', ''-kde'', ''-xfce'', ''-lxde'', ''-gnome'', ''-mate'', ''-unstable'', ''-debug'', ''-release'', ''-final'',
      ''-stream'', ''-cinnamon'', ''-cinn'', ''-leap'', ''-tumbleweed'', ''-budgie'', ''-ws'', ''-iot'', ''-ostree'', ''.iso'']"

text \<open>The string without the first occurrence of \<open>t\<close>, as \<^verbatim>\<open>strstr\<close> finds it.\<close>

fun remove_first :: "bytes \<Rightarrow> bytes \<Rightarrow> bytes" where
  "remove_first t [] = []"
| "remove_first t (c # s) = (if take (length t) (c # s) = t then drop (length t) (c # s) else c # remove_first t s)"

text \<open>The result is the return value and the label.\<close>

definition sanitize_label :: "bytes \<Rightarrow> int \<times> bytes" where
  "sanitize_label label =
     (let label = remove_leading (map label_char label)
      in if length label \<le> 1 then (-1, label)
         else let label = remove_trailing label
              in if length label \<le> 1 then (-1, label)
                 else (0, foldl (\<lambda>s t. remove_first t s) (remove_duplicates 0 label) label_suffixes))"

section \<open>Replacement and removal\<close>

lemma replace_loop_concat: "replace_loop c rep src res = res @ concat (map (\<lambda>x. if x = c then rep else [x]) src)"
  by (induction src arbitrary: res) simp_all

lemma replace_char_correct:
  "fst (replace_char src c rep) = concat (map (\<lambda>x. if x = c then rep else [x]) src)" "length (fst (replace_char src c rep)) < snd (replace_char src c rep)"
proof -
  show eq: "fst (replace_char src c rep) = concat (map (\<lambda>x. if x = c then rep else [x]) src)"
    by (simp add: replace_char_def replace_loop_concat)
  have "length (concat (map (\<lambda>x. if x = c then rep else [x]) src)) \<le> length src + length (filter (\<lambda>x. x = c) src) * length rep"
    by (induction src) auto
  then show "length (fst (replace_char src c rep)) < snd (replace_char src c rep)" unfolding eq by (simp add: replace_char_def)
qed

text \<open>What is left after the occurrences of \<open>sub\<close>, read from the left, have been taken out.\<close>

function without :: "bytes \<Rightarrow> bytes \<Rightarrow> bytes" where
  "without sub s =
     (if sub = [] \<or> s = [] then s else if take (length sub) s = sub then without sub (drop (length sub) s) else hd s # without sub (tl s))"
  by pat_completeness auto
termination by (relation "measure (\<lambda>(sub, s). length s)") auto

declare without.simps [simp del]

lemma remove_loop_without:
  assumes "sub \<noteq> []" "i \<le> length src" "length sub \<le> length src"
  shows "remove_loop src sub i res = Some (res @ without sub (drop i src) @ [0])"
  using assms
proof (induction "length src - i" arbitrary: i res rule: less_induct)
  case less
  have hit: "i \<le> length src - length sub \<and> slice i (length sub) src = sub \<longleftrightarrow> take (length sub) (drop i src) = sub"
  proof -
    have "length (take (length sub) (drop i src)) = length sub \<longleftrightarrow> i \<le> length src - length sub"
      using less(2-4) by (auto simp: min_def)
    then show ?thesis by (metis slice_def)
  qed
  show ?case
  proof (cases "i = length src")
    case True
    have "\<not> (i \<le> length src - length sub)" using True less(2,4) by (cases sub) auto
    then show ?thesis using True less(2)
      by (subst remove_loop.simps) (simp add: nth_append without.simps, subst remove_loop.simps, simp)
  next
    case False
    then have ne: "drop i src \<noteq> []" using less(3) by simp
    show ?thesis
    proof (cases "take (length sub) (drop i src) = sub")
      case True
      then have "i + length sub \<le> length src" by (metis hit le_diff_conv2 less(4))
      moreover have "length src - (i + length sub) < length src - i" using calculation less(2) by (cases sub) auto
      ultimately show ?thesis
        using True less(1) [of "i + length sub"] less(2,4) ne hit False less(3)
        by (subst remove_loop.simps, subst without.simps) (simp add: add.commute)
    next
      case no: False
      have "drop i src = src ! i # drop (i + 1) src" using False less(3) by (simp add: Cons_nth_drop_Suc)
      then show ?thesis
        using no less(1) [of "i + 1"] less(2-4) ne iffD1 [OF hit] False
        by (subst remove_loop.simps, subst without.simps) (auto simp: nth_append)
    qed
  qed
qed

lemma without_chars: "set (without sub s) \<subseteq> set s"
proof (induction sub s rule: without.induct)
  case (1 sub s)
  then show ?case
    by (subst without.simps) (auto dest: in_set_dropD, (metis list.set_sel subsetD)+)
qed

text \<open>
  \<^verbatim>\<open>remove_substr\<close> on strings. It returns \<^verbatim>\<open>NULL\<close> if the string is shorter than the one to remove, and otherwise what is left of it after the occurrences have been
  taken out from the left to the right; with an empty string to remove it does not return.
\<close>

lemma remove_loop_returns: "remove_loop src sub i res = Some y \<Longrightarrow> sub = [] \<longrightarrow> length src < i"
proof (rule remove_loop.raw_induct [of "\<lambda>src sub i res y. sub = [] \<longrightarrow> length src < i"])
  fix f :: "bytes \<Rightarrow> bytes \<Rightarrow> nat \<Rightarrow> bytes \<Rightarrow> bytes option" and src sub :: bytes and i res y
  assume "\<And>src sub i res y. f src sub i res = Some y \<Longrightarrow> sub = [] \<longrightarrow> length src < i"
    and "(if length src < i then Some res
      else if i \<le> length src - length sub \<and> slice i (length sub) src = sub then f src sub (i + length sub) res
      else f src sub (i + 1) (res @ [(src @ [0]) ! i])) = Some y"
  then show "sub = [] \<longrightarrow> length src < i" by (auto simp: slice_Zero split: if_splits)
qed

theorem remove_substr_correct:
  assumes "0 \<notin> set src"
  shows "remove_substr src sub = (if length src < length sub then Some None else if sub = [] then None else Some (Some (without sub src)))"
proof (cases "length src < length sub \<or> sub = []")
  case True
  then show ?thesis using remove_loop_returns [of src "[]" 0 "[]"] by (cases "remove_loop src [] 0 []") (auto simp: remove_substr_def)
next
  case False
  have "\<forall>c \<in> set (without sub src). c \<noteq> 0" using without_chars [of sub src] assms by blast
  then have "takeWhile (\<lambda>c. c \<noteq> 0) (without sub src @ [0]) = without sub src" by (simp add: takeWhile_append2)
  then show ?thesis using False remove_loop_without [of sub 0 src "[]"] by (simp add: remove_substr_def)
qed

theorem remove_substr_correct_witness:
  "remove_substr (map of_char ''a_EX_EXb'') (map of_char ''_EX'') = Some (Some (map of_char ''ab''))"
  using remove_substr_correct [of "map of_char ''a_EX_EXb''" "map of_char ''_EX''"] by (simp add: of_char_def without.simps)

section \<open>Labels\<close>

definition label_ok :: "byte \<Rightarrow> bool" where
  "label_ok c \<longleftrightarrow> 0x30 \<le> c \<and> c \<le> 0x39 \<or> 0x61 \<le> c \<and> c \<le> 0x7A \<or> c = 0x2E \<or> c = 0x2D"

lemma sint_byte_pos: "0 \<le> sint (c :: byte) \<Longrightarrow> sint c = uint c"
proof -
  assume "0 \<le> sint c"
  moreover have "sint c = uint c - 256 * of_bool (bit (uint c) 7)"
    using signed_take_bit_eq_take_bit_minus [of 7 "uint c"] take_bit_int_eq_self [of "uint c" 8] unsigned_less [of c, where 'a = int] by (simp add: sint_uint)
  moreover have "uint c < 256" using unsigned_less [of c, where 'a = int] by simp
  ultimately show ?thesis by (cases "bit (uint c) 7") auto
qed

lemma label_ok_char: "label_ok (label_char c)"
proof -
  define d where "d = (if 0x41 \<le> c \<and> c \<le> 0x5A then c + 0x20 else c)"
  have "label_ok d" if "\<not> (sint d < 0x30 \<and> d \<noteq> 0x2E)" "\<not> (sint d > 0x39 \<and> sint d < 0x61)" "\<not> sint d > 0x7A" "d \<noteq> 0x2E"
    using that sint_byte_pos [of d] by (auto simp: label_ok_def word_le_def)
  moreover have "label_ok 0x2D" "label_ok 0x2E" by (simp_all add: label_ok_def)
  ultimately have "label_ok (if sint d < 0x30 \<and> d \<noteq> 0x2E \<or> sint d > 0x39 \<and> sint d < 0x61 \<or> sint d > 0x7A then 0x2D else d)"
    by (cases "d = 0x2E") auto
  then show ?thesis by (simp only: label_char_def Let_def d_def)
qed

lemma remove_leading_chars: "set (remove_leading s) \<subseteq> set s"
  by (auto simp: remove_leading_def Let_def memcpy_to_def dest: in_set_takeD in_set_dropD)

lemma remove_trailing_chars: "set (remove_trailing s) \<subseteq> set s"
  by (auto simp: remove_trailing_def dest!: in_set_takeD in_set_dropD set_dropWhileD)

lemma remove_duplicates_chars: "set (remove_duplicates i s) \<subseteq> set s"
proof (induction i s rule: remove_duplicates.induct)
  case (1 i s)
  have "set (take (i + 1) s @ drop (i + 2) s) \<subseteq> set s" by (auto dest: in_set_takeD in_set_dropD)
  then show ?case using 1 by (subst remove_duplicates.simps) (auto split: if_splits)
qed

lemma remove_first_chars: "set (remove_first t s) \<subseteq> set s"
  by (induction s) (auto dest: in_set_dropD)

lemma remove_firsts_chars: "set (foldl (\<lambda>s t. remove_first t s) s ts) \<subseteq> set s"
  by (induction ts arbitrary: s) (use remove_first_chars in fastforce)+

text \<open>No two dashes in a row.\<close>

definition single_dashes :: "nat \<Rightarrow> bytes \<Rightarrow> bool" where
  "single_dashes n s \<longleftrightarrow> (\<forall>j < n. j + 1 < length s \<longrightarrow> \<not> (s ! j = 0x2D \<and> s ! (j + 1) = 0x2D))"

lemma remove_duplicates_single:
  assumes "single_dashes i s" "s \<noteq> []" "last s \<noteq> 0x2D" "hd s \<noteq> 0x2D"
  defines "t \<equiv> remove_duplicates i s"
  shows "single_dashes (length t) t \<and> t \<noteq> [] \<and> last t \<noteq> 0x2D \<and> hd t \<noteq> 0x2D \<and>
    filter (\<lambda>c. c \<noteq> 0x2D) t = filter (\<lambda>c. c \<noteq> 0x2D) s"
  using assms(1-4) unfolding t_def
proof (induction i s rule: remove_duplicates.induct)
  case (1 i s)
  show ?case
  proof (cases "length s \<ge> 2 \<and> i < length s - 2")
    case loop: True
    show ?thesis
    proof (cases "s ! i = 0x2D \<and> s ! (i + 1) = 0x2D")
      case True
      define u where "u = take (i + 1) s @ drop (i + 2) s"
      have "\<not> (u ! j = 0x2D \<and> u ! (j + 1) = 0x2D)" if "j < i" for j
      proof -
        have "u ! j = s ! j" "u ! (j + 1) = s ! (j + 1)" using that loop by (auto simp: u_def nth_append)
        then show ?thesis using that loop 1(3) by (auto simp: single_dashes_def)
      qed
      then have "single_dashes i u" by (simp add: single_dashes_def)
      moreover have "u \<noteq> []" "last u = last s" "hd u = hd s" using loop 1(4) by (auto simp: u_def hd_append)
      moreover have "filter (\<lambda>c. c \<noteq> 0x2D) u = filter (\<lambda>c. c \<noteq> 0x2D) s"
      proof -
        have "i + 1 < length s" using loop by linarith
        then have "s = take (i + 1) s @ s ! (i + 1) # drop (i + 2) s" using id_take_nth_drop [of "i + 1" s] by simp
        then have "filter (\<lambda>c. c \<noteq> 0x2D) s = filter (\<lambda>c. c \<noteq> 0x2D) (take (i + 1) s @ s ! (i + 1) # drop (i + 2) s)" by simp
        then show ?thesis using True by (simp add: u_def)
      qed
      moreover have "remove_duplicates i s = remove_duplicates i u" using loop True by (subst remove_duplicates.simps) (simp add: u_def)
      ultimately show ?thesis using 1(1) [OF loop True, folded u_def] 1(5,6) by simp
    next
      case False
      then have "single_dashes (i + 1) s" using 1(3) by (auto simp: single_dashes_def less_Suc_eq)
      moreover have "remove_duplicates i s = remove_duplicates (i + 1) s" by (subst remove_duplicates.simps) (simp only: if_P [OF loop] if_not_P [OF False])
      ultimately show ?thesis using 1(2) [OF loop False] 1(4-6) by simp
    qed
  next
    case False
    have "\<not> (s ! j = 0x2D \<and> s ! (j + 1) = 0x2D)" if "j + 1 < length s" for j
    proof (cases "j < i")
      case True
      then show ?thesis using 1(3) that by (auto simp: single_dashes_def)
    next
      case False
      then have "j + 1 = length s - 1" using that \<open>\<not> (length s \<ge> 2 \<and> i < length s - 2)\<close> by linarith
      then show ?thesis using 1(4,5) by (simp add: last_conv_nth)
    qed
    then have "single_dashes (length s) s" by (simp add: single_dashes_def)
    moreover have "remove_duplicates i s = s" by (subst remove_duplicates.simps) (simp only: if_not_P [OF False])
    ultimately show ?thesis using 1(4-6) by simp
  qed
qed

lemma remove_trailing_shape:
  assumes "s \<noteq> []" "hd s \<noteq> 0x2D"
  shows "remove_trailing s \<noteq> []" "hd (remove_trailing s) = hd s" "last (remove_trailing s) \<noteq> 0x2D"
    "filter (\<lambda>c. c \<noteq> 0x2D) (remove_trailing s) = filter (\<lambda>c. c \<noteq> 0x2D) s"
proof -
  obtain c r where s: "s = c # r" using assms(1) by (cases s) auto
  define u where "u = rev (dropWhile (\<lambda>c. c = 0x2D) (rev r))"
  have t: "remove_trailing s = c # u" by (simp add: remove_trailing_def s u_def)
  show "remove_trailing s \<noteq> []" "hd (remove_trailing s) = hd s" unfolding t by (simp_all add: s)
  show "last (remove_trailing s) \<noteq> 0x2D"
    using hd_dropWhile [of "\<lambda>c. c = 0x2D" "rev r"] assms(2) unfolding t by (auto simp: s u_def last_rev)
  have "r = u @ rev (takeWhile (\<lambda>c. c = 0x2D) (rev r))"
    by (metis rev_append rev_rev_ident takeWhile_dropWhile_id u_def)
  moreover have "filter (\<lambda>c. c \<noteq> 0x2D) (rev (takeWhile (\<lambda>c. c = 0x2D) (rev r))) = []"
    by (auto simp: filter_empty_conv dest: set_takeWhileD)
  ultimately have "filter (\<lambda>c. c \<noteq> 0x2D) r = filter (\<lambda>c. c \<noteq> 0x2D) u" by (metis append_Nil2 filter_append)
  then show "filter (\<lambda>c. c \<noteq> 0x2D) (remove_trailing s) = filter (\<lambda>c. c \<noteq> 0x2D) s" unfolding t by (simp add: s)
qed

text \<open>
  \<^verbatim>\<open>sanitize_label\<close> on a label that does not begin with a separator, if it does not fail: the known suffixes are taken out of a string that has the letters, digits and
  dots of the label, in lower case and in their order, separated by single dashes, none of them at its ends; only these characters are left.
\<close>

theorem sanitize_label_correct:
  assumes "label \<noteq> []" "label_char (hd label) \<noteq> 0x2D" "fst (sanitize_label label) = 0"
  shows "\<exists>t. snd (sanitize_label label) = foldl (\<lambda>s x. remove_first x s) t label_suffixes \<and>
    filter (\<lambda>c. c \<noteq> 0x2D) t = filter (\<lambda>c. c \<noteq> 0x2D) (map label_char label) \<and>
    single_dashes (length t) t \<and> t \<noteq> [] \<and> hd t \<noteq> 0x2D \<and> last t \<noteq> 0x2D \<and> (\<forall>c \<in> set (snd (sanitize_label label)). label_ok c)"
proof -
  define s where "s = map label_char label"
  have hd: "s \<noteq> []" "hd s \<noteq> 0x2D" using assms(1,2) by (simp_all add: s_def hd_map)
  then have lead: "remove_leading s = s" by (cases s) (simp_all add: remove_leading_def)
  note trail = remove_trailing_shape [OF hd]
  define t where "t = remove_duplicates 0 (remove_trailing s)"
  have "single_dashes 0 (remove_trailing s)" by (simp add: single_dashes_def)
  then have t: "single_dashes (length t) t" "t \<noteq> []" "last t \<noteq> 0x2D" "hd t \<noteq> 0x2D" "filter (\<lambda>c. c \<noteq> 0x2D) t = filter (\<lambda>c. c \<noteq> 0x2D) s"
    using remove_duplicates_single [of 0 "remove_trailing s"] trail hd by (simp_all add: t_def)
  have r: "snd (sanitize_label label) = foldl (\<lambda>s x. remove_first x s) t label_suffixes"
    using assms(3) unfolding sanitize_label_def Let_def s_def [symmetric] lead t_def [symmetric] by (auto split: if_splits)
  have "set (snd (sanitize_label label)) \<subseteq> set s"
    using r remove_firsts_chars [of t label_suffixes] remove_duplicates_chars [of 0 "remove_trailing s"] remove_trailing_chars [of s]
    by (auto simp: t_def)
  then have "\<forall>c \<in> set (snd (sanitize_label label)). label_ok c" using label_ok_char by (auto simp: s_def)
  then show ?thesis using r t by (auto simp: s_def)
qed

text \<open>A label that begins with separators keeps as many of its last characters twice as it had separators.\<close>

theorem sanitize_label_correct_witness:
  "\<exists>t. map of_char ''debian-12'' = foldl (\<lambda>s x. remove_first x s) t label_suffixes \<and> single_dashes (length t) t \<and> last t \<noteq> 0x2D"
proof -
  have r: "sanitize_label (map of_char ''Debian_12_AMD64_'') = (0, map of_char ''debian-12'')" by code_simp
  have "label_char (hd (map of_char ''Debian_12_AMD64_'')) \<noteq> 0x2D" by code_simp
  then show ?thesis using sanitize_label_correct [of "map of_char ''Debian_12_AMD64_''"] r by auto
qed

lemma leading_separator_duplicates: "sanitize_label (map of_char ''__abc'') = (0, map of_char ''abcbc'')"
  by code_simp

end
