(* ===== verification/Str_Array.thy ===== *)
theory Str_Array
  imports Rufus_Prelude
begin

text \<open>
  The growing arrays of strings of \<^verbatim>\<open>src/common/stdfn.c\<close>. The table is a list of pointers to strings, in which \<open>None\<close> is \<^verbatim>\<open>NULL\<close> or a value that has not been set, and the
  field \<open>arr_String\<close> is \<open>None\<close> where the code has a \<^verbatim>\<open>NULL\<close> table. Whether allocations succeed is an argument. The outer \<open>None\<close> of a result is an access outside the
  table, or through a \<^verbatim>\<open>NULL\<close> entry. Strings are values: that an array shares a string which it has not duplicated is not modelled.
\<close>

section \<open>The code\<close>

record str_array =
  arr_String :: "bytes option list option"
  arr_Index :: u32
  arr_Max :: u32

definition StrArrayCreate :: "bool \<Rightarrow> u32 \<Rightarrow> str_array" where
  "StrArrayCreate calloc_ok initial_size =
     \<lparr>arr_String = (if calloc_ok then Some (replicate (unat initial_size) None) else None), arr_Index = 0, arr_Max = initial_size\<rparr>"

text \<open>\<^verbatim>\<open>realloc\<close> of the table to \<open>n\<close> entries.\<close>

definition resize :: "nat \<Rightarrow> 'a option list \<Rightarrow> 'a option list" where
  "resize n tab = take n tab @ replicate (n - length tab) None"

definition StrArrayAdd :: "bool \<Rightarrow> bool \<Rightarrow> bytes option \<Rightarrow> bool \<Rightarrow> str_array \<Rightarrow> (int \<times> str_array) option" where
  "StrArrayAdd realloc_ok strdup_ok str duplicate arr =
     (case (arr_String arr, str) of
        (Some tab, Some s) \<Rightarrow>
          let grow = (arr_Index arr = arr_Max arr);
              arr' = (if grow then arr\<lparr>arr_Max := arr_Max arr * 2\<rparr> else arr)
          in if grow \<and> \<not> realloc_ok then Some (-1, arr'\<lparr>arr_String := None\<rparr>)
             else let tab' = (if grow then resize (unat (arr_Max arr * 2)) tab else tab);
                      entry = (if duplicate \<and> \<not> strdup_ok then None else Some s)
                  in if unat (arr_Index arr) \<ge> length tab' then None
                     else let arr'' = arr'\<lparr>arr_String := Some (tab'[unat (arr_Index arr) := entry])\<rparr>
                          in if entry = None then Some (-1, arr'')
                             else Some (sint (arr_Index arr), arr''\<lparr>arr_Index := arr_Index arr + 1\<rparr>)
      | _ \<Rightarrow> Some (-1, arr))"

fun find_loop :: "bytes option list \<Rightarrow> bytes \<Rightarrow> nat list \<Rightarrow> int option" where
  "find_loop tab s [] = Some (-1)"
| "find_loop tab s (i # is) =
     (if length tab \<le> i then None
      else case tab ! i of
             None \<Rightarrow> None
           | Some t \<Rightarrow> if t = s then Some (sint (of_nat i :: u32)) else find_loop tab s is)"

definition StrArrayFind :: "str_array \<Rightarrow> bytes option \<Rightarrow> int option" where
  "StrArrayFind arr str =
     (case (arr_String arr, str) of
        (Some tab, Some s) \<Rightarrow> find_loop tab s [0..<unat (arr_Index arr)]
      | _ \<Rightarrow> Some (-1))"

definition StrArrayClear :: "str_array \<Rightarrow> str_array option" where
  "StrArrayClear arr =
     (case arr_String arr of
        None \<Rightarrow> Some arr
      | Some tab \<Rightarrow> if unat (arr_Index arr) > length tab then None
                    else Some (arr\<lparr>arr_String := Some (replicate (unat (arr_Index arr)) None @ drop (unat (arr_Index arr)) tab), arr_Index := 0\<rparr>))"

definition StrArrayDestroy :: "str_array \<Rightarrow> str_array option" where
  "StrArrayDestroy arr = map_option (\<lambda>a. a\<lparr>arr_String := None\<rparr>) (StrArrayClear arr)"

definition IsStrArrayEmpty :: "str_array \<Rightarrow> bool" where
  "IsStrArrayEmpty arr \<longleftrightarrow> arr_Index arr = 0"

section \<open>Lists of strings\<close>

text \<open>What the callers use: a list of strings to which strings are added at the end, and which is searched from its beginning.\<close>

definition first_index :: "'a \<Rightarrow> 'a list \<Rightarrow> int" where
  "first_index x xs = (if x \<in> set xs then int (length (takeWhile (\<lambda>y. y \<noteq> x) xs)) else -1)"

fun add_all :: "(bytes \<Rightarrow> 's \<Rightarrow> (int \<times> 's) option) \<Rightarrow> bytes list \<Rightarrow> 's \<Rightarrow> (int list \<times> 's) option" where
  "add_all add [] a = Some ([], a)"
| "add_all add (s # ss) a =
     (case add s a of
        None \<Rightarrow> None
      | Some (i, a') \<Rightarrow> (case add_all add ss a' of None \<Rightarrow> None | Some (is, a'') \<Rightarrow> Some (i # is, a'')))"

locale string_list =
  fixes ok :: "'s \<Rightarrow> bool" and contents :: "'s \<Rightarrow> bytes list" and capacity :: nat
    and add :: "bytes \<Rightarrow> 's \<Rightarrow> (int \<times> 's) option" and find_string :: "'s \<Rightarrow> bytes \<Rightarrow> int option"
  assumes add_ok: "ok a \<Longrightarrow> length (contents a) < capacity \<Longrightarrow>
      \<exists>a'. add s a = Some (int (length (contents a)), a') \<and> ok a' \<and> contents a' = contents a @ [s]"
    and find_ok: "ok a \<Longrightarrow> length (contents a) \<le> capacity \<Longrightarrow> find_string a s = Some (first_index s (contents a))"
begin

lemma add_all_ok:
  "ok a \<Longrightarrow> length (contents a) + length ss \<le> capacity \<Longrightarrow>
   \<exists>a'. add_all add ss a = Some (map int [length (contents a)..<length (contents a) + length ss], a') \<and> ok a' \<and> contents a' = contents a @ ss"
proof (induction ss arbitrary: a)
  case (Cons s ss)
  then obtain a' where a': "add s a = Some (int (length (contents a)), a')" "ok a'" "contents a' = contents a @ [s]"
    using add_ok [of a s] by auto
  then obtain a'' where "add_all add ss a' = Some (map int [length (contents a')..<length (contents a') + length ss], a'')" "ok a''"
    "contents a'' = contents a' @ ss"
    using Cons by fastforce
  moreover have "[length (contents a)..<length (contents a) + length (s # ss)] = length (contents a) # [length (contents a')..<length (contents a') + length ss]"
    using upt_conv_Cons [of "length (contents a)" "length (contents a) + length (s # ss)"] a'(3) by (simp del: upt_Suc)
  ultimately show ?case using a' by (simp del: upt_Suc)
qed simp

lemma find_added:
  assumes "ok a" "contents a = []" "length ss \<le> capacity"
  shows "\<exists>a'. add_all add ss a = Some (map int [0..<length ss], a') \<and> (\<forall>s. find_string a' s = Some (first_index s ss))"
  using add_all_ok [of a ss] find_ok assms by fastforce

end

section \<open>The arrays are lists of strings\<close>

definition array_ok :: "str_array \<Rightarrow> bool" where
  "array_ok arr \<longleftrightarrow> arr_Max arr \<noteq> 0 \<and>
     (\<exists>tab. arr_String arr = Some tab \<and> length tab = unat (arr_Max arr) \<and> unat (arr_Index arr) \<le> unat (arr_Max arr) \<and>
       (\<forall>i < unat (arr_Index arr). tab ! i \<noteq> None))"

definition array_contents :: "str_array \<Rightarrow> bytes list" where
  "array_contents arr = (case arr_String arr of None \<Rightarrow> [] | Some tab \<Rightarrow> map the (take (unat (arr_Index arr)) tab))"

lemma add_entry:
  assumes "array_ok arr" "length (array_contents arr) < 2 ^ 31"
  shows "\<exists>arr'. StrArrayAdd True True (Some s) duplicate arr = Some (int (length (array_contents arr)), arr') \<and>
    array_ok arr' \<and> array_contents arr' = array_contents arr @ [s]"
proof -
  obtain tab where tab: "arr_String arr = Some tab" "length tab = unat (arr_Max arr)" "unat (arr_Index arr) \<le> unat (arr_Max arr)" "arr_Max arr \<noteq> 0"
    "\<forall>i < unat (arr_Index arr). tab ! i \<noteq> None"
    using assms(1) by (auto simp: array_ok_def)
  define n where "n = unat (arr_Index arr)"
  have c: "array_contents arr = map the (take n tab)" "length (array_contents arr) = n"
    using tab by (simp_all add: array_contents_def n_def)
  have n: "n < 2 ^ 31" "sint (arr_Index arr) = int n" "unat (arr_Index arr + 1) = n + 1"
  proof -
    show less: "n < 2 ^ 31" using assms(2) c(2) by simp
    have u: "uint (arr_Index arr) = int n" by (simp add: n_def)
    show "sint (arr_Index arr) = int n" using less by (simp add: sint_uint u signed_take_bit_int_eq_self)
    show "unat (arr_Index arr + 1) = n + 1" using less by (simp add: n_def unat_word_ariths)
  qed
  define grow where "grow = (arr_Index arr = arr_Max arr)"
  define m where "m = (if grow then arr_Max arr * 2 else arr_Max arr)"
  define tab' where "tab' = (if grow then resize (unat m) tab else tab)"
  have max0: "0 < unat (arr_Max arr)" using tab(4) by (simp add: word_unat_eq_iff)
  have eq: "grow \<longleftrightarrow> n = unat (arr_Max arr)" by (simp add: grow_def n_def word_unat_eq_iff)
  have m: "unat m = (if grow then 2 * unat (arr_Max arr) else unat (arr_Max arr))"
    using eq n(1) by (simp add: m_def unat_word_ariths)
  then have "m \<noteq> 0" using max0 by (auto simp: word_unat_eq_iff split: if_splits)
  have less: "n < unat m" using m eq max0 tab(3) by (simp add: n_def split: if_splits)
  have tab': "length tab' = unat m" "take n tab' = take n tab" "\<forall>i < n. tab' ! i \<noteq> None"
    using tab m by (auto simp: tab'_def resize_def n_def nth_append)
  define arr' where "arr' = arr\<lparr>arr_Max := m, arr_String := Some (tab'[n := Some s]), arr_Index := arr_Index arr + 1\<rparr>"
  have "StrArrayAdd True True (Some s) duplicate arr = Some (int n, arr')"
    using tab(1) tab'(1) less n(2) by (auto simp: StrArrayAdd_def Let_def arr'_def tab'_def m_def grow_def n_def)
  moreover have "array_ok arr'"
    using tab' \<open>m \<noteq> 0\<close> less n(3) by (auto simp: array_ok_def arr'_def nth_list_update less_Suc_eq)
  moreover have "array_contents arr' = array_contents arr @ [s]"
    using tab' less n(3) c(1) by (simp add: array_contents_def arr'_def take_Suc_conv_app_nth)
  ultimately show ?thesis using c(2) by auto
qed

lemma find_loop_first:
  assumes "\<forall>i < n. \<exists>t. tab ! i = Some t" "n \<le> length tab" "n \<le> 2 ^ 31" "k \<le> n"
  shows "find_loop tab s [k..<n] =
    Some (if s \<in> set (map the (drop k (take n tab))) then int (k + length (takeWhile (\<lambda>t. t \<noteq> s) (map the (drop k (take n tab))))) else -1)"
  using assms(4)
proof (induction "n - k" arbitrary: k)
  case (Suc d)
  then have k: "k < n" by simp
  obtain t where t: "tab ! k = Some t" using assms(1) k by blast
  have "sint (of_nat k :: u32) = int k"
    using k assms(3) by (simp add: sint_uint uint_nat unsigned_of_nat take_bit_nat_eq_self signed_take_bit_int_eq_self_iff)
  moreover have "drop k (take n tab) = Some t # drop (Suc k) (take n tab)"
    using k assms(2) t by (simp add: Cons_nth_drop_Suc [symmetric])
  ultimately show ?case
    using Suc k t assms(2) by (auto simp: upt_conv_Cons)
qed simp

interpretation sa: string_list array_ok array_contents "2 ^ 31" "\<lambda>s. StrArrayAdd True True (Some s) True" "\<lambda>arr s. StrArrayFind arr (Some s)"
proof
  show "\<exists>a'. StrArrayAdd True True (Some s) True a = Some (int (length (array_contents a)), a') \<and> array_ok a' \<and> array_contents a' = array_contents a @ [s]"
    if "array_ok a" "length (array_contents a) < 2 ^ 31" for a s using that by (rule add_entry)
  show "StrArrayFind a (Some s) = Some (first_index s (array_contents a))"
    if a: "array_ok a" "length (array_contents a) \<le> 2 ^ 31" for a s
  proof -
    obtain tab where tab: "arr_String a = Some tab" "length tab = unat (arr_Max a)" "unat (arr_Index a) \<le> unat (arr_Max a)" "\<forall>i < unat (arr_Index a). tab ! i \<noteq> None"
      using a(1) by (auto simp: array_ok_def)
    then show ?thesis
      using find_loop_first [of "unat (arr_Index a)" tab 0 s] a(2)
      by (simp add: StrArrayFind_def array_contents_def first_index_def)
  qed
qed

lemma create_ok: "initial_size \<noteq> 0 \<Longrightarrow> array_ok (StrArrayCreate True initial_size) \<and> array_contents (StrArrayCreate True initial_size) = []"
  by (simp add: array_ok_def array_contents_def StrArrayCreate_def)

lemma clear_ok: "array_ok arr \<Longrightarrow> \<exists>arr'. StrArrayClear arr = Some arr' \<and> array_ok arr' \<and> array_contents arr' = [] \<and> arr_Max arr' = arr_Max arr"
  by (auto simp: array_ok_def array_contents_def StrArrayClear_def)

lemma destroy_ok: "array_ok arr \<Longrightarrow> \<exists>arr'. StrArrayDestroy arr = Some arr' \<and> arr_String arr' = None"
  by (auto simp: StrArrayDestroy_def dest: clear_ok)

text \<open>
  C38. An array of strings refines a list. If strings are added to an array that has been created with room for at least one, and memory suffices, each gets the next index,
  however often the table grows, and afterwards \<^verbatim>\<open>StrArrayFind\<close> returns the index of the first occurrence of a string, or -1 for a string that was not added.
\<close>

theorem str_array_list:
  assumes "initial_size \<noteq> 0" "length ss \<le> 2 ^ 31"
  shows "\<exists>arr. add_all (\<lambda>s. StrArrayAdd True True (Some s) True) ss (StrArrayCreate True initial_size) = Some (map int [0..<length ss], arr) \<and>
    (\<forall>s. StrArrayFind arr (Some s) = Some (first_index s ss))"
  using sa.find_added [of "StrArrayCreate True initial_size" ss] create_ok [OF assms(1)] assms(2) by simp

theorem str_array_list_witness:
  "\<exists>arr. add_all (\<lambda>s. StrArrayAdd True True (Some s) True) [[0x61], [0x62], [0x61]] (StrArrayCreate True 1) = Some ([0, 1, 2], arr) \<and>
    StrArrayFind arr (Some [0x61]) = Some 0 \<and> StrArrayFind arr (Some [0x63]) = Some (-1)"
  using str_array_list [of 1 "[[0x61], [0x62], [0x61]]"] by (auto simp: first_index_def upt_rec)

section \<open>Failures\<close>

text \<open>A string that cannot be duplicated is not added; a table that cannot grow is given up, and the array then finds nothing.\<close>

lemma strdup_failure:
  assumes "array_ok arr" "arr_Index arr \<noteq> arr_Max arr"
  shows "\<exists>arr'. StrArrayAdd realloc_ok False (Some s) True arr = Some (-1, arr') \<and> array_ok arr' \<and> array_contents arr' = array_contents arr"
proof -
  obtain tab where tab: "arr_String arr = Some tab" "length tab = unat (arr_Max arr)" "unat (arr_Index arr) \<le> unat (arr_Max arr)" "arr_Max arr \<noteq> 0"
    "\<forall>i < unat (arr_Index arr). tab ! i \<noteq> None"
    using assms(1) by (auto simp: array_ok_def)
  have "unat (arr_Index arr) < unat (arr_Max arr)" using assms(2) tab(3) by (simp add: word_unat_eq_iff)
  then show ?thesis using tab assms(2) by (auto simp: StrArrayAdd_def Let_def array_ok_def array_contents_def)
qed

lemma realloc_failure:
  assumes "array_ok arr" "arr_Index arr = arr_Max arr"
  shows "\<exists>arr'. StrArrayAdd False strdup_ok (Some s) duplicate arr = Some (-1, arr') \<and> StrArrayFind arr' t = Some (-1)"
  using assms by (auto simp: array_ok_def StrArrayAdd_def StrArrayFind_def)

text \<open>An array that is created without room never gets any: doubling leaves it at zero, and the first string is stored outside the table.\<close>

lemma empty_array_overrun: "StrArrayAdd True True (Some s) duplicate (StrArrayCreate True 0) = None"
  by (simp add: StrArrayAdd_def StrArrayCreate_def resize_def)

end
