(* ===== verification/Iso_Props.thy ===== *)
theory Iso_Props
  imports C_Strings Str_Array
begin

text \<open>
  The scan of an ISO image in \<^verbatim>\<open>src/iso.c\<close>: \<^verbatim>\<open>check_iso_props\<close>, which is called for every file and collects what the image contains in \<^verbatim>\<open>img_report\<close>, and
  \<^verbatim>\<open>sanitize_filename\<close>. The record has the fields of \<^verbatim>\<open>RUFUS_IMG_REPORT\<close> that the scan sets or a macro reads. A string is the list of its characters before the
  terminating zero, and a copy into a field is cut to its size. The string arrays are those of \<^verbatim>\<open>Str_Array\<close>, \<open>None\<close> being an access outside one; allocations succeed.
  The length of a file, an \<^verbatim>\<open>int64_t\<close>, is a natural number. The walk over the directories that calls the function, which needs the library that reads the image, is not modelled;
  \<open>scan_files\<close> calls it for each file of a list.
\<close>

section \<open>The state\<close>

record extract_props =
  is_cfg :: bool
  is_conf :: bool
  is_syslinux_cfg :: bool
  is_grub_cfg :: bool
  is_menu_cfg :: bool
  is_old_c32 :: "bool list"

record img_report =
  reactos_path :: bytes
  wininst_path :: "bytes list"
  efi_boot_entry :: "(nat \<times> bytes) list"
  efi_img_path :: bytes
  disable_iso :: bool
  winpe :: u16
  has_efi :: u16
  has_md5sum :: nat
  wininst_index :: nat
  has_4GB_file :: bool
  has_bootmgr :: bool
  has_bootmgr_efi :: bool
  has_old_c32 :: "bool list"
  has_efi_syslinux :: bool
  has_grub4dos :: bool
  has_grub2 :: nat
  has_panther_unattend :: bool
  has_kolibrios :: bool
  uses_casper :: bool
  uses_minint :: bool
  sl_version :: u16

record iso_scan =
  report :: img_report
  config_path :: "str_array option"
  isolinux_path :: "str_array option"
  has_ldlinux_c32 :: bool
  total_blocks :: u64

text \<open>A file of the image: the directory, which may be \<^verbatim>\<open>NULL\<close>, the length, the name and the path.\<close>

record iso_file =
  psz_dirname :: "bytes option"
  file_length :: nat
  psz_basename :: bytes
  psz_fullpath :: bytes

definition safe_str :: "bytes option \<Rightarrow> bytes" where
  "safe_str s = (case s of None \<Rightarrow> map of_char ''<NULL>'' | Some t \<Rightarrow> t)"

definition in_dir :: "iso_file \<Rightarrow> string \<Rightarrow> bool" where
  "in_dir f d \<longleftrightarrow> stricmp (safe_str (psz_dirname f)) (map of_char d)"

definition named :: "iso_file \<Rightarrow> string \<Rightarrow> bool" where
  "named f n \<longleftrightarrow> stricmp (psz_basename f) (map of_char n)"

text \<open>The last \<open>n\<close> characters.\<close>

definition suffix_of :: "nat \<Rightarrow> bytes \<Rightarrow> bytes" where
  "suffix_of n s = drop (length s - n) s"

definition static_strcpy :: "nat \<Rightarrow> bytes \<Rightarrow> bytes" where
  "static_strcpy sz s = take (sz - 1) s"

definition add_path :: "bytes \<Rightarrow> str_array option \<Rightarrow> str_array option" where
  "add_path p arr = (case arr of None \<Rightarrow> None | Some a \<Rightarrow> map_option snd (StrArrayAdd True True (Some p) True a))"

fun strstr :: "bytes \<Rightarrow> bytes \<Rightarrow> bool" where
  "strstr [] t \<longleftrightarrow> t = []"
| "strstr (c # s) t \<longleftrightarrow> take (length t) (c # s) = t \<or> strstr s t"

section \<open>The code\<close>

subsection \<open>Names\<close>

definition syslinux_cfg :: "string list" where
  "syslinux_cfg = [''isolinux.cfg'', ''syslinux.cfg'', ''extlinux.conf'', ''txt.cfg'', ''live.cfg'']"

definition old_c32 :: "(string \<times> nat) list" where
  "old_c32 = [(''menu.c32'', 53500), (''vesamenu.c32'', 148000)]"

definition efi_bootname :: "string list" where
  "efi_bootname = [''boot'', ''grub'', ''mm'']"

definition efi_archname :: "string list" where
  "efi_archname = ['''', ''ia32'', ''x64'', ''arm'', ''aa64'', ''ia64'', ''riscv64'', ''loongarch64'', ''ebc'']"

definition grub_dirname :: "string list" where
  "grub_dirname = [''/boot/grub/i386-pc'', ''/boot/grub2/i386-pc'']"

definition wininst_name :: "string list" where
  "wininst_name = [''install.wim'', ''install.esd'', ''install.swm'']"

definition pe_dirname :: "string list" where
  "pe_dirname = [''/i386'', ''/amd64'', ''/minint'']"

definition pe_file :: "string list" where
  "pe_file = [''ntdetect.com'', ''setupldr.bin'', ''txtsetup.sif'']"

definition MAX_WININST :: nat where
  "MAX_WININST = 4"

subsection \<open>The checks\<close>

definition no_props :: extract_props where
  "no_props = \<lparr>is_cfg = False, is_conf = False, is_syslinux_cfg = False, is_grub_cfg = False, is_menu_cfg = False, is_old_c32 = [False, False]\<rparr>"

definition syslinux_check :: "bool \<Rightarrow> iso_file \<Rightarrow> extract_props \<times> iso_scan \<Rightarrow> extract_props \<times> iso_scan" where
  "syslinux_check scan_only f =
     fold (\<lambda>(i, name) (props, st).
       if named f name then
         (props\<lparr>is_cfg := True, is_syslinux_cfg := True\<rparr>,
          st\<lparr>config_path := (if scan_only \<and> i < 3 then add_path (psz_fullpath f) (config_path st) else config_path st),
             report := (report st)\<lparr>has_efi_syslinux := has_efi_syslinux (report st) \<or> scan_only \<and> i = 1 \<and> in_dir f ''/efi/boot''\<rparr>\<rparr>)
       else (props, st)) (enumerate 0 syslinux_cfg)"

definition conf_check :: "iso_file \<Rightarrow> extract_props \<Rightarrow> extract_props" where
  "conf_check f props =
     (if in_dir f ''/loader/entries''
      then props\<lparr>is_conf := length (psz_basename f) > 4 \<and> stricmp (suffix_of 5 (psz_basename f)) (map of_char ''.conf'')\<rparr> else props)"

definition c32_check :: "iso_file \<Rightarrow> extract_props \<Rightarrow> extract_props" where
  "c32_check f props =
     props\<lparr>is_old_c32 := map (\<lambda>(old, name, threshold). old \<or> named f name \<and> file_length f \<le> threshold) (zip (is_old_c32 props) old_c32)\<rparr>"

definition write_checks :: "iso_file \<Rightarrow> extract_props \<Rightarrow> extract_props \<times> bool" where
  "write_checks f props =
     (let props = (if length (psz_basename f) \<ge> 4 \<and> stricmp (suffix_of 4 (psz_basename f)) (map of_char ''.cfg'')
        then props\<lparr>is_cfg := True, is_grub_cfg := is_grub_cfg props \<or> named f ''grub.cfg'' \<or> named f ''loopback.cfg'',
               is_menu_cfg := is_menu_cfg props \<or> named f ''menu.cfg''\<rparr>
        else props)
      in (props, psz_dirname f = Some [] \<and> named f ''ldlinux.sys''))"

text \<open>The first entry of the table that is free gets the boot loader.\<close>

fun add_boot_entry :: "nat \<Rightarrow> bytes \<Rightarrow> (nat \<times> bytes) list \<Rightarrow> (nat \<times> bytes) list" where
  "add_boot_entry ty p [] = []"
| "add_boot_entry ty p (e # es) = (if snd e = [] then (ty, static_strcpy 64 p) # es else e # add_boot_entry ty p es)"

definition dir_checks :: "iso_file \<Rightarrow> img_report \<Rightarrow> img_report" where
  "dir_checks f r =
     (let r = fold (\<lambda>(i, d) r. if in_dir f d then r\<lparr>has_grub2 := i + 1\<rparr> else r) (enumerate 0 grub_dirname) r;
          r = (if strnicmp (safe_str (psz_dirname f)) (map of_char ''/casper'')
               then r\<lparr>uses_casper := True, disable_iso := disable_iso r \<or> strstr (safe_str (psz_dirname f)) (map of_char ''pop-os'')\<rparr> else r)
      in if in_dir f ''/proxmox'' then r\<lparr>disable_iso := True\<rparr> else r)"

definition root_checks :: "iso_file \<Rightarrow> img_report \<Rightarrow> img_report" where
  "root_checks f r =
     (if psz_dirname f = Some [] then
        let r = (if named f ''bootmgr'' then r\<lparr>has_bootmgr := True\<rparr> else r);
            r = (if named f ''bootmgr.efi''
                 then r\<lparr>efi_boot_entry := add_boot_entry 3 (psz_fullpath f) (efi_boot_entry r), has_efi := has_efi r OR 1, has_bootmgr_efi := True\<rparr> else r);
            r = (if named f ''grldr'' then r\<lparr>has_grub4dos := True\<rparr> else r);
            r = (if named f ''kolibri.img'' then r\<lparr>has_kolibrios := True\<rparr> else r);
            r = (if named f ''.miso'' then r\<lparr>disable_iso := True\<rparr> else r);
            r = (if named f ''md5sum.txt'' then r\<lparr>has_md5sum := 1\<rparr> else r)
        in if named f ''MD5SUMS'' then r\<lparr>has_md5sum := 2\<rparr> else r
      else r)"

definition path_checks :: "iso_file \<Rightarrow> img_report \<Rightarrow> img_report" where
  "path_checks f r =
     (let r = (if reactos_path r = [] \<and> (named f ''setupldr.sys'' \<or> named f ''freeldr.sys'')
               then r\<lparr>reactos_path := static_strcpy 128 (psz_fullpath f)\<rparr> else r)
      in if efi_img_path r = [] \<and> length (psz_basename f) \<ge> 7 \<and> strnicmp (psz_basename f) (map of_char ''efi'') \<and>
            stricmp (suffix_of 4 (psz_basename f)) (map of_char ''.img'')
         then r\<lparr>efi_img_path := static_strcpy 128 (psz_fullpath f)\<rparr> else r)"

definition boot_loader_check :: "iso_file \<Rightarrow> nat \<Rightarrow> nat \<Rightarrow> img_report \<Rightarrow> img_report" where
  "boot_loader_check f k i r =
     (if named f (efi_bootname ! k @ efi_archname ! i @ ''.efi'')
      then r\<lparr>has_efi := (if k = 0 then has_efi r OR push_bit i 2 else has_efi r),
             efi_boot_entry := add_boot_entry k (psz_fullpath f) (efi_boot_entry r)\<rparr>
      else r)"

definition efi_checks :: "iso_file \<Rightarrow> img_report \<Rightarrow> img_report" where
  "efi_checks f r =
     (if in_dir f ''/efi/boot'' then
        let r = fold (\<lambda>k r. fold (\<lambda>i r. boot_loader_check f k i r) [0..<9] r) [0..<3] r
        in if named f ''bootx64.efi'' \<and> file_length f < 256
           then r\<lparr>has_efi := has_efi r OR 0x4000, efi_img_path := static_strcpy 128 (map of_char ''[BOOT]/1-Boot-NoEmul.img'')\<rparr> else r
      else r)"

definition windows_checks :: "iso_file \<Rightarrow> img_report \<Rightarrow> img_report" where
  "windows_checks f r =
     (let r = (case psz_dirname f of
                 None \<Rightarrow> r
               | Some d \<Rightarrow>
                   if stricmp (suffix_of 8 d) (map of_char ''/sources'')
                   then fold (\<lambda>name r. if named f name \<and> wininst_index r < MAX_WININST
                          then r\<lparr>wininst_path := (wininst_path r)[wininst_index r := static_strcpy 64 (map of_char ''?:'' @ psz_fullpath f)],
                                 wininst_index := wininst_index r + 1\<rparr> else r) wininst_name r
                   else r);
          r = (if in_dir f ''/sources/$OEM$/$$/Panther'' \<and> named f ''unattend.xml'' then r\<lparr>has_panther_unattend := True\<rparr> else r)
      in fold (\<lambda>(i, d) r. if in_dir f d
                then fold (\<lambda>(j, name) r. if named f name then r\<lparr>winpe := winpe r OR push_bit (3 * i) (push_bit j 1)\<rparr> else r) (enumerate 0 pe_file) r
                else r) (enumerate 0 pe_dirname) r)"

definition last_checks :: "iso_file \<Rightarrow> extract_props \<Rightarrow> img_report \<Rightarrow> img_report" where
  "last_checks f props r =
     (let r = r\<lparr>has_old_c32 := map (\<lambda>(has, is). has \<or> is) (zip (has_old_c32 r) (is_old_c32 props))\<rparr>
      in if file_length f \<ge> 4 * 1073741824 then r\<lparr>has_4GB_file := True\<rparr> else r)"

definition scan_checks :: "iso_file \<Rightarrow> extract_props \<Rightarrow> iso_scan \<Rightarrow> iso_scan" where
  "scan_checks f props st =
     (let r = last_checks f props (windows_checks f (efi_checks f (path_checks f (root_checks f (dir_checks f (report st))))));
          iso = isolinux_path st;
          iso = (if named f ''isolinux.bin'' then add_path (psz_fullpath f) iso else iso);
          iso = (if named f ''boot.bin'' then add_path (psz_fullpath f) iso else iso)
      in st\<lparr>report := r, isolinux_path := iso,
            has_ldlinux_c32 := has_ldlinux_c32 st \<or> named f ''ldlinux.c32'',
            total_blocks := (if file_length f \<noteq> 0 then total_blocks st + of_nat ((file_length f + 2047) div 2048) else total_blocks st)\<rparr>)"

text \<open>The result is the return value, the properties of the file and the state of the scan.\<close>

definition check_iso_props :: "bool \<Rightarrow> iso_file \<Rightarrow> iso_scan \<Rightarrow> bool \<times> extract_props \<times> iso_scan" where
  "check_iso_props scan_only f st =
     (let (props, st) = syslinux_check scan_only f (no_props, st);
          props = c32_check f (conf_check f props)
      in if \<not> scan_only then let (props, skip) = write_checks f props in (skip, props, st)
         else (True, props, scan_checks f props st))"

text \<open>The characters that FAT32 and NTFS do not allow, behind the drive.\<close>

definition sanitize_filename :: "bytes \<Rightarrow> bytes \<times> bool" where
  "sanitize_filename filename =
     (let bad = (\<lambda>c. c \<in> set (map of_char ''*?<>:|''))
      in (take 2 filename @ map (\<lambda>c. if bad c then 0x5F else c) (drop 2 filename), \<not> list_ex bad (drop 2 filename)))"

definition HAS_WINPE :: "img_report \<Rightarrow> bool" where
  "HAS_WINPE r \<longleftrightarrow> winpe r AND 0x0007 = 0x0007 \<or> winpe r AND 0x0023 = 0x0023 \<or> winpe r AND 0x01C0 = 0x01C0"

definition HAS_WINDOWS :: "img_report \<Rightarrow> bool" where
  "HAS_WINDOWS r \<longleftrightarrow> (has_bootmgr r \<or> has_bootmgr_efi r) \<or> uses_minint r \<or> HAS_WINPE r"

definition HAS_PERSISTENCE :: "img_report \<Rightarrow> bool" where
  "HAS_PERSISTENCE r \<longleftrightarrow>
     (sl_version r \<noteq> 0 \<or> has_grub2 r \<noteq> 0 \<or> has_grub4dos r) \<and> \<not> (HAS_WINDOWS r \<or> reactos_path r \<noteq> [] \<or> has_kolibrios r)"

section \<open>What the scan finds\<close>

lemma fold_keep: "(\<And>x r. x \<in> set xs \<Longrightarrow> g (h x r) = g r) \<Longrightarrow> g (fold h xs r) = g r"
  by (induction xs arbitrary: r) auto

text \<open>A field that accumulates bits: what a loop adds to it.\<close>

lemma fold_or:
  "(\<And>x r. x \<in> set xs \<Longrightarrow> g (h x r) \<longleftrightarrow> g r \<or> P x) \<Longrightarrow> g (fold h xs r) \<longleftrightarrow> g r \<or> (\<exists>x \<in> set xs. P x)"
  by (induction xs arbitrary: r) auto

definition iso_disabled_dir :: "iso_file \<Rightarrow> bool" where
  "iso_disabled_dir f \<longleftrightarrow> in_dir f ''/proxmox'' \<or>
     strnicmp (safe_str (psz_dirname f)) (map of_char ''/casper'') \<and> strstr (safe_str (psz_dirname f)) (map of_char ''pop-os'')"

lemma dir_checks_flags [simp]:
  shows "has_bootmgr (dir_checks f r) = has_bootmgr r"
    "has_bootmgr_efi (dir_checks f r) = has_bootmgr_efi r"
    "has_grub4dos (dir_checks f r) = has_grub4dos r"
    "has_kolibrios (dir_checks f r) = has_kolibrios r"
    "has_panther_unattend (dir_checks f r) = has_panther_unattend r"
    "has_4GB_file (dir_checks f r) = has_4GB_file r"
    "has_efi (dir_checks f r) = has_efi r"
    "uses_casper (dir_checks f r) \<longleftrightarrow> uses_casper r \<or> strnicmp (safe_str (psz_dirname f)) (map of_char ''/casper'')"
    "has_efi_syslinux (dir_checks f r) = has_efi_syslinux r"
    "winpe (dir_checks f r) = winpe r"
    "has_old_c32 (dir_checks f r) = has_old_c32 r"
    "has_md5sum (dir_checks f r) = has_md5sum r"
    "disable_iso (dir_checks f r) \<longleftrightarrow> disable_iso r \<or> iso_disabled_dir f"
    "has_grub2 (dir_checks f r) \<noteq> 0 \<longleftrightarrow> has_grub2 r \<noteq> 0 \<or> (\<exists>d \<in> set grub_dirname. in_dir f d)"
  by (auto simp: dir_checks_def Let_def grub_dirname_def iso_disabled_dir_def)

lemma path_checks_flags [simp]:
  shows "has_bootmgr (path_checks f r) = has_bootmgr r"
    "has_bootmgr_efi (path_checks f r) = has_bootmgr_efi r"
    "has_grub4dos (path_checks f r) = has_grub4dos r"
    "has_kolibrios (path_checks f r) = has_kolibrios r"
    "uses_casper (path_checks f r) = uses_casper r"
    "has_panther_unattend (path_checks f r) = has_panther_unattend r"
    "has_4GB_file (path_checks f r) = has_4GB_file r"
    "has_efi (path_checks f r) = has_efi r"
    "has_efi_syslinux (path_checks f r) = has_efi_syslinux r"
    "disable_iso (path_checks f r) = disable_iso r"
    "winpe (path_checks f r) = winpe r"
    "has_old_c32 (path_checks f r) = has_old_c32 r"
    "has_grub2 (path_checks f r) = has_grub2 r"
    "has_md5sum (path_checks f r) = has_md5sum r"
  by (simp_all add: path_checks_def Let_def)

definition in_root :: "iso_file \<Rightarrow> string \<Rightarrow> bool" where
  "in_root f n \<longleftrightarrow> psz_dirname f = Some [] \<and> named f n"

lemma root_checks_flags [simp]:
  shows "has_bootmgr (root_checks f r) \<longleftrightarrow> has_bootmgr r \<or> in_root f ''bootmgr''"
    "has_bootmgr_efi (root_checks f r) \<longleftrightarrow> has_bootmgr_efi r \<or> in_root f ''bootmgr.efi''"
    "has_grub4dos (root_checks f r) \<longleftrightarrow> has_grub4dos r \<or> in_root f ''grldr''"
    "has_kolibrios (root_checks f r) \<longleftrightarrow> has_kolibrios r \<or> in_root f ''kolibri.img''"
    "has_efi (root_checks f r) = (if in_root f ''bootmgr.efi'' then has_efi r OR 1 else has_efi r)"
    "uses_casper (root_checks f r) = uses_casper r"
    "has_panther_unattend (root_checks f r) = has_panther_unattend r"
    "has_4GB_file (root_checks f r) = has_4GB_file r"
    "has_efi_syslinux (root_checks f r) = has_efi_syslinux r"
    "winpe (root_checks f r) = winpe r"
    "has_old_c32 (root_checks f r) = has_old_c32 r"
    "has_grub2 (root_checks f r) = has_grub2 r"
    "disable_iso (root_checks f r) \<longleftrightarrow> disable_iso r \<or> in_root f ''.miso''"
    "has_md5sum (root_checks f r) \<noteq> 0 \<longleftrightarrow> has_md5sum r \<noteq> 0 \<or> in_root f ''md5sum.txt'' \<or> in_root f ''MD5SUMS''"
  by (simp_all add: root_checks_def Let_def in_root_def)

lemma efi_checks_keep:
  assumes "\<And>k i r. g (boot_loader_check f k i r) = g r" "\<And>x y r. g (r\<lparr>has_efi := x, efi_img_path := y\<rparr>) = g r"
  shows "g (efi_checks f r) = g r"
proof -
  have "g (fold (\<lambda>k r. fold (\<lambda>i r. boot_loader_check f k i r) [0..<9] r) [0..<3] r) = g r"
    by (intro fold_keep assms(1))
  then show ?thesis by (simp only: efi_checks_def Let_def assms(2) simp_thms if_distrib [of g] if_cancel cong: if_cong)
qed

lemma efi_checks_flags [simp]:
  shows "has_bootmgr (efi_checks f r) = has_bootmgr r"
    "has_bootmgr_efi (efi_checks f r) = has_bootmgr_efi r"
    "has_grub4dos (efi_checks f r) = has_grub4dos r"
    "has_kolibrios (efi_checks f r) = has_kolibrios r"
    "uses_casper (efi_checks f r) = uses_casper r"
    "has_panther_unattend (efi_checks f r) = has_panther_unattend r"
    "has_4GB_file (efi_checks f r) = has_4GB_file r"
    "has_efi_syslinux (efi_checks f r) = has_efi_syslinux r"
    "disable_iso (efi_checks f r) = disable_iso r"
    "winpe (efi_checks f r) = winpe r"
    "has_old_c32 (efi_checks f r) = has_old_c32 r"
    "has_grub2 (efi_checks f r) = has_grub2 r"
    "has_md5sum (efi_checks f r) = has_md5sum r"
  by (rule efi_checks_keep; simp add: boot_loader_check_def)+

lemma windows_checks_flags [simp]:
  shows "has_bootmgr (windows_checks f r) = has_bootmgr r"
    "has_bootmgr_efi (windows_checks f r) = has_bootmgr_efi r"
    "has_grub4dos (windows_checks f r) = has_grub4dos r"
    "has_kolibrios (windows_checks f r) = has_kolibrios r"
    "uses_casper (windows_checks f r) = uses_casper r"
    "has_4GB_file (windows_checks f r) = has_4GB_file r"
    "has_efi (windows_checks f r) = has_efi r"
    "has_panther_unattend (windows_checks f r) \<longleftrightarrow> has_panther_unattend r \<or> in_dir f ''/sources/$OEM$/$$/Panther'' \<and> named f ''unattend.xml''"
    "has_efi_syslinux (windows_checks f r) = has_efi_syslinux r"
    "disable_iso (windows_checks f r) = disable_iso r"
    "has_old_c32 (windows_checks f r) = has_old_c32 r"
    "has_grub2 (windows_checks f r) = has_grub2 r"
    "has_md5sum (windows_checks f r) = has_md5sum r"
  by (simp_all add: windows_checks_def Let_def fold_keep case_prod_beta split: option.split) auto

lemma last_checks_flags [simp]:
  shows "has_bootmgr (last_checks f props r) = has_bootmgr r"
    "has_bootmgr_efi (last_checks f props r) = has_bootmgr_efi r"
    "has_grub4dos (last_checks f props r) = has_grub4dos r"
    "has_kolibrios (last_checks f props r) = has_kolibrios r"
    "uses_casper (last_checks f props r) = uses_casper r"
    "has_panther_unattend (last_checks f props r) = has_panther_unattend r"
    "has_efi (last_checks f props r) = has_efi r"
    "has_4GB_file (last_checks f props r) \<longleftrightarrow> has_4GB_file r \<or> 4 * 1073741824 \<le> file_length f"
    "has_efi_syslinux (last_checks f props r) = has_efi_syslinux r"
    "disable_iso (last_checks f props r) = disable_iso r"
    "winpe (last_checks f props r) = winpe r"
    "has_grub2 (last_checks f props r) = has_grub2 r"
    "has_md5sum (last_checks f props r) = has_md5sum r"
    "has_old_c32 (last_checks f props r) = map (\<lambda>(has, is). has \<or> is) (zip (has_old_c32 r) (is_old_c32 props))"
  by (simp_all add: last_checks_def Let_def)

definition efi_loader :: "iso_file \<Rightarrow> nat \<Rightarrow> bool" where
  "efi_loader f i \<longleftrightarrow> in_dir f ''/efi/boot'' \<and> named f (''boot'' @ efi_archname ! i @ ''.efi'')"

definition tiny_loader :: "iso_file \<Rightarrow> bool" where
  "tiny_loader f \<longleftrightarrow> in_dir f ''/efi/boot'' \<and> named f ''bootx64.efi'' \<and> file_length f < 256"

definition pe_entry :: "iso_file \<Rightarrow> nat \<Rightarrow> nat \<Rightarrow> bool" where
  "pe_entry f i j \<longleftrightarrow> in_dir f (pe_dirname ! i) \<and> named f (pe_file ! j)"

lemma bit_shifted_1: "n < 16 \<Longrightarrow> bit (push_bit j 1 :: u16) n \<longleftrightarrow> n = j"
proof -
  assume n: "n < 16"
  have "bit (push_bit j 1 :: u16) n \<longleftrightarrow> j \<le> n \<and> bit (1 :: u16) (n - j)"
    using n by (simp only: bit_push_bit_iff) auto
  then show ?thesis by (auto simp only: bit_1_iff)
qed

lemma bit_shifted_2: "n < 16 \<Longrightarrow> bit (push_bit j 2 :: u16) n \<longleftrightarrow> n = j + 1"
proof -
  have "push_bit j 2 = (push_bit (Suc j) 1 :: u16)" by (simp add: push_bit_eq_mult)
  then show "n < 16 \<Longrightarrow> bit (push_bit j 2 :: u16) n \<longleftrightarrow> n = j + 1" using bit_shifted_1 [of n "Suc j"] by simp
qed

lemma boot_loader_check_bit:
  assumes "n < 16"
  shows "bit (has_efi (boot_loader_check f k j r)) n \<longleftrightarrow>
    bit (has_efi r) n \<or> k = 0 \<and> n = j + 1 \<and> named f (''boot'' @ efi_archname ! j @ ''.efi'')"
  using assms by (auto simp: boot_loader_check_def bit_or_iff bit_shifted_2 efi_bootname_def)

lemma efi_checks_bit:
  assumes "n < 16"
  shows "bit (has_efi (efi_checks f r)) n \<longleftrightarrow> bit (has_efi r) n \<or> (\<exists>i < 9. n = i + 1 \<and> efi_loader f i) \<or> n = 14 \<and> tiny_loader f"
proof (cases "in_dir f ''/efi/boot''")
  case True
  define r' where "r' = fold (\<lambda>k r. fold (\<lambda>i r. boot_loader_check f k i r) [0..<9] r) [0..<3] r"
  have inner: "bit (has_efi (fold (\<lambda>i r. boot_loader_check f k i r) [0..<9] r)) n \<longleftrightarrow>
      bit (has_efi r) n \<or> (\<exists>j \<in> set [0..<9]. k = 0 \<and> n = j + 1 \<and> named f (''boot'' @ efi_archname ! j @ ''.efi''))" for k r
    by (rule fold_or [where g = "\<lambda>r. bit (has_efi r) n"]) (rule boot_loader_check_bit [OF assms])
  have "bit (has_efi r') n \<longleftrightarrow> bit (has_efi r) n \<or>
      (\<exists>k \<in> set [0..<3]. \<exists>j \<in> set [0..<9]. k = (0 :: nat) \<and> n = j + 1 \<and> named f (''boot'' @ efi_archname ! j @ ''.efi''))"
    unfolding r'_def by (rule fold_or [where g = "\<lambda>r. bit (has_efi r) n"]) (rule inner)
  moreover have "bit (has_efi (efi_checks f r)) n \<longleftrightarrow> bit (has_efi r') n \<or> n = 14 \<and> tiny_loader f"
  proof -
    have "bit (0x4000 :: u16) n \<longleftrightarrow> n = 14" using bit_shifted_1 [OF assms, of 14] by simp
    then have "bit (x OR 0x4000) n \<longleftrightarrow> bit x n \<or> n = 14" for x :: u16 by (simp only: bit_or_iff)
    then show ?thesis using True by (auto simp: efi_checks_def r'_def Let_def tiny_loader_def)
  qed
  ultimately show ?thesis using True by (auto simp: efi_loader_def)
qed (simp add: efi_checks_def efi_loader_def tiny_loader_def)

lemma bex_enumerate: "(\<exists>(i, x) \<in> set (enumerate 0 xs). P i x) \<longleftrightarrow> (\<exists>i < length xs. P i (xs ! i))"
  by (force simp: in_set_enumerate_eq)

lemma windows_checks_bit:
  assumes "n < 16"
  shows "bit (winpe (windows_checks f r)) n \<longleftrightarrow> bit (winpe r) n \<or> (\<exists>i < 3. \<exists>j < 3. n = 3 * i + j \<and> pe_entry f i j)"
proof -
  have one: "bit (push_bit (3 * i) (push_bit j 1) :: u16) n \<longleftrightarrow> n = 3 * i + j" for i j
    using bit_shifted_1 [OF assms, of "3 * i + j"] by (simp only: push_bit_push_bit)
  let ?file = "\<lambda>i (j, name) r. if named f name then r\<lparr>winpe := winpe r OR push_bit (3 * i) (push_bit j 1)\<rparr> else r"
  let ?dir = "\<lambda>(i, d) r. if in_dir f d then fold (?file i) (enumerate 0 pe_file) r else r"
  have inner: "bit (winpe (fold (?file i) (enumerate 0 pe_file) r)) n \<longleftrightarrow>
      bit (winpe r) n \<or> (\<exists>(j, name) \<in> set (enumerate 0 pe_file). named f name \<and> n = 3 * i + j)" for i r
    by (rule fold_or [where g = "\<lambda>r. bit (winpe r) n"]) (simp add: bit_or_iff one case_prod_beta del: push_bit_of_1 push_bit_push_bit)
  have loop: "bit (winpe (fold ?dir (enumerate 0 pe_dirname) r)) n \<longleftrightarrow> bit (winpe r) n \<or>
      (\<exists>(i, d) \<in> set (enumerate 0 pe_dirname). in_dir f d \<and> (\<exists>(j, name) \<in> set (enumerate 0 pe_file). named f name \<and> n = 3 * i + j))" for r
    by (rule fold_or [where g = "\<lambda>r. bit (winpe r) n"]) (simp add: inner case_prod_beta)
  have entries: "(\<exists>(i, d) \<in> set (enumerate 0 pe_dirname). in_dir f d \<and> (\<exists>(j, name) \<in> set (enumerate 0 pe_file). named f name \<and> n = 3 * i + j)) \<longleftrightarrow>
      (\<exists>i < 3. \<exists>j < 3. n = 3 * i + j \<and> pe_entry f i j)"
  proof -
    have "length pe_dirname = 3" "length pe_file = 3" by (simp_all add: pe_dirname_def pe_file_def)
    then show ?thesis unfolding bex_enumerate pe_entry_def by auto
  qed
  have before: "winpe (case psz_dirname f of
                 None \<Rightarrow> r
               | Some d \<Rightarrow>
                   if stricmp (suffix_of 8 d) (map of_char ''/sources'')
                   then fold (\<lambda>name r. if named f name \<and> wininst_index r < MAX_WININST
                          then r\<lparr>wininst_path := (wininst_path r)[wininst_index r := static_strcpy 64 (map of_char ''?:'' @ psz_fullpath f)],
                                 wininst_index := wininst_index r + 1\<rparr> else r) wininst_name r
                   else r) = winpe r"
    by (simp add: fold_keep split: option.split)
  show ?thesis unfolding windows_checks_def Let_def loop entries using before by simp
qed

text \<open>
  The scan of the files of an image, in the order in which \<^verbatim>\<open>iso_extract_files\<close> and \<^verbatim>\<open>udf_extract_files\<close> pass them to \<^verbatim>\<open>check_iso_props\<close>. What the walk itself adds to the report
  and to \<^verbatim>\<open>total_blocks\<close>, for links and deep directories, is not part of it.
\<close>

definition scan_files :: "iso_file list \<Rightarrow> iso_scan \<Rightarrow> iso_scan" where
  "scan_files fs st = fold (\<lambda>f st. snd (snd (check_iso_props True f st))) fs st"

lemma syslinux_check_report:
  "total_blocks (snd (syslinux_check b f p)) = total_blocks (snd p)"
  "has_efi_syslinux (report (snd (syslinux_check b f p))) \<longleftrightarrow>
     has_efi_syslinux (report (snd p)) \<or> b \<and> named f ''syslinux.cfg'' \<and> in_dir f ''/efi/boot''"
  "\<exists>x. report (snd (syslinux_check b f p)) = (report (snd p))\<lparr>has_efi_syslinux := x\<rparr>"
  "has_ldlinux_c32 (snd (syslinux_check b f p)) = has_ldlinux_c32 (snd p)"
proof -
  show "has_ldlinux_c32 (snd (syslinux_check b f p)) = has_ldlinux_c32 (snd p)"
    unfolding syslinux_check_def by (rule fold_keep) (auto split: prod.split)
  show "total_blocks (snd (syslinux_check b f p)) = total_blocks (snd p)"
    unfolding syslinux_check_def by (rule fold_keep) (auto split: prod.split)
  have "has_efi_syslinux (report (snd (syslinux_check b f p))) \<longleftrightarrow> has_efi_syslinux (report (snd p)) \<or>
      (\<exists>(i, name) \<in> set (enumerate 0 syslinux_cfg). named f name \<and> b \<and> i = 1 \<and> in_dir f ''/efi/boot'')"
    unfolding syslinux_check_def by (rule fold_or [where g = "\<lambda>p. has_efi_syslinux (report (snd p))"]) (auto split: prod.split)
  then show "has_efi_syslinux (report (snd (syslinux_check b f p))) \<longleftrightarrow>
      has_efi_syslinux (report (snd p)) \<or> b \<and> named f ''syslinux.cfg'' \<and> in_dir f ''/efi/boot''"
    by (auto simp: syslinux_cfg_def)
  show "\<exists>x. report (snd (syslinux_check b f p)) = (report (snd p))\<lparr>has_efi_syslinux := x\<rparr>"
    unfolding syslinux_check_def
    by (rule fold_invariant [where Q = "\<lambda>x. True" and P = "\<lambda>q. \<exists>x. report (snd q) = (report (snd p))\<lparr>has_efi_syslinux := x\<rparr>"])
      (auto split: prod.split intro: exI [of _ "has_efi_syslinux (report (snd p))"])
qed

lemma check_iso_props_scan:
  "snd (snd (check_iso_props True f st)) =
     scan_checks f (c32_check f (conf_check f (fst (syslinux_check True f (no_props, st))))) (snd (syslinux_check True f (no_props, st)))"
  by (simp add: check_iso_props_def Let_def case_prod_beta)


lemma scan_file:
  obtains props where
    "report (scan_files [f] st) =
       last_checks f props (windows_checks f (efi_checks f (path_checks f (root_checks f (dir_checks f
         ((report st)\<lparr>has_efi_syslinux := has_efi_syslinux (report st) \<or> named f ''syslinux.cfg'' \<and> in_dir f ''/efi/boot''\<rparr>))))))"
    "is_old_c32 props = map (\<lambda>(name, threshold). named f name \<and> file_length f \<le> threshold) old_c32"
    "total_blocks (scan_files [f] st) = total_blocks st + of_nat ((file_length f + 2047) div 2048)"
    "has_ldlinux_c32 (scan_files [f] st) \<longleftrightarrow> has_ldlinux_c32 st \<or> named f ''ldlinux.c32''"
proof -
  have "is_old_c32 (fst (syslinux_check True f (no_props, st))) = is_old_c32 (fst (no_props, st))"
    unfolding syslinux_check_def by (rule fold_keep) (auto split: prod.split)
  then have c32: "is_old_c32 (c32_check f (conf_check f (fst (syslinux_check True f (no_props, st))))) =
      map (\<lambda>(name, threshold). named f name \<and> file_length f \<le> threshold) old_c32"
    by (simp add: c32_check_def conf_check_def no_props_def old_c32_def)
  let ?x = "has_efi_syslinux (report st) \<or> named f ''syslinux.cfg'' \<and> in_dir f ''/efi/boot''"
  obtain y where y: "report (snd (syslinux_check True f (no_props, st))) = (report st)\<lparr>has_efi_syslinux := y\<rparr>"
    using syslinux_check_report(3) [of True f "(no_props, st)"] by auto
  moreover have "has_efi_syslinux (report (snd (syslinux_check True f (no_props, st)))) = ?x"
    using syslinux_check_report(2) [of True f "(no_props, st)"] by simp
  then have "y = ?x" unfolding y by simp
  ultimately have x: "report (snd (syslinux_check True f (no_props, st))) = (report st)\<lparr>has_efi_syslinux := ?x\<rparr>" by simp
  have rest: "total_blocks (snd (syslinux_check True f (no_props, st))) = total_blocks st"
    "has_ldlinux_c32 (snd (syslinux_check True f (no_props, st))) = has_ldlinux_c32 st"
    using syslinux_check_report(1,4) [of True f "(no_props, st)"] by simp_all
  show thesis
    by (rule that [of "c32_check f (conf_check f (fst (syslinux_check True f (no_props, st))))"])
      (simp_all add: scan_files_def check_iso_props_scan scan_checks_def Let_def x rest c32)
qed

text \<open>What one file adds to the flags.\<close>

lemma scan_file_flags:
  defines "r st \<equiv> report st"
  shows "has_bootmgr (r (scan_files [f] st)) \<longleftrightarrow> has_bootmgr (r st) \<or> in_root f ''bootmgr''"
    "has_bootmgr_efi (r (scan_files [f] st)) \<longleftrightarrow> has_bootmgr_efi (r st) \<or> in_root f ''bootmgr.efi''"
    "has_grub4dos (r (scan_files [f] st)) \<longleftrightarrow> has_grub4dos (r st) \<or> in_root f ''grldr''"
    "has_kolibrios (r (scan_files [f] st)) \<longleftrightarrow> has_kolibrios (r st) \<or> in_root f ''kolibri.img''"
    "has_md5sum (r (scan_files [f] st)) \<noteq> 0 \<longleftrightarrow> has_md5sum (r st) \<noteq> 0 \<or> in_root f ''md5sum.txt'' \<or> in_root f ''MD5SUMS''"
    "has_grub2 (r (scan_files [f] st)) \<noteq> 0 \<longleftrightarrow> has_grub2 (r st) \<noteq> 0 \<or> (\<exists>d \<in> set grub_dirname. in_dir f d)"
    "uses_casper (r (scan_files [f] st)) \<longleftrightarrow> uses_casper (r st) \<or> strnicmp (safe_str (psz_dirname f)) (map of_char ''/casper'')"
    "disable_iso (r (scan_files [f] st)) \<longleftrightarrow> disable_iso (r st) \<or> in_root f ''.miso'' \<or> iso_disabled_dir f"
    "has_efi_syslinux (r (scan_files [f] st)) \<longleftrightarrow> has_efi_syslinux (r st) \<or> named f ''syslinux.cfg'' \<and> in_dir f ''/efi/boot''"
    "has_panther_unattend (r (scan_files [f] st)) \<longleftrightarrow> has_panther_unattend (r st) \<or> in_dir f ''/sources/$OEM$/$$/Panther'' \<and> named f ''unattend.xml''"
    "has_4GB_file (r (scan_files [f] st)) \<longleftrightarrow> has_4GB_file (r st) \<or> 4 * 1073741824 \<le> file_length f"
    "has_ldlinux_c32 (scan_files [f] st) \<longleftrightarrow> has_ldlinux_c32 st \<or> named f ''ldlinux.c32''"
    "total_blocks (scan_files [f] st) = total_blocks st + of_nat ((file_length f + 2047) div 2048)"
    "has_old_c32 (r (scan_files [f] st)) =
       map (\<lambda>(has, name, threshold). has \<or> named f name \<and> file_length f \<le> threshold) (zip (has_old_c32 (r st)) old_c32)"
    "n < 16 \<Longrightarrow> bit (has_efi (r (scan_files [f] st))) n \<longleftrightarrow> bit (has_efi (r st)) n \<or> n = 0 \<and> in_root f ''bootmgr.efi'' \<or>
       (\<exists>i < 9. n = i + 1 \<and> efi_loader f i) \<or> n = 14 \<and> tiny_loader f"
    "n < 16 \<Longrightarrow> bit (winpe (r (scan_files [f] st))) n \<longleftrightarrow> bit (winpe (r st)) n \<or> (\<exists>i < 3. \<exists>j < 3. n = 3 * i + j \<and> pe_entry f i j)"
proof -
  obtain props where x: "report (scan_files [f] st) =
       last_checks f props (windows_checks f (efi_checks f (path_checks f (root_checks f (dir_checks f
         ((report st)\<lparr>has_efi_syslinux := has_efi_syslinux (report st) \<or> named f ''syslinux.cfg'' \<and> in_dir f ''/efi/boot''\<rparr>))))))"
    and props: "is_old_c32 props = map (\<lambda>(name, threshold). named f name \<and> file_length f \<le> threshold) old_c32"
    and rest: "total_blocks (scan_files [f] st) = total_blocks st + of_nat ((file_length f + 2047) div 2048)"
      "has_ldlinux_c32 (scan_files [f] st) \<longleftrightarrow> has_ldlinux_c32 st \<or> named f ''ldlinux.c32''"
    by (rule scan_file)
  from rest show "total_blocks (scan_files [f] st) = total_blocks st + of_nat ((file_length f + 2047) div 2048)"
    "has_ldlinux_c32 (scan_files [f] st) \<longleftrightarrow> has_ldlinux_c32 st \<or> named f ''ldlinux.c32''" by simp_all
  have "bit (1 :: u16) n \<longleftrightarrow> n = 0" for n by (rule bit_1_iff)
  then show "n < 16 \<Longrightarrow> bit (has_efi (r (scan_files [f] st))) n \<longleftrightarrow> bit (has_efi (r st)) n \<or> n = 0 \<and> in_root f ''bootmgr.efi'' \<or>
       (\<exists>i < 9. n = i + 1 \<and> efi_loader f i) \<or> n = 14 \<and> tiny_loader f"
    by (auto simp: r_def x efi_checks_bit bit_or_iff)
  show "n < 16 \<Longrightarrow> bit (winpe (r (scan_files [f] st))) n \<longleftrightarrow> bit (winpe (r st)) n \<or> (\<exists>i < 3. \<exists>j < 3. n = 3 * i + j \<and> pe_entry f i j)"
    by (simp add: r_def x windows_checks_bit)
  show "has_old_c32 (r (scan_files [f] st)) =
       map (\<lambda>(has, name, threshold). has \<or> named f name \<and> file_length f \<le> threshold) (zip (has_old_c32 (r st)) old_c32)"
    by (simp add: r_def x props zip_map2 case_prod_beta o_def)
  show "has_bootmgr (r (scan_files [f] st)) \<longleftrightarrow> has_bootmgr (r st) \<or> in_root f ''bootmgr''"
    "has_bootmgr_efi (r (scan_files [f] st)) \<longleftrightarrow> has_bootmgr_efi (r st) \<or> in_root f ''bootmgr.efi''"
    "has_grub4dos (r (scan_files [f] st)) \<longleftrightarrow> has_grub4dos (r st) \<or> in_root f ''grldr''"
    "has_kolibrios (r (scan_files [f] st)) \<longleftrightarrow> has_kolibrios (r st) \<or> in_root f ''kolibri.img''"
    "has_md5sum (r (scan_files [f] st)) \<noteq> 0 \<longleftrightarrow> has_md5sum (r st) \<noteq> 0 \<or> in_root f ''md5sum.txt'' \<or> in_root f ''MD5SUMS''"
    "has_grub2 (r (scan_files [f] st)) \<noteq> 0 \<longleftrightarrow> has_grub2 (r st) \<noteq> 0 \<or> (\<exists>d \<in> set grub_dirname. in_dir f d)"
    "uses_casper (r (scan_files [f] st)) \<longleftrightarrow> uses_casper (r st) \<or> strnicmp (safe_str (psz_dirname f)) (map of_char ''/casper'')"
    "disable_iso (r (scan_files [f] st)) \<longleftrightarrow> disable_iso (r st) \<or> in_root f ''.miso'' \<or> iso_disabled_dir f"
    "has_efi_syslinux (r (scan_files [f] st)) \<longleftrightarrow> has_efi_syslinux (r st) \<or> named f ''syslinux.cfg'' \<and> in_dir f ''/efi/boot''"
    "has_panther_unattend (r (scan_files [f] st)) \<longleftrightarrow> has_panther_unattend (r st) \<or> in_dir f ''/sources/$OEM$/$$/Panther'' \<and> named f ''unattend.xml''"
    "has_4GB_file (r (scan_files [f] st)) \<longleftrightarrow> has_4GB_file (r st) \<or> 4 * 1073741824 \<le> file_length f"
    unfolding r_def x by (simp_all only: dir_checks_flags path_checks_flags root_checks_flags efi_checks_flags windows_checks_flags last_checks_flags)
      auto
qed

lemma scan_files_Cons: "scan_files (f # fs) st = scan_files fs (scan_files [f] st)" "scan_files [] st = st"
  by (simp_all add: scan_files_def)

lemma scan_or:
  assumes "\<And>f st. g (scan_files [f] st) \<longleftrightarrow> g st \<or> P f"
  shows "g (scan_files fs st) \<longleftrightarrow> g st \<or> (\<exists>f \<in> set fs. P f)"
  unfolding scan_files_def by (rule fold_or) (use assms in \<open>simp add: scan_files_def\<close>)


lemma scan_blocks: "total_blocks (scan_files fs st) = total_blocks st + of_nat (\<Sum>f \<leftarrow> fs. (file_length f + 2047) div 2048)"
proof (induction fs arbitrary: st)
  case (Cons f fs)
  then show ?case using scan_files_Cons(1) [of f fs st] scan_file_flags(13) [of f st] by (simp add: algebra_simps)
qed (simp add: scan_files_Cons)

lemma scan_c32:
  "has_old_c32 (report st) = [a, b] \<Longrightarrow> has_old_c32 (report (scan_files fs st)) =
     [a \<or> (\<exists>f \<in> set fs. named f ''menu.c32'' \<and> file_length f \<le> 53500), b \<or> (\<exists>f \<in> set fs. named f ''vesamenu.c32'' \<and> file_length f \<le> 148000)]"
proof (induction fs arbitrary: st a b)
  case (Cons f fs)
  have "has_old_c32 (report (scan_files [f] st)) =
      [a \<or> named f ''menu.c32'' \<and> file_length f \<le> 53500, b \<or> named f ''vesamenu.c32'' \<and> file_length f \<le> 148000]"
    using scan_file_flags(14) [of f st] Cons.prems by (simp add: old_c32_def)
  from Cons.IH [OF this] show ?case by (simp add: scan_files_Cons(1) [of f fs])
qed (simp add: scan_files_Cons)

lemma scan_bits:
  assumes "\<And>f st n. n < 16 \<Longrightarrow> bit (g (report (scan_files [f] st)) :: u16) n \<longleftrightarrow> bit (g (report st)) n \<or> P f n" "\<And>f n. P f n \<Longrightarrow> n < 16"
  shows "{n. bit (g (report (scan_files fs st))) n} = {n. bit (g (report st)) n \<or> (\<exists>f \<in> set fs. P f n)}"
proof (intro Collect_cong)
  fix n
  show "bit (g (report (scan_files fs st))) n \<longleftrightarrow> bit (g (report st)) n \<or> (\<exists>f \<in> set fs. P f n)"
  proof (cases "n < 16")
    case True
    show ?thesis by (rule scan_or [where g = "\<lambda>st. bit (g (report st)) n"]) (rule assms(1) [OF True])
  next
    case False
    then have "\<not> bit w n" for w :: u16 using bit_imp_le_length [of w n] by auto
    then show ?thesis using False assms(2) by blast
  qed
qed

text \<open>
  C20. The scan of a list of files by \<^verbatim>\<open>check_iso_props\<close> sets each flag exactly if a file says so: the boot managers, GRUB for DOS, KolibriOS and the lists of MD5 sums in
  the root directory, the directories of GRUB 2 and of Ubuntu, the images that must not be written in ISO mode, SYSLINUX for UEFI, an answer file, a file of 4 GB or more,
  \<^verbatim>\<open>ldlinux.c32\<close>, and the old \<^verbatim>\<open>.c32\<close> modules, of which the report has two. The bits of \<^verbatim>\<open>has_efi\<close> are those of \<^verbatim>\<open>bootmgr.efi\<close>, of the boot loader of each architecture
  and of a boot loader that is too small to be one, the bits of \<^verbatim>\<open>winpe\<close> those of the three files in the three directories; no other bit is set. The number of blocks is the sum
  over the files, rounded up. The paths in the report are the subject of the next section.
\<close>

theorem scan_files_report:
  assumes "has_old_c32 (report st) = [a, b]"
  shows "(has_bootmgr (report (scan_files fs st)) \<longleftrightarrow> has_bootmgr (report st) \<or> (\<exists>f \<in> set fs. in_root f ''bootmgr'')) \<and>
   (has_bootmgr_efi (report (scan_files fs st)) \<longleftrightarrow> has_bootmgr_efi (report st) \<or> (\<exists>f \<in> set fs. in_root f ''bootmgr.efi'')) \<and>
   (has_grub4dos (report (scan_files fs st)) \<longleftrightarrow> has_grub4dos (report st) \<or> (\<exists>f \<in> set fs. in_root f ''grldr'')) \<and>
   (has_kolibrios (report (scan_files fs st)) \<longleftrightarrow> has_kolibrios (report st) \<or> (\<exists>f \<in> set fs. in_root f ''kolibri.img'')) \<and>
   (has_md5sum (report (scan_files fs st)) \<noteq> 0 \<longleftrightarrow>
      has_md5sum (report st) \<noteq> 0 \<or> (\<exists>f \<in> set fs. in_root f ''md5sum.txt'' \<or> in_root f ''MD5SUMS'')) \<and>
   (has_grub2 (report (scan_files fs st)) \<noteq> 0 \<longleftrightarrow> has_grub2 (report st) \<noteq> 0 \<or> (\<exists>f \<in> set fs. \<exists>d \<in> set grub_dirname. in_dir f d)) \<and>
   (uses_casper (report (scan_files fs st)) \<longleftrightarrow>
      uses_casper (report st) \<or> (\<exists>f \<in> set fs. strnicmp (safe_str (psz_dirname f)) (map of_char ''/casper''))) \<and>
   (disable_iso (report (scan_files fs st)) \<longleftrightarrow> disable_iso (report st) \<or> (\<exists>f \<in> set fs. in_root f ''.miso'' \<or> iso_disabled_dir f)) \<and>
   (has_efi_syslinux (report (scan_files fs st)) \<longleftrightarrow>
      has_efi_syslinux (report st) \<or> (\<exists>f \<in> set fs. named f ''syslinux.cfg'' \<and> in_dir f ''/efi/boot'')) \<and>
   (has_panther_unattend (report (scan_files fs st)) \<longleftrightarrow>
      has_panther_unattend (report st) \<or> (\<exists>f \<in> set fs. in_dir f ''/sources/$OEM$/$$/Panther'' \<and> named f ''unattend.xml'')) \<and>
   (has_4GB_file (report (scan_files fs st)) \<longleftrightarrow> has_4GB_file (report st) \<or> (\<exists>f \<in> set fs. 4 * 1073741824 \<le> file_length f)) \<and>
   (has_ldlinux_c32 (scan_files fs st) \<longleftrightarrow> has_ldlinux_c32 st \<or> (\<exists>f \<in> set fs. named f ''ldlinux.c32'')) \<and>
   has_old_c32 (report (scan_files fs st)) =
     [a \<or> (\<exists>f \<in> set fs. named f ''menu.c32'' \<and> file_length f \<le> 53500),
      b \<or> (\<exists>f \<in> set fs. named f ''vesamenu.c32'' \<and> file_length f \<le> 148000)] \<and>
   {n. bit (has_efi (report (scan_files fs st))) n} = {n. bit (has_efi (report st)) n \<or> (\<exists>f \<in> set fs.
      n = 0 \<and> in_root f ''bootmgr.efi'' \<or> (\<exists>i < 9. n = i + 1 \<and> efi_loader f i) \<or> n = 14 \<and> tiny_loader f)} \<and>
   {n. bit (winpe (report (scan_files fs st))) n} = {n. bit (winpe (report st)) n \<or> (\<exists>f \<in> set fs.
      \<exists>i < 3. \<exists>j < 3. n = 3 * i + j \<and> pe_entry f i j)} \<and>
   total_blocks (scan_files fs st) = total_blocks st + of_nat (\<Sum>f \<leftarrow> fs. (file_length f + 2047) div 2048)"
proof (intro conjI)
  show "{n. bit (has_efi (report (scan_files fs st))) n} = {n. bit (has_efi (report st)) n \<or> (\<exists>f \<in> set fs.
      n = 0 \<and> in_root f ''bootmgr.efi'' \<or> (\<exists>i < 9. n = i + 1 \<and> efi_loader f i) \<or> n = 14 \<and> tiny_loader f)}"
    by (rule scan_bits, rule scan_file_flags(15)) auto
  show "{n. bit (winpe (report (scan_files fs st))) n} = {n. bit (winpe (report st)) n \<or> (\<exists>f \<in> set fs.
      \<exists>i < 3. \<exists>j < 3. n = 3 * i + j \<and> pe_entry f i j)}"
    by (rule scan_bits, rule scan_file_flags(16)) auto
qed (rule scan_blocks scan_c32 [OF assms] | rule scan_or, rule scan_file_flags)+

section \<open>Sizes\<close>

definition report_ok :: "img_report \<Rightarrow> bool" where
  "report_ok r \<longleftrightarrow> length (wininst_path r) = MAX_WININST \<and> wininst_index r \<le> MAX_WININST \<and> (\<forall>p \<in> set (wininst_path r). length p < 64) \<and>
     length (efi_boot_entry r) = 64 \<and> (\<forall>e \<in> set (efi_boot_entry r). length (snd e) < 64) \<and>
     length (reactos_path r) < 128 \<and> length (efi_img_path r) < 128 \<and> length (has_old_c32 r) = 2"

lemma add_boot_entry_ok:
  "\<forall>e \<in> set es. length (snd e) < 64 \<Longrightarrow> length (add_boot_entry ty p es) = length es \<and> (\<forall>e \<in> set (add_boot_entry ty p es). length (snd e) < 64)"
  by (induction es) (auto simp: static_strcpy_def)

lemma report_ok_checks:
  assumes "report_ok r"
  shows "report_ok (dir_checks f r)" "report_ok (root_checks f r)" "report_ok (path_checks f r)" "report_ok (boot_loader_check f k i r)"
  using assms add_boot_entry_ok [of "efi_boot_entry r"]
  by (auto simp: report_ok_def dir_checks_def root_checks_def path_checks_def boot_loader_check_def Let_def grub_dirname_def static_strcpy_def)

lemma fold_ok: "report_ok r \<Longrightarrow> (\<And>x r. report_ok r \<Longrightarrow> report_ok (h x r)) \<Longrightarrow> report_ok (fold h xs r)"
  by (induction xs arbitrary: r) auto

lemma report_ok_efi: "report_ok r \<Longrightarrow> report_ok (efi_checks f r)"
proof -
  assume "report_ok r"
  then have "report_ok (fold (\<lambda>k r. fold (\<lambda>i r. boot_loader_check f k i r) [0..<9] r) [0..<3] r)"
    by (intro fold_ok report_ok_checks(4))
  then show ?thesis using \<open>report_ok r\<close> by (auto simp: efi_checks_def Let_def report_ok_def static_strcpy_def)
qed

lemma report_ok_winpe: "report_ok (r\<lparr>winpe := x\<rparr>) = report_ok r"
  by (simp add: report_ok_def)

lemma report_ok_windows: "report_ok r \<Longrightarrow> report_ok (windows_checks f r)"
proof -
  assume r: "report_ok r"
  have step: "report_ok (r\<lparr>wininst_path := (wininst_path r)[wininst_index r := static_strcpy 64 p], wininst_index := Suc (wininst_index r)\<rparr>)"
    if "report_ok r" "wininst_index r < MAX_WININST" for r :: img_report and p
    using that set_update_subset_insert [of "wininst_path r" "wininst_index r" "static_strcpy 64 p"]
    by (auto simp: report_ok_def static_strcpy_def)
  define r1 where "r1 = (case psz_dirname f of
                 None \<Rightarrow> r
               | Some d \<Rightarrow>
                   if stricmp (suffix_of 8 d) (map of_char ''/sources'')
                   then fold (\<lambda>name r. if named f name \<and> wininst_index r < MAX_WININST
                          then r\<lparr>wininst_path := (wininst_path r)[wininst_index r := static_strcpy 64 (map of_char ''?:'' @ psz_fullpath f)],
                                 wininst_index := wininst_index r + 1\<rparr> else r) wininst_name r
                   else r)"
  have "report_ok r1"
    unfolding r1_def using r by (auto intro!: fold_ok step split: option.split simp del: map_append)
  then have "report_ok (if in_dir f ''/sources/$OEM$/$$/Panther'' \<and> named f ''unattend.xml'' then r1\<lparr>has_panther_unattend := True\<rparr> else r1)"
    by (simp add: report_ok_def)
  then show ?thesis
    unfolding windows_checks_def Let_def r1_def [symmetric] by (rule fold_ok) (auto intro!: fold_ok simp: report_ok_winpe)
qed

text \<open>
  C40. However many files an image has and however long their paths are, the scan stays inside the fixed fields of the report: the four Windows images, the 64 boot loaders and
  the paths, each with its terminating zero.
\<close>

theorem scan_files_sizes:
  assumes "report_ok (report st)"
  shows "report_ok (report (scan_files fs st))"
  using assms
proof (induction fs arbitrary: st)
  case (Cons f fs)
  obtain x props where x: "report (scan_files [f] st) =
       last_checks f props (windows_checks f (efi_checks f (path_checks f (root_checks f (dir_checks f ((report st)\<lparr>has_efi_syslinux := x\<rparr>))))))"
    and props: "length (is_old_c32 props) = 2"
    by (rule scan_file [of f st]) (simp add: old_c32_def)
  have "report_ok ((report st)\<lparr>has_efi_syslinux := x\<rparr>)" using Cons(2) by (simp add: report_ok_def)
  then have "report_ok (windows_checks f (efi_checks f (path_checks f (root_checks f (dir_checks f ((report st)\<lparr>has_efi_syslinux := x\<rparr>))))))"
    by (intro report_ok_windows report_ok_efi report_ok_checks)
  then have "report_ok (report (scan_files [f] st))"
    using props by (simp add: x last_checks_def Let_def report_ok_def)
  then show ?case using Cons(1) scan_files_Cons(1) [of f fs st] by simp
qed (simp add: scan_files_Cons)

definition empty_report :: img_report where
  "empty_report = \<lparr>reactos_path = [], wininst_path = replicate 4 [], efi_boot_entry = replicate 64 (0, []), efi_img_path = [], disable_iso = False,
     winpe = 0, has_efi = 0, has_md5sum = 0, wininst_index = 0, has_4GB_file = False, has_bootmgr = False, has_bootmgr_efi = False,
     has_old_c32 = [False, False], has_efi_syslinux = False, has_grub4dos = False, has_grub2 = 0, has_panther_unattend = False, has_kolibrios = False,
     uses_casper = False, uses_minint = False, sl_version = 0\<rparr>"

theorem scan_files_report_witness:
  "has_bootmgr (report (scan_files [\<lparr>psz_dirname = Some [], file_length = 1, psz_basename = map of_char ''bootmgr'', psz_fullpath = map of_char ''/bootmgr''\<rparr>]
     \<lparr>report = empty_report, config_path = None, isolinux_path = None, has_ldlinux_c32 = False, total_blocks = 0\<rparr>))"
proof -
  let ?f = "\<lparr>psz_dirname = Some [], file_length = 1, psz_basename = map of_char ''bootmgr'', psz_fullpath = map of_char ''/bootmgr''\<rparr>"
    and ?st = "\<lparr>report = empty_report, config_path = None, isolinux_path = None, has_ldlinux_c32 = False, total_blocks = 0\<rparr>"
  have "has_old_c32 (report ?st) = [False, False]" by (simp add: empty_report_def)
  note r = conjunct1 [OF scan_files_report [OF this, of "[?f]"]]
  have "in_root ?f ''bootmgr''" by (simp add: in_root_def named_def stricmp_def)
  then show ?thesis using r by simp
qed

theorem scan_files_sizes_witness:
  "report_ok (report (scan_files [\<lparr>psz_dirname = Some [], file_length = 1, psz_basename = map of_char ''bootmgr.efi'', psz_fullpath = replicate 100 0x61\<rparr>]
     \<lparr>report = empty_report, config_path = None, isolinux_path = None, has_ldlinux_c32 = False, total_blocks = 0\<rparr>))"
  by (rule scan_files_sizes) (simp add: report_ok_def empty_report_def MAX_WININST_def)

end
