(* ===== verification/Fix_Config.thy ===== *)
theory Fix_Config
  imports Text_Files Labels Iso_Props
begin

text \<open>
  \<^verbatim>\<open>fix_config\<close> of \<^verbatim>\<open>src/iso.c\<close>, which adapts the configuration file of a boot loader after it has been copied from an image: it calls \<^verbatim>\<open>replace_in_token_data\<close> again and
  again and records the file in \<^verbatim>\<open>modified_files\<close>, from which the list of MD5 sums is brought up to date later. The state is the contents of the file, the copies made of it
  and the array of modified files. Each call opens the file anew; what it meets is a function of the contents. \<^verbatim>\<open>copy_works\<close> says whether \<^verbatim>\<open>CopyFileA\<close>
  succeeds under a name, which it does not if a file of that name exists; its result is ignored. Allocations succeed, so the branches for \<^verbatim>\<open>NULL\<close> from \<^verbatim>\<open>safe_strdup\<close>,
  \<^verbatim>\<open>replace_char\<close> and \<^verbatim>\<open>malloc\<close> are left out, and so are the messages.
\<close>

section \<open>The code\<close>

record fix_env =
  disk :: "bytes \<Rightarrow> text_io"
  to_wide :: "bytes \<Rightarrow> wstring option"
  encoder :: "nat \<Rightarrow> wstring \<Rightarrow> bytes"
  boot_image :: bool
  persistence_size :: u64
  image_report :: img_report
  iso_label :: bytes
  usb_label :: bytes
  rh8_derivative :: bool
  image_path :: bytes
  copy_works :: "bytes \<Rightarrow> bool"

record fix_state =
  cfg_data :: bytes
  cfg_copies :: "(bytes \<times> bytes) list"
  modified_files :: "str_array option"

text \<open>A call of \<^verbatim>\<open>replace_in_token_data\<close>: whether something was replaced, and the new contents.\<close>

definition patch_token :: "fix_env \<Rightarrow> bytes \<Rightarrow> bytes \<Rightarrow> bytes \<Rightarrow> bytes \<Rightarrow> bytes \<Rightarrow> bool \<times> bytes" where
  "patch_token env path token src rep data =
     replace_in_token_data (disk env data) (to_wide env) (encoder env) path token src rep True data"

definition patch_string :: "fix_env \<Rightarrow> bytes \<Rightarrow> string \<Rightarrow> string \<Rightarrow> string \<Rightarrow> bytes \<Rightarrow> bool \<times> bytes" where
  "patch_string env path token src rep = patch_token env path (map of_char token) (map of_char src) (map of_char rep)"

definition persistence_options :: "fix_env \<Rightarrow> bytes \<Rightarrow> extract_props \<Rightarrow> bool \<times> bytes \<Rightarrow> bool \<times> bytes" where
  "persistence_options env src props = (\<lambda>(modified, data).
     if boot_image env \<and> HAS_PERSISTENCE (image_report env) \<and> persistence_size env \<noteq> 0 \<and>
        (is_grub_cfg props \<or> is_menu_cfg props \<or> is_syslinux_cfg props) then
       let kernel = (if is_grub_cfg props then ''linux'' else ''append'');
           (found, data) = patch_string env src kernel ''file=/cdrom/preseed'' ''persistent file=/cdrom/preseed'' data
       in if found then
            (True, if is_grub_cfg props then snd (patch_string env src ''linux'' ''maybe-ubiquity'' '''' data) else data)
          else let (found, data) = patch_string env src ''linux'' ''/casper/vmlinuz'' ''/casper/vmlinuz persistent'' data
               in if found then (True, data)
                  else let (found, data) = patch_string env src kernel ''boot=casper'' ''boot=casper persistent'' data
                       in if found then (True, data)
                          else let (found, data) = patch_string env src kernel ''boot=live'' ''boot=live persistence'' data
                               in (modified \<or> found, data)
     else (modified, data))"

definition cfg_token :: "string list" where
  "cfg_token = [''options'', ''append'', ''linux'', ''linuxefi'', ''$linux'', ''search'', ''for'']"

definition patch_all :: "fix_env \<Rightarrow> bytes \<Rightarrow> bytes \<Rightarrow> bytes \<Rightarrow> bool \<times> bytes \<Rightarrow> bool \<times> bytes" where
  "patch_all env src old new =
     fold (\<lambda>token (modified, data). let (found, data) = patch_token env src (map of_char token) old new data in (modified \<or> found, data)) cfg_token"

definition label_options :: "fix_env \<Rightarrow> bytes \<Rightarrow> extract_props \<Rightarrow> bool \<times> bytes \<Rightarrow> bool \<times> bytes" where
  "label_options env src props st =
     (if is_cfg props \<or> is_conf props then
        let iso = fst (replace_char (iso_label env) 0x20 (0x5C # map of_char ''x20''));
            usb = fst (replace_char (usb_label env) 0x20 (0x5C # map of_char ''x20''));
            st = patch_all env src iso usb st
        in if rh8_derivative env \<and> \<not> strstr (image_path env) (map of_char ''netinst'')
           then patch_all env src (map of_char ''inst.stage2'') (map of_char ''inst.repo'') st else st
      else st)"

text \<open>The copy of \<^verbatim>\<open>isolinux.cfg\<close> under the name \<^verbatim>\<open>syslinux.cfg\<close>.\<close>

definition syslinux_copy :: "bytes \<Rightarrow> bytes" where
  "syslinux_copy src = take (length src - 12) src @ map of_char ''sys'' @ drop (length src - 9) src"

definition freenas_options :: "fix_env \<Rightarrow> bytes \<Rightarrow> extract_props \<Rightarrow> bool \<times> bytes \<Rightarrow> bool \<times> bytes" where
  "freenas_options env src props = (\<lambda>(modified, data).
     if is_grub_cfg props then
       let (found, data) = patch_token env src (map of_char ''set'') (take 259 (map of_char ''cd9660:/dev/iso9660/'' @ iso_label env))
             (take 259 (map of_char ''msdosfs:/dev/msdosfs/'' @ usb_label env)) data
       in (modified \<or> found, data)
     else (modified, data))"

definition to_windows_path :: "bytes \<Rightarrow> bytes" where
  "to_windows_path = map (\<lambda>c. if c = 0x2F then 0x5C else c)"

definition fix_config :: "fix_env \<Rightarrow> bytes \<Rightarrow> bytes option \<Rightarrow> bytes option \<Rightarrow> extract_props \<Rightarrow> fix_state \<Rightarrow> fix_state" where
  "fix_config env fullpath path basename props st =
     (let src = to_windows_path fullpath;
          (modified, data) = label_options env src props (persistence_options env src props (False, cfg_data st));
          copies = (if is_syslinux_cfg props \<and> stricmp (safe_str path) (map of_char ''/efi/boot'') \<and>
              stricmp (safe_str basename) (map of_char ''isolinux.cfg'') \<and> \<not> has_efi_syslinux (image_report env) \<and> copy_works env (syslinux_copy src)
            then cfg_copies st @ [(syslinux_copy src, data)] else cfg_copies st);
          (modified, data) = freenas_options env src props (modified, data)
      in \<lparr>cfg_data = data, cfg_copies = copies,
          modified_files = (if modified then add_path fullpath (modified_files st) else modified_files st)\<rparr>)"

section \<open>Every change is recorded\<close>

text \<open>The contents differ from those at the beginning only if the flag is set.\<close>

definition tracked :: "bytes \<Rightarrow> bool \<times> bytes \<Rightarrow> bool" where
  "tracked d0 st \<longleftrightarrow> fst st \<or> snd st = d0"

definition reopens :: "fix_env \<Rightarrow> bool" where
  "reopens env \<longleftrightarrow> (\<forall>d. back_in (disk env d))"

lemma patch_token_unchanged:
  assumes "reopens env" "patch_token env path token src rep data = (False, data')"
  shows "data' = data"
  using assms by (auto simp: patch_token_def reopens_def intro: replace_failure)

lemma tracked_patch:
  assumes "reopens env" "tracked d0 (m, data)" "patch_token env path token src rep data = (found, data')"
  shows "tracked d0 (m \<or> found, data')"
  using assms patch_token_unchanged [of env path token src rep data data'] by (cases found) (auto simp: tracked_def)

lemma tracked_patch_all: "reopens env \<Longrightarrow> tracked d0 st \<Longrightarrow> tracked d0 (patch_all env src old new st)"
  unfolding patch_all_def
  by (rule fold_invariant [where Q = "\<lambda>x. True" and P = "tracked d0"]) (auto split: prod.split intro: tracked_patch)

lemma tracked_options:
  assumes "reopens env"
  shows "tracked d0 st \<Longrightarrow> tracked d0 (label_options env src props st)" "tracked d0 st \<Longrightarrow> tracked d0 (freenas_options env src props st)"
  using assms by (auto simp: label_options_def freenas_options_def Let_def split: prod.split intro: tracked_patch_all tracked_patch)

lemma tracked_persistence:
  assumes "reopens env"
  shows "tracked d0 (persistence_options env src props (False, d0))"
proof -
  define kernel where "kernel = (if is_grub_cfg props then ''linux'' else ''append'')"
  have keep: "snd p = d0" if "\<not> fst p" "p = patch_string env src token old new d0" for p token old new
    by (rule patch_token_unchanged [OF assms, of src "map of_char token" "map of_char old" "map of_char new"])
      (use that in \<open>simp add: patch_string_def prod_eq_iff\<close>)
  define p1 where "p1 = patch_string env src kernel ''file=/cdrom/preseed'' ''persistent file=/cdrom/preseed'' d0"
  define p2 where "p2 = patch_string env src ''linux'' ''/casper/vmlinuz'' ''/casper/vmlinuz persistent'' (snd p1)"
  define p3 where "p3 = patch_string env src kernel ''boot=casper'' ''boot=casper persistent'' (snd p2)"
  define p4 where "p4 = patch_string env src kernel ''boot=live'' ''boot=live persistence'' (snd p3)"
  have "\<not> fst p1 \<Longrightarrow> snd p1 = d0" using keep p1_def by blast
  moreover have "snd p1 = d0 \<Longrightarrow> \<not> fst p2 \<Longrightarrow> snd p2 = d0" using keep p2_def by metis
  moreover have "snd p2 = d0 \<Longrightarrow> \<not> fst p3 \<Longrightarrow> snd p3 = d0" using keep p3_def by metis
  moreover have "snd p3 = d0 \<Longrightarrow> \<not> fst p4 \<Longrightarrow> snd p4 = d0" using keep p4_def by metis
  ultimately have chain: "fst p1 \<or> fst p2 \<or> fst p3 \<or> fst p4 \<or> snd p4 = d0" by blast
  show ?thesis
    unfolding persistence_options_def case_prod_beta Let_def fst_conv snd_conv
      kernel_def [symmetric] p1_def [symmetric] p2_def [symmetric] p3_def [symmetric] p4_def [symmetric]
    using chain by (auto simp: tracked_def)
qed

text \<open>
  C19. Every change that \<^verbatim>\<open>fix_config\<close> makes to a configuration file is recorded: if temporary files can be opened again, either the path of the file has been added to the array
  of modified files, behind those that were there, or the file is as before and so is the array.
\<close>

theorem fix_config_records:
  assumes "reopens env" "modified_files st = Some arr" "array_ok arr" "length (array_contents arr) < 2 ^ 31"
  shows "\<exists>arr'. modified_files (fix_config env fullpath path basename props st) = Some arr' \<and> array_ok arr' \<and>
    (array_contents arr' = array_contents arr @ [fullpath] \<or>
     array_contents arr' = array_contents arr \<and> cfg_data (fix_config env fullpath path basename props st) = cfg_data st)"
proof -
  define src where "src = to_windows_path fullpath"
  define st1 where "st1 = label_options env src props (persistence_options env src props (False, cfg_data st))"
  define st2 where "st2 = freenas_options env src props st1"
  have "tracked (cfg_data st) st2"
    unfolding st2_def st1_def by (intro tracked_options tracked_persistence assms(1))
  moreover have "cfg_data (fix_config env fullpath path basename props st) = snd st2"
    "modified_files (fix_config env fullpath path basename props st) = (if fst st2 then add_path fullpath (Some arr) else Some arr)"
    using assms(2) by (auto simp: fix_config_def Let_def st2_def st1_def src_def split: prod.split)
  moreover obtain arr' where "StrArrayAdd True True (Some fullpath) True arr = Some (int (length (array_contents arr)), arr')" "array_ok arr'"
    "array_contents arr' = array_contents arr @ [fullpath]"
    using add_entry [OF assms(3,4)] by blast
  ultimately show ?thesis using assms(3) by (cases "fst st2") (auto simp: add_path_def tracked_def)
qed

definition sample_fix_env :: fix_env where
  "sample_fix_env = \<lparr>disk = (\<lambda>bs. \<lparr>in_file = Some (Some 0xFEFF, text_utf16 bs), tmp_name = True, tmp_open = True, back_in = True, back_out = True\<rparr>),
     to_wide = (\<lambda>s. Some (map ucast s)), encoder = (\<lambda>m. utf16_text), boot_image = True, persistence_size = 0, image_report = empty_report,
     iso_label = map of_char ''ISO'', usb_label = map of_char ''USB'', rh8_derivative = False, image_path = [], copy_works = (\<lambda>dst. True)\<rparr>"

theorem fix_config_records_witness:
  "\<exists>arr'. modified_files (fix_config sample_fix_env (map of_char ''/boot/grub/grub.cfg'') None None (no_props\<lparr>is_cfg := True\<rparr>)
       \<lparr>cfg_data = [], cfg_copies = [], modified_files = Some (StrArrayCreate True 8)\<rparr>) = Some arr' \<and> array_ok arr'"
proof -
  have "reopens sample_fix_env" by (simp add: reopens_def sample_fix_env_def)
  moreover have "array_ok (StrArrayCreate True 8)" "array_contents (StrArrayCreate True 8) = []" using create_ok [of 8] by auto
  ultimately show ?thesis
    using fix_config_records [of sample_fix_env "\<lparr>cfg_data = [], cfg_copies = [], modified_files = Some (StrArrayCreate True 8)\<rparr>" "StrArrayCreate True 8"
        "map of_char ''/boot/grub/grub.cfg''" None None "no_props\<lparr>is_cfg := True\<rparr>"] by auto
qed

text \<open>The copy of a file that ends with \<^verbatim>\<open>isolinux.cfg\<close>.\<close>

lemma syslinux_copy_name: "syslinux_copy (dir @ map of_char ''isolinux.cfg'') = dir @ map of_char ''syslinux.cfg''"
  by (simp add: syslinux_copy_def of_char_def)

end
