(* ===== verification/Hdd_Score.thy ===== *)
theory Hdd_Score
  imports C_Strings
begin

text \<open>
  \<^verbatim>\<open>IsHDD\<close> of \<^verbatim>\<open>src/smart.c\<close> with the tables of \<^verbatim>\<open>src/common/hdd_vs_ufd.h\<close>: a score by which a hard disk is told from a flash drive. What Windows says of the drive,
  its type and its size, are arguments. The scores go into an array of 16 entries; \<open>None\<close> is a store behind its end. Strings are compared without regard to the case of
  the letters of ASCII. The output of the score is left out.
\<close>

section \<open>The tables\<close>

definition str_score :: "(bytes \<times> int) list" where
  "str_score = map (\<lambda>(name, score). (map of_char name, score))
     [(''IC#'', 10), (''ST#'', 10), (''MX#'', 10), (''WDC'', 10), (''IBM'', 10), (''STM#'', 10), (''HDS#'', 10), (''HDP#'', 10), (''HDT#'', 10),
      (''HTE#'', 10), (''HTS#'', 10), (''HUA#'', 10), (''APPLE'', 10), (''INTEL'', 10), (''MAXTOR'', 10), (''HITACHI'', 10), (''SEAGATE'', 10),
      (''SAMSUNG'', 5), (''FUJITSU'', 10), (''TOSHIBA'', 5), (''QUANTUM'', 10), (''EXCELSTOR'', 10), (''CORSAIR'', - 15), (''KINGMAX'', - 15),
      (''KINGSTON'', - 15), (''LEXAR'', - 15), (''MUSHKIN'', - 15), (''PNY'', - 15), (''SANDISK'', - 15), (''TRANSCEND'', - 15)]"

definition str_adjust :: "(bytes \<times> int) list" where
  "str_adjust = map (\<lambda>(name, score). (map of_char name, score))
     [(''Gadget'', - 10), (''Flash'', - 10), (''SD-CARD'', - 10), (''uSD Card'', - 10), (''HDD'', 20), (''SATA'', 20), (''SCSI'', 20), (''SSD'', 20)]"

definition vid_score :: "(u16 \<times> int) list" where
  "vid_score =
     [(0x0011, - 5), (0x03f0, - 5), (0x0409, - 10), (0x0411, 5), (0x0420, - 5), (0x046d, - 5), (0x0480, 5), (0x048d, - 10), (0x04b4, 10),
      (0x04c5, 7), (0x04e8, 5), (0x04f3, - 5), (0x04fc, 5), (0x056e, - 5), (0x058f, - 5), (0x059b, 7), (0x059f, 5), (0x05ab, 10), (0x05dc, - 5),
      (0x05e3, - 5), (0x067b, 7), (0x0718, - 2), (0x0781, - 5), (0x07ab, 8), (0x090c, - 5), (0x0928, 10), (0x0930, - 8), (0x093a, - 5),
      (0x0951, - 5), (0x09da, - 5), (0x0b27, - 5), (0x0bc2, 10), (0x0bda, - 10), (0x0c76, - 5), (0x0cf2, - 5), (0x0d49, 10), (0x0dc4, 10),
      (0x1000, - 5), (0x1002, - 5), (0x1005, - 5), (0x1043, - 5), (0x1058, 10), (0x1221, - 5), (0x12d1, - 5), (0x125f, - 5), (0x1307, - 5),
      (0x13fd, 10), (0x13fe, - 5), (0x14cd, - 5), (0x1516, - 5), (0x152d, 10), (0x1687, - 5), (0x174c, 3), (0x1759, 8), (0x18a5, - 2), (0x18ec, - 5),
      (0x1908, - 5), (0x1a4a, 10), (0x1b1c, - 5), (0x1e3d, - 5), (0x1f75, - 2), (0x2001, - 5), (0x201e, - 5), (0x2109, 10), (0x2188, - 5),
      (0x3538, - 5), (0x413c, - 5), (0x4971, 10), (0x5136, - 5), (0x8564, - 5), (0x8644, - 5), (0xeeee, - 5)]"

definition vidpid_score :: "((u16 \<times> u16) \<times> int) list" where
  "vidpid_score =
     [((0x03f0, 0xbd07), 10), ((0x0402, 0x5621), 10), ((0x040d, 0x6204), 10), ((0x043e, 0x70f1), 10), ((0x0471, 0x2021), 10), ((0x05e3, 0x0718), 10),
      ((0x05e3, 0x0719), 10), ((0x05e3, 0x0731), 10), ((0x05e3, 0x0731), 2), ((0x0634, 0x0655), 5), ((0x0718, 0x1000), 7), ((0x0939, 0x0b16), 10),
      ((0x0c0b, 0xb001), 10), ((0x0c0b, 0xb159), 10), ((0x0e21, 0x0510), 5), ((0x11b0, 0x6298), 10), ((0x125f, 0xa93a), 10), ((0x125f, 0xa94a), 10),
      ((0x14cd, 0x6116), 10), ((0x18a5, 0x0214), 10), ((0x18a5, 0x0215), 10), ((0x18a5, 0x0216), 10), ((0x18a5, 0x0227), 10), ((0x18a5, 0x022a), 10),
      ((0x18a5, 0x022b), 10), ((0x18a5, 0x0237), 10), ((0x1bcf, 0x0c31), 10), ((0x1f75, 0x0888), 10), ((0x3538, 0x0902), 10), ((0x55aa, 0x0015), 10),
      ((0x55aa, 0x0102), 8), ((0x55aa, 0x0103), 10), ((0x55aa, 0x1234), 8), ((0x55aa, 0x2b00), 8), ((0x6795, 0x2756), 2), ((0x0324, 0xbc06), - 20),
      ((0x0324, 0xbc08), - 20), ((0x0325, 0xac02), - 20), ((0x0411, 0x01e8), - 20), ((0x04e8, 0x0100), - 20), ((0x04e8, 0x0100), - 20),
      ((0x04e8, 0x0101), - 20), ((0x04e8, 0x1a23), - 20), ((0x04e8, 0x5120), - 20), ((0x04e8, 0x6818), - 20), ((0x04e8, 0x6845), - 20),
      ((0x04e8, 0x685E), - 20), ((0x04fc, 0x05d8), - 20), ((0x04fc, 0x5720), - 20), ((0x059f, 0x1027), - 20), ((0x059f, 0x103B), - 20),
      ((0x059f, 0x1064), - 20), ((0x059f, 0x1079), - 20), ((0x05ac, 0x8400), - 20), ((0x05ac, 0x8401), - 20), ((0x05ac, 0x8402), - 20),
      ((0x05ac, 0x8403), - 20), ((0x05ac, 0x8404), - 20), ((0x05ac, 0x8405), - 20), ((0x05ac, 0x8406), - 20), ((0x05ac, 0x8407), - 20),
      ((0x067b, 0x2506), - 20), ((0x067b, 0x2517), - 20), ((0x067b, 0x2528), - 20), ((0x067b, 0x2731), - 20), ((0x067b, 0x2733), - 20),
      ((0x067b, 0x3400), - 10), ((0x067b, 0x3500), - 10), ((0x0781, 0x5580), - 20), ((0x07ab, 0xfcab), - 20), ((0x090c, 0x1000), - 20),
      ((0x0930, 0x1400), - 20), ((0x0930, 0x6533), - 20), ((0x0930, 0x653e), - 20), ((0x0930, 0x6544), - 20), ((0x0930, 0x6545), - 20),
      ((0x0bc2, 0x3312), - 20), ((0x152d, 0x0901), - 20), ((0x18a5, 0x0243), - 20), ((0x18a5, 0x0245), - 20), ((0x18a5, 0x0302), - 20),
      ((0x18a5, 0x0304), - 20), ((0x18a5, 0x3327), - 20), ((0x1f75, 0x0917), - 10), ((0x23a9, 0xef18), - 10), ((0x6557, 0x0021), - 5)]"

section \<open>The code\<close>

definition add_score :: "int \<Rightarrow> int list option \<Rightarrow> int list option" where
  "add_score s score_list =
     (case score_list of None \<Rightarrow> None | Some l \<Rightarrow> if length l < 16 then Some (l @ [s]) else None)"

definition name_applies :: "bytes \<Rightarrow> bytes \<Rightarrow> bool" where
  "name_applies strid name =
     (let mlen = length name; wc = (last name = 0x23); n = mlen - (if wc then 1 else 0)
      in strnicmp strid (take n name) \<and>
         (\<not> wc \<or> 0x30 \<le> (strid @ [0]) ! mlen \<and> (strid @ [0]) ! mlen \<le> 0x39))"

text \<open>The first entry of \<open>str_score\<close> that applies.\<close>

primrec known_string :: "bytes \<Rightarrow> (bytes \<times> int) list \<Rightarrow> int option" where
  "known_string strid [] = None"
| "known_string strid (e # entries) =
     (if length (fst e) > length strid then None
      else if name_applies strid (fst e) then Some (snd e)
      else known_string strid entries)"

text \<open>\<^verbatim>\<open>StrStrIA\<close>.\<close>

fun contains_string :: "bytes \<Rightarrow> bytes \<Rightarrow> bool" where
  "contains_string [] t \<longleftrightarrow> t = []"
| "contains_string (c # s) t \<longleftrightarrow> strnicmp (c # s) t \<or> contains_string s t"

definition add_option :: "int option \<Rightarrow> int list option \<Rightarrow> int list option" where
  "add_option s score_list = (case s of None \<Rightarrow> score_list | Some x \<Rightarrow> add_score x score_list)"

fun adjust_loop :: "bytes \<Rightarrow> (bytes \<times> int) list \<Rightarrow> int list option \<Rightarrow> int list option" where
  "adjust_loop strid [] score_list = score_list"
| "adjust_loop strid ((name, s) # entries) score_list =
     adjust_loop strid entries (if contains_string strid name then add_score s score_list else score_list)"

definition size_scores :: "nat \<Rightarrow> int list option \<Rightarrow> int list option" where
  "size_scores drive_size score_list =
     (if drive_size > 800 * 1073741824 then
        let score_list = add_score 15 score_list
        in if drive_size > 1800 * 1073741824 then add_score 15 score_list else score_list
      else if drive_size < 128 * 1073741824 then add_score (- 15) score_list
      else score_list)"

definition IsHDD :: "bool \<Rightarrow> nat \<Rightarrow> u16 \<Rightarrow> u16 \<Rightarrow> bytes option \<Rightarrow> int option" where
  "IsHDD drive_fixed drive_size vid pid strid =
     (let l = size_scores drive_size (if drive_fixed then add_score 3 (Some []) else Some []);
          l = (case strid of None \<Rightarrow> l | Some s \<Rightarrow> adjust_loop s str_adjust (add_option (known_string s str_score) l));
          l = add_option (map_of vid_score vid) l;
          l = add_option (map_of vidpid_score (vid, pid)) l
      in map_option sum_list l)"

section \<open>The score\<close>

lemma add_score_Some [simp]: "length l < 16 \<Longrightarrow> add_score s (Some l) = Some (l @ [s])"
  by (simp add: add_score_def)

lemma adjust_loop_scores:
  "length l + length entries \<le> 16 \<Longrightarrow>
   adjust_loop strid entries (Some l) = Some (l @ map snd (filter (\<lambda>(name, s). contains_string strid name) entries))"
  by (induction entries arbitrary: l) auto

lemma length_adjusted: "length (filter P str_adjust) \<le> 8"
  using length_filter_le [of P str_adjust] by (simp add: str_adjust_def)

definition size_part :: "nat \<Rightarrow> int" where
  "size_part n = (if n > 1800 * 1073741824 then 30 else if n > 800 * 1073741824 then 15 else if n < 128 * 1073741824 then - 15 else 0)"

definition option_part :: "int option \<Rightarrow> int" where
  "option_part s = (case s of None \<Rightarrow> 0 | Some x \<Rightarrow> x)"

lemma size_scores_list:
  assumes "length l \<le> 1"
  shows "\<exists>l'. size_scores n (Some l) = Some l' \<and> length l' \<le> length l + 2 \<and> sum_list l' = sum_list l + size_part n"
  using assms by (auto simp: size_scores_def size_part_def Let_def)

lemma add_option_list:
  assumes "length l < 16"
  shows "\<exists>l'. add_option s (Some l) = Some l' \<and> length l' \<le> length l + 1 \<and> sum_list l' = sum_list l + option_part s"
  using assms by (cases s) (auto simp: add_option_def option_part_def)

text \<open>
  \<^verbatim>\<open>IsHDD\<close> never stores behind its array of scores, and returns the sum of what the type of the drive, its size, the first applicable known name, all the words that adjust
  the score, the vendor and the product contribute.
\<close>

theorem IsHDD_score:
  "IsHDD drive_fixed drive_size vid pid strid =
     Some ((if drive_fixed then 3 else 0) + size_part drive_size +
       (case strid of None \<Rightarrow> 0
        | Some s \<Rightarrow> option_part (known_string s str_score) + (\<Sum>(name, x) \<leftarrow> filter (\<lambda>(name, x). contains_string s name) str_adjust. x)) +
       option_part (map_of vid_score vid) + option_part (map_of vidpid_score (vid, pid)))"
proof -
  define l0 :: "int list" where "l0 = (if drive_fixed then [3] else [])"
  have l0: "length l0 \<le> 1" by (simp add: l0_def)
  obtain l1 where l1: "size_scores drive_size (Some l0) = Some l1" "length l1 \<le> 3" "sum_list l1 = sum_list l0 + size_part drive_size"
    using size_scores_list [OF l0, of drive_size] l0 by fastforce
  define part where "part = (case strid of None \<Rightarrow> 0
      | Some s \<Rightarrow> option_part (known_string s str_score) + (\<Sum>(name, x) \<leftarrow> filter (\<lambda>(name, x). contains_string s name) str_adjust. x))"
  have "\<exists>l2. (case strid of None \<Rightarrow> Some l1 | Some s \<Rightarrow> adjust_loop s str_adjust (add_option (known_string s str_score) (Some l1))) = Some l2 \<and>
      length l2 \<le> 12 \<and> sum_list l2 = sum_list l1 + part"
  proof (cases strid)
    case (Some s)
    obtain l where l: "add_option (known_string s str_score) (Some l1) = Some l" "length l \<le> 4" "sum_list l = sum_list l1 + option_part (known_string s str_score)"
      using add_option_list [of l1 "known_string s str_score"] l1(2) by auto
    have "length str_adjust = 8" by (simp add: str_adjust_def)
    then have "adjust_loop s str_adjust (Some l) = Some (l @ map snd (filter (\<lambda>(name, x). contains_string s name) str_adjust))"
      using l(2) by (intro adjust_loop_scores) simp
    then show ?thesis
      using Some l length_adjusted [of "\<lambda>(name, x). contains_string s name"] by (simp add: part_def case_prod_beta' comp_def)
  qed (use l1(2) in \<open>simp add: part_def\<close>)
  then obtain l2 where l2: "(case strid of None \<Rightarrow> Some l1 | Some s \<Rightarrow> adjust_loop s str_adjust (add_option (known_string s str_score) (Some l1))) = Some l2"
    "length l2 \<le> 12" "sum_list l2 = sum_list l1 + part" by blast
  obtain l3 where l3: "add_option (map_of vid_score vid) (Some l2) = Some l3" "length l3 \<le> 13" "sum_list l3 = sum_list l2 + option_part (map_of vid_score vid)"
    using add_option_list [of l2 "map_of vid_score vid"] l2(2) by auto
  obtain l4 where l4: "add_option (map_of vidpid_score (vid, pid)) (Some l3) = Some l4" "sum_list l4 = sum_list l3 + option_part (map_of vidpid_score (vid, pid))"
    using add_option_list [of l3 "map_of vidpid_score (vid, pid)"] l3(2) by auto
  have "(if drive_fixed then add_score 3 (Some []) else Some []) = Some l0" by (simp add: l0_def)
  then have "IsHDD drive_fixed drive_size vid pid strid = Some (sum_list l4)"
    by (simp add: IsHDD_def Let_def l1(1) l2(1) l3(1) l4(1))
  then show ?thesis using l1(3) l2(3) l3(3) l4(2) by (simp add: l0_def part_def)
qed

section \<open>Names that are not recognised\<close>

text \<open>
  The search ends at the first name that is longer than the identification, so shorter names behind it in the table are not found; and the character compared for a
  digit is the one behind the place of \<^verbatim>\<open>#\<close>.
\<close>

lemma shorter_names_not_found:
  "(map of_char ''PNY'', - 15) \<in> set str_score" "known_string (map of_char ''PNY USB'') str_score = None"
  by (simp_all add: str_score_def of_char_def lower_byte_def strnicmp_def name_applies_def)

lemma digit_misplaced:
  "known_string (map of_char ''STA5'') str_score = Some 10" "known_string (map of_char ''ST3A'') str_score = None"
  by (simp_all add: str_score_def of_char_def lower_byte_def strnicmp_def name_applies_def)

end
