(* ===== verification/Spec2Isabelle.thy ===== *)
theory Spec2Isabelle
  imports Hash Hash_Table Boot_Records Libfat_Open Regex_Compile Syslinux_Patch Fat32_Format Bad_Blocks_Media Revocation Asn1
    Update_Data Fix_Config Hdd_Score
begin

text \<open>
  \<^bold>\<open>Verification of rufus\<close>, the program that makes bootable USB drives, in the port to Linux. The program partitions and formats a
  drive, tests it for bad blocks, writes boot records to it, copies the files of an image, installs boot loaders, and checks
  hashes and boot loaders on the way. This library models the parts of it that compute: the parts that talk to Windows,
  the user or the network are only the arguments of the models.

  \<^bold>\<open>The parts and their theories.\<close> Every operation is a top-level definition with the name it has in the source; a loop of a function is a
  definition of its own. Each theory has first the code and then the properties.

  \<^item> \<^verbatim>\<open>Rufus_Prelude\<close>: machine words, byte strings, \<^verbatim>\<open>memcpy\<close>, bounds-checked reads, little- and big-endian codecs. \<^verbatim>\<open>C_Strings\<close>: \<^verbatim>\<open>strtoul\<close>, \<^verbatim>\<open>atoi\<close>
    and decimal notation, and comparison of strings.

  \<^item> Hashes, \<^verbatim>\<open>src/common/hash.c\<close>. \<^verbatim>\<open>Hash_Words\<close> holds the contexts and the block functions, \<^verbatim>\<open>Hash_Stream\<close> the buffering of a stream into
    blocks with the locale for a hash function, \<^verbatim>\<open>Hash_Md5\<close>, \<^verbatim>\<open>Hash_Sha1\<close> and \<^verbatim>\<open>Hash_Sha2\<close> its interpretations with the standards as
    reference definitions, \<^verbatim>\<open>Hash\<close> the functions \<^verbatim>\<open>HashBuffer\<close>, \<^verbatim>\<open>HashFile\<close> and \<^verbatim>\<open>IsBufferInDB\<close>. They compute the digests of RFC 1321 and FIPS 180-4.

  \<^item> PE images. \<^verbatim>\<open>Pe_Image\<close> models the list of regions, \<^verbatim>\<open>efi_image_parse\<close> and \<^verbatim>\<open>PE256Buffer\<close> of \<^verbatim>\<open>src/common/hash.c\<close>: the list stays sorted and
    disjoint, and the result is the digest of the regions. \<^verbatim>\<open>Pe_Parser\<close> models the PE functions of \<^verbatim>\<open>src/parser.c\<close>; \<^verbatim>\<open>Pe_Resources\<close>
    shows that \<^verbatim>\<open>FindResourceRva\<close> refines a search on trees of resources.

  \<^item> Revoked boot loaders, \<^verbatim>\<open>src/parser.c\<close> and \<^verbatim>\<open>src/common/hash.c\<close>. \<^verbatim>\<open>Sbat\<close> models the list of minimum versions and the loop over a section of
    lines, \<^verbatim>\<open>Revocation\<close> the tests by SBAT, by SVN and by certificate and \<^verbatim>\<open>IsBootloaderRevoked\<close>, which calls them, \<^verbatim>\<open>PE256Buffer\<close> and the PE
    functions: images with outdated components are answered to be revoked.

  \<^item> ASN.1 data, \<^verbatim>\<open>src/parser.c\<close>. \<^verbatim>\<open>Asn1\<close> models \<^verbatim>\<open>get_data_from_asn1\<close> and the encoding of object identifiers: the lookup refines a search in a tree of
    values, and identifiers are decoded to what was encoded.

  \<^item> Configuration files, \<^verbatim>\<open>src/parser.c\<close>. \<^verbatim>\<open>Text_Tokens\<close> models the parser of one line, with the grammar it decides, \<^verbatim>\<open>Text_Files\<close> the functions that read,
    set, insert and replace data in a file: what is set is read back, exactly the occurrences behind the token are replaced, and a failure leaves the file alone or, in one case, empty. \<^verbatim>\<open>Update_Data\<close> models \<^verbatim>\<open>parse_update\<close>, which reads
    the description of a release: it stores what was published, and only allowed characters whatever was received.

  \<^item> \<^verbatim>\<open>Labels\<close>: \<^verbatim>\<open>replace_char\<close>, \<^verbatim>\<open>remove_substr\<close> and \<^verbatim>\<open>sanitize_label\<close> of \<^verbatim>\<open>src/parser.c\<close>. \<^verbatim>\<open>Str_Array\<close>: the growing arrays of strings of
    \<^verbatim>\<open>src/common/stdfn.c\<close>, a refinement of lists.

  \<^item> Images, \<^verbatim>\<open>src/iso.c\<close>. \<^verbatim>\<open>Iso_Props\<close> models \<^verbatim>\<open>check_iso_props\<close>, which is applied to every file of an image: the report says what files there are, and its fixed fields are never
    overrun. \<^verbatim>\<open>Fix_Config\<close> models \<^verbatim>\<open>fix_config\<close>, which combines \<^verbatim>\<open>Text_Files\<close>, \<^verbatim>\<open>Labels\<close> and \<^verbatim>\<open>Str_Array\<close>: every change of a file is recorded.

  \<^item> \<^verbatim>\<open>Hdd_Score\<close>: \<^verbatim>\<open>IsHDD\<close> of \<^verbatim>\<open>src/smart.c\<close> with the tables of \<^verbatim>\<open>src/common/hdd_vs_ufd.h\<close>, a sum of scores that fit their array.

  \<^item> \<^verbatim>\<open>Hash_Table\<close>: the table of strings of \<^verbatim>\<open>src/common/stdfn.c\<close>, a refinement of an insert-or-lookup on finite maps.

  \<^item> Boot records, \<^verbatim>\<open>src/ms-sys/\<close>. \<^verbatim>\<open>Sector_File\<close> models access to bytes through sectors, on Windows and Linux, \<^verbatim>\<open>Boot_Data\<close> the boot
    records as data, \<^verbatim>\<open>Boot_Records\<close> all recognisers and writers: what is written through the Windows layer is recognised, and the tables in it are kept;
    through the Linux layer the second write is displaced.

  \<^item> The FAT reader, \<^verbatim>\<open>src/syslinux/libfat/\<close>: \<^verbatim>\<open>Libfat\<close> models the cache, the cluster chains and the search of a directory,
    \<^verbatim>\<open>Libfat_Open\<close> the opening of a file system and its geometry.

  \<^item> Formatting with FAT32, \<^verbatim>\<open>src/format_fat32.c\<close>: \<^verbatim>\<open>Fat32_Layout\<close> models the layout and the sectors, \<^verbatim>\<open>Fat32_Format\<close> what
    \<^verbatim>\<open>FormatLargeFAT32\<close> writes; the result is a file system that the model of libfat opens, with an empty root directory.

  \<^item> The test for bad blocks, \<^verbatim>\<open>src/badblocks.c\<close>: \<^verbatim>\<open>Bad_Block_List\<close> models the list of blocks, which implements a set, \<^verbatim>\<open>Bad_Blocks\<close> the patterns, the
    passes and their loops over an arbitrary device, \<^verbatim>\<open>Bad_Blocks_Media\<close> what is found on drives with bad blocks and on
    drives that are smaller than they claim.

  \<^item> Regular expressions, \<^verbatim>\<open>src/re.c\<close>: \<^verbatim>\<open>Regex\<close> models the matcher, which decides the language of a compiled pattern, \<^verbatim>\<open>Regex_Compile\<close> the
    compiler, which stays inside its static arrays.

  \<^item> Syslinux, \<^verbatim>\<open>src/syslinux/libinstaller/\<close>: \<^verbatim>\<open>Syslinux_Adv\<close> models the auxiliary data vector, \<^verbatim>\<open>Syslinux_Patch\<close> the
    extents and the patch of the boot image.

  \<^bold>\<open>State and errors.\<close> A structure is a record, a pointer into a buffer its offset. State is passed explicitly; the device, the drive and
  the memory of an image are part of it where the code changes them. Result codes are values; a read or write outside an object is \<open>None\<close> or a result
  of its own, so that a theorem with a result also says that there is none. Allocation that fails is modelled in the list of bad
  blocks, for the buffer of the bad block test, in the arrays of strings and for the temporary name of a text file. Everywhere else allocations succeed and the branches of the code for their failure are left
  out: in the table of strings (\<^verbatim>\<open>htab_create\<close>, \<^verbatim>\<open>htab_hash\<close>), \<^verbatim>\<open>libfat_open\<close> and the sector cache (\<^verbatim>\<open>libfat_get_sector\<close>), \<^verbatim>\<open>FormatLargeFAT32\<close>, the buffers of \<^verbatim>\<open>read_data\<close>, \<^verbatim>\<open>write_data\<close> and \<^verbatim>\<open>contains_data\<close>, the region
  list of \<^verbatim>\<open>efi_image_parse\<close>, the strings of \<^verbatim>\<open>replace_char\<close>, \<^verbatim>\<open>remove_substr\<close>, \<^verbatim>\<open>sanitize_label\<close>, \<^verbatim>\<open>oid_from_str\<close>, \<^verbatim>\<open>GetSbatEntries\<close> and \<^verbatim>\<open>IsBootloaderRevoked\<close>, and in \<^verbatim>\<open>fix_config\<close>. Unsigned integers are words where they can wrap around, and natural numbers with a bound where they cannot.

  \<^bold>\<open>Loops.\<close> Loops that always end are functions with a measure. Loops that need not end for every input are partial functions or
  \<open>while_option\<close>, with \<open>None\<close> for a loop without end, and the theorems on them state that there is a result: for the
  search of a directory on a finite chain, for the data vector on a consistent one, for the passes of the bad block test always. The
  only bound chosen from outside is the number of nested calls in \<^verbatim>\<open>find_resource\<close>: it stands for the stack, and the height of the tree
  of resources is enough.

  \<^bold>\<open>Interfaces.\<close> The locales are the laws that clients use: \<^verbatim>\<open>block_transform\<close> and \<^verbatim>\<open>hash_algorithm\<close> (\<^verbatim>\<open>Hash_Stream\<close>), a Merkle-Damgard hash over a block
  function; \<^verbatim>\<open>byte_store\<close> (\<^verbatim>\<open>Boot_Records\<close>), access to the bytes of a drive; \<^verbatim>\<open>string_interner\<close> (\<^verbatim>\<open>Hash_Table\<close>); \<^verbatim>\<open>block_set\<close> (\<^verbatim>\<open>Bad_Block_List\<close>);
  \<^verbatim>\<open>string_list\<close> (\<^verbatim>\<open>Str_Array\<close>). Each is interpreted on the models. Code that is not in the repository is an argument: \<^verbatim>\<open>qsort\<close>, the reads and writes of a device,
  random numbers and the clock, \<^verbatim>\<open>malloc\<close>, the Windows calls that find the issuer of a certificate and convert between UTF-8 and UTF-16, and the
  encoder of text files.

  \<^bold>\<open>Flaws.\<close> Where the code does not do what it means to, a theorem says what it does: for example a line of the SBAT section with two
  fields hides the next line, blocks from a short read are not compared, an MD5 write reads past its input, or the second write of a boot record on Linux
  lands at the wrong place.

  \<^bold>\<open>Not modelled.\<close> The vendored libraries (bled, ext2fs, libcdio, getopt, the string functions from Wine) are third-party code.
  The user interface, the enumeration of devices, the network, signatures, processes, virtual disks, the copying of ISO files and the answer files
  for Windows consist of calls of the Windows API and have little state of their own. The parser of locale files in \<^verbatim>\<open>src/parser.c\<close> fills the message tables of the user
  interface. The assembly variants of SHA-1 and SHA-256 and the threads of the hash dialog are left out.
\<close>

end
